(* ===== verification/Prelude.thy ===== *)
theory Prelude
  imports Main "HOL-Library.Word" "HOL-Library.Sublist"
begin

unbundle bit_operations_syntax

text \<open>
  Shared vocabulary of the development: the machine integers of the C++ sources, byte strings,
  the collections of simplification rules that the component theories extend, and generic facts
  on lists and words that more than one component needs.
\<close>

section \<open>Machine integers and byte strings\<close>

text \<open>
  \<^verbatim>\<open>std::uint8_t\<close> \dots \<^verbatim>\<open>std::uint64_t\<close> are words, so that arithmetic wraps exactly where
  the C++ does. \<^verbatim>\<open>std::size_t\<close> values are lengths of objects in memory and are modelled by
  \<open>nat\<close>. \<^verbatim>\<open>std::string\<close>, \<^verbatim>\<open>std::string_view\<close>, \<^verbatim>\<open>std::vector<uint8_t>\<close> and
  \<^verbatim>\<open>std::span<uint8_t>\<close> are all lists of bytes.
\<close>

type_synonym u8 = "8 word"
type_synonym u16 = "16 word"
type_synonym u32 = "32 word"
type_synonym u64 = "64 word"
type_synonym bytes = "8 word list"

definition ascii :: "string \<Rightarrow> bytes" where
  "ascii s = map of_char s"

text \<open>Rules for the write side, for the read side and for the encodings of whole messages.\<close>

named_theorems writer_simps
named_theorems reader_intros
named_theorems reader_sound
named_theorems decodes_intros
named_theorems yields_intros
named_theorems message_defs
named_theorems db_simps
named_theorems handler_defs

section \<open>Lists\<close>

lemma take_drop_prefix:
  assumes "drop k xs = ys @ zs"
  shows "take (length ys) (drop k xs) = ys" and "drop (k + length ys) xs = zs"
proof -
  show "take (length ys) (drop k xs) = ys" using assms by simp
  have "drop (k + length ys) xs = drop (length ys) (drop k xs)" by (simp add: add.commute)
  then show "drop (k + length ys) xs = zs" using assms by simp
qed

lemma drop_eq_append_length:
  assumes "drop k xs = ys @ zs" and "k \<le> length xs"
  shows "k + length ys \<le> length xs"
proof -
  have "length (drop k xs) = length ys + length zs" using assms(1) by simp
  then show ?thesis using assms(2) by simp
qed

lemma append_eq_same_length:
  "xs @ us = ys @ vs \<Longrightarrow> length xs = length ys \<Longrightarrow> xs = ys \<and> us = vs"
  by simp

lemma filter_map_le_length: "length (filter P (map f xs)) \<le> length xs"
  using length_filter_le [of P "map f xs"] by simp

lemma length_concat_map_le:
  assumes "\<And>x. x \<in> set xs \<Longrightarrow> length (f x) \<le> b"
  shows "length (concat (map f xs)) \<le> length xs * b"
  using assms
proof (induction xs)
  case Nil
  then show ?case by simp
next
  case (Cons x xs)
  have "length (f x) \<le> b" using Cons.prems by simp
  moreover have "length (concat (map f xs)) \<le> length xs * b" using Cons by simp
  ultimately show ?case by simp
qed

section \<open>Words\<close>

lemma bit_u8_bound: "bit (b :: u8) j \<Longrightarrow> j < 8"
  by (drule bit_imp_le_length) simp

lemma unat_of_nat_small: "n < 2 ^ LENGTH('a) \<Longrightarrow> unat (word_of_nat n :: 'a::len word) = n"
  by (simp add: unat_of_nat take_bit_eq_mod)

lemma unat_u32_of_nat: "n < 4294967296 \<Longrightarrow> unat (word_of_nat n :: u32) = n"
  by (rule unat_of_nat_small) simp

lemma unat_u16_of_nat: "n < 65536 \<Longrightarrow> unat (word_of_nat n :: u16) = n"
  by (rule unat_of_nat_small) simp

lemma word_of_nat_unat [simp]: "word_of_nat (unat (w :: 'a::len word)) = w"
  by simp

lemma length_ascii [simp]: "length (ascii s) = length s"
  by (simp add: ascii_def)

lemma unat_plus_one:
  assumes "(x :: 'a::len word) < y"
  shows "unat (x + 1) = unat x + 1"
proof -
  have "unat x < unat y" using assms by (simp add: word_less_nat_alt)
  moreover have "unat y < 2 ^ LENGTH('a)" by (rule unsigned_less)
  ultimately have "unat x + 1 < 2 ^ LENGTH('a)" by linarith
  then show ?thesis by (simp add: unat_word_ariths)
qed

end
