(* ===== verification/Byte_Codec.thy ===== *)
theory Byte_Codec
  imports Prelude
begin

text \<open>
  The bottom of the wire protocol (\<^verbatim>\<open>src/common/protocol\<close>): the protocol bounds, the
  little-endian integer codec, the bounds-checked \<^verbatim>\<open>byte_reader\<close> and the \<^verbatim>\<open>byte_writer\<close>.
  A reader operation returns its result, \<open>None\<close> for the C++ \<^verbatim>\<open>false\<close>, together with the
  reader after the call, because a failing operation may already have consumed input.
\<close>

section \<open>Protocol limits\<close>

abbreviation (input) PROTOCOL_VERSION :: u16 where "PROTOCOL_VERSION \<equiv> 1"
definition FRAME_LENGTH_FIELD_SIZE :: nat where [simp]: "FRAME_LENGTH_FIELD_SIZE = 4"
definition FRAME_TYPE_FIELD_SIZE :: nat where [simp]: "FRAME_TYPE_FIELD_SIZE = 1"
definition FRAME_HEADER_SIZE :: nat where
  [simp]: "FRAME_HEADER_SIZE = FRAME_LENGTH_FIELD_SIZE + FRAME_TYPE_FIELD_SIZE"
definition MAX_FRAME_SIZE :: nat where [simp]: "MAX_FRAME_SIZE = 1024 * 1024"
definition MAX_BODY_SIZE :: nat where
  [simp]: "MAX_BODY_SIZE = MAX_FRAME_SIZE - FRAME_LENGTH_FIELD_SIZE"
definition MAX_PAYLOAD_SIZE :: nat where
  [simp]: "MAX_PAYLOAD_SIZE = MAX_FRAME_SIZE - FRAME_HEADER_SIZE"
definition PUBLIC_KEY_SIZE :: nat where [simp]: "PUBLIC_KEY_SIZE = 32"
definition SIGNATURE_SIZE :: nat where [simp]: "SIGNATURE_SIZE = 64"
definition AUTH_NONCE_SIZE :: nat where [simp]: "AUTH_NONCE_SIZE = 32"
definition MAX_HANDLE_LENGTH :: nat where [simp]: "MAX_HANDLE_LENGTH = 32"
definition MAX_FORUM_NAME_LENGTH :: nat where [simp]: "MAX_FORUM_NAME_LENGTH = 48"
definition MAX_FORUM_DESCRIPTION_LENGTH :: nat where [simp]: "MAX_FORUM_DESCRIPTION_LENGTH = 512"
definition MAX_POST_TITLE_LENGTH :: nat where [simp]: "MAX_POST_TITLE_LENGTH = 200"
definition MAX_POST_BODY_LENGTH :: nat where [simp]: "MAX_POST_BODY_LENGTH = 16 * 1024"
definition MAX_POST_PREVIEW_LENGTH :: nat where [simp]: "MAX_POST_PREVIEW_LENGTH = 280"
definition MAX_COMMENT_BODY_LENGTH :: nat where [simp]: "MAX_COMMENT_BODY_LENGTH = 8 * 1024"
definition MAX_DISPLAY_NAME_LENGTH :: nat where [simp]: "MAX_DISPLAY_NAME_LENGTH = 48"
definition MAX_BIO_LENGTH :: nat where [simp]: "MAX_BIO_LENGTH = 2048"
definition MAX_THEME_JSON_LENGTH :: nat where [simp]: "MAX_THEME_JSON_LENGTH = 1024"
definition MAX_BLOB_REFERENCE_LENGTH :: nat where [simp]: "MAX_BLOB_REFERENCE_LENGTH = 96"
definition MAX_ERROR_MESSAGE_LENGTH :: nat where [simp]: "MAX_ERROR_MESSAGE_LENGTH = 256"
definition MAX_MOTD_LENGTH :: nat where [simp]: "MAX_MOTD_LENGTH = 4096"
definition MAX_REPORT_REASON_LENGTH :: nat where [simp]: "MAX_REPORT_REASON_LENGTH = 500"
definition MAX_DM_CIPHERTEXT_SIZE :: nat where [simp]: "MAX_DM_CIPHERTEXT_SIZE = 64 * 1024"
definition MAX_LIST_ITEMS :: u16 where [simp]: "MAX_LIST_ITEMS = 200"
definition DEFAULT_LIST_ITEMS :: u16 where [simp]: "DEFAULT_LIST_ITEMS = 50"
definition MAX_THREAD_COMMENTS :: u16 where [simp]: "MAX_THREAD_COMMENTS = 500"
definition MAX_DM_BATCH_ITEMS :: u16 where [simp]: "MAX_DM_BATCH_ITEMS = 100"
definition MAX_FRIEND_ITEMS :: u16 where [simp]: "MAX_FRIEND_ITEMS = 500"
definition TOP8_SLOT_COUNT :: nat where [simp]: "TOP8_SLOT_COUNT = 8"

section \<open>Little-endian integers\<close>

definition size_of :: "'a::len itself \<Rightarrow> nat" where
  "size_of _ = LENGTH('a) div 8"

lemma size_of_simps [simp]:
  "size_of TYPE(8) = 1" "size_of TYPE(16) = 2" "size_of TYPE(32) = 4" "size_of TYPE(64) = 8"
  by (simp_all add: size_of_def)

definition load_little_endian :: "bytes \<Rightarrow> 'a::len word option" where
  "load_little_endian source =
     (if length source < size_of TYPE('a) then None
      else Some (fold (\<lambda>index value. value OR push_bit (index * 8) (ucast (source ! index)))
                   [0..<size_of TYPE('a)] 0))"

definition store_little_endian :: "'a::len word \<Rightarrow> bytes \<Rightarrow> bytes option" where
  "store_little_endian value target =
     (if length target < size_of TYPE('a) then None
      else Some (fold (\<lambda>index t. t[index := ucast (drop_bit (index * 8) value AND 0xFF)])
                   [0..<size_of TYPE('a)] target))"

text \<open>The bytes of an integer, in the order they travel.\<close>

definition le_bytes :: "'a::len word \<Rightarrow> bytes" where
  "le_bytes value = map (\<lambda>index. ucast (drop_bit (index * 8) value AND 0xFF)) [0..<size_of TYPE('a)]"

lemma length_le_bytes [simp]: "length (le_bytes (v :: 'a::len word)) = size_of TYPE('a)"
  by (simp add: le_bytes_def)

lemma fold_list_update:
  "n \<le> length t \<Longrightarrow>
   fold (\<lambda>i t. t[i := f i]) [0..<n] t = map f [0..<n] @ drop n t"
proof (induction n)
  case 0
  then show ?case by simp
next
  case (Suc n)
  then have n: "n < length t" by simp
  have "fold (\<lambda>i t. t[i := f i]) [0..<Suc n] t = (map f [0..<n] @ drop n t)[n := f n]"
    using Suc by simp
  also have "\<dots> = map f [0..<Suc n] @ drop (Suc n) t"
    using n by (simp add: list_update_append Cons_nth_drop_Suc [symmetric])
  finally show ?case .
qed

lemma store_little_endian_eq:
  "store_little_endian (v :: 'a::len word) t =
     (if length t < size_of TYPE('a) then None
      else Some (le_bytes v @ drop (size_of TYPE('a)) t))"
  by (simp add: store_little_endian_def le_bytes_def fold_list_update)

lemma bit_le_byte:
  assumes "i < size_of TYPE('a)"
  shows "bit (le_bytes (v :: 'a::len word) ! i) j \<longleftrightarrow> j < 8 \<and> bit v (i * 8 + j)"
proof -
  have "bit (0xFF :: 'a word) j \<longleftrightarrow> j < 8 \<and> j < LENGTH('a)"
  proof -
    have "bit (mask 8 :: 'a word) j \<longleftrightarrow> j < 8 \<and> j < LENGTH('a)"
      by (auto simp: bit_mask_iff)
    moreover have "(mask 8 :: 'a word) = 0xFF" by (simp add: mask_eq_exp_minus_1)
    ultimately show ?thesis by (simp only:)
  qed
  then show ?thesis
    using assms by (auto simp: le_bytes_def bit_simps dest: bit_imp_le_length)
qed

lemma bit_fold_or:
  "bit (fold (\<lambda>i v. v OR push_bit (i * 8) (ucast (bs ! i))) [0..<m] 0 :: 'a::len word) k \<longleftrightarrow>
     k < LENGTH('a) \<and> (\<exists>i<m. i * 8 \<le> k \<and> bit ((bs :: bytes) ! i) (k - i * 8))"
proof (induction m)
  case 0
  then show ?case by simp
next
  case (Suc m)
  have "bit (fold (\<lambda>i v. v OR push_bit (i * 8) (ucast (bs ! i))) [0..<Suc m] 0 :: 'a word) k \<longleftrightarrow>
      k < LENGTH('a) \<and> ((\<exists>i<m. i * 8 \<le> k \<and> bit (bs ! i) (k - i * 8)) \<or>
        (m * 8 \<le> k \<and> bit (bs ! m) (k - m * 8)))"
    using Suc by (auto simp: bit_or_iff bit_push_bit_iff bit_unsigned_iff dest: bit_imp_le_length)
  also have "\<dots> \<longleftrightarrow> k < LENGTH('a) \<and> (\<exists>i<Suc m. i * 8 \<le> k \<and> bit (bs ! i) (k - i * 8))"
    by (auto simp: less_Suc_eq)
  finally show ?case .
qed

lemma byte_index_unique:
  assumes "i * 8 \<le> k" and "bit (b :: u8) (k - i * 8)"
  shows "i = k div 8" and "k - i * 8 = k mod 8"
proof -
  have "k - i * 8 < 8" using assms(2) by (rule bit_u8_bound)
  then show "i = k div 8" using assms(1) by linarith
  then show "k - i * 8 = k mod 8" by (simp add: minus_div_mult_eq_mod)
qed

lemma bit_load:
  "bit (fold (\<lambda>i v. v OR push_bit (i * 8) (ucast (bs ! i))) [0..<m] 0 :: 'a::len word) k \<longleftrightarrow>
     k < LENGTH('a) \<and> k div 8 < m \<and> bit ((bs :: bytes) ! (k div 8)) (k mod 8)"
proof -
  have "(\<exists>i<m. i * 8 \<le> k \<and> bit (bs ! i) (k - i * 8)) \<longleftrightarrow>
      k div 8 < m \<and> bit (bs ! (k div 8)) (k mod 8)"
  proof
    assume "\<exists>i<m. i * 8 \<le> k \<and> bit (bs ! i) (k - i * 8)"
    then obtain i where i: "i < m" "i * 8 \<le> k" "bit (bs ! i) (k - i * 8)" by blast
    with byte_index_unique [OF i(2,3)] show "k div 8 < m \<and> bit (bs ! (k div 8)) (k mod 8)"
      by metis
  next
    assume "k div 8 < m \<and> bit (bs ! (k div 8)) (k mod 8)"
    then show "\<exists>i<m. i * 8 \<le> k \<and> bit (bs ! i) (k - i * 8)"
      by (intro exI [of _ "k div 8"]) (simp add: minus_div_mult_eq_mod)
  qed
  then show ?thesis by (simp add: bit_fold_or)
qed

lemma load_le_bytes:
  assumes "8 dvd LENGTH('a)"
  shows "load_little_endian (le_bytes (v :: 'a::len word) @ rest) = Some v"
proof -
  let ?n = "size_of TYPE('a)"
  have n: "?n * 8 = LENGTH('a)" using assms by (simp add: size_of_def)
  have "fold (\<lambda>i acc. acc OR push_bit (i * 8) (ucast ((le_bytes v @ rest) ! i))) [0..<?n] 0 = v"
  proof (rule bit_word_eqI)
    fix k assume k: "k < LENGTH('a)"
    then have "k div 8 < ?n" using n by linarith
    then show "bit (fold (\<lambda>i acc. acc OR push_bit (i * 8) (ucast ((le_bytes v @ rest) ! i)))
        [0..<?n] 0 :: 'a word) k = bit v k"
      unfolding bit_load using k by (simp add: nth_append bit_le_byte)
  qed
  then show ?thesis by (simp add: load_little_endian_def)
qed

lemma load_little_endian_Some:
  assumes "8 dvd LENGTH('a)" and "load_little_endian bs = Some (v :: 'a::len word)"
  shows "bs = le_bytes v @ drop (size_of TYPE('a)) bs"
proof -
  let ?n = "size_of TYPE('a)"
  have n: "?n * 8 = LENGTH('a)" using assms(1) by (simp add: size_of_def)
  have len: "?n \<le> length bs"
    and v: "v = fold (\<lambda>i v. v OR push_bit (i * 8) (ucast (bs ! i))) [0..<?n] 0"
    using assms(2) by (auto simp: load_little_endian_def split: if_splits)
  have "le_bytes v = take ?n bs"
  proof (rule nth_equalityI)
    show "length (le_bytes v) = length (take ?n bs)" using len by simp
  next
    fix i assume "i < length (le_bytes v)"
    then have i: "i < ?n" by simp
    show "le_bytes v ! i = take ?n bs ! i"
    proof (rule bit_word_eqI)
      fix j assume "j < LENGTH(8)"
      then have j: "j < 8" by simp
      then have "i * 8 + j < LENGTH('a)" using i n by linarith
      then show "bit (le_bytes v ! i) j = bit (take ?n bs ! i) j"
        using i j by (simp add: bit_le_byte) (simp add: v bit_load)
    qed
  qed
  then show ?thesis by (simp add: append_take_drop_id)
qed

section \<open>The reader\<close>

record byte_reader =
  br_buffer :: bytes
  br_offset :: nat

type_synonym 'a reader = "byte_reader \<Rightarrow> 'a option \<times> byte_reader"

definition byte_reader_of :: "bytes \<Rightarrow> byte_reader" where
  "byte_reader_of buffer = \<lparr>br_buffer = buffer, br_offset = 0\<rparr>"

definition count_remaining_bytes :: "byte_reader \<Rightarrow> nat" where
  "count_remaining_bytes r = length (br_buffer r) - br_offset r"

definition take_slice :: "nat \<Rightarrow> bytes reader" where
  "take_slice n r =
     (if n > count_remaining_bytes r then (None, r)
      else (Some (take n (drop (br_offset r) (br_buffer r))),
            r\<lparr>br_offset := br_offset r + n\<rparr>))"

text \<open>
  The short-circuit \<^verbatim>\<open>&&\<close> of the \<^verbatim>\<open>read_from\<close> functions: the second read runs on the reader
  the first one left behind, and a failure ends the chain.
\<close>

definition rd_bind :: "'a reader \<Rightarrow> ('a \<Rightarrow> 'b reader) \<Rightarrow> 'b reader" where
  "rd_bind m f r = (case m r of (None, r') \<Rightarrow> (None, r') | (Some a, r') \<Rightarrow> f a r')"

definition rd_return :: "'a \<Rightarrow> 'a reader" where
  "rd_return a r = (Some a, r)"

definition rd_fail :: "'a reader" where
  "rd_fail r = (None, r)"

definition read_integer :: "'a::len word reader" where
  "read_integer r =
     (case take_slice (size_of TYPE('a)) r of
        (None, r') \<Rightarrow> (None, r')
      | (Some bs, r') \<Rightarrow> (load_little_endian bs, r'))"

definition read_fixed_bytes :: "nat \<Rightarrow> bytes reader" where
  "read_fixed_bytes n = take_slice n"

definition read_length_prefixed :: "nat \<Rightarrow> bytes reader" where
  "read_length_prefixed maximum_length =
     rd_bind read_integer (\<lambda>announced_length :: u32. \<lambda>r.
       let len = unat announced_length in
       if len > maximum_length \<or> len > count_remaining_bytes r then (None, r)
       else take_slice len r)"

section \<open>The writer\<close>

record byte_writer =
  bw_target :: bytes
  bw_initial_size :: nat

definition byte_writer_of :: "bytes \<Rightarrow> byte_writer" where
  "byte_writer_of target = \<lparr>bw_target = target, bw_initial_size = length target\<rparr>"

definition write_integer :: "'a::len word \<Rightarrow> byte_writer \<Rightarrow> byte_writer" where
  "write_integer value w =
     (let offset = length (bw_target w);
          resized = bw_target w @ replicate (size_of TYPE('a)) 0
      in w\<lparr>bw_target :=
             (case store_little_endian value (drop offset resized) of
                None \<Rightarrow> resized | Some stored \<Rightarrow> take offset resized @ stored)\<rparr>)"

definition write_fixed_bytes :: "bytes \<Rightarrow> byte_writer \<Rightarrow> byte_writer" where
  "write_fixed_bytes data w = w\<lparr>bw_target := bw_target w @ data\<rparr>"

definition write_length_prefixed :: "bytes \<Rightarrow> byte_writer \<Rightarrow> byte_writer" where
  "write_length_prefixed data w =
     write_fixed_bytes data (write_integer (word_of_nat (length data) :: u32) w)"

definition count_written_bytes :: "byte_writer \<Rightarrow> nat" where
  "count_written_bytes w = length (bw_target w) - bw_initial_size w"

text \<open>A sequence of writes, in source order.\<close>

primrec write_seq :: "(byte_writer \<Rightarrow> byte_writer) list \<Rightarrow> byte_writer \<Rightarrow> byte_writer" where
  "write_seq [] w = w"
| "write_seq (f # fs) w = write_seq fs (f w)"

end
