(* ===== verification/Codec_Interface.thy ===== *)
theory Codec_Interface
  imports Byte_Codec
begin

text \<open>
  The contract every message of the wire protocol meets, as a locale: writing appends a fixed
  encoding, reading it back gives the value, a successful read consumed exactly the encoding of
  what it returned, and no read leaves its buffer. Client lemmas (unique decoding, rejection of
  truncated input, counted lists) are proved once here and reach each message by interpretation.
\<close>

section \<open>Well-formed readers and what is left to read\<close>

definition br_ok :: "byte_reader \<Rightarrow> bool" where
  "br_ok r \<longleftrightarrow> br_offset r \<le> length (br_buffer r)"

definition unread :: "byte_reader \<Rightarrow> bytes" where
  "unread r = drop (br_offset r) (br_buffer r)"

definition advance :: "nat \<Rightarrow> byte_reader \<Rightarrow> byte_reader" where
  "advance n r = r\<lparr>br_offset := br_offset r + n\<rparr>"

lemma br_ok_byte_reader_of [simp]: "br_ok (byte_reader_of bs)"
  by (simp add: br_ok_def byte_reader_of_def)

lemma unread_byte_reader_of [simp]: "unread (byte_reader_of bs) = bs"
  by (simp add: unread_def byte_reader_of_def)

lemma advance_0 [simp]: "advance 0 r = r"
  by (simp add: advance_def)

lemma advance_advance [simp]: "advance m (advance n r) = advance (n + m) r"
  by (simp add: advance_def add.assoc)

lemma length_unread: "br_ok r \<Longrightarrow> length (unread r) = count_remaining_bytes r"
  by (simp add: unread_def count_remaining_bytes_def)

lemma unread_advance:
  assumes "unread r = bs @ ys"
  shows "unread (advance (length bs) r) = ys"
  using take_drop_prefix(2) [of "br_offset r" "br_buffer r" bs ys] assms
  by (simp add: unread_def advance_def)

lemma br_ok_advance:
  assumes "br_ok r" and "unread r = bs @ ys"
  shows "br_ok (advance (length bs) r)"
  using drop_eq_append_length [of "br_offset r" "br_buffer r" bs ys] assms
  by (simp add: br_ok_def unread_def advance_def)

section \<open>Reader safety\<close>

text \<open>
  A safe reader keeps the buffer, never moves backwards and never leaves the buffer, whether it
  succeeds or fails.
\<close>

definition safe_reader :: "'a reader \<Rightarrow> bool" where
  "safe_reader rd \<longleftrightarrow> (\<forall>r. br_ok r \<longrightarrow>
     br_buffer (snd (rd r)) = br_buffer r \<and> br_offset r \<le> br_offset (snd (rd r)) \<and>
     br_ok (snd (rd r)))"

lemma safe_readerD:
  assumes "safe_reader rd" and "br_ok r" and "rd r = (x, r')"
  shows "br_buffer r' = br_buffer r" and "br_offset r \<le> br_offset r'" and "br_ok r'"
proof -
  have "br_buffer (snd (rd r)) = br_buffer r \<and> br_offset r \<le> br_offset (snd (rd r)) \<and>
      br_ok (snd (rd r))"
    using assms(1,2) unfolding safe_reader_def by blast
  then show "br_buffer r' = br_buffer r" and "br_offset r \<le> br_offset r'" and "br_ok r'"
    using assms(3) by simp_all
qed

lemma safe_bind [reader_intros]:
  assumes m: "safe_reader m" and f: "\<And>a. safe_reader (f a)"
  shows "safe_reader (rd_bind m f)"
  unfolding safe_reader_def
proof (intro allI impI)
  fix r assume r: "br_ok r"
  obtain x r1 where mr: "m r = (x, r1)" by fastforce
  note r1 = safe_readerD [OF m r mr]
  show "br_buffer (snd (rd_bind m f r)) = br_buffer r \<and>
      br_offset r \<le> br_offset (snd (rd_bind m f r)) \<and> br_ok (snd (rd_bind m f r))"
  proof (cases x)
    case None
    then show ?thesis using r1 mr by (simp add: rd_bind_def)
  next
    case (Some a)
    obtain y r2 where fr: "f a r1 = (y, r2)" by fastforce
    note r2 = safe_readerD [OF f r1(3) fr]
    show ?thesis using r1 r2 mr fr Some by (simp add: rd_bind_def)
  qed
qed

lemma safe_return [reader_intros]: "safe_reader (rd_return a)"
  by (simp add: safe_reader_def rd_return_def)

lemma safe_fail [reader_intros]: "safe_reader rd_fail"
  by (simp add: safe_reader_def rd_fail_def)

lemma safe_if [reader_intros]:
  "safe_reader m \<Longrightarrow> safe_reader n \<Longrightarrow> safe_reader (if b then m else n)"
  by simp

lemma safe_take_slice [reader_intros]: "safe_reader (take_slice n)"
  by (auto simp: safe_reader_def take_slice_def br_ok_def count_remaining_bytes_def)

lemma safe_read_integer [reader_intros]: "safe_reader (read_integer :: 'a::len word reader)"
proof -
  have "snd (read_integer r :: 'a word option \<times> byte_reader) = snd (take_slice (size_of TYPE('a)) r)"
    for r by (simp add: read_integer_def split: prod.splits option.splits)
  then show ?thesis
    using safe_take_slice [of "size_of TYPE('a)"] by (simp add: safe_reader_def)
qed

lemma safe_read_fixed_bytes [reader_intros]: "safe_reader (read_fixed_bytes n)"
  by (simp add: read_fixed_bytes_def safe_take_slice)

lemma safe_read_length_prefixed [reader_intros]: "safe_reader (read_length_prefixed m)"
  unfolding read_length_prefixed_def
proof (rule safe_bind [OF safe_read_integer])
  fix a :: u32
  show "safe_reader (\<lambda>r. let len = unat a in
      if len > m \<or> len > count_remaining_bytes r then (None, r) else take_slice len r)"
    using safe_take_slice [of "unat a"] by (simp add: safe_reader_def Let_def)
qed

section \<open>Decoding a given encoding\<close>

text \<open>Wherever \<open>bs\<close> is next, the reader returns \<open>x\<close> and consumes exactly \<open>bs\<close>.\<close>

definition decodes :: "'a reader \<Rightarrow> 'a \<Rightarrow> bytes \<Rightarrow> bool" where
  "decodes rd x bs \<longleftrightarrow> (\<forall>r ys. br_ok r \<longrightarrow> unread r = bs @ ys \<longrightarrow>
     rd r = (Some x, advance (length bs) r))"

lemma decodesD:
  "decodes rd x bs \<Longrightarrow> br_ok r \<Longrightarrow> unread r = bs @ ys \<Longrightarrow> rd r = (Some x, advance (length bs) r)"
  unfolding decodes_def by blast

lemma decodes_return [reader_intros]: "decodes (rd_return x) x []"
  by (simp add: decodes_def rd_return_def)

lemma decodes_bind [reader_intros]:
  assumes m: "decodes m a bs" and f: "decodes (f a) x cs"
  shows "decodes (rd_bind m f) x (bs @ cs)"
  unfolding decodes_def
proof (intro allI impI)
  fix r ys assume r: "br_ok r" "unread r = (bs @ cs) @ ys"
  have 1: "unread r = bs @ (cs @ ys)" using r(2) by simp
  have 2: "m r = (Some a, advance (length bs) r)" by (rule decodesD [OF m r(1) 1])
  have 3: "f a (advance (length bs) r) = (Some x, advance (length cs) (advance (length bs) r))"
    by (rule decodesD [OF f br_ok_advance [OF r(1) 1] unread_advance [OF 1]])
  show "rd_bind m f r = (Some x, advance (length (bs @ cs)) r)"
    using 2 3 by (simp add: rd_bind_def)
qed

lemma decodes_if [reader_intros]:
  "b \<Longrightarrow> decodes m x bs \<Longrightarrow> decodes (if b then m else n) x bs"
  "\<not> b \<Longrightarrow> decodes n x bs \<Longrightarrow> decodes (if b then m else n) x bs"
  by simp_all

lemma decodes_take_slice:
  assumes "length bs = n"
  shows "decodes (take_slice n) bs bs"
  unfolding decodes_def
proof (intro allI impI)
  fix r ys assume r: "br_ok r" "unread r = bs @ ys"
  have "n \<le> count_remaining_bytes r"
    using length_unread [OF r(1)] r(2) assms by simp
  moreover have "take n (drop (br_offset r) (br_buffer r)) = bs"
    using r(2) assms by (simp add: unread_def)
  ultimately show "take_slice n r = (Some bs, advance (length bs) r)"
    using assms by (simp add: take_slice_def advance_def)
qed

lemma decodes_read_integer [reader_intros]:
  assumes "8 dvd LENGTH('a)"
  shows "decodes read_integer (v :: 'a::len word) (le_bytes v)"
  unfolding decodes_def
proof (intro allI impI)
  fix r ys assume r: "br_ok r" "unread r = le_bytes v @ ys"
  have "take_slice (size_of TYPE('a)) r = (Some (le_bytes v), advance (length (le_bytes v)) r)"
    by (rule decodesD [OF decodes_take_slice r]) simp
  then show "read_integer r = (Some v, advance (length (le_bytes v)) r)"
    using load_le_bytes [OF assms, of v "[]"] by (simp add: read_integer_def)
qed

lemma decodes_read_fixed_bytes [reader_intros]:
  "length bs = n \<Longrightarrow> decodes (read_fixed_bytes n) bs bs"
  by (simp add: read_fixed_bytes_def decodes_take_slice)

definition prefixed_bytes :: "bytes \<Rightarrow> bytes" where
  "prefixed_bytes data = le_bytes (word_of_nat (length data) :: u32) @ data"

lemma length_prefixed_bytes [simp]: "length (prefixed_bytes bs) = 4 + length bs"
  by (simp add: prefixed_bytes_def)

lemma decodes_read_length_prefixed [reader_intros]:
  assumes "length bs \<le> m" and "length bs < 4294967296"
  shows "decodes (read_length_prefixed m) bs (prefixed_bytes bs)"
  unfolding read_length_prefixed_def prefixed_bytes_def
proof (rule decodes_bind [OF decodes_read_integer])
  let ?a = "word_of_nat (length bs) :: u32"
  have a: "unat ?a = length bs" by (rule unat_u32_of_nat [OF assms(2)])
  show "decodes (\<lambda>r. let len = unat ?a in
      if len > m \<or> len > count_remaining_bytes r then (None, r) else take_slice len r) bs bs"
    unfolding decodes_def
  proof (intro allI impI)
    fix r ys assume r: "br_ok r" "unread r = bs @ ys"
    have "take_slice (length bs) r = (Some bs, advance (length bs) r)"
      by (rule decodesD [OF decodes_take_slice r]) simp
    moreover have "length bs \<le> count_remaining_bytes r"
      using length_unread [OF r(1)] r(2) by simp
    ultimately show "(let len = unat ?a in
        if len > m \<or> len > count_remaining_bytes r then (None, r) else take_slice len r) =
        (Some bs, advance (length bs) r)"
      using assms(1) a by simp
  qed
qed simp

lemma rd_bind_assoc: "rd_bind (rd_bind m f) g = rd_bind m (\<lambda>a. rd_bind (f a) g)"
  by (rule ext) (simp add: rd_bind_def split: prod.split option.split)

section \<open>Inverting a successful read\<close>

lemma rd_bind_Some:
  "rd_bind m f r = (Some x, r') \<longleftrightarrow> (\<exists>a r1. m r = (Some a, r1) \<and> f a r1 = (Some x, r'))"
  by (auto simp: rd_bind_def split: prod.splits option.splits)

lemma rd_return_Some: "rd_return a r = (Some x, r') \<longleftrightarrow> x = a \<and> r' = r"
  by (auto simp: rd_return_def)

lemma rd_fail_Some: "rd_fail r = (Some x, r') \<longleftrightarrow> False"
  by (simp add: rd_fail_def)

lemma rd_if_Some:
  "(if b then m else n) r = (Some x, r') \<longleftrightarrow>
     (b \<and> m r = (Some x, r')) \<or> (\<not> b \<and> n r = (Some x, r'))"
  by simp

lemmas reader_Some = rd_bind_Some rd_return_Some rd_fail_Some rd_if_Some

lemma take_slice_sound:
  assumes "br_ok r" and "take_slice n r = (Some bs, r')"
  shows "length bs = n" and "unread r = bs @ unread r'" and "br_ok r'"
proof -
  have n: "n \<le> count_remaining_bytes r"
    and bs: "bs = take n (unread r)" and r': "r' = advance n r"
    using assms(2) by (auto simp: take_slice_def unread_def advance_def split: if_splits)
  have len: "n \<le> length (unread r)" using n length_unread [OF assms(1)] by simp
  then show l: "length bs = n" using bs by simp
  have "unread r = bs @ drop n (unread r)" using bs by simp
  then show "unread r = bs @ unread r'" and "br_ok r'"
    using unread_advance [of r bs "drop n (unread r)"] br_ok_advance [OF assms(1), of bs]
      r' l by simp_all
qed

lemma read_integer_sound [reader_sound]:
  fixes v :: "'a::len word"
  assumes "br_ok r" and "read_integer r = (Some v, r')" and "8 dvd LENGTH('a)"
  shows "unread r = le_bytes v @ unread r' \<and> br_ok r'"
proof -
  obtain bs where bs: "take_slice (size_of TYPE('a)) r = (Some bs, r')"
    and v: "load_little_endian bs = Some v"
    using assms(2) by (auto simp: read_integer_def split: prod.splits option.splits)
  note sl = take_slice_sound [OF assms(1) bs]
  have "bs = le_bytes v"
    using load_little_endian_Some [OF assms(3) v] sl(1) by simp
  then show ?thesis using sl by simp
qed

lemma read_fixed_bytes_sound [reader_sound]:
  assumes "br_ok r" and "read_fixed_bytes n r = (Some bs, r')"
  shows "length bs = n \<and> unread r = bs @ unread r' \<and> br_ok r'"
  using take_slice_sound [OF assms(1)] assms(2) by (simp add: read_fixed_bytes_def)

lemma read_length_prefixed_sound [reader_sound]:
  assumes "br_ok r" and "read_length_prefixed m r = (Some bs, r')"
  shows "length bs \<le> m \<and> length bs < 4294967296 \<and> unread r = prefixed_bytes bs @ unread r' \<and>
    br_ok r'"
proof -
  obtain a :: u32 and r1 where a: "read_integer r = (Some a, r1)"
    and m: "unat a \<le> m" and sl: "take_slice (unat a) r1 = (Some bs, r')"
    using assms(2)
    by (auto simp: read_length_prefixed_def rd_bind_Some Let_def split: if_splits)
  have r1: "unread r = le_bytes a @ unread r1" "br_ok r1"
    using read_integer_sound [OF assms(1) a] by simp_all
  note b = take_slice_sound [OF r1(2) sl]
  have "word_of_nat (length bs) = a" using b(1) by simp
  moreover have "length bs < 4294967296"
    using b(1) unsigned_less [of a, where ?'a = nat] by simp
  ultimately show ?thesis using r1 b m by (simp add: prefixed_bytes_def)
qed

section \<open>What a successful read has consumed\<close>

text \<open>
  \<open>yields rd P\<close>: when \<open>rd\<close> succeeds with \<open>x\<close> it has consumed some \<open>bs\<close> with \<open>P x bs\<close>. The rules
  below follow the shape of a \<^verbatim>\<open>read_from\<close>.
\<close>

definition yields :: "'a reader \<Rightarrow> ('a \<Rightarrow> bytes \<Rightarrow> bool) \<Rightarrow> bool" where
  "yields rd P \<longleftrightarrow> (\<forall>r x r'. br_ok r \<longrightarrow> rd r = (Some x, r') \<longrightarrow>
     br_ok r' \<and> (\<exists>bs. unread r = bs @ unread r' \<and> P x bs))"

lemma yields_bind [yields_intros]:
  assumes m: "yields m P" and f: "\<And>a bs. P a bs \<Longrightarrow> yields (f a) (\<lambda>x cs. Q x (bs @ cs))"
  shows "yields (rd_bind m f) Q"
  unfolding yields_def
proof (intro allI impI)
  fix r x r' assume r: "br_ok r" "rd_bind m f r = (Some x, r')"
  then obtain a r1 where a: "m r = (Some a, r1)" "f a r1 = (Some x, r')" by (auto simp: rd_bind_Some)
  obtain bs where bs: "br_ok r1" "unread r = bs @ unread r1" "P a bs"
    using m r(1) a(1) unfolding yields_def by blast
  obtain cs where "br_ok r'" "unread r1 = cs @ unread r'" "Q x (bs @ cs)"
    using f [OF bs(3)] bs(1) a(2) unfolding yields_def by blast
  then show "br_ok r' \<and> (\<exists>bs. unread r = bs @ unread r' \<and> Q x bs)" using bs(2) by auto
qed

lemma yields_return [yields_intros]: "P x [] \<Longrightarrow> yields (rd_return x) P"
  by (auto simp: yields_def rd_return_Some)

lemma yields_fail [yields_intros]: "yields rd_fail P"
  by (simp add: yields_def rd_fail_Some)

lemma yields_if: "(b \<Longrightarrow> yields m P) \<Longrightarrow> (\<not> b \<Longrightarrow> yields n P) \<Longrightarrow> yields (if b then m else n) P"
  by simp

lemma yields_read_integer:
  "8 dvd LENGTH('a) \<Longrightarrow> yields (read_integer :: 'a::len word reader) (\<lambda>v bs. bs = le_bytes v)"
  using read_integer_sound [where ?'a = 'a] by (auto simp: yields_def)

lemma yields_read_ints [yields_intros]: "yields (read_integer :: u8 reader) (\<lambda>v bs. bs = le_bytes v)"
 "yields (read_integer :: u16 reader) (\<lambda>v bs. bs = le_bytes v)"
 "yields (read_integer :: u32 reader) (\<lambda>v bs. bs = le_bytes v)"
 "yields (read_integer :: u64 reader) (\<lambda>v bs. bs = le_bytes v)"
  by (simp_all add: yields_read_integer)

lemma yields_read_fixed_bytes [yields_intros]: "yields (read_fixed_bytes n) (\<lambda>v bs. length v = n \<and> bs = v)"
  using read_fixed_bytes_sound by (auto simp: yields_def)

lemma yields_read_length_prefixed [yields_intros]:
  "yields (read_length_prefixed n) (\<lambda>v bs. length v \<le> n \<and> length v < 4294967296 \<and> bs = prefixed_bytes v)"
  unfolding yields_def using read_length_prefixed_sound by blast

lemma decodes_return_eq: "y = x \<Longrightarrow> decodes (rd_return y) x []"
  by (simp add: decodes_return)

lemmas decodes_fields [decodes_intros] =
  decodes_bind decodes_read_integer decodes_read_fixed_bytes decodes_read_length_prefixed

section \<open>The writer\<close>

definition emit :: "bytes \<Rightarrow> byte_writer \<Rightarrow> byte_writer" where
  "emit bs w = w\<lparr>bw_target := bw_target w @ bs\<rparr>"

lemma emit_Nil [simp]: "emit [] w = w"
  by (simp add: emit_def)

lemma emit_emit [simp]: "emit bs (emit as w) = emit (as @ bs) w"
  by (simp add: emit_def)

lemma bw_target_emit [simp]: "bw_target (emit bs w) = bw_target w @ bs"
  by (simp add: emit_def)

lemma bw_target_byte_writer_of [simp]: "bw_target (byte_writer_of bs) = bs"
  by (simp add: byte_writer_of_def)

lemma write_integer_emit [writer_simps]: "write_integer v w = emit (le_bytes v) w"
  by (simp add: write_integer_def emit_def store_little_endian_eq)

lemma write_fixed_bytes_emit [writer_simps]: "write_fixed_bytes bs w = emit bs w"
  by (simp add: write_fixed_bytes_def emit_def)

lemma write_length_prefixed_emit [writer_simps]:
  "write_length_prefixed bs w = emit (prefixed_bytes bs) w"
  by (simp add: write_length_prefixed_def writer_simps prefixed_bytes_def)

text \<open>The bytes a message writes into an empty vector.\<close>

definition encode_with :: "('a \<Rightarrow> byte_writer \<Rightarrow> byte_writer) \<Rightarrow> 'a \<Rightarrow> bytes" where
  "encode_with write x = bw_target (write x (byte_writer_of []))"

lemma encode_withI: "(\<And>w. write x w = emit bs w) \<Longrightarrow> encode_with write x = bs"
  by (simp add: encode_with_def)

section \<open>The codec contract\<close>

locale codec =
  fixes write_to :: "'a \<Rightarrow> byte_writer \<Rightarrow> byte_writer"
    and read_from :: "'a reader"
    and valid :: "'a \<Rightarrow> bool"
  assumes write_emits: "write_to x w = emit (encode_with write_to x) w"
    and read_decodes: "valid x \<Longrightarrow> decodes read_from x (encode_with write_to x)"
    and read_inverts: "br_ok r \<Longrightarrow> read_from r = (Some x, r') \<Longrightarrow>
      valid x \<and> unread r = encode_with write_to x @ unread r'"
    and read_safe: "safe_reader read_from"
begin

lemma roundtrip:
  assumes "valid x"
  shows "read_from (byte_reader_of (encode_with write_to x @ rest)) =
    (Some x, advance (length (encode_with write_to x)) (byte_reader_of (encode_with write_to x @ rest)))"
  by (rule decodesD [OF read_decodes [OF assms]]) simp_all

lemma inverts:
  assumes "read_from (byte_reader_of bs) = (Some x, r')"
  shows "valid x" and "bs = encode_with write_to x @ unread r'"
  using read_inverts [OF _ assms] by simp_all

lemma unique_decoding:
  assumes "valid x" and "valid y"
    and eq: "encode_with write_to x @ us = encode_with write_to y @ vs"
  shows "x = y" and "us = vs"
proof -
  have "read_from (byte_reader_of (encode_with write_to x @ us)) =
      read_from (byte_reader_of (encode_with write_to y @ vs))"
    using eq by simp
  then have "Some x = Some y"
    unfolding roundtrip [OF assms(1)] roundtrip [OF assms(2)] by simp
  then show "x = y" by simp
  then show "us = vs" using eq by simp
qed

lemma rejects_truncated:
  assumes x: "valid x" and k: "k < length (encode_with write_to x)"
  shows "fst (read_from (byte_reader_of (take k (encode_with write_to x)))) = None"
proof (rule ccontr)
  assume "fst (read_from (byte_reader_of (take k (encode_with write_to x)))) \<noteq> None"
  then obtain y r' where y: "read_from (byte_reader_of (take k (encode_with write_to x))) = (Some y, r')"
    by (cases "read_from (byte_reader_of (take k (encode_with write_to x)))") auto
  note inv = inverts [OF y]
  have "encode_with write_to x @ [] =
      encode_with write_to y @ (unread r' @ drop k (encode_with write_to x))"
    using inv(2) append_take_drop_id [of k "encode_with write_to x"] by simp
  then have "x = y" using unique_decoding(1) [OF x inv(1)] by blast
  then have "length (encode_with write_to x) \<le> length (take k (encode_with write_to x))"
    using inv(2) by (metis le_add1 length_append)
  then show False using k by simp
qed

lemma read_sound':
  "br_ok r \<Longrightarrow> read_from r = (Some x, r') \<Longrightarrow>
   valid x \<and> unread r = encode_with write_to x @ unread r' \<and> br_ok r'"
  using read_inverts [of r x r'] safe_readerD(3) [OF read_safe, of r "Some x" r'] by blast

lemma yields_codec: "yields read_from (\<lambda>x bs. valid x \<and> bs = encode_with write_to x)"
  unfolding yields_def using read_sound' by blast

end

lemma codecI:
  assumes "\<And>x w. write_to x w = emit (enc x) w"
    and "\<And>x. valid x \<Longrightarrow> decodes read_from x (enc x)"
    and "\<And>r x r'. br_ok r \<Longrightarrow> read_from r = (Some x, r') \<Longrightarrow> valid x \<and> unread r = enc x @ unread r'"
    and "safe_reader read_from"
  shows "codec write_to read_from valid"
proof -
  have enc: "encode_with write_to x = enc x" for x
    by (rule encode_withI) (rule assms(1))
  show ?thesis
    by unfold_locales (use assms in \<open>auto simp: enc\<close>)
qed

lemma codec_yieldsI:
  assumes w: "\<And>x w. write_to x w = emit (enc x) w"
    and d: "\<And>x. valid x \<Longrightarrow> decodes read_from x (enc x)"
    and y: "yields read_from (\<lambda>x bs. valid x \<and> bs = enc x)"
    and s: "safe_reader read_from"
  shows "codec write_to read_from valid"
  by (rule codecI [OF w d _ s]) (use y in \<open>auto simp: yields_def\<close>)

section \<open>Counted lists\<close>

primrec read_items :: "'a reader \<Rightarrow> nat \<Rightarrow> 'a list reader" where
  "read_items rd 0 = rd_return []"
| "read_items rd (Suc n) =
     rd_bind rd (\<lambda>item. rd_bind (read_items rd n) (\<lambda>items. rd_return (item # items)))"

definition read_record_list :: "'a reader \<Rightarrow> u16 \<Rightarrow> 'a list reader" where
  "read_record_list rd maximum_items =
     rd_bind read_integer (\<lambda>announced_count :: u16.
       if announced_count > maximum_items then rd_fail
       else read_items rd (unat announced_count))"

definition write_record_list ::
  "('a \<Rightarrow> byte_writer \<Rightarrow> byte_writer) \<Rightarrow> 'a list \<Rightarrow> byte_writer \<Rightarrow> byte_writer" where
  "write_record_list wr items w =
     fold wr items (write_integer (word_of_nat (length items) :: u16) w)"

definition valid_list :: "('a \<Rightarrow> bool) \<Rightarrow> u16 \<Rightarrow> 'a list \<Rightarrow> bool" where
  "valid_list valid maximum_items items \<longleftrightarrow>
     length items \<le> unat maximum_items \<and> list_all valid items"

definition encode_list :: "('a \<Rightarrow> bytes) \<Rightarrow> 'a list \<Rightarrow> bytes" where
  "encode_list enc items = le_bytes (word_of_nat (length items) :: u16) @ concat (map enc items)"

lemma safe_read_items [reader_intros]: "safe_reader rd \<Longrightarrow> safe_reader (read_items rd n)"
  by (induction n) (auto intro: reader_intros)

locale record_list_codec = codec write_to read_from valid
  for write_to :: "'a \<Rightarrow> byte_writer \<Rightarrow> byte_writer" and read_from and valid +
  fixes maximum_items :: u16
begin

lemma fold_write: "fold write_to xs w = emit (concat (map (encode_with write_to) xs)) w"
proof (induction xs arbitrary: w)
  case Nil
  then show ?case by simp
next
  case (Cons x xs)
  have "fold write_to (x # xs) w =
      emit (concat (map (encode_with write_to) xs)) (emit (encode_with write_to x) w)"
    using Cons.IH [of "write_to x w"] by (simp add: write_emits [of x w])
  then show ?case by simp
qed

lemma decodes_items:
  "list_all valid xs \<Longrightarrow>
   decodes (read_items read_from (length xs)) xs (concat (map (encode_with write_to) xs))"
proof (induction xs)
  case Nil
  then show ?case by (simp add: decodes_return)
next
  case (Cons x xs)
  have "decodes (read_items read_from (length (x # xs))) (x # xs)
      (encode_with write_to x @ concat (map (encode_with write_to) xs) @ [])"
    unfolding length_Cons read_items.simps
    by (rule decodes_bind [OF read_decodes] decodes_bind [OF Cons.IH] decodes_return |
        use Cons.prems in simp)+
  then show ?case by simp
qed

lemma read_items_sound:
  "br_ok r \<Longrightarrow> read_items read_from n r = (Some xs, r') \<Longrightarrow>
   length xs = n \<and> list_all valid xs \<and>
   unread r = concat (map (encode_with write_to) xs) @ unread r' \<and> br_ok r'"
proof (induction n arbitrary: r xs)
  case 0
  then show ?case by (simp add: rd_return_Some)
next
  case (Suc n)
  obtain x r1 ys where x: "read_from r = (Some x, r1)"
    and ys: "read_items read_from n r1 = (Some ys, r')" and xs: "xs = x # ys"
    using Suc.prems(2) by (auto simp: reader_Some)
  have 1: "valid x" "unread r = encode_with write_to x @ unread r1" "br_ok r1"
    using read_sound' [OF Suc.prems(1) x] by simp_all
  have 2: "length ys = n" "list_all valid ys"
    "unread r1 = concat (map (encode_with write_to) ys) @ unread r'" "br_ok r'"
    using Suc.IH [OF 1(3) ys] by simp_all
  show ?case using 1 2 xs by simp
qed

lemma list_codec:
  "codec (write_record_list write_to) (read_record_list read_from maximum_items)
     (valid_list valid maximum_items)"
proof (rule codecI [where enc = "encode_list (encode_with write_to)"])
  fix xs w
  show "write_record_list write_to xs w = emit (encode_list (encode_with write_to) xs) w"
    by (simp add: write_record_list_def fold_write writer_simps encode_list_def)
next
  fix xs assume v: "valid_list valid maximum_items xs"
  let ?n = "word_of_nat (length xs) :: u16"
  have "length xs < 65536"
    using v unsigned_less [of maximum_items, where ?'a = nat] by (simp add: valid_list_def)
  then have n: "unat ?n = length xs" by (rule unat_u16_of_nat)
  have "\<not> ?n > maximum_items" using v n by (simp add: valid_list_def not_less word_le_nat_alt)
  then show "decodes (read_record_list read_from maximum_items) xs (encode_list (encode_with write_to) xs)"
    unfolding read_record_list_def encode_list_def
    by (intro decodes_bind [OF decodes_read_integer [of ?n]])
      (use decodes_items v n in \<open>auto simp: valid_list_def\<close>)
next
  fix r xs r'
  assume r: "br_ok r" and rd: "read_record_list read_from maximum_items r = (Some xs, r')"
  obtain n :: u16 and r1 where n: "read_integer r = (Some n, r1)" "\<not> n > maximum_items"
    and xs: "read_items read_from (unat n) r1 = (Some xs, r')"
    using rd by (auto simp: read_record_list_def reader_Some split: if_splits)
  have 1: "unread r = le_bytes n @ unread r1" "br_ok r1"
    using read_integer_sound [OF r n(1)] by simp_all
  have 2: "length xs = unat n" "list_all valid xs"
    "unread r1 = concat (map (encode_with write_to) xs) @ unread r'"
    using read_items_sound [OF 1(2) xs] by simp_all
  show "valid_list valid maximum_items xs \<and>
      unread r = encode_list (encode_with write_to) xs @ unread r'"
    using 1 2 n(2) by (simp add: valid_list_def encode_list_def not_less word_le_nat_alt)
next
  show "safe_reader (read_record_list read_from maximum_items)"
    unfolding read_record_list_def by (intro reader_intros read_safe)
qed

end

sublocale record_list_codec \<subseteq> items: codec "write_record_list write_to"
    "read_record_list read_from maximum_items" "valid_list valid maximum_items"
  by (rule list_codec)

section \<open>Properties of integers and of the reader\<close>

text \<open>
  The little-endian codec is a bijection between 64-bit integers and eight bytes, and touches
  only those bytes. Storing into a long enough buffer succeeds, loading it back gives the integer
  whatever follows, and loading then storing restores the buffer.
\<close>

theorem little_endian_roundtrip:
  fixes v :: u64
  assumes "8 \<le> length target"
  shows "(\<exists>stored. store_little_endian v target = Some stored \<and> load_little_endian stored = Some v \<and>
      length stored = length target \<and> drop 8 stored = drop 8 target) \<and>
    (\<exists>w :: u64. load_little_endian target = Some w \<and> store_little_endian w target = Some target)"
proof
  have "load_little_endian (le_bytes v @ drop 8 target) = Some v" by (rule load_le_bytes) simp
  with assms show "\<exists>stored. store_little_endian v target = Some stored \<and>
      load_little_endian stored = Some v \<and>
      length stored = length target \<and> drop 8 stored = drop 8 target"
    by (simp add: store_little_endian_eq)
next
  obtain w :: u64 where w: "load_little_endian target = Some w"
    using assms by (auto simp: load_little_endian_def)
  moreover have "target = le_bytes w @ drop 8 target"
    using load_little_endian_Some [OF _ w] by simp
  ultimately show "\<exists>w :: u64. load_little_endian target = Some w \<and>
      store_little_endian w target = Some target"
    using assms by (intro exI [of _ w]) (simp add: store_little_endian_eq)
qed

theorem little_endian_roundtrip_witness:
  "\<exists>stored. store_little_endian (0x0102030405060708 :: u64) (replicate 9 7) = Some stored \<and>
     load_little_endian stored = Some (0x0102030405060708 :: u64)"
  using little_endian_roundtrip [of "replicate 9 7" "0x0102030405060708"] by auto

text \<open>
  \<^verbatim>\<open>read_length_prefixed\<close> on any reader that is within its buffer. It returns \<open>bs\<close> exactly
  when the next bytes are a 32-bit length within the cap followed by that many bytes \<open>bs\<close>, and then
  it stops right after them. Whether it succeeds or fails, the reader keeps its buffer, does
  not move backwards and stays within the buffer.
\<close>

theorem read_length_prefixed_correct:
  assumes "br_ok r" and "read_length_prefixed m r = (result, r')"
  shows "(result = Some bs \<longleftrightarrow>
        unread r = prefixed_bytes bs @ unread r' \<and> length bs \<le> m \<and> length bs < 2 ^ 32) \<and>
      br_buffer r' = br_buffer r \<and> br_offset r \<le> br_offset r' \<and> br_ok r'"
proof -
  note safe = safe_readerD [OF safe_read_length_prefixed assms]
  have "result = Some bs \<longleftrightarrow>
      unread r = prefixed_bytes bs @ unread r' \<and> length bs \<le> m \<and> length bs < 2 ^ 32"
  proof
    assume "result = Some bs"
    with read_length_prefixed_sound [OF assms(1), of m bs r'] assms(2)
    show "unread r = prefixed_bytes bs @ unread r' \<and> length bs \<le> m \<and> length bs < 2 ^ 32" by simp
  next
    assume "unread r = prefixed_bytes bs @ unread r' \<and> length bs \<le> m \<and> length bs < 2 ^ 32"
    with decodesD [OF decodes_read_length_prefixed assms(1)] assms(2) show "result = Some bs"
      by fastforce
  qed
  with safe show ?thesis by blast
qed

theorem read_length_prefixed_correct_witness:
  "\<exists>result r'. read_length_prefixed 4 (byte_reader_of [2, 0, 0, 0, 65, 66, 67]) = (result, r') \<and>
     br_buffer r' = [2, 0, 0, 0, 65, 66, 67] \<and> br_ok r'"
proof -
  obtain result r' where r: "read_length_prefixed 4 (byte_reader_of [2, 0, 0, 0, 65, 66, 67]) = (result, r')"
    by fastforce
  from read_length_prefixed_correct [OF _ r, of "[]"] have "br_buffer r' = br_buffer (byte_reader_of [2, 0, 0, 0, 65, 66, 67]) \<and> br_ok r'"
    by simp
  with r show ?thesis by (simp add: byte_reader_of_def)
qed

end
