(* ===== verification/Text_Field.thy ===== *)
theory Text_Field
  imports Codec_Interface
begin

text \<open>
  Text fields (\<^verbatim>\<open>src/common/protocol/text_field_codec.cpp\<close>): the UTF-8 validator that guards
  every string the server accepts, and the length-prefixed text codec. The validator is compared
  with an independent specification, the set of encodings of lists of permitted code points.
\<close>

section \<open>The validator\<close>

definition is_allowed_ascii :: "u8 \<Rightarrow> bool" where
  "is_allowed_ascii byte = (if byte = 0x09 \<or> byte = 0x0A then True else byte \<ge> 0x20 \<and> byte \<noteq> 0x7F)"

definition is_canonical_code_point :: "u32 \<Rightarrow> nat \<Rightarrow> bool" where
  "is_canonical_code_point code_point len =
     (if code_point \<ge> 0xD800 \<and> code_point \<le> 0xDFFF then False
      else if len = 2 then code_point \<ge> 0x80
      else if len = 3 then code_point \<ge> 0x800
      else code_point \<ge> 0x10000 \<and> code_point \<le> 0x10FFFF)"

text \<open>The lead byte gives the length of the sequence and the top bits of the code point.\<close>

definition utf8_lead :: "u8 \<Rightarrow> (nat \<times> u32) option" where
  "utf8_lead lead =
     (if lead AND 0xE0 = 0xC0 then Some (2, ucast (lead AND 0x1F))
      else if lead AND 0xF0 = 0xE0 then Some (3, ucast (lead AND 0x0F))
      else if lead AND 0xF8 = 0xF0 then Some (4, ucast (lead AND 0x07))
      else None)"

text \<open>The loop over the continuation bytes.\<close>

primrec utf8_continue :: "bytes \<Rightarrow> u32 \<Rightarrow> u32 option" where
  "utf8_continue [] code_point = Some code_point"
| "utf8_continue (byte # rest) code_point =
     (if byte AND 0xC0 \<noteq> 0x80 then None
      else utf8_continue rest (push_bit 6 code_point OR (ucast byte AND 0x3F)))"

definition measure_utf8_sequence :: "bytes \<Rightarrow> nat \<Rightarrow> nat" where
  "measure_utf8_sequence text offset =
     (let lead = text ! offset in
      if lead < 0x80 then (if is_allowed_ascii lead then 1 else 0)
      else (case utf8_lead lead of
              None \<Rightarrow> 0
            | Some (len, code_point) \<Rightarrow>
                if offset + len > length text then 0
                else (case utf8_continue (take (len - 1) (drop (offset + 1) text)) code_point of
                        None \<Rightarrow> 0
                      | Some code_point' \<Rightarrow>
                          if is_canonical_code_point code_point' len then len else 0)))"

function validate_from :: "bytes \<Rightarrow> nat \<Rightarrow> bool" where
  "validate_from text offset =
     (if offset < length text
      then (let consumed = measure_utf8_sequence text offset in
            if consumed = 0 then False else validate_from text (offset + consumed))
      else True)"
  by pat_completeness auto
termination
  by (relation "measure (\<lambda>(text, offset). length text - offset)") auto

declare validate_from.simps [simp del]

definition validate_text_field :: "bytes \<Rightarrow> bool" where
  "validate_text_field text = validate_from text 0"

section \<open>Specification: permitted code points and their encodings\<close>

definition allowed_code_point :: "nat \<Rightarrow> bool" where
  "allowed_code_point c \<longleftrightarrow>
     c \<le> 0x10FFFF \<and> \<not> (0xD800 \<le> c \<and> c \<le> 0xDFFF) \<and> (c = 9 \<or> c = 10 \<or> 0x20 \<le> c) \<and> c \<noteq> 0x7F"

definition utf8_encode :: "nat \<Rightarrow> bytes" where
  "utf8_encode c = map word_of_nat
     (if c < 0x80 then [c]
      else if c < 0x800 then [0xC0 + c div 64, 0x80 + c mod 64]
      else if c < 0x10000 then [0xE0 + c div 4096, 0x80 + c div 64 mod 64, 0x80 + c mod 64]
      else [0xF0 + c div 262144, 0x80 + c div 4096 mod 64, 0x80 + c div 64 mod 64, 0x80 + c mod 64])"

definition utf8_text :: "bytes \<Rightarrow> bool" where
  "utf8_text text \<longleftrightarrow> (\<exists>cps. list_all allowed_code_point cps \<and> text = concat (map utf8_encode cps))"

section \<open>Bytes by their ranges\<close>

lemma u8_and_high:
  assumes "k \<le> 8"
  shows "unat ((b :: u8) AND push_bit k (mask (8 - k))) = 2 ^ k * (unat b div 2 ^ k)"
proof -
  have and_high: "b AND push_bit k (mask (8 - k)) = push_bit k (drop_bit k b)"
    using assms by (intro bit_word_eqI) (auto simp: bit_simps)
  have b: "unat b < 256" using unsigned_less [of b, where ?'a = nat] by simp
  have "2 ^ k * (unat b div 2 ^ k) \<le> unat b" by simp
  then have "2 ^ k * (unat b div 2 ^ k) < 256" using b by linarith
  then show ?thesis
    using b unfolding and_high unsigned_push_bit_eq unsigned_drop_bit_eq
    by (simp add: push_bit_eq_mult drop_bit_eq_div take_bit_eq_mod mult.commute)
qed

lemma unat_and_mask: "unat ((b :: 'a::len word) AND mask k) = unat b mod 2 ^ k"
  unfolding take_bit_eq_mask [symmetric] unsigned_take_bit_eq by (simp add: take_bit_eq_mod)

lemma high_masks:
  "(0xE0 :: u8) = push_bit 5 (mask (8 - 5))" "(0xF0 :: u8) = push_bit 4 (mask (8 - 4))"
  "(0xF8 :: u8) = push_bit 3 (mask (8 - 3))" "(0xC0 :: u8) = push_bit 6 (mask (8 - 6))"
  by (simp_all add: mask_eq_exp_minus_1 push_bit_eq_mult)

lemma div_block:
  assumes "0 < d"
  shows "d * ((n::nat) div d) = d * q \<longleftrightarrow> d * q \<le> n \<and> n < d * q + d"
  using assms dividend_less_div_times [of d n] by (auto intro: div_nat_eqI simp: mult.commute)

lemma mod_block: "d * q \<le> n \<Longrightarrow> n < d * q + d \<Longrightarrow> (n::nat) mod d = n - d * q"
  using div_nat_eqI [of d q n] minus_mult_div_eq_mod [of n d] by simp

lemma lead2_iff: "(b :: u8) AND 0xE0 = 0xC0 \<longleftrightarrow> 192 \<le> unat b \<and> unat b < 224"
  using u8_and_high [of 5 b] div_block [of 32 "unat b" 6]
  unfolding high_masks(1) [symmetric] by (simp add: word_unat_eq_iff)

lemma lead3_iff: "(b :: u8) AND 0xF0 = 0xE0 \<longleftrightarrow> 224 \<le> unat b \<and> unat b < 240"
  using u8_and_high [of 4 b] div_block [of 16 "unat b" 14]
  unfolding high_masks(2) [symmetric] by (simp add: word_unat_eq_iff)

lemma lead4_iff: "(b :: u8) AND 0xF8 = 0xF0 \<longleftrightarrow> 240 \<le> unat b \<and> unat b < 248"
  using u8_and_high [of 3 b] div_block [of 8 "unat b" 30]
  unfolding high_masks(3) [symmetric] by (simp add: word_unat_eq_iff)

lemma continuation_iff: "(b :: u8) AND 0xC0 = 0x80 \<longleftrightarrow> 128 \<le> unat b \<and> unat b < 192"
  using u8_and_high [of 6 b] div_block [of 64 "unat b" 2]
  unfolding high_masks(4) [symmetric] by (simp add: word_unat_eq_iff)

lemma low_masks:
  "unat ((b :: u8) AND 0x1F) = unat b mod 32" "unat ((b :: u8) AND 0x0F) = unat b mod 16"
  "unat ((b :: u8) AND 0x07) = unat b mod 8"
  using unat_and_mask [of b 5] unat_and_mask [of b 4] unat_and_mask [of b 3]
  by (simp_all add: mask_eq_exp_minus_1)

lemma unat_ucast_u32: "unat (ucast (b :: u8) :: u32) = unat b"
  by (simp add: unsigned_ucast_eq take_bit_eq_mod) (use unsigned_less [of b, where ?'a = nat] in simp)

lemma nat_or_disjoint:
  assumes "(y::nat) < 64"
  shows "(x * 64) OR y = x * 64 + y"
proof -
  have "(x * 64) AND y = 0"
  proof (rule bit_eqI)
    fix n
    have "x * 64 = push_bit 6 x" and "y = take_bit 6 y"
      using assms by (simp_all add: push_bit_eq_mult take_bit_eq_mod)
    then show "bit ((x * 64) AND y) n = bit 0 n"
      by (metis bit_0_eq bit_and_iff bit_push_bit_iff bit_take_bit_iff bot_apply bot_bool_def not_less)
  qed
  then show ?thesis by (simp add: disjunctive_add_eq_or [symmetric])
qed

lemma utf8_step_value:
  assumes "unat (cp :: u32) < 2 ^ 20"
  shows "unat (push_bit 6 cp OR (ucast (b :: u8) AND 0x3F)) = unat cp * 64 + unat b mod 64"
proof -
  have low: "unat ((ucast b :: u32) AND 0x3F) = unat b mod 64"
    using unat_and_mask [of "ucast b :: u32" 6] by (simp add: mask_eq_exp_minus_1 unat_ucast_u32)
  have high: "unat (push_bit 6 cp) = unat cp * 64"
    using assms unfolding unsigned_push_bit_eq by (simp add: push_bit_eq_mult take_bit_eq_mod)
  show ?thesis
    unfolding unsigned_or_eq low high by (rule nat_or_disjoint) simp
qed

lemma u8_less_128: "(b :: u8) < 0x80 \<longleftrightarrow> unat b < 128"
  by (simp add: word_less_nat_alt)

lemma allowed_ascii_iff:
  "(b :: u8) < 0x80 \<Longrightarrow> is_allowed_ascii b \<longleftrightarrow> allowed_code_point (unat b)"
  by (auto simp: is_allowed_ascii_def allowed_code_point_def word_less_nat_alt word_le_nat_alt
      word_unat_eq_iff)

lemma canonical_iff:
  assumes "len = 2 \<longrightarrow> unat cp < 0x800" "len = 3 \<longrightarrow> unat cp < 0x10000" "len \<in> {2, 3, 4}"
  shows "is_canonical_code_point cp len \<longleftrightarrow>
    allowed_code_point (unat cp) \<and> length (utf8_encode (unat cp)) = len"
  using assms
  by (auto simp: is_canonical_code_point_def allowed_code_point_def utf8_encode_def word_le_nat_alt)

section \<open>One sequence\<close>

text \<open>The measure of the sequence at the head of a list, which is what the offset form computes.\<close>

definition measure_head :: "bytes \<Rightarrow> nat" where
  "measure_head bs = measure_utf8_sequence bs 0"

lemma measure_utf8_sequence_drop:
  assumes "offset < length text"
  shows "measure_utf8_sequence text offset = measure_head (drop offset text)"
proof -
  have "drop offset text ! 0 = text ! offset" using assms by simp
  moreover have "offset + len > length text \<longleftrightarrow> 0 + len > length (drop offset text)" for len
    using assms by auto
  ultimately show ?thesis
    by (simp add: measure_head_def measure_utf8_sequence_def Let_def add.commute
        split: option.splits)
qed

lemma measure_head_bound: "measure_head bs \<le> length bs \<or> bs = []"
  by (auto simp: measure_head_def measure_utf8_sequence_def Let_def Suc_le_eq split: option.splits)

lemma measure_head_ascii:
  "b < 0x80 \<Longrightarrow> measure_head (b # bs) = (if allowed_code_point (unat b) then 1 else 0)"
  by (simp add: measure_head_def measure_utf8_sequence_def allowed_ascii_iff)

lemma measure_head_multi:
  assumes "\<not> b < 0x80"
  shows "measure_head (b # bs) =
    (case utf8_lead b of None \<Rightarrow> 0
     | Some (len, cp) \<Rightarrow>
         if len > Suc (length bs) then 0
         else (case utf8_continue (take (len - 1) bs) cp of None \<Rightarrow> 0
               | Some cp' \<Rightarrow> if is_canonical_code_point cp' len then len else 0))"
  using assms
  by (cases "utf8_lead b") (auto simp: measure_head_def measure_utf8_sequence_def)

lemma utf8_lead_value:
  fixes b :: u8
  shows "192 \<le> unat b \<Longrightarrow> unat b < 224 \<Longrightarrow> unat (b AND 0x1F) = unat b - 192"
  "224 \<le> unat b \<Longrightarrow> unat b < 240 \<Longrightarrow> unat (b AND 0x0F) = unat b - 224"
  "240 \<le> unat b \<Longrightarrow> unat b < 248 \<Longrightarrow> unat (b AND 0x07) = unat b - 240"
  using mod_block [of 32 6 "unat b"] mod_block [of 16 14 "unat b"] mod_block [of 8 30 "unat b"]
  by (simp_all add: low_masks)

lemma utf8_lead_Some:
  "utf8_lead b = Some (len, cp) \<longleftrightarrow>
     (len = 2 \<and> 192 \<le> unat b \<and> unat b < 224 \<and> unat cp = unat b - 192) \<or>
     (len = 3 \<and> 224 \<le> unat b \<and> unat b < 240 \<and> unat cp = unat b - 224) \<or>
     (len = 4 \<and> 240 \<le> unat b \<and> unat b < 248 \<and> unat cp = unat b - 240)"
proof -
  have eq: "ucast w = cp \<longleftrightarrow> unat cp = unat w" for w :: u8
    by (metis unat_ucast_u32 word_unat_eq_iff)
  show ?thesis
    by (auto simp: utf8_lead_def lead2_iff lead3_iff lead4_iff eq utf8_lead_value)
qed

text \<open>The value a run of continuation bytes adds to the bits of the lead byte.\<close>

definition continuation :: "u8 \<Rightarrow> bool" where
  "continuation b \<longleftrightarrow> 128 \<le> unat b \<and> unat b < 192"

lemma continuation_bound: "continuation b \<Longrightarrow> 128 \<le> unat b" "continuation b \<Longrightarrow> unat b - 128 < 64"
  by (auto simp: continuation_def)

definition continued_value :: "nat \<Rightarrow> bytes \<Rightarrow> nat" where
  "continued_value = foldl (\<lambda>a b. a * 64 + (unat b - 128))"

lemma continued_value_simps [simp]:
  "continued_value n [] = n"
  "continued_value n (b # bs) = continued_value (n * 64 + (unat b - 128)) bs"
  by (simp_all add: continued_value_def)

lemma utf8_continue_Some:
  "(unat cp + 1) * 64 ^ length bs \<le> 2 ^ 26 \<Longrightarrow>
   utf8_continue bs cp = Some cp' \<longleftrightarrow>
     list_all continuation bs \<and> unat cp' = continued_value (unat cp) bs"
proof (induction bs arbitrary: cp)
  case Nil
  show ?case by (auto simp: word_unat_eq_iff)
next
  case (Cons b bs)
  let ?cp = "push_bit 6 cp OR (ucast b AND 0x3F)"
  show ?case
  proof (cases "continuation b")
    case True
    have "(unat cp + 1) * (64 * 1) \<le> (unat cp + 1) * (64 * 64 ^ length bs)"
      by (intro mult_le_mono2) simp
    also have "\<dots> \<le> 2 ^ 26" using Cons.prems by simp
    finally have "unat cp < 2 ^ 20" by simp
    then have v: "unat ?cp = unat cp * 64 + (unat b - 128)"
      using utf8_step_value [of cp b] mod_block [of 64 2 "unat b"] True
      by (simp add: continuation_def)
    have "unat ?cp + 1 \<le> (unat cp + 1) * 64"
      unfolding v using continuation_bound(2) [OF True] by simp
    then have "(unat ?cp + 1) * 64 ^ length bs \<le> (unat cp + 1) * 64 * 64 ^ length bs"
      by (rule mult_right_mono) simp
    also have "\<dots> = (unat cp + 1) * 64 ^ length (b # bs)" by (simp only: length_Cons power_Suc mult.assoc)
    also note Cons.prems
    finally have "(unat ?cp + 1) * 64 ^ length bs \<le> 2 ^ 26" .
    then show ?thesis using Cons.IH [of ?cp] v True by (simp add: continuation_iff continuation_def)
  next
    case False
    then have "\<not> (b AND 0xC0 = 0x80)" by (simp add: continuation_iff continuation_def)
    then show ?thesis using False by simp
  qed
qed

lemma unat_word_of_nat_u8: "n < 256 \<Longrightarrow> unat (word_of_nat n :: u8) = n"
  by (rule unat_of_nat_small) simp

lemma length_utf8_encode:
  "length (utf8_encode c) =
     (if c < 0x80 then 1 else if c < 0x800 then 2 else if c < 0x10000 then 3 else 4)"
  by (simp add: utf8_encode_def)

lemma digits_2: "((c::nat) div 4096 * 64 + c div 64 mod 64) * 64 + c mod 64 = c"
proof -
  have "c div 4096 = c div 64 div 64" by (simp add: div_mult2_eq [symmetric])
  then have "c div 4096 * 64 + c div 64 mod 64 = c div 64" by (simp add: div_mult_mod_eq)
  then show ?thesis by (simp add: div_mult_mod_eq)
qed

lemma digits_3:
  "(((c::nat) div 262144 * 64 + c div 4096 mod 64) * 64 + c div 64 mod 64) * 64 + c mod 64 = c"
proof -
  have "c div 262144 = c div 4096 div 64" by (simp add: div_mult2_eq [symmetric])
  then have "c div 262144 * 64 + c div 4096 mod 64 = c div 4096" by (simp add: div_mult_mod_eq)
  then show ?thesis using digits_2 by simp
qed

lemma continuation_digit:
  assumes "d < 64"
  shows "continuation (0x80 + word_of_nat d)" and "unat (0x80 + word_of_nat d :: u8) - 0x80 = d"
  using assms unat_word_of_nat_u8 [of "0x80 + d"] by (simp_all add: continuation_def)

lemma utf8_lead_digit:
  "q < 32 \<Longrightarrow> utf8_lead (0xC0 + word_of_nat q) = Some (2, word_of_nat q)"
  "q < 16 \<Longrightarrow> utf8_lead (0xE0 + word_of_nat q) = Some (3, word_of_nat q)"
  "q < 8 \<Longrightarrow> utf8_lead (0xF0 + word_of_nat q) = Some (4, word_of_nat q)"
  using unat_word_of_nat_u8 [of "0xC0 + q"] unat_word_of_nat_u8 [of "0xE0 + q"]
    unat_word_of_nat_u8 [of "0xF0 + q"] unat_u32_of_nat [of q]
  by (simp_all add: utf8_lead_Some)

text \<open>An encoding has the lead byte of its length and continuation bytes carrying its value.\<close>

lemma utf8_encode_multi:
  assumes "0x80 \<le> c" "c \<le> 0x10FFFF"
  obtains b bs cp where "utf8_encode c = b # bs" "utf8_lead b = Some (Suc (length bs), cp)"
    "list_all continuation bs" "continued_value (unat cp) bs = c"
proof -
  have d: "c mod 64 < 64" "c div 64 mod 64 < 64" "c div 4096 mod 64 < 64" by simp_all
  consider "c < 0x800" | "0x800 \<le> c" "c < 0x10000" | "0x10000 \<le> c" by linarith
  then show ?thesis
  proof cases
    case 1
    have q: "c div 64 < 32" using 1 by (simp add: less_mult_imp_div_less)
    have u: "unat (word_of_nat (c div 64) :: u32) = c div 64" using q by (intro unat_u32_of_nat) simp
    show ?thesis
    proof (rule that)
      show "utf8_encode c = word_of_nat (0xC0 + c div 64) # [word_of_nat (0x80 + c mod 64)]"
        using 1 assms by (simp add: utf8_encode_def)
      show "utf8_lead (word_of_nat (0xC0 + c div 64)) =
          Some (Suc (length [word_of_nat (0x80 + c mod 64) :: u8]), word_of_nat (c div 64))"
        using utf8_lead_digit(1) [OF q] by simp
    qed (simp_all add: continuation_digit d u)
  next
    case 2
    have q: "c div 4096 < 16" using 2 by (simp add: less_mult_imp_div_less)
    have u: "unat (word_of_nat (c div 4096) :: u32) = c div 4096" using q by (intro unat_u32_of_nat) simp
    show ?thesis
    proof (rule that)
      let ?bs = "[word_of_nat (0x80 + c div 64 mod 64), word_of_nat (0x80 + c mod 64)] :: bytes"
      show "utf8_encode c = word_of_nat (0xE0 + c div 4096) # ?bs"
        using 2 by (simp add: utf8_encode_def)
      show "utf8_lead (word_of_nat (0xE0 + c div 4096)) = Some (Suc (length ?bs), word_of_nat (c div 4096))"
        using utf8_lead_digit(2) [OF q] by simp
      show "continued_value (unat (word_of_nat (c div 4096) :: u32)) ?bs = c"
        using digits_2 [of c] by (simp add: continuation_digit d u)
    qed (simp_all add: continuation_digit d)
  next
    case 3
    have q: "c div 262144 < 8" using assms by (simp add: less_mult_imp_div_less)
    have u: "unat (word_of_nat (c div 262144) :: u32) = c div 262144"
      using q by (intro unat_u32_of_nat) simp
    show ?thesis
    proof (rule that)
      let ?bs = "[word_of_nat (0x80 + c div 4096 mod 64), word_of_nat (0x80 + c div 64 mod 64),
          word_of_nat (0x80 + c mod 64)] :: bytes"
      show "utf8_encode c = word_of_nat (0xF0 + c div 262144) # ?bs"
        using 3 by (simp add: utf8_encode_def)
      show "utf8_lead (word_of_nat (0xF0 + c div 262144)) = Some (Suc (length ?bs), word_of_nat (c div 262144))"
        using utf8_lead_digit(3) [OF q] by simp
      show "continued_value (unat (word_of_nat (c div 262144) :: u32)) ?bs = c"
        using digits_3 [of c] by (simp add: continuation_digit d u)
    qed (simp_all add: continuation_digit d)
  qed
qed

lemma digit_simps:
  assumes "(z::nat) < 64"
  shows "(n * 64 + z) div 64 = n" and "(n * 64 + z) mod 64 = z"
    and "(n * 64 + z) div 4096 = n div 64" and "(n * 64 + z) div 262144 = n div 4096"
proof -
  show d: "(n * 64 + z) div 64 = n" and "(n * 64 + z) mod 64 = z" using assms by simp_all
  have "(n * 64 + z) div 4096 = (n * 64 + z) div 64 div 64"
    and "(n * 64 + z) div 262144 = (n * 64 + z) div 64 div 4096"
    by (simp_all add: div_mult2_eq [symmetric])
  then show "(n * 64 + z) div 4096 = n div 64" and "(n * 64 + z) div 262144 = n div 4096"
    unfolding d by simp_all
qed

lemma digits_of_2:
  assumes "(y1::nat) < 64" "y2 < 64"
  shows "((x * 64 + y1) * 64 + y2) div 4096 = x" "((x * 64 + y1) * 64 + y2) div 64 mod 64 = y1"
    "((x * 64 + y1) * 64 + y2) mod 64 = y2"
  using assms by (simp_all only: digit_simps)

lemma digits_of_3:
  assumes "(y1::nat) < 64" "y2 < 64" "y3 < 64"
  shows "(((x * 64 + y1) * 64 + y2) * 64 + y3) div 262144 = x"
    "(((x * 64 + y1) * 64 + y2) * 64 + y3) div 4096 mod 64 = y1"
    "(((x * 64 + y1) * 64 + y2) * 64 + y3) div 64 mod 64 = y2"
    "(((x * 64 + y1) * 64 + y2) * 64 + y3) mod 64 = y3"
  using assms by (simp_all only: digit_simps)

lemma utf8_multi_encode:
  assumes lead: "utf8_lead b = Some (Suc (length bs), cp)" and cont: "list_all continuation bs"
    and len: "length (utf8_encode (continued_value (unat cp) bs)) = Suc (length bs)"
  shows "utf8_encode (continued_value (unat cp) bs) = b # bs"
proof -
  have w: "word_of_nat n = b'" if "n = unat b'" for n and b' :: u8 using that by simp
  have c: "\<exists>y. unat b' = 128 + y \<and> y < 64" if "continuation b'" for b'
    using continuation_bound [OF that] by (metis le_add_diff_inverse)
  consider b1 where "bs = [b1]" "192 \<le> unat b" "unat cp = unat b - 192"
    | b1 b2 where "bs = [b1, b2]" "224 \<le> unat b" "unat cp = unat b - 224"
    | b1 b2 b3 where "bs = [b1, b2, b3]" "240 \<le> unat b" "unat cp = unat b - 240"
    using lead by (auto simp: utf8_lead_Some length_Suc_conv numeral_eq_Suc)
  then show ?thesis
  proof cases
    case (1 b1)
    then obtain y1 where "unat b1 = 128 + y1" "y1 < 64" using c [of b1] cont by auto
    with 1 show ?thesis using len
      by (auto simp: utf8_encode_def digit_simps intro!: w simp del: of_nat_add split: if_splits)
  next
    case (2 b1 b2)
    then obtain y1 y2 where y: "unat b1 = 128 + y1" "y1 < 64" "unat b2 = 128 + y2" "y2 < 64"
      using c [of b1] c [of b2] cont by auto
    define v where "v = ((unat b - 224) * 64 + y1) * 64 + y2"
    have "continued_value (unat cp) bs = v" using 2 y by (simp add: v_def)
    moreover have "v div 4096 = unat b - 224" "v div 64 mod 64 = y1" "v mod 64 = y2"
      unfolding v_def using digits_of_2 [OF y(2,4)] by simp_all
    moreover have "\<not> v < 0x800" "v < 0x10000"
      using len calculation(1) 2(1) by (auto simp: length_utf8_encode split: if_splits)
    moreover have "0xE0 + (unat b - 224) = unat b" using 2(2) by simp
    ultimately show ?thesis
      by (simp only: utf8_encode_def 2(1) y(1,3) [symmetric] if_False if_True list.map word_of_nat_unat)
        auto
  next
    case (3 b1 b2 b3)
    then obtain y1 y2 y3 where y: "unat b1 = 128 + y1" "y1 < 64" "unat b2 = 128 + y2" "y2 < 64"
      "unat b3 = 128 + y3" "y3 < 64"
      using c [of b1] c [of b2] c [of b3] cont by auto
    define v where "v = (((unat b - 240) * 64 + y1) * 64 + y2) * 64 + y3"
    have "continued_value (unat cp) bs = v" using 3 y by (simp add: v_def)
    moreover have "v div 262144 = unat b - 240" "v div 4096 mod 64 = y1" "v div 64 mod 64 = y2"
      "v mod 64 = y3"
      unfolding v_def using digits_of_3 [OF y(2,4,6)] by simp_all
    moreover have "\<not> v < 0x10000"
      using len calculation(1) 3(1) by (auto simp: length_utf8_encode split: if_splits)
    moreover have "0xF0 + (unat b - 240) = unat b" using 3(2) by simp
    ultimately show ?thesis
      by (simp only: utf8_encode_def 3(1) y(1,3,5) [symmetric] if_False list.map word_of_nat_unat)
        auto
  qed
qed

lemma lead_value_bound:
  "utf8_lead b = Some (len, cp) \<Longrightarrow> length bs = len - 1 \<Longrightarrow> (unat cp + 1) * 64 ^ length bs \<le> 2 ^ 26"
  by (auto simp: utf8_lead_Some)

lemma continued_value_le:
  "list_all continuation bs \<Longrightarrow> continued_value n bs + 1 \<le> (n + 1) * 64 ^ length bs"
proof (induction bs arbitrary: n)
  case Nil
  then show ?case by simp
next
  case (Cons b bs)
  let ?m = "n * 64 + (unat b - 128)"
  have "continued_value ?m bs + 1 \<le> (?m + 1) * 64 ^ length bs" using Cons by simp
  also have "\<dots> \<le> ((n + 1) * 64) * 64 ^ length bs"
    using continuation_bound(2) [of b] Cons.prems by (intro mult_right_mono) simp_all
  also have "\<dots> = (n + 1) * 64 ^ length (b # bs)" by (simp only: length_Cons power_Suc mult.assoc)
  finally show ?case by simp
qed

lemma continued_value_bound:
  assumes "utf8_lead b = Some (len, cp)" "length bs = len - 1" "list_all continuation bs"
  shows "len = 2 \<longrightarrow> continued_value (unat cp) bs < 0x800"
    and "len = 3 \<longrightarrow> continued_value (unat cp) bs < 0x10000" and "len \<in> {2, 3, 4}"
    and "continued_value (unat cp) bs < 2 ^ 32"
proof -
  note v = continued_value_le [OF assms(3), of "unat cp"]
  show "len = 2 \<longrightarrow> continued_value (unat cp) bs < 0x800"
    using v assms(1,2) by (auto simp: utf8_lead_Some)
  show "len = 3 \<longrightarrow> continued_value (unat cp) bs < 0x10000"
    using v assms(1,2) by (auto simp: utf8_lead_Some)
  show "len \<in> {2, 3, 4}" using assms(1) by (auto simp: utf8_lead_Some)
  show "continued_value (unat cp) bs < 2 ^ 32"
    using v lead_value_bound [OF assms(1,2)] by simp
qed

lemma utf8_lead_not_ascii: "utf8_lead b = Some x \<Longrightarrow> \<not> b < 0x80"
  by (cases x) (auto simp: utf8_lead_Some u8_less_128)

lemma measure_head_lead:
  assumes lead: "utf8_lead b = Some (len, cp)" and len: "len - 1 \<le> length bs"
  shows "measure_head (b # bs) =
    (let cs = take (len - 1) bs; c = continued_value (unat cp) cs in
     if list_all continuation cs \<and> allowed_code_point c \<and> length (utf8_encode c) = len
     then len else 0)"
proof -
  define cs where "cs = take (len - 1) bs"
  have l: "length cs = len - 1" and cs: "take (len - Suc 0) bs = cs" using len by (simp_all add: cs_def)
  note cont = utf8_continue_Some [OF lead_value_bound [OF lead l]]
  have nb: "\<not> len > Suc (length bs)" using len by simp
  show ?thesis
  proof (cases "utf8_continue cs cp")
    case None
    have "\<not> list_all continuation cs"
    proof
      assume a: "list_all continuation cs"
      have "continued_value (unat cp) cs < 2 ^ 32"
        by (rule continued_value_bound(4) [OF lead l a])
      then have "utf8_continue cs cp = Some (word_of_nat (continued_value (unat cp) cs))"
        using a by (simp add: cont unat_of_nat_small)
      then show False using None by simp
    qed
    then show ?thesis
      using None lead nb utf8_lead_not_ascii [OF lead]
      by (simp add: measure_head_multi cs Let_def)
  next
    case (Some cp')
    then have a: "list_all continuation cs" "unat cp' = continued_value (unat cp) cs"
      using cont by simp_all
    have "is_canonical_code_point cp' len \<longleftrightarrow>
        allowed_code_point (unat cp') \<and> length (utf8_encode (unat cp')) = len"
      using continued_value_bound(1-3) [OF lead l a(1)] a(2) by (intro canonical_iff) simp_all
    then show ?thesis
      using Some a lead nb utf8_lead_not_ascii [OF lead]
      by (simp add: measure_head_multi cs Let_def)
  qed
qed

lemma measure_head_encode:
  assumes "allowed_code_point c"
  shows "measure_head (utf8_encode c @ ys) = length (utf8_encode c)"
proof (cases "c < 0x80")
  case True
  then have "utf8_encode c = [word_of_nat c]" "unat (word_of_nat c :: u8) = c"
    by (simp_all add: utf8_encode_def unat_word_of_nat_u8)
  then show ?thesis using True assms by (simp add: measure_head_ascii u8_less_128)
next
  case False
  then obtain b bs cp where e: "utf8_encode c = b # bs" "utf8_lead b = Some (Suc (length bs), cp)"
    "list_all continuation bs" "continued_value (unat cp) bs = c"
    using utf8_encode_multi [of c] assms by (metis allowed_code_point_def not_less)
  have "length (utf8_encode c) = Suc (length bs)" using e(1) by simp
  then show ?thesis using e assms measure_head_lead [OF e(2), of "bs @ ys"] by simp
qed

lemma measure_head_sound:
  assumes "measure_head (b # bs) \<noteq> 0"
  obtains c where "allowed_code_point c" "length (utf8_encode c) = measure_head (b # bs)"
    "b # bs = utf8_encode c @ drop (measure_head (b # bs)) (b # bs)"
proof (cases "b < 0x80")
  case True
  then have "allowed_code_point (unat b)" "measure_head (b # bs) = 1"
    using assms by (auto simp: measure_head_ascii split: if_splits)
  then show ?thesis using True by (intro that [of "unat b"]) (simp_all add: utf8_encode_def u8_less_128)
next
  case False
  then obtain len cp where lead: "utf8_lead b = Some (len, cp)" "len - 1 \<le> length bs"
    using assms by (auto simp: measure_head_multi split: option.splits if_splits)
  define cs where "cs = take (len - 1) bs"
  define c where "c = continued_value (unat cp) cs"
  have m: "list_all continuation cs" "allowed_code_point c" "length (utf8_encode c) = len"
    "measure_head (b # bs) = len"
    using assms measure_head_lead [OF lead]
    by (auto simp: cs_def c_def Let_def split: if_splits)
  have l: "Suc (length cs) = len"
    using lead by (auto simp: cs_def utf8_lead_Some)
  have "utf8_encode c = b # cs"
    unfolding c_def by (rule utf8_multi_encode) (use lead m l in \<open>simp_all add: c_def\<close>)
  moreover have "bs = cs @ drop (len - 1) bs" by (simp add: cs_def)
  ultimately show ?thesis using m l by (intro that [of c]) (simp_all add: drop_Cons')
qed

section \<open>The whole text\<close>

lemma utf8_text_Nil [simp]: "utf8_text []"
  unfolding utf8_text_def by (intro exI [of _ "[]"]) simp

lemma utf8_text_step:
  assumes "measure_head (b # bs) \<noteq> 0"
  shows "utf8_text (b # bs) \<longleftrightarrow> utf8_text (drop (measure_head (b # bs)) (b # bs))"
proof
  obtain c where c: "allowed_code_point c" "b # bs = utf8_encode c @ drop (measure_head (b # bs)) (b # bs)"
    using measure_head_sound [OF assms] by metis
  assume "utf8_text (drop (measure_head (b # bs)) (b # bs))"
  then obtain cps where "list_all allowed_code_point cps"
    "drop (measure_head (b # bs)) (b # bs) = concat (map utf8_encode cps)"
    by (auto simp: utf8_text_def)
  with c show "utf8_text (b # bs)" unfolding utf8_text_def by (intro exI [of _ "c # cps"]) simp
next
  assume "utf8_text (b # bs)"
  then obtain cs where cs: "list_all allowed_code_point cs" "b # bs = concat (map utf8_encode cs)"
    by (auto simp: utf8_text_def)
  then obtain c cps where "cs = c # cps" by (cases cs) auto
  with cs have c: "allowed_code_point c" "list_all allowed_code_point cps"
    "b # bs = utf8_encode c @ concat (map utf8_encode cps)" by simp_all
  then have "measure_head (b # bs) = length (utf8_encode c)"
    using measure_head_encode [OF c(1), of "concat (map utf8_encode cps)"] by simp
  with c show "utf8_text (drop (measure_head (b # bs)) (b # bs))"
    unfolding utf8_text_def by (intro exI [of _ cps]) simp
qed

lemma utf8_text_reject:
  assumes "measure_head (b # bs) = 0"
  shows "\<not> utf8_text (b # bs)"
proof
  assume "utf8_text (b # bs)"
  then obtain cps where cps: "list_all allowed_code_point cps" "b # bs = concat (map utf8_encode cps)"
    by (auto simp: utf8_text_def)
  then obtain c cps' where c: "cps = c # cps'" by (cases cps) auto
  have "measure_head (b # bs) = length (utf8_encode c)"
    using cps c measure_head_encode [of c "concat (map utf8_encode cps')"] by simp
  then show False using assms by (simp add: length_utf8_encode split: if_splits)
qed

lemma validate_from_iff: "validate_from s offset \<longleftrightarrow> utf8_text (drop offset s)"
proof (induction s offset rule: validate_from.induct)
  case (1 s offset)
  show ?case
  proof (cases "offset < length s")
    case False
    then show ?thesis by (simp add: validate_from.simps [of s offset])
  next
    case True
    then obtain b bs where bs: "drop offset s = b # bs"
      by (metis Cons_nth_drop_Suc)
    have m: "measure_utf8_sequence s offset = measure_head (b # bs)"
      using measure_utf8_sequence_drop [OF True] bs by simp
    show ?thesis
    proof (cases "measure_head (b # bs) = 0")
      case z: True
      then show ?thesis
        using True m bs utf8_text_reject [OF z] by (simp add: validate_from.simps [of s offset])
    next
      case nz: False
      have "validate_from s offset = validate_from s (offset + measure_head (b # bs))"
        using True m nz by (simp add: validate_from.simps [of s offset])
      also have "\<dots> \<longleftrightarrow> utf8_text (drop (offset + measure_head (b # bs)) s)"
        using 1 [OF True refl] m nz by simp
      also have "\<dots> \<longleftrightarrow> utf8_text (drop (measure_head (b # bs)) (drop offset s))"
        by (simp add: add.commute)
      finally show ?thesis using utf8_text_step [OF nz] bs by simp
    qed
  qed
qed

lemma validate_text_field_iff: "validate_text_field text \<longleftrightarrow> utf8_text text"
  by (simp add: validate_text_field_def validate_from_iff)

lemma utf8_text_append: "utf8_text s \<Longrightarrow> utf8_text t \<Longrightarrow> utf8_text (s @ t)"
  unfolding utf8_text_def by (metis concat_append list_all_append map_append)

lemma validate_text_field_append:
  "validate_text_field s \<Longrightarrow> validate_text_field t \<Longrightarrow> validate_text_field (s @ t)"
  by (simp add: validate_text_field_iff utf8_text_append)

section \<open>The text codec\<close>

definition read_text_field :: "nat \<Rightarrow> bytes reader" where
  "read_text_field maximum_length =
     rd_bind (read_length_prefixed maximum_length) (\<lambda>decoded.
       if validate_text_field decoded then rd_return decoded else rd_fail)"

definition write_text_field :: "bytes \<Rightarrow> byte_writer \<Rightarrow> byte_writer" where
  "write_text_field text = write_length_prefixed text"

definition text_ok :: "nat \<Rightarrow> bytes \<Rightarrow> bool" where
  "text_ok maximum_length text \<longleftrightarrow> length text \<le> maximum_length \<and> validate_text_field text"

lemma write_text_field_emit [writer_simps]: "write_text_field t w = emit (prefixed_bytes t) w"
  by (simp add: write_text_field_def write_length_prefixed_emit)

lemma safe_read_text_field [reader_intros]: "safe_reader (read_text_field m)"
  unfolding read_text_field_def by (intro reader_intros)

lemma decodes_read_text_field [reader_intros]:
  assumes "text_ok m t" and "m < 4294967296"
  shows "decodes (read_text_field m) t (prefixed_bytes t)"
proof -
  have "decodes (read_text_field m) t (prefixed_bytes t @ [])"
    unfolding read_text_field_def using assms
    by (intro decodes_bind [OF decodes_read_length_prefixed] decodes_if(1) decodes_return)
      (simp_all add: text_ok_def)
  then show ?thesis by simp
qed

lemma read_text_field_sound [reader_sound]:
  assumes "br_ok r" and "read_text_field m r = (Some t, r')"
  shows "text_ok m t \<and> unread r = prefixed_bytes t @ unread r' \<and> br_ok r'"
proof -
  have "read_length_prefixed m r = (Some t, r')" "validate_text_field t"
    using assms(2) by (auto simp: read_text_field_def reader_Some split: if_splits)
  with read_length_prefixed_sound [OF assms(1)] show ?thesis by (auto simp: text_ok_def)
qed

lemma yields_read_text_field [yields_intros]: "yields (read_text_field n) (\<lambda>v bs. text_ok n v \<and> bs = prefixed_bytes v)"
  unfolding yields_def using read_text_field_sound by blast

declare decodes_read_text_field [decodes_intros]

text \<open>
  C39: the UTF-8 validator accepts a byte string exactly when it is the concatenation of the
  shortest encodings of a list of Unicode scalar values, none of them a C0 control other than tab
  and line feed, and none DEL. Overlong forms, surrogates, truncated sequences and values past
  U+10FFFF are therefore all refused.
\<close>

theorem validate_text_field_correct:
  "validate_text_field s \<longleftrightarrow>
     (\<exists>cps. list_all (\<lambda>c. c \<le> 0x10FFFF \<and> \<not> (0xD800 \<le> c \<and> c \<le> 0xDFFF) \<and>
        (c = 9 \<or> c = 10 \<or> 0x20 \<le> c) \<and> c \<noteq> 0x7F) cps \<and> s = concat (map utf8_encode cps))"
  unfolding validate_text_field_iff utf8_text_def allowed_code_point_def ..

end
