(* ===== verification/Messages_Session.thy ===== *)
theory Messages_Session
  imports Text_Field
begin

text \<open>
  The messages of session opening, accounts and status replies (\<^verbatim>\<open>hello_message\<close>,
  \<^verbatim>\<open>auth_message\<close>, \<^verbatim>\<open>ping_message\<close>, \<^verbatim>\<open>motd_message\<close>, \<^verbatim>\<open>status_message\<close>,
  \<^verbatim>\<open>register_message\<close>, \<^verbatim>\<open>prekey_publish_message\<close>, \<^verbatim>\<open>prekey_fetch_message\<close>). Each struct is a
  record with its \<^verbatim>\<open>write_to\<close> and \<^verbatim>\<open>read_from\<close>; the predicate \<open>..._valid\<close> says which values
  survive the trip, and the interpretation of the codec contract proves that exactly these do.
\<close>

section \<open>Session opening\<close>

record hello_request =
  hq_protocol_version :: u16
  hq_client_pubkey :: bytes

definition hello_request_write_to :: "hello_request \<Rightarrow> byte_writer \<Rightarrow> byte_writer" where
  "hello_request_write_to m = write_seq
     [write_integer (hq_protocol_version m),
      write_fixed_bytes (hq_client_pubkey m)]"

definition hello_request_read_from :: "hello_request reader" where
  "hello_request_read_from =
     rd_bind read_integer (\<lambda>protocol_version.
     rd_bind (read_fixed_bytes PUBLIC_KEY_SIZE) (\<lambda>client_pubkey.
     rd_return \<lparr>hq_protocol_version = protocol_version,
        hq_client_pubkey = client_pubkey\<rparr>))"

definition hello_request_valid :: "hello_request \<Rightarrow> bool" where
  "hello_request_valid m \<longleftrightarrow> length (hq_client_pubkey m) = PUBLIC_KEY_SIZE"

lemma hello_request_emit:
  "hello_request_write_to m w = emit
     (le_bytes (hq_protocol_version m) @ hq_client_pubkey m @ []) w"
  by (simp add: hello_request_write_to_def writer_simps)

interpretation hello_request: codec hello_request_write_to hello_request_read_from hello_request_valid
  unfolding hello_request_read_from_def hello_request_valid_def
  by (rule codec_yieldsI [OF hello_request_emit],
      ((rule decodes_intros decodes_return_eq [OF hello_request.equality] | simp)+)[1],
      ((rule yields_intros)+, simp)[1], intro reader_intros)

record auth_challenge =
  ac_protocol_version :: u16
  ac_nonce :: bytes
  ac_account_exists :: u8
  ac_server_time :: u64

definition auth_challenge_write_to :: "auth_challenge \<Rightarrow> byte_writer \<Rightarrow> byte_writer" where
  "auth_challenge_write_to m = write_seq
     [write_integer (ac_protocol_version m),
      write_fixed_bytes (ac_nonce m),
      write_integer (ac_account_exists m),
      write_integer (ac_server_time m)]"

definition auth_challenge_read_from :: "auth_challenge reader" where
  "auth_challenge_read_from =
     rd_bind read_integer (\<lambda>protocol_version.
     rd_bind (read_fixed_bytes AUTH_NONCE_SIZE) (\<lambda>nonce.
     rd_bind read_integer (\<lambda>account_exists.
     rd_bind read_integer (\<lambda>server_time.
     rd_return \<lparr>ac_protocol_version = protocol_version, ac_nonce = nonce,
        ac_account_exists = account_exists, ac_server_time = server_time\<rparr>))))"

definition auth_challenge_valid :: "auth_challenge \<Rightarrow> bool" where
  "auth_challenge_valid m \<longleftrightarrow> length (ac_nonce m) = AUTH_NONCE_SIZE"

lemma auth_challenge_emit:
  "auth_challenge_write_to m w = emit
     (le_bytes (ac_protocol_version m) @ ac_nonce m @ le_bytes (ac_account_exists m) @
      le_bytes (ac_server_time m) @ []) w"
  by (simp add: auth_challenge_write_to_def writer_simps)

interpretation auth_challenge: codec auth_challenge_write_to auth_challenge_read_from auth_challenge_valid
  unfolding auth_challenge_read_from_def auth_challenge_valid_def
  by (rule codec_yieldsI [OF auth_challenge_emit],
      ((rule decodes_intros decodes_return_eq [OF auth_challenge.equality] | simp)+)[1],
      ((rule yields_intros)+, simp)[1], intro reader_intros)

record auth_response =
  ar_signature :: bytes

definition auth_response_write_to :: "auth_response \<Rightarrow> byte_writer \<Rightarrow> byte_writer" where
  "auth_response_write_to m = write_seq
     [write_fixed_bytes (ar_signature m)]"

definition auth_response_read_from :: "auth_response reader" where
  "auth_response_read_from =
     rd_bind (read_fixed_bytes SIGNATURE_SIZE) (\<lambda>signature.
     rd_return \<lparr>ar_signature = signature\<rparr>)"

definition auth_response_valid :: "auth_response \<Rightarrow> bool" where
  "auth_response_valid m \<longleftrightarrow> length (ar_signature m) = SIGNATURE_SIZE"

lemma auth_response_emit:
  "auth_response_write_to m w = emit
     (ar_signature m @ []) w"
  by (simp add: auth_response_write_to_def writer_simps)

interpretation auth_response: codec auth_response_write_to auth_response_read_from auth_response_valid
  unfolding auth_response_read_from_def auth_response_valid_def
  by (rule codec_yieldsI [OF auth_response_emit],
      ((rule decodes_intros decodes_return_eq [OF auth_response.equality] | simp)+)[1],
      ((rule yields_intros)+, simp)[1], intro reader_intros)

record auth_accepted =
  aa_user_id :: u64
  aa_handle :: bytes
  aa_server_time :: u64

definition auth_accepted_write_to :: "auth_accepted \<Rightarrow> byte_writer \<Rightarrow> byte_writer" where
  "auth_accepted_write_to m = write_seq
     [write_integer (aa_user_id m),
      write_text_field (aa_handle m),
      write_integer (aa_server_time m)]"

definition auth_accepted_read_from :: "auth_accepted reader" where
  "auth_accepted_read_from =
     rd_bind read_integer (\<lambda>user_id.
     rd_bind (read_text_field MAX_HANDLE_LENGTH) (\<lambda>handle.
     rd_bind read_integer (\<lambda>server_time.
     rd_return \<lparr>aa_user_id = user_id, aa_handle = handle, aa_server_time = server_time\<rparr>)))"

definition auth_accepted_valid :: "auth_accepted \<Rightarrow> bool" where
  "auth_accepted_valid m \<longleftrightarrow> text_ok MAX_HANDLE_LENGTH (aa_handle m)"

lemma auth_accepted_emit:
  "auth_accepted_write_to m w = emit
     (le_bytes (aa_user_id m) @ prefixed_bytes (aa_handle m) @ le_bytes (aa_server_time m) @
      []) w"
  by (simp add: auth_accepted_write_to_def writer_simps)

interpretation auth_accepted: codec auth_accepted_write_to auth_accepted_read_from auth_accepted_valid
  unfolding auth_accepted_read_from_def auth_accepted_valid_def
  by (rule codec_yieldsI [OF auth_accepted_emit],
      ((rule decodes_intros decodes_return_eq [OF auth_accepted.equality] | simp)+)[1],
      ((rule yields_intros)+, simp)[1], intro reader_intros)

definition AUTH_SIGNATURE_DOMAIN :: bytes where
  "AUTH_SIGNATURE_DOMAIN = ascii ''hypercom-auth-v1''"

definition build_auth_signing_input :: "bytes \<Rightarrow> bytes \<Rightarrow> bytes" where
  "build_auth_signing_input nonce client_pubkey =
     bw_target (write_seq
       [write_fixed_bytes AUTH_SIGNATURE_DOMAIN,
        write_fixed_bytes nonce,
        write_fixed_bytes client_pubkey] (byte_writer_of []))"

section \<open>Liveness and announcements\<close>

record ping_request =
  pq_token :: u64

definition ping_request_write_to :: "ping_request \<Rightarrow> byte_writer \<Rightarrow> byte_writer" where
  "ping_request_write_to m = write_seq
     [write_integer (pq_token m)]"

definition ping_request_read_from :: "ping_request reader" where
  "ping_request_read_from =
     rd_bind read_integer (\<lambda>token.
     rd_return \<lparr>pq_token = token\<rparr>)"

definition ping_request_valid :: "ping_request \<Rightarrow> bool" where
  "ping_request_valid m \<longleftrightarrow> True"

lemma ping_request_emit:
  "ping_request_write_to m w = emit
     (le_bytes (pq_token m) @ []) w"
  by (simp add: ping_request_write_to_def writer_simps)

interpretation ping_request: codec ping_request_write_to ping_request_read_from ping_request_valid
  unfolding ping_request_read_from_def ping_request_valid_def
  by (rule codec_yieldsI [OF ping_request_emit],
      ((rule decodes_intros decodes_return_eq [OF ping_request.equality] | simp)+)[1],
      ((rule yields_intros)+, simp)[1], intro reader_intros)

record ping_response =
  pg_token :: u64
  pg_server_time :: u64

definition ping_response_write_to :: "ping_response \<Rightarrow> byte_writer \<Rightarrow> byte_writer" where
  "ping_response_write_to m = write_seq
     [write_integer (pg_token m),
      write_integer (pg_server_time m)]"

definition ping_response_read_from :: "ping_response reader" where
  "ping_response_read_from =
     rd_bind read_integer (\<lambda>token.
     rd_bind read_integer (\<lambda>server_time.
     rd_return \<lparr>pg_token = token, pg_server_time = server_time\<rparr>))"

definition ping_response_valid :: "ping_response \<Rightarrow> bool" where
  "ping_response_valid m \<longleftrightarrow> True"

lemma ping_response_emit:
  "ping_response_write_to m w = emit
     (le_bytes (pg_token m) @ le_bytes (pg_server_time m) @ []) w"
  by (simp add: ping_response_write_to_def writer_simps)

interpretation ping_response: codec ping_response_write_to ping_response_read_from ping_response_valid
  unfolding ping_response_read_from_def ping_response_valid_def
  by (rule codec_yieldsI [OF ping_response_emit],
      ((rule decodes_intros decodes_return_eq [OF ping_response.equality] | simp)+)[1],
      ((rule yields_intros)+, simp)[1], intro reader_intros)

record motd_push =
  mp_revision :: u64
  mp_body :: bytes

definition motd_push_write_to :: "motd_push \<Rightarrow> byte_writer \<Rightarrow> byte_writer" where
  "motd_push_write_to m = write_seq
     [write_integer (mp_revision m),
      write_text_field (mp_body m)]"

definition motd_push_read_from :: "motd_push reader" where
  "motd_push_read_from =
     rd_bind read_integer (\<lambda>revision.
     rd_bind (read_text_field MAX_MOTD_LENGTH) (\<lambda>body.
     rd_return \<lparr>mp_revision = revision, mp_body = body\<rparr>))"

definition motd_push_valid :: "motd_push \<Rightarrow> bool" where
  "motd_push_valid m \<longleftrightarrow> text_ok MAX_MOTD_LENGTH (mp_body m)"

lemma motd_push_emit:
  "motd_push_write_to m w = emit
     (le_bytes (mp_revision m) @ prefixed_bytes (mp_body m) @ []) w"
  by (simp add: motd_push_write_to_def writer_simps)

interpretation motd_push: codec motd_push_write_to motd_push_read_from motd_push_valid
  unfolding motd_push_read_from_def motd_push_valid_def
  by (rule codec_yieldsI [OF motd_push_emit],
      ((rule decodes_intros decodes_return_eq [OF motd_push.equality] | simp)+)[1],
      ((rule yields_intros)+, simp)[1], intro reader_intros)

section \<open>Status replies\<close>

datatype error_code =
    EC_none
  | EC_malformed_frame
  | EC_unsupported_version
  | EC_not_authenticated
  | EC_already_authenticated
  | EC_authentication_failed
  | EC_handle_unavailable
  | EC_invalid_field
  | EC_not_found
  | EC_permission_denied
  | EC_rate_limited
  | EC_payload_too_large
  | EC_duplicate_entry
  | EC_internal_error
  | EC_not_implemented
  | EC_account_banned

primrec error_number :: "error_code \<Rightarrow> u16" where
  "error_number EC_none = 0"
| "error_number EC_malformed_frame = 1"
| "error_number EC_unsupported_version = 2"
| "error_number EC_not_authenticated = 3"
| "error_number EC_already_authenticated = 4"
| "error_number EC_authentication_failed = 5"
| "error_number EC_handle_unavailable = 6"
| "error_number EC_invalid_field = 7"
| "error_number EC_not_found = 8"
| "error_number EC_permission_denied = 9"
| "error_number EC_rate_limited = 10"
| "error_number EC_payload_too_large = 11"
| "error_number EC_duplicate_entry = 12"
| "error_number EC_internal_error = 13"
| "error_number EC_not_implemented = 14"
| "error_number EC_account_banned = 15"

definition all_error_codes :: "error_code list" where
  "all_error_codes = [EC_none, EC_malformed_frame, EC_unsupported_version,
      EC_not_authenticated, EC_already_authenticated, EC_authentication_failed,
      EC_handle_unavailable, EC_invalid_field, EC_not_found, EC_permission_denied,
      EC_rate_limited, EC_payload_too_large, EC_duplicate_entry, EC_internal_error,
      EC_not_implemented, EC_account_banned]"

primrec describe_error_code :: "error_code \<Rightarrow> bytes" where
  "describe_error_code EC_none = ascii ''ok''"
| "describe_error_code EC_malformed_frame = ascii ''trame invalide''"
| "describe_error_code EC_unsupported_version = ascii ''version non supportee''"
| "describe_error_code EC_not_authenticated = ascii ''authentification requise''"
| "describe_error_code EC_already_authenticated = ascii ''session deja authentifiee''"
| "describe_error_code EC_authentication_failed = ascii ''authentification refusee''"
| "describe_error_code EC_handle_unavailable = ascii ''pseudo indisponible''"
| "describe_error_code EC_invalid_field = ascii ''champ invalide''"
| "describe_error_code EC_not_found = ascii ''introuvable''"
| "describe_error_code EC_permission_denied = ascii ''acces refuse''"
| "describe_error_code EC_rate_limited = ascii ''trop de requetes''"
| "describe_error_code EC_payload_too_large = ascii ''charge utile trop grande''"
| "describe_error_code EC_duplicate_entry = ascii ''entree deja existante''"
| "describe_error_code EC_internal_error = ascii ''erreur interne''"
| "describe_error_code EC_not_implemented = ascii ''non implemente''"
| "describe_error_code EC_account_banned = ascii ''compte banni''"

definition error_of_number :: "u16 \<Rightarrow> error_code option" where
  "error_of_number raw = find (\<lambda>c. error_number c = raw) all_error_codes"

definition read_error_code :: "error_code reader" where
  "read_error_code =
     rd_bind read_integer (\<lambda>raw :: u16.
       if raw > error_number EC_not_implemented then rd_fail
       else (case error_of_number raw of None \<Rightarrow> rd_fail | Some code \<Rightarrow> rd_return code))"

lemma error_of_number_number [simp]: "error_of_number (error_number c) = Some c"
  by (cases c) (simp_all add: error_of_number_def all_error_codes_def)

lemma error_of_number_Some: "error_of_number n = Some c \<longleftrightarrow> error_number c = n"
proof
  assume "error_of_number n = Some c"
  then show "error_number c = n" by (auto simp: error_of_number_def find_Some_iff)
qed auto

lemma error_number_le: "error_number c > error_number EC_not_implemented \<longleftrightarrow> c = EC_account_banned"
  by (cases c) simp_all

lemma safe_read_error_code [reader_intros]: "safe_reader read_error_code"
  unfolding read_error_code_def
  by (intro safe_bind safe_read_integer) (auto intro: reader_intros split: option.split)

lemma decodes_read_error_code [decodes_intros]:
  assumes "c \<noteq> EC_account_banned"
  shows "decodes read_error_code c (le_bytes (error_number c))"
proof -
  have "\<not> error_number c > error_number EC_not_implemented" using assms error_number_le by blast
  then have "decodes read_error_code c (le_bytes (error_number c) @ [])"
    unfolding read_error_code_def 
    by (intro decodes_bind [OF decodes_read_integer [of "error_number c"]]) (simp_all add: decodes_return)
  then show ?thesis by simp
qed

lemma yields_read_error_code [yields_intros]:
  "yields read_error_code (\<lambda>c bs. c \<noteq> EC_account_banned \<and> bs = le_bytes (error_number c))"
  unfolding read_error_code_def
proof (rule yields_bind [OF yields_read_ints(2)])
  fix raw :: u16 and bs assume "bs = le_bytes raw"
  then show "yields (if raw > error_number EC_not_implemented then rd_fail
      else case error_of_number raw of None \<Rightarrow> rd_fail | Some code \<Rightarrow> rd_return code)
      (\<lambda>c cs. c \<noteq> EC_account_banned \<and> bs @ cs = le_bytes (error_number c))"
    using error_number_le
    by (auto intro!: yields_fail yields_return simp: error_of_number_Some split: option.split)
qed

record status_ok_response =
  so_reference_id :: u64

definition status_ok_response_write_to :: "status_ok_response \<Rightarrow> byte_writer \<Rightarrow> byte_writer" where
  "status_ok_response_write_to m = write_seq
     [write_integer (so_reference_id m)]"

definition status_ok_response_read_from :: "status_ok_response reader" where
  "status_ok_response_read_from =
     rd_bind read_integer (\<lambda>reference_id.
     rd_return \<lparr>so_reference_id = reference_id\<rparr>)"

definition status_ok_response_valid :: "status_ok_response \<Rightarrow> bool" where
  "status_ok_response_valid m \<longleftrightarrow> True"

lemma status_ok_response_emit:
  "status_ok_response_write_to m w = emit
     (le_bytes (so_reference_id m) @ []) w"
  by (simp add: status_ok_response_write_to_def writer_simps)

interpretation status_ok_response: codec status_ok_response_write_to status_ok_response_read_from status_ok_response_valid
  unfolding status_ok_response_read_from_def status_ok_response_valid_def
  by (rule codec_yieldsI [OF status_ok_response_emit],
      ((rule decodes_intros decodes_return_eq [OF status_ok_response.equality] | simp)+)[1],
      ((rule yields_intros)+, simp)[1], intro reader_intros)

record status_error_response =
  se_code :: error_code
  se_detail :: bytes

definition status_error_response_write_to :: "status_error_response \<Rightarrow> byte_writer \<Rightarrow> byte_writer" where
  "status_error_response_write_to m = write_seq
     [write_integer (error_number (se_code m)),
      write_text_field (se_detail m)]"

definition status_error_response_read_from :: "status_error_response reader" where
  "status_error_response_read_from =
     rd_bind read_error_code (\<lambda>code.
     rd_bind (read_text_field MAX_ERROR_MESSAGE_LENGTH) (\<lambda>detail.
     rd_return \<lparr>se_code = code, se_detail = detail\<rparr>))"

definition status_error_response_valid :: "status_error_response \<Rightarrow> bool" where
  "status_error_response_valid m \<longleftrightarrow>
     se_code m \<noteq> EC_account_banned \<and>
     text_ok MAX_ERROR_MESSAGE_LENGTH (se_detail m)"

lemma status_error_response_emit:
  "status_error_response_write_to m w = emit
     (le_bytes (error_number (se_code m)) @ prefixed_bytes (se_detail m) @ []) w"
  by (simp add: status_error_response_write_to_def writer_simps)

interpretation status_error_response: codec status_error_response_write_to status_error_response_read_from status_error_response_valid
  unfolding status_error_response_read_from_def status_error_response_valid_def
  by (rule codec_yieldsI [OF status_error_response_emit],
      ((rule decodes_intros decodes_return_eq [OF status_error_response.equality] | simp)+)[1],
      ((rule yields_intros)+, simp)[1], intro reader_intros)

section \<open>Accounts\<close>

record register_request =
  rq_handle :: bytes

definition register_request_write_to :: "register_request \<Rightarrow> byte_writer \<Rightarrow> byte_writer" where
  "register_request_write_to m = write_seq
     [write_text_field (rq_handle m)]"

definition register_request_read_from :: "register_request reader" where
  "register_request_read_from =
     rd_bind (read_text_field MAX_HANDLE_LENGTH) (\<lambda>handle.
     rd_return \<lparr>rq_handle = handle\<rparr>)"

definition register_request_valid :: "register_request \<Rightarrow> bool" where
  "register_request_valid m \<longleftrightarrow> text_ok MAX_HANDLE_LENGTH (rq_handle m)"

lemma register_request_emit:
  "register_request_write_to m w = emit
     (prefixed_bytes (rq_handle m) @ []) w"
  by (simp add: register_request_write_to_def writer_simps)

interpretation register_request: codec register_request_write_to register_request_read_from register_request_valid
  unfolding register_request_read_from_def register_request_valid_def
  by (rule codec_yieldsI [OF register_request_emit],
      ((rule decodes_intros decodes_return_eq [OF register_request.equality] | simp)+)[1],
      ((rule yields_intros)+, simp)[1], intro reader_intros)

definition MIN_HANDLE_LENGTH :: nat where [simp]: "MIN_HANDLE_LENGTH = 3"

text \<open>Character tests are stated on the byte of the character.\<close>

definition in_range :: "char \<Rightarrow> char \<Rightarrow> u8 \<Rightarrow> bool" where
  "in_range lo hi b \<longleftrightarrow> of_char lo \<le> b \<and> b \<le> of_char hi"

definition is_handle_character :: "u8 \<Rightarrow> bool" where
  "is_handle_character c \<longleftrightarrow>
     (if in_range CHR ''a'' CHR ''z'' c \<or> in_range CHR ''A'' CHR ''Z'' c then True
      else if in_range CHR ''0'' CHR ''9'' c then True
      else c = of_char CHR ''-'' \<or> c = of_char CHR ''_'')"

definition validate_handle :: "bytes \<Rightarrow> bool" where
  "validate_handle handle \<longleftrightarrow>
     (if length handle < MIN_HANDLE_LENGTH \<or> length handle > MAX_HANDLE_LENGTH then False
      else if in_range CHR ''0'' CHR ''9'' (hd handle) then False
      else list_all is_handle_character handle)"

section \<open>Prekeys\<close>

record prekey_publish_request =
  pp_prekey :: bytes
  pp_signature :: bytes

definition prekey_publish_request_write_to :: "prekey_publish_request \<Rightarrow> byte_writer \<Rightarrow> byte_writer" where
  "prekey_publish_request_write_to m = write_seq
     [write_fixed_bytes (pp_prekey m),
      write_fixed_bytes (pp_signature m)]"

definition prekey_publish_request_read_from :: "prekey_publish_request reader" where
  "prekey_publish_request_read_from =
     rd_bind (read_fixed_bytes PUBLIC_KEY_SIZE) (\<lambda>prekey.
     rd_bind (read_fixed_bytes SIGNATURE_SIZE) (\<lambda>signature.
     rd_return \<lparr>pp_prekey = prekey, pp_signature = signature\<rparr>))"

definition prekey_publish_request_valid :: "prekey_publish_request \<Rightarrow> bool" where
  "prekey_publish_request_valid m \<longleftrightarrow>
     length (pp_prekey m) = PUBLIC_KEY_SIZE \<and> length (pp_signature m) = SIGNATURE_SIZE"

lemma prekey_publish_request_emit:
  "prekey_publish_request_write_to m w = emit
     (pp_prekey m @ pp_signature m @ []) w"
  by (simp add: prekey_publish_request_write_to_def writer_simps)

interpretation prekey_publish_request: codec prekey_publish_request_write_to prekey_publish_request_read_from prekey_publish_request_valid
  unfolding prekey_publish_request_read_from_def prekey_publish_request_valid_def
  by (rule codec_yieldsI [OF prekey_publish_request_emit],
      ((rule decodes_intros decodes_return_eq [OF prekey_publish_request.equality] | simp)+)[1],
      ((rule yields_intros)+, simp)[1], intro reader_intros)

definition PREKEY_SIGNATURE_DOMAIN :: bytes where
  "PREKEY_SIGNATURE_DOMAIN = ascii ''hypercom-prekey-v1''"

definition build_prekey_signing_input :: "bytes \<Rightarrow> bytes \<Rightarrow> bytes" where
  "build_prekey_signing_input identity_pubkey prekey =
     bw_target (write_seq
       [write_fixed_bytes PREKEY_SIGNATURE_DOMAIN,
        write_fixed_bytes identity_pubkey,
        write_fixed_bytes prekey] (byte_writer_of []))"

record prekey_fetch_request =
  pf_target_pubkey :: bytes

definition prekey_fetch_request_write_to :: "prekey_fetch_request \<Rightarrow> byte_writer \<Rightarrow> byte_writer" where
  "prekey_fetch_request_write_to m = write_seq
     [write_fixed_bytes (pf_target_pubkey m)]"

definition prekey_fetch_request_read_from :: "prekey_fetch_request reader" where
  "prekey_fetch_request_read_from =
     rd_bind (read_fixed_bytes PUBLIC_KEY_SIZE) (\<lambda>target_pubkey.
     rd_return \<lparr>pf_target_pubkey = target_pubkey\<rparr>)"

definition prekey_fetch_request_valid :: "prekey_fetch_request \<Rightarrow> bool" where
  "prekey_fetch_request_valid m \<longleftrightarrow>
     length (pf_target_pubkey m) = PUBLIC_KEY_SIZE"

lemma prekey_fetch_request_emit:
  "prekey_fetch_request_write_to m w = emit
     (pf_target_pubkey m @ []) w"
  by (simp add: prekey_fetch_request_write_to_def writer_simps)

interpretation prekey_fetch_request: codec prekey_fetch_request_write_to prekey_fetch_request_read_from prekey_fetch_request_valid
  unfolding prekey_fetch_request_read_from_def prekey_fetch_request_valid_def
  by (rule codec_yieldsI [OF prekey_fetch_request_emit],
      ((rule decodes_intros decodes_return_eq [OF prekey_fetch_request.equality] | simp)+)[1],
      ((rule yields_intros)+, simp)[1], intro reader_intros)

record prekey_bundle_response =
  pb_owner_pubkey :: bytes
  pb_prekey :: bytes
  pb_signature :: bytes
  pb_created_at :: u64

definition prekey_bundle_response_write_to :: "prekey_bundle_response \<Rightarrow> byte_writer \<Rightarrow> byte_writer" where
  "prekey_bundle_response_write_to m = write_seq
     [write_fixed_bytes (pb_owner_pubkey m),
      write_fixed_bytes (pb_prekey m),
      write_fixed_bytes (pb_signature m),
      write_integer (pb_created_at m)]"

definition prekey_bundle_response_read_from :: "prekey_bundle_response reader" where
  "prekey_bundle_response_read_from =
     rd_bind (read_fixed_bytes PUBLIC_KEY_SIZE) (\<lambda>owner_pubkey.
     rd_bind (read_fixed_bytes PUBLIC_KEY_SIZE) (\<lambda>prekey.
     rd_bind (read_fixed_bytes SIGNATURE_SIZE) (\<lambda>signature.
     rd_bind read_integer (\<lambda>created_at.
     rd_return \<lparr>pb_owner_pubkey = owner_pubkey, pb_prekey = prekey,
        pb_signature = signature, pb_created_at = created_at\<rparr>))))"

definition prekey_bundle_response_valid :: "prekey_bundle_response \<Rightarrow> bool" where
  "prekey_bundle_response_valid m \<longleftrightarrow>
     length (pb_owner_pubkey m) = PUBLIC_KEY_SIZE \<and>
     length (pb_prekey m) = PUBLIC_KEY_SIZE \<and> length (pb_signature m) = SIGNATURE_SIZE"

lemma prekey_bundle_response_emit:
  "prekey_bundle_response_write_to m w = emit
     (pb_owner_pubkey m @ pb_prekey m @ pb_signature m @ le_bytes (pb_created_at m) @ []) w"
  by (simp add: prekey_bundle_response_write_to_def writer_simps)

interpretation prekey_bundle_response: codec prekey_bundle_response_write_to prekey_bundle_response_read_from prekey_bundle_response_valid
  unfolding prekey_bundle_response_read_from_def prekey_bundle_response_valid_def
  by (rule codec_yieldsI [OF prekey_bundle_response_emit],
      ((rule decodes_intros decodes_return_eq [OF prekey_bundle_response.equality] | simp)+)[1],
      ((rule yields_intros)+, simp)[1], intro reader_intros)

end
