(* ===== verification/Messages_Content.thy ===== *)
theory Messages_Content
  imports Messages_Session
begin

text \<open>
  Forums, posts, comments, deletions and reports on the wire (\<^verbatim>\<open>forum_record\<close>,
  \<^verbatim>\<open>forum_create_message\<close>, \<^verbatim>\<open>forum_list_message\<close>, \<^verbatim>\<open>content_records\<close>,
  \<^verbatim>\<open>post_create_message\<close>, \<^verbatim>\<open>post_list_message\<close>, \<^verbatim>\<open>thread_fetch_message\<close>,
  \<^verbatim>\<open>comment_create_message\<close>, \<^verbatim>\<open>content_delete_message\<close>, \<^verbatim>\<open>report_message\<close>). List messages
  reuse the codec of their elements through the counted-list interface.
\<close>

section \<open>Forums\<close>

record forum_record =
  fr_id :: u64
  fr_name :: bytes
  fr_description :: bytes
  fr_founder_pubkey :: bytes
  fr_founder_handle :: bytes
  fr_theme_json :: bytes
  fr_created_at :: u64
  fr_post_count :: u32

definition forum_record_write_to :: "forum_record \<Rightarrow> byte_writer \<Rightarrow> byte_writer" where
  "forum_record_write_to m = write_seq
     [write_integer (fr_id m),
      write_text_field (fr_name m),
      write_text_field (fr_description m),
      write_fixed_bytes (fr_founder_pubkey m),
      write_text_field (fr_founder_handle m),
      write_text_field (fr_theme_json m),
      write_integer (fr_created_at m),
      write_integer (fr_post_count m)]"

definition forum_record_read_from :: "forum_record reader" where
  "forum_record_read_from =
     rd_bind read_integer (\<lambda>id.
     rd_bind (read_text_field MAX_FORUM_NAME_LENGTH) (\<lambda>name.
     rd_bind (read_text_field MAX_FORUM_DESCRIPTION_LENGTH) (\<lambda>description.
     rd_bind (read_fixed_bytes PUBLIC_KEY_SIZE) (\<lambda>founder_pubkey.
     rd_bind (read_text_field MAX_HANDLE_LENGTH) (\<lambda>founder_handle.
     rd_bind (read_text_field MAX_THEME_JSON_LENGTH) (\<lambda>theme_json.
     rd_bind read_integer (\<lambda>created_at.
     rd_bind read_integer (\<lambda>post_count.
     rd_return \<lparr>fr_id = id, fr_name = name, fr_description = description,
        fr_founder_pubkey = founder_pubkey, fr_founder_handle = founder_handle,
        fr_theme_json = theme_json, fr_created_at = created_at, fr_post_count = post_count\<rparr>))))))))"

definition forum_record_valid :: "forum_record \<Rightarrow> bool" where
  "forum_record_valid m \<longleftrightarrow> text_ok MAX_FORUM_NAME_LENGTH (fr_name m) \<and>
     text_ok MAX_FORUM_DESCRIPTION_LENGTH (fr_description m) \<and>
     length (fr_founder_pubkey m) = PUBLIC_KEY_SIZE \<and>
     text_ok MAX_HANDLE_LENGTH (fr_founder_handle m) \<and>
     text_ok MAX_THEME_JSON_LENGTH (fr_theme_json m)"

lemma forum_record_emit:
  "forum_record_write_to m w = emit
     (le_bytes (fr_id m) @ prefixed_bytes (fr_name m) @ prefixed_bytes (fr_description m) @
      fr_founder_pubkey m @ prefixed_bytes (fr_founder_handle m) @
      prefixed_bytes (fr_theme_json m) @ le_bytes (fr_created_at m) @
      le_bytes (fr_post_count m) @ []) w"
  by (simp add: forum_record_write_to_def writer_simps)

interpretation forum_record: codec forum_record_write_to forum_record_read_from forum_record_valid
  unfolding forum_record_read_from_def forum_record_valid_def
  by (rule codec_yieldsI [OF forum_record_emit],
      ((rule decodes_intros decodes_return_eq [OF forum_record.equality] | simp)+)[1],
      ((rule yields_intros)+, simp)[1], intro reader_intros)

lemmas forum_record_nested_safe [reader_intros] = forum_record.read_safe
lemmas forum_record_nested_decodes [decodes_intros] = forum_record.read_decodes
lemmas forum_record_nested_yields [yields_intros] = forum_record.yields_codec
lemmas forum_record_nested_write [writer_simps] = forum_record.write_emits

record forum_create_request =
  fc_name :: bytes
  fc_description :: bytes
  fc_theme_json :: bytes

definition forum_create_request_write_to :: "forum_create_request \<Rightarrow> byte_writer \<Rightarrow> byte_writer" where
  "forum_create_request_write_to m = write_seq
     [write_text_field (fc_name m),
      write_text_field (fc_description m),
      write_text_field (fc_theme_json m)]"

definition forum_create_request_read_from :: "forum_create_request reader" where
  "forum_create_request_read_from =
     rd_bind (read_text_field MAX_FORUM_NAME_LENGTH) (\<lambda>name.
     rd_bind (read_text_field MAX_FORUM_DESCRIPTION_LENGTH) (\<lambda>description.
     rd_bind (read_text_field MAX_THEME_JSON_LENGTH) (\<lambda>theme_json.
     rd_return \<lparr>fc_name = name, fc_description = description,
        fc_theme_json = theme_json\<rparr>)))"

definition forum_create_request_valid :: "forum_create_request \<Rightarrow> bool" where
  "forum_create_request_valid m \<longleftrightarrow>
     text_ok MAX_FORUM_NAME_LENGTH (fc_name m) \<and>
     text_ok MAX_FORUM_DESCRIPTION_LENGTH (fc_description m) \<and>
     text_ok MAX_THEME_JSON_LENGTH (fc_theme_json m)"

lemma forum_create_request_emit:
  "forum_create_request_write_to m w = emit
     (prefixed_bytes (fc_name m) @ prefixed_bytes (fc_description m) @
      prefixed_bytes (fc_theme_json m) @ []) w"
  by (simp add: forum_create_request_write_to_def writer_simps)

interpretation forum_create_request: codec forum_create_request_write_to forum_create_request_read_from forum_create_request_valid
  unfolding forum_create_request_read_from_def forum_create_request_valid_def
  by (rule codec_yieldsI [OF forum_create_request_emit],
      ((rule decodes_intros decodes_return_eq [OF forum_create_request.equality] | simp)+)[1],
      ((rule yields_intros)+, simp)[1], intro reader_intros)

record forum_info_response =
  fi_forum :: forum_record

definition forum_info_response_write_to :: "forum_info_response \<Rightarrow> byte_writer \<Rightarrow> byte_writer" where
  "forum_info_response_write_to m = write_seq
     [forum_record_write_to (fi_forum m)]"

definition forum_info_response_read_from :: "forum_info_response reader" where
  "forum_info_response_read_from =
     rd_bind forum_record_read_from (\<lambda>forum.
     rd_return \<lparr>fi_forum = forum\<rparr>)"

definition forum_info_response_valid :: "forum_info_response \<Rightarrow> bool" where
  "forum_info_response_valid m \<longleftrightarrow> forum_record_valid (fi_forum m)"

lemma forum_info_response_emit:
  "forum_info_response_write_to m w = emit
     (encode_with forum_record_write_to (fi_forum m) @ []) w"
  by (simp add: forum_info_response_write_to_def writer_simps)

interpretation forum_info_response: codec forum_info_response_write_to forum_info_response_read_from forum_info_response_valid
  unfolding forum_info_response_read_from_def forum_info_response_valid_def
  by (rule codec_yieldsI [OF forum_info_response_emit],
      ((rule decodes_intros decodes_return_eq [OF forum_info_response.equality] | simp)+)[1],
      ((rule yields_intros)+, simp)[1], intro reader_intros)

definition MIN_FORUM_NAME_LENGTH :: nat where [simp]: "MIN_FORUM_NAME_LENGTH = 2"

definition is_forum_name_character :: "u8 \<Rightarrow> bool" where
  "is_forum_name_character c \<longleftrightarrow>
     (if in_range CHR ''a'' CHR ''z'' c then True
      else if in_range CHR ''0'' CHR ''9'' c then True
      else c = of_char CHR ''-'' \<or> c = of_char CHR ''_'')"

definition validate_forum_name :: "bytes \<Rightarrow> bool" where
  "validate_forum_name name \<longleftrightarrow>
     (if length name < MIN_FORUM_NAME_LENGTH \<or> length name > MAX_FORUM_NAME_LENGTH then False
      else list_all is_forum_name_character name)"

record forum_list_request =
  flq_offset :: u32
  flq_limit :: u16

definition forum_list_request_write_to :: "forum_list_request \<Rightarrow> byte_writer \<Rightarrow> byte_writer" where
  "forum_list_request_write_to m = write_seq
     [write_integer (flq_offset m),
      write_integer (flq_limit m)]"

definition forum_list_request_read_from :: "forum_list_request reader" where
  "forum_list_request_read_from =
     rd_bind read_integer (\<lambda>offset.
     rd_bind read_integer (\<lambda>limit.
     rd_return \<lparr>flq_offset = offset, flq_limit = limit\<rparr>))"

definition forum_list_request_valid :: "forum_list_request \<Rightarrow> bool" where
  "forum_list_request_valid m \<longleftrightarrow> True"

lemma forum_list_request_emit:
  "forum_list_request_write_to m w = emit
     (le_bytes (flq_offset m) @ le_bytes (flq_limit m) @ []) w"
  by (simp add: forum_list_request_write_to_def writer_simps)

interpretation forum_list_request: codec forum_list_request_write_to forum_list_request_read_from forum_list_request_valid
  unfolding forum_list_request_read_from_def forum_list_request_valid_def
  by (rule codec_yieldsI [OF forum_list_request_emit],
      ((rule decodes_intros decodes_return_eq [OF forum_list_request.equality] | simp)+)[1],
      ((rule yields_intros)+, simp)[1], intro reader_intros)

interpretation forum_records: record_list_codec forum_record_write_to forum_record_read_from forum_record_valid MAX_LIST_ITEMS ..

lemmas forum_records_safe [reader_intros] = forum_records.items.read_safe
lemmas forum_records_decodes [decodes_intros] = forum_records.items.read_decodes
lemmas forum_records_yields [yields_intros] = forum_records.items.yields_codec
lemmas forum_records_write [writer_simps] = forum_records.items.write_emits

record forum_list_response =
  fl_forums :: "forum_record list"
  fl_total_count :: u32

definition forum_list_response_write_to :: "forum_list_response \<Rightarrow> byte_writer \<Rightarrow> byte_writer" where
  "forum_list_response_write_to m = write_seq
     [write_record_list forum_record_write_to (fl_forums m),
      write_integer (fl_total_count m)]"

definition forum_list_response_read_from :: "forum_list_response reader" where
  "forum_list_response_read_from =
     rd_bind (read_record_list forum_record_read_from MAX_LIST_ITEMS) (\<lambda>forums.
     rd_bind read_integer (\<lambda>total_count.
     rd_return \<lparr>fl_forums = forums, fl_total_count = total_count\<rparr>))"

definition forum_list_response_valid :: "forum_list_response \<Rightarrow> bool" where
  "forum_list_response_valid m \<longleftrightarrow>
     valid_list forum_record_valid MAX_LIST_ITEMS (fl_forums m)"

lemma forum_list_response_emit:
  "forum_list_response_write_to m w = emit
     (encode_with (write_record_list forum_record_write_to) (fl_forums m) @
      le_bytes (fl_total_count m) @ []) w"
  by (simp add: forum_list_response_write_to_def writer_simps)

interpretation forum_list_response: codec forum_list_response_write_to forum_list_response_read_from forum_list_response_valid
  unfolding forum_list_response_read_from_def forum_list_response_valid_def
  by (rule codec_yieldsI [OF forum_list_response_emit],
      ((rule decodes_intros decodes_return_eq [OF forum_list_response.equality] | simp)+)[1],
      ((rule yields_intros)+, simp)[1], intro reader_intros)

section \<open>Posts and comments\<close>

record post_record =
  pr_id :: u64
  pr_forum_id :: u64
  pr_author_pubkey :: bytes
  pr_author_handle :: bytes
  pr_title :: bytes
  pr_body :: bytes
  pr_created_at :: u64
  pr_comment_count :: u32

definition post_record_write_to :: "post_record \<Rightarrow> byte_writer \<Rightarrow> byte_writer" where
  "post_record_write_to m = write_seq
     [write_integer (pr_id m),
      write_integer (pr_forum_id m),
      write_fixed_bytes (pr_author_pubkey m),
      write_text_field (pr_author_handle m),
      write_text_field (pr_title m),
      write_text_field (pr_body m),
      write_integer (pr_created_at m),
      write_integer (pr_comment_count m)]"

definition post_record_read_from :: "post_record reader" where
  "post_record_read_from =
     rd_bind read_integer (\<lambda>id.
     rd_bind read_integer (\<lambda>forum_id.
     rd_bind (read_fixed_bytes PUBLIC_KEY_SIZE) (\<lambda>author_pubkey.
     rd_bind (read_text_field MAX_HANDLE_LENGTH) (\<lambda>author_handle.
     rd_bind (read_text_field MAX_POST_TITLE_LENGTH) (\<lambda>title.
     rd_bind (read_text_field MAX_POST_BODY_LENGTH) (\<lambda>body.
     rd_bind read_integer (\<lambda>created_at.
     rd_bind read_integer (\<lambda>comment_count.
     rd_return \<lparr>pr_id = id, pr_forum_id = forum_id, pr_author_pubkey = author_pubkey,
        pr_author_handle = author_handle, pr_title = title, pr_body = body,
        pr_created_at = created_at, pr_comment_count = comment_count\<rparr>))))))))"

definition post_record_valid :: "post_record \<Rightarrow> bool" where
  "post_record_valid m \<longleftrightarrow>
     length (pr_author_pubkey m) = PUBLIC_KEY_SIZE \<and>
     text_ok MAX_HANDLE_LENGTH (pr_author_handle m) \<and>
     text_ok MAX_POST_TITLE_LENGTH (pr_title m) \<and>
     text_ok MAX_POST_BODY_LENGTH (pr_body m)"

lemma post_record_emit:
  "post_record_write_to m w = emit
     (le_bytes (pr_id m) @ le_bytes (pr_forum_id m) @ pr_author_pubkey m @
      prefixed_bytes (pr_author_handle m) @ prefixed_bytes (pr_title m) @
      prefixed_bytes (pr_body m) @ le_bytes (pr_created_at m) @
      le_bytes (pr_comment_count m) @ []) w"
  by (simp add: post_record_write_to_def writer_simps)

interpretation post_record: codec post_record_write_to post_record_read_from post_record_valid
  unfolding post_record_read_from_def post_record_valid_def
  by (rule codec_yieldsI [OF post_record_emit],
      ((rule decodes_intros decodes_return_eq [OF post_record.equality] | simp)+)[1],
      ((rule yields_intros)+, simp)[1], intro reader_intros)

lemmas post_record_nested_safe [reader_intros] = post_record.read_safe
lemmas post_record_nested_decodes [decodes_intros] = post_record.read_decodes
lemmas post_record_nested_yields [yields_intros] = post_record.yields_codec
lemmas post_record_nested_write [writer_simps] = post_record.write_emits

record comment_record =
  cr_id :: u64
  cr_post_id :: u64
  cr_parent_comment_id :: u64
  cr_author_pubkey :: bytes
  cr_author_handle :: bytes
  cr_body :: bytes
  cr_created_at :: u64
  cr_depth :: u16

definition comment_record_write_to :: "comment_record \<Rightarrow> byte_writer \<Rightarrow> byte_writer" where
  "comment_record_write_to m = write_seq
     [write_integer (cr_id m),
      write_integer (cr_post_id m),
      write_integer (cr_parent_comment_id m),
      write_fixed_bytes (cr_author_pubkey m),
      write_text_field (cr_author_handle m),
      write_text_field (cr_body m),
      write_integer (cr_created_at m),
      write_integer (cr_depth m)]"

definition comment_record_read_from :: "comment_record reader" where
  "comment_record_read_from =
     rd_bind read_integer (\<lambda>id.
     rd_bind read_integer (\<lambda>post_id.
     rd_bind read_integer (\<lambda>parent_comment_id.
     rd_bind (read_fixed_bytes PUBLIC_KEY_SIZE) (\<lambda>author_pubkey.
     rd_bind (read_text_field MAX_HANDLE_LENGTH) (\<lambda>author_handle.
     rd_bind (read_text_field MAX_COMMENT_BODY_LENGTH) (\<lambda>body.
     rd_bind read_integer (\<lambda>created_at.
     rd_bind read_integer (\<lambda>depth.
     rd_return \<lparr>cr_id = id, cr_post_id = post_id,
        cr_parent_comment_id = parent_comment_id, cr_author_pubkey = author_pubkey,
        cr_author_handle = author_handle, cr_body = body, cr_created_at = created_at,
        cr_depth = depth\<rparr>))))))))"

definition comment_record_valid :: "comment_record \<Rightarrow> bool" where
  "comment_record_valid m \<longleftrightarrow>
     length (cr_author_pubkey m) = PUBLIC_KEY_SIZE \<and>
     text_ok MAX_HANDLE_LENGTH (cr_author_handle m) \<and>
     text_ok MAX_COMMENT_BODY_LENGTH (cr_body m)"

lemma comment_record_emit:
  "comment_record_write_to m w = emit
     (le_bytes (cr_id m) @ le_bytes (cr_post_id m) @ le_bytes (cr_parent_comment_id m) @
      cr_author_pubkey m @ prefixed_bytes (cr_author_handle m) @ prefixed_bytes (cr_body m) @
      le_bytes (cr_created_at m) @ le_bytes (cr_depth m) @ []) w"
  by (simp add: comment_record_write_to_def writer_simps)

interpretation comment_record: codec comment_record_write_to comment_record_read_from comment_record_valid
  unfolding comment_record_read_from_def comment_record_valid_def
  by (rule codec_yieldsI [OF comment_record_emit],
      ((rule decodes_intros decodes_return_eq [OF comment_record.equality] | simp)+)[1],
      ((rule yields_intros)+, simp)[1], intro reader_intros)

lemmas comment_record_nested_safe [reader_intros] = comment_record.read_safe
lemmas comment_record_nested_decodes [decodes_intros] = comment_record.read_decodes
lemmas comment_record_nested_yields [yields_intros] = comment_record.yields_codec
lemmas comment_record_nested_write [writer_simps] = comment_record.write_emits

record post_create_request =
  pc_forum_id :: u64
  pc_title :: bytes
  pc_body :: bytes

definition post_create_request_write_to :: "post_create_request \<Rightarrow> byte_writer \<Rightarrow> byte_writer" where
  "post_create_request_write_to m = write_seq
     [write_integer (pc_forum_id m),
      write_text_field (pc_title m),
      write_text_field (pc_body m)]"

definition post_create_request_read_from :: "post_create_request reader" where
  "post_create_request_read_from =
     rd_bind read_integer (\<lambda>forum_id.
     rd_bind (read_text_field MAX_POST_TITLE_LENGTH) (\<lambda>title.
     rd_bind (read_text_field MAX_POST_BODY_LENGTH) (\<lambda>body.
     rd_return \<lparr>pc_forum_id = forum_id, pc_title = title, pc_body = body\<rparr>)))"

definition post_create_request_valid :: "post_create_request \<Rightarrow> bool" where
  "post_create_request_valid m \<longleftrightarrow>
     text_ok MAX_POST_TITLE_LENGTH (pc_title m) \<and>
     text_ok MAX_POST_BODY_LENGTH (pc_body m)"

lemma post_create_request_emit:
  "post_create_request_write_to m w = emit
     (le_bytes (pc_forum_id m) @ prefixed_bytes (pc_title m) @ prefixed_bytes (pc_body m) @ []) w"
  by (simp add: post_create_request_write_to_def writer_simps)

interpretation post_create_request: codec post_create_request_write_to post_create_request_read_from post_create_request_valid
  unfolding post_create_request_read_from_def post_create_request_valid_def
  by (rule codec_yieldsI [OF post_create_request_emit],
      ((rule decodes_intros decodes_return_eq [OF post_create_request.equality] | simp)+)[1],
      ((rule yields_intros)+, simp)[1], intro reader_intros)

record post_info_response =
  pi_post :: post_record

definition post_info_response_write_to :: "post_info_response \<Rightarrow> byte_writer \<Rightarrow> byte_writer" where
  "post_info_response_write_to m = write_seq
     [post_record_write_to (pi_post m)]"

definition post_info_response_read_from :: "post_info_response reader" where
  "post_info_response_read_from =
     rd_bind post_record_read_from (\<lambda>post.
     rd_return \<lparr>pi_post = post\<rparr>)"

definition post_info_response_valid :: "post_info_response \<Rightarrow> bool" where
  "post_info_response_valid m \<longleftrightarrow> post_record_valid (pi_post m)"

lemma post_info_response_emit:
  "post_info_response_write_to m w = emit
     (encode_with post_record_write_to (pi_post m) @ []) w"
  by (simp add: post_info_response_write_to_def writer_simps)

interpretation post_info_response: codec post_info_response_write_to post_info_response_read_from post_info_response_valid
  unfolding post_info_response_read_from_def post_info_response_valid_def
  by (rule codec_yieldsI [OF post_info_response_emit],
      ((rule decodes_intros decodes_return_eq [OF post_info_response.equality] | simp)+)[1],
      ((rule yields_intros)+, simp)[1], intro reader_intros)

record post_list_request =
  plq_forum_id :: u64
  plq_offset :: u32
  plq_limit :: u16

definition post_list_request_write_to :: "post_list_request \<Rightarrow> byte_writer \<Rightarrow> byte_writer" where
  "post_list_request_write_to m = write_seq
     [write_integer (plq_forum_id m),
      write_integer (plq_offset m),
      write_integer (plq_limit m)]"

definition post_list_request_read_from :: "post_list_request reader" where
  "post_list_request_read_from =
     rd_bind read_integer (\<lambda>forum_id.
     rd_bind read_integer (\<lambda>offset.
     rd_bind read_integer (\<lambda>limit.
     rd_return \<lparr>plq_forum_id = forum_id, plq_offset = offset, plq_limit = limit\<rparr>)))"

definition post_list_request_valid :: "post_list_request \<Rightarrow> bool" where
  "post_list_request_valid m \<longleftrightarrow> True"

lemma post_list_request_emit:
  "post_list_request_write_to m w = emit
     (le_bytes (plq_forum_id m) @ le_bytes (plq_offset m) @ le_bytes (plq_limit m) @ []) w"
  by (simp add: post_list_request_write_to_def writer_simps)

interpretation post_list_request: codec post_list_request_write_to post_list_request_read_from post_list_request_valid
  unfolding post_list_request_read_from_def post_list_request_valid_def
  by (rule codec_yieldsI [OF post_list_request_emit],
      ((rule decodes_intros decodes_return_eq [OF post_list_request.equality] | simp)+)[1],
      ((rule yields_intros)+, simp)[1], intro reader_intros)

interpretation post_records: record_list_codec post_record_write_to post_record_read_from post_record_valid MAX_LIST_ITEMS ..

lemmas post_records_safe [reader_intros] = post_records.items.read_safe
lemmas post_records_decodes [decodes_intros] = post_records.items.read_decodes
lemmas post_records_yields [yields_intros] = post_records.items.yields_codec
lemmas post_records_write [writer_simps] = post_records.items.write_emits

record post_list_response =
  pl_posts :: "post_record list"
  pl_total_count :: u32

definition post_list_response_write_to :: "post_list_response \<Rightarrow> byte_writer \<Rightarrow> byte_writer" where
  "post_list_response_write_to m = write_seq
     [write_record_list post_record_write_to (pl_posts m),
      write_integer (pl_total_count m)]"

definition post_list_response_read_from :: "post_list_response reader" where
  "post_list_response_read_from =
     rd_bind (read_record_list post_record_read_from MAX_LIST_ITEMS) (\<lambda>posts.
     rd_bind read_integer (\<lambda>total_count.
     rd_return \<lparr>pl_posts = posts, pl_total_count = total_count\<rparr>))"

definition post_list_response_valid :: "post_list_response \<Rightarrow> bool" where
  "post_list_response_valid m \<longleftrightarrow>
     valid_list post_record_valid MAX_LIST_ITEMS (pl_posts m)"

lemma post_list_response_emit:
  "post_list_response_write_to m w = emit
     (encode_with (write_record_list post_record_write_to) (pl_posts m) @
      le_bytes (pl_total_count m) @ []) w"
  by (simp add: post_list_response_write_to_def writer_simps)

interpretation post_list_response: codec post_list_response_write_to post_list_response_read_from post_list_response_valid
  unfolding post_list_response_read_from_def post_list_response_valid_def
  by (rule codec_yieldsI [OF post_list_response_emit],
      ((rule decodes_intros decodes_return_eq [OF post_list_response.equality] | simp)+)[1],
      ((rule yields_intros)+, simp)[1], intro reader_intros)

record thread_fetch_request =
  tfq_post_id :: u64

definition thread_fetch_request_write_to :: "thread_fetch_request \<Rightarrow> byte_writer \<Rightarrow> byte_writer" where
  "thread_fetch_request_write_to m = write_seq
     [write_integer (tfq_post_id m)]"

definition thread_fetch_request_read_from :: "thread_fetch_request reader" where
  "thread_fetch_request_read_from =
     rd_bind read_integer (\<lambda>post_id.
     rd_return \<lparr>tfq_post_id = post_id\<rparr>)"

definition thread_fetch_request_valid :: "thread_fetch_request \<Rightarrow> bool" where
  "thread_fetch_request_valid m \<longleftrightarrow> True"

lemma thread_fetch_request_emit:
  "thread_fetch_request_write_to m w = emit
     (le_bytes (tfq_post_id m) @ []) w"
  by (simp add: thread_fetch_request_write_to_def writer_simps)

interpretation thread_fetch_request: codec thread_fetch_request_write_to thread_fetch_request_read_from thread_fetch_request_valid
  unfolding thread_fetch_request_read_from_def thread_fetch_request_valid_def
  by (rule codec_yieldsI [OF thread_fetch_request_emit],
      ((rule decodes_intros decodes_return_eq [OF thread_fetch_request.equality] | simp)+)[1],
      ((rule yields_intros)+, simp)[1], intro reader_intros)

interpretation comment_records: record_list_codec comment_record_write_to comment_record_read_from comment_record_valid MAX_THREAD_COMMENTS ..

lemmas comment_records_safe [reader_intros] = comment_records.items.read_safe
lemmas comment_records_decodes [decodes_intros] = comment_records.items.read_decodes
lemmas comment_records_yields [yields_intros] = comment_records.items.yields_codec
lemmas comment_records_write [writer_simps] = comment_records.items.write_emits

record thread_response =
  tr_post :: post_record
  tr_comments :: "comment_record list"
  tr_truncated :: u8

definition thread_response_write_to :: "thread_response \<Rightarrow> byte_writer \<Rightarrow> byte_writer" where
  "thread_response_write_to m = write_seq
     [post_record_write_to (tr_post m),
      write_record_list comment_record_write_to (tr_comments m),
      write_integer (tr_truncated m)]"

definition thread_response_read_from :: "thread_response reader" where
  "thread_response_read_from =
     rd_bind post_record_read_from (\<lambda>post.
     rd_bind (read_record_list comment_record_read_from MAX_THREAD_COMMENTS) (\<lambda>comments.
     rd_bind read_integer (\<lambda>truncated.
     rd_return \<lparr>tr_post = post, tr_comments = comments, tr_truncated = truncated\<rparr>)))"

definition thread_response_valid :: "thread_response \<Rightarrow> bool" where
  "thread_response_valid m \<longleftrightarrow> post_record_valid (tr_post m) \<and>
     valid_list comment_record_valid MAX_THREAD_COMMENTS (tr_comments m)"

lemma thread_response_emit:
  "thread_response_write_to m w = emit
     (encode_with post_record_write_to (tr_post m) @
      encode_with (write_record_list comment_record_write_to) (tr_comments m) @
      le_bytes (tr_truncated m) @ []) w"
  by (simp add: thread_response_write_to_def writer_simps)

interpretation thread_response: codec thread_response_write_to thread_response_read_from thread_response_valid
  unfolding thread_response_read_from_def thread_response_valid_def
  by (rule codec_yieldsI [OF thread_response_emit],
      ((rule decodes_intros decodes_return_eq [OF thread_response.equality] | simp)+)[1],
      ((rule yields_intros)+, simp)[1], intro reader_intros)

record comment_create_request =
  cc_post_id :: u64
  cc_parent_comment_id :: u64
  cc_body :: bytes

definition comment_create_request_write_to :: "comment_create_request \<Rightarrow> byte_writer \<Rightarrow> byte_writer" where
  "comment_create_request_write_to m = write_seq
     [write_integer (cc_post_id m),
      write_integer (cc_parent_comment_id m),
      write_text_field (cc_body m)]"

definition comment_create_request_read_from :: "comment_create_request reader" where
  "comment_create_request_read_from =
     rd_bind read_integer (\<lambda>post_id.
     rd_bind read_integer (\<lambda>parent_comment_id.
     rd_bind (read_text_field MAX_COMMENT_BODY_LENGTH) (\<lambda>body.
     rd_return \<lparr>cc_post_id = post_id, cc_parent_comment_id = parent_comment_id,
        cc_body = body\<rparr>)))"

definition comment_create_request_valid :: "comment_create_request \<Rightarrow> bool" where
  "comment_create_request_valid m \<longleftrightarrow>
     text_ok MAX_COMMENT_BODY_LENGTH (cc_body m)"

lemma comment_create_request_emit:
  "comment_create_request_write_to m w = emit
     (le_bytes (cc_post_id m) @ le_bytes (cc_parent_comment_id m) @
      prefixed_bytes (cc_body m) @ []) w"
  by (simp add: comment_create_request_write_to_def writer_simps)

interpretation comment_create_request: codec comment_create_request_write_to comment_create_request_read_from comment_create_request_valid
  unfolding comment_create_request_read_from_def comment_create_request_valid_def
  by (rule codec_yieldsI [OF comment_create_request_emit],
      ((rule decodes_intros decodes_return_eq [OF comment_create_request.equality] | simp)+)[1],
      ((rule yields_intros)+, simp)[1], intro reader_intros)

record comment_info_response =
  ci_comment :: comment_record

definition comment_info_response_write_to :: "comment_info_response \<Rightarrow> byte_writer \<Rightarrow> byte_writer" where
  "comment_info_response_write_to m = write_seq
     [comment_record_write_to (ci_comment m)]"

definition comment_info_response_read_from :: "comment_info_response reader" where
  "comment_info_response_read_from =
     rd_bind comment_record_read_from (\<lambda>comment.
     rd_return \<lparr>ci_comment = comment\<rparr>)"

definition comment_info_response_valid :: "comment_info_response \<Rightarrow> bool" where
  "comment_info_response_valid m \<longleftrightarrow> comment_record_valid (ci_comment m)"

lemma comment_info_response_emit:
  "comment_info_response_write_to m w = emit
     (encode_with comment_record_write_to (ci_comment m) @ []) w"
  by (simp add: comment_info_response_write_to_def writer_simps)

interpretation comment_info_response: codec comment_info_response_write_to comment_info_response_read_from comment_info_response_valid
  unfolding comment_info_response_read_from_def comment_info_response_valid_def
  by (rule codec_yieldsI [OF comment_info_response_emit],
      ((rule decodes_intros decodes_return_eq [OF comment_info_response.equality] | simp)+)[1],
      ((rule yields_intros)+, simp)[1], intro reader_intros)

section \<open>Deletion and reporting\<close>

record post_delete_request =
  pd_post_id :: u64

definition post_delete_request_write_to :: "post_delete_request \<Rightarrow> byte_writer \<Rightarrow> byte_writer" where
  "post_delete_request_write_to m = write_seq
     [write_integer (pd_post_id m)]"

definition post_delete_request_read_from :: "post_delete_request reader" where
  "post_delete_request_read_from =
     rd_bind read_integer (\<lambda>post_id.
     rd_return \<lparr>pd_post_id = post_id\<rparr>)"

definition post_delete_request_valid :: "post_delete_request \<Rightarrow> bool" where
  "post_delete_request_valid m \<longleftrightarrow> True"

lemma post_delete_request_emit:
  "post_delete_request_write_to m w = emit
     (le_bytes (pd_post_id m) @ []) w"
  by (simp add: post_delete_request_write_to_def writer_simps)

interpretation post_delete_request: codec post_delete_request_write_to post_delete_request_read_from post_delete_request_valid
  unfolding post_delete_request_read_from_def post_delete_request_valid_def
  by (rule codec_yieldsI [OF post_delete_request_emit],
      ((rule decodes_intros decodes_return_eq [OF post_delete_request.equality] | simp)+)[1],
      ((rule yields_intros)+, simp)[1], intro reader_intros)

record comment_delete_request =
  cd_comment_id :: u64

definition comment_delete_request_write_to :: "comment_delete_request \<Rightarrow> byte_writer \<Rightarrow> byte_writer" where
  "comment_delete_request_write_to m = write_seq
     [write_integer (cd_comment_id m)]"

definition comment_delete_request_read_from :: "comment_delete_request reader" where
  "comment_delete_request_read_from =
     rd_bind read_integer (\<lambda>comment_id.
     rd_return \<lparr>cd_comment_id = comment_id\<rparr>)"

definition comment_delete_request_valid :: "comment_delete_request \<Rightarrow> bool" where
  "comment_delete_request_valid m \<longleftrightarrow> True"

lemma comment_delete_request_emit:
  "comment_delete_request_write_to m w = emit
     (le_bytes (cd_comment_id m) @ []) w"
  by (simp add: comment_delete_request_write_to_def writer_simps)

interpretation comment_delete_request: codec comment_delete_request_write_to comment_delete_request_read_from comment_delete_request_valid
  unfolding comment_delete_request_read_from_def comment_delete_request_valid_def
  by (rule codec_yieldsI [OF comment_delete_request_emit],
      ((rule decodes_intros decodes_return_eq [OF comment_delete_request.equality] | simp)+)[1],
      ((rule yields_intros)+, simp)[1], intro reader_intros)

record report_post_request =
  rp_post_id :: u64
  rp_reason :: bytes

definition report_post_request_write_to :: "report_post_request \<Rightarrow> byte_writer \<Rightarrow> byte_writer" where
  "report_post_request_write_to m = write_seq
     [write_integer (rp_post_id m),
      write_text_field (rp_reason m)]"

definition report_post_request_read_from :: "report_post_request reader" where
  "report_post_request_read_from =
     rd_bind read_integer (\<lambda>post_id.
     rd_bind (read_text_field MAX_REPORT_REASON_LENGTH) (\<lambda>reason.
     rd_return \<lparr>rp_post_id = post_id, rp_reason = reason\<rparr>))"

definition report_post_request_valid :: "report_post_request \<Rightarrow> bool" where
  "report_post_request_valid m \<longleftrightarrow>
     text_ok MAX_REPORT_REASON_LENGTH (rp_reason m)"

lemma report_post_request_emit:
  "report_post_request_write_to m w = emit
     (le_bytes (rp_post_id m) @ prefixed_bytes (rp_reason m) @ []) w"
  by (simp add: report_post_request_write_to_def writer_simps)

interpretation report_post_request: codec report_post_request_write_to report_post_request_read_from report_post_request_valid
  unfolding report_post_request_read_from_def report_post_request_valid_def
  by (rule codec_yieldsI [OF report_post_request_emit],
      ((rule decodes_intros decodes_return_eq [OF report_post_request.equality] | simp)+)[1],
      ((rule yields_intros)+, simp)[1], intro reader_intros)

record report_account_request =
  ra_target_pubkey :: bytes
  ra_reason :: bytes

definition report_account_request_write_to :: "report_account_request \<Rightarrow> byte_writer \<Rightarrow> byte_writer" where
  "report_account_request_write_to m = write_seq
     [write_fixed_bytes (ra_target_pubkey m),
      write_text_field (ra_reason m)]"

definition report_account_request_read_from :: "report_account_request reader" where
  "report_account_request_read_from =
     rd_bind (read_fixed_bytes PUBLIC_KEY_SIZE) (\<lambda>target_pubkey.
     rd_bind (read_text_field MAX_REPORT_REASON_LENGTH) (\<lambda>reason.
     rd_return \<lparr>ra_target_pubkey = target_pubkey, ra_reason = reason\<rparr>))"

definition report_account_request_valid :: "report_account_request \<Rightarrow> bool" where
  "report_account_request_valid m \<longleftrightarrow>
     length (ra_target_pubkey m) = PUBLIC_KEY_SIZE \<and>
     text_ok MAX_REPORT_REASON_LENGTH (ra_reason m)"

lemma report_account_request_emit:
  "report_account_request_write_to m w = emit
     (ra_target_pubkey m @ prefixed_bytes (ra_reason m) @ []) w"
  by (simp add: report_account_request_write_to_def writer_simps)

interpretation report_account_request: codec report_account_request_write_to report_account_request_read_from report_account_request_valid
  unfolding report_account_request_read_from_def report_account_request_valid_def
  by (rule codec_yieldsI [OF report_account_request_emit],
      ((rule decodes_intros decodes_return_eq [OF report_account_request.equality] | simp)+)[1],
      ((rule yields_intros)+, simp)[1], intro reader_intros)

end
