(* ===== verification/Messages_Social.thy ===== *)
theory Messages_Social
  imports Messages_Session
begin

text \<open>
  Profiles, friendships, the top 8 and private messages on the wire (\<^verbatim>\<open>social_records\<close>,
  \<^verbatim>\<open>profile_get_message\<close>, \<^verbatim>\<open>profile_set_message\<close>, \<^verbatim>\<open>friend_message\<close>, \<^verbatim>\<open>top8_message\<close>,
  \<^verbatim>\<open>dm_envelope_record\<close>, \<^verbatim>\<open>dm_send_message\<close>, \<^verbatim>\<open>dm_fetch_message\<close>, \<^verbatim>\<open>dm_ack_message\<close>).
\<close>

section \<open>Profiles\<close>

record profile_record =
  prf_pubkey :: bytes
  prf_handle :: bytes
  prf_display_name :: bytes
  prf_bio :: bytes
  prf_theme_json :: bytes
  prf_banner_reference :: bytes

definition profile_record_write_to :: "profile_record \<Rightarrow> byte_writer \<Rightarrow> byte_writer" where
  "profile_record_write_to m = write_seq
     [write_fixed_bytes (prf_pubkey m),
      write_text_field (prf_handle m),
      write_text_field (prf_display_name m),
      write_text_field (prf_bio m),
      write_text_field (prf_theme_json m),
      write_text_field (prf_banner_reference m)]"

definition profile_record_read_from :: "profile_record reader" where
  "profile_record_read_from =
     rd_bind (read_fixed_bytes PUBLIC_KEY_SIZE) (\<lambda>pubkey.
     rd_bind (read_text_field MAX_HANDLE_LENGTH) (\<lambda>handle.
     rd_bind (read_text_field MAX_DISPLAY_NAME_LENGTH) (\<lambda>display_name.
     rd_bind (read_text_field MAX_BIO_LENGTH) (\<lambda>bio.
     rd_bind (read_text_field MAX_THEME_JSON_LENGTH) (\<lambda>theme_json.
     rd_bind (read_text_field MAX_BLOB_REFERENCE_LENGTH) (\<lambda>banner_reference.
     rd_return \<lparr>prf_pubkey = pubkey, prf_handle = handle, prf_display_name = display_name,
        prf_bio = bio, prf_theme_json = theme_json, prf_banner_reference = banner_reference\<rparr>))))))"

definition profile_record_valid :: "profile_record \<Rightarrow> bool" where
  "profile_record_valid m \<longleftrightarrow> length (prf_pubkey m) = PUBLIC_KEY_SIZE \<and>
     text_ok MAX_HANDLE_LENGTH (prf_handle m) \<and>
     text_ok MAX_DISPLAY_NAME_LENGTH (prf_display_name m) \<and>
     text_ok MAX_BIO_LENGTH (prf_bio m) \<and>
     text_ok MAX_THEME_JSON_LENGTH (prf_theme_json m) \<and>
     text_ok MAX_BLOB_REFERENCE_LENGTH (prf_banner_reference m)"

lemma profile_record_emit:
  "profile_record_write_to m w = emit
     (prf_pubkey m @ prefixed_bytes (prf_handle m) @ prefixed_bytes (prf_display_name m) @
      prefixed_bytes (prf_bio m) @ prefixed_bytes (prf_theme_json m) @
      prefixed_bytes (prf_banner_reference m) @ []) w"
  by (simp add: profile_record_write_to_def writer_simps)

interpretation profile_record: codec profile_record_write_to profile_record_read_from profile_record_valid
  unfolding profile_record_read_from_def profile_record_valid_def
  by (rule codec_yieldsI [OF profile_record_emit],
      ((rule decodes_intros decodes_return_eq [OF profile_record.equality] | simp)+)[1],
      ((rule yields_intros)+, simp)[1], intro reader_intros)

lemmas profile_record_nested_safe [reader_intros] = profile_record.read_safe
lemmas profile_record_nested_decodes [decodes_intros] = profile_record.read_decodes
lemmas profile_record_nested_yields [yields_intros] = profile_record.yields_codec
lemmas profile_record_nested_write [writer_simps] = profile_record.write_emits

record profile_get_request =
  pgq_target_pubkey :: bytes

definition profile_get_request_write_to :: "profile_get_request \<Rightarrow> byte_writer \<Rightarrow> byte_writer" where
  "profile_get_request_write_to m = write_seq
     [write_fixed_bytes (pgq_target_pubkey m)]"

definition profile_get_request_read_from :: "profile_get_request reader" where
  "profile_get_request_read_from =
     rd_bind (read_fixed_bytes PUBLIC_KEY_SIZE) (\<lambda>target_pubkey.
     rd_return \<lparr>pgq_target_pubkey = target_pubkey\<rparr>)"

definition profile_get_request_valid :: "profile_get_request \<Rightarrow> bool" where
  "profile_get_request_valid m \<longleftrightarrow>
     length (pgq_target_pubkey m) = PUBLIC_KEY_SIZE"

lemma profile_get_request_emit:
  "profile_get_request_write_to m w = emit
     (pgq_target_pubkey m @ []) w"
  by (simp add: profile_get_request_write_to_def writer_simps)

interpretation profile_get_request: codec profile_get_request_write_to profile_get_request_read_from profile_get_request_valid
  unfolding profile_get_request_read_from_def profile_get_request_valid_def
  by (rule codec_yieldsI [OF profile_get_request_emit],
      ((rule decodes_intros decodes_return_eq [OF profile_get_request.equality] | simp)+)[1],
      ((rule yields_intros)+, simp)[1], intro reader_intros)

record profile_response =
  prs_profile :: profile_record

definition profile_response_write_to :: "profile_response \<Rightarrow> byte_writer \<Rightarrow> byte_writer" where
  "profile_response_write_to m = write_seq
     [profile_record_write_to (prs_profile m)]"

definition profile_response_read_from :: "profile_response reader" where
  "profile_response_read_from =
     rd_bind profile_record_read_from (\<lambda>profile.
     rd_return \<lparr>prs_profile = profile\<rparr>)"

definition profile_response_valid :: "profile_response \<Rightarrow> bool" where
  "profile_response_valid m \<longleftrightarrow> profile_record_valid (prs_profile m)"

lemma profile_response_emit:
  "profile_response_write_to m w = emit
     (encode_with profile_record_write_to (prs_profile m) @ []) w"
  by (simp add: profile_response_write_to_def writer_simps)

interpretation profile_response: codec profile_response_write_to profile_response_read_from profile_response_valid
  unfolding profile_response_read_from_def profile_response_valid_def
  by (rule codec_yieldsI [OF profile_response_emit],
      ((rule decodes_intros decodes_return_eq [OF profile_response.equality] | simp)+)[1],
      ((rule yields_intros)+, simp)[1], intro reader_intros)

record profile_set_request =
  ps_display_name :: bytes
  ps_bio :: bytes
  ps_theme_json :: bytes
  ps_banner_reference :: bytes

definition profile_set_request_write_to :: "profile_set_request \<Rightarrow> byte_writer \<Rightarrow> byte_writer" where
  "profile_set_request_write_to m = write_seq
     [write_text_field (ps_display_name m),
      write_text_field (ps_bio m),
      write_text_field (ps_theme_json m),
      write_text_field (ps_banner_reference m)]"

definition profile_set_request_read_from :: "profile_set_request reader" where
  "profile_set_request_read_from =
     rd_bind (read_text_field MAX_DISPLAY_NAME_LENGTH) (\<lambda>display_name.
     rd_bind (read_text_field MAX_BIO_LENGTH) (\<lambda>bio.
     rd_bind (read_text_field MAX_THEME_JSON_LENGTH) (\<lambda>theme_json.
     rd_bind (read_text_field MAX_BLOB_REFERENCE_LENGTH) (\<lambda>banner_reference.
     rd_return \<lparr>ps_display_name = display_name, ps_bio = bio,
        ps_theme_json = theme_json, ps_banner_reference = banner_reference\<rparr>))))"

definition profile_set_request_valid :: "profile_set_request \<Rightarrow> bool" where
  "profile_set_request_valid m \<longleftrightarrow>
     text_ok MAX_DISPLAY_NAME_LENGTH (ps_display_name m) \<and>
     text_ok MAX_BIO_LENGTH (ps_bio m) \<and>
     text_ok MAX_THEME_JSON_LENGTH (ps_theme_json m) \<and>
     text_ok MAX_BLOB_REFERENCE_LENGTH (ps_banner_reference m)"

lemma profile_set_request_emit:
  "profile_set_request_write_to m w = emit
     (prefixed_bytes (ps_display_name m) @ prefixed_bytes (ps_bio m) @
      prefixed_bytes (ps_theme_json m) @ prefixed_bytes (ps_banner_reference m) @ []) w"
  by (simp add: profile_set_request_write_to_def writer_simps)

interpretation profile_set_request: codec profile_set_request_write_to profile_set_request_read_from profile_set_request_valid
  unfolding profile_set_request_read_from_def profile_set_request_valid_def
  by (rule codec_yieldsI [OF profile_set_request_emit],
      ((rule decodes_intros decodes_return_eq [OF profile_set_request.equality] | simp)+)[1],
      ((rule yields_intros)+, simp)[1], intro reader_intros)

section \<open>Friendships\<close>

datatype friendship_status = FS_requested | FS_accepted | FS_blocked

primrec friendship_number :: "friendship_status \<Rightarrow> u8" where
  "friendship_number FS_requested = 0"
| "friendship_number FS_accepted = 1"
| "friendship_number FS_blocked = 2"

text \<open>\<^verbatim>\<open>static_cast<friendship_status>\<close>, used only below the bound \<^verbatim>\<open>blocked\<close>.\<close>

definition friendship_of_number :: "u8 \<Rightarrow> friendship_status" where
  "friendship_of_number raw = (if raw = 0 then FS_requested else if raw = 1 then FS_accepted else FS_blocked)"

definition read_friendship_status :: "friendship_status reader" where
  "read_friendship_status =
     rd_bind read_integer (\<lambda>raw :: u8.
       if raw > friendship_number FS_blocked then rd_fail
       else rd_return (friendship_of_number raw))"

lemma friendship_number_bound: "\<not> friendship_number s > friendship_number FS_blocked"
  by (cases s) simp_all

lemma friendship_of_number_number [simp]: "friendship_of_number (friendship_number s) = s"
  by (cases s) (simp_all add: friendship_of_number_def)

lemma friendship_number_of_number:
  assumes "\<not> raw > friendship_number FS_blocked"
  shows "friendship_number (friendship_of_number raw) = raw"
proof -
  have "unat raw \<le> 2" using assms by (simp add: not_less word_le_nat_alt)
  then consider "unat raw = unat (0 :: u8)" | "unat raw = unat (1 :: u8)" | "unat raw = unat (2 :: u8)"
    by fastforce
  then show ?thesis by cases (simp_all only: word_unat_eq_iff [symmetric], simp_all add: friendship_of_number_def)
qed

lemma safe_read_friendship_status [reader_intros]: "safe_reader read_friendship_status"
  unfolding read_friendship_status_def by (intro reader_intros)

lemma decodes_read_friendship_status [decodes_intros]:
  "decodes read_friendship_status s (le_bytes (friendship_number s))"
proof -
  have "decodes read_friendship_status s (le_bytes (friendship_number s) @ [])"
    unfolding read_friendship_status_def using friendship_number_bound [of s]
    by (intro decodes_bind [OF decodes_read_integer [of "friendship_number s"]])
      (simp_all add: decodes_return)
  then show ?thesis by simp
qed

lemma yields_read_friendship_status [yields_intros]:
  "yields read_friendship_status (\<lambda>s bs. bs = le_bytes (friendship_number s))"
  unfolding read_friendship_status_def
  by (rule yields_bind [OF yields_read_ints(1)], rule yields_if)
    (auto intro!: yields_fail yields_return simp: friendship_number_of_number)

record friend_record =
  frd_pubkey :: bytes
  frd_handle :: bytes
  frd_display_name :: bytes
  frd_status :: friendship_status

definition friend_record_write_to :: "friend_record \<Rightarrow> byte_writer \<Rightarrow> byte_writer" where
  "friend_record_write_to m = write_seq
     [write_fixed_bytes (frd_pubkey m),
      write_text_field (frd_handle m),
      write_text_field (frd_display_name m),
      write_integer (friendship_number (frd_status m))]"

definition friend_record_read_from :: "friend_record reader" where
  "friend_record_read_from =
     rd_bind (read_fixed_bytes PUBLIC_KEY_SIZE) (\<lambda>pubkey.
     rd_bind (read_text_field MAX_HANDLE_LENGTH) (\<lambda>handle.
     rd_bind (read_text_field MAX_DISPLAY_NAME_LENGTH) (\<lambda>display_name.
     rd_bind read_friendship_status (\<lambda>status.
     rd_return \<lparr>frd_pubkey = pubkey, frd_handle = handle,
        frd_display_name = display_name, frd_status = status\<rparr>))))"

definition friend_record_valid :: "friend_record \<Rightarrow> bool" where
  "friend_record_valid m \<longleftrightarrow> length (frd_pubkey m) = PUBLIC_KEY_SIZE \<and>
     text_ok MAX_HANDLE_LENGTH (frd_handle m) \<and>
     text_ok MAX_DISPLAY_NAME_LENGTH (frd_display_name m)"

lemma friend_record_emit:
  "friend_record_write_to m w = emit
     (frd_pubkey m @ prefixed_bytes (frd_handle m) @ prefixed_bytes (frd_display_name m) @
      le_bytes (friendship_number (frd_status m)) @ []) w"
  by (simp add: friend_record_write_to_def writer_simps)

interpretation friend_record: codec friend_record_write_to friend_record_read_from friend_record_valid
  unfolding friend_record_read_from_def friend_record_valid_def
  by (rule codec_yieldsI [OF friend_record_emit],
      ((rule decodes_intros decodes_return_eq [OF friend_record.equality] | simp)+)[1],
      ((rule yields_intros)+, simp)[1], intro reader_intros)

lemmas friend_record_nested_safe [reader_intros] = friend_record.read_safe
lemmas friend_record_nested_decodes [decodes_intros] = friend_record.read_decodes
lemmas friend_record_nested_yields [yields_intros] = friend_record.yields_codec
lemmas friend_record_nested_write [writer_simps] = friend_record.write_emits

record friend_add_request =
  fa_target_pubkey :: bytes
  fa_status :: friendship_status

definition friend_add_request_write_to :: "friend_add_request \<Rightarrow> byte_writer \<Rightarrow> byte_writer" where
  "friend_add_request_write_to m = write_seq
     [write_fixed_bytes (fa_target_pubkey m),
      write_integer (friendship_number (fa_status m))]"

definition friend_add_request_read_from :: "friend_add_request reader" where
  "friend_add_request_read_from =
     rd_bind (read_fixed_bytes PUBLIC_KEY_SIZE) (\<lambda>target_pubkey.
     rd_bind read_integer (\<lambda>raw_status :: u8.
       if raw_status > friendship_number FS_blocked then rd_fail
       else rd_return \<lparr>fa_target_pubkey = target_pubkey,
              fa_status = friendship_of_number raw_status\<rparr>))"

definition friend_add_request_valid :: "friend_add_request \<Rightarrow> bool" where
  "friend_add_request_valid m \<longleftrightarrow>
     length (fa_target_pubkey m) = PUBLIC_KEY_SIZE"

lemma friend_add_request_emit:
  "friend_add_request_write_to m w = emit
     (fa_target_pubkey m @ le_bytes (friendship_number (fa_status m)) @ []) w"
  by (simp add: friend_add_request_write_to_def writer_simps)

lemma friend_add_request_read_eq:
  "friend_add_request_read_from =
     rd_bind (read_fixed_bytes PUBLIC_KEY_SIZE) (\<lambda>target_pubkey.
     rd_bind read_friendship_status (\<lambda>status.
     rd_return \<lparr>fa_target_pubkey = target_pubkey, fa_status = status\<rparr>))"
  unfolding friend_add_request_read_from_def read_friendship_status_def rd_bind_assoc
  by (intro arg_cong [where f = "rd_bind (read_fixed_bytes PUBLIC_KEY_SIZE)"] ext
      arg_cong2 [where f = rd_bind] refl)
    (simp add: rd_bind_def rd_return_def rd_fail_def)

interpretation friend_add_request: codec friend_add_request_write_to friend_add_request_read_from friend_add_request_valid
  unfolding friend_add_request_read_eq friend_add_request_valid_def
  by (rule codec_yieldsI [OF friend_add_request_emit],
      ((rule decodes_intros decodes_return_eq [OF friend_add_request.equality] | simp)+)[1],
      ((rule yields_intros)+, simp)[1], intro reader_intros)

interpretation friend_records: record_list_codec friend_record_write_to friend_record_read_from friend_record_valid MAX_FRIEND_ITEMS ..

lemmas friend_records_safe [reader_intros] = friend_records.items.read_safe
lemmas friend_records_decodes [decodes_intros] = friend_records.items.read_decodes
lemmas friend_records_yields [yields_intros] = friend_records.items.yields_codec
lemmas friend_records_write [writer_simps] = friend_records.items.write_emits

record friend_list_response =
  fls_friends :: "friend_record list"

definition friend_list_response_write_to :: "friend_list_response \<Rightarrow> byte_writer \<Rightarrow> byte_writer" where
  "friend_list_response_write_to m = write_seq
     [write_record_list friend_record_write_to (fls_friends m)]"

definition friend_list_response_read_from :: "friend_list_response reader" where
  "friend_list_response_read_from =
     rd_bind (read_record_list friend_record_read_from MAX_FRIEND_ITEMS) (\<lambda>friends.
     rd_return \<lparr>fls_friends = friends\<rparr>)"

definition friend_list_response_valid :: "friend_list_response \<Rightarrow> bool" where
  "friend_list_response_valid m \<longleftrightarrow>
     valid_list friend_record_valid MAX_FRIEND_ITEMS (fls_friends m)"

lemma friend_list_response_emit:
  "friend_list_response_write_to m w = emit
     (encode_with (write_record_list friend_record_write_to) (fls_friends m) @ []) w"
  by (simp add: friend_list_response_write_to_def writer_simps)

interpretation friend_list_response: codec friend_list_response_write_to friend_list_response_read_from friend_list_response_valid
  unfolding friend_list_response_read_from_def friend_list_response_valid_def
  by (rule codec_yieldsI [OF friend_list_response_emit],
      ((rule decodes_intros decodes_return_eq [OF friend_list_response.equality] | simp)+)[1],
      ((rule yields_intros)+, simp)[1], intro reader_intros)

section \<open>The top 8\<close>

definition write_slot_array :: "bytes list \<Rightarrow> byte_writer \<Rightarrow> byte_writer" where
  "write_slot_array slots w = fold write_fixed_bytes slots w"

definition read_slot_array :: "bytes list reader" where
  "read_slot_array = read_items (read_fixed_bytes PUBLIC_KEY_SIZE) TOP8_SLOT_COUNT"

definition slots_valid :: "bytes list \<Rightarrow> bool" where
  "slots_valid slots \<longleftrightarrow>
     length slots = TOP8_SLOT_COUNT \<and> list_all (\<lambda>k. length k = PUBLIC_KEY_SIZE) slots"

interpretation wire_key: codec write_fixed_bytes "read_fixed_bytes PUBLIC_KEY_SIZE"
    "\<lambda>k. length k = PUBLIC_KEY_SIZE"
  by (rule codec_yieldsI [OF write_fixed_bytes_emit])
    (simp_all add: decodes_read_fixed_bytes yields_read_fixed_bytes safe_read_fixed_bytes)

interpretation wire_keys: record_list_codec write_fixed_bytes "read_fixed_bytes PUBLIC_KEY_SIZE"
    "\<lambda>k. length k = PUBLIC_KEY_SIZE" "of_nat TOP8_SLOT_COUNT" ..

lemma encode_wire_key: "encode_with write_fixed_bytes = (\<lambda>k. k)"
  by (rule ext, rule encode_withI) (simp add: writer_simps)

lemma write_slot_array_emit [writer_simps]: "write_slot_array slots w = emit (concat slots) w"
  unfolding write_slot_array_def wire_keys.fold_write by (simp add: encode_wire_key)

lemma safe_read_slot_array [reader_intros]: "safe_reader read_slot_array"
  unfolding read_slot_array_def by (intro reader_intros)

lemma decodes_read_slot_array [decodes_intros]:
  assumes "slots_valid slots"
  shows "decodes read_slot_array slots (concat slots)"
proof -
  have "list_all (\<lambda>k. length k = PUBLIC_KEY_SIZE) slots" "length slots = TOP8_SLOT_COUNT"
    using assms by (simp_all only: slots_valid_def)
  from wire_keys.decodes_items [OF this(1)] this(2) show ?thesis
    by (simp add: read_slot_array_def encode_wire_key)
qed

lemma yields_read_slot_array [yields_intros]:
  "yields read_slot_array (\<lambda>slots bs. slots_valid slots \<and> bs = concat slots)"
  unfolding yields_def read_slot_array_def slots_valid_def
proof (intro allI impI)
  fix r slots r'
  assume "br_ok r" "read_items (read_fixed_bytes PUBLIC_KEY_SIZE) TOP8_SLOT_COUNT r = (Some slots, r')"
  from wire_keys.read_items_sound [OF this]
  show "br_ok r' \<and> (\<exists>bs. unread r = bs @ unread r' \<and>
      (length slots = TOP8_SLOT_COUNT \<and> list_all (\<lambda>k. length k = PUBLIC_KEY_SIZE) slots) \<and>
      bs = concat slots)"
    by (simp add: encode_wire_key)
qed

record top8_set_request =
  ts_slots :: "bytes list"

definition top8_set_request_write_to :: "top8_set_request \<Rightarrow> byte_writer \<Rightarrow> byte_writer" where
  "top8_set_request_write_to m = write_seq
     [write_slot_array (ts_slots m)]"

definition top8_set_request_read_from :: "top8_set_request reader" where
  "top8_set_request_read_from =
     rd_bind read_slot_array (\<lambda>slots.
     rd_return \<lparr>ts_slots = slots\<rparr>)"

definition top8_set_request_valid :: "top8_set_request \<Rightarrow> bool" where
  "top8_set_request_valid m \<longleftrightarrow> slots_valid (ts_slots m)"

lemma top8_set_request_emit:
  "top8_set_request_write_to m w = emit
     (concat (ts_slots m) @ []) w"
  by (simp add: top8_set_request_write_to_def writer_simps)

interpretation top8_set_request: codec top8_set_request_write_to top8_set_request_read_from top8_set_request_valid
  unfolding top8_set_request_read_from_def top8_set_request_valid_def
  by (rule codec_yieldsI [OF top8_set_request_emit],
      ((rule decodes_intros decodes_return_eq [OF top8_set_request.equality] | simp)+)[1],
      ((rule yields_intros)+, simp)[1], intro reader_intros)

record top8_get_request =
  tg_target_pubkey :: bytes

definition top8_get_request_write_to :: "top8_get_request \<Rightarrow> byte_writer \<Rightarrow> byte_writer" where
  "top8_get_request_write_to m = write_seq
     [write_fixed_bytes (tg_target_pubkey m)]"

definition top8_get_request_read_from :: "top8_get_request reader" where
  "top8_get_request_read_from =
     rd_bind (read_fixed_bytes PUBLIC_KEY_SIZE) (\<lambda>target_pubkey.
     rd_return \<lparr>tg_target_pubkey = target_pubkey\<rparr>)"

definition top8_get_request_valid :: "top8_get_request \<Rightarrow> bool" where
  "top8_get_request_valid m \<longleftrightarrow>
     length (tg_target_pubkey m) = PUBLIC_KEY_SIZE"

lemma top8_get_request_emit:
  "top8_get_request_write_to m w = emit
     (tg_target_pubkey m @ []) w"
  by (simp add: top8_get_request_write_to_def writer_simps)

interpretation top8_get_request: codec top8_get_request_write_to top8_get_request_read_from top8_get_request_valid
  unfolding top8_get_request_read_from_def top8_get_request_valid_def
  by (rule codec_yieldsI [OF top8_get_request_emit],
      ((rule decodes_intros decodes_return_eq [OF top8_get_request.equality] | simp)+)[1],
      ((rule yields_intros)+, simp)[1], intro reader_intros)

interpretation top8_details: record_list_codec friend_record_write_to friend_record_read_from friend_record_valid 8 ..

lemmas top8_details_safe [reader_intros] = top8_details.items.read_safe
lemmas top8_details_decodes [decodes_intros] = top8_details.items.read_decodes
lemmas top8_details_yields [yields_intros] = top8_details.items.yields_codec
lemmas top8_details_write [writer_simps] = top8_details.items.write_emits

record top8_response =
  t8_slots :: "bytes list"
  t8_details :: "friend_record list"

definition top8_response_write_to :: "top8_response \<Rightarrow> byte_writer \<Rightarrow> byte_writer" where
  "top8_response_write_to m = write_seq
     [write_slot_array (t8_slots m),
      write_record_list friend_record_write_to (t8_details m)]"

definition top8_response_read_from :: "top8_response reader" where
  "top8_response_read_from =
     rd_bind read_slot_array (\<lambda>slots.
     rd_bind (read_record_list friend_record_read_from 8) (\<lambda>details.
     rd_return \<lparr>t8_slots = slots, t8_details = details\<rparr>))"

definition top8_response_valid :: "top8_response \<Rightarrow> bool" where
  "top8_response_valid m \<longleftrightarrow> slots_valid (t8_slots m) \<and>
     valid_list friend_record_valid 8 (t8_details m)"

lemma top8_response_emit:
  "top8_response_write_to m w = emit
     (concat (t8_slots m) @
      encode_with (write_record_list friend_record_write_to) (t8_details m) @ []) w"
  by (simp add: top8_response_write_to_def writer_simps)

interpretation top8_response: codec top8_response_write_to top8_response_read_from top8_response_valid
  unfolding top8_response_read_from_def top8_response_valid_def
  by (rule codec_yieldsI [OF top8_response_emit],
      ((rule decodes_intros decodes_return_eq [OF top8_response.equality] | simp)+)[1],
      ((rule yields_intros)+, simp)[1], intro reader_intros)

section \<open>Private messages\<close>

record dm_envelope_record =
  de_id :: u64
  de_sender_pubkey :: bytes
  de_ciphertext :: bytes

definition dm_envelope_record_write_to :: "dm_envelope_record \<Rightarrow> byte_writer \<Rightarrow> byte_writer" where
  "dm_envelope_record_write_to m = write_seq
     [write_integer (de_id m),
      write_fixed_bytes (de_sender_pubkey m),
      write_length_prefixed (de_ciphertext m)]"

definition dm_envelope_record_read_from :: "dm_envelope_record reader" where
  "dm_envelope_record_read_from =
     rd_bind read_integer (\<lambda>id.
     rd_bind (read_fixed_bytes PUBLIC_KEY_SIZE) (\<lambda>sender_pubkey.
     rd_bind (read_length_prefixed MAX_DM_CIPHERTEXT_SIZE) (\<lambda>ciphertext.
     rd_return \<lparr>de_id = id, de_sender_pubkey = sender_pubkey,
        de_ciphertext = ciphertext\<rparr>)))"

definition dm_envelope_record_valid :: "dm_envelope_record \<Rightarrow> bool" where
  "dm_envelope_record_valid m \<longleftrightarrow>
     length (de_sender_pubkey m) = PUBLIC_KEY_SIZE \<and>
     length (de_ciphertext m) \<le> MAX_DM_CIPHERTEXT_SIZE"

lemma dm_envelope_record_emit:
  "dm_envelope_record_write_to m w = emit
     (le_bytes (de_id m) @ de_sender_pubkey m @ prefixed_bytes (de_ciphertext m) @ []) w"
  by (simp add: dm_envelope_record_write_to_def writer_simps)

interpretation dm_envelope_record: codec dm_envelope_record_write_to dm_envelope_record_read_from dm_envelope_record_valid
  unfolding dm_envelope_record_read_from_def dm_envelope_record_valid_def
  by (rule codec_yieldsI [OF dm_envelope_record_emit],
      ((rule decodes_intros decodes_return_eq [OF dm_envelope_record.equality] | simp)+)[1],
      ((rule yields_intros)+, simp)[1], intro reader_intros)

lemmas dm_envelope_record_nested_safe [reader_intros] = dm_envelope_record.read_safe
lemmas dm_envelope_record_nested_decodes [decodes_intros] = dm_envelope_record.read_decodes
lemmas dm_envelope_record_nested_yields [yields_intros] = dm_envelope_record.yields_codec
lemmas dm_envelope_record_nested_write [writer_simps] = dm_envelope_record.write_emits

record dm_send_request =
  ds_recipient_pubkey :: bytes
  ds_ciphertext :: bytes

definition dm_send_request_write_to :: "dm_send_request \<Rightarrow> byte_writer \<Rightarrow> byte_writer" where
  "dm_send_request_write_to m = write_seq
     [write_fixed_bytes (ds_recipient_pubkey m),
      write_length_prefixed (ds_ciphertext m)]"

definition dm_send_request_read_from :: "dm_send_request reader" where
  "dm_send_request_read_from =
     rd_bind (read_fixed_bytes PUBLIC_KEY_SIZE) (\<lambda>recipient_pubkey.
     rd_bind (read_length_prefixed MAX_DM_CIPHERTEXT_SIZE) (\<lambda>ciphertext.
     rd_return \<lparr>ds_recipient_pubkey = recipient_pubkey, ds_ciphertext = ciphertext\<rparr>))"

definition dm_send_request_valid :: "dm_send_request \<Rightarrow> bool" where
  "dm_send_request_valid m \<longleftrightarrow>
     length (ds_recipient_pubkey m) = PUBLIC_KEY_SIZE \<and>
     length (ds_ciphertext m) \<le> MAX_DM_CIPHERTEXT_SIZE"

lemma dm_send_request_emit:
  "dm_send_request_write_to m w = emit
     (ds_recipient_pubkey m @ prefixed_bytes (ds_ciphertext m) @ []) w"
  by (simp add: dm_send_request_write_to_def writer_simps)

interpretation dm_send_request: codec dm_send_request_write_to dm_send_request_read_from dm_send_request_valid
  unfolding dm_send_request_read_from_def dm_send_request_valid_def
  by (rule codec_yieldsI [OF dm_send_request_emit],
      ((rule decodes_intros decodes_return_eq [OF dm_send_request.equality] | simp)+)[1],
      ((rule yields_intros)+, simp)[1], intro reader_intros)

record dm_fetch_request =
  df_since_id :: u64
  df_limit :: u16

definition dm_fetch_request_write_to :: "dm_fetch_request \<Rightarrow> byte_writer \<Rightarrow> byte_writer" where
  "dm_fetch_request_write_to m = write_seq
     [write_integer (df_since_id m),
      write_integer (df_limit m)]"

definition dm_fetch_request_read_from :: "dm_fetch_request reader" where
  "dm_fetch_request_read_from =
     rd_bind read_integer (\<lambda>since_id.
     rd_bind read_integer (\<lambda>limit.
     rd_return \<lparr>df_since_id = since_id, df_limit = limit\<rparr>))"

definition dm_fetch_request_valid :: "dm_fetch_request \<Rightarrow> bool" where
  "dm_fetch_request_valid m \<longleftrightarrow> True"

lemma dm_fetch_request_emit:
  "dm_fetch_request_write_to m w = emit
     (le_bytes (df_since_id m) @ le_bytes (df_limit m) @ []) w"
  by (simp add: dm_fetch_request_write_to_def writer_simps)

interpretation dm_fetch_request: codec dm_fetch_request_write_to dm_fetch_request_read_from dm_fetch_request_valid
  unfolding dm_fetch_request_read_from_def dm_fetch_request_valid_def
  by (rule codec_yieldsI [OF dm_fetch_request_emit],
      ((rule decodes_intros decodes_return_eq [OF dm_fetch_request.equality] | simp)+)[1],
      ((rule yields_intros)+, simp)[1], intro reader_intros)

interpretation dm_envelopes: record_list_codec dm_envelope_record_write_to dm_envelope_record_read_from dm_envelope_record_valid MAX_DM_BATCH_ITEMS ..

lemmas dm_envelopes_safe [reader_intros] = dm_envelopes.items.read_safe
lemmas dm_envelopes_decodes [decodes_intros] = dm_envelopes.items.read_decodes
lemmas dm_envelopes_yields [yields_intros] = dm_envelopes.items.yields_codec
lemmas dm_envelopes_write [writer_simps] = dm_envelopes.items.write_emits

record dm_list_response =
  dl_envelopes :: "dm_envelope_record list"
  dl_has_more :: u8

definition dm_list_response_write_to :: "dm_list_response \<Rightarrow> byte_writer \<Rightarrow> byte_writer" where
  "dm_list_response_write_to m = write_seq
     [write_record_list dm_envelope_record_write_to (dl_envelopes m),
      write_integer (dl_has_more m)]"

definition dm_list_response_read_from :: "dm_list_response reader" where
  "dm_list_response_read_from =
     rd_bind (read_record_list dm_envelope_record_read_from MAX_DM_BATCH_ITEMS) (\<lambda>envelopes.
     rd_bind read_integer (\<lambda>has_more.
     rd_return \<lparr>dl_envelopes = envelopes, dl_has_more = has_more\<rparr>))"

definition dm_list_response_valid :: "dm_list_response \<Rightarrow> bool" where
  "dm_list_response_valid m \<longleftrightarrow>
     valid_list dm_envelope_record_valid MAX_DM_BATCH_ITEMS (dl_envelopes m)"

lemma dm_list_response_emit:
  "dm_list_response_write_to m w = emit
     (encode_with (write_record_list dm_envelope_record_write_to) (dl_envelopes m) @
      le_bytes (dl_has_more m) @ []) w"
  by (simp add: dm_list_response_write_to_def writer_simps)

interpretation dm_list_response: codec dm_list_response_write_to dm_list_response_read_from dm_list_response_valid
  unfolding dm_list_response_read_from_def dm_list_response_valid_def
  by (rule codec_yieldsI [OF dm_list_response_emit],
      ((rule decodes_intros decodes_return_eq [OF dm_list_response.equality] | simp)+)[1],
      ((rule yields_intros)+, simp)[1], intro reader_intros)

record dm_ack_request =
  da_envelope_ids :: "u64 list"

definition dm_ack_request_write_to :: "dm_ack_request \<Rightarrow> byte_writer \<Rightarrow> byte_writer" where
  "dm_ack_request_write_to m w =
     fold write_integer (da_envelope_ids m)
       (write_integer (word_of_nat (length (da_envelope_ids m)) :: u16) w)"

definition dm_ack_request_read_from :: "dm_ack_request reader" where
  "dm_ack_request_read_from =
     rd_bind read_integer (\<lambda>announced_count :: u16.
       if announced_count > MAX_DM_BATCH_ITEMS then rd_fail
       else rd_bind (read_items read_integer (unat announced_count)) (\<lambda>decoded.
         rd_return \<lparr>da_envelope_ids = decoded\<rparr>))"

definition dm_ack_request_valid :: "dm_ack_request \<Rightarrow> bool" where
  "dm_ack_request_valid m \<longleftrightarrow> length (da_envelope_ids m) \<le> unat MAX_DM_BATCH_ITEMS"

interpretation envelope_id: codec "write_integer :: u64 \<Rightarrow> _" read_integer "\<lambda>_. True"
  by (rule codec_yieldsI [OF write_integer_emit])
    (simp_all add: decodes_read_integer yields_read_integer safe_read_integer)

interpretation envelope_ids: record_list_codec "write_integer :: u64 \<Rightarrow> _" read_integer "\<lambda>_. True"
    MAX_DM_BATCH_ITEMS ..

lemma dm_ack_request_write_eq:
  "dm_ack_request_write_to m = write_record_list write_integer (da_envelope_ids m)"
  by (rule ext) (simp add: dm_ack_request_write_to_def write_record_list_def)

lemma dm_ack_request_read_eq:
  "dm_ack_request_read_from =
     rd_bind (read_record_list read_integer MAX_DM_BATCH_ITEMS) (\<lambda>decoded.
       rd_return \<lparr>da_envelope_ids = decoded\<rparr>)"
  by (rule ext)
    (auto simp: dm_ack_request_read_from_def read_record_list_def rd_bind_def rd_fail_def
      split: prod.splits option.splits)

lemma dm_ack_request_emit:
  "dm_ack_request_write_to m w =
     emit (encode_with (write_record_list write_integer) (da_envelope_ids m) @ []) w"
  unfolding dm_ack_request_write_eq by (subst envelope_ids.items.write_emits) simp

interpretation dm_ack_request: codec dm_ack_request_write_to dm_ack_request_read_from
    dm_ack_request_valid
  unfolding dm_ack_request_read_eq dm_ack_request_valid_def
  by (rule codec_yieldsI [OF dm_ack_request_emit],
      ((rule decodes_bind decodes_return_eq [OF dm_ack_request.equality] envelope_ids.items.read_decodes
        | simp add: valid_list_def list_all_iff)+)[1],
      ((rule yields_bind envelope_ids.items.yields_codec yields_return)+, simp add: valid_list_def)[1],
      intro safe_bind safe_return envelope_ids.items.read_safe)

end
