(* ===== verification/Database.thy ===== *)
theory Database
  imports Messages_Content Messages_Social "HOL-Library.List_Lexorder"
begin

text \<open>
  The database (\<^verbatim>\<open>src/server/db\<close> with the schema of \<^verbatim>\<open>src/db/migrations\<close>). Each table is the list
  of its rows in row-identifier order; each SQL statement of a repository is the operation it denotes
  on the tables, constraints and foreign keys included. What the storage engine may do at any step,
  fail, is the list \<open>db_faults\<close>: every \<^verbatim>\<open>step_row\<close> and every script takes one element, and
  \<open>True\<close> makes it fail (a failed bind has the same outcome as a failed step). Integers of the
  database are \<open>int\<close>; the casts to and from \<^verbatim>\<open>uint64_t\<close> are written out.
\<close>

section \<open>Tables\<close>

record user_row =
  ur_id :: int
  ur_pubkey :: bytes
  ur_handle :: bytes
  ur_banned :: bool

record prekey_row =
  pk_user_id :: int
  pk_prekey :: bytes
  pk_signature :: bytes
  pk_created_at :: int

record forum_row =
  fo_id :: int
  fo_name :: bytes
  fo_founder_id :: int
  fo_description :: bytes
  fo_theme_json :: bytes
  fo_created_at :: int

record post_row =
  po_id :: int
  po_forum_id :: int
  po_author_id :: int
  po_title :: bytes
  po_body :: bytes
  po_created_at :: int
  po_deleted_at :: "int option"

record comment_row =
  co_id :: int
  co_post_id :: int
  co_parent_comment_id :: "int option"
  co_author_id :: int
  co_body :: bytes
  co_created_at :: int
  co_deleted_at :: "int option"

record profile_row =
  pw_user_id :: int
  pw_display_name :: bytes
  pw_bio :: bytes
  pw_theme_json :: bytes
  pw_banner_ref :: bytes

record friend_row =
  fd_user_id :: int
  fd_friend_id :: int
  fd_status :: int

record top8_row =
  tw_user_id :: int
  tw_slot :: int
  tw_friend_id :: int

record envelope_row =
  en_id :: int
  en_recipient_id :: int
  en_sender_pubkey :: bytes
  en_ciphertext :: bytes

record motd_row =
  mo_id :: int
  mo_body :: bytes
  mo_active :: bool
  mo_created_at :: int

datatype report_kind = Report_post | Report_account

record report_entry =
  re_id :: int
  re_kind :: report_kind
  re_post_id :: "int option"
  re_target_pubkey :: "bytes option"
  re_reporter_id :: int
  re_reason :: bytes
  re_created_at :: int

text \<open>The tables, and the last identifier each \<^verbatim>\<open>AUTOINCREMENT\<close> column has given out.\<close>

record tables =
  tb_users :: "user_row list"
  tb_prekeys :: "prekey_row list"
  tb_forums :: "forum_row list"
  tb_posts :: "post_row list"
  tb_comments :: "comment_row list"
  tb_profiles :: "profile_row list"
  tb_friends :: "friend_row list"
  tb_top8 :: "top8_row list"
  tb_envelopes :: "envelope_row list"
  tb_motd :: "motd_row list"
  tb_reports :: "report_entry list"
  tb_user_seq :: int
  tb_forum_seq :: int
  tb_post_seq :: int
  tb_comment_seq :: int
  tb_envelope_seq :: int
  tb_motd_seq :: int
  tb_report_seq :: int

text \<open>
  The open connection: the tables as it sees them, the tables as they were when the transaction in
  progress began, if there is one, and the failures to come.
\<close>

record database =
  db_tables :: tables
  db_saved :: "tables option"
  db_faults :: "bool list"

definition empty_tables :: tables where
  "empty_tables =
     \<lparr>tb_users = [], tb_prekeys = [], tb_forums = [], tb_posts = [], tb_comments = [],
      tb_profiles = [], tb_friends = [], tb_top8 = [], tb_envelopes = [], tb_motd = [],
      tb_reports = [], tb_user_seq = 0, tb_forum_seq = 0, tb_post_seq = 0, tb_comment_seq = 0,
      tb_envelope_seq = 0, tb_motd_seq = 0, tb_report_seq = 0\<rparr>"

definition MAX_ROWID :: int where "MAX_ROWID = 2 ^ 63 - 1"

text \<open>\<^verbatim>\<open>static_cast<std::int64_t>\<close> and \<^verbatim>\<open>static_cast<std::uint64_t>\<close>.\<close>

definition to_i64 :: "u64 \<Rightarrow> int" where "to_i64 w = sint w"
definition to_u64 :: "int \<Rightarrow> u64" where "to_u64 i = word_of_int i"

section \<open>Statements\<close>

definition pop_fault :: "database \<Rightarrow> bool \<times> database" where
  "pop_fault d = (case db_faults d of [] \<Rightarrow> (False, d) | b # bs \<Rightarrow> (b, d\<lparr>db_faults := bs\<rparr>))"

text \<open>
  A statement that changes rows: \<open>None\<close> is a violated constraint, which like a failure leaves the
  tables alone; otherwise \<^verbatim>\<open>SQLITE_DONE\<close> with the value the caller reads next, the row
  identifier or the number of changed rows.
\<close>

definition step_write :: "(tables \<Rightarrow> ('a \<times> tables) option) \<Rightarrow> database \<Rightarrow> 'a option \<times> database" where
  "step_write effect d =
     (let (failed, d1) = pop_fault d
      in if failed then (None, d1)
         else case effect (db_tables d1) of
           None \<Rightarrow> (None, d1)
         | Some (v, t) \<Rightarrow> (Some v, d1\<lparr>db_tables := t\<rparr>))"

text \<open>A statement whose first row is read.\<close>

definition step_read :: "(tables \<Rightarrow> 'a option) \<Rightarrow> database \<Rightarrow> 'a option \<times> database" where
  "step_read query d =
     (let (failed, d1) = pop_fault d in (if failed then None else query (db_tables d1), d1))"

text \<open>
  The loop \<^verbatim>\<open>while (step_row() == row)\<close>: a failed step ends it like the end of the rows does;
  a row that cannot be read ends the function with \<^verbatim>\<open>false\<close>.
\<close>

primrec fetch_rows :: "('r \<Rightarrow> 'a option) \<Rightarrow> 'r list \<Rightarrow> database \<Rightarrow> 'a list option \<times> database" where
  "fetch_rows rd [] d = (Some [], snd (pop_fault d))"
| "fetch_rows rd (r # rs) d =
     (let (failed, d1) = pop_fault d
      in if failed then (Some [], d1)
         else case rd r of
           None \<Rightarrow> (None, d1)
         | Some a \<Rightarrow> (let (rest, d2) = fetch_rows rd rs d1 in (map_option ((#) a) rest, d2)))"

text \<open>The same loop with the test \<^verbatim>\<open>out.size() >= limit\<close> that sets the flag and breaks.\<close>

primrec fetch_rows_upto ::
  "nat \<Rightarrow> ('r \<Rightarrow> 'a option) \<Rightarrow> 'r list \<Rightarrow> database \<Rightarrow> ('a list \<times> bool) option \<times> database" where
  "fetch_rows_upto k rd [] d = (Some ([], False), snd (pop_fault d))"
| "fetch_rows_upto k rd (r # rs) d =
     (let (failed, d1) = pop_fault d
      in if failed then (Some ([], False), d1)
         else if k = 0 then (Some ([], True), d1)
         else case rd r of
           None \<Rightarrow> (None, d1)
         | Some a \<Rightarrow>
             (let (rest, d2) = fetch_rows_upto (k - 1) rd rs d1
              in (map_option (\<lambda>(as, more). (a # as, more)) rest, d2)))"

section \<open>Transactions\<close>

definition begin_immediate :: "database \<Rightarrow> bool \<times> database" where
  "begin_immediate d =
     (let (failed, d1) = pop_fault d
      in if failed \<or> db_saved d1 \<noteq> None then (False, d1)
         else (True, d1\<lparr>db_saved := Some (db_tables d1)\<rparr>))"

text \<open>A \<^verbatim>\<open>COMMIT\<close> or \<^verbatim>\<open>ROLLBACK\<close> that fails leaves the transaction open.\<close>

definition end_transaction :: "bool \<Rightarrow> database \<Rightarrow> bool \<times> database" where
  "end_transaction succeeded d =
     (let (failed, d1) = pop_fault d
      in if failed then (False, d1)
         else case db_saved d1 of
           None \<Rightarrow> (False, d1)
         | Some saved \<Rightarrow>
             (True, d1\<lparr>db_tables := (if succeeded then db_tables d1 else saved), db_saved := None\<rparr>))"

section \<open>Users\<close>

definition user_by_id :: "tables \<Rightarrow> int \<Rightarrow> user_row option" where
  "user_by_id t i = find (\<lambda>u. ur_id u = i) (tb_users t)"

definition user_by_pubkey :: "tables \<Rightarrow> bytes \<Rightarrow> user_row option" where
  "user_by_pubkey t k = find (\<lambda>u. ur_pubkey u = k) (tb_users t)"

text \<open>The fixed-size read of a key column.\<close>

definition key_column_ok :: "bytes \<Rightarrow> bool" where
  "key_column_ok k \<longleftrightarrow> length k = PUBLIC_KEY_SIZE"

definition read_user_row :: "user_row \<Rightarrow> user_row option" where
  "read_user_row u = (if key_column_ok (ur_pubkey u) then Some u else None)"

definition find_user_by_pubkey :: "bytes \<Rightarrow> database \<Rightarrow> user_row option \<times> database" where
  "find_user_by_pubkey pubkey =
     step_read (\<lambda>t. Option.bind (user_by_pubkey t pubkey) read_user_row)"

definition find_user_by_id :: "int \<Rightarrow> database \<Rightarrow> user_row option \<times> database" where
  "find_user_by_id i = step_read (\<lambda>t. Option.bind (user_by_id t i) read_user_row)"

text \<open>\<^verbatim>\<open>COLLATE NOCASE\<close> folds the ASCII letters.\<close>

definition nocase :: "bytes \<Rightarrow> bytes" where
  "nocase = map (\<lambda>c. if in_range CHR ''A'' CHR ''Z'' c then c + 32 else c)"

definition insert_user :: "bytes \<Rightarrow> bytes \<Rightarrow> tables \<Rightarrow> (int \<times> tables) option" where
  "insert_user pubkey handle t =
     (let i = tb_user_seq t + 1
      in if length pubkey \<noteq> PUBLIC_KEY_SIZE \<or>
            list_ex (\<lambda>u. ur_pubkey u = pubkey \<or> nocase (ur_handle u) = nocase handle) (tb_users t) \<or>
            i > MAX_ROWID then None
         else Some (i, t\<lparr>tb_users := tb_users t @
           [\<lparr>ur_id = i, ur_pubkey = pubkey, ur_handle = handle, ur_banned = False\<rparr>], tb_user_seq := i\<rparr>))"

definition create_user :: "bytes \<Rightarrow> bytes \<Rightarrow> database \<Rightarrow> int option \<times> database" where
  "create_user pubkey handle = step_write (insert_user pubkey handle)"

definition set_banned :: "int \<Rightarrow> bool \<Rightarrow> database \<Rightarrow> bool \<times> database" where
  "set_banned user_id banned d =
     (let (r, d') = step_write (\<lambda>t. Some ((), t\<lparr>tb_users :=
            map (\<lambda>u. if ur_id u = user_id then u\<lparr>ur_banned := banned\<rparr> else u) (tb_users t)\<rparr>)) d
      in (r \<noteq> None, d'))"

section \<open>Prekeys\<close>

definition upsert_prekey :: "int \<Rightarrow> bytes \<Rightarrow> bytes \<Rightarrow> int \<Rightarrow> tables \<Rightarrow> (unit \<times> tables) option" where
  "upsert_prekey user_id prekey signature now t =
     (if length prekey \<noteq> PUBLIC_KEY_SIZE \<or> length signature \<noteq> SIGNATURE_SIZE \<or>
         user_by_id t user_id = None then None
      else Some ((), t\<lparr>tb_prekeys := filter (\<lambda>p. pk_user_id p \<noteq> user_id) (tb_prekeys t) @
        [\<lparr>pk_user_id = user_id, pk_prekey = prekey, pk_signature = signature, pk_created_at = now\<rparr>]\<rparr>))"

definition replace_prekey :: "int \<Rightarrow> bytes \<Rightarrow> bytes \<Rightarrow> u64 \<Rightarrow> database \<Rightarrow> bool \<times> database" where
  "replace_prekey user_id prekey signature now d =
     (let (r, d') = step_write (upsert_prekey user_id prekey signature (to_i64 now)) d in (r \<noteq> None, d'))"

definition find_bundle_by_pubkey :: "bytes \<Rightarrow> database \<Rightarrow> prekey_bundle_response option \<times> database" where
  "find_bundle_by_pubkey owner_pubkey =
     step_read (\<lambda>t. Option.bind (user_by_pubkey t owner_pubkey) (\<lambda>u.
       Option.bind (find (\<lambda>p. pk_user_id p = ur_id u) (tb_prekeys t)) (\<lambda>p.
         if length (pk_prekey p) = PUBLIC_KEY_SIZE \<and> length (pk_signature p) = SIGNATURE_SIZE
         then Some \<lparr>pb_owner_pubkey = owner_pubkey, pb_prekey = pk_prekey p,
                pb_signature = pk_signature p, pb_created_at = to_u64 (pk_created_at p)\<rparr>
         else None)))"

section \<open>Forums\<close>

definition joined_with :: "('r \<Rightarrow> int) \<Rightarrow> tables \<Rightarrow> 'r list \<Rightarrow> ('r \<times> user_row) list" where
  "joined_with key t rows =
     List.map_filter (\<lambda>r. map_option (Pair r) (user_by_id t (key r))) rows"

definition count_posts :: "tables \<Rightarrow> int \<Rightarrow> nat" where
  "count_posts t forum_id = length (filter (\<lambda>p. po_forum_id p = forum_id) (tb_posts t))"

definition read_forum_record :: "tables \<Rightarrow> forum_row \<times> user_row \<Rightarrow> forum_record option" where
  "read_forum_record t = (\<lambda>(f, u).
     if key_column_ok (ur_pubkey u)
     then Some \<lparr>fr_id = to_u64 (fo_id f), fr_name = fo_name f, fr_description = fo_description f,
       fr_founder_pubkey = ur_pubkey u, fr_founder_handle = ur_handle u,
       fr_theme_json = fo_theme_json f, fr_created_at = to_u64 (fo_created_at f),
       fr_post_count = word_of_nat (count_posts t (fo_id f))\<rparr>
     else None)"

definition insert_forum :: "int \<Rightarrow> bytes \<Rightarrow> bytes \<Rightarrow> bytes \<Rightarrow> int \<Rightarrow> tables \<Rightarrow> (int \<times> tables) option" where
  "insert_forum founder_id name description theme_json now t =
     (let i = tb_forum_seq t + 1
      in if user_by_id t founder_id = None \<or> list_ex (\<lambda>f. fo_name f = name) (tb_forums t) \<or> i > MAX_ROWID
         then None
         else Some (i, t\<lparr>tb_forums := tb_forums t @
           [\<lparr>fo_id = i, fo_name = name, fo_founder_id = founder_id, fo_description = description,
             fo_theme_json = theme_json, fo_created_at = now\<rparr>], tb_forum_seq := i\<rparr>))"

definition create_forum :: "int \<Rightarrow> bytes \<Rightarrow> bytes \<Rightarrow> bytes \<Rightarrow> u64 \<Rightarrow> database \<Rightarrow> int option \<times> database" where
  "create_forum founder_id name description theme_json now =
     step_write (insert_forum founder_id name description theme_json (to_i64 now))"

definition find_forum_where :: "(forum_row \<Rightarrow> bool) \<Rightarrow> database \<Rightarrow> forum_record option \<times> database" where
  "find_forum_where condition =
     step_read (\<lambda>t. case joined_with fo_founder_id t (filter condition (tb_forums t)) of
       [] \<Rightarrow> None | r # _ \<Rightarrow> read_forum_record t r)"

definition find_forum_by_id :: "int \<Rightarrow> database \<Rightarrow> forum_record option \<times> database" where
  "find_forum_by_id i = find_forum_where (\<lambda>f. fo_id f = i)"

definition find_forum_by_name :: "bytes \<Rightarrow> database \<Rightarrow> forum_record option \<times> database" where
  "find_forum_by_name name = find_forum_where (\<lambda>f. fo_name f = name)"

definition list_forums ::
  "u32 \<Rightarrow> u16 \<Rightarrow> database \<Rightarrow> (forum_record list \<times> u32) option \<times> database" where
  "list_forums offset limit d =
     (case step_read (\<lambda>t. Some (length (tb_forums t))) d of
        (None, d1) \<Rightarrow> (None, d1)
      | (Some total_count, d1) \<Rightarrow>
          let t = db_tables d1;
              rows = take (unat limit) (drop (unat offset)
                (sort_key (\<lambda>(f, _). - fo_created_at f) (joined_with fo_founder_id t (tb_forums t))));
              (found, d2) = fetch_rows (read_forum_record t) rows d1
          in (map_option (\<lambda>forums. (forums, word_of_nat total_count)) found, d2))"

section \<open>Posts\<close>

definition count_comments :: "tables \<Rightarrow> int \<Rightarrow> nat" where
  "count_comments t post_id = length (filter (\<lambda>c. co_post_id c = post_id) (tb_comments t))"

definition read_post_record ::
  "(bytes \<Rightarrow> bytes) \<Rightarrow> tables \<Rightarrow> post_row \<times> user_row \<Rightarrow> post_record option" where
  "read_post_record body_column t = (\<lambda>(p, u).
     if key_column_ok (ur_pubkey u)
     then Some \<lparr>pr_id = to_u64 (po_id p), pr_forum_id = to_u64 (po_forum_id p),
       pr_author_pubkey = ur_pubkey u, pr_author_handle = ur_handle u, pr_title = po_title p,
       pr_body = body_column (po_body p), pr_created_at = to_u64 (po_created_at p),
       pr_comment_count = word_of_nat (count_comments t (po_id p))\<rparr>
     else None)"

text \<open>
  \<^verbatim>\<open>substr(x, 1, n)\<close> on text counts characters: a lead byte from \<^verbatim>\<open>0xC0\<close> up takes the
  continuation bytes after it along.
\<close>

fun text_prefix :: "nat \<Rightarrow> bytes \<Rightarrow> bytes" where
  "text_prefix 0 s = []"
| "text_prefix (Suc n) [] = []"
| "text_prefix (Suc n) (b # s) =
     (if b \<ge> 0xC0
      then b # takeWhile (\<lambda>c. c AND 0xC0 = 0x80) s @ text_prefix n (dropWhile (\<lambda>c. c AND 0xC0 = 0x80) s)
      else b # text_prefix n s)"

definition insert_post :: "int \<Rightarrow> int \<Rightarrow> bytes \<Rightarrow> bytes \<Rightarrow> int \<Rightarrow> tables \<Rightarrow> (int \<times> tables) option" where
  "insert_post forum_id author_id title body now t =
     (let i = tb_post_seq t + 1
      in if \<not> list_ex (\<lambda>f. fo_id f = forum_id) (tb_forums t) \<or> user_by_id t author_id = None \<or> i > MAX_ROWID
         then None
         else Some (i, t\<lparr>tb_posts := tb_posts t @
           [\<lparr>po_id = i, po_forum_id = forum_id, po_author_id = author_id, po_title = title,
             po_body = body, po_created_at = now, po_deleted_at = None\<rparr>], tb_post_seq := i\<rparr>))"

definition create_post :: "int \<Rightarrow> int \<Rightarrow> bytes \<Rightarrow> bytes \<Rightarrow> u64 \<Rightarrow> database \<Rightarrow> int option \<times> database" where
  "create_post forum_id author_id title body now =
     step_write (insert_post forum_id author_id title body (to_i64 now))"

definition find_post_by_id :: "int \<Rightarrow> database \<Rightarrow> post_record option \<times> database" where
  "find_post_by_id i =
     step_read (\<lambda>t. case joined_with po_author_id t (filter (\<lambda>p. po_id p = i) (tb_posts t)) of
       [] \<Rightarrow> None | r # _ \<Rightarrow> read_post_record id t r)"

definition list_by_forum ::
  "int \<Rightarrow> u32 \<Rightarrow> u16 \<Rightarrow> database \<Rightarrow> (post_record list \<times> u32) option \<times> database" where
  "list_by_forum forum_id offset limit d =
     (case step_read (\<lambda>t. Some (count_posts t forum_id)) d of
        (None, d1) \<Rightarrow> (None, d1)
      | (Some total_count, d1) \<Rightarrow>
          let t = db_tables d1;
              rows = take (unat limit) (drop (unat offset)
                (sort_key (\<lambda>(p, _). - po_created_at p)
                  (joined_with po_author_id t (filter (\<lambda>p. po_forum_id p = forum_id) (tb_posts t)))));
              (found, d2) = fetch_rows (read_post_record (text_prefix MAX_POST_PREVIEW_LENGTH) t) rows d1
          in (map_option (\<lambda>posts. (posts, word_of_nat total_count)) found, d2))"

definition blank_posts :: "(post_row \<Rightarrow> bool) \<Rightarrow> int \<Rightarrow> tables \<Rightarrow> (nat \<times> tables) option" where
  "blank_posts condition now t =
     Some (length (filter condition (tb_posts t)),
           t\<lparr>tb_posts := map (\<lambda>p. if condition p
             then p\<lparr>po_title := [], po_body := [], po_deleted_at := Some now\<rparr> else p) (tb_posts t)\<rparr>)"

definition delete_own_post :: "int \<Rightarrow> int \<Rightarrow> u64 \<Rightarrow> database \<Rightarrow> bool \<times> database" where
  "delete_own_post post_id author_id now d =
     (case step_write (blank_posts (\<lambda>p. po_id p = post_id \<and> po_author_id p = author_id \<and>
        po_deleted_at p = None) (to_i64 now)) d of
        (None, d') \<Rightarrow> (False, d')
      | (Some changed, d') \<Rightarrow> (changed > 0, d'))"

definition admin_delete_post :: "int \<Rightarrow> u64 \<Rightarrow> database \<Rightarrow> bool \<times> database" where
  "admin_delete_post post_id now d =
     (case step_write (blank_posts (\<lambda>p. po_id p = post_id \<and> po_deleted_at p = None) (to_i64 now)) d of
        (None, d') \<Rightarrow> (False, d')
      | (Some changed, d') \<Rightarrow> (changed > 0, d'))"

end
