(* ===== verification/Util.thy ===== *)
theory Util
  imports Byte_Codec
begin

text \<open>
  \<^verbatim>\<open>src/common/util\<close>: the hexadecimal codec used for keys in the admin interface, the log levels
  and the logger with its peer-address policy. The timestamp text that \<^verbatim>\<open>strftime\<close> produces is
  an argument of \<open>write_entry\<close>; the sink is the list of bytes written so far.
\<close>

section \<open>Hexadecimal\<close>

definition HEX_DIGITS :: bytes where
  "HEX_DIGITS = ascii ''0123456789abcdef''"

definition convert_hex_digit :: "u8 \<Rightarrow> u8 option" where
  "convert_hex_digit character =
     (if of_char CHR ''0'' \<le> character \<and> character \<le> of_char CHR ''9''
      then Some (character - of_char CHR ''0'')
      else if of_char CHR ''a'' \<le> character \<and> character \<le> of_char CHR ''f''
      then Some (character - of_char CHR ''a'' + 10)
      else if of_char CHR ''A'' \<le> character \<and> character \<le> of_char CHR ''F''
      then Some (character - of_char CHR ''A'' + 10)
      else None)"

primrec encode_hex :: "bytes \<Rightarrow> bytes" where
  "encode_hex [] = []"
| "encode_hex (byte # rest) =
     HEX_DIGITS ! unat (drop_bit 4 byte) # HEX_DIGITS ! unat (byte AND 0x0F) # encode_hex rest"

text \<open>The loop of \<^verbatim>\<open>decode_hex\<close>, two characters at a time; the length is even there.\<close>

fun decode_hex_pairs :: "bytes \<Rightarrow> bytes option" where
  "decode_hex_pairs (h # l # rest) =
     (case convert_hex_digit h of
        None \<Rightarrow> None
      | Some high \<Rightarrow>
          (case convert_hex_digit l of
             None \<Rightarrow> None
           | Some low \<Rightarrow> map_option ((#) (push_bit 4 high OR low)) (decode_hex_pairs rest)))"
| "decode_hex_pairs _ = Some []"

definition decode_hex :: "bytes \<Rightarrow> bytes option" where
  "decode_hex input = (if length input mod 2 \<noteq> 0 then None else decode_hex_pairs input)"

section \<open>Decimal text\<close>

text \<open>\<^verbatim>\<open>std::to_string\<close> and stream output of an unsigned integer.\<close>

fun decimal_text :: "nat \<Rightarrow> bytes" where
  "decimal_text n =
     (if n < 10 then [word_of_nat (48 + n)] else decimal_text (n div 10) @ [word_of_nat (48 + n mod 10)])"

declare decimal_text.simps [simp del]

section \<open>Logging\<close>

datatype log_level = LL_debug | LL_info | LL_warning | LL_error | LL_silent

primrec level_number :: "log_level \<Rightarrow> nat" where
  "level_number LL_debug = 0"
| "level_number LL_info = 1"
| "level_number LL_warning = 2"
| "level_number LL_error = 3"
| "level_number LL_silent = 4"

definition parse_log_level :: "bytes \<Rightarrow> log_level option" where
  "parse_log_level name =
     (if name = ascii ''debug'' then Some LL_debug
      else if name = ascii ''info'' then Some LL_info
      else if name = ascii ''warning'' then Some LL_warning
      else if name = ascii ''error'' then Some LL_error
      else if name = ascii ''silent'' then Some LL_silent
      else None)"

primrec describe_log_level :: "log_level \<Rightarrow> bytes" where
  "describe_log_level LL_debug = ascii ''debug''"
| "describe_log_level LL_info = ascii ''info''"
| "describe_log_level LL_warning = ascii ''warning''"
| "describe_log_level LL_error = ascii ''error''"
| "describe_log_level LL_silent = ascii ''silent''"

record logger =
  lg_minimum :: log_level
  lg_allow_peer_addresses :: bool
  lg_sink :: bytes

definition REDACTED_ADDRESS :: bytes where
  "REDACTED_ADDRESS = ascii ''[redacted]''"

definition is_level_enabled :: "logger \<Rightarrow> log_level \<Rightarrow> bool" where
  "is_level_enabled l level \<longleftrightarrow>
     level_number level \<ge> level_number (lg_minimum l) \<and> lg_minimum l \<noteq> LL_silent"

definition redact_peer_address :: "logger \<Rightarrow> bytes \<Rightarrow> bytes" where
  "redact_peer_address l address = (if lg_allow_peer_addresses l then address else REDACTED_ADDRESS)"

definition write_prefix :: "bytes \<Rightarrow> log_level \<Rightarrow> logger \<Rightarrow> logger" where
  "write_prefix timestamp level l =
     l\<lparr>lg_sink := lg_sink l @ timestamp @ ascii '' ['' @ describe_log_level level @ ascii ''] ''\<rparr>"

definition write_entry :: "bytes \<Rightarrow> log_level \<Rightarrow> bytes \<Rightarrow> logger \<Rightarrow> logger" where
  "write_entry timestamp level message l =
     (if \<not> is_level_enabled l level then l
      else let l1 = write_prefix timestamp level l
           in l1\<lparr>lg_sink := lg_sink l1 @ message @ [10]\<rparr>)"

section \<open>Facts about hexadecimal\<close>

lemma HEX_DIGITS_list:
  "HEX_DIGITS = [48, 49, 50, 51, 52, 53, 54, 55, 56, 57, 97, 98, 99, 100, 101, 102]"
  by (simp add: HEX_DIGITS_def ascii_def)

lemma convert_hex_digit_HEX_DIGITS:
  assumes "n < 16"
  shows "convert_hex_digit (HEX_DIGITS ! n) = Some (word_of_nat n)"
proof -
  have "list_all (\<lambda>n. convert_hex_digit (HEX_DIGITS ! n) = Some (word_of_nat n)) [0..<16]"
    by (simp add: upt_rec HEX_DIGITS_list convert_hex_digit_def)
  then show ?thesis using assms by (simp add: list_all_iff)
qed

lemma nibble_less: "unat (drop_bit 4 (b :: u8)) < 16" "unat (b AND 0x0F) < 16"
proof -
  have b: "unat b < 256" using unsigned_less [of b, where ?'a = nat] by simp
  then have "unat b div 2 ^ 4 < 16" by (simp add: less_mult_imp_div_less)
  then show "unat (drop_bit 4 b) < 16"
    using b by (simp only: unsigned_drop_bit_eq) (simp add: drop_bit_eq_div take_bit_eq_mod)
  have "b AND 0x0F \<le> 0x0F" by (rule word_and_le1)
  then have "unat (b AND 0x0F) \<le> 15" by (simp add: word_le_nat_alt)
  then show "unat (b AND 0x0F) < 16" by simp
qed

lemma nibbles_join: "push_bit 4 (drop_bit 4 (b :: u8)) OR (b AND 0x0F) = b"
proof (rule bit_word_eqI)
  fix n assume "n < LENGTH(8)"
  then have n: "n < 8" by simp
  have m: "bit (0x0F :: u8) n \<longleftrightarrow> n < 4"
  proof -
    have "(0x0F :: u8) = mask 4" by (simp add: mask_eq_exp_minus_1)
    then show ?thesis using n by (simp only: bit_mask_iff) simp
  qed
  show "bit (push_bit 4 (drop_bit 4 b) OR (b AND 0x0F)) n = bit b n"
    using n m by (auto simp: bit_simps)
qed

lemma decode_encode_hex_pairs: "decode_hex_pairs (encode_hex bs) = Some bs"
proof (induction bs)
  case Nil
  then show ?case by simp
next
  case (Cons b bs)
  then show ?case
    using nibbles_join [of b] by (simp add: convert_hex_digit_HEX_DIGITS nibble_less)
qed

lemma length_encode_hex [simp]: "length (encode_hex bs) = 2 * length bs"
  by (induction bs) simp_all

lemma decode_hex_pairs_length:
  "decode_hex_pairs s = Some bs \<Longrightarrow> even (length s) \<Longrightarrow> length s = 2 * length bs"
  by (induction s arbitrary: bs rule: decode_hex_pairs.induct) (auto split: option.splits)

section \<open>Properties\<close>

text \<open>
  Hexadecimal round trip. Decoding what \<^verbatim>\<open>encode_hex\<close> produced gives the bytes back, the
  encoding has two characters per byte, and a successful decoding always consumed two characters
  per byte.
\<close>

theorem hex_roundtrip:
  "decode_hex (encode_hex bs) = Some bs \<and> length (encode_hex bs) = 2 * length bs \<and>
   (decode_hex s = Some ds \<longrightarrow> length s = 2 * length ds)"
  by (auto simp: decode_hex_def decode_encode_hex_pairs dest!: decode_hex_pairs_length split: if_splits)

theorem hex_roundtrip_witness:
  "decode_hex (encode_hex [0xAB, 0x01]) = Some [0xAB, 0x01] \<and>
   (decode_hex (ascii ''fF'') = Some [255] \<and> length (ascii ''fF'') = 2 * length [255 :: u8])"
proof -
  have "decode_hex (ascii ''fF'') = Some [255]"
    by (simp add: decode_hex_def ascii_def convert_hex_digit_def push_bit_eq_mult)
  with hex_roundtrip [of "[0xAB, 0x01]" "ascii ''fF''" "[255]"] show ?thesis by blast
qed

end
