(* ===== verification/Repositories.thy ===== *)
theory Repositories
  imports Database Util
begin

text \<open>
  The remaining repositories of \<^verbatim>\<open>src/server/db\<close>: comments with the recursive thread query,
  profiles, friendships, the top 8, private messages, announcements, reports and counts.
\<close>

section \<open>Comments\<close>

definition MAX_COMMENT_DEPTH :: nat where "MAX_COMMENT_DEPTH = 24"

definition insert_comment ::
  "int \<Rightarrow> int \<Rightarrow> int \<Rightarrow> bytes \<Rightarrow> int \<Rightarrow> tables \<Rightarrow> (int \<times> tables) option" where
  "insert_comment post_id parent_comment_id author_id body now t =
     (let i = tb_comment_seq t + 1;
          parent = (if parent_comment_id = 0 then None else Some parent_comment_id)
      in if \<not> list_ex (\<lambda>p. po_id p = post_id) (tb_posts t) \<or>
            (parent \<noteq> None \<and> \<not> list_ex (\<lambda>c. Some (co_id c) = parent) (tb_comments t)) \<or>
            user_by_id t author_id = None \<or> i > MAX_ROWID then None
         else Some (i, t\<lparr>tb_comments := tb_comments t @
           [\<lparr>co_id = i, co_post_id = post_id, co_parent_comment_id = parent, co_author_id = author_id,
             co_body = body, co_created_at = now, co_deleted_at = None\<rparr>], tb_comment_seq := i\<rparr>))"

definition create_comment ::
  "int \<Rightarrow> int \<Rightarrow> int \<Rightarrow> bytes \<Rightarrow> u64 \<Rightarrow> database \<Rightarrow> int option \<times> database" where
  "create_comment post_id parent_comment_id author_id body now =
     step_write (insert_comment post_id parent_comment_id author_id body (to_i64 now))"

text \<open>A row of the query: comment, depth and author.\<close>

definition read_comment_record :: "(comment_row \<times> nat) \<times> user_row \<Rightarrow> comment_record option" where
  "read_comment_record = (\<lambda>((c, depth), u).
     if key_column_ok (ur_pubkey u)
     then Some \<lparr>cr_id = to_u64 (co_id c), cr_post_id = to_u64 (co_post_id c),
       cr_parent_comment_id = to_u64 (case co_parent_comment_id c of None \<Rightarrow> 0 | Some p \<Rightarrow> p),
       cr_author_pubkey = ur_pubkey u, cr_author_handle = ur_handle u, cr_body = co_body c,
       cr_created_at = to_u64 (co_created_at c), cr_depth = word_of_nat depth\<rparr>
     else None)"

definition find_comment_by_id :: "int \<Rightarrow> database \<Rightarrow> comment_record option \<times> database" where
  "find_comment_by_id i =
     step_read (\<lambda>t. case joined_with (co_author_id \<circ> fst) t
         (map (\<lambda>c. (c, 0)) (filter (\<lambda>c. co_id c = i) (tb_comments t))) of
       [] \<Rightarrow> None | r # _ \<Rightarrow> read_comment_record r)"

text \<open>\<^verbatim>\<open>printf('%010d', id)\<close>; identifiers are positive.\<close>

definition padded_id :: "int \<Rightarrow> bytes" where
  "padded_id i = (let s = decimal_text (nat i) in replicate (10 - length s) 48 @ s)"

text \<open>
  The recursive query: the roots of the post at depth 0, then the replies to the rows of each
  level, to depth 24; every row carries the path that orders the result.
\<close>

definition thread_roots :: "tables \<Rightarrow> int \<Rightarrow> (comment_row \<times> nat \<times> bytes) list" where
  "thread_roots t post_id =
     map (\<lambda>c. (c, 0, padded_id (co_id c)))
       (filter (\<lambda>c. co_post_id c = post_id \<and> co_parent_comment_id c = None) (tb_comments t))"

definition thread_replies :: "tables \<Rightarrow> comment_row \<times> nat \<times> bytes \<Rightarrow> (comment_row \<times> nat \<times> bytes) list" where
  "thread_replies t = (\<lambda>(parent, depth, path).
     if depth < MAX_COMMENT_DEPTH
     then map (\<lambda>c. (c, depth + 1, path @ ascii ''/'' @ padded_id (co_id c)))
            (filter (\<lambda>c. co_parent_comment_id c = Some (co_id parent)) (tb_comments t))
     else [])"

primrec thread_levels ::
  "nat \<Rightarrow> tables \<Rightarrow> (comment_row \<times> nat \<times> bytes) list \<Rightarrow> (comment_row \<times> nat \<times> bytes) list" where
  "thread_levels 0 t level = level"
| "thread_levels (Suc n) t level = level @ thread_levels n t (concat (map (thread_replies t) level))"

definition thread_rows :: "tables \<Rightarrow> int \<Rightarrow> (comment_row \<times> nat \<times> bytes) list" where
  "thread_rows t post_id =
     sort_key (\<lambda>(_, _, path). path) (thread_levels MAX_COMMENT_DEPTH t (thread_roots t post_id))"

definition list_thread ::
  "int \<Rightarrow> u16 \<Rightarrow> database \<Rightarrow> (comment_record list \<times> bool) option \<times> database" where
  "list_thread post_id limit d =
     (let t = db_tables d;
          rows = take (unat limit + 1)
            (joined_with (co_author_id \<circ> fst) t (map (\<lambda>(c, depth, _). (c, depth)) (thread_rows t post_id)))
      in fetch_rows_upto (unat limit) read_comment_record rows d)"

definition check_parent_belongs_to_post :: "int \<Rightarrow> int \<Rightarrow> database \<Rightarrow> bool \<times> database" where
  "check_parent_belongs_to_post parent_comment_id post_id d =
     (let (r, d') = step_read (\<lambda>t.
        find (\<lambda>c. co_id c = parent_comment_id \<and> co_post_id c = post_id) (tb_comments t)) d
      in (r \<noteq> None, d'))"

definition blank_comments :: "(comment_row \<Rightarrow> bool) \<Rightarrow> int \<Rightarrow> tables \<Rightarrow> (nat \<times> tables) option" where
  "blank_comments condition now t =
     Some (length (filter condition (tb_comments t)),
           t\<lparr>tb_comments := map (\<lambda>c. if condition c
             then c\<lparr>co_body := [], co_deleted_at := Some now\<rparr> else c) (tb_comments t)\<rparr>)"

definition delete_own_comment :: "int \<Rightarrow> int \<Rightarrow> u64 \<Rightarrow> database \<Rightarrow> bool \<times> database" where
  "delete_own_comment comment_id author_id now d =
     (case step_write (blank_comments (\<lambda>c. co_id c = comment_id \<and> co_author_id c = author_id \<and>
        co_deleted_at c = None) (to_i64 now)) d of
        (None, d') \<Rightarrow> (False, d')
      | (Some changed, d') \<Rightarrow> (changed > 0, d'))"

section \<open>Profiles\<close>

definition profile_of :: "tables \<Rightarrow> int \<Rightarrow> profile_row option" where
  "profile_of t user_id = find (\<lambda>p. pw_user_id p = user_id) (tb_profiles t)"

definition upsert_profile :: "int \<Rightarrow> profile_set_request \<Rightarrow> tables \<Rightarrow> (unit \<times> tables) option" where
  "upsert_profile user_id q t =
     (if user_by_id t user_id = None then None
      else Some ((), t\<lparr>tb_profiles := filter (\<lambda>p. pw_user_id p \<noteq> user_id) (tb_profiles t) @
        [\<lparr>pw_user_id = user_id, pw_display_name = ps_display_name q, pw_bio = ps_bio q,
          pw_theme_json = ps_theme_json q, pw_banner_ref = ps_banner_reference q\<rparr>]\<rparr>))"

definition replace_profile :: "int \<Rightarrow> profile_set_request \<Rightarrow> database \<Rightarrow> bool \<times> database" where
  "replace_profile user_id q d =
     (let (r, d') = step_write (upsert_profile user_id q) d in (r \<noteq> None, d'))"

definition coalesce :: "('p \<Rightarrow> bytes) \<Rightarrow> 'p option \<Rightarrow> bytes" where
  "coalesce f p = (case p of None \<Rightarrow> [] | Some r \<Rightarrow> f r)"

definition find_profile_by_pubkey :: "bytes \<Rightarrow> database \<Rightarrow> profile_record option \<times> database" where
  "find_profile_by_pubkey pubkey =
     step_read (\<lambda>t. Option.bind (user_by_pubkey t pubkey) (\<lambda>u.
       if \<not> key_column_ok (ur_pubkey u) then None
       else let p = profile_of t (ur_id u)
            in Some \<lparr>prf_pubkey = ur_pubkey u, prf_handle = ur_handle u,
                 prf_display_name = coalesce pw_display_name p, prf_bio = coalesce pw_bio p,
                 prf_theme_json = coalesce pw_theme_json p,
                 prf_banner_reference = coalesce pw_banner_ref p\<rparr>))"

section \<open>Friendships\<close>

definition upsert_friendship :: "int \<Rightarrow> int \<Rightarrow> int \<Rightarrow> tables \<Rightarrow> (unit \<times> tables) option" where
  "upsert_friendship user_id friend_id status t =
     (if user_by_id t user_id = None \<or> user_by_id t friend_id = None \<or> user_id = friend_id \<or>
         \<not> (0 \<le> status \<and> status \<le> 2) then None
      else Some ((), t\<lparr>tb_friends :=
        (if list_ex (\<lambda>f. fd_user_id f = user_id \<and> fd_friend_id f = friend_id) (tb_friends t)
         then map (\<lambda>f. if fd_user_id f = user_id \<and> fd_friend_id f = friend_id
                       then f\<lparr>fd_status := status\<rparr> else f) (tb_friends t)
         else tb_friends t @ [\<lparr>fd_user_id = user_id, fd_friend_id = friend_id, fd_status = status\<rparr>])\<rparr>))"

definition replace_friendship :: "int \<Rightarrow> int \<Rightarrow> friendship_status \<Rightarrow> database \<Rightarrow> bool \<times> database" where
  "replace_friendship user_id friend_id status d =
     (let (r, d') = step_write (upsert_friendship user_id friend_id (uint (friendship_number status))) d
      in (r \<noteq> None, d'))"

text \<open>The cast of a status column, which the schema keeps between 0 and 2.\<close>

definition friendship_column :: "int \<Rightarrow> friendship_status" where
  "friendship_column s = friendship_of_number (word_of_int s)"

definition read_friend_record :: "tables \<Rightarrow> friend_row \<times> user_row \<Rightarrow> friend_record option" where
  "read_friend_record t = (\<lambda>(f, u).
     if key_column_ok (ur_pubkey u)
     then Some \<lparr>frd_pubkey = ur_pubkey u, frd_handle = ur_handle u,
       frd_display_name = coalesce pw_display_name (profile_of t (ur_id u)),
       frd_status = friendship_column (fd_status f)\<rparr>
     else None)"

definition list_friends :: "int \<Rightarrow> u16 \<Rightarrow> database \<Rightarrow> friend_record list option \<times> database" where
  "list_friends user_id limit d =
     (let t = db_tables d;
          rows = take (unat limit) (sort_key (\<lambda>(_, u). ur_handle u)
            (joined_with fd_friend_id t (filter (\<lambda>f. fd_user_id f = user_id) (tb_friends t))))
      in fetch_rows (read_friend_record t) rows d)"

section \<open>The top 8\<close>

record top8_entry =
  te_slot :: nat
  te_friend_id :: int

definition delete_top8 :: "int \<Rightarrow> tables \<Rightarrow> (unit \<times> tables) option" where
  "delete_top8 user_id t = Some ((), t\<lparr>tb_top8 := filter (\<lambda>r. tw_user_id r \<noteq> user_id) (tb_top8 t)\<rparr>)"

definition insert_top8 :: "int \<Rightarrow> top8_entry \<Rightarrow> tables \<Rightarrow> (unit \<times> tables) option" where
  "insert_top8 user_id entry t =
     (let slot = int (te_slot entry)
      in if user_by_id t user_id = None \<or> user_by_id t (te_friend_id entry) = None \<or> slot > 7 \<or>
            list_ex (\<lambda>r. tw_user_id r = user_id \<and> tw_slot r = slot) (tb_top8 t) then None
         else Some ((), t\<lparr>tb_top8 := tb_top8 t @
           [\<lparr>tw_user_id = user_id, tw_slot = slot, tw_friend_id = te_friend_id entry\<rparr>]\<rparr>))"

text \<open>A loop of statements inside a transaction that stops at the first failure.\<close>

primrec step_all :: "(tables \<Rightarrow> (unit \<times> tables) option) list \<Rightarrow> database \<Rightarrow> bool \<times> database" where
  "step_all [] d = (True, d)"
| "step_all (e # es) d =
     (case step_write e d of (None, d') \<Rightarrow> (False, d') | (Some _, d') \<Rightarrow> step_all es d')"

definition in_transaction ::
  "(tables \<Rightarrow> (unit \<times> tables) option) list \<Rightarrow> database \<Rightarrow> bool \<times> database" where
  "in_transaction effects d =
     (case begin_immediate d of
        (False, d1) \<Rightarrow> (False, d1)
      | (True, d1) \<Rightarrow>
          let (succeeded, d2) = step_all effects d1;
              (ended, d3) = end_transaction succeeded d2
          in (ended \<and> succeeded, d3))"

definition replace_slots :: "int \<Rightarrow> top8_entry list \<Rightarrow> database \<Rightarrow> bool \<times> database" where
  "replace_slots user_id entries = in_transaction (delete_top8 user_id # map (insert_top8 user_id) entries)"

text \<open>The rows of the query, and the loop that fills the slot array and the details.\<close>

definition top8_rows :: "tables \<Rightarrow> int \<Rightarrow> (top8_row \<times> user_row) list" where
  "top8_rows t user_id =
     sort_key (\<lambda>(r, _). tw_slot r)
       (joined_with tw_friend_id t (filter (\<lambda>r. tw_user_id r = user_id) (tb_top8 t)))"

definition top8_status :: "tables \<Rightarrow> top8_row \<Rightarrow> int" where
  "top8_status t r =
     (case find (\<lambda>f. fd_user_id f = tw_user_id r \<and> fd_friend_id f = tw_friend_id r) (tb_friends t) of
        None \<Rightarrow> 1 | Some f \<Rightarrow> fd_status f)"

primrec fill_slots ::
  "tables \<Rightarrow> (top8_row \<times> user_row) list \<Rightarrow> database \<Rightarrow> top8_response \<Rightarrow> top8_response option \<times> database" where
  "fill_slots t [] d out = (Some out, snd (pop_fault d))"
| "fill_slots t (row # rows) d out =
     (let (failed, d1) = pop_fault d; (r, u) = row
      in if failed then (Some out, d1)
         else let slot = unat (to_u64 (tw_slot r))
              in if slot \<ge> TOP8_SLOT_COUNT then fill_slots t rows d1 out
                 else if \<not> key_column_ok (ur_pubkey u) then (None, d1)
                 else fill_slots t rows d1
                   (out\<lparr>t8_slots := (t8_slots out)[slot := ur_pubkey u],
                        t8_details := t8_details out @
                          [\<lparr>frd_pubkey = ur_pubkey u, frd_handle = ur_handle u,
                            frd_display_name = coalesce pw_display_name (profile_of t (ur_id u)),
                            frd_status = friendship_column (top8_status t r)\<rparr>]\<rparr>))"

definition list_slots :: "int \<Rightarrow> database \<Rightarrow> top8_response option \<times> database" where
  "list_slots user_id d =
     fill_slots (db_tables d) (top8_rows (db_tables d) user_id) d
       \<lparr>t8_slots = replicate TOP8_SLOT_COUNT (replicate PUBLIC_KEY_SIZE 0), t8_details = []\<rparr>"

section \<open>Private messages\<close>

definition insert_envelope_row :: "int \<Rightarrow> bytes \<Rightarrow> bytes \<Rightarrow> tables \<Rightarrow> (int \<times> tables) option" where
  "insert_envelope_row recipient_id sender_pubkey ciphertext t =
     (let i = tb_envelope_seq t + 1
      in if user_by_id t recipient_id = None \<or> length sender_pubkey \<noteq> PUBLIC_KEY_SIZE \<or> i > MAX_ROWID
         then None
         else Some (i, t\<lparr>tb_envelopes := tb_envelopes t @
           [\<lparr>en_id = i, en_recipient_id = recipient_id, en_sender_pubkey = sender_pubkey,
             en_ciphertext = ciphertext\<rparr>], tb_envelope_seq := i\<rparr>))"

definition insert_envelope :: "int \<Rightarrow> bytes \<Rightarrow> bytes \<Rightarrow> database \<Rightarrow> int option \<times> database" where
  "insert_envelope recipient_id sender_pubkey ciphertext =
     step_write (insert_envelope_row recipient_id sender_pubkey ciphertext)"

definition read_envelope :: "envelope_row \<Rightarrow> dm_envelope_record option" where
  "read_envelope e =
     (if key_column_ok (en_sender_pubkey e)
      then Some \<lparr>de_id = to_u64 (en_id e), de_sender_pubkey = en_sender_pubkey e,
        de_ciphertext = en_ciphertext e\<rparr>
      else None)"

definition envelopes_after :: "tables \<Rightarrow> int \<Rightarrow> int \<Rightarrow> envelope_row list" where
  "envelopes_after t recipient_id since =
     sort_key en_id (filter (\<lambda>e. en_recipient_id e = recipient_id \<and> en_id e > since) (tb_envelopes t))"

definition list_for_recipient ::
  "int \<Rightarrow> u64 \<Rightarrow> u16 \<Rightarrow> database \<Rightarrow> dm_list_response option \<times> database" where
  "list_for_recipient recipient_id since_id limit d =
     (let rows = take (unat limit + 1) (envelopes_after (db_tables d) recipient_id (to_i64 since_id));
          (r, d') = fetch_rows_upto (unat limit) read_envelope rows d
      in (map_option (\<lambda>(envelopes, more).
            \<lparr>dl_envelopes = envelopes, dl_has_more = (if more then 1 else 0)\<rparr>) r, d'))"

definition delete_envelope :: "int \<Rightarrow> u64 \<Rightarrow> tables \<Rightarrow> (unit \<times> tables) option" where
  "delete_envelope recipient_id identifier t =
     Some ((), t\<lparr>tb_envelopes := filter (\<lambda>e. \<not> (en_id e = to_i64 identifier \<and>
       en_recipient_id e = recipient_id)) (tb_envelopes t)\<rparr>)"

definition delete_acknowledged :: "int \<Rightarrow> u64 list \<Rightarrow> database \<Rightarrow> bool \<times> database" where
  "delete_acknowledged recipient_id ids = in_transaction (map (delete_envelope recipient_id) ids)"

definition count_pending :: "int \<Rightarrow> database \<Rightarrow> u32 option \<times> database" where
  "count_pending recipient_id =
     step_read (\<lambda>t. Some (word_of_nat (length (filter (\<lambda>e. en_recipient_id e = recipient_id) (tb_envelopes t)))))"

section \<open>Announcements\<close>

definition find_active_motd :: "database \<Rightarrow> motd_push option \<times> database" where
  "find_active_motd =
     step_read (\<lambda>t. map_option (\<lambda>m. \<lparr>mp_revision = to_u64 (mo_id m), mp_body = mo_body m\<rparr>)
       (find mo_active (tb_motd t)))"

definition deactivate_motd :: "tables \<Rightarrow> (unit \<times> tables) option" where
  "deactivate_motd t = Some ((), t\<lparr>tb_motd := map (\<lambda>m. m\<lparr>mo_active := False\<rparr>) (tb_motd t)\<rparr>)"

definition insert_motd :: "bytes \<Rightarrow> int \<Rightarrow> tables \<Rightarrow> (unit \<times> tables) option" where
  "insert_motd body now t =
     (let i = tb_motd_seq t + 1
      in if list_ex mo_active (tb_motd t) \<or> i > MAX_ROWID then None
         else Some ((), t\<lparr>tb_motd := tb_motd t @
           [\<lparr>mo_id = i, mo_body = body, mo_active = True, mo_created_at = now\<rparr>], tb_motd_seq := i\<rparr>))"

definition publish_motd :: "bytes \<Rightarrow> u64 \<Rightarrow> database \<Rightarrow> bool \<times> database" where
  "publish_motd body now = in_transaction [deactivate_motd, insert_motd body (to_i64 now)]"

definition clear_active_motd :: "database \<Rightarrow> bool \<times> database" where
  "clear_active_motd d = (let (r, d') = step_write deactivate_motd d in (r \<noteq> None, d'))"

section \<open>Reports\<close>

definition insert_report ::
  "report_kind \<Rightarrow> int option \<Rightarrow> bytes option \<Rightarrow> int \<Rightarrow> bytes \<Rightarrow> int \<Rightarrow> tables \<Rightarrow> (unit \<times> tables) option" where
  "insert_report kind post_id target_pubkey reporter_id reason now t =
     (let i = tb_report_seq t + 1
      in if (post_id \<noteq> None \<and> \<not> list_ex (\<lambda>p. Some (po_id p) = post_id) (tb_posts t)) \<or>
            (target_pubkey \<noteq> None \<and> length (the target_pubkey) \<noteq> PUBLIC_KEY_SIZE) \<or>
            user_by_id t reporter_id = None \<or> i > MAX_ROWID then None
         else Some ((), t\<lparr>tb_reports := tb_reports t @
           [\<lparr>re_id = i, re_kind = kind, re_post_id = post_id, re_target_pubkey = target_pubkey,
             re_reporter_id = reporter_id, re_reason = reason, re_created_at = now\<rparr>], tb_report_seq := i\<rparr>))"

definition record_post_report :: "int \<Rightarrow> int \<Rightarrow> bytes \<Rightarrow> u64 \<Rightarrow> database \<Rightarrow> bool \<times> database" where
  "record_post_report post_id reporter_id reason now d =
     (let (r, d') = step_write (insert_report Report_post (Some post_id) None reporter_id reason (to_i64 now)) d
      in (r \<noteq> None, d'))"

definition record_account_report :: "bytes \<Rightarrow> int \<Rightarrow> bytes \<Rightarrow> u64 \<Rightarrow> database \<Rightarrow> bool \<times> database" where
  "record_account_report target_pubkey reporter_id reason now d =
     (let (r, d') = step_write (insert_report Report_account None (Some target_pubkey) reporter_id reason (to_i64 now)) d
      in (r \<noteq> None, d'))"

record report_row =
  rr_id :: int
  rr_kind :: bytes
  rr_post_id :: int
  rr_target_pubkey :: bytes
  rr_reporter_id :: int
  rr_reason :: bytes
  rr_created_at :: int

definition read_report_row :: "report_entry \<Rightarrow> report_row option" where
  "read_report_row e =
     Some \<lparr>rr_id = re_id e,
       rr_kind = (case re_kind e of Report_post \<Rightarrow> ascii ''post'' | Report_account \<Rightarrow> ascii ''account''),
       rr_post_id = (case re_post_id e of None \<Rightarrow> 0 | Some p \<Rightarrow> p),
       rr_target_pubkey = (case re_target_pubkey e of
         None \<Rightarrow> replicate PUBLIC_KEY_SIZE 0
       | Some k \<Rightarrow> if length k = PUBLIC_KEY_SIZE then k else replicate PUBLIC_KEY_SIZE 0),
       rr_reporter_id = re_reporter_id e, rr_reason = re_reason e, rr_created_at = re_created_at e\<rparr>"

definition list_reports :: "u16 \<Rightarrow> database \<Rightarrow> report_row list option \<times> database" where
  "list_reports limit d =
     fetch_rows read_report_row (take (unat limit) (sort_key re_created_at (tb_reports (db_tables d)))) d"

definition clear_report :: "int \<Rightarrow> database \<Rightarrow> bool \<times> database" where
  "clear_report i d =
     (let (r, d') = step_write (\<lambda>t. Some ((), t\<lparr>tb_reports := filter (\<lambda>e. re_id e \<noteq> i) (tb_reports t)\<rparr>)) d
      in (r \<noteq> None, d'))"

section \<open>Counts\<close>

record server_counts =
  sv_users :: int
  sv_forums :: int
  sv_posts :: int
  sv_comments :: int
  sv_pending_envelopes :: int

definition count_rows :: "(tables \<Rightarrow> 'r list) \<Rightarrow> database \<Rightarrow> int option \<times> database" where
  "count_rows table = step_read (\<lambda>t. Some (int (length (table t))))"

definition collect_counts :: "database \<Rightarrow> server_counts option \<times> database" where
  "collect_counts d =
     (case count_rows tb_users d of (None, d1) \<Rightarrow> (None, d1) | (Some users, d1) \<Rightarrow>
     (case count_rows tb_forums d1 of (None, d2) \<Rightarrow> (None, d2) | (Some forums, d2) \<Rightarrow>
     (case count_rows tb_posts d2 of (None, d3) \<Rightarrow> (None, d3) | (Some posts, d3) \<Rightarrow>
     (case count_rows tb_comments d3 of (None, d4) \<Rightarrow> (None, d4) | (Some comments, d4) \<Rightarrow>
     (case count_rows tb_envelopes d4 of (None, d5) \<Rightarrow> (None, d5) | (Some pending, d5) \<Rightarrow>
       (Some \<lparr>sv_users = users, sv_forums = forums, sv_posts = posts, sv_comments = comments,
              sv_pending_envelopes = pending\<rparr>, d5))))))"

end
