(* ===== verification/Integrity.thy ===== *)
theory Integrity
  imports Repositories
begin

text \<open>
  The integrity of the stored data, as an invariant of the tables and as a contract: a statement
  that keeps it on the tables keeps it on the open database, whatever the storage engine fails at,
  and a transaction takes effect as a whole or not at all. Every statement of the repositories is
  an instance of the contract.
\<close>

section \<open>The invariant\<close>

definition ids_ok :: "int \<Rightarrow> int list \<Rightarrow> bool" where
  "ids_ok seq ids \<longleftrightarrow> sorted_wrt (<) ids \<and> (\<forall>i\<in>set ids. 1 \<le> i \<and> i \<le> seq) \<and> 0 \<le> seq \<and> seq \<le> MAX_ROWID"

definition has_user :: "tables \<Rightarrow> int \<Rightarrow> bool" where
  "has_user t i \<longleftrightarrow> i \<in> ur_id ` set (tb_users t)"

definition users_ok :: "tables \<Rightarrow> bool" where
  "users_ok t \<longleftrightarrow> ids_ok (tb_user_seq t) (map ur_id (tb_users t)) \<and>
     distinct (map ur_pubkey (tb_users t)) \<and> distinct (map (nocase \<circ> ur_handle) (tb_users t)) \<and>
     (\<forall>u\<in>set (tb_users t). length (ur_pubkey u) = PUBLIC_KEY_SIZE \<and> text_ok MAX_HANDLE_LENGTH (ur_handle u))"

definition prekeys_ok :: "tables \<Rightarrow> bool" where
  "prekeys_ok t \<longleftrightarrow> distinct (map pk_user_id (tb_prekeys t)) \<and>
     (\<forall>p\<in>set (tb_prekeys t). has_user t (pk_user_id p) \<and> length (pk_prekey p) = PUBLIC_KEY_SIZE \<and>
        length (pk_signature p) = SIGNATURE_SIZE)"

definition forums_ok :: "tables \<Rightarrow> bool" where
  "forums_ok t \<longleftrightarrow> ids_ok (tb_forum_seq t) (map fo_id (tb_forums t)) \<and>
     distinct (map fo_name (tb_forums t)) \<and>
     (\<forall>f\<in>set (tb_forums t). has_user t (fo_founder_id f) \<and> text_ok MAX_FORUM_NAME_LENGTH (fo_name f) \<and>
        text_ok MAX_FORUM_DESCRIPTION_LENGTH (fo_description f) \<and>
        text_ok MAX_THEME_JSON_LENGTH (fo_theme_json f))"

definition posts_ok :: "tables \<Rightarrow> bool" where
  "posts_ok t \<longleftrightarrow> ids_ok (tb_post_seq t) (map po_id (tb_posts t)) \<and>
     (\<forall>p\<in>set (tb_posts t). has_user t (po_author_id p) \<and> po_forum_id p \<in> fo_id ` set (tb_forums t) \<and>
        text_ok MAX_POST_TITLE_LENGTH (po_title p) \<and> text_ok MAX_POST_BODY_LENGTH (po_body p))"

definition comments_ok :: "tables \<Rightarrow> bool" where
  "comments_ok t \<longleftrightarrow> ids_ok (tb_comment_seq t) (map co_id (tb_comments t)) \<and>
     (\<forall>c\<in>set (tb_comments t). has_user t (co_author_id c) \<and> co_post_id c \<in> po_id ` set (tb_posts t) \<and>
        text_ok MAX_COMMENT_BODY_LENGTH (co_body c) \<and>
        (\<forall>p. co_parent_comment_id c = Some p \<longrightarrow>
          p < co_id c \<and> (\<exists>c'\<in>set (tb_comments t). co_id c' = p \<and> co_post_id c' = co_post_id c)))"

definition profiles_ok :: "tables \<Rightarrow> bool" where
  "profiles_ok t \<longleftrightarrow> distinct (map pw_user_id (tb_profiles t)) \<and>
     (\<forall>p\<in>set (tb_profiles t). has_user t (pw_user_id p) \<and>
        text_ok MAX_DISPLAY_NAME_LENGTH (pw_display_name p) \<and> text_ok MAX_BIO_LENGTH (pw_bio p) \<and>
        text_ok MAX_THEME_JSON_LENGTH (pw_theme_json p) \<and>
        text_ok MAX_BLOB_REFERENCE_LENGTH (pw_banner_ref p))"

definition friends_ok :: "tables \<Rightarrow> bool" where
  "friends_ok t \<longleftrightarrow> distinct (map (\<lambda>f. (fd_user_id f, fd_friend_id f)) (tb_friends t)) \<and>
     (\<forall>f\<in>set (tb_friends t). has_user t (fd_user_id f) \<and> has_user t (fd_friend_id f) \<and>
        fd_user_id f \<noteq> fd_friend_id f \<and> 0 \<le> fd_status f \<and> fd_status f \<le> 2)"

definition top8_ok :: "tables \<Rightarrow> bool" where
  "top8_ok t \<longleftrightarrow> distinct (map (\<lambda>r. (tw_user_id r, tw_slot r)) (tb_top8 t)) \<and>
     (\<forall>r\<in>set (tb_top8 t). has_user t (tw_user_id r) \<and> has_user t (tw_friend_id r) \<and>
        0 \<le> tw_slot r \<and> tw_slot r \<le> 7)"

definition envelopes_ok :: "tables \<Rightarrow> bool" where
  "envelopes_ok t \<longleftrightarrow> ids_ok (tb_envelope_seq t) (map en_id (tb_envelopes t)) \<and>
     (\<forall>e\<in>set (tb_envelopes t). has_user t (en_recipient_id e) \<and>
        length (en_sender_pubkey e) = PUBLIC_KEY_SIZE \<and> length (en_ciphertext e) \<le> MAX_DM_CIPHERTEXT_SIZE)"

definition motd_ok :: "tables \<Rightarrow> bool" where
  "motd_ok t \<longleftrightarrow> ids_ok (tb_motd_seq t) (map mo_id (tb_motd t)) \<and>
     length (filter mo_active (tb_motd t)) \<le> 1 \<and>
     (\<forall>m\<in>set (tb_motd t). text_ok MAX_MOTD_LENGTH (mo_body m))"

definition reports_ok :: "tables \<Rightarrow> bool" where
  "reports_ok t \<longleftrightarrow> ids_ok (tb_report_seq t) (map re_id (tb_reports t)) \<and>
     (\<forall>e\<in>set (tb_reports t). has_user t (re_reporter_id e) \<and>
        (\<forall>p. re_post_id e = Some p \<longrightarrow> p \<in> po_id ` set (tb_posts t)))"

definition tables_ok :: "tables \<Rightarrow> bool" where
  "tables_ok t \<longleftrightarrow> users_ok t \<and> prekeys_ok t \<and> forums_ok t \<and> posts_ok t \<and> comments_ok t \<and>
     profiles_ok t \<and> friends_ok t \<and> top8_ok t \<and> envelopes_ok t \<and> motd_ok t \<and> reports_ok t"

definition database_ok :: "database \<Rightarrow> bool" where
  "database_ok d \<longleftrightarrow> tables_ok (db_tables d) \<and> (\<forall>t. db_saved d = Some t \<longrightarrow> tables_ok t)"

lemmas tables_ok_defs = users_ok_def prekeys_ok_def forums_ok_def posts_ok_def comments_ok_def
  profiles_ok_def friends_ok_def top8_ok_def envelopes_ok_def motd_ok_def reports_ok_def

lemma empty_tables_ok: "tables_ok empty_tables"
  by (simp add: tables_ok_def tables_ok_defs empty_tables_def ids_ok_def MAX_ROWID_def)

section \<open>Shared facts\<close>

lemma user_by_id_None: "user_by_id t i = None \<longleftrightarrow> \<not> has_user t i"
  by (auto simp: user_by_id_def has_user_def find_None_iff)

lemma user_by_id_Some: "user_by_id t i = Some u \<Longrightarrow> u \<in> set (tb_users t) \<and> ur_id u = i"
  by (auto simp: user_by_id_def find_Some_iff)

lemma user_by_pubkey_Some: "user_by_pubkey t k = Some u \<Longrightarrow> u \<in> set (tb_users t) \<and> ur_pubkey u = k"
  by (auto simp: user_by_pubkey_def find_Some_iff)

lemma ids_ok_append:
  "ids_ok seq ids \<Longrightarrow> \<not> seq + 1 > MAX_ROWID \<Longrightarrow> ids_ok (seq + 1) (ids @ [seq + 1])"
  by (auto simp: ids_ok_def sorted_wrt_append)

lemma ids_ok_filter: "ids_ok seq (map f xs) \<Longrightarrow> ids_ok seq (map f (filter P xs))"
  by (auto simp: ids_ok_def sorted_wrt_filter sorted_wrt_map)

lemma text_ok_Nil [simp]: "text_ok m []"
  by (simp add: text_ok_def validate_text_field_iff)

lemma list_ex_False: "\<not> list_ex P xs \<longleftrightarrow> (\<forall>x\<in>set xs. \<not> P x)"
  by (simp add: list_ex_iff)

text \<open>
  Rows that refer to other tables stay valid when those tables keep their identifiers: no user,
  forum, post or comment row is ever removed.
\<close>

lemma refs_mono:
  assumes "\<And>i. has_user t i \<Longrightarrow> has_user t' i"
  shows "tb_prekeys t' = tb_prekeys t \<Longrightarrow> prekeys_ok t \<Longrightarrow> prekeys_ok t'"
    and "tb_profiles t' = tb_profiles t \<Longrightarrow> profiles_ok t \<Longrightarrow> profiles_ok t'"
    and "tb_friends t' = tb_friends t \<Longrightarrow> friends_ok t \<Longrightarrow> friends_ok t'"
    and "tb_top8 t' = tb_top8 t \<Longrightarrow> top8_ok t \<Longrightarrow> top8_ok t'"
    and "tb_envelopes t' = tb_envelopes t \<Longrightarrow> tb_envelope_seq t' = tb_envelope_seq t \<Longrightarrow>
      envelopes_ok t \<Longrightarrow> envelopes_ok t'"
    and "tb_forums t' = tb_forums t \<Longrightarrow> tb_forum_seq t' = tb_forum_seq t \<Longrightarrow> forums_ok t \<Longrightarrow> forums_ok t'"
    and "fo_id ` set (tb_forums t) \<subseteq> fo_id ` set (tb_forums t') \<Longrightarrow> tb_posts t' = tb_posts t \<Longrightarrow>
      tb_post_seq t' = tb_post_seq t \<Longrightarrow> posts_ok t \<Longrightarrow> posts_ok t'"
    and "po_id ` set (tb_posts t) \<subseteq> po_id ` set (tb_posts t') \<Longrightarrow> tb_comments t' = tb_comments t \<Longrightarrow>
      tb_comment_seq t' = tb_comment_seq t \<Longrightarrow> comments_ok t \<Longrightarrow> comments_ok t'"
    and "po_id ` set (tb_posts t) \<subseteq> po_id ` set (tb_posts t') \<Longrightarrow> tb_reports t' = tb_reports t \<Longrightarrow>
      tb_report_seq t' = tb_report_seq t \<Longrightarrow> reports_ok t \<Longrightarrow> reports_ok t'"
    and "tb_motd t' = tb_motd t \<Longrightarrow> tb_motd_seq t' = tb_motd_seq t \<Longrightarrow> motd_ok t \<Longrightarrow> motd_ok t'"
  using assms by (simp_all add: tables_ok_defs subset_iff)

section \<open>The contract of a statement\<close>

text \<open>
  What a statement promises, under a condition on the tables it runs on: the tables it leaves are
  sound again.
\<close>

locale write_statement =
  fixes effect :: "tables \<Rightarrow> ('a \<times> tables) option"
    and condition :: "tables \<Rightarrow> bool"
  assumes keeps: "condition t \<Longrightarrow> tables_ok t \<Longrightarrow> effect t = Some (v, t') \<Longrightarrow> tables_ok t'"
begin

lemma step_keeps:
  assumes "condition (db_tables d)" and "database_ok d"
  shows "database_ok (snd (step_write effect d))"
proof -
  obtain failed d1 where p: "pop_fault d = (failed, d1)" by fastforce
  then have "db_tables d1 = db_tables d" "db_saved d1 = db_saved d"
    by (auto simp: pop_fault_def split: list.splits)
  then show ?thesis
    using assms p keeps [of "db_tables d1"]
    by (auto simp: step_write_def database_ok_def split: option.splits)
qed

end

section \<open>The statements keep the invariant\<close>

lemma tables_ok_frame:
  assumes ok: "tables_ok t"
    and mono: "\<And>i. has_user t i \<Longrightarrow> has_user t' i"
      "fo_id ` set (tb_forums t) \<subseteq> fo_id ` set (tb_forums t')"
      "po_id ` set (tb_posts t) \<subseteq> po_id ` set (tb_posts t')"
    and frame: "tb_users t' = tb_users t \<and> tb_user_seq t' = tb_user_seq t \<or> users_ok t'"
      "tb_prekeys t' = tb_prekeys t \<or> prekeys_ok t'"
      "tb_forums t' = tb_forums t \<and> tb_forum_seq t' = tb_forum_seq t \<or> forums_ok t'"
      "tb_posts t' = tb_posts t \<and> tb_post_seq t' = tb_post_seq t \<or> posts_ok t'"
      "tb_comments t' = tb_comments t \<and> tb_comment_seq t' = tb_comment_seq t \<or> comments_ok t'"
      "tb_profiles t' = tb_profiles t \<or> profiles_ok t'"
      "tb_friends t' = tb_friends t \<or> friends_ok t'"
      "tb_top8 t' = tb_top8 t \<or> top8_ok t'"
      "tb_envelopes t' = tb_envelopes t \<and> tb_envelope_seq t' = tb_envelope_seq t \<or> envelopes_ok t'"
      "tb_motd t' = tb_motd t \<and> tb_motd_seq t' = tb_motd_seq t \<or> motd_ok t'"
      "tb_reports t' = tb_reports t \<and> tb_report_seq t' = tb_report_seq t \<or> reports_ok t'"
  shows "tables_ok t'"
proof -
  have parts: "users_ok t" "prekeys_ok t" "profiles_ok t" "friends_ok t" "top8_ok t" "envelopes_ok t"
    "forums_ok t" "posts_ok t" "comments_ok t" "reports_ok t" "motd_ok t"
    using ok unfolding tables_ok_def by blast+
  have "users_ok t'" using frame(1) parts(1) by (auto simp: users_ok_def)
  moreover have "prekeys_ok t'" using frame(2) parts(2) refs_mono(1) [OF mono(1)] by blast
  moreover have "profiles_ok t'" using frame(6) parts(3) refs_mono(2) [OF mono(1)] by blast
  moreover have "friends_ok t'" using frame(7) parts(4) refs_mono(3) [OF mono(1)] by blast
  moreover have "top8_ok t'" using frame(8) parts(5) refs_mono(4) [OF mono(1)] by blast
  moreover have "envelopes_ok t'" using frame(9) parts(6) refs_mono(5) [OF mono(1)] by blast
  moreover have "forums_ok t'" using frame(3) parts(7) refs_mono(6) [OF mono(1)] by blast
  moreover have "posts_ok t'"
    using frame(4) parts(8) refs_mono(7) [OF mono(1) mono(2)] by blast
  moreover have "comments_ok t'"
    using frame(5) parts(9) refs_mono(8) [OF mono(1) mono(3)] by blast
  moreover have "reports_ok t'"
    using frame(11) parts(10) refs_mono(9) [OF mono(1) mono(3)] by blast
  moreover have "motd_ok t'" using frame(10) parts(11) refs_mono(10) [OF mono(1)] by blast
  ultimately show ?thesis unfolding tables_ok_def by blast
qed

lemmas row_simps = Let_def list_ex_iff user_by_id_None

interpretation insert_user: write_statement "insert_user pubkey handle"
    "\<lambda>_. text_ok MAX_HANDLE_LENGTH handle" for pubkey handle
proof (unfold_locales, goal_cases)
  case (1 t v t')
  then have c: "length pubkey = PUBLIC_KEY_SIZE" "\<not> tb_user_seq t + 1 > MAX_ROWID"
    "\<forall>u\<in>set (tb_users t). ur_pubkey u \<noteq> pubkey \<and> nocase (ur_handle u) \<noteq> nocase handle"
    and t': "t' = t\<lparr>tb_users := tb_users t @ [\<lparr>ur_id = tb_user_seq t + 1, ur_pubkey = pubkey,
      ur_handle = handle, ur_banned = False\<rparr>], tb_user_seq := tb_user_seq t + 1\<rparr>"
    by (auto simp: insert_user_def row_simps split: if_splits)
  have "users_ok t'"
    using 1(1,2) c by (auto simp: tables_ok_def users_ok_def t' ids_ok_append)
  then show ?case
    by (intro tables_ok_frame [OF 1(2)]) (auto simp: t' has_user_def)
qed

interpretation update_banned: write_statement "\<lambda>t. Some ((), t\<lparr>tb_users :=
    map (\<lambda>u. if ur_id u = user_id then u\<lparr>ur_banned := banned\<rparr> else u) (tb_users t)\<rparr>)" "\<lambda>_. True"
  for user_id banned
proof (unfold_locales, goal_cases)
  case (1 t v t')
  let ?f = "\<lambda>u. if ur_id u = user_id then u\<lparr>ur_banned := banned\<rparr> else u"
  have t': "t' = t\<lparr>tb_users := map ?f (tb_users t)\<rparr>" using 1(3) by simp
  have f: "ur_id (?f u) = ur_id u" "ur_pubkey (?f u) = ur_pubkey u" "ur_handle (?f u) = ur_handle u" for u
    by simp_all
  have maps: "map ur_id (map ?f us) = map ur_id us" "map ur_pubkey (map ?f us) = map ur_pubkey us"
    "map (nocase \<circ> ur_handle) (map ?f us) = map (nocase \<circ> ur_handle) us" for us by simp_all
  have sel: "tb_users t' = map ?f (tb_users t)" "tb_user_seq t' = tb_user_seq t" by (simp_all add: t')
  have "users_ok t'"
    using 1(2) unfolding tables_ok_def users_ok_def sel maps by (auto simp: f)
  moreover have "has_user t' i = has_user t i" for i
    unfolding has_user_def sel set_map image_image f ..
  ultimately show ?case by (intro tables_ok_frame [OF 1(2)]) (simp_all add: t')
qed

interpretation upsert_prekey: write_statement "upsert_prekey user_id prekey signature now" "\<lambda>_. True"
  for user_id prekey signature now
proof (unfold_locales, goal_cases)
  case (1 t v t')
  then have t': "t' = t\<lparr>tb_prekeys := filter (\<lambda>p. pk_user_id p \<noteq> user_id) (tb_prekeys t) @
      [\<lparr>pk_user_id = user_id, pk_prekey = prekey, pk_signature = signature, pk_created_at = now\<rparr>]\<rparr>"
    and c: "length prekey = PUBLIC_KEY_SIZE" "length signature = SIGNATURE_SIZE" "has_user t user_id"
    by (auto simp: upsert_prekey_def row_simps split: if_splits)
  have "prekeys_ok t'"
    using 1(2) c by (auto simp: tables_ok_def prekeys_ok_def t' has_user_def distinct_map_filter)
  then show ?case by (intro tables_ok_frame [OF 1(2)]) (auto simp: t' has_user_def)
qed

interpretation insert_forum: write_statement "insert_forum founder_id name description theme_json now"
    "\<lambda>_. text_ok MAX_FORUM_NAME_LENGTH name \<and> text_ok MAX_FORUM_DESCRIPTION_LENGTH description \<and>
      text_ok MAX_THEME_JSON_LENGTH theme_json"
  for founder_id name description theme_json now
proof (unfold_locales, goal_cases)
  case (1 t v t')
  then have c: "has_user t founder_id" "\<not> tb_forum_seq t + 1 > MAX_ROWID" "\<forall>f\<in>set (tb_forums t). fo_name f \<noteq> name"
    and t': "t' = t\<lparr>tb_forums := tb_forums t @ [\<lparr>fo_id = tb_forum_seq t + 1, fo_name = name,
      fo_founder_id = founder_id, fo_description = description, fo_theme_json = theme_json,
      fo_created_at = now\<rparr>], tb_forum_seq := tb_forum_seq t + 1\<rparr>"
    by (auto simp: insert_forum_def row_simps split: if_splits)
  have "forums_ok t'"
    using 1(1,2) c by (auto simp: tables_ok_def forums_ok_def t' has_user_def ids_ok_append)
  then show ?case by (intro tables_ok_frame [OF 1(2)]) (auto simp: t' has_user_def)
qed

interpretation insert_post: write_statement "insert_post forum_id author_id title body now"
    "\<lambda>_. text_ok MAX_POST_TITLE_LENGTH title \<and> text_ok MAX_POST_BODY_LENGTH body"
  for forum_id author_id title body now
proof (unfold_locales, goal_cases)
  case (1 t v t')
  then have c: "has_user t author_id" "\<not> tb_post_seq t + 1 > MAX_ROWID" "forum_id \<in> fo_id ` set (tb_forums t)"
    and t': "t' = t\<lparr>tb_posts := tb_posts t @ [\<lparr>po_id = tb_post_seq t + 1, po_forum_id = forum_id,
      po_author_id = author_id, po_title = title, po_body = body, po_created_at = now,
      po_deleted_at = None\<rparr>], tb_post_seq := tb_post_seq t + 1\<rparr>"
    by (auto simp: insert_post_def row_simps split: if_splits)
  have "posts_ok t'"
    using 1(1,2) c by (auto simp: tables_ok_def posts_ok_def t' has_user_def ids_ok_append)
  then show ?case by (intro tables_ok_frame [OF 1(2)]) (auto simp: t' has_user_def)
qed

interpretation blank_posts: write_statement "blank_posts condition now" "\<lambda>_. True" for condition now
proof (unfold_locales, goal_cases)
  case (1 t v t')
  let ?f = "\<lambda>p. if condition p then p\<lparr>po_title := [], po_body := [], po_deleted_at := Some now\<rparr> else p"
  have t': "t' = t\<lparr>tb_posts := map ?f (tb_posts t)\<rparr>" using 1(3) by (simp add: blank_posts_def)
  have f: "po_id (?f p) = po_id p" "po_author_id (?f p) = po_author_id p" "po_forum_id (?f p) = po_forum_id p"
    for p by simp_all
  have maps: "map po_id (map ?f ps) = map po_id ps" for ps by simp
  have sel: "tb_posts t' = map ?f (tb_posts t)" "tb_post_seq t' = tb_post_seq t" "tb_forums t' = tb_forums t"
    "has_user t' = has_user t" by (auto simp: t' has_user_def)
  have "posts_ok t'"
    using 1(2) unfolding tables_ok_def posts_ok_def sel maps by auto
  moreover have "po_id ` set (tb_posts t') = po_id ` set (tb_posts t)"
    unfolding sel set_map image_image f ..
  ultimately show ?case
    by (intro tables_ok_frame [OF 1(2)]) (simp_all add: t' has_user_def)
qed

interpretation insert_comment: write_statement "insert_comment post_id parent author_id body now"
    "\<lambda>t. text_ok MAX_COMMENT_BODY_LENGTH body \<and> (parent \<noteq> 0 \<longrightarrow>
      (\<exists>c\<in>set (tb_comments t). co_id c = parent \<and> co_post_id c = post_id))"
  for post_id parent author_id body now
proof (unfold_locales, goal_cases)
  case (1 t v t')
  let ?p = "if parent = 0 then None else Some parent"
  from 1 have c: "has_user t author_id" "\<not> tb_comment_seq t + 1 > MAX_ROWID" "post_id \<in> po_id ` set (tb_posts t)"
    and t': "t' = t\<lparr>tb_comments := tb_comments t @ [\<lparr>co_id = tb_comment_seq t + 1, co_post_id = post_id,
      co_parent_comment_id = ?p, co_author_id = author_id, co_body = body, co_created_at = now,
      co_deleted_at = None\<rparr>], tb_comment_seq := tb_comment_seq t + 1\<rparr>"
    by (auto simp: insert_comment_def row_simps image_iff split: if_splits) (metis)+
  have "\<forall>c\<in>set (tb_comments t). co_id c < tb_comment_seq t + 1"
    using 1(2) by (auto simp: tables_ok_def comments_ok_def ids_ok_def)
  moreover have "comments_ok t" using 1(2) by (simp add: tables_ok_def)
  ultimately have "comments_ok t'"
    using 1(1) c unfolding comments_ok_def
    by (intro conjI) (auto simp: t' has_user_def ids_ok_append)
  then show ?case by (intro tables_ok_frame [OF 1(2)]) (auto simp: t' has_user_def)
qed

interpretation blank_comments: write_statement "blank_comments condition now" "\<lambda>_. True" for condition now
proof (unfold_locales, goal_cases)
  case (1 t v t')
  let ?f = "\<lambda>c. if condition c then c\<lparr>co_body := [], co_deleted_at := Some now\<rparr> else c"
  have t': "t' = t\<lparr>tb_comments := map ?f (tb_comments t)\<rparr>" using 1(3) by (simp add: blank_comments_def)
  have f: "co_id (?f c) = co_id c" "co_author_id (?f c) = co_author_id c" "co_post_id (?f c) = co_post_id c"
    "co_parent_comment_id (?f c) = co_parent_comment_id c" for c by simp_all
  have body: "text_ok m (co_body c) \<Longrightarrow> text_ok m (co_body (?f c))" for m c by simp
  have maps: "map co_id (map ?f cs) = map co_id cs" for cs by simp
  have sel: "tb_comments t' = map ?f (tb_comments t)" "tb_comment_seq t' = tb_comment_seq t"
    "tb_posts t' = tb_posts t" "has_user t' = has_user t" by (auto simp: t' has_user_def)
  have "comments_ok t'"
    using 1(2) unfolding tables_ok_def comments_ok_def sel maps set_map ball_simps bex_simps f
    by (blast intro: body)
  then show ?case by (intro tables_ok_frame [OF 1(2)]) (simp_all add: t' has_user_def)
qed

interpretation upsert_profile: write_statement "upsert_profile user_id q"
    "\<lambda>_. text_ok MAX_DISPLAY_NAME_LENGTH (ps_display_name q) \<and> text_ok MAX_BIO_LENGTH (ps_bio q) \<and>
      text_ok MAX_THEME_JSON_LENGTH (ps_theme_json q) \<and>
      text_ok MAX_BLOB_REFERENCE_LENGTH (ps_banner_reference q)" for user_id q
proof (unfold_locales, goal_cases)
  case (1 t v t')
  then have t': "t' = t\<lparr>tb_profiles := filter (\<lambda>p. pw_user_id p \<noteq> user_id) (tb_profiles t) @
        [\<lparr>pw_user_id = user_id, pw_display_name = ps_display_name q, pw_bio = ps_bio q,
          pw_theme_json = ps_theme_json q, pw_banner_ref = ps_banner_reference q\<rparr>]\<rparr>"
    and c: "has_user t user_id"
    by (auto simp: upsert_profile_def row_simps split: if_splits)
  have "profiles_ok t'"
    using 1(1,2) c by (auto simp: tables_ok_def profiles_ok_def t' has_user_def distinct_map_filter)
  then show ?case by (intro tables_ok_frame [OF 1(2)]) (auto simp: t' has_user_def)
qed

interpretation upsert_friendship: write_statement "upsert_friendship user_id friend_id status" "\<lambda>_. True"
  for user_id friend_id status
proof (unfold_locales, goal_cases)
  case (1 t v t')
  let ?same = "\<lambda>f. fd_user_id f = user_id \<and> fd_friend_id f = friend_id"
  let ?f = "\<lambda>f. if ?same f then f\<lparr>fd_status := status\<rparr> else f"
  from 1 have c: "has_user t user_id" "has_user t friend_id" "user_id \<noteq> friend_id" "0 \<le> status" "status \<le> 2"
    and t': "t' = t\<lparr>tb_friends := (if \<exists>f\<in>set (tb_friends t). ?same f then map ?f (tb_friends t)
      else tb_friends t @ [\<lparr>fd_user_id = user_id, fd_friend_id = friend_id, fd_status = status\<rparr>])\<rparr>"
    by (auto simp: upsert_friendship_def row_simps split: if_splits)
  have f: "fd_user_id (?f x) = fd_user_id x" "fd_friend_id (?f x) = fd_friend_id x" for x by simp_all
  have ok: "friends_ok t" using 1(2) by (simp add: tables_ok_def)
  then have st: "\<forall>x\<in>set (tb_friends t). 0 \<le> fd_status (?f x) \<and> fd_status (?f x) \<le> 2"
    using c by (simp add: friends_ok_def)
  have user: "has_user t' = has_user t" by (auto simp: t' has_user_def)
  have "friends_ok t'"
  proof (cases "\<exists>f\<in>set (tb_friends t). ?same f")
    case True
    then have sel: "tb_friends t' = map ?f (tb_friends t)" by (simp add: t')
    show ?thesis
      using ok st unfolding friends_ok_def user sel map_map comp_def f set_map ball_simps by blast
  next
    case False
    then have sel: "tb_friends t' =
        tb_friends t @ [\<lparr>fd_user_id = user_id, fd_friend_id = friend_id, fd_status = status\<rparr>]"
      by (simp add: t')
    show ?thesis using ok c False unfolding friends_ok_def user sel by auto
  qed
  then show ?case by (intro tables_ok_frame [OF 1(2)]) (simp_all add: t' has_user_def)
qed

interpretation delete_top8: write_statement "delete_top8 user_id" "\<lambda>_. True" for user_id
proof (unfold_locales, goal_cases)
  case (1 t v t')
  then have t': "t' = t\<lparr>tb_top8 := filter (\<lambda>r. tw_user_id r \<noteq> user_id) (tb_top8 t)\<rparr>"
    by (simp add: delete_top8_def)
  have "top8_ok t'"
    using 1(2) by (auto simp: tables_ok_def top8_ok_def t' has_user_def distinct_map_filter)
  then show ?case by (intro tables_ok_frame [OF 1(2)]) (simp_all add: t' has_user_def)
qed

interpretation insert_top8: write_statement "insert_top8 user_id entry" "\<lambda>_. True" for user_id entry
proof (unfold_locales, goal_cases)
  case (1 t v t')
  then have c: "has_user t user_id" "has_user t (te_friend_id entry)" "int (te_slot entry) \<le> 7"
    "\<forall>r\<in>set (tb_top8 t). \<not> (tw_user_id r = user_id \<and> tw_slot r = int (te_slot entry))"
    and t': "t' = t\<lparr>tb_top8 := tb_top8 t @
      [\<lparr>tw_user_id = user_id, tw_slot = int (te_slot entry), tw_friend_id = te_friend_id entry\<rparr>]\<rparr>"
    by (auto simp: insert_top8_def row_simps split: if_splits)
  have "top8_ok t'"
    using 1(2) c by (auto simp: tables_ok_def top8_ok_def t' has_user_def)
  then show ?case by (intro tables_ok_frame [OF 1(2)]) (simp_all add: t' has_user_def)
qed

interpretation insert_envelope: write_statement "insert_envelope_row recipient_id sender_pubkey ciphertext"
    "\<lambda>_. length ciphertext \<le> MAX_DM_CIPHERTEXT_SIZE" for recipient_id sender_pubkey ciphertext
proof (unfold_locales, goal_cases)
  case (1 t v t')
  then have c: "has_user t recipient_id" "length sender_pubkey = PUBLIC_KEY_SIZE"
    "\<not> tb_envelope_seq t + 1 > MAX_ROWID"
    and t': "t' = t\<lparr>tb_envelopes := tb_envelopes t @
      [\<lparr>en_id = tb_envelope_seq t + 1, en_recipient_id = recipient_id, en_sender_pubkey = sender_pubkey,
        en_ciphertext = ciphertext\<rparr>], tb_envelope_seq := tb_envelope_seq t + 1\<rparr>"
    by (auto simp: insert_envelope_row_def row_simps split: if_splits)
  have "envelopes_ok t'"
    using 1(1,2) c by (auto simp: tables_ok_def envelopes_ok_def t' has_user_def ids_ok_append)
  then show ?case by (intro tables_ok_frame [OF 1(2)]) (simp_all add: t' has_user_def)
qed

interpretation delete_envelope: write_statement "delete_envelope recipient_id ident" "\<lambda>_. True"
  for recipient_id ident
proof (unfold_locales, goal_cases)
  case (1 t v t')
  then have t': "t' = t\<lparr>tb_envelopes := filter (\<lambda>e. \<not> (en_id e = to_i64 ident \<and>
       en_recipient_id e = recipient_id)) (tb_envelopes t)\<rparr>"
    by (simp add: delete_envelope_def)
  have "envelopes_ok t'"
    using 1(2) by (auto simp: tables_ok_def envelopes_ok_def t' has_user_def ids_ok_filter)
  then show ?case by (intro tables_ok_frame [OF 1(2)]) (simp_all add: t' has_user_def)
qed

interpretation deactivate_motd: write_statement deactivate_motd "\<lambda>_. True"
proof (unfold_locales, goal_cases)
  case (1 t v t')
  then have t': "t' = t\<lparr>tb_motd := map (\<lambda>m. m\<lparr>mo_active := False\<rparr>) (tb_motd t)\<rparr>"
    by (simp add: deactivate_motd_def)
  have "motd_ok t'"
    using 1(2) by (auto simp: tables_ok_def motd_ok_def t' comp_def filter_map)
  then show ?case by (intro tables_ok_frame [OF 1(2)]) (simp_all add: t' has_user_def)
qed

interpretation insert_motd: write_statement "insert_motd body now" "\<lambda>_. text_ok MAX_MOTD_LENGTH body"
  for body now
proof (unfold_locales, goal_cases)
  case (1 t v t')
  then have c: "\<forall>m\<in>set (tb_motd t). \<not> mo_active m" "\<not> tb_motd_seq t + 1 > MAX_ROWID"
    and t': "t' = t\<lparr>tb_motd := tb_motd t @ [\<lparr>mo_id = tb_motd_seq t + 1, mo_body = body,
      mo_active = True, mo_created_at = now\<rparr>], tb_motd_seq := tb_motd_seq t + 1\<rparr>"
    by (auto simp: insert_motd_def row_simps split: if_splits)
  have "motd_ok t'"
    using 1(1,2) c by (auto simp: tables_ok_def motd_ok_def t' ids_ok_append filter_False)
  then show ?case by (intro tables_ok_frame [OF 1(2)]) (simp_all add: t' has_user_def)
qed

interpretation insert_report: write_statement
    "insert_report kind post_id target_pubkey reporter_id reason now" "\<lambda>_. True"
  for kind post_id target_pubkey reporter_id reason now
proof (unfold_locales, goal_cases)
  case (1 t v t')
  then have c: "has_user t reporter_id" "\<not> tb_report_seq t + 1 > MAX_ROWID"
    "post_id = None \<or> (\<exists>p\<in>set (tb_posts t). Some (po_id p) = post_id)"
    and t': "t' = t\<lparr>tb_reports := tb_reports t @
      [\<lparr>re_id = tb_report_seq t + 1, re_kind = kind, re_post_id = post_id,
        re_target_pubkey = target_pubkey, re_reporter_id = reporter_id, re_reason = reason,
        re_created_at = now\<rparr>], tb_report_seq := tb_report_seq t + 1\<rparr>"
    by (auto simp: insert_report_def row_simps split: if_splits)
  have "reports_ok t" using 1(2) by (simp add: tables_ok_def)
  then have "reports_ok t'"
    using c unfolding reports_ok_def by (intro conjI) (auto simp: t' has_user_def ids_ok_append)
  then show ?case by (intro tables_ok_frame [OF 1(2)]) (simp_all add: t' has_user_def)
qed

interpretation clear_report: write_statement
    "\<lambda>t. Some ((), t\<lparr>tb_reports := filter (\<lambda>e. re_id e \<noteq> i) (tb_reports t)\<rparr>)" "\<lambda>_. True" for i
proof (unfold_locales, goal_cases)
  case (1 t v t')
  then have t': "t' = t\<lparr>tb_reports := filter (\<lambda>e. re_id e \<noteq> i) (tb_reports t)\<rparr>" by simp
  have "reports_ok t'"
    using 1(2) by (auto simp: tables_ok_def reports_ok_def t' has_user_def ids_ok_filter)
  then show ?case by (intro tables_ok_frame [OF 1(2)]) (simp_all add: t' has_user_def)
qed

end
