(* ===== verification/Transactions.thy ===== *)
theory Transactions
  imports Integrity
begin

text \<open>
  Transactions: the database as it would be read after a crash, the abstract transaction that runs
  all effects or none, and the refinement of it by \<^verbatim>\<open>BEGIN IMMEDIATE\<close>, the statement loop and
  \<^verbatim>\<open>COMMIT\<close> or \<^verbatim>\<open>ROLLBACK\<close> under any failures. The three transactions of the repositories
  follow: the top 8, the acknowledgement of messages and the announcement.
\<close>

section \<open>Committed state and the abstract transaction\<close>

text \<open>What another connection sees: the tables before the transaction in progress.\<close>

definition committed :: "database \<Rightarrow> tables" where
  "committed d = (case db_saved d of None \<Rightarrow> db_tables d | Some t \<Rightarrow> t)"

primrec apply_all :: "(tables \<Rightarrow> (unit \<times> tables) option) list \<Rightarrow> tables \<Rightarrow> tables option" where
  "apply_all [] t = Some t"
| "apply_all (e # es) t = Option.bind (e t) (\<lambda>(_, t'). apply_all es t')"

lemma pop_fault_facts:
  assumes "pop_fault d = (b, d1)"
  shows "db_tables d1 = db_tables d" and "db_saved d1 = db_saved d"
    and "set (db_faults d1) \<subseteq> set (db_faults d)" and "b \<Longrightarrow> True \<in> set (db_faults d)"
  using assms by (auto simp: pop_fault_def split: list.splits)

lemma snd_pop_fault [simp]:
  "db_tables (snd (pop_fault d)) = db_tables d" "db_saved (snd (pop_fault d)) = db_saved d"
  by (auto simp: pop_fault_def split: list.splits)

lemma step_write_cases:
  assumes "step_write e d = (r, d')"
  shows "db_saved d' = db_saved d" and "set (db_faults d') \<subseteq> set (db_faults d)"
    and "r = Some v \<Longrightarrow> e (db_tables d) = Some (v, db_tables d')"
    and "r = None \<Longrightarrow> db_tables d' = db_tables d \<and> (True \<in> set (db_faults d) \<or> e (db_tables d) = None)"
proof -
  obtain b d1 where p: "pop_fault d = (b, d1)" by fastforce
  note q = pop_fault_facts [OF p]
  show "db_saved d' = db_saved d" "set (db_faults d') \<subseteq> set (db_faults d)"
    "r = Some v \<Longrightarrow> e (db_tables d) = Some (v, db_tables d')"
    "r = None \<Longrightarrow> db_tables d' = db_tables d \<and> (True \<in> set (db_faults d) \<or> e (db_tables d) = None)"
    using assms q by (auto simp: step_write_def p split: option.splits if_splits)
qed

lemma step_all_cases:
  assumes "step_all es d = (r, d')"
  shows "db_saved d' = db_saved d \<and> set (db_faults d') \<subseteq> set (db_faults d) \<and>
    (if r then apply_all es (db_tables d) = Some (db_tables d')
     else True \<in> set (db_faults d) \<or> apply_all es (db_tables d) = None)"
  using assms
proof (induction es arbitrary: d)
  case (Cons e es)
  obtain s d1 where p: "step_write e d = (s, d1)" by fastforce
  note q = step_write_cases [OF p]
  show ?case
  proof (cases s)
    case None
    then show ?thesis using Cons.prems q(1,2) q(4) by (auto simp: p)
  next
    case (Some v)
    then have "step_all es d1 = (r, d')" using Cons.prems by (simp add: p)
    from Cons.IH [OF this] show ?thesis
      using q(1,2) q(3) [OF Some] by (auto split: if_splits)
  qed
qed auto

text \<open>
  A transaction of a connection that has none open takes effect as a whole when it reports success;
  when it reports failure nothing of it is ever visible outside, and the cause is a failed step of
  the storage engine or a statement that cannot be applied.
\<close>

lemma in_transaction_refines:
  assumes "db_saved d = None" and "in_transaction es d = (r, d')"
  shows "if r then db_saved d' = None \<and> apply_all es (db_tables d) = Some (db_tables d')
    else committed d' = db_tables d \<and>
      (True \<in> set (db_faults d) \<or> apply_all es (db_tables d) = None)"
proof -
  obtain b d0 where p: "pop_fault d = (b, d0)" by fastforce
  note q = pop_fault_facts [OF p]
  show ?thesis
  proof (cases b)
    case True
    then show ?thesis
      using assms q by (auto simp: in_transaction_def begin_immediate_def p committed_def)
  next
    case False
    define d1 where "d1 = d0\<lparr>db_saved := Some (db_tables d0)\<rparr>"
    have b1: "begin_immediate d = (True, d1)"
      using False q assms(1) by (simp add: begin_immediate_def p d1_def)
    obtain s d2 where s: "step_all es d1 = (s, d2)" by fastforce
    obtain f d3 where f: "pop_fault d2 = (f, d3)" by fastforce
    have d1: "db_tables d1 = db_tables d" "db_saved d1 = Some (db_tables d)"
      "set (db_faults d1) \<subseteq> set (db_faults d)"
      using q by (simp_all add: d1_def)
    note s' = step_all_cases [OF s, unfolded d1] and f' = pop_fault_facts [OF f]
    have "(r, d') = (let (ended, d4) = end_transaction s d2 in (ended \<and> s, d4))"
      using assms(2) by (simp add: in_transaction_def b1 s split: prod.splits)
    then show ?thesis
      using s' f' d1(3) by (auto simp: end_transaction_def f committed_def split: if_splits)
  qed
qed

lemma step_all_keeps:
  assumes "\<forall>e\<in>set es. write_statement e (\<lambda>_. True)" and "database_ok d"
  shows "database_ok (snd (step_all es d))"
  using assms
proof (induction es arbitrary: d)
  case (Cons e es)
  have "database_ok (snd (step_write e d))"
    using Cons.prems write_statement.step_keeps [of e "\<lambda>_. True" d] by simp
  then show ?case using Cons by (auto split: prod.splits option.splits)
qed simp

lemma begin_immediate_keeps: "database_ok d \<Longrightarrow> database_ok (snd (begin_immediate d))"
  by (auto simp: begin_immediate_def pop_fault_def database_ok_def Let_def split: list.splits)

lemma end_transaction_keeps: "database_ok d \<Longrightarrow> database_ok (snd (end_transaction s d))"
  by (auto simp: end_transaction_def pop_fault_def database_ok_def Let_def
      split: list.splits option.splits)

lemma in_transaction_keeps:
  assumes "\<forall>e\<in>set es. write_statement e (\<lambda>_. True)" and "database_ok d"
  shows "database_ok (snd (in_transaction es d))"
proof -
  obtain b d1 where b: "begin_immediate d = (b, d1)" by fastforce
  then have "database_ok d1" using begin_immediate_keeps [OF assms(2)] by simp
  then have "database_ok (snd (end_transaction (fst (step_all es d1)) (snd (step_all es d1))))"
    using assms(1) by (intro end_transaction_keeps step_all_keeps)
  then show ?thesis
    using \<open>database_ok d1\<close> by (auto simp: in_transaction_def b split: prod.splits bool.splits)
qed

section \<open>Databases related by changes\<close>

text \<open>
  The tables moved by changes of a given kind, and a transaction left open saved tables that such
  changes lead to.
\<close>

definition changes :: "(tables \<Rightarrow> tables \<Rightarrow> bool) \<Rightarrow> database \<Rightarrow> database \<Rightarrow> bool" where
  "changes R d d' \<longleftrightarrow> R\<^sup>*\<^sup>* (db_tables d) (db_tables d') \<and>
     (\<forall>t. db_saved d' = Some t \<longrightarrow> db_saved d = Some t \<or> R\<^sup>*\<^sup>* (db_tables d) t)"

lemma changes_refl: "changes R d d"
  by (simp add: changes_def)

lemma changes_trans: "changes R d d1 \<Longrightarrow> changes R d1 d2 \<Longrightarrow> changes R d d2"
  unfolding changes_def by (meson rtranclp_trans)

lemma changes_same: "db_tables d' = db_tables d \<Longrightarrow> db_saved d' = db_saved d \<Longrightarrow> changes R d d'"
  by (simp add: changes_def)

lemma changes_keeps:
  assumes "\<And>t t'. R t t' \<Longrightarrow> tables_ok t \<Longrightarrow> tables_ok t'" and "changes R d d'" and "database_ok d"
  shows "database_ok d'"
proof -
  have "R\<^sup>*\<^sup>* t t' \<Longrightarrow> tables_ok t \<Longrightarrow> tables_ok t'" for t t'
    by (induction rule: rtranclp_induct) (auto intro: assms(1))
  then show ?thesis using assms(2,3) unfolding changes_def database_ok_def by blast
qed

lemma changes_respects:
  assumes "\<And>t. Q t t" and "\<And>t t1 t2. Q t t1 \<Longrightarrow> Q t1 t2 \<Longrightarrow> Q t t2" and "\<And>t t'. R t t' \<Longrightarrow> Q t t'"
    and "changes R d d'"
  shows "Q (db_tables d) (db_tables d')"
proof -
  have "R\<^sup>*\<^sup>* t t' \<Longrightarrow> Q t t'" for t t'
    by (induction rule: rtranclp_induct) (auto intro: assms(1-3))
  then show ?thesis using assms(4) unfolding changes_def by blast
qed

lemma step_write_changes:
  assumes "\<And>v t'. effect (db_tables d) = Some (v, t') \<Longrightarrow> R (db_tables d) t'"
  shows "changes R d (snd (step_write effect d))"
proof -
  obtain r d' where p: "step_write effect d = (r, d')" by fastforce
  show ?thesis
  proof (cases r)
    case None
    then show ?thesis using step_write_cases [OF p] p by (simp add: changes_same)
  next
    case (Some v)
    then show ?thesis
      using step_write_cases(1,3) [OF p] assms p by (auto simp: changes_def)
  qed
qed

lemma step_all_changes:
  assumes "\<And>e t v t'. e \<in> set es \<Longrightarrow> e t = Some (v, t') \<Longrightarrow> R t t'"
  shows "changes R d (snd (step_all es d))"
  using assms
proof (induction es arbitrary: d)
  case (Cons e es)
  obtain r d1 where p: "step_write e d = (r, d1)" by fastforce
  have "changes R d d1" using step_write_changes [of e d R] Cons.prems p by auto
  moreover have "changes R d1 (snd (step_all es d1))"
    by (rule Cons.IH) (use Cons.prems in auto)
  ultimately show ?case by (auto simp: p intro: changes_trans split: option.splits)
qed (simp add: changes_refl)

lemma in_transaction_changes:
  assumes "\<And>e t v t'. e \<in> set es \<Longrightarrow> e t = Some (v, t') \<Longrightarrow> R t t'"
  shows "changes R d (snd (in_transaction es d))"
proof -
  obtain b d1 where b: "begin_immediate d = (b, d1)" by fastforce
  then have d1: "db_tables d1 = db_tables d" "db_saved d1 = (if b then Some (db_tables d) else db_saved d)"
    by (auto simp: begin_immediate_def pop_fault_def Let_def split: list.splits if_splits)
  show ?thesis
  proof (cases b)
    case False
    then show ?thesis using d1 b by (simp add: in_transaction_def changes_same)
  next
    case True
    obtain r d2 where s: "step_all es d1 = (r, d2)" by fastforce
    obtain f d3 where f: "pop_fault d2 = (f, d3)" by fastforce
    have "changes R d1 d2" using step_all_changes [of es R d1] assms s by simp
    then have "R\<^sup>*\<^sup>* (db_tables d) (db_tables d2)" by (simp add: changes_def d1)
    moreover have "db_saved d2 = Some (db_tables d)" using step_all_cases [OF s] d1 True by simp
    ultimately show ?thesis
      using pop_fault_facts(1,2) [OF f] True
      by (auto simp: in_transaction_def b s end_transaction_def f changes_def)
  qed
qed

section \<open>The top 8\<close>

definition top8_of :: "tables \<Rightarrow> int \<Rightarrow> (int \<times> int) list" where
  "top8_of t user_id =
     map (\<lambda>r. (tw_slot r, tw_friend_id r)) (filter (\<lambda>r. tw_user_id r = user_id) (tb_top8 t))"

lemma apply_insert_top8:
  "apply_all (map (insert_top8 user_id) entries) t = Some t' \<Longrightarrow>
   t' = t\<lparr>tb_top8 := tb_top8 t @ map (\<lambda>e. \<lparr>tw_user_id = user_id, tw_slot = int (te_slot e),
     tw_friend_id = te_friend_id e\<rparr>) entries\<rparr>"
proof (induction entries arbitrary: t)
  case (Cons e es)
  then obtain t1 where "insert_top8 user_id e t = Some ((), t1)"
    and 2: "apply_all (map (insert_top8 user_id) es) t1 = Some t'"
    by (auto simp: bind_eq_Some_conv)
  then have "t1 = t\<lparr>tb_top8 := tb_top8 t @ [\<lparr>tw_user_id = user_id, tw_slot = int (te_slot e),
      tw_friend_id = te_friend_id e\<rparr>]\<rparr>"
    by (auto simp: insert_top8_def Let_def split: if_splits)
  then show ?case using Cons.IH [OF 2] by simp
qed simp

text \<open>
  C31. Replacing a top 8 is atomic. When \<^verbatim>\<open>replace_slots\<close> reports success, the user's slots are
  exactly the given entries in their order, every other user's slots and every other table are
  unchanged and no transaction is left open; when it reports failure, at whatever step the storage
  engine failed, the committed tables are the old ones.
\<close>

theorem replace_slots_atomic:
  assumes "db_saved d = None"
  shows "case replace_slots user_id entries d of
      (True, d') \<Rightarrow> db_saved d' = None \<and>
        top8_of (db_tables d') user_id = map (\<lambda>e. (int (te_slot e), te_friend_id e)) entries \<and>
        filter (\<lambda>r. tw_user_id r \<noteq> user_id) (tb_top8 (db_tables d')) =
          filter (\<lambda>r. tw_user_id r \<noteq> user_id) (tb_top8 (db_tables d)) \<and>
        db_tables d' = (db_tables d)\<lparr>tb_top8 := tb_top8 (db_tables d')\<rparr>
    | (False, d') \<Rightarrow> committed d' = db_tables d"
proof -
  obtain r d' where p: "replace_slots user_id entries d = (r, d')" by fastforce
  note q = in_transaction_refines [OF assms p [unfolded replace_slots_def]]
  show ?thesis
  proof (cases r)
    case True
    let ?t = "(db_tables d)\<lparr>tb_top8 := filter (\<lambda>r. tw_user_id r \<noteq> user_id) (tb_top8 (db_tables d))\<rparr>"
    have "apply_all (map (insert_top8 user_id) entries) ?t = Some (db_tables d')"
      using q True by (simp add: delete_top8_def)
    from apply_insert_top8 [OF this] show ?thesis
      using q True by (simp add: p top8_of_def comp_def)
  qed (use q p in simp)
qed

theorem replace_slots_atomic_witness:
  "\<exists>d d'. db_saved d = None \<and> replace_slots 1 [\<lparr>te_slot = 3, te_friend_id = 2\<rparr>] d = (True, d') \<and>
     top8_of (db_tables d') 1 = [(3, 2)]"
proof -
  let ?u = "\<lambda>i. \<lparr>ur_id = i, ur_pubkey = replicate 32 (word_of_int i), ur_handle = [], ur_banned = False\<rparr>"
  let ?d = "\<lparr>db_tables = empty_tables\<lparr>tb_users := [?u 1, ?u 2],
    tb_top8 := [\<lparr>tw_user_id = 1, tw_slot = 0, tw_friend_id = 1\<rparr>]\<rparr>, db_saved = None, db_faults = []\<rparr>"
  obtain r d' where p: "replace_slots 1 [\<lparr>te_slot = 3, te_friend_id = 2\<rparr>] ?d = (r, d')" by fastforce
  then have "r = True"
    by (simp add: replace_slots_def in_transaction_def begin_immediate_def pop_fault_def step_write_def
        delete_top8_def insert_top8_def user_by_id_def end_transaction_def Let_def split: if_splits)
  then have "top8_of (db_tables d') 1 = [(3, 2)]"
    using replace_slots_atomic [of ?d 1 "[\<lparr>te_slot = 3, te_friend_id = 2\<rparr>]"] unfolding p by simp
  then show ?thesis using p \<open>r = True\<close> by (intro exI [of _ ?d] exI [of _ d']) simp
qed

section \<open>Acknowledged messages\<close>

lemma apply_delete_envelopes:
  "apply_all (map (delete_envelope recipient_id) ids) t =
   Some (t\<lparr>tb_envelopes := filter (\<lambda>e. \<not> (en_recipient_id e = recipient_id \<and>
     en_id e \<in> to_i64 ` set ids)) (tb_envelopes t)\<rparr>)"
proof (induction ids arbitrary: t)
  case (Cons i ids)
  let ?t1 = "t\<lparr>tb_envelopes := filter (\<lambda>e. \<not> (en_id e = to_i64 i \<and> en_recipient_id e = recipient_id))
    (tb_envelopes t)\<rparr>"
  have "apply_all (map (delete_envelope recipient_id) (i # ids)) t =
      apply_all (map (delete_envelope recipient_id) ids) ?t1"
    by (simp add: delete_envelope_def [of recipient_id i t])
  also have "\<dots> = Some (t\<lparr>tb_envelopes := filter (\<lambda>e. \<not> (en_recipient_id e = recipient_id \<and>
      en_id e \<in> to_i64 ` set (i # ids))) (tb_envelopes t)\<rparr>)"
  proof -
    have "filter (\<lambda>e. \<not> (en_recipient_id e = recipient_id \<and> en_id e \<in> to_i64 ` set ids)) (tb_envelopes ?t1) =
      filter (\<lambda>e. \<not> (en_recipient_id e = recipient_id \<and> en_id e \<in> to_i64 ` set (i # ids))) (tb_envelopes t)"
      by (auto intro: filter_cong)
    then show ?thesis unfolding Cons.IH by simp
  qed
  finally show ?case .
qed simp

text \<open>
  Acknowledging messages deletes exactly the acknowledged messages of the caller: on success
  the envelopes left are those of other recipients and those whose identifier was not listed, in
  order, and nothing else changes; on failure no envelope is lost. Without a failing step it
  succeeds.
\<close>

theorem delete_acknowledged_exact:
  assumes "db_saved d = None"
  shows "case delete_acknowledged recipient_id ids d of
      (True, d') \<Rightarrow> db_saved d' = None \<and>
        db_tables d' = (db_tables d)\<lparr>tb_envelopes := filter (\<lambda>e. \<not> (en_recipient_id e = recipient_id \<and>
          en_id e \<in> to_i64 ` set ids)) (tb_envelopes (db_tables d))\<rparr>
    | (False, d') \<Rightarrow> committed d' = db_tables d \<and> True \<in> set (db_faults d)"
proof -
  obtain r d' where p: "delete_acknowledged recipient_id ids d = (r, d')" by fastforce
  from in_transaction_refines [OF assms p [unfolded delete_acknowledged_def]] show ?thesis
    by (cases r) (simp_all add: p apply_delete_envelopes)
qed

theorem delete_acknowledged_exact_witness:
  "case delete_acknowledged 1 [5, 7] \<lparr>db_tables = empty_tables\<lparr>tb_envelopes :=
       [\<lparr>en_id = 5, en_recipient_id = 2, en_sender_pubkey = [], en_ciphertext = [1]\<rparr>,
        \<lparr>en_id = 7, en_recipient_id = 1, en_sender_pubkey = [], en_ciphertext = [2]\<rparr>]\<rparr>,
     db_saved = None, db_faults = [False]\<rparr> of
     (True, d') \<Rightarrow> map en_id (tb_envelopes (db_tables d')) = [5]
   | (False, d') \<Rightarrow> False"
  using delete_acknowledged_exact [of "\<lparr>db_tables = empty_tables\<lparr>tb_envelopes :=
       [\<lparr>en_id = 5, en_recipient_id = 2, en_sender_pubkey = [], en_ciphertext = [1]\<rparr>,
        \<lparr>en_id = 7, en_recipient_id = 1, en_sender_pubkey = [], en_ciphertext = [2]\<rparr>]\<rparr>,
     db_saved = None, db_faults = [False]\<rparr>" 1 "[5, 7]"]
  by (simp add: to_i64_def split: prod.splits bool.splits)

section \<open>The announcement\<close>

text \<open>
  Publishing an announcement: on success exactly one announcement is active, it is the new
  one with the body as given and the next revision, and a reader finds it; on failure the committed
  announcement is the old one. Failure needs a failing step or an exhausted revision counter.
\<close>

theorem publish_motd_correct:
  assumes "db_saved d = None"
  shows "case publish_motd body now d of
      (True, d') \<Rightarrow> db_saved d' = None \<and>
        filter mo_active (tb_motd (db_tables d')) = [\<lparr>mo_id = tb_motd_seq (db_tables d) + 1,
          mo_body = body, mo_active = True, mo_created_at = to_i64 now\<rparr>] \<and>
        fst (find_active_motd (d'\<lparr>db_faults := []\<rparr>)) =
          Some \<lparr>mp_revision = to_u64 (tb_motd_seq (db_tables d) + 1), mp_body = body\<rparr>
    | (False, d') \<Rightarrow> committed d' = db_tables d \<and>
        (True \<in> set (db_faults d) \<or> tb_motd_seq (db_tables d) \<ge> MAX_ROWID)"
proof -
  obtain r d' where p: "publish_motd body now d = (r, d')" by fastforce
  have none: "find mo_active (map (mo_active_update (\<lambda>_. False)) ms) = None" for ms
    by (simp add: find_None_iff)
  have app: "find P (xs @ [x]) = (if find P xs = None \<and> P x then Some x else find P xs)"
    for P and xs :: "motd_row list" and x by (induction xs) auto
  from in_transaction_refines [OF assms p [unfolded publish_motd_def]] show ?thesis
    by (cases r) (auto simp: p deactivate_motd_def insert_motd_def list_ex_iff filter_False none app
        find_active_motd_def step_read_def pop_fault_def Let_def dest!: sym [of _ "db_tables d'"] split: if_splits)
qed

theorem publish_motd_correct_witness:
  "case publish_motd [72, 105] 9 \<lparr>db_tables = empty_tables, db_saved = None, db_faults = []\<rparr> of
     (True, d') \<Rightarrow> map mo_body (filter mo_active (tb_motd (db_tables d'))) = [[72, 105]]
   | (False, d') \<Rightarrow> False"
  using publish_motd_correct [of "\<lparr>db_tables = empty_tables, db_saved = None, db_faults = []\<rparr>" "[72, 105]" 9]
  by (simp add: empty_tables_def MAX_ROWID_def split: prod.splits bool.splits)

end
