(* ===== verification/Listings.thy ===== *)
theory Listings
  imports Transactions
begin

text \<open>
  What the reading operations of the repositories return: the loops over rows on a storage engine
  that does not fail, the thread of a post in the order its replies can be drawn, and the pages of
  private messages.
\<close>

section \<open>Row loops without failures\<close>

definition no_faults :: "database \<Rightarrow> bool" where
  "no_faults d \<longleftrightarrow> True \<notin> set (db_faults d)"

lemma pop_no_faults: "no_faults d \<Longrightarrow> \<exists>d1. pop_fault d = (False, d1) \<and> no_faults d1"
  by (auto simp: pop_fault_def no_faults_def split: list.splits)

lemma fetch_rows_upto_no_faults:
  "no_faults d \<Longrightarrow> \<forall>r\<in>set rows. rd r \<noteq> None \<Longrightarrow>
   fst (fetch_rows_upto k rd rows d) = Some (map (the \<circ> rd) (take k rows), k < length rows)"
proof (induction rows arbitrary: k d)
  case (Cons r rows)
  obtain d1 where d1: "pop_fault d = (False, d1)" "no_faults d1"
    using pop_no_faults [OF Cons.prems(1)] by blast
  obtain a where a: "rd r = Some a" using Cons.prems(2) by auto
  show ?case
    using Cons.IH [OF d1(2), of "k - 1"] Cons.prems(2)
    by (cases k) (auto simp: d1 a split: prod.splits)
qed simp

lemma fetch_rows_no_faults:
  "no_faults d \<Longrightarrow> \<forall>r\<in>set rows. rd r \<noteq> None \<Longrightarrow>
   fst (fetch_rows rd rows d) = Some (map (the \<circ> rd) rows)"
proof (induction rows arbitrary: d)
  case (Cons r rows)
  obtain d1 where d1: "pop_fault d = (False, d1)" "no_faults d1"
    using pop_no_faults [OF Cons.prems(1)] by blast
  obtain a where a: "rd r = Some a" using Cons.prems(2) by auto
  show ?case
    using Cons.IH [OF d1(2)] Cons.prems(2) by (auto simp: d1 a split: prod.splits)
qed simp

text \<open>The query asks for one row more than the loop takes, which tells it whether there are more.\<close>

lemma fetch_limited:
  assumes "no_faults d" and "\<And>r. r \<in> set rows \<Longrightarrow> rd (f r) \<noteq> None"
  shows "fst (fetch_rows_upto k rd (take (k + 1) (map f rows)) d) =
    Some (map (\<lambda>r. the (rd (f r))) (take k rows), k < length rows)"
proof -
  have "\<forall>r\<in>set (take (k + 1) (map f rows)). rd r \<noteq> None"
    using assms(2) by (fastforce simp: take_map dest: in_set_takeD)
  from fetch_rows_upto_no_faults [OF assms(1) this, of k] show ?thesis
    by (simp add: comp_def take_map min_def)
qed

lemma list_all2_map_take:
  "(\<And>r. r \<in> set rows \<Longrightarrow> P r (g r)) \<Longrightarrow> list_all2 P (take k rows) (map g (take k rows))"
  by (auto simp: list_all2_map2 dest: in_set_takeD intro!: list.rel_refl_strong)

text \<open>A join with the users on a key that refers to a user keeps every row.\<close>

lemma joined_with_all:
  "\<forall>r\<in>set rows. has_user t (key r) \<Longrightarrow>
   joined_with key t rows = map (\<lambda>r. (r, the (user_by_id t (key r)))) rows"
proof (induction rows)
  case (Cons r rows)
  then obtain u where "user_by_id t (key r) = Some u"
    using user_by_id_None [of t "key r"] by auto
  then show ?case using Cons by (simp add: joined_with_def List.map_filter_simps)
qed (simp add: joined_with_def List.map_filter_simps)

lemma user_key_ok:
  assumes "users_ok t" and "has_user t i"
  shows "key_column_ok (ur_pubkey (the (user_by_id t i)))"
proof -
  obtain u where "user_by_id t i = Some u" using assms(2) user_by_id_None [of t i] by auto
  then show ?thesis
    using user_by_id_Some [of t i u] assms(1) by (auto simp: key_column_ok_def users_ok_def)
qed

section \<open>The thread of a post\<close>

text \<open>The thread as a relation: roots, and replies to comments of the thread.\<close>

inductive in_thread :: "tables \<Rightarrow> int \<Rightarrow> comment_row \<Rightarrow> nat \<Rightarrow> bytes \<Rightarrow> bool" for t post_id where
  root: "c \<in> set (tb_comments t) \<Longrightarrow> co_post_id c = post_id \<Longrightarrow> co_parent_comment_id c = None \<Longrightarrow>
    in_thread t post_id c 0 (padded_id (co_id c))"
| reply: "in_thread t post_id p depth path \<Longrightarrow> c \<in> set (tb_comments t) \<Longrightarrow>
    co_parent_comment_id c = Some (co_id p) \<Longrightarrow>
    in_thread t post_id c (Suc depth) (path @ ascii ''/'' @ padded_id (co_id c))"

inductive_cases in_thread_0: "in_thread t post_id c 0 path"
inductive_cases in_thread_Suc: "in_thread t post_id c (Suc depth) path"

definition next_level :: "tables \<Rightarrow> (comment_row \<times> nat \<times> bytes) list \<Rightarrow> (comment_row \<times> nat \<times> bytes) list" where
  "next_level t level = concat (map (thread_replies t) level)"

lemma set_thread_levels:
  "set (thread_levels n t level) = (\<Union>j\<le>n. set ((next_level t ^^ j) level))"
proof (induction n arbitrary: level)
  case (Suc n)
  have "set (thread_levels (Suc n) t level) =
      set level \<union> (\<Union>j\<le>n. set ((next_level t ^^ Suc j) level))"
    by (simp add: Suc next_level_def [symmetric] funpow_swap1)
  also have "\<dots> = (\<Union>j\<le>Suc n. set ((next_level t ^^ j) level))"
    unfolding atMost_Suc_eq_insert_0 by auto
  finally show ?case .
qed simp

lemma set_levels:
  "j \<le> MAX_COMMENT_DEPTH \<Longrightarrow>
   set ((next_level t ^^ j) (thread_roots t post_id)) = {(c, d, p). d = j \<and> in_thread t post_id c d p}"
proof (induction j)
  case 0
  show ?case by (auto simp: thread_roots_def elim: in_thread_0 intro: in_thread.root)
next
  case (Suc j)
  then have IH: "set ((next_level t ^^ j) (thread_roots t post_id)) =
    {(c, d, p). d = j \<and> in_thread t post_id c d p}" by simp
  have "set (next_level t level) = {(c, Suc d, p @ ascii ''/'' @ padded_id (co_id c)) | c d p q.
      (q, d, p) \<in> set level \<and> d < MAX_COMMENT_DEPTH \<and> c \<in> set (tb_comments t) \<and>
      co_parent_comment_id c = Some (co_id q)}" for level
    by (fastforce simp: next_level_def thread_replies_def split: if_splits)
  then show ?case
    using Suc.prems by (auto simp: IH elim!: in_thread_Suc intro: in_thread.reply)
qed

lemma set_thread_rows:
  "set (thread_rows t post_id) = {(c, d, p). d \<le> MAX_COMMENT_DEPTH \<and> in_thread t post_id c d p}"
  by (auto simp: thread_rows_def set_thread_levels set_levels)

text \<open>A comment has one depth and one path, since identifiers are unique.\<close>

lemma comment_by_id:
  "comments_ok t \<Longrightarrow> c \<in> set (tb_comments t) \<Longrightarrow> c' \<in> set (tb_comments t) \<Longrightarrow> co_id c = co_id c' \<Longrightarrow> c = c'"
  unfolding comments_ok_def ids_ok_def
  by (metis (no_types, lifting) distinct_map strict_sorted_iff inj_onD)

lemma in_thread_comment: "in_thread t post_id c d p \<Longrightarrow> c \<in> set (tb_comments t)"
  by (cases rule: in_thread.cases) auto

lemma in_thread_post: "in_thread t post_id c d p \<Longrightarrow> comments_ok t \<Longrightarrow> co_post_id c = post_id"
proof (induction rule: in_thread.induct)
  case (reply p depth path c)
  then obtain c' where "c' \<in> set (tb_comments t)" "co_id c' = co_id p" "co_post_id c' = co_post_id c"
    unfolding comments_ok_def by blast
  then show ?case
    using reply comment_by_id [of t c' p] in_thread_comment [OF reply(1)] by auto
qed

lemma in_thread_unique:
  "in_thread t post_id c d p \<Longrightarrow> comments_ok t \<Longrightarrow> in_thread t post_id c d' p' \<Longrightarrow> d' = d \<and> p' = p"
proof (induction arbitrary: d' p' rule: in_thread.induct)
  case (root c)
  from root(5) root(3) show ?case by (cases rule: in_thread.cases) auto
next
  case (reply q depth path c)
  from reply(6) show ?case
  proof (cases rule: in_thread.cases)
    case root
    then show ?thesis using reply(3) by simp
  next
    case inner: (reply q' depth' path')
    have "q' = q"
      using comment_by_id [OF reply(5) in_thread_comment [OF inner(3)] in_thread_comment [OF reply(1)]]
        reply(3) inner(5) by simp
    then show ?thesis using inner(1,2) reply(4) [OF reply(5), of depth' path'] inner(3) by simp
  qed
qed

lemma distinct_concat_map:
  "distinct xs \<Longrightarrow> (\<And>x. x \<in> set xs \<Longrightarrow> distinct (f x)) \<Longrightarrow>
   (\<And>x y. x \<in> set xs \<Longrightarrow> y \<in> set xs \<Longrightarrow> x \<noteq> y \<Longrightarrow> set (f x) \<inter> set (f y) = {}) \<Longrightarrow>
   distinct (concat (map f xs))"
  by (induction xs) fastforce+

lemma distinct_comments: "comments_ok t \<Longrightarrow> distinct (tb_comments t)"
  unfolding comments_ok_def ids_ok_def by (auto simp: strict_sorted_iff distinct_map)

lemma distinct_level:
  assumes ok: "comments_ok t" and "j \<le> MAX_COMMENT_DEPTH"
  shows "distinct ((next_level t ^^ j) (thread_roots t post_id))"
  using assms(2)
proof (induction j)
  case 0
  show ?case
    using distinct_comments [OF ok] by (simp add: thread_roots_def distinct_map inj_on_def)
next
  case (Suc j)
  let ?level = "(next_level t ^^ j) (thread_roots t post_id)"
  have dist: "distinct (thread_replies t row)" for row
    using distinct_comments [OF ok]
    by (auto simp: thread_replies_def distinct_map inj_on_def split: prod.splits)
  have "set (thread_replies t row) \<inter> set (thread_replies t row') = {}"
    if "row \<in> set ?level" "row' \<in> set ?level" "row \<noteq> row'" for row row'
  proof -
    obtain q d p q' d' p' where r: "row = (q, d, p)" "row' = (q', d', p')" by (metis prod_cases3)
    then have "in_thread t post_id q d p" "in_thread t post_id q' d' p'"
      using that Suc.prems by (auto simp: set_levels)
    then have "co_id q \<noteq> co_id q'"
      using that(3) r in_thread_unique [OF _ ok] comment_by_id [OF ok] in_thread_comment by blast
    then show ?thesis by (auto simp: r thread_replies_def split: if_splits)
  qed
  moreover have "distinct ?level" using Suc by simp
  ultimately show ?case
    using dist by (simp add: next_level_def [of t ?level] distinct_concat_map)
qed

lemma distinct_thread_rows:
  assumes "comments_ok t"
  shows "distinct (map fst (thread_rows t post_id))"
proof -
  have "n + m \<le> MAX_COMMENT_DEPTH \<Longrightarrow>
      distinct (thread_levels n t ((next_level t ^^ m) (thread_roots t post_id)))" for n m
  proof (induction n arbitrary: m)
    case (Suc n)
    let ?l = "\<lambda>m. (next_level t ^^ m) (thread_roots t post_id)"
    have "set (?l m) \<inter> set (thread_levels n t (?l (Suc m))) = {}"
    proof -
      have "(next_level t ^^ k) (?l (Suc m)) = ?l (k + Suc m)" for k by (simp only: funpow_add comp_def)
      then have "set (thread_levels n t (?l (Suc m))) = (\<Union>k\<le>n. set (?l (k + Suc m)))"
        by (simp only: set_thread_levels)
      also have "\<dots> = (\<Union>k\<le>n. {(c, d, p). d = k + Suc m \<and> in_thread t post_id c d p})"
        using Suc.prems by (intro SUP_cong refl set_levels) simp
      finally show ?thesis using Suc.prems set_levels [of m t post_id] by auto
    qed
    then show ?case
      using Suc.IH [of "Suc m"] Suc.prems distinct_level [OF assms, of m]
      by (simp add: next_level_def [symmetric])
  qed (simp add: distinct_level assms)
  from this [of MAX_COMMENT_DEPTH 0] have "distinct (thread_rows t post_id)"
    by (simp add: thread_rows_def)
  moreover have "inj_on fst (set (thread_rows t post_id))"
    using in_thread_unique [OF _ assms] by (fastforce simp: inj_on_def set_thread_rows)
  ultimately show ?thesis by (simp add: distinct_map)
qed

text \<open>The path of a reply extends the path of its parent, so the parent is listed before.\<close>

lemma extended_path_less: "(path :: bytes) < path @ ascii ''/'' @ rest"
  by (simp add: list_less_def lexord_append_rightI ascii_def)

lemma thread_parent_before:
  assumes j: "j < length (thread_rows t post_id)" "thread_rows t post_id ! j = (c, depth, path)"
    and parent: "co_parent_comment_id c = Some q"
  shows "\<exists>i c' depth' path'. i < j \<and> thread_rows t post_id ! i = (c', depth', path') \<and> co_id c' = q \<and>
    depth = Suc depth'"
proof -
  let ?rows = "thread_rows t post_id"
  have "(c, depth, path) \<in> set ?rows" using j by (metis nth_mem)
  then have th: "in_thread t post_id c depth path" "depth \<le> MAX_COMMENT_DEPTH"
    by (auto simp: set_thread_rows)
  from th(1) parent obtain c' d' p' where p: "in_thread t post_id c' d' p'" "co_id c' = q"
    "depth = Suc d'" "path = p' @ ascii ''/'' @ padded_id (co_id c)"
    by (cases rule: in_thread.cases) auto
  then have "(c', d', p') \<in> set ?rows" using th(2) by (simp add: set_thread_rows)
  then obtain i where i: "i < length ?rows" "?rows ! i = (c', d', p')" by (auto simp: in_set_conv_nth)
  have "sorted (map (\<lambda>(_, _, path). path) ?rows)" by (simp add: thread_rows_def)
  then have "i < j"
    using i j p(4) extended_path_less [of p' "padded_id (co_id c)"]
    by (metis (mono_tags, lifting) linorder_not_less nth_map sorted_nth_mono length_map case_prod_conv)
  then show ?thesis using i p by blast
qed

text \<open>What a listed record shows of its row.\<close>

definition shows_comment :: "tables \<Rightarrow> comment_row \<times> nat \<Rightarrow> comment_record \<Rightarrow> bool" where
  "shows_comment t = (\<lambda>(c, depth) r. cr_id r = to_u64 (co_id c) \<and> cr_post_id r = to_u64 (co_post_id c) \<and>
     cr_parent_comment_id r = to_u64 (case co_parent_comment_id c of None \<Rightarrow> 0 | Some p \<Rightarrow> p) \<and>
     cr_body r = co_body c \<and> cr_created_at r = to_u64 (co_created_at c) \<and> unat (cr_depth r) = depth \<and>
     (\<exists>u\<in>set (tb_users t). ur_id u = co_author_id c \<and> cr_author_pubkey r = ur_pubkey u \<and>
        cr_author_handle r = ur_handle u))"

definition reply_after_parent :: "(comment_row \<times> nat) list \<Rightarrow> bool" where
  "reply_after_parent rows \<longleftrightarrow> (\<forall>j<length rows. case co_parent_comment_id (fst (rows ! j)) of
     None \<Rightarrow> snd (rows ! j) = 0
   | Some p \<Rightarrow> \<exists>i<j. co_id (fst (rows ! i)) = p \<and> snd (rows ! j) = Suc (snd (rows ! i)))"

lemma thread_reply_after_parent:
  "reply_after_parent (map (\<lambda>(c, depth, _). (c, depth)) (thread_rows t post_id))"
  unfolding reply_after_parent_def
proof (intro allI impI)
  let ?rows = "thread_rows t post_id"
  let ?m = "map (\<lambda>(c, depth, _). (c, depth)) ?rows"
  fix j assume "j < length ?m"
  then have j: "j < length ?rows" by simp
  obtain c depth path where r: "?rows ! j = (c, depth, path)" by (metis prod_cases3)
  then have "in_thread t post_id c depth path"
    using j by (metis (mono_tags, lifting) nth_mem set_thread_rows mem_Collect_eq case_prod_conv)
  then have "co_parent_comment_id c = None \<Longrightarrow> depth = 0" by (cases rule: in_thread.cases) auto
  then show "case co_parent_comment_id (fst (?m ! j)) of None \<Rightarrow> snd (?m ! j) = 0
    | Some p \<Rightarrow> \<exists>i<j. co_id (fst (?m ! i)) = p \<and> snd (?m ! j) = Suc (snd (?m ! i))"
    using thread_parent_before [OF j r] j
    by (fastforce simp: r split: option.splits)
qed

lemma read_comment_shows:
  assumes "users_ok t" and "has_user t (co_author_id c)" and "depth \<le> MAX_COMMENT_DEPTH"
  defines "u \<equiv> the (user_by_id t (co_author_id c))"
  shows "\<exists>r. read_comment_record ((c, depth), u) = Some r \<and> shows_comment t (c, depth) r"
proof -
  have "user_by_id t (co_author_id c) = Some u"
    using assms(2) user_by_id_None [of t "co_author_id c"] by (auto simp: u_def)
  then have "u \<in> set (tb_users t)" "ur_id u = co_author_id c" using user_by_id_Some by blast+
  moreover have "depth < 2 ^ 16" using assms(3) by (simp add: MAX_COMMENT_DEPTH_def)
  moreover have "key_column_ok (ur_pubkey u)" using user_key_ok [OF assms(1,2)] by (simp add: u_def)
  ultimately show ?thesis
    by (auto simp: read_comment_record_def shows_comment_def unat_of_nat)
qed

text \<open>
  C32. The thread of a post, on sound tables and a storage engine that does not fail, is a tree
  listing: the rows are the comments whose chain of ancestors reaches a root of the post in at most
  24 steps, each exactly once and with the length of its chain as depth; every reply comes after its
  parent and one level below it, so the listing can be drawn as it arrives, also when it is cut
  off; the records are the first \<^verbatim>\<open>limit\<close> rows and the flag is set exactly when rows were left
  out.
\<close>

theorem list_thread_correct:
  assumes "tables_ok (db_tables d)" and "no_faults d"
  shows "\<exists>rows records. fst (list_thread post_id limit d) = Some (records, unat limit < length rows) \<and>
    list_all2 (shows_comment (db_tables d)) (take (unat limit) rows) records \<and>
    distinct (map fst rows) \<and> reply_after_parent rows \<and>
    set rows = {(c, depth). depth \<le> MAX_COMMENT_DEPTH \<and> (\<exists>path. in_thread (db_tables d) post_id c depth path)}"
proof -
  let ?t = "db_tables d"
  let ?rows = "map (\<lambda>(c, depth, _). (c, depth)) (thread_rows ?t post_id)"
  let ?u = "\<lambda>r. the (user_by_id ?t (co_author_id (fst r)))"
  have ok: "users_ok ?t" "comments_ok ?t" using assms(1) by (simp_all add: tables_ok_def)
  have row: "has_user ?t (co_author_id c) \<and> depth \<le> MAX_COMMENT_DEPTH" if "(c, depth) \<in> set ?rows" for c depth
    using that ok(2) in_thread_comment by (fastforce simp: set_thread_rows comments_ok_def)
  then have rd: "\<exists>r'. read_comment_record (r, ?u r) = Some r' \<and> shows_comment ?t r r'" if "r \<in> set ?rows" for r
    using that read_comment_shows [OF ok(1)] by (cases r) auto
  have join: "joined_with (co_author_id \<circ> fst) ?t ?rows = map (\<lambda>r. (r, ?u r)) ?rows"
  proof (rule joined_with_all [where key = "co_author_id \<circ> fst", unfolded comp_def, folded comp_def [of co_author_id fst]])
    show "\<forall>r\<in>set ?rows. has_user ?t (co_author_id (fst r))" using row by fastforce
  qed
  have "fst (list_thread post_id limit d) =
      Some (map (\<lambda>r. the (read_comment_record (r, ?u r))) (take (unat limit) ?rows), unat limit < length ?rows)"
    unfolding list_thread_def Let_def join
    by (rule fetch_limited [OF assms(2)]) (use rd in fastforce)
  moreover have "list_all2 (shows_comment ?t) (take (unat limit) ?rows)
      (map (\<lambda>r. the (read_comment_record (r, ?u r))) (take (unat limit) ?rows))"
    by (rule list_all2_map_take) (use rd in fastforce)
  moreover have "distinct (map fst ?rows)"
    using distinct_thread_rows [OF ok(2), of post_id] by (simp add: comp_def case_prod_beta)
  moreover have "set ?rows = {(c, depth). depth \<le> MAX_COMMENT_DEPTH \<and> (\<exists>path. in_thread ?t post_id c depth path)}"
    by (force simp: set_thread_rows)
  ultimately show ?thesis using thread_reply_after_parent by blast
qed

theorem list_thread_correct_witness:
  "\<exists>d rows records. tables_ok (db_tables d) \<and> fst (list_thread 1 10 d) = Some (records, False) \<and>
    rows \<noteq> [] \<and> list_all2 (shows_comment (db_tables d)) rows records"
proof -
  define k :: bytes where "k = replicate 32 7"
  define u where "u = \<lparr>ur_id = 1, ur_pubkey = k, ur_handle = [], ur_banned = False\<rparr>"
  define c where "c = \<lparr>co_id = 1, co_post_id = 1, co_parent_comment_id = None, co_author_id = 1,
    co_body = [], co_created_at = 5, co_deleted_at = None\<rparr>"
  define t where "t = empty_tables\<lparr>tb_users := [u], tb_user_seq := 1, tb_forums :=
    [\<lparr>fo_id = 1, fo_name = [], fo_founder_id = 1, fo_description = [], fo_theme_json = [], fo_created_at = 1\<rparr>],
    tb_forum_seq := 1, tb_posts := [\<lparr>po_id = 1, po_forum_id = 1, po_author_id = 1, po_title = [],
      po_body = [], po_created_at = 2, po_deleted_at = None\<rparr>], tb_post_seq := 1,
    tb_comments := [c], tb_comment_seq := 1\<rparr>"
  let ?d = "\<lparr>db_tables = t, db_saved = None, db_faults = []\<rparr>"
  have ok: "tables_ok t"
    by (simp add: tables_ok_def tables_ok_defs t_def u_def c_def k_def empty_tables_def ids_ok_def
        MAX_ROWID_def has_user_def)
  obtain rows records where r: "fst (list_thread 1 10 ?d) = Some (records, 10 < length rows)"
    "list_all2 (shows_comment t) (take 10 rows) records" "distinct (map fst rows)"
    "set rows = {(c, depth). depth \<le> MAX_COMMENT_DEPTH \<and> (\<exists>path. in_thread t 1 c depth path)}"
    using list_thread_correct [of ?d 1 10] ok by (auto simp: no_faults_def)
  have "set (map fst rows) \<subseteq> {c}"
    using r(4) in_thread_comment [of t 1] by (auto simp: t_def)
  then have "length rows \<le> 1"
    using distinct_card [OF r(3)] card_mono [of "{c}" "set (map fst rows)"] by simp
  moreover have "(c, 0) \<in> set rows"
    using in_thread.root [of c t 1] by (auto simp: r(4) t_def c_def)
  ultimately show ?thesis
    using r(1,2) ok by (intro exI [of _ ?d] exI [of _ rows] exI [of _ records]) auto
qed

section \<open>Pages of private messages\<close>

definition pending_after :: "tables \<Rightarrow> int \<Rightarrow> u64 \<Rightarrow> envelope_row list" where
  "pending_after t recipient_id since =
     filter (\<lambda>e. en_recipient_id e = recipient_id \<and> en_id e > to_i64 since) (tb_envelopes t)"

definition shown_envelope :: "envelope_row \<Rightarrow> dm_envelope_record" where
  "shown_envelope e =
     \<lparr>de_id = to_u64 (en_id e), de_sender_pubkey = en_sender_pubkey e, de_ciphertext = en_ciphertext e\<rparr>"

lemma sorted_envelopes: "envelopes_ok t \<Longrightarrow> sorted (map en_id (tb_envelopes t))"
  by (simp add: envelopes_ok_def ids_ok_def strict_sorted_iff)

lemma envelopes_after_pending:
  "envelopes_ok t \<Longrightarrow> envelopes_after t recipient_id (to_i64 since) = pending_after t recipient_id since"
  by (simp add: envelopes_after_def pending_after_def sort_key_id_if_sorted sorted_filter sorted_envelopes)

lemma list_for_recipient_page:
  fixes recipient_id :: int and since_id :: u64
  assumes "tables_ok (db_tables d)" and "no_faults d"
  defines "pending \<equiv> pending_after (db_tables d) recipient_id since_id"
  shows "fst (list_for_recipient recipient_id since_id limit d) =
    Some \<lparr>dl_envelopes = map shown_envelope (take (unat limit) pending),
      dl_has_more = (if unat limit < length pending then 1 else 0)\<rparr>"
proof -
  let ?t = "db_tables d"
  have ok: "envelopes_ok ?t" using assms(1) by (simp add: tables_ok_def)
  have rd: "read_envelope e = Some (shown_envelope e)" if "e \<in> set pending" for e
    using that ok by (auto simp: pending_def pending_after_def read_envelope_def shown_envelope_def
        key_column_ok_def envelopes_ok_def)
  have "fst (fetch_rows_upto (unat limit) read_envelope (take (unat limit + 1) (map id pending)) d) =
      Some (map (\<lambda>e. the (read_envelope (id e))) (take (unat limit) pending), unat limit < length pending)"
    by (rule fetch_limited [OF assms(2)]) (simp add: rd)
  moreover have "map (\<lambda>e. the (read_envelope e)) (take k pending) = map shown_envelope (take k pending)" for k
    using rd by (auto dest: in_set_takeD)
  ultimately show ?thesis
    unfolding list_for_recipient_def Let_def envelopes_after_pending [OF ok] pending_def [symmetric]
    by (simp add: case_prod_beta id_def)
qed

lemma to_i64_to_u64: "0 \<le> i \<Longrightarrow> i \<le> MAX_ROWID \<Longrightarrow> to_i64 (to_u64 i) = i"
  by (simp add: to_i64_def to_u64_def MAX_ROWID_def sint_sbintrunc' signed_take_bit_int_eq_self)

lemma to_u64_less: "0 \<le> i \<Longrightarrow> i < j \<Longrightarrow> j \<le> MAX_ROWID \<Longrightarrow> to_u64 i < to_u64 j"
  by (simp add: to_u64_def MAX_ROWID_def word_less_def uint_word_of_int_eq take_bit_int_eq_self)

lemma pending_facts:
  assumes "envelopes_ok t"
  shows "sorted_wrt (\<lambda>e e'. en_id e < en_id e') (pending_after t r since)"
    and "e \<in> set (pending_after t r since) \<Longrightarrow> 1 \<le> en_id e \<and> en_id e \<le> MAX_ROWID"
  using assms unfolding envelopes_ok_def ids_ok_def pending_after_def
  by (auto simp: sorted_wrt_map intro: sorted_wrt_filter)

lemma filter_after_nth:
  "sorted_wrt (\<lambda>e e'. en_id e < en_id e') es \<Longrightarrow> k < length es \<Longrightarrow>
   filter (\<lambda>e. en_id e > en_id (es ! k)) es = drop (Suc k) es"
proof (induction es arbitrary: k)
  case (Cons e es)
  show ?case
  proof (cases k)
    case 0
    have "filter (\<lambda>x. en_id x > en_id e) es = es" using Cons.prems(1) by (simp add: filter_id_conv)
    then show ?thesis using 0 by simp
  next
    case (Suc j)
    moreover have "\<not> en_id (es ! j) < en_id e"
      using Cons.prems Suc by (auto dest!: bspec [OF _ nth_mem [of j es]])
    ultimately show ?thesis using Cons by simp
  qed
qed simp

text \<open>
  C33. Fetching private messages page by page loses and repeats nothing. On sound tables and a
  storage engine that does not fail, a page holds the first \<^verbatim>\<open>limit\<close> pending messages of the
  caller after \<^verbatim>\<open>since_id\<close>, in strictly increasing identifier order, and says exactly whether
  more are pending; asking again with the identifier of its last message continues with the
  messages that were left out.
\<close>

theorem dm_pages_correct:
  assumes "tables_ok (db_tables d)" and "no_faults d" and "0 < limit"
  shows "\<exists>page. fst (list_for_recipient recipient_id since_id limit d) = Some page \<and>
    (let pending = pending_after (db_tables d) recipient_id since_id in
      dl_envelopes page = map shown_envelope (take (unat limit) pending) \<and>
      sorted_wrt (<) (map de_id (dl_envelopes page)) \<and>
      dl_has_more page = (if unat limit < length pending then 1 else 0) \<and>
      (pending \<noteq> [] \<longrightarrow> pending_after (db_tables d) recipient_id (de_id (last (dl_envelopes page))) =
         drop (unat limit) pending))"
proof -
  let ?t = "db_tables d"
  have ok: "envelopes_ok ?t" using assms(1) by (simp add: tables_ok_def)
  define pending where "pending = pending_after ?t recipient_id since_id"
  note facts = pending_facts [OF ok, where r = recipient_id and since = since_id, folded pending_def]
  define page where "page = take (unat limit) pending"
  have sorted: "sorted_wrt (\<lambda>e e'. en_id e < en_id e') page"
    unfolding page_def by (rule sorted_wrt_take [OF facts(1)])
  have mem: "e \<in> set page \<Longrightarrow> 1 \<le> en_id e \<and> en_id e \<le> MAX_ROWID" for e
    using facts(2) by (auto simp: page_def dest: in_set_takeD)
  have ids: "sorted_wrt (<) (map (de_id \<circ> shown_envelope) page)"
    unfolding sorted_wrt_map
    by (rule sorted_wrt_mono_rel [OF _ sorted])
      (simp add: shown_envelope_def to_u64_less mem order_trans [OF _ conjunct1 [OF mem]])
  have next_page: "pending_after ?t recipient_id (de_id (shown_envelope (last page))) = drop (unat limit) pending"
    if ne: "pending \<noteq> []"
  proof -
    have len: "length page \<noteq> 0" using ne assms(3) by (simp add: page_def word_less_nat_alt)
    have "last page = page ! (length page - 1)" using len by (simp add: last_conv_nth)
    also have "\<dots> = pending ! (length page - 1)" unfolding page_def by (rule nth_take) (use len in \<open>auto simp: page_def\<close>)
    finally have last: "last page = pending ! (length page - 1)" .
    have "last page \<in> set page" using len by simp
    then have i: "to_i64 (de_id (shown_envelope (last page))) = en_id (last page)" "last page \<in> set pending"
      using mem [of "last page"] in_set_takeD [of "last page" "unat limit" pending]
      by (simp_all add: shown_envelope_def to_i64_to_u64 page_def [symmetric])
    then have "en_id (last page) > to_i64 since_id" by (simp add: pending_def pending_after_def)
    then have "pending_after ?t recipient_id (de_id (shown_envelope (last page))) =
        filter (\<lambda>e. en_id e > en_id (last page)) pending"
      by (auto simp: pending_after_def pending_def i(1) intro!: filter_cong)
    also have "\<dots> = drop (length page) pending"
    proof -
      have "length page \<le> length pending" by (simp add: page_def)
      then have "length page - 1 < length pending" using len by linarith
      from filter_after_nth [OF facts(1) this] show ?thesis unfolding last using len by simp
    qed
    finally show ?thesis by (simp add: page_def min_def)
  qed
  have "last (map shown_envelope page) = shown_envelope (last page)" if "pending \<noteq> []"
    using that assms(3) by (intro last_map) (simp add: page_def word_less_nat_alt)
  then show ?thesis
    using list_for_recipient_page [OF assms(1,2), of recipient_id since_id limit] ids next_page
    by (auto simp: Let_def pending_def [symmetric] page_def last_map)
qed

theorem dm_pages_correct_witness:
  "\<exists>page. fst (list_for_recipient 1 0 1 \<lparr>db_tables = empty_tables, db_saved = None, db_faults = [False]\<rparr>) =
     Some page \<and> dl_envelopes page = [] \<and> dl_has_more page = 0"
proof -
  let ?d = "\<lparr>db_tables = empty_tables, db_saved = None, db_faults = [False]\<rparr>"
  have "pending_after (db_tables ?d) 1 0 = []" by (simp add: pending_after_def empty_tables_def)
  moreover have "no_faults ?d" by (simp add: no_faults_def)
  ultimately show ?thesis
    using dm_pages_correct [of ?d 1 1 0] empty_tables_ok by (auto simp: Let_def)
qed

end
