(* ===== verification/Frame.thy ===== *)
theory Frame
  imports Codec_Interface
begin

text \<open>
  Frames and the message stream (\<^verbatim>\<open>frame_codec.cpp\<close>,
      \<^verbatim>\<open>message_type.cpp\<close>,
  \<^verbatim>\<open>length_prefixed_stream.cpp\<close>): the frozen table of message types, the
      frame
  \<^verbatim>\<open>[u32 body_size][u8 type][payload]\<close>, and the extraction of length-
      prefixed messages from a
  TCP byte stream, which must not depend on how the stream was cut into reads.
\<close>

section \<open>Message types\<close>

datatype message_type =
    MT_hello_request
  | MT_hello_response
  | MT_auth_challenge
  | MT_auth_response
  | MT_auth_accepted
  | MT_ping_request
  | MT_ping_response
  | MT_motd_push
  | MT_status_ok
  | MT_status_error
  | MT_register_request
  | MT_prekey_publish_request
  | MT_prekey_fetch_request
  | MT_prekey_bundle_response
  | MT_forum_create_request
  | MT_forum_info_response
  | MT_forum_list_request
  | MT_forum_list_response
  | MT_post_create_request
  | MT_post_info_response
  | MT_post_list_request
  | MT_post_list_response
  | MT_thread_fetch_request
  | MT_thread_response
  | MT_comment_create_request
  | MT_comment_info_response
  | MT_post_delete_request
  | MT_comment_delete_request
  | MT_profile_get_request
  | MT_profile_response
  | MT_profile_set_request
  | MT_friend_add_request
  | MT_friend_list_request
  | MT_friend_list_response
  | MT_top8_set_request
  | MT_top8_get_request
  | MT_top8_response
  | MT_dm_send_request
  | MT_dm_fetch_request
  | MT_dm_list_response
  | MT_dm_ack_request
  | MT_blob_announce_request
  | MT_blob_locate_request
  | MT_blob_peers_response
  | MT_report_post_request
  | MT_report_account_request

primrec message_code :: "message_type \<Rightarrow> u8" where
  "message_code MT_hello_request = 0x1"
| "message_code MT_hello_response = 0x2"
| "message_code MT_auth_challenge = 0x3"
| "message_code MT_auth_response = 0x4"
| "message_code MT_auth_accepted = 0x5"
| "message_code MT_ping_request = 0x6"
| "message_code MT_ping_response = 0x7"
| "message_code MT_motd_push = 0x8"
| "message_code MT_status_ok = 0x9"
| "message_code MT_status_error = 0xa"
| "message_code MT_register_request = 0x10"
| "message_code MT_prekey_publish_request = 0x11"
| "message_code MT_prekey_fetch_request = 0x12"
| "message_code MT_prekey_bundle_response = 0x13"
| "message_code MT_forum_create_request = 0x20"
| "message_code MT_forum_info_response = 0x21"
| "message_code MT_forum_list_request = 0x22"
| "message_code MT_forum_list_response = 0x23"
| "message_code MT_post_create_request = 0x30"
| "message_code MT_post_info_response = 0x31"
| "message_code MT_post_list_request = 0x32"
| "message_code MT_post_list_response = 0x33"
| "message_code MT_thread_fetch_request = 0x34"
| "message_code MT_thread_response = 0x35"
| "message_code MT_comment_create_request = 0x36"
| "message_code MT_comment_info_response = 0x37"
| "message_code MT_post_delete_request = 0x38"
| "message_code MT_comment_delete_request = 0x39"
| "message_code MT_profile_get_request = 0x40"
| "message_code MT_profile_response = 0x41"
| "message_code MT_profile_set_request = 0x42"
| "message_code MT_friend_add_request = 0x43"
| "message_code MT_friend_list_request = 0x44"
| "message_code MT_friend_list_response = 0x45"
| "message_code MT_top8_set_request = 0x46"
| "message_code MT_top8_get_request = 0x47"
| "message_code MT_top8_response = 0x48"
| "message_code MT_dm_send_request = 0x50"
| "message_code MT_dm_fetch_request = 0x51"
| "message_code MT_dm_list_response = 0x52"
| "message_code MT_dm_ack_request = 0x53"
| "message_code MT_blob_announce_request = 0x60"
| "message_code MT_blob_locate_request = 0x61"
| "message_code MT_blob_peers_response = 0x62"
| "message_code MT_report_post_request = 0x70"
| "message_code MT_report_account_request = 0x71"

definition all_message_types :: "message_type list" where
  "all_message_types =
     [MT_hello_request, MT_hello_response, MT_auth_challenge, MT_auth_response,
      MT_auth_accepted, MT_ping_request, MT_ping_response, MT_motd_push, MT_status_ok,
      MT_status_error, MT_register_request, MT_prekey_publish_request, MT_prekey_fetch_request,
      MT_prekey_bundle_response, MT_forum_create_request, MT_forum_info_response,
      MT_forum_list_request, MT_forum_list_response, MT_post_create_request,
      MT_post_info_response, MT_post_list_request, MT_post_list_response,
      MT_thread_fetch_request, MT_thread_response, MT_comment_create_request,
      MT_comment_info_response, MT_post_delete_request, MT_comment_delete_request,
      MT_profile_get_request, MT_profile_response, MT_profile_set_request,
      MT_friend_add_request, MT_friend_list_request, MT_friend_list_response,
      MT_top8_set_request, MT_top8_get_request, MT_top8_response, MT_dm_send_request,
      MT_dm_fetch_request, MT_dm_list_response, MT_dm_ack_request, MT_blob_announce_request,
      MT_blob_locate_request, MT_blob_peers_response, MT_report_post_request,
      MT_report_account_request]"

text \<open>
  \<^verbatim>\<open>static_cast<message_type>\<close> of a byte, where the byte is a listed enumerator; the C++
  \<^verbatim>\<open>switch\<close> of \<^verbatim>\<open>is_known_message_type\<close> lists every enumerator.
\<close>

definition message_of_code :: "u8 \<Rightarrow> message_type option" where
  "message_of_code raw_type = find (\<lambda>t. message_code t = raw_type) all_message_types"

definition is_known_message_type :: "u8 \<Rightarrow> bool" where
  "is_known_message_type raw_type \<longleftrightarrow> raw_type \<in> set (map message_code all_message_types)"

section \<open>Frames\<close>

record frame_header =
  fh_body_size :: u32
  fh_type :: message_type

definition peek_body_size :: "bytes \<Rightarrow> u32 option" where
  "peek_body_size input =
     (case load_little_endian input of
        None \<Rightarrow> None
      | Some (announced :: u32) \<Rightarrow>
          if unat announced < FRAME_TYPE_FIELD_SIZE \<or> unat announced > MAX_BODY_SIZE then None
          else Some announced)"

definition decode_frame_header :: "bytes \<Rightarrow> frame_header option" where
  "decode_frame_header input =
     (if length input < FRAME_HEADER_SIZE then None
      else case peek_body_size input of
        None \<Rightarrow> None
      | Some body_size \<Rightarrow>
          let raw_type = input ! FRAME_LENGTH_FIELD_SIZE in
          if \<not> is_known_message_type raw_type then None
          else map_option (\<lambda>t. \<lparr>fh_body_size = body_size, fh_type = t\<rparr>) (message_of_code raw_type))"

definition encode_frame :: "message_type \<Rightarrow> bytes \<Rightarrow> bytes option" where
  "encode_frame type payload =
     (if length payload > MAX_PAYLOAD_SIZE then None
      else Some (bw_target (write_seq
        [write_integer (word_of_nat (FRAME_TYPE_FIELD_SIZE + length payload) :: u32),
         write_integer (message_code type),
         write_fixed_bytes payload] (byte_writer_of []))))"

section \<open>The message stream\<close>

text \<open>
  The result of one call: the detached message if there is one, the \<^verbatim>\<open>malformed\<close> flag, and
  the buffer that is left.
\<close>

definition extract_length_prefixed_message ::
  "bytes \<Rightarrow> nat \<Rightarrow> bytes option \<times> bool \<times> bytes" where
  "extract_length_prefixed_message buffer maximum_size =
     (if length buffer < FRAME_LENGTH_FIELD_SIZE then (None, False, buffer)
      else case load_little_endian buffer of
        None \<Rightarrow> (None, False, buffer)
      | Some (announced :: u32) \<Rightarrow>
          let len = unat announced in
          if len = 0 \<or> len > maximum_size then (None, True, buffer)
          else if length buffer < FRAME_LENGTH_FIELD_SIZE + len then (None, False, buffer)
          else (Some (take len (drop FRAME_LENGTH_FIELD_SIZE buffer)), False,
                drop (FRAME_LENGTH_FIELD_SIZE + len) buffer))"

definition append_length_prefixed_message :: "bytes \<Rightarrow> bytes \<Rightarrow> bytes" where
  "append_length_prefixed_message payload out =
     bw_target (write_seq
       [write_integer (word_of_nat (length payload) :: u32), write_fixed_bytes payload]
       (byte_writer_of out))"

lemma extract_shrinks:
  "extract_length_prefixed_message buffer m = (Some msg, bad, rest) \<Longrightarrow> length rest < length buffer"
  by (auto simp: extract_length_prefixed_message_def Let_def split: if_splits option.splits)

text \<open>
  A reader of the stream: call \<^verbatim>\<open>extract_length_prefixed_message\<close> until it returns false, and
  do that again each time more bytes arrive. A malformed stream is never resumed.
\<close>

function extract_all :: "nat \<Rightarrow> bytes \<Rightarrow> bytes list \<times> bool \<times> bytes" where
  "extract_all m buffer =
     (case extract_length_prefixed_message buffer m of
        (Some msg, bad, rest) \<Rightarrow>
          let (msgs, bad', rest') = extract_all m rest in (msg # msgs, bad', rest')
      | (None, bad, rest) \<Rightarrow> ([], bad, rest))"
  by pat_completeness auto
termination
  by (relation "measure (\<lambda>(m, buffer). length buffer)") (auto dest!: extract_shrinks [OF sym])

declare extract_all.simps [simp del]

primrec feed_stream :: "nat \<Rightarrow> bytes list \<Rightarrow> bytes \<Rightarrow> bytes list \<times> bool \<times> bytes" where
  "feed_stream m [] buffer = ([], False, buffer)"
| "feed_stream m (chunk # chunks) buffer =
     (let (msgs, bad, rest) = extract_all m (buffer @ chunk) in
      if bad then (msgs, True, rest)
      else let (msgs', bad', rest') = feed_stream m chunks rest in (msgs @ msgs', bad', rest'))"

section \<open>Facts about message types\<close>

lemma all_message_types_complete: "t \<in> set all_message_types"
  by (cases t) (simp_all add: all_message_types_def)

lemma message_codes_distinct: "distinct (map message_code all_message_types)"
  by (simp add: all_message_types_def)

lemma message_code_inj: "message_code s = message_code t \<longleftrightarrow> s = t"
  using message_codes_distinct all_message_types_complete
  by (auto simp: distinct_map inj_on_def)

lemma message_of_code_Some: "message_of_code c = Some t \<longleftrightarrow> message_code t = c"
proof
  assume "message_of_code c = Some t"
  then show "message_code t = c" by (auto simp: message_of_code_def find_Some_iff)
next
  assume c: "message_code t = c"
  then obtain s where "message_of_code c = Some s"
    using all_message_types_complete [of t]
    by (cases "message_of_code c") (auto simp: message_of_code_def find_None_iff)
  then show "message_of_code c = Some t"
    using c by (auto simp: message_of_code_def find_Some_iff message_code_inj)
qed

lemma message_of_code_code [simp]: "message_of_code (message_code t) = Some t"
  by (simp add: message_of_code_Some)

lemma is_known_message_type_iff: "is_known_message_type c \<longleftrightarrow> (\<exists>t. message_code t = c)"
  using all_message_types_complete by (auto simp: is_known_message_type_def)

section \<open>Facts about frames\<close>

lemma encode_frame_eq:
  "encode_frame t p =
     (if length p > MAX_PAYLOAD_SIZE then None
      else Some (le_bytes (word_of_nat (Suc (length p)) :: u32) @ [message_code t] @ p))"
proof -
  have "le_bytes c = [c]" for c :: u8
    by (rule nth_equalityI) (auto intro!: bit_word_eqI simp: bit_le_byte)
  then show ?thesis by (simp add: encode_frame_def writer_simps)
qed

lemma load_u32_append: "load_little_endian (le_bytes (v :: u32) @ xs) = Some v"
  by (rule load_le_bytes) simp

lemma load_u32_Some:
  "load_little_endian bs = Some (v :: u32) \<longleftrightarrow> (\<exists>xs. bs = le_bytes v @ xs)"
  using load_little_endian_Some [of bs v] load_u32_append by auto

lemma load_u32_None: "load_little_endian bs = (None :: u32 option) \<longleftrightarrow> length bs < 4"
  by (auto simp: load_little_endian_def)

lemma decode_frame_header_Some:
  "decode_frame_header input = Some h \<longleftrightarrow>
     (\<exists>rest. input = le_bytes (fh_body_size h) @ [message_code (fh_type h)] @ rest) \<and>
     1 \<le> unat (fh_body_size h) \<and> unat (fh_body_size h) \<le> MAX_BODY_SIZE"
proof
  assume d: "decode_frame_header input = Some h"
  then obtain t where l: "5 \<le> length input" and b: "load_little_endian input = Some (fh_body_size h)"
    and r: "1 \<le> unat (fh_body_size h)" "unat (fh_body_size h) \<le> MAX_BODY_SIZE"
    and t: "message_of_code (input ! 4) = Some t" "fh_type h = t"
    by (auto simp: decode_frame_header_def peek_body_size_def Let_def split: if_splits option.splits)
  obtain xs where xs: "input = le_bytes (fh_body_size h) @ xs" using b load_u32_Some by blast
  have "length (le_bytes (fh_body_size h)) = 4" by simp
  with xs l obtain y ys where ys: "xs = y # ys" by (cases xs) auto
  with xs have "input ! 4 = y" by (simp add: nth_append)
  with t have "y = message_code (fh_type h)" by (simp add: message_of_code_Some)
  with xs ys r show "(\<exists>rest. input = le_bytes (fh_body_size h) @ [message_code (fh_type h)] @ rest) \<and>
     1 \<le> unat (fh_body_size h) \<and> unat (fh_body_size h) \<le> MAX_BODY_SIZE" by simp
next
  assume a: "(\<exists>rest. input = le_bytes (fh_body_size h) @ [message_code (fh_type h)] @ rest) \<and>
     1 \<le> unat (fh_body_size h) \<and> unat (fh_body_size h) \<le> MAX_BODY_SIZE"
  then obtain rest where i: "input = le_bytes (fh_body_size h) @ [message_code (fh_type h)] @ rest"
    by blast
  have "input ! 4 = message_code (fh_type h)" by (simp add: i nth_append)
  moreover have "load_little_endian input = Some (fh_body_size h)" by (simp only: i load_u32_append)
  moreover have "\<exists>t. message_code t = message_code (fh_type h)" by blast
  ultimately show "decode_frame_header input = Some h"
    using a i by (simp add: decode_frame_header_def peek_body_size_def Let_def is_known_message_type_iff)
qed

section \<open>Facts about the stream\<close>

lemma append_length_prefixed_message_eq:
  "append_length_prefixed_message p out = out @ prefixed_bytes p"
  by (simp add: append_length_prefixed_message_def writer_simps prefixed_bytes_def)

lemma extract_prefixed:
  assumes "0 < length p" and "length p \<le> m" and "m < 4294967296"
  shows "extract_length_prefixed_message (prefixed_bytes p @ rest) m = (Some p, False, rest)"
proof -
  have "unat (word_of_nat (length p) :: u32) = length p"
    using assms by (intro unat_u32_of_nat) simp
  then show ?thesis
    using assms load_u32_append [of "word_of_nat (length p)" "p @ rest"]
    by (simp add: extract_length_prefixed_message_def prefixed_bytes_def Let_def)
qed

lemma extract_Some:
  assumes "extract_length_prefixed_message buffer m = (Some p, bad, rest)"
  shows "buffer = prefixed_bytes p @ rest" and "0 < length p" and "length p \<le> m" and "\<not> bad"
proof -
  obtain a :: u32 where l: "load_little_endian buffer = Some a" and a: "0 < unat a" "unat a \<le> m"
    and len: "4 + unat a \<le> length buffer" and p: "p = take (unat a) (drop 4 buffer)"
    and r: "rest = drop (4 + unat a) buffer" and bad: "\<not> bad"
    using assms
    by (auto simp: extract_length_prefixed_message_def Let_def split: if_splits option.splits)
  obtain xs where xs: "buffer = le_bytes a @ xs" using l load_u32_Some by blast
  have lp: "length p = unat a" using p len by simp
  show "0 < length p" "length p \<le> m" "\<not> bad" using lp a bad by simp_all
  have "xs = p @ rest" using p r xs by simp
  then show "buffer = prefixed_bytes p @ rest" using xs lp by (simp add: prefixed_bytes_def)
qed

text \<open>What a call decided does not change when more bytes arrive.\<close>

lemma extract_append_Some:
  assumes "extract_length_prefixed_message buffer m = (Some p, bad, rest)"
  shows "extract_length_prefixed_message (buffer @ xs) m = (Some p, bad, rest @ xs)"
proof -
  obtain a :: u32 where l: "load_little_endian buffer = Some a"
    using assms by (auto simp: extract_length_prefixed_message_def split: if_splits option.splits)
  then have "load_little_endian (buffer @ xs) = Some a" by (auto simp: load_u32_Some)
  then show ?thesis using assms l
    by (auto simp: extract_length_prefixed_message_def Let_def split: if_splits)
qed

lemma extract_append_malformed:
  assumes "extract_length_prefixed_message buffer m = (None, True, rest)"
  shows "extract_length_prefixed_message (buffer @ xs) m = (None, True, buffer @ xs)"
proof -
  obtain a :: u32 where l: "load_little_endian buffer = Some a"
    using assms by (auto simp: extract_length_prefixed_message_def split: if_splits option.splits)
  then have "load_little_endian (buffer @ xs) = Some a" by (auto simp: load_u32_Some)
  then show ?thesis using assms l
    by (auto simp: extract_length_prefixed_message_def Let_def split: if_splits)
qed

lemma extract_None_rest:
  "extract_length_prefixed_message buffer m = (None, bad, rest) \<Longrightarrow> rest = buffer"
  by (auto simp: extract_length_prefixed_message_def Let_def split: if_splits option.splits)

lemma extract_all_append:
  assumes "extract_all m buffer = (msgs, False, rest)"
  shows "extract_all m (buffer @ xs) =
    (let (msgs', bad, rest') = extract_all m (rest @ xs) in (msgs @ msgs', bad, rest'))"
  using assms
proof (induction m buffer arbitrary: msgs rule: extract_all.induct)
  case (1 m buffer)
  obtain e bad1 rest1 where e: "extract_length_prefixed_message buffer m = (e, bad1, rest1)"
    by (cases "extract_length_prefixed_message buffer m") auto
  show ?case
  proof (cases e)
    case None
    then have "rest = buffer" "msgs = []"
      using 1(2) e extract_None_rest [of buffer m bad1 rest1]
      by (simp_all add: extract_all.simps [of m buffer])
    then show ?thesis by simp
  next
    case (Some p)
    obtain ms bad2 where ms: "extract_all m rest1 = (ms, bad2, rest)" "msgs = p # ms" "\<not> bad2"
      using 1(2) e Some by (auto simp: extract_all.simps [of m buffer] split: prod.splits)
    have "extract_all m (rest1 @ xs) =
        (let (msgs', bad, rest') = extract_all m (rest @ xs) in (ms @ msgs', bad, rest'))"
      using 1(1) [OF e [symmetric] Some refl] ms by simp
    moreover have "extract_length_prefixed_message (buffer @ xs) m = (Some p, bad1, rest1 @ xs)"
      using extract_append_Some e Some by simp
    ultimately show ?thesis
      using ms by (simp add: extract_all.simps [of m "buffer @ xs"] split: prod.splits)
  qed
qed

lemma extract_all_append_malformed:
  "extract_all m buffer = (msgs, True, rest) \<Longrightarrow> extract_all m (buffer @ xs) = (msgs, True, rest @ xs)"
proof (induction m buffer arbitrary: msgs rule: extract_all.induct)
  case (1 m buffer)
  obtain e bad1 rest1 where e: "extract_length_prefixed_message buffer m = (e, bad1, rest1)"
    by (cases "extract_length_prefixed_message buffer m") auto
  show ?case
  proof (cases e)
    case None
    then have "msgs = []" "bad1" "rest = buffer"
      using 1(2) e extract_None_rest [of buffer m bad1 rest1]
      by (simp_all add: extract_all.simps [of m buffer])
    then show ?thesis
      using extract_append_malformed [of buffer m rest1 xs] e None
      by (simp add: extract_all.simps [of m "buffer @ xs"])
  next
    case (Some p)
    obtain ms where ms: "extract_all m rest1 = (ms, True, rest)" "msgs = p # ms"
      using 1(2) e Some by (auto simp: extract_all.simps [of m buffer] split: prod.splits)
    have "extract_all m (rest1 @ xs) = (ms, True, rest @ xs)"
      using 1(1) [OF e [symmetric] Some refl] ms by simp
    moreover have "extract_length_prefixed_message (buffer @ xs) m = (Some p, bad1, rest1 @ xs)"
      using extract_append_Some e Some by simp
    ultimately show ?thesis
      using ms by (simp add: extract_all.simps [of m "buffer @ xs"])
  qed
qed

text \<open>
  The buffer a malformed stream leaves may hold bytes of a later chunk when all is read at once;
  messages and verdict agree in every case.
\<close>

lemma feed_stream_messages:
  assumes "extract_all m buffer = ([], False, buffer)"
  shows "fst (feed_stream m chunks buffer) = fst (extract_all m (buffer @ concat chunks)) \<and>
    fst (snd (feed_stream m chunks buffer)) = fst (snd (extract_all m (buffer @ concat chunks)))"
  using assms
proof (induction chunks arbitrary: buffer)
  case Nil
  then show ?case by simp
next
  case (Cons c cs)
  obtain ms bad rest where e: "extract_all m (buffer @ c) = (ms, bad, rest)"
    by (cases "extract_all m (buffer @ c)") auto
  show ?case
  proof (cases bad)
    case True
    then show ?thesis
      using e extract_all_append_malformed [of m "buffer @ c" ms rest "concat cs"] by simp
  next
    case False
    have "extract_all m rest = ([], False, rest)"
      using extract_all_append [of m "buffer @ c" ms rest "[]"] e False
      by (auto split: prod.splits)
    from Cons.IH [OF this] show ?thesis
      using e False extract_all_append [of m "buffer @ c" ms rest "concat cs"]
      by (auto simp: Let_def split: prod.splits)
  qed
qed

lemma extract_all_prefixed:
  assumes "\<And>p. p \<in> set msgs \<Longrightarrow> 0 < length p \<and> length p \<le> m" and "m < 4294967296"
  shows "extract_all m (concat (map prefixed_bytes msgs)) = (msgs, False, [])"
  using assms(1)
proof (induction msgs)
  case Nil
  then show ?case
    by (simp add: extract_all.simps [of m "[]"] extract_length_prefixed_message_def)
next
  case (Cons p msgs)
  have "extract_length_prefixed_message (prefixed_bytes p @ concat (map prefixed_bytes msgs)) m =
      (Some p, False, concat (map prefixed_bytes msgs))"
    using Cons.prems by (intro extract_prefixed assms(2)) simp_all
  then show ?case
    using Cons by (simp add: extract_all.simps [of m "prefixed_bytes p @ concat (map prefixed_bytes msgs)"])
qed

section \<open>Properties of frames and of the stream\<close>

text \<open>
  Framing round trip and bounds. A payload is encodable exactly up to \<^verbatim>\<open>MAX_PAYLOAD_SIZE\<close>;
  the frame is at most \<^verbatim>\<open>MAX_FRAME_SIZE\<close> long, and its header decodes to the message type and
  to a body size that counts the type byte and the payload, which follows the header.
\<close>

theorem encode_decode_frame:
  "(encode_frame t payload = None \<and> length payload > MAX_PAYLOAD_SIZE) \<or>
   (\<exists>frame. encode_frame t payload = Some frame \<and> length payload \<le> MAX_PAYLOAD_SIZE \<and>
     length frame \<le> MAX_FRAME_SIZE \<and> drop FRAME_HEADER_SIZE frame = payload \<and>
     decode_frame_header (frame @ rest) =
       Some \<lparr>fh_body_size = word_of_nat (1 + length payload), fh_type = t\<rparr> \<and>
     unat (word_of_nat (1 + length payload) :: u32) = 1 + length payload)"
proof (cases "length payload > MAX_PAYLOAD_SIZE")
  case True
  then show ?thesis by (simp add: encode_frame_eq)
next
  case False
  define h where "h = \<lparr>fh_body_size = word_of_nat (1 + length payload), fh_type = t\<rparr>"
  define frame where "frame = le_bytes (fh_body_size h) @ [message_code t] @ payload"
  have n: "unat (word_of_nat (1 + length payload) :: u32) = 1 + length payload"
    using False by (intro unat_u32_of_nat) simp
  have "decode_frame_header (frame @ rest) = Some h"
    unfolding decode_frame_header_Some frame_def using n False by (simp add: h_def)
  moreover have "encode_frame t payload = Some frame"
    using False by (simp add: encode_frame_eq frame_def h_def)
  ultimately show ?thesis using n False by (auto simp: h_def frame_def)
qed

text \<open>
  A frame header is accepted exactly when the input starts with a little-endian body size
  between 1 and \<^verbatim>\<open>MAX_BODY_SIZE\<close> followed by the code of a listed message type; an unknown
  type byte never yields a header.
\<close>

theorem decode_frame_header_correct:
  "decode_frame_header input = Some h \<longleftrightarrow>
     (\<exists>rest. input = le_bytes (fh_body_size h) @ [message_code (fh_type h)] @ rest) \<and>
     1 \<le> unat (fh_body_size h) \<and> unat (fh_body_size h) \<le> MAX_BODY_SIZE"
  by (rule decode_frame_header_Some)

text \<open>
  C38: stream reassembly does not depend on how the network cut the stream. Whatever messages were
  sent with \<^verbatim>\<open>append_length_prefixed_message\<close> (none empty, none above the cap), and however the
  resulting bytes are split into reads, the reader detaches exactly those messages in order, never
  reports a malformed stream and keeps nothing back.
\<close>

theorem stream_reassembly:
  assumes "\<forall>p \<in> set msgs. 0 < length p \<and> length p \<le> m" and "m < 2 ^ 32"
    and "concat chunks = fold append_length_prefixed_message msgs []"
  shows "fst (feed_stream m chunks []) = msgs \<and> \<not> fst (snd (feed_stream m chunks []))"
proof -
  have "fold append_length_prefixed_message ms out = out @ concat (map prefixed_bytes ms)" for ms out
    by (induction ms arbitrary: out) (simp_all add: append_length_prefixed_message_eq)
  then have c: "concat chunks = concat (map prefixed_bytes msgs)" using assms(3) by simp
  have e: "extract_all m (concat chunks) = (msgs, False, [])"
    unfolding c by (rule extract_all_prefixed) (use assms in auto)
  have "extract_all m [] = ([], False, [])"
    by (simp add: extract_all.simps [of m "[]"] extract_length_prefixed_message_def)
  from feed_stream_messages [OF this, of chunks] e
  show "fst (feed_stream m chunks []) = msgs \<and> \<not> fst (snd (feed_stream m chunks []))" by simp
qed

theorem stream_reassembly_witness:
  "fst (feed_stream 8 [[1, 0], [0, 0, 65, 2, 0], [], [0, 0, 66, 67]] []) = [[65], [66, 67]]"
proof -
  have "concat [[1, 0], [0, 0, 65, 2, 0], [], [0, 0, 66, 67]] =
      fold append_length_prefixed_message [[65], [66, 67]] []"
    by (simp add: append_length_prefixed_message_eq prefixed_bytes_def le_bytes_def upt_rec
        drop_bit_eq_div)
  from stream_reassembly [OF _ _ this, of 8] show ?thesis by simp
qed

text \<open>
  A stream is declared malformed as soon as the four length bytes are there, exactly when they
  announce zero or more than the cap; the body is never waited for, and more bytes do not change
  the verdict.
\<close>

theorem malformed_iff:
  "fst (snd (extract_length_prefixed_message buffer m)) \<longleftrightarrow>
     (\<exists>announced :: u32. \<exists>rest. buffer = le_bytes announced @ rest \<and>
        (announced = 0 \<or> unat announced > m))"
proof -
  have "(\<exists>announced :: u32. \<exists>rest. buffer = le_bytes announced @ rest \<and>
        (announced = 0 \<or> unat announced > m)) \<longleftrightarrow>
      (\<exists>announced :: u32. load_little_endian buffer = Some announced \<and>
        (unat announced = 0 \<or> unat announced > m))"
    by (auto simp: load_u32_Some unat_0_iff)
  then show ?thesis
    by (cases "load_little_endian buffer :: u32 option")
      (auto simp: extract_length_prefixed_message_def Let_def load_u32_None [symmetric] split: if_splits)
qed

end
