(* ===== verification/Noise.thy ===== *)
theory Noise
  imports Byte_Codec "HOL-Library.Sublist"
begin

text \<open>
  The Noise NK channel (\<^verbatim>\<open>src/common/crypto/noise_*.cpp\<close>, \<^verbatim>\<open>hkdf_sha256.cpp\<close>,
  \<^verbatim>\<open>x25519_exchange.cpp\<close>). libsodium is not part of the repository: its primitives are the
  fields of a record that every definition takes as an argument, with the documented behaviour the
  theorems rely on stated as named hypotheses. A freshly generated key pair is an argument too,
  \<open>None\<close> when the generator fails. Operations that may fail return the object as the C++ leaves it.
\<close>

section \<open>Primitives\<close>

record sodium =
  so_sha256 :: "bytes \<Rightarrow> bytes"
  so_hmac_sha256 :: "bytes \<Rightarrow> bytes \<Rightarrow> bytes option"
  so_aead_encrypt :: "bytes \<Rightarrow> bytes \<Rightarrow> bytes \<Rightarrow> bytes \<Rightarrow> bytes option"
  so_aead_decrypt :: "bytes \<Rightarrow> bytes \<Rightarrow> bytes \<Rightarrow> bytes \<Rightarrow> bytes option"
  so_scalarmult :: "bytes \<Rightarrow> bytes \<Rightarrow> bytes option"
  so_scalarmult_base :: "bytes \<Rightarrow> bytes option"

definition AEAD_TAG_SIZE :: nat where [simp]: "AEAD_TAG_SIZE = 16"
definition X25519_PUBLIC_KEY_SIZE :: nat where [simp]: "X25519_PUBLIC_KEY_SIZE = 32"
definition SYMMETRIC_KEY_SIZE :: nat where [simp]: "SYMMETRIC_KEY_SIZE = 32"
definition CHACHA_IETF_NONCE_SIZE :: nat where [simp]: "CHACHA_IETF_NONCE_SIZE = 12"

definition NOISE_PROTOCOL_NAME :: bytes where
  "NOISE_PROTOCOL_NAME = ascii ''Noise_NK_25519_ChaChaPoly_SHA256''"

definition NOISE_PROLOGUE :: bytes where
  "NOISE_PROLOGUE = ascii ''hypercom-v1''"

definition NOISE_HANDSHAKE_MESSAGE_ONE_SIZE :: nat where
  [simp]: "NOISE_HANDSHAKE_MESSAGE_ONE_SIZE = X25519_PUBLIC_KEY_SIZE + AEAD_TAG_SIZE"

definition NOISE_HANDSHAKE_MESSAGE_TWO_SIZE :: nat where
  [simp]: "NOISE_HANDSHAKE_MESSAGE_TWO_SIZE = X25519_PUBLIC_KEY_SIZE + AEAD_TAG_SIZE"

section \<open>Cipher state\<close>

record noise_cipher_state =
  cs_key :: bytes
  cs_nonce_counter :: u64
  cs_has_key :: bool

definition new_cipher_state :: noise_cipher_state where
  "new_cipher_state =
     \<lparr>cs_key = replicate SYMMETRIC_KEY_SIZE 0, cs_nonce_counter = 0, cs_has_key = False\<rparr>"

definition initialize_key :: "bytes \<Rightarrow> noise_cipher_state \<Rightarrow> noise_cipher_state" where
  "initialize_key key c = c\<lparr>cs_key := key, cs_nonce_counter := 0, cs_has_key := True\<rparr>"

definition build_nonce :: "noise_cipher_state \<Rightarrow> bytes" where
  "build_nonce c =
     fold (\<lambda>index out. out[4 + index := ucast (drop_bit (index * 8) (cs_nonce_counter c) AND 0xFF)])
       [0..<8] (replicate CHACHA_IETF_NONCE_SIZE 0)"

definition encrypt_with_ad ::
  "sodium \<Rightarrow> bytes \<Rightarrow> bytes \<Rightarrow> noise_cipher_state \<Rightarrow> bytes option \<times> noise_cipher_state" where
  "encrypt_with_ad lib associated_data plaintext c =
     (if \<not> cs_has_key c then (Some plaintext, c)
      else if cs_nonce_counter c = - 1 then (None, c)
      else case so_aead_encrypt lib (cs_key c) (build_nonce c) associated_data plaintext of
        None \<Rightarrow> (None, c)
      | Some out \<Rightarrow> (Some out, c\<lparr>cs_nonce_counter := cs_nonce_counter c + 1\<rparr>))"

definition decrypt_with_ad ::
  "sodium \<Rightarrow> bytes \<Rightarrow> bytes \<Rightarrow> noise_cipher_state \<Rightarrow> bytes option \<times> noise_cipher_state" where
  "decrypt_with_ad lib associated_data ciphertext c =
     (if \<not> cs_has_key c then (Some ciphertext, c)
      else if length ciphertext < AEAD_TAG_SIZE then (None, c)
      else if cs_nonce_counter c = - 1 then (None, c)
      else case so_aead_decrypt lib (cs_key c) (build_nonce c) associated_data ciphertext of
        None \<Rightarrow> (None, c)
      | Some out \<Rightarrow> (Some out, c\<lparr>cs_nonce_counter := cs_nonce_counter c + 1\<rparr>))"

section \<open>Key derivation\<close>

definition compute_hmac :: "sodium \<Rightarrow> bytes \<Rightarrow> bytes \<Rightarrow> bytes \<Rightarrow> bytes option" where
  "compute_hmac lib key first_part second_part = so_hmac_sha256 lib key (first_part @ second_part)"

definition extract_pseudo_random_key :: "sodium \<Rightarrow> bytes \<Rightarrow> bytes \<Rightarrow> bytes option" where
  "extract_pseudo_random_key lib salt input_key_material =
     (if length salt > SYMMETRIC_KEY_SIZE then None
      else compute_hmac lib (salt @ replicate (SYMMETRIC_KEY_SIZE - length salt) 0) input_key_material [])"

definition expand_key_block :: "sodium \<Rightarrow> bytes \<Rightarrow> bytes \<Rightarrow> u8 \<Rightarrow> bytes option" where
  "expand_key_block lib pseudo_random_key info block_index =
     compute_hmac lib pseudo_random_key info [block_index]"

definition derive_key_pair :: "sodium \<Rightarrow> bytes \<Rightarrow> bytes \<Rightarrow> (bytes \<times> bytes) option" where
  "derive_key_pair lib chaining_key input_key_material =
     (case compute_hmac lib chaining_key input_key_material [] of
        None \<Rightarrow> None
      | Some temporary_key \<Rightarrow>
          (case expand_key_block lib temporary_key [] 1 of
             None \<Rightarrow> None
           | Some first \<Rightarrow>
               (case expand_key_block lib temporary_key first 2 of
                  None \<Rightarrow> None
                | Some second \<Rightarrow> Some (first, second))))"

definition compute_shared_secret :: "sodium \<Rightarrow> bytes \<Rightarrow> bytes \<Rightarrow> bytes option" where
  "compute_shared_secret lib secret_key peer_public_key = so_scalarmult lib secret_key peer_public_key"

definition compute_public_from_secret :: "sodium \<Rightarrow> bytes \<Rightarrow> bytes option" where
  "compute_public_from_secret lib secret_key = so_scalarmult_base lib secret_key"

section \<open>Symmetric state\<close>

record noise_symmetric_state =
  ss_chaining_key :: bytes
  ss_handshake_hash :: bytes
  ss_cipher :: noise_cipher_state

definition initialize_symmetric_state :: "sodium \<Rightarrow> bytes \<Rightarrow> noise_symmetric_state" where
  "initialize_symmetric_state lib protocol_name =
     (let h = (if length protocol_name \<le> SYMMETRIC_KEY_SIZE
               then protocol_name @ replicate (SYMMETRIC_KEY_SIZE - length protocol_name) 0
               else so_sha256 lib protocol_name)
      in \<lparr>ss_chaining_key = h, ss_handshake_hash = h, ss_cipher = new_cipher_state\<rparr>)"

definition mix_hash :: "sodium \<Rightarrow> bytes \<Rightarrow> noise_symmetric_state \<Rightarrow> noise_symmetric_state" where
  "mix_hash lib data s = s\<lparr>ss_handshake_hash := so_sha256 lib (ss_handshake_hash s @ data)\<rparr>"

definition mix_key :: "sodium \<Rightarrow> bytes \<Rightarrow> noise_symmetric_state \<Rightarrow> bool \<times> noise_symmetric_state" where
  "mix_key lib input_key_material s =
     (case derive_key_pair lib (ss_chaining_key s) input_key_material of
        None \<Rightarrow> (False, s)
      | Some (next_chaining_key, temporary_key) \<Rightarrow>
          (True, s\<lparr>ss_chaining_key := next_chaining_key,
                   ss_cipher := initialize_key temporary_key (ss_cipher s)\<rparr>))"

definition split_transport_keys :: "sodium \<Rightarrow> noise_symmetric_state \<Rightarrow> (bytes \<times> bytes) option" where
  "split_transport_keys lib s = derive_key_pair lib (ss_chaining_key s) []"

definition encrypt_and_hash ::
  "sodium \<Rightarrow> bytes \<Rightarrow> noise_symmetric_state \<Rightarrow> bytes option \<times> noise_symmetric_state" where
  "encrypt_and_hash lib plaintext s =
     (case encrypt_with_ad lib (ss_handshake_hash s) plaintext (ss_cipher s) of
        (None, c) \<Rightarrow> (None, s\<lparr>ss_cipher := c\<rparr>)
      | (Some out, c) \<Rightarrow> (Some out, mix_hash lib out (s\<lparr>ss_cipher := c\<rparr>)))"

definition decrypt_and_hash ::
  "sodium \<Rightarrow> bytes \<Rightarrow> noise_symmetric_state \<Rightarrow> bytes option \<times> noise_symmetric_state" where
  "decrypt_and_hash lib ciphertext s =
     (case decrypt_with_ad lib (ss_handshake_hash s) ciphertext (ss_cipher s) of
        (None, c) \<Rightarrow> (None, s\<lparr>ss_cipher := c\<rparr>)
      | (Some out, c) \<Rightarrow> (Some out, mix_hash lib ciphertext (s\<lparr>ss_cipher := c\<rparr>)))"

section \<open>Initiator\<close>

record noise_handshake_initiator =
  hi_state :: noise_symmetric_state
  hi_remote_static :: bytes
  hi_ephemeral_public :: bytes
  hi_ephemeral_secret :: bytes
  hi_first_message_sent :: bool
  hi_complete :: bool

definition new_initiator :: "sodium \<Rightarrow> bytes \<Rightarrow> noise_handshake_initiator" where
  "new_initiator lib server_static_public =
     \<lparr>hi_state = mix_hash lib server_static_public
        (mix_hash lib NOISE_PROLOGUE (initialize_symmetric_state lib NOISE_PROTOCOL_NAME)),
      hi_remote_static = server_static_public,
      hi_ephemeral_public = replicate X25519_PUBLIC_KEY_SIZE 0,
      hi_ephemeral_secret = replicate 32 0,
      hi_first_message_sent = False, hi_complete = False\<rparr>"

definition write_first_message ::
  "sodium \<Rightarrow> (bytes \<times> bytes) option \<Rightarrow> bytes \<Rightarrow> noise_handshake_initiator \<Rightarrow>
   bytes option \<times> noise_handshake_initiator" where
  "write_first_message lib generated payload i =
     (if hi_first_message_sent i then (None, i)
      else case generated of
        None \<Rightarrow> (None, i)
      | Some (public_key, secret_key) \<Rightarrow>
          let i1 = i\<lparr>hi_ephemeral_public := public_key, hi_ephemeral_secret := secret_key,
                     hi_state := mix_hash lib public_key (hi_state i)\<rparr>
          in case compute_shared_secret lib secret_key (hi_remote_static i) of
            None \<Rightarrow> (None, i1)
          | Some shared \<Rightarrow>
              (case mix_key lib shared (hi_state i1) of
                 (False, s) \<Rightarrow> (None, i1\<lparr>hi_state := s\<rparr>)
               | (True, s) \<Rightarrow>
                   (case encrypt_and_hash lib payload s of
                      (None, s') \<Rightarrow> (None, i1\<lparr>hi_state := s'\<rparr>)
                    | (Some sealed_payload, s') \<Rightarrow>
                        (Some (public_key @ sealed_payload),
                         i1\<lparr>hi_state := s', hi_first_message_sent := True\<rparr>))))"

definition read_second_message ::
  "sodium \<Rightarrow> bytes \<Rightarrow> noise_handshake_initiator \<Rightarrow> bytes option \<times> noise_handshake_initiator" where
  "read_second_message lib input i =
     (if \<not> hi_first_message_sent i \<or> hi_complete i then (None, i)
      else if length input < NOISE_HANDSHAKE_MESSAGE_TWO_SIZE then (None, i)
      else let remote_ephemeral = take X25519_PUBLIC_KEY_SIZE input;
               exchanged = compute_shared_secret lib (hi_ephemeral_secret i) remote_ephemeral;
               i1 = i\<lparr>hi_state := mix_hash lib remote_ephemeral (hi_state i),
                      hi_ephemeral_secret := replicate 32 0\<rparr>
           in case exchanged of
             None \<Rightarrow> (None, i1)
           | Some shared \<Rightarrow>
               (case mix_key lib shared (hi_state i1) of
                  (False, s) \<Rightarrow> (None, i1\<lparr>hi_state := s\<rparr>)
                | (True, s) \<Rightarrow>
                    (case decrypt_and_hash lib (drop X25519_PUBLIC_KEY_SIZE input) s of
                       (None, s') \<Rightarrow> (None, i1\<lparr>hi_state := s'\<rparr>)
                     | (Some payload, s') \<Rightarrow>
                         (Some payload, i1\<lparr>hi_state := s', hi_complete := True\<rparr>))))"

text \<open>\<^verbatim>\<open>export_transport_keys\<close> of the initiator: the send key, then the receive key.\<close>

definition initiator_export_transport_keys ::
  "sodium \<Rightarrow> noise_handshake_initiator \<Rightarrow> (bytes \<times> bytes) option" where
  "initiator_export_transport_keys lib i =
     (if \<not> hi_complete i then None else split_transport_keys lib (hi_state i))"

section \<open>Responder\<close>

record noise_handshake_responder =
  hr_state :: noise_symmetric_state
  hr_static_secret :: bytes
  hr_remote_ephemeral :: bytes
  hr_first_message_read :: bool
  hr_complete :: bool

definition new_responder :: "sodium \<Rightarrow> bytes \<Rightarrow> bytes \<Rightarrow> noise_handshake_responder" where
  "new_responder lib static_public static_secret =
     \<lparr>hr_state = mix_hash lib static_public
        (mix_hash lib NOISE_PROLOGUE (initialize_symmetric_state lib NOISE_PROTOCOL_NAME)),
      hr_static_secret = static_secret,
      hr_remote_ephemeral = replicate X25519_PUBLIC_KEY_SIZE 0,
      hr_first_message_read = False, hr_complete = False\<rparr>"

definition read_first_message ::
  "sodium \<Rightarrow> bytes \<Rightarrow> noise_handshake_responder \<Rightarrow> bytes option \<times> noise_handshake_responder" where
  "read_first_message lib input h =
     (if hr_first_message_read h then (None, h)
      else if length input < NOISE_HANDSHAKE_MESSAGE_ONE_SIZE then (None, h)
      else let remote_ephemeral = take X25519_PUBLIC_KEY_SIZE input;
               h1 = h\<lparr>hr_remote_ephemeral := remote_ephemeral,
                      hr_state := mix_hash lib remote_ephemeral (hr_state h)\<rparr>
           in case compute_shared_secret lib (hr_static_secret h) remote_ephemeral of
             None \<Rightarrow> (None, h1)
           | Some shared \<Rightarrow>
               (case mix_key lib shared (hr_state h1) of
                  (False, s) \<Rightarrow> (None, h1\<lparr>hr_state := s\<rparr>)
                | (True, s) \<Rightarrow>
                    (case decrypt_and_hash lib (drop X25519_PUBLIC_KEY_SIZE input) s of
                       (None, s') \<Rightarrow> (None, h1\<lparr>hr_state := s'\<rparr>)
                     | (Some payload, s') \<Rightarrow>
                         (Some payload, h1\<lparr>hr_state := s', hr_first_message_read := True\<rparr>))))"

definition write_second_message ::
  "sodium \<Rightarrow> (bytes \<times> bytes) option \<Rightarrow> bytes \<Rightarrow> noise_handshake_responder \<Rightarrow>
   bytes option \<times> noise_handshake_responder" where
  "write_second_message lib generated payload h =
     (if \<not> hr_first_message_read h \<or> hr_complete h then (None, h)
      else case generated of
        None \<Rightarrow> (None, h)
      | Some (ephemeral_public, ephemeral_secret) \<Rightarrow>
          let h1 = h\<lparr>hr_state := mix_hash lib ephemeral_public (hr_state h)\<rparr>
          in case compute_shared_secret lib ephemeral_secret (hr_remote_ephemeral h) of
            None \<Rightarrow> (None, h1)
          | Some shared \<Rightarrow>
              (case mix_key lib shared (hr_state h1) of
                 (False, s) \<Rightarrow> (None, h1\<lparr>hr_state := s\<rparr>)
               | (True, s) \<Rightarrow>
                   (case encrypt_and_hash lib payload s of
                      (None, s') \<Rightarrow> (None, h1\<lparr>hr_state := s'\<rparr>)
                    | (Some sealed_payload, s') \<Rightarrow>
                        (Some (ephemeral_public @ sealed_payload),
                         h1\<lparr>hr_state := s', hr_complete := True\<rparr>))))"

text \<open>The responder's send key is the second transport key.\<close>

definition responder_export_transport_keys ::
  "sodium \<Rightarrow> noise_handshake_responder \<Rightarrow> (bytes \<times> bytes) option" where
  "responder_export_transport_keys lib h =
     (if \<not> hr_complete h then None
      else map_option (\<lambda>(receive_key, send_key). (send_key, receive_key))
             (split_transport_keys lib (hr_state h)))"

section \<open>Transport\<close>

record noise_transport =
  nt_send_state :: noise_cipher_state
  nt_receive_state :: noise_cipher_state

definition new_transport :: "bytes \<Rightarrow> bytes \<Rightarrow> noise_transport" where
  "new_transport send_key receive_key =
     \<lparr>nt_send_state = initialize_key send_key new_cipher_state,
      nt_receive_state = initialize_key receive_key new_cipher_state\<rparr>"

definition encrypt_message ::
  "sodium \<Rightarrow> bytes \<Rightarrow> noise_transport \<Rightarrow> bytes option \<times> noise_transport" where
  "encrypt_message lib plaintext t =
     (let (out, c) = encrypt_with_ad lib [] plaintext (nt_send_state t)
      in (out, t\<lparr>nt_send_state := c\<rparr>))"

definition decrypt_message ::
  "sodium \<Rightarrow> bytes \<Rightarrow> noise_transport \<Rightarrow> bytes option \<times> noise_transport" where
  "decrypt_message lib ciphertext t =
     (let (out, c) = decrypt_with_ad lib [] ciphertext (nt_receive_state t)
      in (out, t\<lparr>nt_receive_state := c\<rparr>))"

section \<open>What the primitives are relied on for\<close>

definition aead_correct :: "sodium \<Rightarrow> bool" where
  "aead_correct lib \<longleftrightarrow> (\<forall>k n ad p c. so_aead_encrypt lib k n ad p = Some c \<longrightarrow>
     length c = length p + AEAD_TAG_SIZE \<and> so_aead_decrypt lib k n ad c = Some p)"

definition dh_agrees :: "sodium \<Rightarrow> bool" where
  "dh_agrees lib \<longleftrightarrow> (\<forall>a b pa pb. so_scalarmult_base lib a = Some pa \<longrightarrow>
     so_scalarmult_base lib b = Some pb \<longrightarrow> so_scalarmult lib a pb = so_scalarmult lib b pa)"

text \<open>A key pair as \<^verbatim>\<open>crypto_box_keypair\<close> returns it.\<close>

definition keypair_ok :: "sodium \<Rightarrow> bytes \<times> bytes \<Rightarrow> bool" where
  "keypair_ok lib kp \<longleftrightarrow> length (fst kp) = X25519_PUBLIC_KEY_SIZE \<and>
     so_scalarmult_base lib (snd kp) = Some (fst kp)"

text \<open>A concrete library that meets the hypotheses, for the witnesses.\<close>

definition toy_sodium :: sodium where
  "toy_sodium =
     \<lparr>so_sha256 = (\<lambda>b. take 32 (rev b @ replicate 32 0)),
      so_hmac_sha256 = (\<lambda>k b. Some (take 32 (b @ k @ replicate 32 0))),
      so_aead_encrypt = (\<lambda>k n ad p. Some (p @ take 16 (n @ k @ replicate 16 0))),
      so_aead_decrypt = (\<lambda>k n ad c.
        if drop (length c - 16) c = take 16 (n @ k @ replicate 16 0)
        then Some (take (length c - 16) c) else None),
      so_scalarmult = (\<lambda>a b. Some (map2 (+) a b)),
      so_scalarmult_base = (\<lambda>a. Some a)\<rparr>"

lemma toy_sodium_ok: "aead_correct toy_sodium" "dh_agrees toy_sodium"
  "keypair_ok toy_sodium (replicate 32 k, replicate 32 k)"
  by (auto simp: aead_correct_def dh_agrees_def keypair_ok_def toy_sodium_def add.commute
      intro!: map_cong [OF zip_commute [THEN trans]] nth_equalityI)

lemma toy_mix_key: "\<exists>s'. mix_key toy_sodium m s = (True, s')"
  by (simp add: mix_key_def derive_key_pair_def compute_hmac_def expand_key_block_def toy_sodium_def)

lemma toy_encrypt_and_hash:
  "mix_key toy_sodium m s = (True, s') \<Longrightarrow> \<exists>x s''. encrypt_and_hash toy_sodium p s' = (Some x, s'')"
  by (auto simp: mix_key_def encrypt_and_hash_def encrypt_with_ad_def initialize_key_def toy_sodium_def
      split: option.splits prod.splits)

section \<open>Facts about the cipher state\<close>

lemma build_nonce_eq: "build_nonce c = replicate 4 0 @ le_bytes (cs_nonce_counter c)"
proof -
  have "fold (\<lambda>i out. out[4 + i := f i]) [0..<n] (xs @ ys) =
      xs @ fold (\<lambda>i out. out[i := f i]) [0..<n] ys"
    if "length xs = 4" for f :: "nat \<Rightarrow> u8" and n xs ys
    using that by (induction n) (simp_all add: list_update_append)
  from this [of "replicate 4 0" _ 8 "replicate 8 0"]
  have "build_nonce c = replicate 4 0 @ fold (\<lambda>i out. out[i :=
      ucast (drop_bit (i * 8) (cs_nonce_counter c) AND 0xFF)]) [0..<8] (replicate 8 0)"
    by (simp add: build_nonce_def replicate_add [symmetric])
  then show ?thesis by (simp add: fold_list_update le_bytes_def)
qed

lemma build_nonce_inj: "build_nonce c = build_nonce d \<longleftrightarrow> cs_nonce_counter c = cs_nonce_counter d"
proof
  assume "build_nonce c = build_nonce d"
  then have "le_bytes (cs_nonce_counter c) @ [] = le_bytes (cs_nonce_counter d) @ []"
    by (simp add: build_nonce_eq)
  then have "load_little_endian (le_bytes (cs_nonce_counter c) @ []) =
      (load_little_endian (le_bytes (cs_nonce_counter d) @ []) :: u64 option)" by simp
  then show "cs_nonce_counter c = cs_nonce_counter d"
    using load_le_bytes [of "cs_nonce_counter c" "[]"] load_le_bytes [of "cs_nonce_counter d" "[]"]
    by simp
qed (simp add: build_nonce_eq)

lemma decrypt_encrypt:
  assumes "aead_correct lib" "cs_has_key c" "encrypt_with_ad lib ad p c = (Some x, c')"
  shows "decrypt_with_ad lib ad x c = (Some p, c')"
proof -
  have e: "cs_nonce_counter c \<noteq> - 1" "so_aead_encrypt lib (cs_key c) (build_nonce c) ad p = Some x"
    "c' = c\<lparr>cs_nonce_counter := cs_nonce_counter c + 1\<rparr>"
    using assms(2,3) by (auto simp: encrypt_with_ad_def split: if_splits option.splits)
  then have "length x = length p + 16" "so_aead_decrypt lib (cs_key c) (build_nonce c) ad x = Some p"
    using assms(1) unfolding aead_correct_def by auto
  then show ?thesis using assms(2) e by (simp add: decrypt_with_ad_def)
qed

lemma encrypt_with_ad_keeps: "encrypt_with_ad lib ad p c = (x, c') \<Longrightarrow>
   cs_key c' = cs_key c \<and> cs_has_key c' = cs_has_key c"
  by (auto simp: encrypt_with_ad_def split: if_splits option.splits)

lemma decrypt_failure_keeps: "decrypt_with_ad lib ad x c = (None, c') \<Longrightarrow> c' = c"
  by (auto simp: decrypt_with_ad_def split: if_splits option.splits)

lemma decrypt_encrypt_and_hash:
  assumes "aead_correct lib" "cs_has_key (ss_cipher s)" "encrypt_and_hash lib p s = (Some x, s')"
  shows "decrypt_and_hash lib x s = (Some p, s')"
proof -
  obtain c where c: "encrypt_with_ad lib (ss_handshake_hash s) p (ss_cipher s) = (Some x, c)"
    and s': "s' = mix_hash lib x (s\<lparr>ss_cipher := c\<rparr>)"
    using assms(3) by (auto simp: encrypt_and_hash_def split: prod.splits option.splits)
  show ?thesis
    using decrypt_encrypt [OF assms(1,2) c] s' by (simp add: decrypt_and_hash_def)
qed

lemma mix_key_has_key: "mix_key lib m s = (True, s') \<Longrightarrow> cs_has_key (ss_cipher s')"
  by (auto simp: mix_key_def initialize_key_def split: option.splits)

lemma encrypted_length:
  assumes "aead_correct lib" "cs_has_key (ss_cipher s)" "encrypt_and_hash lib p s = (Some x, s')"
  shows "16 \<le> length x"
  using assms
  by (auto simp: encrypt_and_hash_def encrypt_with_ad_def aead_correct_def
      split: prod.splits option.splits if_splits)

section \<open>The handshake\<close>

lemma dh_agreesD:
  assumes "dh_agrees lib" "keypair_ok lib (pa, a)" "keypair_ok lib (pb, b)"
  shows "so_scalarmult lib a pb = so_scalarmult lib b pa"
proof -
  have "so_scalarmult_base lib a = Some pa" "so_scalarmult_base lib b = Some pb"
    using assms(2,3) by (simp_all add: keypair_ok_def)
  then show ?thesis using assms(1) unfolding dh_agrees_def by blast
qed

lemma new_initiator_simps [simp]:
  "hi_remote_static (new_initiator lib sp) = sp" "hi_complete (new_initiator lib sp) = False"
  by (simp_all add: new_initiator_def)

lemma write_first_message_Some:
  assumes "write_first_message lib (Some (ep, es)) p i = (Some m, i')"
  shows "\<exists>shared s s' sealed. so_scalarmult lib es (hi_remote_static i) = Some shared \<and>
    mix_key lib shared (mix_hash lib ep (hi_state i)) = (True, s) \<and>
    encrypt_and_hash lib p s = (Some sealed, s') \<and> m = ep @ sealed \<and>
    hi_state i' = s' \<and> hi_ephemeral_secret i' = es \<and> hi_first_message_sent i' \<and>
    hi_complete i' = hi_complete i"
proof -
  obtain ok shared where sh: "so_scalarmult lib es (hi_remote_static i) = (if ok then Some shared else None)"
    by (metis (full_types) option.exhaust)
  obtain b s where mk: "mix_key lib shared (mix_hash lib ep (hi_state i)) = (b, s)" by fastforce
  obtain x s' where e: "encrypt_and_hash lib p s = (x, s')" by fastforce
  show ?thesis
    using assms sh mk e
    by (cases ok; cases b; cases x)
      (auto simp: write_first_message_def compute_shared_secret_def Let_def split: if_splits)
qed

lemma read_first_message_reads:
  assumes lib: "aead_correct lib" "dh_agrees lib" "keypair_ok lib (sp, ss)" "keypair_ok lib (ep, es)"
    and first: "write_first_message lib (Some (ep, es)) p (new_initiator lib sp) = (Some m, i')"
  shows "\<exists>h. read_first_message lib m (new_responder lib sp ss) = (Some p, h) \<and>
    hr_state h = hi_state i' \<and> hr_remote_ephemeral h = ep \<and> hr_first_message_read h \<and> \<not> hr_complete h"
proof -
  let ?i = "new_initiator lib sp"
  let ?h = "new_responder lib sp ss"
  from write_first_message_Some [OF first] obtain shared s s' sealed where w:
    "so_scalarmult lib es sp = Some shared" "mix_key lib shared (mix_hash lib ep (hi_state ?i)) = (True, s)"
    "encrypt_and_hash lib p s = (Some sealed, s')" "m = ep @ sealed" "hi_state i' = s'"
    unfolding new_initiator_simps by blast
  have st: "hr_state ?h = hi_state ?i" by (simp add: new_initiator_def new_responder_def)
  have dh: "so_scalarmult lib ss ep = Some shared"
    using dh_agreesD [OF lib(2,3,4)] w(1) by simp
  have "16 \<le> length sealed" by (rule encrypted_length [OF lib(1) mix_key_has_key [OF w(2)] w(3)])
  moreover have "length ep = 32" using lib(4) by (simp add: keypair_ok_def)
  ultimately show ?thesis
    using w dh st decrypt_encrypt_and_hash [OF lib(1) mix_key_has_key [OF w(2)] w(3)]
    by (simp add: read_first_message_def compute_shared_secret_def new_responder_def Let_def)
qed

lemma write_second_message_Some:
  assumes "write_second_message lib (Some (fp, fs)) p h = (Some m, h')"
  shows "\<exists>shared s s' sealed. so_scalarmult lib fs (hr_remote_ephemeral h) = Some shared \<and>
    mix_key lib shared (mix_hash lib fp (hr_state h)) = (True, s) \<and>
    encrypt_and_hash lib p s = (Some sealed, s') \<and> m = fp @ sealed \<and>
    hr_state h' = s' \<and> hr_complete h'"
proof -
  obtain ok shared where sh: "so_scalarmult lib fs (hr_remote_ephemeral h) = (if ok then Some shared else None)"
    by (metis (full_types) option.exhaust)
  obtain b s where mk: "mix_key lib shared (mix_hash lib fp (hr_state h)) = (b, s)" by fastforce
  obtain x s' where e: "encrypt_and_hash lib p s = (x, s')" by fastforce
  show ?thesis
    using assms sh mk e
    by (cases ok; cases b; cases x)
      (auto simp: write_second_message_def compute_shared_secret_def Let_def split: if_splits)
qed

lemma read_second_message_reads:
  assumes lib: "aead_correct lib" "dh_agrees lib" "keypair_ok lib (ep, es)" "keypair_ok lib (fp, fs)"
    and h: "hr_state h = hi_state i" "hr_remote_ephemeral h = ep"
    and i: "hi_first_message_sent i" "\<not> hi_complete i" "hi_ephemeral_secret i = es"
    and second: "write_second_message lib (Some (fp, fs)) p h = (Some m, h')"
  shows "\<exists>i'. read_second_message lib m i = (Some p, i') \<and> hi_complete i' \<and> hr_complete h' \<and>
    hi_state i' = hr_state h'"
proof -
  from write_second_message_Some [OF second] obtain shared s s' sealed where w: "so_scalarmult lib fs ep = Some shared"
    "mix_key lib shared (mix_hash lib fp (hi_state i)) = (True, s)"
    "encrypt_and_hash lib p s = (Some sealed, s')" "m = fp @ sealed" "hr_state h' = s'" "hr_complete h'"
    unfolding h by blast
  have dh: "so_scalarmult lib es fp = Some shared"
    using dh_agreesD [OF lib(2,3,4)] w(1) by simp
  have "16 \<le> length sealed" by (rule encrypted_length [OF lib(1) mix_key_has_key [OF w(2)] w(3)])
  moreover have "length fp = 32" using lib(4) by (simp add: keypair_ok_def)
  ultimately show ?thesis
    using w dh i decrypt_encrypt_and_hash [OF lib(1) mix_key_has_key [OF w(2)] w(3)]
    by (simp add: read_second_message_def compute_shared_secret_def Let_def)
qed

section \<open>Sequences of transport messages\<close>

primrec encrypt_all :: "sodium \<Rightarrow> bytes list \<Rightarrow> noise_transport \<Rightarrow> bytes list option \<times> noise_transport" where
  "encrypt_all lib [] t = (Some [], t)"
| "encrypt_all lib (p # ps) t =
     (case encrypt_message lib p t of
        (None, t') \<Rightarrow> (None, t')
      | (Some x, t') \<Rightarrow>
          (case encrypt_all lib ps t' of
             (None, t'') \<Rightarrow> (None, t'')
           | (Some xs, t'') \<Rightarrow> (Some (x # xs), t'')))"

text \<open>
  What a receiver makes of a sequence of messages. The first one that does not decrypt ends the
  session, as the connections of the server and of the client do: the plaintexts accepted before
  it, whether the session is still open, and the transport.
\<close>

primrec decrypt_until_failure ::
  "sodium \<Rightarrow> bytes list \<Rightarrow> noise_transport \<Rightarrow> bytes list \<times> bool \<times> noise_transport" where
  "decrypt_until_failure lib [] t = ([], True, t)"
| "decrypt_until_failure lib (y # ys) t =
     (case decrypt_message lib y t of
        (None, t') \<Rightarrow> ([], False, t')
      | (Some p, t') \<Rightarrow>
          (let (ps, still_open, t'') = decrypt_until_failure lib ys t' in (p # ps, still_open, t'')))"

text \<open>The nonces of the successful encryptions of a sequence of messages.\<close>

primrec nonces_used :: "sodium \<Rightarrow> bytes list \<Rightarrow> noise_transport \<Rightarrow> bytes list" where
  "nonces_used lib [] t = []"
| "nonces_used lib (p # ps) t =
     (let (x, t') = encrypt_message lib p t;
          rest = nonces_used lib ps t'
      in if x = None then rest else build_nonce (nt_send_state t) # rest)"

lemma encrypt_message_counter:
  assumes "cs_has_key (nt_send_state t)" and "encrypt_message lib p t = (Some x, t')"
  shows "unat (cs_nonce_counter (nt_send_state t')) = unat (cs_nonce_counter (nt_send_state t)) + 1"
    and "cs_has_key (nt_send_state t')"
proof -
  have c: "cs_nonce_counter (nt_send_state t) \<noteq> - 1"
    and t': "cs_nonce_counter (nt_send_state t') = cs_nonce_counter (nt_send_state t) + 1"
    "cs_has_key (nt_send_state t')"
    using assms
    by (auto simp: encrypt_message_def encrypt_with_ad_def Let_def split: if_splits option.splits)
  have "cs_nonce_counter (nt_send_state t) < - 1"
    using c word_order.not_eq_extremum by blast
  with t' show "unat (cs_nonce_counter (nt_send_state t')) = unat (cs_nonce_counter (nt_send_state t)) + 1"
    and "cs_has_key (nt_send_state t')"
    by (simp_all add: unat_plus_one)
qed

lemma encrypt_message_None: "encrypt_message lib p t = (None, t') \<Longrightarrow> t' = t"
  by (auto simp: encrypt_message_def encrypt_with_ad_def Let_def split: if_splits option.splits)

lemma nonces_used_fresh:
  assumes "cs_has_key (nt_send_state t)"
  shows "distinct (nonces_used lib ps t) \<and>
    (\<forall>n\<in>set (nonces_used lib ps t). \<exists>c. n = build_nonce c \<and>
       unat (cs_nonce_counter (nt_send_state t)) \<le> unat (cs_nonce_counter c))"
  using assms
proof (induction ps arbitrary: t)
  case Nil
  then show ?case by simp
next
  case (Cons p ps)
  obtain x t' where e: "encrypt_message lib p t = (x, t')" by fastforce
  show ?case
  proof (cases x)
    case None
    then have "t' = t" using e by (simp add: encrypt_message_None)
    with Cons.IH [OF Cons.prems] e None show ?thesis by simp
  next
    case (Some y)
    note n = encrypt_message_counter [OF Cons.prems e [unfolded Some]]
    note IH = Cons.IH [OF n(2)]
    have "build_nonce (nt_send_state t) \<notin> set (nonces_used lib ps t')"
      using IH n(1) by (auto simp: build_nonce_inj)
    moreover have "\<forall>m\<in>set (nonces_used lib ps t'). \<exists>c. m = build_nonce c \<and>
        unat (cs_nonce_counter (nt_send_state t)) \<le> unat (cs_nonce_counter c)"
      using IH n(1) by fastforce
    ultimately show ?thesis using IH e Some by auto
  qed
qed

text \<open>
  Integrity of the ciphertexts, as the AEAD promises it of a key that only its two owners hold:
  of the messages \<open>ys\<close> that reach the receiver, those that open under some nonce were sealed by
  the sender with that very nonce. Nothing is said of their order or number, nor that a message
  opens.
\<close>

definition unforged :: "sodium \<Rightarrow> bytes \<Rightarrow> (bytes \<times> bytes) set \<Rightarrow> bytes list \<Rightarrow> bool" where
  "unforged lib k sealed ys \<longleftrightarrow> (\<forall>y\<in>set ys. \<forall>n p. length n = CHACHA_IETF_NONCE_SIZE \<longrightarrow>
     so_aead_decrypt lib k n [] y = Some p \<longrightarrow> (n, y) \<in> sealed)"

lemma decrypt_message_fails:
  assumes "cs_has_key (nt_receive_state t)"
    and "so_aead_decrypt lib (cs_key (nt_receive_state t)) (build_nonce (nt_receive_state t)) [] y = None"
  shows "decrypt_message lib y t = (None, t)"
  using assms by (simp add: decrypt_message_def decrypt_with_ad_def)

lemma encrypt_all_Cons:
  assumes "encrypt_all lib (p # ps) a = (Some xs, a')"
  obtains x a1 xs' where "encrypt_message lib p a = (Some x, a1)" "xs = x # xs'"
    "encrypt_all lib ps a1 = (Some xs', a')"
  using assms by (auto split: prod.splits option.splits)

lemma decrypt_message_sealed:
  assumes "aead_correct lib" "cs_has_key (nt_send_state a)" "nt_receive_state b = nt_send_state a"
    and x: "encrypt_message lib p a = (Some x, a1)"
  shows "decrypt_message lib x b = (Some p, b\<lparr>nt_receive_state := nt_send_state a1\<rparr>)"
    and "cs_key (nt_send_state a1) = cs_key (nt_send_state a)" and "cs_has_key (nt_send_state a1)"
proof -
  have e: "encrypt_with_ad lib [] p (nt_send_state a) = (Some x, nt_send_state a1)"
    using x by (auto simp: encrypt_message_def split: prod.splits)
  show "decrypt_message lib x b = (Some p, b\<lparr>nt_receive_state := nt_send_state a1\<rparr>)"
    using decrypt_encrypt [OF assms(1,2) e] assms(3) by (simp add: decrypt_message_def)
  show "cs_key (nt_send_state a1) = cs_key (nt_send_state a)" and "cs_has_key (nt_send_state a1)"
    using encrypt_with_ad_keeps [OF e] assms(2) by simp_all
qed

text \<open>
  The sealed messages, each with its nonce. The nonces after the first message are later ones, so
  that under the receiver's current nonce only the message that is due can open.
\<close>

lemma sealed_later:
  assumes "cs_has_key (nt_send_state a)" and "encrypt_message lib p a = (Some x, a1)"
  shows "(build_nonce (nt_send_state a), y) \<notin> set (zip (nonces_used lib ps a1) xs)"
proof
  assume "(build_nonce (nt_send_state a), y) \<in> set (zip (nonces_used lib ps a1) xs)"
  then have "build_nonce (nt_send_state a) \<in> set (nonces_used lib ps a1)" by (rule set_zip_leftD)
  then obtain c where "build_nonce (nt_send_state a) = build_nonce c"
    "unat (cs_nonce_counter (nt_send_state a1)) \<le> unat (cs_nonce_counter c)"
    using nonces_used_fresh [OF encrypt_message_counter(2) [OF assms], of lib ps] by blast
  then show False using encrypt_message_counter(1) [OF assms] by (simp add: build_nonce_inj)
qed

lemma decrypt_until_deviation:
  assumes "aead_correct lib" "cs_has_key (nt_send_state a)" "nt_receive_state b = nt_send_state a"
    and "encrypt_all lib ps a = (Some xs, a')"
    and "\<forall>y\<in>set ys. \<forall>c p. unat (cs_nonce_counter (nt_send_state a)) \<le> unat (cs_nonce_counter c) \<longrightarrow>
      so_aead_decrypt lib (cs_key (nt_send_state a)) (build_nonce c) [] y = Some p \<longrightarrow>
      (build_nonce c, y) \<in> set (zip (nonces_used lib ps a) xs)"
  shows "\<exists>t. decrypt_until_failure lib ys b =
      (take (length (longest_common_prefix ys xs)) ps, longest_common_prefix ys xs = ys, t) \<and>
    unat (cs_nonce_counter (nt_receive_state t)) =
      unat (cs_nonce_counter (nt_send_state a)) + length (longest_common_prefix ys xs) \<and>
    (ys = xs \<longrightarrow> nt_receive_state t = nt_send_state a')"
  using assms
proof (induction ys arbitrary: a b ps xs)
  case Nil
  then show ?case by (cases ps) (auto split: prod.splits option.splits)
next
  case (Cons y ys)
  show ?case
  proof (cases "\<exists>p ps' x a1 xs'. ps = p # ps' \<and> encrypt_message lib p a = (Some x, a1) \<and> xs = x # xs' \<and>
      encrypt_all lib ps' a1 = (Some xs', a') \<and> y = x")
    case True
    then obtain p ps' a1 xs' where ps: "ps = p # ps'" and x: "encrypt_message lib p a = (Some y, a1)"
      and xs: "xs = y # xs'" and rest: "encrypt_all lib ps' a1 = (Some xs', a')" by blast
    note d = decrypt_message_sealed [OF Cons.prems(1-3) x]
    note c = encrypt_message_counter(1) [OF Cons.prems(2) x]
    have later: "\<forall>z\<in>set ys. \<forall>d p. unat (cs_nonce_counter (nt_send_state a1)) \<le> unat (cs_nonce_counter d) \<longrightarrow>
      so_aead_decrypt lib (cs_key (nt_send_state a1)) (build_nonce d) [] z = Some p \<longrightarrow>
      (build_nonce d, z) \<in> set (zip (nonces_used lib ps' a1) xs')"
    proof (intro ballI allI impI)
      fix z d q
      assume z: "z \<in> set ys" "unat (cs_nonce_counter (nt_send_state a1)) \<le> unat (cs_nonce_counter d)"
        "so_aead_decrypt lib (cs_key (nt_send_state a1)) (build_nonce d) [] z = Some q"
      then have "(build_nonce d, z) \<in> set (zip (nonces_used lib ps a) xs)"
        using Cons.prems(5) c d(2) by auto
      then show "(build_nonce d, z) \<in> set (zip (nonces_used lib ps' a1) xs')"
        using z(2) c x ps xs by (auto simp: build_nonce_inj)
    qed
    from Cons.IH [OF Cons.prems(1) d(3) _ rest later, of "b\<lparr>nt_receive_state := nt_send_state a1\<rparr>"]
    show ?thesis using d(1) c ps xs by auto
  next
    case False
    have differ: "longest_common_prefix (y # ys) xs = []" "y # ys \<noteq> xs"
      and "(build_nonce (nt_send_state a), y) \<notin> set (zip (nonces_used lib ps a) xs)"
    proof -
      have "longest_common_prefix (y # ys) xs = [] \<and> y # ys \<noteq> xs \<and>
        (build_nonce (nt_send_state a), y) \<notin> set (zip (nonces_used lib ps a) xs)"
      proof (cases ps)
        case Nil
        then show ?thesis using Cons.prems(4) by simp
      next
        case (Cons p ps')
        from \<open>encrypt_all lib ps a = (Some xs, a')\<close> [unfolded Cons] obtain x a1 xs'
          where x: "encrypt_message lib p a = (Some x, a1)" "xs = x # xs'"
            "encrypt_all lib ps' a1 = (Some xs', a')" by (rule encrypt_all_Cons)
        then have "y \<noteq> x" using False Cons by blast
        then show ?thesis
          using x Cons sealed_later [OF \<open>cs_has_key (nt_send_state a)\<close> x(1), of y ps' xs'] by simp
      qed
      then show "longest_common_prefix (y # ys) xs = []" "y # ys \<noteq> xs"
        "(build_nonce (nt_send_state a), y) \<notin> set (zip (nonces_used lib ps a) xs)" by blast+
    qed
    then have "so_aead_decrypt lib (cs_key (nt_send_state a)) (build_nonce (nt_send_state a)) [] y = None"
      using Cons.prems(5) by fastforce
    then have "decrypt_message lib y b = (None, b)"
      using decrypt_message_fails [of b lib y] Cons.prems(2,3) by simp
    then show ?thesis using differ Cons.prems(3) by simp
  qed
qed

section \<open>Properties\<close>

text \<open>
  C12: the handshake. With the server's static key known to the client, a message one written by
  the client is accepted by the server, which recovers its payload; a message two written by the
  server is accepted by the client, which recovers its payload; both sides are then complete, and
  each exports the other's keys in the opposite order: what one sends with, the other receives
  with.
\<close>

theorem noise_handshake_agrees:
  assumes "aead_correct lib" and "dh_agrees lib"
    and "keypair_ok lib (sp, ss)" and "keypair_ok lib (ep, es)" and "keypair_ok lib (fp, fs)"
    and "write_first_message lib (Some (ep, es)) p1 (new_initiator lib sp) = (Some m1, i1)"
  shows "\<exists>h1. read_first_message lib m1 (new_responder lib sp ss) = (Some p1, h1) \<and>
    (\<forall>m2 h2. write_second_message lib (Some (fp, fs)) p2 h1 = (Some m2, h2) \<longrightarrow>
      (\<exists>i2. read_second_message lib m2 i1 = (Some p2, i2) \<and> hi_complete i2 \<and> hr_complete h2 \<and>
        initiator_export_transport_keys lib i2 =
          map_option prod.swap (responder_export_transport_keys lib h2)))"
proof -
  obtain h1 where h1: "read_first_message lib m1 (new_responder lib sp ss) = (Some p1, h1)"
    "hr_state h1 = hi_state i1" "hr_remote_ephemeral h1 = ep"
    using read_first_message_reads [OF assms(1-4,6)] by blast
  have i1: "hi_first_message_sent i1" "\<not> hi_complete i1" "hi_ephemeral_secret i1 = es"
    using write_first_message_Some [OF assms(6)] by auto
  have "\<exists>i2. read_second_message lib m2 i1 = (Some p2, i2) \<and> hi_complete i2 \<and> hr_complete h2 \<and>
        initiator_export_transport_keys lib i2 =
          map_option prod.swap (responder_export_transport_keys lib h2)"
    if w: "write_second_message lib (Some (fp, fs)) p2 h1 = (Some m2, h2)" for m2 h2
  proof -
    obtain i2 where "read_second_message lib m2 i1 = (Some p2, i2)" "hi_complete i2" "hr_complete h2"
      "hi_state i2 = hr_state h2"
      using read_second_message_reads [OF assms(1,2,4,5) h1(2,3) i1 w] by blast
    then show ?thesis
      by (cases "split_transport_keys lib (hr_state h2)")
        (auto simp: initiator_export_transport_keys_def responder_export_transport_keys_def)
  qed
  with h1(1) show ?thesis by blast
qed

theorem noise_handshake_agrees_witness:
  "\<exists>m1 i1 h1. write_first_message toy_sodium (Some (replicate 32 2, replicate 32 2)) [7]
      (new_initiator toy_sodium (replicate 32 1)) = (Some m1, i1) \<and>
    read_first_message toy_sodium m1 (new_responder toy_sodium (replicate 32 1) (replicate 32 1)) =
      (Some [7], h1)"
proof -
  let ?e = "replicate 32 2 :: bytes"
  let ?i = "new_initiator toy_sodium (replicate 32 1)"
  obtain shared where sh: "so_scalarmult toy_sodium ?e (hi_remote_static ?i) = Some shared"
    by (simp add: toy_sodium_def)
  obtain s where mk: "mix_key toy_sodium shared (mix_hash toy_sodium ?e (hi_state ?i)) = (True, s)"
    using toy_mix_key by blast
  obtain x s' where e: "encrypt_and_hash toy_sodium [7] s = (Some x, s')"
    using toy_encrypt_and_hash [OF mk] by blast
  have "\<not> hi_first_message_sent ?i" by (simp add: new_initiator_def)
  then obtain m1 i1 where w: "write_first_message toy_sodium (Some (?e, ?e)) [7] ?i = (Some m1, i1)"
    using sh mk e by (simp add: write_first_message_def compute_shared_secret_def Let_def)
  from noise_handshake_agrees [OF toy_sodium_ok(1,2) toy_sodium_ok(3) [of 1] toy_sodium_ok(3) [of 2]
      toy_sodium_ok(3) [of 3] w] w
  show ?thesis by blast
qed

text \<open>
  C13: the transport. One end encrypts a sequence of messages; what reaches the other end is any
  sequence at all: messages may be injected, altered, dropped, repeated or reordered on the way.
  As long as no message is a forgery, the receiver accepts exactly the plaintexts of the messages
  before the first deviation from what was sent, in order, and the session is over at the
  deviation; its counter has counted the accepted messages and nothing else, and when everything
  arrived as sent both ends hold equal cipher states.
\<close>

theorem noise_transport_in_step:
  assumes "aead_correct lib" and "encrypt_all lib ps (new_transport k1 k2) = (Some xs, a)"
    and "unforged lib k1 (set (zip (nonces_used lib ps (new_transport k1 k2)) xs)) ys"
  shows "\<exists>t. decrypt_until_failure lib ys (new_transport k2 k1) =
      (take (length (longest_common_prefix ys xs)) ps, longest_common_prefix ys xs = ys, t) \<and>
    unat (cs_nonce_counter (nt_receive_state t)) = length (longest_common_prefix ys xs) \<and>
    (ys = xs \<longrightarrow> nt_receive_state t = nt_send_state a)"
proof -
  have start: "cs_has_key (nt_send_state (new_transport k1 k2))"
    "nt_receive_state (new_transport k2 k1) = nt_send_state (new_transport k1 k2)"
    "cs_key (nt_send_state (new_transport k1 k2)) = k1"
    "cs_nonce_counter (nt_send_state (new_transport k1 k2)) = 0"
    by (simp_all add: new_transport_def initialize_key_def)
  have "length (build_nonce c) = CHACHA_IETF_NONCE_SIZE" for c by (simp add: build_nonce_eq)
  then have "\<forall>y\<in>set ys. \<forall>c p. so_aead_decrypt lib k1 (build_nonce c) [] y = Some p \<longrightarrow>
      (build_nonce c, y) \<in> set (zip (nonces_used lib ps (new_transport k1 k2)) xs)"
    using assms(3) unfolding unforged_def by blast
  then show ?thesis
    using decrypt_until_deviation [OF assms(1) start(1,2) assms(2), of ys] unfolding start by simp
qed

text \<open>
  Two messages are sent; the first one arrives, then once more, then two bytes of junk, then the
  second message. Only the first plaintext is accepted.
\<close>

theorem noise_transport_in_step_witness:
  "\<exists>x y a t. encrypt_all toy_sodium [[1], [2]] (new_transport (replicate 32 1) (replicate 32 2)) =
      (Some [x, y], a) \<and>
    decrypt_until_failure toy_sodium [x, x, [9, 9], y] (new_transport (replicate 32 2) (replicate 32 1)) =
      ([[1]], False, t) \<and> unat (cs_nonce_counter (nt_receive_state t)) = 1"
proof -
  let ?t = "new_transport (replicate 32 1) (replicate 32 2)"
  let ?tag = "\<lambda>n. take 16 (n @ replicate 32 (1 :: u8) @ replicate 16 0)"
  let ?n = "\<lambda>i. replicate 4 0 @ le_bytes (i :: u64)"
  let ?x = "[1] @ ?tag (?n 0)" and ?y = "[2] @ ?tag (?n 1)"
  obtain a where all: "encrypt_all toy_sodium [[1], [2]] ?t = (Some [?x, ?y], a)"
    and nonces: "nonces_used toy_sodium [[1], [2]] ?t = [?n 0, ?n 1]"
    by (simp add: encrypt_message_def encrypt_with_ad_def new_transport_def initialize_key_def
        toy_sodium_def Let_def build_nonce_eq)
  have "unforged toy_sodium (replicate 32 1) (set (zip (nonces_used toy_sodium [[1], [2]] ?t) [?x, ?y]))
      [?x, ?x, [9, 9], ?y]"
    unfolding unforged_def nonces
    by (auto simp: toy_sodium_def split: if_splits dest: arg_cong [where f = length])
  from noise_transport_in_step [OF toy_sodium_ok(1) all this]
  show ?thesis using all by fastforce
qed

text \<open>
  No nonce is ever used twice under a transport key. Whatever is encrypted, and in whatever
  order encryptions succeed or fail, the nonces handed to the AEAD for the messages that were
  produced are pairwise different; the counter refuses to wrap around.
\<close>

theorem transport_nonces_distinct:
  "distinct (nonces_used lib ps (new_transport send_key receive_key))"
  using nonces_used_fresh [of "new_transport send_key receive_key" lib ps]
  by (simp add: new_transport_def initialize_key_def)

end
