(* ===== verification/Connection.thy ===== *)
theory Connection
  imports Noise
begin

text \<open>
  One client connection (\<^verbatim>\<open>src/server/net\<close>): the socket with its bounded output queue, the server
  end of the encrypted channel, and the session state. What \<^verbatim>\<open>recv\<close> and \<^verbatim>\<open>send\<close> return is
  an argument, one element per call; a run of the loop ends as the C++ does, or with \<open>None\<close> when
  the kernel has not answered yet.
\<close>

section \<open>The socket\<close>

definition MAX_PENDING_OUTPUT :: nat where [simp]: "MAX_PENDING_OUTPUT = 4 * 1024 * 1024"
definition READ_CHUNK_SIZE :: nat where [simp]: "READ_CHUNK_SIZE = 16 * 1024"

record connection_socket =
  sk_descriptor :: int
  sk_pending_output :: bytes

definition new_socket :: "int \<Rightarrow> connection_socket" where
  "new_socket descriptor = \<lparr>sk_descriptor = descriptor, sk_pending_output = []\<rparr>"

datatype recv_result = Received bytes | Recv_end | Recv_would_block | Recv_interrupted | Recv_error

fun read_available :: "recv_result list \<Rightarrow> bytes \<Rightarrow> (bool \<times> bytes) option" where
  "read_available [] destination = None"
| "read_available (Received chunk # rs) destination = read_available rs (destination @ chunk)"
| "read_available (Recv_end # rs) destination = Some (False, destination)"
| "read_available (Recv_would_block # rs) destination = Some (True, destination)"
| "read_available (Recv_interrupted # rs) destination = read_available rs destination"
| "read_available (Recv_error # rs) destination = Some (False, destination)"

text \<open>\<open>Sent n\<close> stands for a positive return value of \<^verbatim>\<open>send\<close>.\<close>

datatype send_result = Sent nat | Send_would_block | Send_interrupted | Send_error

text \<open>Result, \<^verbatim>\<open>has_remaining\<close>, the socket, and the bytes handed to the kernel in this call.\<close>

fun flush_pending_writes ::
  "send_result list \<Rightarrow> connection_socket \<Rightarrow> (bool \<times> bool \<times> connection_socket \<times> bytes) option" where
  "flush_pending_writes rs s =
     (if sk_pending_output s = [] then Some (True, False, s, [])
      else case rs of
        [] \<Rightarrow> None
      | Sent n # rs' \<Rightarrow>
          map_option (\<lambda>(ok, remaining, s', wire). (ok, remaining, s', take n (sk_pending_output s) @ wire))
            (flush_pending_writes rs' (s\<lparr>sk_pending_output := drop n (sk_pending_output s)\<rparr>))
      | Send_would_block # rs' \<Rightarrow> Some (True, True, s, [])
      | Send_interrupted # rs' \<Rightarrow> flush_pending_writes rs' s
      | Send_error # rs' \<Rightarrow> Some (False, False, s, []))"

declare flush_pending_writes.simps [simp del]

definition queue_bytes :: "bytes \<Rightarrow> connection_socket \<Rightarrow> bool \<times> connection_socket" where
  "queue_bytes data s =
     (if length (sk_pending_output s) + length data > MAX_PENDING_OUTPUT then (False, s)
      else (True, s\<lparr>sk_pending_output := sk_pending_output s @ data\<rparr>))"

definition socket_ok :: "connection_socket \<Rightarrow> bool" where
  "socket_ok s \<longleftrightarrow> length (sk_pending_output s) \<le> MAX_PENDING_OUTPUT"

section \<open>The channel\<close>

record noise_channel =
  nc_handshake :: noise_handshake_responder
  nc_transport :: "noise_transport option"

definition new_channel :: "sodium \<Rightarrow> bytes \<Rightarrow> bytes \<Rightarrow> noise_channel" where
  "new_channel lib static_public static_secret =
     \<lparr>nc_handshake = new_responder lib static_public static_secret, nc_transport = None\<rparr>"

definition accept_handshake_message ::
  "sodium \<Rightarrow> (bytes \<times> bytes) option \<Rightarrow> bytes \<Rightarrow> noise_channel \<Rightarrow> bytes option \<times> noise_channel" where
  "accept_handshake_message lib generated input c =
     (if nc_transport c \<noteq> None then (None, c)
      else case read_first_message lib input (nc_handshake c) of
        (None, h) \<Rightarrow> (None, c\<lparr>nc_handshake := h\<rparr>)
      | (Some client_payload, h) \<Rightarrow>
          (case write_second_message lib generated [] h of
             (None, h') \<Rightarrow> (None, c\<lparr>nc_handshake := h'\<rparr>)
           | (Some reply, h') \<Rightarrow>
               (case responder_export_transport_keys lib h' of
                  None \<Rightarrow> (None, c\<lparr>nc_handshake := h'\<rparr>)
                | Some (send_key, receive_key) \<Rightarrow>
                    (Some reply, c\<lparr>nc_handshake := h',
                       nc_transport := Some (new_transport send_key receive_key)\<rparr>))))"

definition is_established :: "noise_channel \<Rightarrow> bool" where
  "is_established c \<longleftrightarrow> nc_transport c \<noteq> None"

definition open_message :: "sodium \<Rightarrow> bytes \<Rightarrow> noise_channel \<Rightarrow> bytes option \<times> noise_channel" where
  "open_message lib ciphertext c =
     (case nc_transport c of
        None \<Rightarrow> (None, c)
      | Some t \<Rightarrow> (let (plaintext, t') = decrypt_message lib ciphertext t
                   in (plaintext, c\<lparr>nc_transport := Some t'\<rparr>)))"

definition seal_message :: "sodium \<Rightarrow> bytes \<Rightarrow> noise_channel \<Rightarrow> bytes option \<times> noise_channel" where
  "seal_message lib plaintext c =
     (case nc_transport c of
        None \<Rightarrow> (None, c)
      | Some t \<Rightarrow> (let (ciphertext, t') = encrypt_message lib plaintext t
                   in (ciphertext, c\<lparr>nc_transport := Some t'\<rparr>)))"

section \<open>The session\<close>

datatype session_phase = Awaiting_handshake | Awaiting_hello | Awaiting_auth | Authenticated

record session_state =
  st_phase :: session_phase
  st_announced_pubkey :: bytes
  st_challenge_nonce :: bytes
  st_user_id :: int
  st_handle :: bytes
  st_peer_address :: bytes
  st_connected_at :: u64
  st_last_activity_at :: u64

definition new_session :: session_state where
  "new_session =
     \<lparr>st_phase = Awaiting_handshake, st_announced_pubkey = replicate PUBLIC_KEY_SIZE 0,
      st_challenge_nonce = replicate AUTH_NONCE_SIZE 0, st_user_id = 0, st_handle = [],
      st_peer_address = [], st_connected_at = 0, st_last_activity_at = 0\<rparr>"

record client_connection =
  cn_socket :: connection_socket
  cn_channel :: noise_channel
  cn_session :: session_state
  cn_input_buffer :: bytes

section \<open>Facts\<close>

lemma queue_bytes_ok: "socket_ok s \<Longrightarrow> socket_ok (snd (queue_bytes data s))"
  by (simp add: queue_bytes_def socket_ok_def)

lemma flush_simps:
  "sk_pending_output s = [] \<Longrightarrow> flush_pending_writes rs s = Some (True, False, s, [])"
  "sk_pending_output s \<noteq> [] \<Longrightarrow> flush_pending_writes [] s = None"
  "sk_pending_output s \<noteq> [] \<Longrightarrow> flush_pending_writes (Sent n # rs) s =
     map_option (\<lambda>(ok, remaining, s', wire). (ok, remaining, s', take n (sk_pending_output s) @ wire))
       (flush_pending_writes rs (s\<lparr>sk_pending_output := drop n (sk_pending_output s)\<rparr>))"
  "sk_pending_output s \<noteq> [] \<Longrightarrow> flush_pending_writes (Send_would_block # rs) s = Some (True, True, s, [])"
  "sk_pending_output s \<noteq> [] \<Longrightarrow> flush_pending_writes (Send_interrupted # rs) s = flush_pending_writes rs s"
  "sk_pending_output s \<noteq> [] \<Longrightarrow> flush_pending_writes (Send_error # rs) s = Some (False, False, s, [])"
  by (subst flush_pending_writes.simps, simp)+

lemma flush_conserves:
  "flush_pending_writes rs s = Some (ok, remaining, s', wire) \<Longrightarrow>
   wire @ sk_pending_output s' = sk_pending_output s \<and>
   (ok \<longrightarrow> (remaining \<longleftrightarrow> sk_pending_output s' \<noteq> [])) \<and> sk_descriptor s' = sk_descriptor s"
proof (induction rs arbitrary: s wire)
  case Nil
  then show ?case by (cases "sk_pending_output s = []") (simp_all add: flush_simps)
next
  case (Cons r rs)
  show ?case
  proof (cases "sk_pending_output s = []")
    case True
    then show ?thesis using Cons.prems by (simp add: flush_simps)
  next
    case ne: False
    show ?thesis
    proof (cases r)
      case (Sent n)
      let ?s = "s\<lparr>sk_pending_output := drop n (sk_pending_output s)\<rparr>"
      obtain w where w: "flush_pending_writes rs ?s = Some (ok, remaining, s', w)"
        "wire = take n (sk_pending_output s) @ w"
        using Cons.prems ne Sent by (auto simp: flush_simps)
      from Cons.IH [OF w(1)] w(2) show ?thesis by auto
    qed (use Cons ne in \<open>auto simp: flush_simps\<close>)
  qed
qed

lemma flush_ok: "flush_pending_writes rs s = Some (ok, remaining, s', wire) \<Longrightarrow> socket_ok s \<Longrightarrow> socket_ok s'"
  using flush_conserves [of rs s ok remaining s' wire]
  by (auto simp: socket_ok_def dest: arg_cong [where f = length])

text \<open>The bytes the kernel delivered before the loop stopped, in order.\<close>

primrec delivered :: "recv_result list \<Rightarrow> bytes" where
  "delivered [] = []"
| "delivered (r # rs) = (case r of Received chunk \<Rightarrow> chunk @ delivered rs
     | Recv_interrupted \<Rightarrow> delivered rs | _ \<Rightarrow> [])"

lemma read_available_delivered:
  "read_available rs destination = Some (ok, destination') \<Longrightarrow>
   destination' = destination @ delivered rs"
  by (induction rs destination rule: read_available.induct) auto

section \<open>Properties\<close>

text \<open>
  C37: the output queue loses, duplicates and reorders nothing. Whatever sequence of partial sends,
  interruptions and refusals the kernel answers with, the bytes handed to it followed by the bytes
  still queued are exactly the bytes queued before; success without remaining bytes means that
  everything went out; and the queue never exceeds its 4 MiB bound, a refused \<^verbatim>\<open>queue_bytes\<close>
  leaving it as it was.
\<close>

theorem output_queue_conserved:
  assumes "socket_ok s" and "queue_bytes data s = (queued, s1)"
    and "flush_pending_writes rs s1 = Some (ok, remaining, s2, wire)"
  shows "wire @ sk_pending_output s2 = sk_pending_output s @ (if queued then data else []) \<and>
    (ok \<longrightarrow> (remaining \<longleftrightarrow> sk_pending_output s2 \<noteq> [])) \<and> socket_ok s1 \<and> socket_ok s2"
proof -
  have "sk_pending_output s1 = sk_pending_output s @ (if queued then data else [])"
    using assms(2) by (auto simp: queue_bytes_def split: if_splits)
  moreover have "socket_ok s1" using queue_bytes_ok [OF assms(1), of data] assms(2) by simp
  ultimately show ?thesis using flush_conserves [OF assms(3)] flush_ok [OF assms(3)] by auto
qed

theorem output_queue_conserved_witness:
  "\<exists>s2 wire. flush_pending_writes [Sent 1, Send_interrupted, Send_would_block]
      (snd (queue_bytes [1, 2, 3] (new_socket 4))) = Some (True, True, s2, wire) \<and>
    wire @ sk_pending_output s2 = [1, 2, 3]"
proof -
  have q: "queue_bytes [1, 2, 3] (new_socket 4) = (True, \<lparr>sk_descriptor = 4, sk_pending_output = [1, 2, 3]\<rparr>)"
    by (simp add: queue_bytes_def new_socket_def)
  have f: "flush_pending_writes [Sent 1, Send_interrupted, Send_would_block]
      \<lparr>sk_descriptor = 4, sk_pending_output = [1, 2, 3]\<rparr> =
      Some (True, True, \<lparr>sk_descriptor = 4, sk_pending_output = [2, 3]\<rparr>, [1])"
    by (simp add: flush_simps)
  have "socket_ok (new_socket 4)" by (simp add: socket_ok_def new_socket_def)
  from output_queue_conserved [OF this q f] q f show ?thesis by (auto simp: new_socket_def)
qed

end
