(* ===== verification/Rate_Limit.thy ===== *)
theory Rate_Limit
  imports Prelude
begin

text \<open>
  Request rates (\<^verbatim>\<open>src/server/net/rate_limiter.cpp\<close>, \<^verbatim>\<open>rate_tracker.cpp\<close>). A limiter is only
  its cap; the windows live in two tables shared by all connections. Address strings are byte
  strings and user identifiers are \<open>int\<close>.
\<close>

section \<open>The limiter\<close>

record rate_window =
  rw_counter :: u32
  rw_window_start :: u64

definition fresh_window :: rate_window where
  "fresh_window = \<lparr>rw_counter = 0, rw_window_start = 0\<rparr>"

definition WINDOW_DURATION_SECONDS :: u64 where "WINDOW_DURATION_SECONDS = 60"

definition register_event :: "u32 \<Rightarrow> u64 \<Rightarrow> rate_window \<Rightarrow> bool \<times> rate_window" where
  "register_event max_events_per_minute now w =
     (if max_events_per_minute = 0 then (True, w)
      else let w1 = (if now < rw_window_start w \<or> now - rw_window_start w \<ge> WINDOW_DURATION_SECONDS
                     then \<lparr>rw_counter = 0, rw_window_start = now\<rparr> else w)
           in if rw_counter w1 \<ge> max_events_per_minute then (False, w1)
              else (True, w1\<lparr>rw_counter := rw_counter w1 + 1\<rparr>))"

section \<open>The tracker\<close>

record rate_tracker =
  rt_by_address :: "bytes \<rightharpoonup> rate_window"
  rt_by_identity :: "int \<rightharpoonup> rate_window"

record rate_policy =
  rp_per_address :: u32
  rp_per_identity :: u32
  rp_tracker :: rate_tracker

text \<open>\<^verbatim>\<open>operator[]\<close> of \<^verbatim>\<open>std::unordered_map\<close>: a missing entry is default-constructed.\<close>

definition window_at :: "('k \<rightharpoonup> rate_window) \<Rightarrow> 'k \<Rightarrow> rate_window" where
  "window_at table k = (case table k of None \<Rightarrow> fresh_window | Some w \<Rightarrow> w)"

definition allow_address_request :: "rate_policy \<Rightarrow> bytes \<Rightarrow> u64 \<Rightarrow> bool \<times> rate_policy" where
  "allow_address_request policy address now =
     (let tracker = rp_tracker policy;
          (allowed, w) = register_event (rp_per_address policy) now
                           (window_at (rt_by_address tracker) address)
      in (allowed, policy\<lparr>rp_tracker :=
            tracker\<lparr>rt_by_address := (rt_by_address tracker)(address \<mapsto> w)\<rparr>\<rparr>))"

definition allow_identity_request :: "rate_policy \<Rightarrow> int \<Rightarrow> u64 \<Rightarrow> bool \<times> rate_policy" where
  "allow_identity_request policy user_id now =
     (if user_id = 0 then (True, policy)
      else let tracker = rp_tracker policy;
               (allowed, w) = register_event (rp_per_identity policy) now
                                (window_at (rt_by_identity tracker) user_id)
           in (allowed, policy\<lparr>rp_tracker :=
                 tracker\<lparr>rt_by_identity := (rt_by_identity tracker)(user_id \<mapsto> w)\<rparr>\<rparr>))"

definition EXPIRY_SECONDS :: u64 where "EXPIRY_SECONDS = 120"

definition window_expired :: "u64 \<Rightarrow> rate_window \<Rightarrow> bool" where
  "window_expired now w \<longleftrightarrow>
     now \<ge> rw_window_start w \<and> now - rw_window_start w \<ge> EXPIRY_SECONDS"

definition forget_expired_table :: "u64 \<Rightarrow> ('k \<rightharpoonup> rate_window) \<Rightarrow> ('k \<rightharpoonup> rate_window)" where
  "forget_expired_table now table k =
     (case table k of None \<Rightarrow> None | Some w \<Rightarrow> if window_expired now w then None else Some w)"

definition forget_expired_windows :: "rate_tracker \<Rightarrow> u64 \<Rightarrow> rate_tracker" where
  "forget_expired_windows tracker now =
     \<lparr>rt_by_address = forget_expired_table now (rt_by_address tracker),
      rt_by_identity = forget_expired_table now (rt_by_identity tracker)\<rparr>"

section \<open>Traces\<close>

text \<open>
  Everything that touches the tracker while the server runs: requests from addresses and from
  identities, and the periodic sweep. A trace pairs each event with the decision it got.
\<close>

datatype rate_event = Address_request bytes u64 | Identity_request int u64 | Sweep u64

primrec event_time :: "rate_event \<Rightarrow> u64" where
  "event_time (Address_request _ t) = t"
| "event_time (Identity_request _ t) = t"
| "event_time (Sweep t) = t"

primrec rate_step :: "rate_policy \<Rightarrow> rate_event \<Rightarrow> bool \<times> rate_policy" where
  "rate_step p (Address_request a t) = allow_address_request p a t"
| "rate_step p (Identity_request i t) = allow_identity_request p i t"
| "rate_step p (Sweep t) = (True, p\<lparr>rp_tracker := forget_expired_windows (rp_tracker p) t\<rparr>)"

primrec rate_trace :: "rate_policy \<Rightarrow> rate_event list \<Rightarrow> (rate_event \<times> bool) list" where
  "rate_trace p [] = []"
| "rate_trace p (e # es) = (let (ok, p') = rate_step p e in (e, ok) # rate_trace p' es)"

definition fresh_policy :: "u32 \<Rightarrow> u32 \<Rightarrow> rate_policy" where
  "fresh_policy per_address per_identity =
     \<lparr>rp_per_address = per_address, rp_per_identity = per_identity,
      rp_tracker = \<lparr>rt_by_address = Map.empty, rt_by_identity = Map.empty\<rparr>\<rparr>"

text \<open>The requests of one address that were allowed at times in \<open>[a, a + 60)\<close>.\<close>

definition admitted :: "bytes \<Rightarrow> nat \<Rightarrow> (rate_event \<times> bool) list \<Rightarrow> nat" where
  "admitted address a trace = length (filter
     (\<lambda>(e, ok). ok \<and> (case e of
        Address_request k t \<Rightarrow> k = address \<and> a \<le> unat t \<and> unat t < a + 60 | _ \<Rightarrow> False)) trace)"

section \<open>One window\<close>

text \<open>The window of one key, its hits and the sweeps that may drop it, over natural times.\<close>

definition stale :: "u64 \<Rightarrow> rate_window \<Rightarrow> bool" where
  "stale now w \<longleftrightarrow> unat (rw_window_start w) + 60 \<le> unat now"

lemma unat_diff: "(b :: u64) \<le> a \<Longrightarrow> unat (a - b) = unat a - unat b"
  by (simp add: unat_sub)

lemma register_event_cases:
  assumes "cap \<noteq> 0" and "rw_window_start w \<le> now"
  shows "register_event cap now w =
    (if stale now w then (True, \<lparr>rw_counter = 1, rw_window_start = now\<rparr>)
     else if rw_counter w \<ge> cap then (False, w)
     else (True, w\<lparr>rw_counter := rw_counter w + 1\<rparr>))"
proof -
  have "now - rw_window_start w \<ge> WINDOW_DURATION_SECONDS \<longleftrightarrow> stale now w"
    using assms(2) by (auto simp: WINDOW_DURATION_SECONDS_def stale_def word_le_nat_alt unat_diff)
  then show ?thesis
    using assms word_gt_0 [of cap]
    by (auto simp: register_event_def Let_def not_less [symmetric] not_le)
qed

lemma window_expired_stale: "window_expired now w \<Longrightarrow> now \<le> t \<Longrightarrow> stale t w"
  by (auto simp: window_expired_def EXPIRY_SECONDS_def stale_def word_le_nat_alt unat_diff)

text \<open>Hits of one key on one window; the sweeps are gone.\<close>

primrec hits :: "u32 \<Rightarrow> rate_window \<Rightarrow> u64 list \<Rightarrow> (u64 \<times> bool) list" where
  "hits cap w [] = []"
| "hits cap w (t # ts) = (let (ok, w') = register_event cap t w in (t, ok) # hits cap w' ts)"

definition admitted_hits :: "nat \<Rightarrow> (u64 \<times> bool) list \<Rightarrow> nat" where
  "admitted_hits a xs = length (filter (\<lambda>(t, ok). ok \<and> a \<le> unat t \<and> unat t < a + 60) xs)"

lemma admitted_hits_Nil [simp]: "admitted_hits a [] = 0"
  by (simp add: admitted_hits_def)

lemma admitted_hits_Cons [simp]:
  "admitted_hits a ((t, ok) # xs) =
     (if ok \<and> a \<le> unat t \<and> unat t < a + 60 then 1 else 0) + admitted_hits a xs"
  by (simp add: admitted_hits_def)

lemma hits_same_window:
  assumes "cap \<noteq> 0" "sorted ts" "\<forall>t\<in>set ts. rw_window_start w \<le> t"
    and "a \<le> unat (rw_window_start w)" "rw_counter w \<le> cap"
  shows "admitted_hits a (hits cap w ts) \<le> unat cap - unat (rw_counter w)"
  using assms
proof (induction ts arbitrary: w)
  case Nil
  then show ?case by simp
next
  case (Cons t ts)
  then have t: "rw_window_start w \<le> t" by simp
  note reg = register_event_cases [OF assms(1) t]
  show ?case
  proof (cases "unat t < a + 60")
    case in_window: True
    then have s: "\<not> stale t w" using Cons.prems(4) by (simp add: stale_def)
    show ?thesis
    proof (cases "rw_counter w \<ge> cap")
      case True
      have "admitted_hits a (hits cap w ts) \<le> unat cap - unat (rw_counter w)"
        using Cons.prems by (intro Cons.IH) auto
      with reg s True show ?thesis by simp
    next
      case False
      let ?w = "w\<lparr>rw_counter := rw_counter w + 1\<rparr>"
      have c: "unat (rw_counter w + 1) = unat (rw_counter w) + 1" and le: "rw_counter w + 1 \<le> cap"
        using False unat_plus_one [of "rw_counter w" cap] by (simp_all add: not_le inc_le)
      have "admitted_hits a (hits cap ?w ts) \<le> unat cap - unat (rw_counter ?w)"
        using Cons.prems le by (intro Cons.IH) auto
      moreover have "unat (rw_counter w) < unat cap" using False by (simp add: word_less_nat_alt not_le)
      ultimately show ?thesis using reg s False c by auto
    qed
  next
    case False
    have "\<not> (ok \<and> a \<le> unat u \<and> unat u < a + 60)" if "(u, ok) \<in> set (hits cap v ts)" for u ok v
    proof -
      have "u \<in> set ts" using that
        by (induction ts arbitrary: v) (auto simp: Let_def split: prod.splits)
      then have "unat t \<le> unat u" using Cons.prems(2) by (auto simp: word_le_nat_alt)
      then show ?thesis using False by simp
    qed
    then have "admitted_hits a (hits cap v ts) = 0" for v
      by (fastforce simp: admitted_hits_def filter_empty_conv)
    then show ?thesis using False by (simp split: prod.splits)
  qed
qed

lemma hits_old_window:
  assumes "cap \<noteq> 0" "sorted ts" "\<forall>t\<in>set ts. rw_window_start w \<le> t \<and> a \<le> unat t"
    and "rw_counter w \<le> cap"
  shows "admitted_hits a (hits cap w ts) \<le> 2 * unat cap - unat (rw_counter w)"
  using assms
proof (induction ts arbitrary: w)
  case Nil
  then show ?case by simp
next
  case (Cons t ts)
  then have t: "rw_window_start w \<le> t" by simp
  note reg = register_event_cases [OF assms(1) t]
  have cm: "unat (rw_counter w) \<le> unat cap" using Cons.prems(4) by (simp add: word_le_nat_alt)
  have m1: "1 \<le> unat cap" using assms(1) by (metis One_nat_def Suc_leI unat_gt_0)
  show ?case
  proof (cases "stale t w")
    case True
    have "admitted_hits a (hits cap \<lparr>rw_counter = 1, rw_window_start = t\<rparr> ts) \<le> unat cap - unat (1 :: u32)"
      using Cons.prems m1 hits_same_window [of cap ts "\<lparr>rw_counter = 1, rw_window_start = t\<rparr>" a]
      by (simp add: word_le_nat_alt [of 1 cap])
    then show ?thesis using reg True cm m1 by auto
  next
    case ns: False
    show ?thesis
    proof (cases "rw_counter w \<ge> cap")
      case True
      have "admitted_hits a (hits cap w ts) \<le> 2 * unat cap - unat (rw_counter w)"
        using Cons.prems by (intro Cons.IH) auto
      with reg ns True show ?thesis by simp
    next
      case False
      let ?w = "w\<lparr>rw_counter := rw_counter w + 1\<rparr>"
      have c: "unat (rw_counter w + 1) = unat (rw_counter w) + 1" and le: "rw_counter w + 1 \<le> cap"
        using False unat_plus_one [of "rw_counter w" cap] by (simp_all add: not_le inc_le)
      have "admitted_hits a (hits cap ?w ts) \<le> 2 * unat cap - unat (rw_counter ?w)"
        using Cons.prems le by (intro Cons.IH) auto
      moreover have "unat (rw_counter w) < unat cap" using False by (simp add: word_less_nat_alt not_le)
      ultimately show ?thesis using reg ns False c by auto
    qed
  qed
qed

lemma hits_window_bounds:
  assumes "cap \<noteq> 0" "rw_window_start w \<le> t" "rw_counter w \<le> cap"
    and "register_event cap t w = (ok, w')"
  shows "rw_window_start w' \<le> t" and "rw_counter w' \<le> cap"
proof -
  have "1 \<le> cap" using assms(1) by (simp add: word_le_nat_alt unat_gt_0 Suc_le_eq)
  moreover have "\<not> cap \<le> rw_counter w \<Longrightarrow> rw_counter w + 1 \<le> cap" by (simp add: not_le inc_le)
  ultimately show "rw_window_start w' \<le> t" and "rw_counter w' \<le> cap"
    using assms register_event_cases [OF assms(1,2)] by (auto split: if_splits)
qed

lemma admitted_hits_bound:
  assumes "cap \<noteq> 0" "sorted ts" "\<forall>t\<in>set ts. rw_window_start w \<le> t" "rw_counter w \<le> cap"
  shows "admitted_hits a (hits cap w ts) \<le> 2 * unat cap"
  using assms
proof (induction ts arbitrary: w)
  case Nil
  then show ?case by simp
next
  case (Cons t ts)
  show ?case
  proof (cases "a \<le> unat t")
    case True
    have "\<forall>u\<in>set (t # ts). rw_window_start w \<le> u \<and> a \<le> unat u"
    proof
      fix u assume u: "u \<in> set (t # ts)"
      then have "unat t \<le> unat u" using Cons.prems(2) by (auto simp: word_le_nat_alt)
      with u Cons.prems(3) True show "rw_window_start w \<le> u \<and> a \<le> unat u" by auto
    qed
    from hits_old_window [OF assms(1) Cons.prems(2) this Cons.prems(4)] show ?thesis by linarith
  next
    case False
    obtain ok w' where w': "register_event cap t w = (ok, w')" by fastforce
    have "rw_window_start w' \<le> t" "rw_counter w' \<le> cap"
      using hits_window_bounds [OF assms(1) _ _ w'] Cons.prems by simp_all
    then have "admitted_hits a (hits cap w' ts) \<le> 2 * unat cap"
      using Cons.prems by (intro Cons.IH) auto
    then show ?thesis using w' False by simp
  qed
qed

text \<open>
  A window is opened by a request, which takes one of its places, unless it is the one an unknown address has
  from the start and the clock is in its first minute: then the second of two windows that meet the stretch may
  be full, but the first lacks its opening request.
\<close>

lemma admitted_hits_bound_opened:
  assumes "cap \<noteq> 0" "sorted ts" "\<forall>t\<in>set ts. rw_window_start w \<le> t" "rw_counter w \<le> cap"
    and "rw_counter w \<noteq> 0 \<or> (\<forall>t\<in>set ts. stale t w)"
  shows "admitted_hits a (hits cap w ts) \<le> 2 * unat cap - 1"
  using assms
proof (induction ts arbitrary: w)
  case Nil
  then show ?case by simp
next
  case (Cons t ts)
  have t: "rw_window_start w \<le> t" using Cons.prems(3) by simp
  note reg = register_event_cases [OF assms(1) t]
  have m1: "1 \<le> unat cap" using assms(1) by (metis One_nat_def Suc_leI unat_gt_0)
  have later: "t \<le> u" if "u \<in> set ts" for u using Cons.prems(2) that by simp
  show ?case
  proof (cases "a \<le> unat t")
    case True
    have all: "\<forall>u\<in>set (t # ts). rw_window_start w \<le> u \<and> a \<le> unat u"
      using Cons.prems(3) True later by (fastforce simp: word_le_nat_alt)
    show ?thesis
    proof (cases "rw_counter w = 0")
      case False
      then have "1 \<le> unat (rw_counter w)" by (metis One_nat_def Suc_leI unat_gt_0)
      then show ?thesis using hits_old_window [OF assms(1) Cons.prems(2) all Cons.prems(4)] by linarith
    next
      case zero: True
      then have "register_event cap t w = (True, \<lparr>rw_counter = 1, rw_window_start = t\<rparr>)" using reg Cons.prems(5) by simp
      moreover have "admitted_hits a (hits cap \<lparr>rw_counter = 1, rw_window_start = t\<rparr> ts) \<le> unat cap - unat (1 :: u32)"
        using hits_same_window [of cap ts "\<lparr>rw_counter = 1, rw_window_start = t\<rparr>" a] Cons.prems(1,2) True m1
        by (simp add: word_le_nat_alt [of 1 cap])
      ultimately show ?thesis using m1 by auto
    qed
  next
    case False
    obtain ok w' where w': "register_event cap t w = (ok, w')" by fastforce
    have b: "rw_window_start w' \<le> t" "rw_counter w' \<le> cap"
      using hits_window_bounds [OF assms(1) _ _ w'] Cons.prems by simp_all
    have "rw_counter w' \<noteq> 0"
    proof -
      have "rw_counter w + 1 \<noteq> 0" if "\<not> cap \<le> rw_counter w"
        using unat_plus_one [of "rw_counter w" cap] that by (metis add_is_0 not_le unat_0 zero_neq_one)
      then show ?thesis using reg w' assms(1) by (auto split: if_splits)
    qed
    then have "admitted_hits a (hits cap w' ts) \<le> 2 * unat cap - 1"
      using Cons.prems(2) b later by (intro Cons.IH assms(1)) (auto intro: order_trans)
    then show ?thesis using w' False by simp
  qed
qed

section \<open>Sweeps change no decision\<close>

text \<open>
  The tables a server would have with and without the sweeps, at time \<open>now\<close>: equal, except that an
  entry too old to matter may be missing.
\<close>

definition same_future :: "u64 \<Rightarrow> rate_window option \<Rightarrow> rate_window option \<Rightarrow> bool" where
  "same_future now kept swept \<longleftrightarrow>
     swept = kept \<or> (swept = None \<and> (\<exists>w. kept = Some w \<and> rw_window_start w \<le> now \<and>
       window_expired now w))"

lemma window_expired_mono:
  "window_expired now w \<Longrightarrow> now \<le> t \<Longrightarrow> window_expired t w"
  by (auto simp: window_expired_def EXPIRY_SECONDS_def word_le_nat_alt unat_diff)

lemma same_future_mono: "same_future now x y \<Longrightarrow> now \<le> t \<Longrightarrow> same_future t x y"
  by (auto simp: same_future_def dest: window_expired_mono)

lemma same_future_forget:
  "same_future now x y \<Longrightarrow>
   same_future now x (case y of None \<Rightarrow> None | Some w \<Rightarrow> if window_expired now w then None else Some w)"
  by (auto simp: same_future_def window_expired_def split: option.splits)

lemma stale_fresh: "window_expired now w \<Longrightarrow> now \<le> t \<Longrightarrow> stale t fresh_window"
  by (auto simp: window_expired_def EXPIRY_SECONDS_def stale_def fresh_window_def word_le_nat_alt
      unat_diff)

lemma register_event_same_future:
  assumes "same_future now (f k) (g k)" and "now \<le> t" and "cap \<noteq> 0"
  shows "register_event cap t (window_at g k) = register_event cap t (window_at f k)"
proof (cases "g k = f k")
  case True
  then show ?thesis by (simp add: window_at_def)
next
  case False
  with assms(1) obtain w where w: "g k = None" "f k = Some w" "rw_window_start w \<le> now"
    "window_expired now w" by (auto simp: same_future_def)
  have le: "rw_window_start w \<le> t" using w(3) assms(2) by simp
  have "stale t w" "stale t fresh_window"
    using window_expired_stale [OF w(4) assms(2)] stale_fresh [OF w(4) assms(2)] by simp_all
  then show ?thesis
    using w register_event_cases [OF assms(3) le] register_event_cases [OF assms(3), of fresh_window t]
    by (simp add: window_at_def fresh_window_def)
qed

section \<open>The trace of one address\<close>

primrec address_hits :: "bytes \<Rightarrow> rate_event list \<Rightarrow> u64 list" where
  "address_hits k [] = []"
| "address_hits k (e # es) =
     (case e of Address_request a t \<Rightarrow> if a = k then t # address_hits k es else address_hits k es
      | _ \<Rightarrow> address_hits k es)"

lemma set_address_hits: "set (address_hits k es) \<subseteq> event_time ` set es"
  by (induction es) (auto split: rate_event.splits)

lemma sorted_address_hits: "sorted (map event_time es) \<Longrightarrow> sorted (address_hits k es)"
  using set_address_hits by (induction es) (fastforce split: rate_event.splits)+

lemma admitted_Nil [simp]: "admitted k a [] = 0"
  by (simp add: admitted_def)

lemma admitted_Cons [simp]:
  "admitted k a ((e, ok) # xs) =
     (if ok \<and> (case e of Address_request j t \<Rightarrow> j = k \<and> a \<le> unat t \<and> unat t < a + 60 | _ \<Rightarrow> False)
      then 1 else 0) + admitted k a xs"
  by (simp add: admitted_def)

lemma admitted_trace_hits:
  assumes "rp_per_address p = cap" "cap \<noteq> 0" "sorted (map event_time es)"
    and "\<forall>e\<in>set es. now \<le> event_time e"
    and "same_future now kept (rt_by_address (rp_tracker p) k)"
  shows "admitted k a (rate_trace p es) =
    admitted_hits a (hits cap (case kept of None \<Rightarrow> fresh_window | Some w \<Rightarrow> w) (address_hits k es))"
  using assms
proof (induction es arbitrary: p kept now)
  case Nil
  then show ?case by simp
next
  case (Cons e es)
  have now: "now \<le> event_time e" using Cons.prems(4) by simp
  have sf: "same_future (event_time e) kept (rt_by_address (rp_tracker p) k)"
    by (rule same_future_mono [OF Cons.prems(5) now])
  have later: "\<forall>x\<in>set es. event_time e \<le> event_time x" "sorted (map event_time es)"
    using Cons.prems(3) by auto
  have IH: "rp_per_address p' = cap \<Longrightarrow> same_future (event_time e) kept' (rt_by_address (rp_tracker p') k) \<Longrightarrow>
      admitted k a (rate_trace p' es) =
      admitted_hits a (hits cap (case kept' of None \<Rightarrow> fresh_window | Some w \<Rightarrow> w) (address_hits k es))"
    for p' kept' using Cons.IH [OF _ assms(2) later(2,1)] by blast
  show ?case
  proof (cases e)
    case (Sweep t)
    let ?p = "p\<lparr>rp_tracker := forget_expired_windows (rp_tracker p) t\<rparr>"
    have "same_future (event_time e) kept (rt_by_address (rp_tracker ?p) k)"
      using same_future_forget [OF sf] unfolding Sweep event_time.simps
      by (simp add: forget_expired_windows_def forget_expired_table_def)
    from IH [OF _ this] Cons.prems(1) show ?thesis using Sweep by simp
  next
    case (Identity_request i t)
    obtain ok p' where p': "allow_identity_request p i t = (ok, p')" by fastforce
    then have "rp_per_address p' = cap" "rt_by_address (rp_tracker p') = rt_by_address (rp_tracker p)"
      using Cons.prems(1)
      by (auto simp: allow_identity_request_def Let_def split: prod.splits if_splits)
    with IH [of p' kept] sf show ?thesis using Identity_request p' by simp
  next
    case (Address_request j t)
    obtain ok w where w: "register_event cap t (window_at (rt_by_address (rp_tracker p)) j) = (ok, w)"
      by fastforce
    obtain p' where p: "allow_address_request p j t = (ok, p')" "rp_per_address p' = cap"
      "rt_by_address (rp_tracker p') = (rt_by_address (rp_tracker p))(j \<mapsto> w)"
      using w Cons.prems(1) by (simp add: allow_address_request_def Let_def)
    show ?thesis
    proof (cases "j = k")
      case True
      have "register_event cap t (case kept of None \<Rightarrow> fresh_window | Some w \<Rightarrow> w) = (ok, w)"
        using register_event_same_future [of "event_time e" "\<lambda>_. kept" k "rt_by_address (rp_tracker p)" t cap]
          sf assms(2) w True Address_request by (simp add: window_at_def)
      moreover have "same_future (event_time e) (Some w) (rt_by_address (rp_tracker p') k)"
        using p(3) True by (simp add: same_future_def)
      ultimately show ?thesis using IH [OF p(2), of "Some w"] p(1) Address_request True by simp
    next
      case False
      have "same_future (event_time e) kept (rt_by_address (rp_tracker p') k)"
        using p(3) False sf by simp
      then show ?thesis using IH [OF p(2)] p(1) Address_request False by simp
    qed
  qed
qed

section \<open>Properties\<close>

text \<open>
  C35: the per-address limit. However many connections an address opens, however its requests are
  mixed with those of other addresses and identities and with the periodic sweeps, as long as a limit
  is set (zero means none) and the clock does not run backwards, no stretch of 60 seconds admits more
  than twice the configured number of its requests: windows are fixed, and two of them can meet in
  such a stretch. Once the clock has passed its first minute it is one less than twice the number, and
  that many can be admitted.
\<close>

theorem address_rate_bound:
  assumes "per_address \<noteq> 0" and "sorted (map event_time events)"
  shows "admitted address a (rate_trace (fresh_policy per_address per_identity) events) \<le> 2 * unat per_address \<and>
    (list_all (\<lambda>e. 60 \<le> unat (event_time e)) events \<longrightarrow>
      admitted address a (rate_trace (fresh_policy per_address per_identity) events) \<le> 2 * unat per_address - 1)"
proof -
  let ?hits = "hits per_address fresh_window (address_hits address events)"
  have "admitted address a (rate_trace (fresh_policy per_address per_identity) events) = admitted_hits a ?hits"
    using admitted_trace_hits [of "fresh_policy per_address per_identity" per_address events 0 None address a]
      assms by (simp add: fresh_policy_def same_future_def)
  moreover have "admitted_hits a ?hits \<le> 2 * unat per_address"
    using assms sorted_address_hits [OF assms(2)]
    by (intro admitted_hits_bound) (simp_all add: fresh_window_def)
  moreover have "admitted_hits a ?hits \<le> 2 * unat per_address - 1" if "list_all (\<lambda>e. 60 \<le> unat (event_time e)) events"
  proof (intro admitted_hits_bound_opened)
    show "rw_counter fresh_window \<noteq> 0 \<or> (\<forall>t\<in>set (address_hits address events). stale t fresh_window)"
      using that set_address_hits [of address events] by (auto simp: stale_def fresh_window_def list_all_iff)
  qed (use assms sorted_address_hits [OF assms(2)] in \<open>simp_all add: fresh_window_def\<close>)
  ultimately show ?thesis by simp
qed

theorem address_rate_bound_witness:
  "admitted [1] 159 (rate_trace (fresh_policy 2 0)
     [Address_request [1] 100, Address_request [2] 150, Address_request [1] 159, Address_request [1] 159, Sweep 160,
      Address_request [1] 160, Address_request [1] 161, Address_request [1] 162]) = 3 \<and>
   3 \<le> 2 * unat (2 :: u32) - 1"
proof -
  let ?events = "[Address_request [1] 100, Address_request [2] 150, Address_request [1] 159, Address_request [1] 159, Sweep 160,
      Address_request [1] 160, Address_request [1] 161, Address_request [1] 162]"
  have three: "admitted [1] 159 (rate_trace (fresh_policy 2 0) ?events) = 3" by code_simp
  have "sorted (map event_time ?events)" "list_all (\<lambda>e. 60 \<le> unat (event_time e)) ?events" by simp_all
  then show ?thesis using address_rate_bound [of 2 ?events "[1]" 159 0] three by simp
qed

end
