(* ===== verification/Handler_Context.thy ===== *)
theory Handler_Context
  imports Listings Frame Connection Config Rate_Limit "HOL-Library.State_Monad"
begin

text \<open>
  What every request handler works with (\<^verbatim>\<open>handler_context.hpp\<close>, \<^verbatim>\<open>response_builder.cpp\<close>,
  \<^verbatim>\<open>session_guard.cpp\<close>): the context as the state of a state monad, the single output path, and
  the entry gate of the business handlers. The context also carries what the outside gives to a
  run of the code: the readings of the clock to come (the clock reads 0 when none is left, which is
  what \<^verbatim>\<open>get_unix_timestamp\<close> returns for a clock before 1970) and the random nonces to come.
\<close>

section \<open>The context\<close>

text \<open>
  The environment: the cryptographic library, of which \<open>he_verify\<close> is
  \<^verbatim>\<open>crypto_sign_verify_detached\<close> on key, message and signature; the configuration; the text of
  the log's time stamp and of the storage engine's last error.
\<close>

record handler_env =
  he_sodium :: sodium
  he_verify :: "bytes \<Rightarrow> bytes \<Rightarrow> bytes \<Rightarrow> bool"
  he_config :: server_config
  he_log_stamp :: bytes
  he_storage_error :: bytes

record handler_context =
  hc_logger :: logger
  hc_database :: database
  hc_connection :: client_connection
  hc_clock :: "u64 list"
  hc_random :: "bytes list"

type_synonym 'a action = "(handler_context, 'a) state"

definition on_database :: "(database \<Rightarrow> 'a \<times> database) \<Rightarrow> 'a action" where
  "on_database f = State (\<lambda>s. let (a, d) = f (hc_database s) in (a, s\<lparr>hc_database := d\<rparr>))"

definition on_connection :: "(client_connection \<Rightarrow> 'a \<times> client_connection) \<Rightarrow> 'a action" where
  "on_connection f = State (\<lambda>s. let (a, c) = f (hc_connection s) in (a, s\<lparr>hc_connection := c\<rparr>))"

definition get_session :: "session_state action" where
  "get_session = State (\<lambda>s. (cn_session (hc_connection s), s))"

definition set_session :: "(session_state \<Rightarrow> session_state) \<Rightarrow> unit action" where
  "set_session f = on_connection (\<lambda>c. ((), c\<lparr>cn_session := f (cn_session c)\<rparr>))"

definition get_unix_timestamp :: "u64 action" where
  "get_unix_timestamp = State (\<lambda>s. case hc_clock s of
     [] \<Rightarrow> (0, s) | t # ts \<Rightarrow> (t, s\<lparr>hc_clock := ts\<rparr>))"

definition fill_random_nonce :: "bytes action" where
  "fill_random_nonce = State (\<lambda>s. case hc_random s of
     [] \<Rightarrow> (replicate AUTH_NONCE_SIZE 0, s) | r # rs \<Rightarrow> (r, s\<lparr>hc_random := rs\<rparr>))"

definition log_entry :: "handler_env \<Rightarrow> log_level \<Rightarrow> bytes \<Rightarrow> unit action" where
  "log_entry e level message =
     State (\<lambda>s. ((), s\<lparr>hc_logger := write_entry (he_log_stamp e) level message (hc_logger s)\<rparr>))"

text \<open>\<^verbatim>\<open>request.read_from(reader)\<close>; the reader is not used any further.\<close>

definition read_request :: "'a reader \<Rightarrow> bytes \<Rightarrow> 'a option" where
  "read_request read_from payload = fst (read_from (byte_reader_of payload))"

context codec
begin

lemma request_valid: "read_request read_from payload = Some x \<Longrightarrow> valid x"
  unfolding read_request_def using inverts(1) by (metis prod.collapse)

lemma request_roundtrip: "valid x \<Longrightarrow> read_request read_from (encode_with write_to x) = Some x"
  unfolding read_request_def using roundtrip [of x "[]"] by simp

end

section \<open>Sending\<close>

definition send_raw_message ::
  "handler_env \<Rightarrow> message_type \<Rightarrow> bytes \<Rightarrow> client_connection \<Rightarrow> bool \<times> client_connection" where
  "send_raw_message e type payload c =
     (case encode_frame type payload of
        None \<Rightarrow> (False, c)
      | Some frame \<Rightarrow>
          (case seal_message (he_sodium e) frame (cn_channel c) of
             (None, channel) \<Rightarrow> (False, c\<lparr>cn_channel := channel\<rparr>)
           | (Some sealed, channel) \<Rightarrow>
               let (queued, socket) = queue_bytes (append_length_prefixed_message sealed []) (cn_socket c)
               in (queued, c\<lparr>cn_channel := channel, cn_socket := socket\<rparr>)))"

definition send_message ::
  "handler_env \<Rightarrow> message_type \<Rightarrow> ('m \<Rightarrow> byte_writer \<Rightarrow> byte_writer) \<Rightarrow> 'm \<Rightarrow> bool action" where
  "send_message e type write_to message =
     on_connection (send_raw_message e type (encode_with write_to message))"

definition send_status_ok :: "handler_env \<Rightarrow> u64 \<Rightarrow> bool action" where
  "send_status_ok e reference_id =
     send_message e MT_status_ok status_ok_response_write_to \<lparr>so_reference_id = reference_id\<rparr>"

definition send_status_error :: "handler_env \<Rightarrow> error_code \<Rightarrow> bool action" where
  "send_status_error e code =
     send_message e MT_status_error status_error_response_write_to
       \<lparr>se_code = code, se_detail = describe_error_code code\<rparr>"

section \<open>The entry gate\<close>

definition registered :: "session_state \<Rightarrow> bool" where
  "registered s \<longleftrightarrow> st_phase s = Authenticated \<and> st_user_id s \<noteq> 0"

definition require_registered_session :: "handler_env \<Rightarrow> bool action" where
  "require_registered_session e = do {
     s \<leftarrow> get_session;
     if registered s then State_Monad.return True
     else do {
       _ \<leftarrow> send_status_error e EC_not_authenticated;
       State_Monad.return False
     }
   }"

section \<open>Running actions\<close>

lemma run_bind: "run_state (State_Monad.bind m f) s = (let (a, s') = run_state m s in run_state (f a) s')"
  by (simp add: State_Monad.bind_def)

lemma run_on_database:
  "run_state (on_database f) s = (let (a, d) = f (hc_database s) in (a, s\<lparr>hc_database := d\<rparr>))"
  by (simp add: on_database_def)

lemma run_on_connection:
  "run_state (on_connection f) s = (let (a, c) = f (hc_connection s) in (a, s\<lparr>hc_connection := c\<rparr>))"
  by (simp add: on_connection_def)

lemma run_get_session: "run_state get_session s = (cn_session (hc_connection s), s)"
  by (simp add: get_session_def)

lemma run_set_session:
  "run_state (set_session f) s = ((), s\<lparr>hc_connection := (hc_connection s)\<lparr>cn_session := f (cn_session (hc_connection s))\<rparr>\<rparr>)"
  by (simp add: set_session_def run_on_connection)

text \<open>Sending touches the channel and the output queue only.\<close>

lemma send_raw_message_frame:
  assumes "send_raw_message e type payload c = (b, c')"
  shows "cn_session c' = cn_session c" and "cn_input_buffer c' = cn_input_buffer c"
    and "\<exists>w. sk_pending_output (cn_socket c') = sk_pending_output (cn_socket c) @ w"
    and "socket_ok (cn_socket c) \<Longrightarrow> socket_ok (cn_socket c')"
    and "sk_descriptor (cn_socket c') = sk_descriptor (cn_socket c)"
    and "is_established (cn_channel c') = is_established (cn_channel c)"
  using assms
  by (auto simp: send_raw_message_def queue_bytes_def socket_ok_def seal_message_def is_established_def
      split: option.splits prod.splits if_splits)

end
