(* ===== verification/Handlers.thy ===== *)
theory Handlers
  imports Handler_Context
begin

text \<open>
  The request handlers (\<^verbatim>\<open>src/server/handlers\<close>), each as an action on the context that returns
  whether the connection stays open, and the router that selects one by message type.
\<close>

section \<open>Session\<close>

definition send_accepted_session :: "handler_env \<Rightarrow> user_row \<Rightarrow> bool action" where
  "send_accepted_session e user = do {
     _ \<leftarrow> set_session (\<lambda>s. s\<lparr>st_phase := Authenticated, st_user_id := ur_id user, st_handle := ur_handle user\<rparr>);
     now \<leftarrow> get_unix_timestamp;
     sent \<leftarrow> send_message e MT_auth_accepted auth_accepted_write_to
       \<lparr>aa_user_id = to_u64 (ur_id user), aa_handle = ur_handle user, aa_server_time = now\<rparr>;
     if \<not> sent then State_Monad.return False
     else do {
       announcement \<leftarrow> on_database find_active_motd;
       case announcement of
         None \<Rightarrow> State_Monad.return True
       | Some a \<Rightarrow> send_message e MT_motd_push motd_push_write_to a
     }
   }"

definition handle_hello_request :: "handler_env \<Rightarrow> bytes \<Rightarrow> bool action" where
  "handle_hello_request e payload = do {
     session \<leftarrow> get_session;
     if st_phase session \<noteq> Awaiting_hello then send_status_error e EC_already_authenticated
     else case read_request hello_request_read_from payload of
       None \<Rightarrow> State_Monad.return False
     | Some request \<Rightarrow>
         if hq_protocol_version request \<noteq> PROTOCOL_VERSION then send_status_error e EC_unsupported_version
         else do {
           nonce \<leftarrow> fill_random_nonce;
           _ \<leftarrow> set_session (\<lambda>s. s\<lparr>st_announced_pubkey := hq_client_pubkey request, st_challenge_nonce := nonce\<rparr>);
           existing \<leftarrow> on_database (find_user_by_pubkey (hq_client_pubkey request));
           now \<leftarrow> get_unix_timestamp;
           _ \<leftarrow> set_session (\<lambda>s. s\<lparr>st_phase := Awaiting_auth\<rparr>);
           send_message e MT_auth_challenge auth_challenge_write_to
             \<lparr>ac_protocol_version = PROTOCOL_VERSION, ac_nonce = nonce,
              ac_account_exists = (if existing \<noteq> None then 1 else 0), ac_server_time = now\<rparr>
         }
   }"

definition handle_auth_response :: "handler_env \<Rightarrow> bytes \<Rightarrow> bool action" where
  "handle_auth_response e payload = do {
     session \<leftarrow> get_session;
     if st_phase session \<noteq> Awaiting_auth then send_status_error e EC_not_authenticated
     else case read_request auth_response_read_from payload of
       None \<Rightarrow> State_Monad.return False
     | Some response \<Rightarrow>
         if \<not> he_verify e (st_announced_pubkey session)
                (build_auth_signing_input (st_challenge_nonce session) (st_announced_pubkey session))
                (ar_signature response)
         then State_Monad.return False
         else do {
           found \<leftarrow> on_database (find_user_by_pubkey (st_announced_pubkey session));
           case found of
             Some existing \<Rightarrow>
               if ur_banned existing then send_status_error e EC_account_banned
               else send_accepted_session e existing
           | None \<Rightarrow> do {
               _ \<leftarrow> set_session (\<lambda>s. s\<lparr>st_phase := Authenticated, st_user_id := 0\<rparr>);
               send_status_ok e 0
             }
         }
   }"

definition empty_profile :: profile_set_request where
  "empty_profile = \<lparr>ps_display_name = [], ps_bio = [], ps_theme_json = [], ps_banner_reference = []\<rparr>"

definition handle_register_request :: "handler_env \<Rightarrow> bytes \<Rightarrow> bool action" where
  "handle_register_request e payload = do {
     session \<leftarrow> get_session;
     if st_phase session \<noteq> Authenticated \<or> st_user_id session \<noteq> 0
     then send_status_error e EC_already_authenticated
     else if \<not> sc_registration_open (he_config e) then send_status_error e EC_permission_denied
     else case read_request register_request_read_from payload of
       None \<Rightarrow> State_Monad.return False
     | Some request \<Rightarrow>
         if \<not> validate_handle (rq_handle request) then send_status_error e EC_invalid_field
         else do {
           created \<leftarrow> on_database (create_user (st_announced_pubkey session) (rq_handle request));
           case created of
             None \<Rightarrow> send_status_error e EC_handle_unavailable
           | Some created_id \<Rightarrow> do {
               found \<leftarrow> on_database (find_user_by_id created_id);
               case found of
                 None \<Rightarrow> send_status_error e EC_internal_error
               | Some user \<Rightarrow> do {
                   _ \<leftarrow> on_database (replace_profile created_id empty_profile);
                   send_accepted_session e user
                 }
             }
         }
   }"

definition handle_ping_request :: "handler_env \<Rightarrow> bytes \<Rightarrow> bool action" where
  "handle_ping_request e payload =
     (case read_request ping_request_read_from payload of
        None \<Rightarrow> State_Monad.return False
      | Some request \<Rightarrow> do {
          now \<leftarrow> get_unix_timestamp;
          send_message e MT_ping_response ping_response_write_to
            \<lparr>pg_token = pq_token request, pg_server_time = now\<rparr>
        })"

section \<open>Guarded handlers\<close>

text \<open>
  The opening every business handler has: the gate, then the request; a request that does not
  decode closes the connection.
\<close>

definition guarded :: "handler_env \<Rightarrow> 'q reader \<Rightarrow> bytes \<Rightarrow> (session_state \<Rightarrow> 'q \<Rightarrow> bool action) \<Rightarrow> bool action" where
  "guarded e read_from payload body = do {
     admitted \<leftarrow> require_registered_session e;
     if \<not> admitted then State_Monad.return True
     else case read_request read_from payload of
       None \<Rightarrow> State_Monad.return False
     | Some request \<Rightarrow> do { session \<leftarrow> get_session; body session request }
   }"

section \<open>Prekeys\<close>

definition handle_prekey_publish_request :: "handler_env \<Rightarrow> bytes \<Rightarrow> bool action" where
  "handle_prekey_publish_request e payload =
     guarded e prekey_publish_request_read_from payload (\<lambda>session request. do {
       now \<leftarrow> get_unix_timestamp;
       stored \<leftarrow> on_database (replace_prekey (st_user_id session) (pp_prekey request) (pp_signature request) now);
       if \<not> stored then send_status_error e EC_internal_error else send_status_ok e 0
     })"

definition handle_prekey_fetch_request :: "handler_env \<Rightarrow> bytes \<Rightarrow> bool action" where
  "handle_prekey_fetch_request e payload =
     guarded e prekey_fetch_request_read_from payload (\<lambda>session request. do {
       found \<leftarrow> on_database (find_bundle_by_pubkey (pf_target_pubkey request));
       case found of
         None \<Rightarrow> send_status_error e EC_not_found
       | Some bundle \<Rightarrow> send_message e MT_prekey_bundle_response prekey_bundle_response_write_to bundle
     })"

section \<open>Forums\<close>

definition handle_forum_create_request :: "handler_env \<Rightarrow> bytes \<Rightarrow> bool action" where
  "handle_forum_create_request e payload =
     guarded e forum_create_request_read_from payload (\<lambda>session request.
       if \<not> validate_forum_name (fc_name request) then send_status_error e EC_invalid_field
       else do {
         now \<leftarrow> get_unix_timestamp;
         created \<leftarrow> on_database (create_forum (st_user_id session) (fc_name request)
           (fc_description request) (fc_theme_json request) now);
         case created of
           None \<Rightarrow> send_status_error e EC_duplicate_entry
         | Some created_id \<Rightarrow> do {
             found \<leftarrow> on_database (find_forum_by_id created_id);
             case found of
               None \<Rightarrow> send_status_error e EC_internal_error
             | Some forum \<Rightarrow> send_message e MT_forum_info_response forum_info_response_write_to
                 \<lparr>fi_forum = forum\<rparr>
           }
       })"

definition clamp_list_limit :: "u16 \<Rightarrow> u16" where
  "clamp_list_limit requested = min (if requested = 0 then DEFAULT_LIST_ITEMS else requested) MAX_LIST_ITEMS"

definition handle_forum_list_request :: "handler_env \<Rightarrow> bytes \<Rightarrow> bool action" where
  "handle_forum_list_request e payload =
     guarded e forum_list_request_read_from payload (\<lambda>session request. do {
       listed \<leftarrow> on_database (list_forums (flq_offset request)
         (min (if flq_limit request = 0 then DEFAULT_LIST_ITEMS else flq_limit request) MAX_LIST_ITEMS));
       case listed of
         None \<Rightarrow> send_status_error e EC_internal_error
       | Some (forums, total_count) \<Rightarrow> send_message e MT_forum_list_response forum_list_response_write_to
           \<lparr>fl_forums = forums, fl_total_count = total_count\<rparr>
     })"

section \<open>Posts and comments\<close>

definition handle_post_create_request :: "handler_env \<Rightarrow> bytes \<Rightarrow> bool action" where
  "handle_post_create_request e payload =
     guarded e post_create_request_read_from payload (\<lambda>session request.
       if pc_title request = [] \<or> pc_body request = [] then send_status_error e EC_invalid_field
       else do {
         forum \<leftarrow> on_database (find_forum_by_id (to_i64 (pc_forum_id request)));
         case forum of
           None \<Rightarrow> send_status_error e EC_not_found
         | Some _ \<Rightarrow> do {
             now \<leftarrow> get_unix_timestamp;
             created \<leftarrow> on_database (create_post (to_i64 (pc_forum_id request)) (st_user_id session)
               (pc_title request) (pc_body request) now);
             case created of
               None \<Rightarrow> send_status_error e EC_internal_error
             | Some created_id \<Rightarrow> do {
                 found \<leftarrow> on_database (find_post_by_id created_id);
                 case found of
                   None \<Rightarrow> send_status_error e EC_internal_error
                 | Some post \<Rightarrow> send_message e MT_post_info_response post_info_response_write_to
                     \<lparr>pi_post = post\<rparr>
               }
           }
       })"

definition handle_post_list_request :: "handler_env \<Rightarrow> bytes \<Rightarrow> bool action" where
  "handle_post_list_request e payload =
     guarded e post_list_request_read_from payload (\<lambda>session request. do {
       listed \<leftarrow> on_database (list_by_forum (to_i64 (plq_forum_id request)) (plq_offset request)
         (clamp_list_limit (plq_limit request)));
       case listed of
         None \<Rightarrow> send_status_error e EC_internal_error
       | Some (posts, total_count) \<Rightarrow> send_message e MT_post_list_response post_list_response_write_to
           \<lparr>pl_posts = posts, pl_total_count = total_count\<rparr>
     })"

definition handle_thread_fetch_request :: "handler_env \<Rightarrow> bytes \<Rightarrow> bool action" where
  "handle_thread_fetch_request e payload =
     guarded e thread_fetch_request_read_from payload (\<lambda>session request. do {
       found \<leftarrow> on_database (find_post_by_id (to_i64 (tfq_post_id request)));
       case found of
         None \<Rightarrow> send_status_error e EC_not_found
       | Some post \<Rightarrow> do {
           listed \<leftarrow> on_database (list_thread (to_i64 (tfq_post_id request)) MAX_THREAD_COMMENTS);
           case listed of
             None \<Rightarrow> send_status_error e EC_internal_error
           | Some (comments, truncated) \<Rightarrow> send_message e MT_thread_response thread_response_write_to
               \<lparr>tr_post = post, tr_comments = comments, tr_truncated = (if truncated then 1 else 0)\<rparr>
         }
     })"

definition handle_comment_create_request :: "handler_env \<Rightarrow> bytes \<Rightarrow> bool action" where
  "handle_comment_create_request e payload =
     guarded e comment_create_request_read_from payload (\<lambda>session request.
       if cc_body request = [] then send_status_error e EC_invalid_field
       else do {
         parent_post \<leftarrow> on_database (find_post_by_id (to_i64 (cc_post_id request)));
         case parent_post of
           None \<Rightarrow> send_status_error e EC_not_found
         | Some _ \<Rightarrow> do {
             grafted \<leftarrow> (if cc_parent_comment_id request \<noteq> 0
               then do {
                 belongs \<leftarrow> on_database (check_parent_belongs_to_post
                   (to_i64 (cc_parent_comment_id request)) (to_i64 (cc_post_id request)));
                 State_Monad.return (\<not> belongs)
               }
               else State_Monad.return False);
             if grafted then send_status_error e EC_invalid_field
             else do {
               now \<leftarrow> get_unix_timestamp;
               created \<leftarrow> on_database (create_comment (to_i64 (cc_post_id request))
                 (to_i64 (cc_parent_comment_id request)) (st_user_id session) (cc_body request) now);
               case created of
                 None \<Rightarrow> send_status_error e EC_internal_error
               | Some created_id \<Rightarrow> do {
                   found \<leftarrow> on_database (find_comment_by_id created_id);
                   case found of
                     None \<Rightarrow> send_status_error e EC_internal_error
                   | Some comment \<Rightarrow> send_message e MT_comment_info_response comment_info_response_write_to
                       \<lparr>ci_comment = comment\<rparr>
                 }
             }
           }
       })"

section \<open>Deletion\<close>

text \<open>The script \<^verbatim>\<open>PRAGMA wal_checkpoint(TRUNCATE)\<close> changes no table; it may fail.\<close>

definition checkpoint_after_deletion :: "handler_env \<Rightarrow> unit action" where
  "checkpoint_after_deletion e = do {
     failed \<leftarrow> on_database pop_fault;
     if failed
     then log_entry e LL_warning (ascii ''point de controle WAL apres suppression : '' @ he_storage_error e)
     else State_Monad.return ()
   }"

definition handle_post_delete_request :: "handler_env \<Rightarrow> bytes \<Rightarrow> bool action" where
  "handle_post_delete_request e payload =
     guarded e post_delete_request_read_from payload (\<lambda>session request. do {
       now \<leftarrow> get_unix_timestamp;
       deleted \<leftarrow> on_database (delete_own_post (to_i64 (pd_post_id request)) (st_user_id session) now);
       if \<not> deleted then send_status_error e EC_permission_denied
       else do { _ \<leftarrow> checkpoint_after_deletion e; send_status_ok e (pd_post_id request) }
     })"

definition handle_comment_delete_request :: "handler_env \<Rightarrow> bytes \<Rightarrow> bool action" where
  "handle_comment_delete_request e payload =
     guarded e comment_delete_request_read_from payload (\<lambda>session request. do {
       now \<leftarrow> get_unix_timestamp;
       deleted \<leftarrow> on_database (delete_own_comment (to_i64 (cd_comment_id request)) (st_user_id session) now);
       if \<not> deleted then send_status_error e EC_permission_denied
       else do { _ \<leftarrow> checkpoint_after_deletion e; send_status_ok e (cd_comment_id request) }
     })"

section \<open>Profiles\<close>

definition handle_profile_get_request :: "handler_env \<Rightarrow> bytes \<Rightarrow> bool action" where
  "handle_profile_get_request e payload =
     guarded e profile_get_request_read_from payload (\<lambda>session request. do {
       found \<leftarrow> on_database (find_profile_by_pubkey (pgq_target_pubkey request));
       case found of
         None \<Rightarrow> send_status_error e EC_not_found
       | Some profile \<Rightarrow> send_message e MT_profile_response profile_response_write_to \<lparr>prs_profile = profile\<rparr>
     })"

definition handle_profile_set_request :: "handler_env \<Rightarrow> bytes \<Rightarrow> bool action" where
  "handle_profile_set_request e payload =
     guarded e profile_set_request_read_from payload (\<lambda>session request. do {
       stored \<leftarrow> on_database (replace_profile (st_user_id session) request);
       if \<not> stored then send_status_error e EC_internal_error else send_status_ok e 0
     })"

section \<open>Friends and the top 8\<close>

definition is_empty_slot :: "bytes \<Rightarrow> bool" where
  "is_empty_slot key \<longleftrightarrow> list_all (\<lambda>b. b = 0) key"

fun resolve_from :: "nat \<Rightarrow> bytes list \<Rightarrow> top8_entry list \<Rightarrow> database \<Rightarrow> top8_entry list option \<times> database" where
  "resolve_from index [] out d = (Some out, d)"
| "resolve_from index (slot # slots) out d =
     (if is_empty_slot slot then resolve_from (index + 1) slots out d
      else case find_user_by_pubkey slot d of
        (None, d') \<Rightarrow> (None, d')
      | (Some target, d') \<Rightarrow>
          resolve_from (index + 1) slots (out @ [\<lparr>te_slot = index mod 256, te_friend_id = ur_id target\<rparr>]) d')"

definition resolve_top8_entries :: "top8_set_request \<Rightarrow> database \<Rightarrow> top8_entry list option \<times> database" where
  "resolve_top8_entries request d = resolve_from 0 (ts_slots request) [] d"

definition handle_friend_add_request :: "handler_env \<Rightarrow> bytes \<Rightarrow> bool action" where
  "handle_friend_add_request e payload =
     guarded e friend_add_request_read_from payload (\<lambda>session request. do {
       found \<leftarrow> on_database (find_user_by_pubkey (fa_target_pubkey request));
       case found of
         None \<Rightarrow> send_status_error e EC_not_found
       | Some target \<Rightarrow>
           if ur_id target = st_user_id session then send_status_error e EC_invalid_field
           else do {
             stored \<leftarrow> on_database (replace_friendship (st_user_id session) (ur_id target) (fa_status request));
             if \<not> stored then send_status_error e EC_internal_error
             else send_status_ok e (to_u64 (ur_id target))
           }
     })"

definition handle_friend_list_request :: "handler_env \<Rightarrow> bytes \<Rightarrow> bool action" where
  "handle_friend_list_request e payload = do {
     admitted \<leftarrow> require_registered_session e;
     if \<not> admitted then State_Monad.return True
     else do {
       session \<leftarrow> get_session;
       listed \<leftarrow> on_database (list_friends (st_user_id session) MAX_FRIEND_ITEMS);
       case listed of
         None \<Rightarrow> send_status_error e EC_internal_error
       | Some friends \<Rightarrow> send_message e MT_friend_list_response friend_list_response_write_to
           \<lparr>fls_friends = friends\<rparr>
     }
   }"

definition handle_top8_set_request :: "handler_env \<Rightarrow> bytes \<Rightarrow> bool action" where
  "handle_top8_set_request e payload =
     guarded e top8_set_request_read_from payload (\<lambda>session request. do {
       resolved \<leftarrow> on_database (resolve_top8_entries request);
       case resolved of
         None \<Rightarrow> send_status_error e EC_not_found
       | Some entries \<Rightarrow> do {
           stored \<leftarrow> on_database (replace_slots (st_user_id session) entries);
           if \<not> stored then send_status_error e EC_internal_error else send_status_ok e 0
         }
     })"

definition handle_top8_get_request :: "handler_env \<Rightarrow> bytes \<Rightarrow> bool action" where
  "handle_top8_get_request e payload =
     guarded e top8_get_request_read_from payload (\<lambda>session request. do {
       found \<leftarrow> on_database (find_user_by_pubkey (tg_target_pubkey request));
       case found of
         None \<Rightarrow> send_status_error e EC_not_found
       | Some target \<Rightarrow> do {
           listed \<leftarrow> on_database (list_slots (ur_id target));
           case listed of
             None \<Rightarrow> send_status_error e EC_internal_error
           | Some response \<Rightarrow> send_message e MT_top8_response top8_response_write_to response
         }
     })"

section \<open>Private messages\<close>

definition handle_dm_send_request :: "handler_env \<Rightarrow> bytes \<Rightarrow> bool action" where
  "handle_dm_send_request e payload =
     guarded e dm_send_request_read_from payload (\<lambda>session request.
       if ds_ciphertext request = [] then send_status_error e EC_invalid_field
       else do {
         found \<leftarrow> on_database (find_user_by_pubkey (ds_recipient_pubkey request));
         case found of
           None \<Rightarrow> send_status_error e EC_not_found
         | Some recipient \<Rightarrow> do {
             created \<leftarrow> on_database (insert_envelope (ur_id recipient) (st_announced_pubkey session)
               (ds_ciphertext request));
             case created of
               None \<Rightarrow> send_status_error e EC_internal_error
             | Some created_id \<Rightarrow> send_status_ok e (to_u64 created_id)
           }
       })"

definition handle_dm_fetch_request :: "handler_env \<Rightarrow> bytes \<Rightarrow> bool action" where
  "handle_dm_fetch_request e payload =
     guarded e dm_fetch_request_read_from payload (\<lambda>session request. do {
       listed \<leftarrow> on_database (list_for_recipient (st_user_id session) (df_since_id request)
         (min (if df_limit request = 0 then MAX_DM_BATCH_ITEMS else df_limit request) MAX_DM_BATCH_ITEMS));
       case listed of
         None \<Rightarrow> send_status_error e EC_internal_error
       | Some response \<Rightarrow> send_message e MT_dm_list_response dm_list_response_write_to response
     })"

definition handle_dm_ack_request :: "handler_env \<Rightarrow> bytes \<Rightarrow> bool action" where
  "handle_dm_ack_request e payload =
     guarded e dm_ack_request_read_from payload (\<lambda>session request. do {
       deleted \<leftarrow> on_database (delete_acknowledged (st_user_id session) (da_envelope_ids request));
       if \<not> deleted then send_status_error e EC_internal_error
       else send_status_ok e (word_of_nat (length (da_envelope_ids request)))
     })"

section \<open>Reports\<close>

definition handle_report_post_request :: "handler_env \<Rightarrow> bytes \<Rightarrow> bool action" where
  "handle_report_post_request e payload =
     guarded e report_post_request_read_from payload (\<lambda>session request. do {
       found \<leftarrow> on_database (find_post_by_id (to_i64 (rp_post_id request)));
       case found of
         None \<Rightarrow> send_status_error e EC_not_found
       | Some _ \<Rightarrow> do {
           now \<leftarrow> get_unix_timestamp;
           stored \<leftarrow> on_database (record_post_report (to_i64 (rp_post_id request)) (st_user_id session)
             (rp_reason request) now);
           if \<not> stored then send_status_error e EC_internal_error else send_status_ok e (rp_post_id request)
         }
     })"

definition handle_report_account_request :: "handler_env \<Rightarrow> bytes \<Rightarrow> bool action" where
  "handle_report_account_request e payload =
     guarded e report_account_request_read_from payload (\<lambda>session request. do {
       found \<leftarrow> on_database (find_user_by_pubkey (ra_target_pubkey request));
       case found of
         None \<Rightarrow> send_status_error e EC_not_found
       | Some _ \<Rightarrow> do {
           now \<leftarrow> get_unix_timestamp;
           stored \<leftarrow> on_database (record_account_report (ra_target_pubkey request) (st_user_id session)
             (ra_reason request) now);
           if \<not> stored then send_status_error e EC_internal_error else send_status_ok e 0
         }
     })"

section \<open>The router\<close>

text \<open>\<open>None\<close> stands for \<^verbatim>\<open>handled = false\<close>.\<close>

definition route_session_family :: "handler_env \<Rightarrow> message_type \<Rightarrow> bytes \<Rightarrow> bool action option" where
  "route_session_family e type payload = (case type of
     MT_hello_request \<Rightarrow> Some (handle_hello_request e payload)
   | MT_auth_response \<Rightarrow> Some (handle_auth_response e payload)
   | MT_register_request \<Rightarrow> Some (handle_register_request e payload)
   | MT_ping_request \<Rightarrow> Some (handle_ping_request e payload)
   | _ \<Rightarrow> None)"

definition route_content_family :: "handler_env \<Rightarrow> message_type \<Rightarrow> bytes \<Rightarrow> bool action option" where
  "route_content_family e type payload = (case type of
     MT_forum_create_request \<Rightarrow> Some (handle_forum_create_request e payload)
   | MT_forum_list_request \<Rightarrow> Some (handle_forum_list_request e payload)
   | MT_post_create_request \<Rightarrow> Some (handle_post_create_request e payload)
   | MT_post_list_request \<Rightarrow> Some (handle_post_list_request e payload)
   | MT_thread_fetch_request \<Rightarrow> Some (handle_thread_fetch_request e payload)
   | MT_comment_create_request \<Rightarrow> Some (handle_comment_create_request e payload)
   | MT_post_delete_request \<Rightarrow> Some (handle_post_delete_request e payload)
   | MT_comment_delete_request \<Rightarrow> Some (handle_comment_delete_request e payload)
   | _ \<Rightarrow> None)"

definition route_social_family :: "handler_env \<Rightarrow> message_type \<Rightarrow> bytes \<Rightarrow> bool action option" where
  "route_social_family e type payload = (case type of
     MT_prekey_publish_request \<Rightarrow> Some (handle_prekey_publish_request e payload)
   | MT_prekey_fetch_request \<Rightarrow> Some (handle_prekey_fetch_request e payload)
   | MT_profile_get_request \<Rightarrow> Some (handle_profile_get_request e payload)
   | MT_profile_set_request \<Rightarrow> Some (handle_profile_set_request e payload)
   | MT_friend_add_request \<Rightarrow> Some (handle_friend_add_request e payload)
   | MT_friend_list_request \<Rightarrow> Some (handle_friend_list_request e payload)
   | MT_top8_set_request \<Rightarrow> Some (handle_top8_set_request e payload)
   | MT_top8_get_request \<Rightarrow> Some (handle_top8_get_request e payload)
   | _ \<Rightarrow> None)"

definition route_dm_family :: "handler_env \<Rightarrow> message_type \<Rightarrow> bytes \<Rightarrow> bool action option" where
  "route_dm_family e type payload = (case type of
     MT_dm_send_request \<Rightarrow> Some (handle_dm_send_request e payload)
   | MT_dm_fetch_request \<Rightarrow> Some (handle_dm_fetch_request e payload)
   | MT_dm_ack_request \<Rightarrow> Some (handle_dm_ack_request e payload)
   | _ \<Rightarrow> None)"

definition route_report_family :: "handler_env \<Rightarrow> message_type \<Rightarrow> bytes \<Rightarrow> bool action option" where
  "route_report_family e type payload = (case type of
     MT_report_post_request \<Rightarrow> Some (handle_report_post_request e payload)
   | MT_report_account_request \<Rightarrow> Some (handle_report_account_request e payload)
   | _ \<Rightarrow> None)"

text \<open>
  A family that does not know the type has no effect and the next one is tried; a family that does
  decides the result.
\<close>

definition route_message :: "handler_env \<Rightarrow> message_type \<Rightarrow> bytes \<Rightarrow> bool action" where
  "route_message e type payload =
     (case route_session_family e type payload of Some h \<Rightarrow> h | None \<Rightarrow>
     (case route_content_family e type payload of Some h \<Rightarrow> h | None \<Rightarrow>
     (case route_social_family e type payload of Some h \<Rightarrow> h | None \<Rightarrow>
     (case route_dm_family e type payload of Some h \<Rightarrow> h | None \<Rightarrow>
     (case route_report_family e type payload of Some h \<Rightarrow> h | None \<Rightarrow>
       send_status_error e EC_not_implemented)))))"

end
