(* ===== verification/Authority.thy ===== *)
theory Authority
  imports Handlers
begin

text \<open>
  What a request may do to the stored data: the abstract relation of changes an account may make,
  the contract of an action that stays within it, and the refinement of that contract by every
  handler. Integrity of the tables and the protection of other people's data are proved on the
  abstract relation.
\<close>

section \<open>The changes an account may make\<close>

inductive own_change :: "int \<Rightarrow> bytes \<Rightarrow> tables \<Rightarrow> tables \<Rightarrow> bool" for uid pk where
  prekey: "upsert_prekey uid k sig now t = Some (u, t') \<Longrightarrow> own_change uid pk t t'"
| forum: "insert_forum uid name description theme now t = Some (i, t') \<Longrightarrow>
    text_ok MAX_FORUM_NAME_LENGTH name \<and> text_ok MAX_FORUM_DESCRIPTION_LENGTH description \<and>
    text_ok MAX_THEME_JSON_LENGTH theme \<Longrightarrow> own_change uid pk t t'"
| post: "insert_post forum_id uid title body now t = Some (i, t') \<Longrightarrow>
    text_ok MAX_POST_TITLE_LENGTH title \<and> text_ok MAX_POST_BODY_LENGTH body \<Longrightarrow> own_change uid pk t t'"
| comment: "insert_comment post_id parent uid body now t = Some (i, t') \<Longrightarrow>
    text_ok MAX_COMMENT_BODY_LENGTH body \<and> (parent \<noteq> 0 \<longrightarrow>
      (\<exists>c\<in>set (tb_comments t). co_id c = parent \<and> co_post_id c = post_id)) \<Longrightarrow> own_change uid pk t t'"
| delete_post: "blank_posts (\<lambda>p. po_id p = post_id \<and> po_author_id p = uid \<and> po_deleted_at p = None) now t =
    Some (n, t') \<Longrightarrow> own_change uid pk t t'"
| delete_comment: "blank_comments (\<lambda>c. co_id c = comment_id \<and> co_author_id c = uid \<and> co_deleted_at c = None)
    now t = Some (n, t') \<Longrightarrow> own_change uid pk t t'"
| profile: "upsert_profile uid q t = Some (u, t') \<Longrightarrow>
    text_ok MAX_DISPLAY_NAME_LENGTH (ps_display_name q) \<and> text_ok MAX_BIO_LENGTH (ps_bio q) \<and>
    text_ok MAX_THEME_JSON_LENGTH (ps_theme_json q) \<and>
    text_ok MAX_BLOB_REFERENCE_LENGTH (ps_banner_reference q) \<Longrightarrow> own_change uid pk t t'"
| friendship: "upsert_friendship uid friend_id status t = Some (u, t') \<Longrightarrow> own_change uid pk t t'"
| clear_top8: "delete_top8 uid t = Some (u, t') \<Longrightarrow> own_change uid pk t t'"
| fill_top8: "insert_top8 uid entry t = Some (u, t') \<Longrightarrow> own_change uid pk t t'"
| envelope: "insert_envelope_row recipient_id pk ciphertext t = Some (i, t') \<Longrightarrow>
    length ciphertext \<le> MAX_DM_CIPHERTEXT_SIZE \<Longrightarrow> own_change uid pk t t'"
| acknowledge: "delete_envelope uid ident t = Some (u, t') \<Longrightarrow> own_change uid pk t t'"
| report: "insert_report kind post_id target uid reason now t = Some (u, t') \<Longrightarrow> own_change uid pk t t'"

lemma own_change_keeps: "own_change uid pk t t' \<Longrightarrow> tables_ok t \<Longrightarrow> tables_ok t'"
  by (induction rule: own_change.induct)
    (blast intro: upsert_prekey.keeps insert_forum.keeps insert_post.keeps insert_comment.keeps
      blank_posts.keeps blank_comments.keeps upsert_profile.keeps upsert_friendship.keeps
      delete_top8.keeps insert_top8.keeps insert_envelope.keeps delete_envelope.keeps insert_report.keeps)+

text \<open>
  What other accounts can rely on: their rows are as they were, the users and announcements are
  untouched, and their mailboxes only grew, by messages that name the actor's key as the sender.
\<close>

definition respects_others :: "int \<Rightarrow> bytes \<Rightarrow> tables \<Rightarrow> tables \<Rightarrow> bool" where
  "respects_others uid pk t t' \<longleftrightarrow>
     tb_users t' = tb_users t \<and> tb_motd t' = tb_motd t \<and>
     filter (\<lambda>p. pk_user_id p \<noteq> uid) (tb_prekeys t') = filter (\<lambda>p. pk_user_id p \<noteq> uid) (tb_prekeys t) \<and>
     filter (\<lambda>f. fo_founder_id f \<noteq> uid) (tb_forums t') = filter (\<lambda>f. fo_founder_id f \<noteq> uid) (tb_forums t) \<and>
     filter (\<lambda>p. po_author_id p \<noteq> uid) (tb_posts t') = filter (\<lambda>p. po_author_id p \<noteq> uid) (tb_posts t) \<and>
     filter (\<lambda>c. co_author_id c \<noteq> uid) (tb_comments t') = filter (\<lambda>c. co_author_id c \<noteq> uid) (tb_comments t) \<and>
     filter (\<lambda>p. pw_user_id p \<noteq> uid) (tb_profiles t') = filter (\<lambda>p. pw_user_id p \<noteq> uid) (tb_profiles t) \<and>
     filter (\<lambda>f. fd_user_id f \<noteq> uid) (tb_friends t') = filter (\<lambda>f. fd_user_id f \<noteq> uid) (tb_friends t) \<and>
     filter (\<lambda>r. tw_user_id r \<noteq> uid) (tb_top8 t') = filter (\<lambda>r. tw_user_id r \<noteq> uid) (tb_top8 t) \<and>
     filter (\<lambda>r. re_reporter_id r \<noteq> uid) (tb_reports t') = filter (\<lambda>r. re_reporter_id r \<noteq> uid) (tb_reports t) \<and>
     (\<exists>new. filter (\<lambda>e. en_recipient_id e \<noteq> uid) (tb_envelopes t') =
        filter (\<lambda>e. en_recipient_id e \<noteq> uid) (tb_envelopes t) @ new \<and> (\<forall>e\<in>set new. en_sender_pubkey e = pk))"

lemma respects_refl: "respects_others uid pk t t"
  by (simp add: respects_others_def)

lemma respects_trans:
  assumes "respects_others uid pk t t1" and "respects_others uid pk t1 t2"
  shows "respects_others uid pk t t2"
proof -
  let ?f = "\<lambda>t. filter (\<lambda>e. en_recipient_id e \<noteq> uid) (tb_envelopes t)"
  obtain new1 new2 where "?f t1 = ?f t @ new1" "?f t2 = ?f t1 @ new2"
    "\<forall>e\<in>set new1. en_sender_pubkey e = pk" "\<forall>e\<in>set new2. en_sender_pubkey e = pk"
    using assms unfolding respects_others_def by blast
  then have "?f t2 = ?f t @ (new1 @ new2) \<and> (\<forall>e\<in>set (new1 @ new2). en_sender_pubkey e = pk)" by auto
  then show ?thesis using assms unfolding respects_others_def by (simp only: simp_thms) blast
qed

lemma filter_map_outside:
  "(\<And>x. \<not> P x \<Longrightarrow> f x = x) \<Longrightarrow> (\<And>x. P x \<Longrightarrow> \<not> Q (f x) \<and> \<not> Q x) \<Longrightarrow> filter Q (map f xs) = filter Q xs"
  by (induction xs) (auto, metis+)

lemma own_change_respects: "own_change uid pk t t' \<Longrightarrow> respects_others uid pk t t'"
proof (induction rule: own_change.induct)
  case (delete_post post_id now t n t')
  then show ?case
    by (auto simp: blank_posts_def respects_others_def filter_map_outside
        [where P = "\<lambda>p. po_id p = post_id \<and> po_author_id p = uid \<and> po_deleted_at p = None"])
next
  case (delete_comment comment_id now t n t')
  then show ?case
    by (auto simp: blank_comments_def respects_others_def filter_map_outside
        [where P = "\<lambda>c. co_id c = comment_id \<and> co_author_id c = uid \<and> co_deleted_at c = None"])
next
  case (friendship friend_id status t u t')
  then show ?case
    by (auto simp: upsert_friendship_def respects_others_def filter_map_outside
        [where P = "\<lambda>f. fd_user_id f = uid \<and> fd_friend_id f = friend_id"] split: if_splits)
next
  case (acknowledge ident t u t')
  have "filter (\<lambda>x. (en_id x = i \<longrightarrow> en_recipient_id x \<noteq> uid) \<and> en_recipient_id x \<noteq> uid) es =
    filter (\<lambda>e. en_recipient_id e \<noteq> uid) es" for i and es :: "envelope_row list"
    by (auto intro: filter_cong)
  moreover have "t' = t\<lparr>tb_envelopes := filter (\<lambda>e. \<not> (en_id e = to_i64 ident \<and> en_recipient_id e = uid))
      (tb_envelopes t)\<rparr>"
    using acknowledge by (simp add: delete_envelope_def)
  ultimately show ?case by (simp add: respects_others_def)
qed (auto simp: upsert_prekey_def insert_forum_def insert_post_def insert_comment_def upsert_profile_def
    delete_top8_def insert_top8_def insert_envelope_row_def insert_report_def respects_others_def Let_def
    split: if_splits)

section \<open>Databases related by own changes\<close>

abbreviation own_changes :: "int \<Rightarrow> bytes \<Rightarrow> database \<Rightarrow> database \<Rightarrow> bool" where
  "own_changes uid pk \<equiv> changes (own_change uid pk)"

lemma own_changes_keeps: "own_changes uid pk d d' \<Longrightarrow> database_ok d \<Longrightarrow> database_ok d'"
  by (rule changes_keeps [OF own_change_keeps])

lemma own_changes_respects: "own_changes uid pk d d' \<Longrightarrow> respects_others uid pk (db_tables d) (db_tables d')"
  by (rule changes_respects [OF respects_refl respects_trans own_change_respects])

section \<open>Reading operations\<close>

definition reads_only :: "(database \<Rightarrow> 'a \<times> database) \<Rightarrow> bool" where
  "reads_only f \<longleftrightarrow> (\<forall>d. db_tables (snd (f d)) = db_tables d \<and> db_saved (snd (f d)) = db_saved d)"

named_theorems reading

lemma reads_pop_fault [reading]: "reads_only pop_fault"
  by (simp add: reads_only_def)

lemma reads_step_read: "reads_only (step_read q)"
  by (simp add: reads_only_def step_read_def case_prod_beta)

lemmas step_read_same [simp] = reads_step_read [unfolded reads_only_def, rule_format, THEN conjunct1]
  reads_step_read [unfolded reads_only_def, rule_format, THEN conjunct2]

lemma reads_fetch_rows: "reads_only (fetch_rows rd rows)"
proof (induction rows)
  case (Cons r rows)
  then show ?case
    by (auto simp: reads_only_def case_prod_beta split: option.splits)
qed (simp add: reads_only_def)

lemma reads_fetch_rows_upto: "reads_only (fetch_rows_upto k rd rows)"
proof (induction rows arbitrary: k)
  case (Cons r rows)
  then show ?case
    by (auto simp: reads_only_def case_prod_beta split: option.splits)
qed (simp add: reads_only_def)

lemma reads_fill_slots: "reads_only (\<lambda>d. fill_slots t rows d out)"
proof (induction rows arbitrary: out)
  case (Cons r rows)
  then show ?case
    by (auto simp: reads_only_def case_prod_beta Let_def split: option.splits)
qed (simp add: reads_only_def)

lemma reads_resolve_from: "reads_only (resolve_from index slots out)"
proof (induction slots arbitrary: index out)
  case (Cons slot slots)
  then show ?case
    by (auto simp: reads_only_def find_user_by_pubkey_def case_prod_beta split: option.splits)
qed (simp add: reads_only_def)

lemma reads_loops [simp]:
  "db_tables (snd (fetch_rows rd rows d)) = db_tables d" "db_saved (snd (fetch_rows rd rows d)) = db_saved d"
  "db_tables (snd (fetch_rows_upto k rd rows d)) = db_tables d"
  "db_saved (snd (fetch_rows_upto k rd rows d)) = db_saved d"
  "db_tables (snd (fill_slots t trows d out)) = db_tables d"
  "db_saved (snd (fill_slots t trows d out)) = db_saved d"
  "db_tables (snd (resolve_from index slots sofar d)) = db_tables d"
  "db_saved (snd (resolve_from index slots sofar d)) = db_saved d"
  using reads_fetch_rows [of rd rows] reads_fetch_rows_upto [of k rd rows] reads_fill_slots [of t trows out]
    reads_resolve_from [of index slots sofar] by (simp_all add: reads_only_def)

lemma reads_queries [reading]:
  "reads_only (find_user_by_pubkey k)" "reads_only (find_user_by_id i)" "reads_only (find_bundle_by_pubkey k)"
  "reads_only (find_forum_by_id i)" "reads_only (find_post_by_id i)" "reads_only (find_comment_by_id i)"
  "reads_only (find_profile_by_pubkey k)" "reads_only find_active_motd"
  by (simp_all add: find_user_by_pubkey_def find_user_by_id_def find_bundle_by_pubkey_def
      find_forum_by_id_def find_forum_where_def find_post_by_id_def find_comment_by_id_def
      find_profile_by_pubkey_def find_active_motd_def reads_step_read)

lemma reads_lists [reading]:
  "reads_only (list_forums offset limit)" "reads_only (list_by_forum i offset limit)"
  "reads_only (list_thread i limit)" "reads_only (list_friends i limit)" "reads_only (list_slots i)"
  "reads_only (list_for_recipient i since limit)" "reads_only (resolve_top8_entries q)"
  "reads_only (check_parent_belongs_to_post c p)"
  by (auto simp: reads_only_def list_forums_def list_by_forum_def list_thread_def list_friends_def
      list_slots_def list_for_recipient_def resolve_top8_entries_def check_parent_belongs_to_post_def
      case_prod_beta Let_def split: option.splits)

section \<open>The contract of an action\<close>

locale action_contract =
  fixes R :: "handler_context \<Rightarrow> handler_context \<Rightarrow> bool"
  assumes R_refl: "R s s"
    and R_trans: "R s s1 \<Longrightarrow> R s1 s2 \<Longrightarrow> R s s2"
begin

lemma return_rel: "state_io_rel R (State_Monad.return a)"
  by (simp add: state_io_rel_def R_refl)

lemma bind_rel:
  "state_io_rel R m \<Longrightarrow> (\<And>a. state_io_rel R (f a)) \<Longrightarrow> state_io_rel R (State_Monad.bind m f)"
  unfolding state_io_rel_def run_bind by (simp add: case_prod_beta) (metis R_trans)

lemma if_rel:
  "(b \<Longrightarrow> state_io_rel R m) \<Longrightarrow> (\<not> b \<Longrightarrow> state_io_rel R n) \<Longrightarrow> state_io_rel R (if b then m else n)"
  by simp

lemma option_rel:
  "(x = None \<Longrightarrow> state_io_rel R m) \<Longrightarrow> (\<And>a. x = Some a \<Longrightarrow> state_io_rel R (f a)) \<Longrightarrow>
   state_io_rel R (case x of None \<Rightarrow> m | Some a \<Rightarrow> f a)"
  by (cases x) simp_all

lemma pair_rel: "(\<And>a b. state_io_rel R (f a b)) \<Longrightarrow> state_io_rel R (case p of (a, b) \<Rightarrow> f a b)"
  by (cases p) simp

lemma bind_post_rel:
  assumes "\<And>s. R s (snd (run_state m s)) \<and> Q (fst (run_state m s)) (snd (run_state m s))"
    and "\<And>a s. Q a s \<Longrightarrow> R s (snd (run_state (f a) s))"
  shows "state_io_rel R (State_Monad.bind m f)"
  using assms unfolding state_io_rel_def run_bind by (simp add: case_prod_beta) (metis R_trans)

lemmas flow = return_rel bind_rel if_rel option_rel pair_rel

end

text \<open>
  The contract of the business handlers on a session \<open>S\<close>: the session and the input stay, the
  output queue only grows and keeps its bound, and the database moves by own changes of the account.
\<close>

definition within :: "session_state \<Rightarrow> handler_context \<Rightarrow> handler_context \<Rightarrow> bool" where
  "within S s s' \<longleftrightarrow> (cn_session (hc_connection s) = S \<longrightarrow>
     cn_session (hc_connection s') = S \<and>
     cn_input_buffer (hc_connection s') = cn_input_buffer (hc_connection s) \<and>
     (\<exists>w. sk_pending_output (cn_socket (hc_connection s')) =
        sk_pending_output (cn_socket (hc_connection s)) @ w) \<and>
     (socket_ok (cn_socket (hc_connection s)) \<longrightarrow> socket_ok (cn_socket (hc_connection s'))) \<and>
     own_changes (st_user_id S) (st_announced_pubkey S) (hc_database s) (hc_database s'))"

interpretation within: action_contract "within S" for S
proof
  show "within S s s" for s by (simp add: within_def changes_refl)
  show "within S s s1 \<Longrightarrow> within S s1 s2 \<Longrightarrow> within S s s2" for s s1 s2
    unfolding within_def by (metis append_assoc changes_trans)
qed

lemma within_get_session:
  "state_io_rel (within S) (f S) \<Longrightarrow> state_io_rel (within S) (State_Monad.bind get_session f)"
  by (auto simp: state_io_rel_def run_bind run_get_session within_def)

lemma within_send: "state_io_rel (within S) (send_message e type write_to m)"
proof
  fix a s s' assume "run_state (send_message e type write_to m) s = (a, s')"
  then obtain c where c: "send_raw_message e type (encode_with write_to m) (hc_connection s) = (a, c)"
    "s' = s\<lparr>hc_connection := c\<rparr>"
    by (auto simp: send_message_def run_on_connection split: prod.splits)
  show "within S s s'"
    using send_raw_message_frame [OF c(1)] by (auto simp: within_def c(2) changes_refl)
qed

lemma within_simple:
  "state_io_rel (within S) get_unix_timestamp" "state_io_rel (within S) fill_random_nonce"
  "state_io_rel (within S) (log_entry e level message)"
  by (auto simp: state_io_rel_def get_unix_timestamp_def fill_random_nonce_def log_entry_def within_def
      changes_refl split: list.splits)

lemma within_status:
  "state_io_rel (within S) (send_status_ok e i)" "state_io_rel (within S) (send_status_error e code)"
  by (simp_all add: send_status_ok_def send_status_error_def within_send)

lemma within_database:
  "(\<And>d. own_changes (st_user_id S) (st_announced_pubkey S) d (snd (f d))) \<Longrightarrow>
   state_io_rel (within S) (on_database f)"
  by (auto simp: state_io_rel_def run_on_database within_def case_prod_beta)

lemma within_read: "reads_only f \<Longrightarrow> state_io_rel (within S) (on_database f)"
  by (rule within_database) (simp add: reads_only_def changes_same)

lemma within_checkpoint: "state_io_rel (within S) (checkpoint_after_deletion e)"
  unfolding checkpoint_after_deletion_def
  by (intro within.flow within_read reads_pop_fault within_simple)

lemma within_guarded:
  assumes "\<And>request. read_request read_from payload = Some request \<Longrightarrow> state_io_rel (within S) (body S request)"
  shows "state_io_rel (within S) (guarded e read_from payload body)"
  unfolding guarded_def require_registered_session_def
  by (intro within.flow within_get_session within_status assms)

lemmas within_rules = within.flow within_guarded within_get_session within_send within_simple within_status
  within_checkpoint within_read reading

section \<open>The writing operations are own changes\<close>

lemma own_write:
  "(\<And>d. own_changes uid pk d (snd (step_write effect d))) \<Longrightarrow>
   own_changes uid pk d (snd (let (r, d') = step_write effect d in (g r, d')))"
  by (simp add: case_prod_beta)

lemma own_operations:
  "own_changes uid pk d (snd (replace_prekey uid k sig now d))"
  "text_ok MAX_FORUM_NAME_LENGTH name \<Longrightarrow> text_ok MAX_FORUM_DESCRIPTION_LENGTH description \<Longrightarrow>
    text_ok MAX_THEME_JSON_LENGTH theme \<Longrightarrow> own_changes uid pk d (snd (create_forum uid name description theme now d))"
  "text_ok MAX_POST_TITLE_LENGTH title \<Longrightarrow> text_ok MAX_POST_BODY_LENGTH body \<Longrightarrow>
    own_changes uid pk d (snd (create_post forum_id uid title body now d))"
  "text_ok MAX_COMMENT_BODY_LENGTH cbody \<Longrightarrow> (parent \<noteq> 0 \<longrightarrow>
      (\<exists>c\<in>set (tb_comments (db_tables d)). co_id c = parent \<and> co_post_id c = post_id)) \<Longrightarrow>
    own_changes uid pk d (snd (create_comment post_id parent uid cbody now d))"
  "profile_set_request_valid q \<Longrightarrow> own_changes uid pk d (snd (replace_profile uid q d))"
  "own_changes uid pk d (snd (replace_friendship uid friend_id status d))"
  "length ciphertext \<le> MAX_DM_CIPHERTEXT_SIZE \<Longrightarrow>
    own_changes uid pk d (snd (insert_envelope recipient_id pk ciphertext d))"
  "own_changes uid pk d (snd (record_post_report post_id uid reason now d))"
  "own_changes uid pk d (snd (record_account_report k uid reason now d))"
  unfolding replace_prekey_def create_forum_def create_post_def create_comment_def replace_profile_def
    replace_friendship_def insert_envelope_def record_post_report_def record_account_report_def
  by (((rule own_write)?, rule step_write_changes, erule own_change.intros,
      (simp add: profile_set_request_valid_def)?)[1])+

lemma own_deletions:
  "own_changes uid pk d (snd (delete_own_post i uid now d))"
  "own_changes uid pk d (snd (delete_own_comment i uid now d))"
proof -
  have "own_changes uid pk d (snd (step_write (blank_posts (\<lambda>p. po_id p = i \<and> po_author_id p = uid \<and>
      po_deleted_at p = None) (to_i64 now)) d))"
    by (rule step_write_changes, erule own_change.delete_post)
  then show "own_changes uid pk d (snd (delete_own_post i uid now d))"
    by (auto simp: delete_own_post_def split: prod.splits option.splits)
  have "own_changes uid pk d (snd (step_write (blank_comments (\<lambda>c. co_id c = i \<and> co_author_id c = uid \<and>
      co_deleted_at c = None) (to_i64 now)) d))"
    by (rule step_write_changes, erule own_change.delete_comment)
  then show "own_changes uid pk d (snd (delete_own_comment i uid now d))"
    by (auto simp: delete_own_comment_def split: prod.splits option.splits)
qed

lemma own_transactions:
  "own_changes uid pk d (snd (replace_slots uid entries d))"
  "own_changes uid pk d (snd (delete_acknowledged uid ids d))"
  unfolding replace_slots_def delete_acknowledged_def
  by (rule in_transaction_changes, auto intro: own_change.clear_top8 own_change.fill_top8 own_change.acknowledge)+

lemmas within_writes = within_database [OF own_operations(1)] within_database [OF own_operations(2)]
  within_database [OF own_operations(3)] within_database [OF own_operations(5)]
  within_database [OF own_operations(6)] within_database [OF own_operations(7)]
  within_database [OF own_operations(8)] within_database [OF own_operations(9)]
  within_database [OF own_deletions(1)] within_database [OF own_deletions(2)]
  within_database [OF own_transactions(1)] within_database [OF own_transactions(2)]

section \<open>Every business handler stays within its account\<close>

lemma within_prekey_publish: "state_io_rel (within S) (handle_prekey_publish_request e payload)"
  unfolding handle_prekey_publish_request_def by (intro within_rules within_writes)

lemma within_prekey_fetch: "state_io_rel (within S) (handle_prekey_fetch_request e payload)"
  unfolding handle_prekey_fetch_request_def by (intro within_rules within_writes)

lemma within_forum_create: "state_io_rel (within S) (handle_forum_create_request e payload)"
  unfolding handle_forum_create_request_def
  by (intro within_rules within_writes) (auto dest: forum_create_request.request_valid simp: forum_create_request_valid_def)

lemma within_forum_list: "state_io_rel (within S) (handle_forum_list_request e payload)"
  unfolding handle_forum_list_request_def by (intro within_rules within_writes)

lemma within_post_create: "state_io_rel (within S) (handle_post_create_request e payload)"
  unfolding handle_post_create_request_def
  by (intro within_rules within_writes) (auto dest: post_create_request.request_valid simp: post_create_request_valid_def)

lemma within_post_list: "state_io_rel (within S) (handle_post_list_request e payload)"
  unfolding handle_post_list_request_def by (intro within_rules within_writes)

lemma within_thread_fetch: "state_io_rel (within S) (handle_thread_fetch_request e payload)"
  unfolding handle_thread_fetch_request_def by (intro within_rules within_writes)

lemma within_post_delete: "state_io_rel (within S) (handle_post_delete_request e payload)"
  unfolding handle_post_delete_request_def by (intro within_rules within_writes)

lemma within_comment_delete: "state_io_rel (within S) (handle_comment_delete_request e payload)"
  unfolding handle_comment_delete_request_def by (intro within_rules within_writes)

lemma within_profile_get: "state_io_rel (within S) (handle_profile_get_request e payload)"
  unfolding handle_profile_get_request_def by (intro within_rules within_writes)

lemma within_profile_set: "state_io_rel (within S) (handle_profile_set_request e payload)"
  unfolding handle_profile_set_request_def
  by (intro within_rules within_writes) (auto dest: profile_set_request.request_valid simp: profile_set_request_valid_def)

lemma within_friend_add: "state_io_rel (within S) (handle_friend_add_request e payload)"
  unfolding handle_friend_add_request_def by (intro within_rules within_writes)

lemma within_friend_list: "state_io_rel (within S) (handle_friend_list_request e payload)"
  unfolding handle_friend_list_request_def require_registered_session_def
  by (intro within_rules within_writes)

lemma within_top8_set: "state_io_rel (within S) (handle_top8_set_request e payload)"
  unfolding handle_top8_set_request_def by (intro within_rules within_writes)

lemma within_top8_get: "state_io_rel (within S) (handle_top8_get_request e payload)"
  unfolding handle_top8_get_request_def by (intro within_rules within_writes)

lemma within_dm_send: "state_io_rel (within S) (handle_dm_send_request e payload)"
  unfolding handle_dm_send_request_def
  by (intro within_rules within_writes) (auto dest: dm_send_request.request_valid simp: dm_send_request_valid_def)

lemma within_dm_fetch: "state_io_rel (within S) (handle_dm_fetch_request e payload)"
  unfolding handle_dm_fetch_request_def by (intro within_rules within_writes)

lemma within_dm_ack: "state_io_rel (within S) (handle_dm_ack_request e payload)"
  unfolding handle_dm_ack_request_def by (intro within_rules within_writes)

lemma within_report_post: "state_io_rel (within S) (handle_report_post_request e payload)"
  unfolding handle_report_post_request_def by (intro within_rules within_writes)

lemma within_report_account: "state_io_rel (within S) (handle_report_account_request e payload)"
  unfolding handle_report_account_request_def by (intro within_rules within_writes)

text \<open>
  Creating a comment relies on the check before it: when the parent is not a comment of the same
  post, nothing is inserted.
\<close>

lemma parent_check:
  assumes "run_state (if parent \<noteq> 0
      then do {
        belongs \<leftarrow> on_database (check_parent_belongs_to_post (to_i64 parent) post_id);
        State_Monad.return (\<not> belongs)
      }
      else State_Monad.return False) s = (grafted, s1)"
  shows "db_tables (hc_database s1) = db_tables (hc_database s)"
    and "\<not> grafted \<Longrightarrow> to_i64 parent \<noteq> 0 \<Longrightarrow>
      \<exists>c\<in>set (tb_comments (db_tables (hc_database s))). co_id c = to_i64 parent \<and> co_post_id c = post_id"
proof -
  show "db_tables (hc_database s1) = db_tables (hc_database s)"
    using assms by (auto simp: run_bind run_on_database check_parent_belongs_to_post_def case_prod_beta
        split: if_splits)
  have "to_i64 (0 :: u64) = 0" by (simp add: to_i64_def)
  then show "\<exists>c\<in>set (tb_comments (db_tables (hc_database s))). co_id c = to_i64 parent \<and> co_post_id c = post_id"
    if "\<not> grafted" "to_i64 parent \<noteq> 0"
    using that assms
    by (auto simp: run_bind run_on_database check_parent_belongs_to_post_def step_read_def case_prod_beta
        find_Some_iff split: if_splits)
qed

lemma run_timestamp_database: "hc_database (snd (run_state get_unix_timestamp s)) = hc_database s"
  by (auto simp: get_unix_timestamp_def split: list.splits)

lemma within_checked_comment:
  assumes "text_ok MAX_COMMENT_BODY_LENGTH body" and refused: "state_io_rel (within S) refused"
    and rest: "\<And>created. state_io_rel (within S) (continue created)"
  shows "state_io_rel (within S) (do {
    grafted \<leftarrow> (if parent \<noteq> 0
      then do {
        belongs \<leftarrow> on_database (check_parent_belongs_to_post (to_i64 parent) post_id);
        State_Monad.return (\<not> belongs)
      }
      else State_Monad.return False);
    if grafted then refused
    else do {
      now \<leftarrow> get_unix_timestamp;
      created \<leftarrow> on_database (create_comment post_id (to_i64 parent) (st_user_id S) body now);
      continue created
    }})" (is "state_io_rel _ (State_Monad.bind ?check _)")
proof (rule within.bind_post_rel)
  let ?Q = "\<lambda>grafted (s :: handler_context). \<not> grafted \<longrightarrow> to_i64 parent \<noteq> 0 \<longrightarrow>
    (\<exists>c\<in>set (tb_comments (db_tables (hc_database s))). co_id c = to_i64 parent \<and> co_post_id c = post_id)"
  show "within S s (snd (run_state ?check s)) \<and> ?Q (fst (run_state ?check s)) (snd (run_state ?check s))" for s
  proof -
    obtain g s1 where r: "run_state ?check s = (g, s1)" by fastforce
    have "state_io_rel (within S) ?check" by (intro within_rules)
    then have "within S s s1" using r by (rule state_io_relD)
    then show ?thesis unfolding r fst_conv snd_conv using parent_check [OF r] by simp
  qed
  fix grafted and s :: handler_context assume Q: "?Q grafted s"
  let ?now = "run_state get_unix_timestamp s"
  let ?op = "create_comment post_id (to_i64 parent) (st_user_id S) body (fst ?now)"
  have op: "within S (snd ?now) (snd (run_state (on_database ?op) (snd ?now)))" if "\<not> grafted"
    using own_operations(4) [OF assms(1), of "to_i64 parent" "hc_database (snd ?now)" post_id] Q that
    by (simp add: run_timestamp_database run_on_database case_prod_beta within_def)
  have now: "within S s (snd ?now)" using within_simple(1) [of S] by (simp add: state_io_rel_def)
  have continued: "within S s' (snd (run_state (continue created) s'))" for s' created
    using rest by (simp add: state_io_rel_def)
  show "within S s (snd (run_state (if grafted then refused else do {
      now \<leftarrow> get_unix_timestamp;
      created \<leftarrow> on_database (create_comment post_id (to_i64 parent) (st_user_id S) body now);
      continue created
    }) s))"
    using refused within.R_trans [OF within.R_trans [OF now op] continued]
    by (simp add: run_bind case_prod_beta state_io_rel_def)
qed

lemma within_comment_create: "state_io_rel (within S) (handle_comment_create_request e payload)"
  unfolding handle_comment_create_request_def
  by (intro within_guarded within.if_rel within.bind_rel [OF within_read] within.option_rel within_checked_comment
      within.flow within_send within_status within_read reading)
    (auto dest: comment_create_request.request_valid simp: comment_create_request_valid_def)

end
