(* ===== verification/Sessions.thy ===== *)
theory Sessions
  imports Authority
begin

text \<open>
  The router as a whole: the business messages stay within the account of the session, the gate
  refuses every one of them on a session that is not registered, and the session messages move the
  session through its phases only as the challenge-response protocol allows.
\<close>

section \<open>Message families\<close>

definition session_message :: "message_type \<Rightarrow> bool" where
  "session_message type \<longleftrightarrow> type \<in> {MT_hello_request, MT_auth_response, MT_register_request, MT_ping_request}"

text \<open>The messages a client sends that need an account.\<close>

definition business_message :: "message_type \<Rightarrow> bool" where
  "business_message type \<longleftrightarrow> type \<in> {MT_prekey_publish_request, MT_prekey_fetch_request,
     MT_forum_create_request, MT_forum_list_request, MT_post_create_request, MT_post_list_request,
     MT_thread_fetch_request, MT_comment_create_request, MT_post_delete_request,
     MT_comment_delete_request, MT_profile_get_request, MT_profile_set_request, MT_friend_add_request,
     MT_friend_list_request, MT_top8_set_request, MT_top8_get_request, MT_dm_send_request,
     MT_dm_fetch_request, MT_dm_ack_request, MT_report_post_request, MT_report_account_request}"

lemmas route_defs = route_message_def route_session_family_def route_content_family_def
  route_social_family_def route_dm_family_def route_report_family_def

lemmas business_handler_defs = handle_prekey_publish_request_def handle_prekey_fetch_request_def
  handle_forum_create_request_def handle_forum_list_request_def handle_post_create_request_def
  handle_post_list_request_def handle_thread_fetch_request_def handle_comment_create_request_def
  handle_post_delete_request_def handle_comment_delete_request_def handle_profile_get_request_def
  handle_profile_set_request_def handle_friend_add_request_def handle_top8_set_request_def
  handle_top8_get_request_def handle_dm_send_request_def handle_dm_fetch_request_def
  handle_dm_ack_request_def handle_report_post_request_def handle_report_account_request_def

lemmas within_handlers = within_prekey_publish within_prekey_fetch within_forum_create within_forum_list
  within_post_create within_post_list within_thread_fetch within_comment_create within_post_delete
  within_comment_delete within_profile_get within_profile_set within_friend_add within_friend_list
  within_top8_set within_top8_get within_dm_send within_dm_fetch within_dm_ack within_report_post
  within_report_account

lemma within_route:
  "\<not> session_message type \<Longrightarrow> state_io_rel (within S) (route_message e type payload)"
  by (cases type) (simp_all add: route_defs session_message_def within_handlers within_status)

section \<open>The gate\<close>

lemma guarded_refused:
  "\<not> registered (cn_session (hc_connection s)) \<Longrightarrow>
   run_state (guarded e read_from payload body) s =
     (True, snd (run_state (send_status_error e EC_not_authenticated) s))"
  by (simp add: guarded_def require_registered_session_def run_bind run_get_session case_prod_beta)

lemma friend_list_refused:
  "\<not> registered (cn_session (hc_connection s)) \<Longrightarrow>
   run_state (handle_friend_list_request e payload) s =
     (True, snd (run_state (send_status_error e EC_not_authenticated) s))"
  by (simp add: handle_friend_list_request_def require_registered_session_def run_bind run_get_session
      case_prod_beta)

lemma route_refused:
  "business_message type \<Longrightarrow> \<not> registered (cn_session (hc_connection s)) \<Longrightarrow>
   run_state (route_message e type payload) s =
     (True, snd (run_state (send_status_error e EC_not_authenticated) s))"
  by (cases type)
    (simp_all add: business_message_def route_defs business_handler_defs guarded_refused friend_list_refused)

section \<open>The session protocol\<close>

text \<open>
  The protocol as a specification: what one session message may do to the session and to the
  tables. A key is proven by a signature over the challenge of this session; an account is entered
  only with a proven key whose account is not banned, or with a new account for that key.
\<close>

inductive session_move :: "handler_env \<Rightarrow> session_state \<Rightarrow> tables \<Rightarrow> session_state \<Rightarrow> tables \<Rightarrow> bool" for e where
  stay: "session_move e S t S t"
| challenged: "st_phase S = Awaiting_hello \<Longrightarrow> length pubkey = PUBLIC_KEY_SIZE \<Longrightarrow>
    session_move e S t (S\<lparr>st_announced_pubkey := pubkey, st_challenge_nonce := nonce, st_phase := Awaiting_auth\<rparr>) t"
| proven: "st_phase S = Awaiting_auth \<Longrightarrow>
    he_verify e (st_announced_pubkey S)
      (build_auth_signing_input (st_challenge_nonce S) (st_announced_pubkey S)) signature \<Longrightarrow>
    session_move e S t (S\<lparr>st_phase := Authenticated, st_user_id := 0\<rparr>) t"
| admitted: "st_phase S = Awaiting_auth \<Longrightarrow>
    he_verify e (st_announced_pubkey S)
      (build_auth_signing_input (st_challenge_nonce S) (st_announced_pubkey S)) signature \<Longrightarrow>
    u \<in> set (tb_users t) \<Longrightarrow> ur_pubkey u = st_announced_pubkey S \<Longrightarrow> \<not> ur_banned u \<Longrightarrow>
    session_move e S t (S\<lparr>st_phase := Authenticated, st_user_id := ur_id u, st_handle := ur_handle u\<rparr>) t"
| created: "st_phase S = Authenticated \<Longrightarrow> st_user_id S = 0 \<Longrightarrow> sc_registration_open (he_config e) \<Longrightarrow>
    validate_handle handle \<Longrightarrow> text_ok MAX_HANDLE_LENGTH handle \<Longrightarrow>
    insert_user (st_announced_pubkey S) handle t = Some (i, t1) \<Longrightarrow>
    S' = S \<and> t' = t1 \<or>
    (\<exists>u\<in>set (tb_users t1). ur_id u = i \<and>
      S' = S\<lparr>st_phase := Authenticated, st_user_id := i, st_handle := ur_handle u\<rparr>) \<and>
      (t' = t1 \<or> upsert_profile i empty_profile t1 = Some ((), t')) \<Longrightarrow>
    session_move e S t S' t'"

abbreviation session_of :: "handler_context \<Rightarrow> session_state" where
  "session_of s \<equiv> cn_session (hc_connection s)"

abbreviation tables_of :: "handler_context \<Rightarrow> tables" where
  "tables_of s \<equiv> db_tables (hc_database s)"

lemma run_send [simp]:
  "session_of (snd (run_state (send_message e type w m) s)) = session_of s"
  "hc_database (snd (run_state (send_message e type w m) s)) = hc_database s"
proof -
  obtain b c where "send_raw_message e type (encode_with w m) (hc_connection s) = (b, c)" by fastforce
  then show "session_of (snd (run_state (send_message e type w m) s)) = session_of s"
    "hc_database (snd (run_state (send_message e type w m) s)) = hc_database s"
    using send_raw_message_frame(1) by (simp_all add: send_message_def run_on_connection)
qed

lemma run_status [simp]:
  "session_of (snd (run_state (send_status_ok e i) s)) = session_of s"
  "hc_database (snd (run_state (send_status_ok e i) s)) = hc_database s"
  "session_of (snd (run_state (send_status_error e code) s)) = session_of s"
  "hc_database (snd (run_state (send_status_error e code) s)) = hc_database s"
  by (simp_all add: send_status_ok_def send_status_error_def)

lemma run_inputs [simp]:
  "session_of (snd (run_state get_unix_timestamp s)) = session_of s"
  "hc_database (snd (run_state get_unix_timestamp s)) = hc_database s"
  "session_of (snd (run_state fill_random_nonce s)) = session_of s"
  "hc_database (snd (run_state fill_random_nonce s)) = hc_database s"
  by (auto simp: get_unix_timestamp_def fill_random_nonce_def split: list.splits)

lemma run_database [simp]:
  "session_of (snd (run_state (on_database f) s)) = session_of s"
  "hc_database (snd (run_state (on_database f) s)) = snd (f (hc_database s))"
  "fst (run_state (on_database f) s) = fst (f (hc_database s))"
  by (simp_all add: run_on_database case_prod_beta)

lemma run_session [simp]:
  "session_of (snd (run_state (set_session f) s)) = f (session_of s)"
  "hc_database (snd (run_state (set_session f) s)) = hc_database s"
  by (simp_all add: run_set_session)

lemma run_reads [simp]:
  "db_tables (snd (find_user_by_pubkey k d)) = db_tables d" "db_saved (snd (find_user_by_pubkey k d)) = db_saved d"
  "db_tables (snd (find_user_by_id i d)) = db_tables d" "db_saved (snd (find_user_by_id i d)) = db_saved d"
  "db_tables (snd (find_active_motd d)) = db_tables d" "db_saved (snd (find_active_motd d)) = db_saved d"
  by (simp_all add: find_user_by_pubkey_def find_user_by_id_def find_active_motd_def)

lemma run_accepted [simp]:
  "session_of (snd (run_state (send_accepted_session e u) s)) =
     (session_of s)\<lparr>st_phase := Authenticated, st_user_id := ur_id u, st_handle := ur_handle u\<rparr>"
  "tables_of (snd (run_state (send_accepted_session e u) s)) = tables_of s"
  "db_saved (hc_database (snd (run_state (send_accepted_session e u) s))) = db_saved (hc_database s)"
  by (simp_all add: send_accepted_session_def run_bind case_prod_beta split: option.splits)

lemma found_user:
  assumes "fst (find_user_by_pubkey k d) = Some u"
  shows "u \<in> set (tb_users (db_tables d)) \<and> ur_pubkey u = k"
  using assms user_by_pubkey_Some
  by (auto simp: find_user_by_pubkey_def step_read_def case_prod_beta read_user_row_def bind_eq_Some_conv
      split: if_splits)

lemma found_id:
  assumes "fst (find_user_by_id i d) = Some u"
  shows "u \<in> set (tb_users (db_tables d)) \<and> ur_id u = i"
  using assms user_by_id_Some
  by (auto simp: find_user_by_id_def step_read_def case_prod_beta read_user_row_def bind_eq_Some_conv
      split: if_splits)

lemma hello_moves:
  "session_move e (session_of s) (tables_of s) (session_of (snd (run_state (handle_hello_request e p) s)))
     (tables_of (snd (run_state (handle_hello_request e p) s)))"
proof (cases "st_phase (session_of s) = Awaiting_hello")
  case True
  then show ?thesis
    using session_move.challenged [OF True]
    by (auto simp: handle_hello_request_def run_bind run_get_session case_prod_beta session_move.stay
        hello_request_valid_def dest: hello_request.request_valid split: option.splits)
qed (simp add: handle_hello_request_def run_bind run_get_session session_move.stay)

lemma auth_moves:
  "session_move e (session_of s) (tables_of s) (session_of (snd (run_state (handle_auth_response e p) s)))
     (tables_of (snd (run_state (handle_auth_response e p) s)))"
  by (auto simp: handle_auth_response_def run_bind run_get_session case_prod_beta session_move.stay
      split: option.splits intro: session_move.proven session_move.admitted dest!: found_user)

lemma register_moves:
  "session_move e (session_of s) (tables_of s) (session_of (snd (run_state (handle_register_request e p) s)))
     (tables_of (snd (run_state (handle_register_request e p) s)))"
  (is "session_move e ?S ?t (session_of (snd (run_state ?m s))) _")
proof (cases "st_phase ?S = Authenticated \<and> st_user_id ?S = 0 \<and> sc_registration_open (he_config e) \<and>
    (\<exists>q. read_request register_request_read_from p = Some q \<and> validate_handle (rq_handle q))")
  case True
  then obtain q where q: "st_phase ?S = Authenticated" "st_user_id ?S = 0" "sc_registration_open (he_config e)"
    "read_request register_request_read_from p = Some q" "validate_handle (rq_handle q)" by blast
  have ok: "text_ok MAX_HANDLE_LENGTH (rq_handle q)"
    using register_request.request_valid [OF q(4)] by (simp add: register_request_valid_def)
  let ?d = "hc_database s"
  obtain r d1 where c: "create_user (st_announced_pubkey ?S) (rq_handle q) ?d = (r, d1)" by fastforce
  note w = step_write_cases [OF c [unfolded create_user_def]]
  show ?thesis
  proof (cases r)
    case None
    then show ?thesis
      using w q by (simp add: handle_register_request_def run_bind run_get_session case_prod_beta c session_move.stay)
  next
    case (Some i)
    note ins = w(3) [OF Some]
    obtain v d2 where v: "find_user_by_id i d1 = (v, d2)" by fastforce
    have d2: "db_tables d2 = db_tables d1" using run_reads(3) [of i d1] by (simp add: v)
    obtain b d3 where b: "step_write (upsert_profile i empty_profile) d2 = (b, d3)" by fastforce
    have d3: "db_tables d3 = db_tables d1 \<or> upsert_profile i empty_profile (db_tables d1) = Some ((), db_tables d3)"
      using step_write_cases(3,4) [OF b] d2 by (cases b) auto
    note run = handle_register_request_def run_bind run_get_session case_prod_beta c v Some replace_profile_def b q
    show ?thesis
    proof (cases v)
      case None
      show ?thesis
        by (rule session_move.created [OF q(1,2,3,5) ok ins]) (simp add: run None d2)
    next
      case (Some u)
      have "u \<in> set (tb_users (db_tables d1)) \<and> ur_id u = i"
        using found_id [of i d1 u] by (simp add: v Some)
      then show ?thesis
        using d3 by (intro session_move.created [OF q(1,2,3,5) ok ins]) (auto simp: run Some)
    qed
  qed
qed (auto simp: handle_register_request_def run_bind run_get_session case_prod_beta session_move.stay
    split: option.splits)

lemma ping_moves:
  "session_move e (session_of s) (tables_of s) (session_of (snd (run_state (handle_ping_request e p) s)))
     (tables_of (snd (run_state (handle_ping_request e p) s)))"
  by (simp add: handle_ping_request_def run_bind case_prod_beta session_move.stay split: option.splits)

lemma session_saved:
  "session_message type \<Longrightarrow>
   db_saved (hc_database (snd (run_state (route_message e type p) s))) = db_saved (hc_database s)"
proof -
  have w: "db_saved (snd (step_write f d)) = db_saved d" for d and f :: "tables \<Rightarrow> ('a \<times> tables) option"
    using step_write_cases(1) by (metis prod.collapse)
  have "db_saved (snd (create_user k h d)) = db_saved d" for k h d
    using w unfolding create_user_def by (metis prod.collapse step_write_cases(1))
  moreover have "db_saved (snd (replace_profile i q d)) = db_saved d" for i q d
    unfolding replace_profile_def by (simp add: case_prod_beta) (metis prod.collapse step_write_cases(1))
  ultimately show "session_message type \<Longrightarrow> ?thesis"
    by (auto simp: session_message_def route_defs handle_hello_request_def handle_auth_response_def
        handle_register_request_def handle_ping_request_def run_bind run_get_session case_prod_beta
        split: option.splits)
qed

lemma session_moves:
  "session_message type \<Longrightarrow>
   session_move e (session_of s) (tables_of s) (session_of (snd (run_state (route_message e type p) s)))
     (tables_of (snd (run_state (route_message e type p) s)))"
  by (auto simp: session_message_def route_defs hello_moves auth_moves register_moves ping_moves)

section \<open>The invariant of a session\<close>

definition key_proven :: "handler_env \<Rightarrow> session_state \<Rightarrow> bool" where
  "key_proven e S \<longleftrightarrow> (\<exists>signature. he_verify e (st_announced_pubkey S)
     (build_auth_signing_input (st_challenge_nonce S) (st_announced_pubkey S)) signature)"

definition session_ok :: "handler_env \<Rightarrow> tables \<Rightarrow> session_state \<Rightarrow> bool" where
  "session_ok e t S \<longleftrightarrow> (st_phase S = Authenticated \<longrightarrow> key_proven e S) \<and>
     (st_user_id S \<noteq> 0 \<longrightarrow> st_phase S = Authenticated \<and>
       (\<exists>u\<in>set (tb_users t). ur_id u = st_user_id S \<and> ur_pubkey u = st_announced_pubkey S))"

text \<open>Accounts are never removed, and keep their identifier and key.\<close>

definition users_persist :: "tables \<Rightarrow> tables \<Rightarrow> bool" where
  "users_persist t t' \<longleftrightarrow> (\<forall>u\<in>set (tb_users t). \<exists>u'\<in>set (tb_users t').
     ur_id u' = ur_id u \<and> ur_pubkey u' = ur_pubkey u)"

lemma users_persist_refl: "users_persist t t"
  by (auto simp: users_persist_def)

lemma users_persist_trans: "users_persist t t1 \<Longrightarrow> users_persist t1 t2 \<Longrightarrow> users_persist t t2"
  unfolding users_persist_def by fastforce

lemma session_ok_persist: "session_ok e t S \<Longrightarrow> users_persist t t' \<Longrightarrow> session_ok e t' S"
  unfolding session_ok_def users_persist_def by fastforce

lemma respects_persist: "respects_others uid pk t t' \<Longrightarrow> users_persist t t'"
  by (simp add: respects_others_def users_persist_refl users_persist_def) blast

lemma inserted_user:
  "insert_user pubkey handle t = Some (i, t1) \<Longrightarrow>
   tb_users t1 = tb_users t @ [\<lparr>ur_id = i, ur_pubkey = pubkey, ur_handle = handle, ur_banned = False\<rparr>]"
  by (auto simp: insert_user_def Let_def split: if_splits)

lemma upserted_users: "upsert_profile i q t = Some (v, t') \<Longrightarrow> tb_users t' = tb_users t"
  by (auto simp: upsert_profile_def split: if_splits)

lemma created_users:
  assumes "insert_user pubkey handle t = Some (i, t1)"
    and "t' = t1 \<or> upsert_profile i empty_profile t1 = Some ((), t')"
  shows "tb_users t' = tb_users t @ [\<lparr>ur_id = i, ur_pubkey = pubkey, ur_handle = handle, ur_banned = False\<rparr>]"
  using assms inserted_user upserted_users by (metis (no_types, lifting))

lemma move_keeps:
  assumes "session_move e S t S' t'" and "tables_ok t"
  shows "tables_ok t'"
  using assms
proof (induction rule: session_move.induct)
  case (created S handle t i t1 S' t')
  have "tables_ok t1" using insert_user.keeps [OF created(5) created(8) created(6)] .
  moreover have "tables_ok t'" if "upsert_profile i empty_profile t1 = Some ((), t')"
    by (rule upsert_profile.keeps [OF _ \<open>tables_ok t1\<close> that]) (simp add: empty_profile_def)
  ultimately show ?case using created(7) by blast
qed auto

lemma move_persists: "session_move e S t S' t' \<Longrightarrow> users_persist t t'"
proof (induction rule: session_move.induct)
  case (created S handle t i t1 S' t')
  have "t' = t1 \<or> upsert_profile i empty_profile t1 = Some ((), t')" using created(7) by blast
  from created_users [OF created(6) this] show ?case by (auto simp: users_persist_def)
qed (auto simp: users_persist_def)

lemma move_session_ok:
  assumes "session_move e S t S' t'" and "session_ok e t S"
  shows "session_ok e t' S'"
  using assms
proof (induction rule: session_move.induct)
  case (created S handle t i t1 S' t')
  have "t' = t1 \<or> upsert_profile i empty_profile t1 = Some ((), t')" using created(7) by blast
  from created_users [OF created(6) this]
  have new: "\<exists>u\<in>set (tb_users t'). ur_id u = i \<and> ur_pubkey u = st_announced_pubkey S" by simp
  have proven: "key_proven e S" using created(1,8) by (simp add: session_ok_def)
  from created(7) show ?case
  proof (elim disjE conjE bexE)
    assume "S' = S"
    then show ?thesis using proven created(1,2) by (simp add: session_ok_def)
  next
    fix u assume "S' = S\<lparr>st_phase := Authenticated, st_user_id := i, st_handle := ur_handle u\<rparr>"
    then show ?thesis using proven new by (simp add: session_ok_def key_proven_def)
  qed (use proven new in \<open>auto simp: session_ok_def key_proven_def\<close>)
qed (auto simp: session_ok_def key_proven_def)

section \<open>Every message keeps the invariants\<close>

text \<open>What the server maintains of a context: sound tables and a session that was proven.\<close>

definition context_ok :: "handler_env \<Rightarrow> handler_context \<Rightarrow> bool" where
  "context_ok e s \<longleftrightarrow> database_ok (hc_database s) \<and> session_ok e (tables_of s) (session_of s) \<and>
     socket_ok (cn_socket (hc_connection s))"

lemma session_saved_ok:
  assumes "session_message type" and "database_ok (hc_database s)"
  shows "database_ok (hc_database (snd (run_state (route_message e type p) s)))"
  using assms session_saved [OF assms(1), of e p s] move_keeps [OF session_moves [OF assms(1), of e s p]]
  by (simp add: database_ok_def)

lemma within_facts:
  assumes "\<not> session_message type" and "run_state (route_message e type p) s = (b, s')"
  shows "session_of s' = session_of s"
    and "own_changes (st_user_id (session_of s)) (st_announced_pubkey (session_of s)) (hc_database s) (hc_database s')"
    and "cn_input_buffer (hc_connection s') = cn_input_buffer (hc_connection s)"
    and "socket_ok (cn_socket (hc_connection s)) \<Longrightarrow> socket_ok (cn_socket (hc_connection s'))"
  using state_io_relD [OF within_route [OF assms(1), of "session_of s"] assms(2)] by (auto simp: within_def)

text \<open>The second use of the contract: what every message does to the buffers of its connection.\<close>

definition only_queues :: "handler_context \<Rightarrow> handler_context \<Rightarrow> bool" where
  "only_queues s s' \<longleftrightarrow> cn_input_buffer (hc_connection s') = cn_input_buffer (hc_connection s) \<and>
     (\<exists>w. sk_pending_output (cn_socket (hc_connection s')) =
        sk_pending_output (cn_socket (hc_connection s)) @ w) \<and>
     (socket_ok (cn_socket (hc_connection s)) \<longrightarrow> socket_ok (cn_socket (hc_connection s'))) \<and>
     sk_descriptor (cn_socket (hc_connection s')) = sk_descriptor (cn_socket (hc_connection s)) \<and>
     st_peer_address (session_of s') = st_peer_address (session_of s) \<and>
     is_established (cn_channel (hc_connection s')) = is_established (cn_channel (hc_connection s))"

interpretation queueing: action_contract only_queues
proof
  show "only_queues s s" for s by (simp add: only_queues_def)
  show "only_queues s s1 \<Longrightarrow> only_queues s1 s2 \<Longrightarrow> only_queues s s2" for s s1 s2
    unfolding only_queues_def by (metis append_assoc)
qed

lemma queueing_send: "state_io_rel only_queues (send_message e type write_to m)"
proof
  fix a s s' assume "run_state (send_message e type write_to m) s = (a, s')"
  then obtain c where c: "send_raw_message e type (encode_with write_to m) (hc_connection s) = (a, c)"
    "s' = s\<lparr>hc_connection := c\<rparr>"
    by (auto simp: send_message_def run_on_connection split: prod.splits)
  show "only_queues s s'"
    using send_raw_message_frame [OF c(1)] by (auto simp: only_queues_def c(2))
qed

lemma queueing_simple:
  "state_io_rel only_queues get_unix_timestamp" "state_io_rel only_queues fill_random_nonce"
  "state_io_rel only_queues (log_entry e level message)" "state_io_rel only_queues (on_database f)"
  "state_io_rel only_queues get_session"
  by (auto simp: state_io_rel_def get_unix_timestamp_def fill_random_nonce_def log_entry_def only_queues_def
      run_on_database get_session_def case_prod_beta split: list.splits)

lemma queueing_session:
  "(\<And>S. st_peer_address (f S) = st_peer_address S) \<Longrightarrow> state_io_rel only_queues (set_session f)"
  by (auto simp: state_io_rel_def run_set_session only_queues_def)

lemma queueing_status:
  "state_io_rel only_queues (send_status_ok e i)" "state_io_rel only_queues (send_status_error e code)"
  by (simp_all add: send_status_ok_def send_status_error_def queueing_send)

lemmas queueing_rules = queueing.flow queueing_send queueing_simple queueing_session queueing_status

lemma queueing_guarded:
  "(\<And>S q. state_io_rel only_queues (body S q)) \<Longrightarrow> state_io_rel only_queues (guarded e read_from payload body)"
  unfolding guarded_def require_registered_session_def by (intro queueing_rules)

lemma queueing_checkpoint: "state_io_rel only_queues (checkpoint_after_deletion e)"
  unfolding checkpoint_after_deletion_def by (intro queueing_rules)

lemma queueing_accepted: "state_io_rel only_queues (send_accepted_session e u)"
  unfolding send_accepted_session_def by (intro queueing_rules) simp

lemma queueing_session_handlers:
  "state_io_rel only_queues (handle_hello_request e p)" "state_io_rel only_queues (handle_auth_response e p)"
  "state_io_rel only_queues (handle_register_request e p)" "state_io_rel only_queues (handle_ping_request e p)"
  unfolding handle_hello_request_def handle_auth_response_def handle_register_request_def handle_ping_request_def
  by (intro queueing_rules queueing_accepted; simp)+

lemma queueing_friend_list: "state_io_rel only_queues (handle_friend_list_request e p)"
  unfolding handle_friend_list_request_def require_registered_session_def by (intro queueing_rules)

lemma queueing_business_handlers:
  "state_io_rel only_queues (handle_prekey_publish_request e p)" "state_io_rel only_queues (handle_prekey_fetch_request e p)"
  "state_io_rel only_queues (handle_forum_create_request e p)" "state_io_rel only_queues (handle_forum_list_request e p)"
  "state_io_rel only_queues (handle_post_create_request e p)" "state_io_rel only_queues (handle_post_list_request e p)"
  "state_io_rel only_queues (handle_thread_fetch_request e p)" "state_io_rel only_queues (handle_comment_create_request e p)"
  "state_io_rel only_queues (handle_post_delete_request e p)" "state_io_rel only_queues (handle_comment_delete_request e p)"
  "state_io_rel only_queues (handle_profile_get_request e p)" "state_io_rel only_queues (handle_profile_set_request e p)"
  "state_io_rel only_queues (handle_friend_add_request e p)" "state_io_rel only_queues (handle_top8_set_request e p)"
  "state_io_rel only_queues (handle_top8_get_request e p)" "state_io_rel only_queues (handle_dm_send_request e p)"
  "state_io_rel only_queues (handle_dm_fetch_request e p)" "state_io_rel only_queues (handle_dm_ack_request e p)"
  "state_io_rel only_queues (handle_report_post_request e p)" "state_io_rel only_queues (handle_report_account_request e p)"
  unfolding business_handler_defs by (intro queueing_guarded queueing_rules queueing_checkpoint)+

lemma queueing_route: "state_io_rel only_queues (route_message e type p)"
  by (cases type) (simp_all add: route_defs queueing_session_handlers queueing_business_handlers
      queueing_friend_list queueing_status)

end
