(* ===== verification/Request_Properties.thy ===== *)
theory Request_Properties
  imports Sessions
begin

text \<open>
  The properties of request handling: every message keeps the invariants of the server, a session
  acts on its own data only, and an account is entered only by proof of its key.
\<close>

section \<open>A concrete server for the witnesses\<close>

definition sample_env :: handler_env where
  "sample_env = \<lparr>he_sodium = toy_sodium, he_verify = (\<lambda>_ _ _. True), he_config = default_config,
     he_log_stamp = [], he_storage_error = []\<rparr>"

definition sample_connection :: "session_state \<Rightarrow> client_connection" where
  "sample_connection S = \<lparr>cn_socket = new_socket 5,
     cn_channel = \<lparr>nc_handshake = nc_handshake (new_channel toy_sodium [] []),
       nc_transport = Some (new_transport (replicate 32 1) (replicate 32 2))\<rparr>,
     cn_session = S, cn_input_buffer = []\<rparr>"

definition sample_user :: user_row where
  "sample_user = \<lparr>ur_id = 1, ur_pubkey = replicate 32 7, ur_handle = [], ur_banned = False\<rparr>"

definition sample_context :: "user_row list \<Rightarrow> session_state \<Rightarrow> handler_context" where
  "sample_context users S = \<lparr>hc_logger = \<lparr>lg_minimum = LL_info, lg_allow_peer_addresses = False, lg_sink = []\<rparr>,
     hc_database = \<lparr>db_tables = empty_tables\<lparr>tb_users := users, tb_user_seq := 1\<rparr>, db_saved = None,
       db_faults = []\<rparr>,
     hc_connection = sample_connection S, hc_clock = [], hc_random = []\<rparr>"

lemma sample_tables_ok: "tables_ok (empty_tables\<lparr>tb_users := [sample_user], tb_user_seq := 1\<rparr>)"
  by (simp add: tables_ok_def tables_ok_defs empty_tables_def ids_ok_def MAX_ROWID_def sample_user_def)

lemma sample_context_simps:
  "hc_database (sample_context users S) = \<lparr>db_tables = empty_tables\<lparr>tb_users := users, tb_user_seq := 1\<rparr>,
     db_saved = None, db_faults = []\<rparr>"
  "cn_session (hc_connection (sample_context users S)) = S"
  "cn_socket (hc_connection (sample_context users S)) = new_socket 5"
  by (simp_all add: sample_context_def sample_connection_def)

section \<open>Invariants\<close>

lemma route_context_ok:
  assumes "context_ok e s" and "run_state (route_message e type payload) s = (continues, s')"
  shows "context_ok e s'"
proof -
  have sock: "socket_ok (cn_socket (hc_connection s'))"
    using state_io_relD [OF queueing_route assms(2)] assms(1) by (simp add: only_queues_def context_ok_def)
  have ok: "database_ok (hc_database s)" "session_ok e (tables_of s) (session_of s)"
    using assms(1) by (simp_all add: context_ok_def)
  show ?thesis
  proof (cases "session_message type")
    case True
    then show ?thesis
      using session_saved_ok [OF True ok(1), of e payload] move_session_ok [OF session_moves [OF True] ok(2), of payload]
        assms(2) sock by (simp add: context_ok_def)
  next
    case False
    note w = within_facts [OF False assms(2)]
    have "users_persist (tables_of s) (tables_of s')"
      using respects_persist [OF own_changes_respects [OF w(2)]] .
    then show ?thesis
      using own_changes_keeps [OF w(2) ok(1)] session_ok_persist [OF ok(2)] w(1) sock
      by (simp add: context_ok_def)
  qed
qed

text \<open>
  C1. Every message, of any type and with any payload, on any session and with any failures of the
  storage engine, keeps the invariants: the tables stay sound, in the transaction in progress and
  outside of it; an authenticated session has a valid signature over its own challenge, and a
  registered one belongs to the account with the proven key; the output queue stays in its bound.
\<close>

theorem route_message_keeps_invariants:
  assumes "context_ok e s" and "run_state (route_message e type payload) s = (continues, s')"
  shows "context_ok e s'"
  by (rule route_context_ok [OF assms])

theorem route_message_keeps_invariants_witness:
  "context_ok sample_env (snd (run_state (route_message sample_env MT_auth_response
     (encode_with auth_response_write_to \<lparr>ar_signature = replicate 64 3\<rparr>))
     (sample_context [sample_user] (new_session\<lparr>st_phase := Awaiting_auth\<rparr>))))"
proof -
  let ?s = "sample_context [sample_user] (new_session\<lparr>st_phase := Awaiting_auth\<rparr>)"
  have "context_ok sample_env ?s"
    by (simp add: context_ok_def database_ok_def sample_tables_ok session_ok_def socket_ok_def
        sample_context_simps new_session_def new_socket_def)
  then show ?thesis
    by (rule route_message_keeps_invariants [OF _ prod.collapse [symmetric]])
qed

section \<open>The gate\<close>

text \<open>
  C4. The gate. Whatever the payload, a message that needs an account, sent on a session that is
  not registered, has one effect: the reply \<^verbatim>\<open>not_authenticated\<close> is sealed and queued. The
  connection stays open, the database and the session are untouched.
\<close>

theorem unregistered_gets_nothing:
  assumes "business_message type" and "\<not> registered (cn_session (hc_connection s))"
  shows "\<exists>c'. run_state (route_message e type payload) s = (True, s\<lparr>hc_connection := c'\<rparr>) \<and>
    snd (send_raw_message e MT_status_error (encode_with status_error_response_write_to
      \<lparr>se_code = EC_not_authenticated, se_detail = describe_error_code EC_not_authenticated\<rparr>)
      (hc_connection s)) = c' \<and>
    cn_session c' = cn_session (hc_connection s)"
proof -
  obtain b c' where c: "send_raw_message e MT_status_error (encode_with status_error_response_write_to
      \<lparr>se_code = EC_not_authenticated, se_detail = describe_error_code EC_not_authenticated\<rparr>)
      (hc_connection s) = (b, c')" by fastforce
  then show ?thesis
    using route_refused [OF assms] send_raw_message_frame(1) [OF c]
    by (simp add: send_status_error_def send_message_def run_on_connection)
qed

theorem unregistered_gets_nothing_witness:
  "\<exists>c'. run_state (route_message sample_env MT_friend_list_request []) (sample_context [] new_session) =
     (True, (sample_context [] new_session)\<lparr>hc_connection := c'\<rparr>) \<and> cn_session c' = new_session"
  using unregistered_gets_nothing [of MT_friend_list_request "sample_context [] new_session" sample_env "[]"]
  by (auto simp: business_message_def registered_def sample_context_simps new_session_def)

section \<open>Own data only\<close>

text \<open>
  C3. A session acts on its own data only. A message that is not one of the four session messages
  leaves the users, the announcements and every row of another account as they were: prekeys,
  forums, posts, comments, profiles, friendships, top 8 and reports; other mailboxes only grow, by
  messages whose sender field is the key this session has proven, so a sender cannot be forged and
  nobody can delete what is not theirs. The session itself stays as it was.
\<close>

theorem requests_touch_own_data_only:
  assumes "\<not> session_message type" and "run_state (route_message e type payload) s = (continues, s')"
  shows "respects_others (st_user_id (session_of s)) (st_announced_pubkey (session_of s)) (tables_of s) (tables_of s') \<and>
    session_of s' = session_of s"
  using own_changes_respects [OF within_facts(2) [OF assms]] within_facts(1) [OF assms] by blast

theorem requests_touch_own_data_only_witness:
  "respects_others 1 (replicate 32 7) (tables_of (sample_context [sample_user]
       (new_session\<lparr>st_phase := Authenticated, st_user_id := 1, st_announced_pubkey := replicate 32 7\<rparr>)))
     (tables_of (snd (run_state (route_message sample_env MT_dm_send_request (encode_with dm_send_request_write_to
       \<lparr>ds_recipient_pubkey = replicate 32 7, ds_ciphertext = [1, 2, 3]\<rparr>)) (sample_context [sample_user]
       (new_session\<lparr>st_phase := Authenticated, st_user_id := 1, st_announced_pubkey := replicate 32 7\<rparr>)))))"
  (is "respects_others 1 _ (tables_of ?s) (tables_of (snd (run_state ?m ?s)))")
  using requests_touch_own_data_only [OF _ prod.collapse [symmetric], where s = ?s and e = sample_env
    and type = MT_dm_send_request and payload = "encode_with dm_send_request_write_to
      \<lparr>ds_recipient_pubkey = replicate 32 7, ds_ciphertext = [1, 2, 3]\<rparr>"]
  by (simp add: session_message_def sample_context_simps)

section \<open>Entering an account\<close>

lemma move_entry:
  assumes "session_move e S t S' t'" and "tables_ok t" and "session_ok e t S"
    and "\<not> registered S" and "registered S'"
  shows "\<exists>u\<in>set (tb_users t'). ur_id u = st_user_id S' \<and> ur_pubkey u = st_announced_pubkey S' \<and> \<not> ur_banned u"
    and "st_announced_pubkey S' = st_announced_pubkey S \<and> st_challenge_nonce S' = st_challenge_nonce S"
proof -
  have "(\<exists>u\<in>set (tb_users t'). ur_id u = st_user_id S' \<and> ur_pubkey u = st_announced_pubkey S' \<and> \<not> ur_banned u) \<and>
    st_announced_pubkey S' = st_announced_pubkey S \<and> st_challenge_nonce S' = st_challenge_nonce S"
    using assms
  proof (induction rule: session_move.induct)
    case (created S handle t i t1 S' t')
    have "t' = t1 \<or> upsert_profile i empty_profile t1 = Some ((), t')" using created(7) by blast
    note users = created_users [OF created(6) this]
    have "S' \<noteq> S" using created(10,11) by auto
    then obtain u :: user_row where "S' = S\<lparr>st_phase := Authenticated, st_user_id := i, st_handle := ur_handle u\<rparr>"
      using created(7) by blast
    then show ?case using users by simp
  qed (auto simp: registered_def)
  then show "\<exists>u\<in>set (tb_users t'). ur_id u = st_user_id S' \<and> ur_pubkey u = st_announced_pubkey S' \<and> \<not> ur_banned u"
    "st_announced_pubkey S' = st_announced_pubkey S \<and> st_challenge_nonce S' = st_challenge_nonce S"
    by blast+
qed

text \<open>
  C2. Authentication. When a message makes a session that was not registered a registered one, the
  session's key has been proven: there is a signature, valid under the announced key, over the
  challenge this server drew for this session; the session is entered as the account of that very
  key, and that account is not banned. Neither the key nor the challenge changes on the way.
\<close>

theorem registration_needs_proof:
  assumes "context_ok e s" and "run_state (route_message e type payload) s = (continues, s')"
    and "\<not> registered (session_of s)" and "registered (session_of s')"
  shows "key_proven e (session_of s') \<and>
    (\<exists>u\<in>set (tb_users (tables_of s')). ur_id u = st_user_id (session_of s') \<and>
       ur_pubkey u = st_announced_pubkey (session_of s') \<and> \<not> ur_banned u) \<and>
    st_announced_pubkey (session_of s') = st_announced_pubkey (session_of s) \<and>
    st_challenge_nonce (session_of s') = st_challenge_nonce (session_of s)"
proof -
  have type: "session_message type"
    using within_facts(1) [OF _ assms(2)] assms(3,4) by metis
  note m = session_moves [OF type, of e s payload, unfolded assms(2) snd_conv]
  have ok: "tables_ok (tables_of s)" "session_ok e (tables_of s) (session_of s)"
    using assms(1) by (auto simp: context_ok_def database_ok_def)
  have "key_proven e (session_of s')"
    using move_session_ok [OF m ok(2)] assms(4) by (simp add: session_ok_def registered_def)
  then show ?thesis using move_entry [OF m ok assms(3,4)] by blast
qed

lemma sample_auth_registers:
  "registered (session_of (snd (run_state (route_message sample_env MT_auth_response
     (encode_with auth_response_write_to \<lparr>ar_signature = replicate 64 3\<rparr>))
     (sample_context [sample_user] (new_session\<lparr>st_phase := Awaiting_auth,
        st_announced_pubkey := replicate 32 7\<rparr>)))))"
  by (simp add: route_defs handle_auth_response_def run_bind run_get_session sample_context_simps
      auth_response.request_roundtrip auth_response_valid_def sample_env_def case_prod_beta
      find_user_by_pubkey_def step_read_def pop_fault_def user_by_pubkey_def sample_user_def
      read_user_row_def key_column_ok_def registered_def)

theorem registration_needs_proof_witness:
  "key_proven sample_env (session_of (snd (run_state (route_message sample_env MT_auth_response
     (encode_with auth_response_write_to \<lparr>ar_signature = replicate 64 3\<rparr>))
     (sample_context [sample_user] (new_session\<lparr>st_phase := Awaiting_auth,
        st_announced_pubkey := replicate 32 7\<rparr>)))))"
proof -
  let ?s = "sample_context [sample_user] (new_session\<lparr>st_phase := Awaiting_auth,
        st_announced_pubkey := replicate 32 7\<rparr>)"
  have "context_ok sample_env ?s"
    by (simp add: context_ok_def database_ok_def sample_tables_ok session_ok_def socket_ok_def
        sample_context_simps new_session_def new_socket_def)
  moreover have "\<not> registered (session_of ?s)" by (simp add: registered_def sample_context_simps)
  ultimately show ?thesis
    using registration_needs_proof [OF _ prod.collapse [symmetric] _ sample_auth_registers] by blast
qed

section \<open>Sending and deleting\<close>

lemma create_no_faults:
  assumes "no_faults d" and "effect (db_tables d) = Some (v, t')"
  shows "fst (step_write effect d) = Some v" and "db_tables (snd (step_write effect d)) = t'"
  using pop_no_faults [OF assms(1)] assms(2) pop_fault_facts(1) by (auto simp: step_write_def)

lemma no_faults_read: "no_faults d \<Longrightarrow> no_faults (snd (step_read q d))"
  using pop_no_faults [of d] by (auto simp: step_read_def)

text \<open>
  C34. Sending a private message delivers it: on a registered session and a storage engine that does
  not fail, a well-formed message to an existing account appends exactly one envelope to that
  account's mailbox, with the ciphertext as sent and the sender's proven key, under an identifier
  larger than every earlier one; a later fetch will list it last.
\<close>

theorem dm_send_delivers:
  assumes "registered (session_of s)" and "context_ok e s" and "no_faults (hc_database s)"
    and "dm_send_request_valid q" and "ds_ciphertext q \<noteq> []"
    and "u \<in> set (tb_users (tables_of s))" and "ur_pubkey u = ds_recipient_pubkey q"
    and "tb_envelope_seq (tables_of s) < MAX_ROWID" and "length (st_announced_pubkey (session_of s)) = PUBLIC_KEY_SIZE"
    and "run_state (route_message e MT_dm_send_request (encode_with dm_send_request_write_to q)) s = (continues, s')"
  shows "pending_after (tables_of s') (ur_id u) 0 = pending_after (tables_of s) (ur_id u) 0 @
    [\<lparr>en_id = tb_envelope_seq (tables_of s) + 1, en_recipient_id = ur_id u,
      en_sender_pubkey = st_announced_pubkey (session_of s), en_ciphertext = ds_ciphertext q\<rparr>]"
proof -
  let ?d = "hc_database s"
  have ok: "tables_ok (db_tables ?d)" using assms(2) by (simp add: context_ok_def database_ok_def)
  then have "distinct (map ur_pubkey (tb_users (db_tables ?d)))" "key_column_ok (ur_pubkey u)"
    using assms(6) by (auto simp: tables_ok_def users_ok_def key_column_ok_def)
  then have "user_by_pubkey (db_tables ?d) (ds_recipient_pubkey q) = Some u"
    using assms(6,7) unfolding user_by_pubkey_def find_Some_iff
    by (auto simp: in_set_conv_nth distinct_conv_nth) (metis order_less_imp_not_eq2 order_less_trans)
  then have find: "fst (find_user_by_pubkey (ds_recipient_pubkey q) ?d) = Some u"
    using pop_no_faults [OF assms(3)] pop_fault_facts(1) \<open>key_column_ok (ur_pubkey u)\<close>
    by (auto simp: find_user_by_pubkey_def step_read_def read_user_row_def)
  let ?d1 = "snd (find_user_by_pubkey (ds_recipient_pubkey q) ?d)"
  have d1: "no_faults ?d1" using no_faults_read [OF assms(3)] by (simp add: find_user_by_pubkey_def)
  have seq: "0 \<le> tb_envelope_seq (db_tables ?d)"
    using ok by (simp add: tables_ok_def envelopes_ok_def ids_ok_def)
  have "has_user (db_tables ?d) (ur_id u)" using assms(6) by (simp add: has_user_def)
  then have ins: "insert_envelope_row (ur_id u) (st_announced_pubkey (session_of s)) (ds_ciphertext q) (db_tables ?d1) =
    Some (tb_envelope_seq (db_tables ?d) + 1, (db_tables ?d)\<lparr>tb_envelopes := tb_envelopes (db_tables ?d) @
      [\<lparr>en_id = tb_envelope_seq (db_tables ?d) + 1, en_recipient_id = ur_id u,
        en_sender_pubkey = st_announced_pubkey (session_of s), en_ciphertext = ds_ciphertext q\<rparr>],
      tb_envelope_seq := tb_envelope_seq (db_tables ?d) + 1\<rparr>)"
    using assms(8,9) user_by_id_None [of "db_tables ?d" "ur_id u"] by (simp add: insert_envelope_row_def Let_def)
  note w = create_no_faults [where effect = "insert_envelope_row (ur_id u) (st_announced_pubkey (session_of s))
    (ds_ciphertext q)", OF d1 ins]
  have s': "s' = snd (run_state (route_message e MT_dm_send_request (encode_with dm_send_request_write_to q)) s)"
    using assms(10) by simp
  have "tables_of s' = db_tables (snd (insert_envelope (ur_id u) (st_announced_pubkey (session_of s)) (ds_ciphertext q) ?d1))"
    using w(1) assms(1,5) find dm_send_request.request_roundtrip [OF assms(4)] unfolding s'
    by (simp add: route_defs handle_dm_send_request_def guarded_def require_registered_session_def run_bind
        run_get_session case_prod_beta insert_envelope_def)
  then show ?thesis
    using w(2) seq by (simp add: insert_envelope_def pending_after_def to_i64_def)
qed

theorem dm_send_delivers_witness:
  "pending_after (tables_of (snd (run_state (route_message sample_env MT_dm_send_request
       (encode_with dm_send_request_write_to \<lparr>ds_recipient_pubkey = replicate 32 7, ds_ciphertext = [1, 2, 3]\<rparr>))
       (sample_context [sample_user] (new_session\<lparr>st_phase := Authenticated, st_user_id := 1,
         st_announced_pubkey := replicate 32 7\<rparr>))))) 1 0 =
     [\<lparr>en_id = 1, en_recipient_id = 1, en_sender_pubkey = replicate 32 7, en_ciphertext = [1, 2, 3]\<rparr>]"
  (is "pending_after (tables_of (snd (run_state (route_message _ _ (encode_with _ ?q)) ?s))) 1 0 = _")
proof -
  have ok: "context_ok sample_env ?s"
    using sample_tables_ok
    by (simp add: context_ok_def database_ok_def session_ok_def socket_ok_def key_proven_def
        sample_context_simps new_socket_def sample_env_def sample_user_def)
  have u: "sample_user \<in> set (tb_users (tables_of ?s))" "ur_pubkey sample_user = ds_recipient_pubkey ?q"
    by (simp_all add: sample_context_simps sample_user_def)
  have "registered (session_of ?s)" "no_faults (hc_database ?s)" "dm_send_request_valid ?q" "ds_ciphertext ?q \<noteq> []"
    "tb_envelope_seq (tables_of ?s) < MAX_ROWID" "length (st_announced_pubkey (session_of ?s)) = PUBLIC_KEY_SIZE"
    by (simp_all add: registered_def sample_context_simps no_faults_def dm_send_request_valid_def
        empty_tables_def MAX_ROWID_def)
  from dm_send_delivers [OF this(1) ok this(2,3,4) u this(5,6) prod.collapse [symmetric]] show ?thesis
    by (simp add: sample_context_simps pending_after_def empty_tables_def sample_user_def)
qed

section \<open>Deletion\<close>

text \<open>
  Deleting a post. When \<^verbatim>\<open>delete_own_post\<close> reports success, the post existed, was the
  caller's and not deleted before; its title and body are gone from the table, the mark is set, and
  no other row changed. When it reports failure nothing changed, and unless the storage engine
  failed there was no such post of the caller to delete.
\<close>

theorem delete_own_post_correct:
  assumes "tables_ok (db_tables d)"
  shows "case delete_own_post post_id author_id now d of
      (True, d') \<Rightarrow> (\<exists>before p after. tb_posts (db_tables d) = before @ p # after \<and> po_id p = post_id \<and>
        po_author_id p = author_id \<and> po_deleted_at p = None \<and>
        db_tables d' = (db_tables d)\<lparr>tb_posts :=
          before @ p\<lparr>po_title := [], po_body := [], po_deleted_at := Some (to_i64 now)\<rparr> # after\<rparr>)
    | (False, d') \<Rightarrow> db_tables d' = db_tables d \<and> (True \<in> set (db_faults d) \<or>
        \<not> list_ex (\<lambda>p. po_id p = post_id \<and> po_author_id p = author_id \<and> po_deleted_at p = None) (tb_posts (db_tables d)))"
proof -
  let ?c = "\<lambda>p. po_id p = post_id \<and> po_author_id p = author_id \<and> po_deleted_at p = None"
  let ?f = "\<lambda>p. if ?c p then p\<lparr>po_title := [], po_body := [], po_deleted_at := Some (to_i64 now)\<rparr> else p"
  let ?ps = "tb_posts (db_tables d)"
  have dist: "distinct (map po_id ?ps)"
    using assms by (simp add: tables_ok_def posts_ok_def ids_ok_def strict_sorted_iff)
  obtain r d' where p: "step_write (blank_posts ?c (to_i64 now)) d = (r, d')" by fastforce
  note w = step_write_cases [OF p]
  have none: "length (filter ?c ?ps) = 0 \<longleftrightarrow> \<not> list_ex ?c ?ps" by (auto simp: filter_empty_conv list_ex_iff)
  show ?thesis
  proof (cases r)
    case None
    then show ?thesis using w(4) by (auto simp: delete_own_post_def p blank_posts_def)
  next
    case (Some n)
    from w(3) [OF this] have n: "n = length (filter ?c ?ps)"
      and t': "db_tables d' = (db_tables d)\<lparr>tb_posts := map ?f ?ps\<rparr>"
      by (simp_all add: blank_posts_def)
    show ?thesis
    proof (cases "list_ex ?c ?ps")
      case False
      then have "map ?f ?ps = ?ps" by (intro map_idI) (auto simp: list_ex_iff)
      then show ?thesis using Some n t' False none by (simp add: delete_own_post_def p)
    next
      case True
      then obtain x where x: "x \<in> set ?ps" "?c x" by (auto simp: list_ex_iff)
      then obtain b a where ps: "?ps = b @ x # a" by (meson split_list)
      have other: "y \<in> set b \<union> set a \<Longrightarrow> \<not> ?c y" for y
        using dist x(2) unfolding ps by (auto simp: image_iff)
      have "map ?f b = b" "map ?f a = a" by (intro map_idI if_not_P other UnI1 UnI2; assumption)+
      then have "map ?f ?ps = b @ ?f x # a" by (simp add: ps)
      moreover have "n > 0" using n True none by simp
      ultimately show ?thesis
        using Some t' x(2) ps by (auto simp: delete_own_post_def p)
    qed
  qed
qed

definition sample_post :: post_row where
  "sample_post = \<lparr>po_id = 1, po_forum_id = 1, po_author_id = 1, po_title = [72], po_body = [73],
     po_created_at = 2, po_deleted_at = None\<rparr>"

definition sample_post_tables :: tables where
  "sample_post_tables = empty_tables\<lparr>tb_users := [sample_user], tb_user_seq := 1, tb_forums :=
     [\<lparr>fo_id = 1, fo_name = [], fo_founder_id = 1, fo_description = [], fo_theme_json = [], fo_created_at = 1\<rparr>],
     tb_forum_seq := 1, tb_posts := [sample_post], tb_post_seq := 1\<rparr>"

lemma sample_post_tables_ok: "tables_ok sample_post_tables"
proof -
  have "text_ok m [72]" "text_ok m [73]" if "m > 0" for m
    using that by (simp_all add: text_ok_def validate_text_field_def validate_from.simps is_allowed_ascii_def
        measure_utf8_sequence_def)
  then show ?thesis
    by (simp add: tables_ok_def tables_ok_defs sample_post_tables_def empty_tables_def ids_ok_def MAX_ROWID_def
        sample_user_def sample_post_def has_user_def)
qed

theorem delete_own_post_correct_witness:
  "case delete_own_post 1 1 9 \<lparr>db_tables = sample_post_tables, db_saved = None, db_faults = []\<rparr> of
     (True, d') \<Rightarrow> map po_title (tb_posts (db_tables d')) = [[]] | (False, d') \<Rightarrow> False"
proof -
  let ?d = "\<lparr>db_tables = sample_post_tables, db_saved = None, db_faults = []\<rparr>"
  have "tb_posts sample_post_tables = [sample_post]" by (simp add: sample_post_tables_def)
  moreover have "tables_ok (db_tables ?d)" using sample_post_tables_ok by simp
  ultimately show ?thesis
    using delete_own_post_correct [of ?d 1 1 9]
    by (auto simp: sample_post_def Cons_eq_append_conv split: prod.splits bool.splits)
qed

end
