(* ===== verification/Processor.thy ===== *)
theory Processor
  imports Request_Properties
begin

text \<open>
  The input of one connection (\<^verbatim>\<open>connection_processor.cpp\<close>): the handshake, the frames, the request
  limits, and the loop that takes one message after the other from the buffer. The loop terminates
  because every round removes a message and no handler puts bytes back.
\<close>

definition MAX_NOISE_MESSAGE_SIZE :: nat where
  "MAX_NOISE_MESSAGE_SIZE = MAX_FRAME_SIZE + AEAD_TAG_SIZE"

text \<open>\<open>generated\<close> is the key pair the generator returns for this handshake.\<close>

definition advance_handshake ::
  "handler_env \<Rightarrow> (bytes \<times> bytes) option \<Rightarrow> bytes \<Rightarrow> client_connection \<Rightarrow> bool \<times> client_connection" where
  "advance_handshake e generated message c =
     (case accept_handshake_message (he_sodium e) generated message (cn_channel c) of
        (None, channel) \<Rightarrow> (False, c\<lparr>cn_channel := channel\<rparr>)
      | (Some reply, channel) \<Rightarrow>
          let (queued, socket) = queue_bytes (append_length_prefixed_message reply []) (cn_socket c);
              c1 = c\<lparr>cn_channel := channel, cn_socket := socket\<rparr>
          in if \<not> queued then (False, c1)
             else (True, c1\<lparr>cn_session := (cn_session c1)\<lparr>st_phase := Awaiting_hello\<rparr>\<rparr>))"

text \<open>The two limits; the second is not consulted when the first refuses.\<close>

definition allow_request :: "rate_policy \<Rightarrow> session_state \<Rightarrow> u64 \<Rightarrow> bool \<times> rate_policy" where
  "allow_request policy session now =
     (let (address_allowed, p1) = allow_address_request policy (st_peer_address session) now
      in if \<not> address_allowed then (False, p1)
         else allow_identity_request p1 (st_user_id session) now)"

definition dispatch_application_frame ::
  "handler_env \<Rightarrow> bytes \<Rightarrow> rate_policy \<Rightarrow> handler_context \<Rightarrow> bool \<times> rate_policy \<times> handler_context" where
  "dispatch_application_frame e frame policy s =
     (case decode_frame_header frame of
        None \<Rightarrow> (False, policy, s)
      | Some header \<Rightarrow>
          if length frame \<noteq> FRAME_LENGTH_FIELD_SIZE + unat (fh_body_size header) then (False, policy, s)
          else let (now, s1) = run_state get_unix_timestamp s;
                   (allowed, p1) = allow_request policy (session_of s1) now
               in if \<not> allowed
                  then let (b, s2) = run_state (send_status_error e EC_rate_limited) s1 in (b, p1, s2)
                  else let (_, s2) = run_state (set_session (\<lambda>session. session\<lparr>st_last_activity_at := now\<rparr>)) s1;
                           (b, s3) = run_state (route_message e (fh_type header) (drop FRAME_HEADER_SIZE frame)) s2
                       in (b, p1, s3))"

definition with_buffer :: "bytes \<Rightarrow> handler_context \<Rightarrow> handler_context" where
  "with_buffer b s = s\<lparr>hc_connection := (hc_connection s)\<lparr>cn_input_buffer := b\<rparr>\<rparr>"

definition with_channel :: "noise_channel \<Rightarrow> handler_context \<Rightarrow> handler_context" where
  "with_channel ch s = s\<lparr>hc_connection := (hc_connection s)\<lparr>cn_channel := ch\<rparr>\<rparr>"

section \<open>What one message does to the connection\<close>

abbreviation input_of :: "handler_context \<Rightarrow> bytes" where
  "input_of s \<equiv> cn_input_buffer (hc_connection s)"

lemma advance_handshake_frame:
  assumes "advance_handshake e generated message c = (b, c')"
  shows "cn_input_buffer c' = cn_input_buffer c"
    and "socket_ok (cn_socket c) \<Longrightarrow> socket_ok (cn_socket c')"
    and "sk_descriptor (cn_socket c') = sk_descriptor (cn_socket c)"
    and "cn_session c' = (if b then (cn_session c)\<lparr>st_phase := Awaiting_hello\<rparr> else cn_session c)"
    and "b \<Longrightarrow> is_established (cn_channel c')"
  using assms
  by (auto simp: advance_handshake_def queue_bytes_def socket_ok_def accept_handshake_message_def is_established_def
      Let_def split: option.splits prod.splits if_splits)

lemma dispatch_queues:
  assumes "dispatch_application_frame e frame policy s = (b, p', s')"
  shows "only_queues s s'"
proof -
  obtain now s1 where t: "run_state get_unix_timestamp s = (now, s1)" by fastforce
  define s2 where "s2 = snd (run_state (set_session (\<lambda>S. S\<lparr>st_last_activity_at := now\<rparr>)) s1)"
  have u: "run_state (set_session (\<lambda>S. S\<lparr>st_last_activity_at := now\<rparr>)) s1 = ((), s2)"
    by (simp add: s2_def run_set_session)
  have s1: "only_queues s s1" using state_io_relD [OF queueing_simple(1) t] .
  have s2: "only_queues s s2"
    using queueing.R_trans [OF s1 state_io_relD [OF queueing_session u]] by simp
  have "s' = s \<or> s' = snd (run_state (send_status_error e EC_rate_limited) s1) \<or>
      (\<exists>type p. s' = snd (run_state (route_message e type p) s2))"
    using assms by (auto simp: dispatch_application_frame_def t u Let_def split: option.splits if_splits prod.splits)
      (metis snd_conv)
  moreover have "only_queues s1 (snd (run_state (send_status_error e code) s1))"
    "only_queues s2 (snd (run_state (route_message e type p) s2))" for code type p
    using queueing_status(2) queueing_route by (simp_all add: state_io_rel_def)
  ultimately show ?thesis
    using queueing.R_trans [OF s1] queueing.R_trans [OF s2] queueing.R_refl by blast
qed

lemma handshake_shrinks:
  assumes "(Some message, malformed, rest) = extract_length_prefixed_message (input_of s) m"
    and "(b, c) = advance_handshake e generated message (hc_connection (with_buffer rest s))"
  shows "length (cn_input_buffer c) < length (input_of s)"
  using extract_shrinks [OF assms(1) [symmetric]] advance_handshake_frame(1) [OF assms(2) [symmetric]]
  by (simp add: with_buffer_def)

lemma dispatch_shrinks:
  assumes "(Some message, malformed, rest) = extract_length_prefixed_message (input_of s) m"
    and "(b, p, s2) = dispatch_application_frame e frame policy (with_channel channel (with_buffer rest s))"
  shows "length (input_of s2) < length (input_of s)"
  using extract_shrinks [OF assms(1) [symmetric]] dispatch_queues [OF assms(2) [symmetric]]
  by (simp add: with_buffer_def with_channel_def only_queues_def)

section \<open>The loop\<close>

function process_messages ::
  "handler_env \<Rightarrow> (bytes \<times> bytes) option \<Rightarrow> rate_policy \<Rightarrow> handler_context \<Rightarrow> bool \<times> rate_policy \<times> handler_context" where
  "process_messages e generated policy s =
     (case extract_length_prefixed_message (input_of s) MAX_NOISE_MESSAGE_SIZE of
        (None, malformed, rest) \<Rightarrow> (\<not> malformed, policy, with_buffer rest s)
      | (Some message, malformed, rest) \<Rightarrow>
          let s1 = with_buffer rest s
          in if \<not> is_established (cn_channel (hc_connection s1))
             then (case advance_handshake e generated message (hc_connection s1) of
                     (False, c) \<Rightarrow> (False, policy, s1\<lparr>hc_connection := c\<rparr>)
                   | (True, c) \<Rightarrow> process_messages e generated policy (s1\<lparr>hc_connection := c\<rparr>))
             else (case open_message (he_sodium e) message (cn_channel (hc_connection s1)) of
                     (None, channel) \<Rightarrow> (False, policy, with_channel channel s1)
                   | (Some frame, channel) \<Rightarrow>
                       (case dispatch_application_frame e frame policy (with_channel channel s1) of
                          (False, p, s2) \<Rightarrow> (False, p, s2)
                        | (True, p, s2) \<Rightarrow> process_messages e generated p s2)))"
  by pat_completeness auto
termination
proof (relation "measure (\<lambda>(e, generated, policy, s). length (input_of s))", goal_cases)
  case 1
  show ?case by simp
next
  case prems: 2
  then show ?case by (auto intro: handshake_shrinks)
next
  case prems: 3
  then show ?case by (auto intro: dispatch_shrinks)
qed

declare process_messages.simps [simp del]

text \<open>One call: what has arrived, then the loop. \<open>None\<close>: the kernel's answers do not reach that far.\<close>

definition process_connection_input ::
  "handler_env \<Rightarrow> (bytes \<times> bytes) option \<Rightarrow> recv_result list \<Rightarrow> rate_policy \<Rightarrow> handler_context \<Rightarrow>
    (bool \<times> rate_policy \<times> handler_context) option" where
  "process_connection_input e generated recvs policy s =
     (case read_available recvs (input_of s) of
        None \<Rightarrow> None
      | Some (False, buffer) \<Rightarrow> Some (False, policy, with_buffer buffer s)
      | Some (True, buffer) \<Rightarrow> Some (process_messages e generated policy (with_buffer buffer s)))"

section \<open>Handlers do not look at the input buffer\<close>

definition ignores_input :: "'a action \<Rightarrow> bool" where
  "ignores_input m \<longleftrightarrow> (\<forall>s b. run_state m (with_buffer b s) = apsnd (with_buffer b) (run_state m s))"

lemma ignores_input_flow:
  "ignores_input (State_Monad.return a)"
  "ignores_input m \<Longrightarrow> (\<And>a. ignores_input (f a)) \<Longrightarrow> ignores_input (State_Monad.bind m f)"
  "ignores_input m1 \<Longrightarrow> ignores_input m2 \<Longrightarrow> ignores_input (if c then m1 else m2)"
  "ignores_input m1 \<Longrightarrow> (\<And>x. ignores_input (g x)) \<Longrightarrow> ignores_input (case v of None \<Rightarrow> m1 | Some x \<Rightarrow> g x)"
  "(\<And>x y. ignores_input (h x y)) \<Longrightarrow> ignores_input (case p of (x, y) \<Rightarrow> h x y)"
  by (auto simp: ignores_input_def run_bind case_prod_beta split: option.splits prod.splits)

lemma ignores_input_simple:
  "ignores_input get_session" "ignores_input (set_session f)" "ignores_input (on_database g)"
  "ignores_input get_unix_timestamp" "ignores_input fill_random_nonce" "ignores_input (log_entry e level message)"
  by (auto simp: ignores_input_def with_buffer_def run_get_session run_set_session run_on_database
      get_unix_timestamp_def fill_random_nonce_def log_entry_def case_prod_beta split: list.splits)

lemma ignores_input_send: "ignores_input (send_message e type write_to m)"
  by (auto simp: ignores_input_def with_buffer_def send_message_def run_on_connection send_raw_message_def
      case_prod_beta split: option.splits prod.splits)

lemma ignores_input_status: "ignores_input (send_status_ok e i)" "ignores_input (send_status_error e code)"
  by (simp_all add: send_status_ok_def send_status_error_def ignores_input_send)

lemmas ignores_input_rules = ignores_input_flow ignores_input_simple ignores_input_send ignores_input_status

lemma ignores_input_guarded:
  "(\<And>S q. ignores_input (body S q)) \<Longrightarrow> ignores_input (guarded e read_from payload body)"
  unfolding guarded_def require_registered_session_def by (intro ignores_input_rules)

lemma ignores_input_steps: "ignores_input (checkpoint_after_deletion e)" "ignores_input (send_accepted_session e u)"
  unfolding checkpoint_after_deletion_def send_accepted_session_def by (intro ignores_input_rules)+

lemmas ignores_input_parts = ignores_input_guarded ignores_input_steps

lemma ignores_input_handlers:
  "ignores_input (handle_hello_request e p)" "ignores_input (handle_auth_response e p)"
  "ignores_input (handle_register_request e p)" "ignores_input (handle_ping_request e p)"
  "ignores_input (handle_friend_list_request e p)"
  unfolding handle_hello_request_def handle_auth_response_def handle_register_request_def handle_ping_request_def
    handle_friend_list_request_def require_registered_session_def
  by (intro ignores_input_rules ignores_input_parts)+

lemma ignores_input_business:
  "ignores_input (handle_prekey_publish_request e p)" "ignores_input (handle_prekey_fetch_request e p)"
  "ignores_input (handle_forum_create_request e p)" "ignores_input (handle_forum_list_request e p)"
  "ignores_input (handle_post_create_request e p)" "ignores_input (handle_post_list_request e p)"
  "ignores_input (handle_thread_fetch_request e p)" "ignores_input (handle_comment_create_request e p)"
  "ignores_input (handle_post_delete_request e p)" "ignores_input (handle_comment_delete_request e p)"
  "ignores_input (handle_profile_get_request e p)" "ignores_input (handle_profile_set_request e p)"
  "ignores_input (handle_friend_add_request e p)" "ignores_input (handle_top8_set_request e p)"
  "ignores_input (handle_top8_get_request e p)" "ignores_input (handle_dm_send_request e p)"
  "ignores_input (handle_dm_fetch_request e p)" "ignores_input (handle_dm_ack_request e p)"
  "ignores_input (handle_report_post_request e p)" "ignores_input (handle_report_account_request e p)"
  unfolding business_handler_defs by (intro ignores_input_parts ignores_input_rules)+

lemma ignores_input_route: "ignores_input (route_message e type p)"
  by (cases type)
    (simp_all add: route_defs ignores_input_handlers ignores_input_business ignores_input_status)

lemma with_buffer_simps [simp]:
  "session_of (with_buffer b s) = session_of s" "input_of (with_buffer b s) = b"
  "with_buffer b (with_buffer b' s) = with_buffer b s" "with_buffer (input_of s) s = s"
  "cn_channel (hc_connection (with_buffer b s)) = cn_channel (hc_connection s)"
  "with_channel ch (with_buffer b s) = with_buffer b (with_channel ch s)"
  by (simp_all add: with_buffer_def with_channel_def)

lemma dispatch_with_buffer:
  "dispatch_application_frame e frame policy (with_buffer b s) =
     apsnd (apsnd (with_buffer b)) (dispatch_application_frame e frame policy s)"
  using ignores_input_simple(2,4) ignores_input_status(2) ignores_input_route
  by (auto simp: dispatch_application_frame_def ignores_input_def case_prod_beta Let_def apsnd_def map_prod_def
      split: option.splits)

lemma advance_with_buffer:
  "advance_handshake e generated message (c\<lparr>cn_input_buffer := b\<rparr>) =
     apsnd (\<lambda>c. c\<lparr>cn_input_buffer := b\<rparr>) (advance_handshake e generated message c)"
  by (auto simp: advance_handshake_def Let_def split: option.splits prod.splits)

end
