(* ===== verification/Input_Properties.thy ===== *)
theory Input_Properties
  imports Processor
begin

text \<open>
  What the input loop guarantees: it does not matter how the network cuts the stream into pieces, a
  call handles every complete message, and the invariants of a connection survive it.
\<close>

section \<open>One message\<close>

text \<open>The body of the loop for one message, already taken from the buffer.\<close>

definition serve_message ::
  "handler_env \<Rightarrow> (bytes \<times> bytes) option \<Rightarrow> bytes \<Rightarrow> rate_policy \<Rightarrow> handler_context \<Rightarrow>
    bool \<times> rate_policy \<times> handler_context" where
  "serve_message e generated message policy s =
     (if \<not> is_established (cn_channel (hc_connection s))
      then (case advance_handshake e generated message (hc_connection s) of
              (ok, c) \<Rightarrow> (ok, policy, s\<lparr>hc_connection := c\<rparr>))
      else (case open_message (he_sodium e) message (cn_channel (hc_connection s)) of
              (None, channel) \<Rightarrow> (False, policy, with_channel channel s)
            | (Some frame, channel) \<Rightarrow> dispatch_application_frame e frame policy (with_channel channel s)))"

lemma process_messages_serve:
  "process_messages e generated policy s =
     (case extract_length_prefixed_message (input_of s) MAX_NOISE_MESSAGE_SIZE of
        (None, malformed, rest) \<Rightarrow> (\<not> malformed, policy, s)
      | (Some message, malformed, rest) \<Rightarrow>
          (case serve_message e generated message policy (with_buffer rest s) of
             (False, p, s1) \<Rightarrow> (False, p, s1)
           | (True, p, s1) \<Rightarrow> process_messages e generated p s1))"
  by (subst process_messages.simps)
    (auto simp: serve_message_def Let_def dest: extract_None_rest split: prod.splits option.splits bool.splits)

lemma process_messages_simps:
  "extract_length_prefixed_message (input_of s) MAX_NOISE_MESSAGE_SIZE = (None, bad, rest) \<Longrightarrow>
     process_messages e generated policy s = (\<not> bad, policy, s)"
  "extract_length_prefixed_message (input_of s) MAX_NOISE_MESSAGE_SIZE = (Some message, bad, rest) \<Longrightarrow>
     serve_message e generated message policy (with_buffer rest s) = (False, p, s1) \<Longrightarrow>
     process_messages e generated policy s = (False, p, s1)"
  "extract_length_prefixed_message (input_of s) MAX_NOISE_MESSAGE_SIZE = (Some message, bad, rest) \<Longrightarrow>
     serve_message e generated message policy (with_buffer rest s) = (True, p, s1) \<Longrightarrow>
     process_messages e generated policy s = process_messages e generated p s1"
  by (subst process_messages_serve, simp)+

lemma serve_with_buffer:
  "serve_message e generated message policy (with_buffer b s) =
     apsnd (apsnd (with_buffer b)) (serve_message e generated message policy s)"
proof (cases "is_established (cn_channel (hc_connection s))")
  case True
  then show ?thesis
    by (auto simp: serve_message_def dispatch_with_buffer split: prod.splits option.splits)
next
  case False
  have "hc_connection (with_buffer b s) = (hc_connection s)\<lparr>cn_input_buffer := b\<rparr>"
    by (simp add: with_buffer_def)
  with False show ?thesis
    by (simp add: serve_message_def advance_with_buffer case_prod_beta) (simp add: with_buffer_def)
qed

lemma serve_input:
  assumes "serve_message e generated message policy s = (ok, p, s')"
  shows "input_of s' = input_of s"
proof (cases "is_established (cn_channel (hc_connection s))")
  case True
  then show ?thesis
    using assms dispatch_queues
    by (auto simp: serve_message_def only_queues_def with_channel_def split: prod.splits option.splits)
next
  case False
  then show ?thesis
    using assms advance_handshake_frame(1) by (fastforce simp: serve_message_def split: prod.splits)
qed

text \<open>An induction over the messages handled.\<close>

lemma process_messages_rounds [consumes 1, case_names stop failed round]:
  assumes "process_messages e generated policy s = (ok, p', s')"
    and stop: "\<And>p s bad rest. extract_length_prefixed_message (input_of s) MAX_NOISE_MESSAGE_SIZE = (None, bad, rest) \<Longrightarrow>
      P p s (\<not> bad) p s"
    and failed: "\<And>p s message bad rest p1 s1.
      extract_length_prefixed_message (input_of s) MAX_NOISE_MESSAGE_SIZE = (Some message, bad, rest) \<Longrightarrow>
      serve_message e generated message p (with_buffer rest s) = (False, p1, s1) \<Longrightarrow> P p s False p1 s1"
    and round: "\<And>p s message bad rest p1 s1 ok p' s'.
      extract_length_prefixed_message (input_of s) MAX_NOISE_MESSAGE_SIZE = (Some message, bad, rest) \<Longrightarrow>
      serve_message e generated message p (with_buffer rest s) = (True, p1, s1) \<Longrightarrow>
      process_messages e generated p1 s1 = (ok, p', s') \<Longrightarrow> P p1 s1 ok p' s' \<Longrightarrow> P p s ok p' s'"
  shows "P policy s ok p' s'"
  using assms(1)
proof (induction "length (input_of s)" arbitrary: policy s rule: less_induct)
  case less
  obtain found bad rest where x: "extract_length_prefixed_message (input_of s) MAX_NOISE_MESSAGE_SIZE = (found, bad, rest)"
    by (metis prod_cases3)
  show ?case
  proof (cases found)
    case None
    then show ?thesis using less.prems stop x by (auto simp: process_messages_simps(1))
  next
    case (Some message)
    obtain o1 p1 s1 where m: "serve_message e generated message policy (with_buffer rest s) = (o1, p1, s1)"
      by (metis prod_cases3)
    have "length (input_of s1) < length (input_of s)"
      using serve_input [OF m] extract_shrinks x Some by fastforce
    then show ?thesis
      using less x Some m failed [of s message bad rest policy p1 s1] round [of s message bad rest policy p1 s1]
      by (cases o1) (auto simp: process_messages_simps(2,3))
  qed
qed

section \<open>Fragmentation\<close>

lemma process_messages_append:
  assumes "process_messages e generated policy s = (ok, p1, s1)"
  shows "process_messages e generated policy (with_buffer (input_of s @ extra) s) =
    (if ok then process_messages e generated p1 (with_buffer (input_of s1 @ extra) s1)
     else (False, p1, with_buffer (input_of s1 @ extra) s1))"
  using assms
proof (induction rule: process_messages_rounds)
  case (stop p s bad rest)
  then show ?case
    using extract_append_malformed [of "input_of s" MAX_NOISE_MESSAGE_SIZE rest extra]
    by (cases bad) (auto simp: process_messages_simps(1))
next
  case (failed p s message bad rest p1 s1)
  note x = extract_append_Some [OF failed(1), of extra]
  have "serve_message e generated message p (with_buffer (rest @ extra) s) =
      (False, p1, with_buffer (input_of s1 @ extra) s1)"
    using serve_with_buffer [of e generated message p "rest @ extra" "with_buffer rest s"] failed(2)
      serve_input [OF failed(2)] by simp
  with x show ?case by (simp add: process_messages_simps(2))
next
  case (round p s message bad rest p1 s1 ok p' s')
  note x = extract_append_Some [OF round(1), of extra]
  have "serve_message e generated message p (with_buffer (rest @ extra) s) =
      (True, p1, with_buffer (input_of s1 @ extra) s1)"
    using serve_with_buffer [of e generated message p "rest @ extra" "with_buffer rest s"] round(2)
      serve_input [OF round(2)] by simp
  with x round(4) show ?case by (simp add: process_messages_simps(3))
qed

lemma read_chunks: "read_available (map Received chunks @ [Recv_would_block]) b = Some (True, b @ concat chunks)"
  by (induction chunks arbitrary: b) auto

abbreviation arriving :: "bytes list \<Rightarrow> recv_result list" where
  "arriving chunks \<equiv> map Received chunks @ [Recv_would_block]"

text \<open>
  C8. The stream may be cut anywhere. Reading some chunks, handling what is complete and reading the
  rest in a later call does what one call over all the chunks does: the same replies, the same
  database, the same limits, the same buffer. When the first call already refuses the connection, so
  does the single call, with the same effects.
\<close>

theorem fragmentation_transparent:
  assumes "process_connection_input e generated (arriving first) policy s = Some (ok, p1, s1)"
  shows "process_connection_input e generated (arriving (first @ later)) policy s =
    (if ok then process_connection_input e generated (arriving later) p1 s1
     else Some (False, p1, with_buffer (input_of s1 @ concat later) s1))"
proof -
  have first: "process_messages e generated policy (with_buffer (input_of s @ concat first) s) = (ok, p1, s1)"
    using assms by (simp add: process_connection_input_def read_chunks)
  have all: "process_connection_input e generated (arriving (first @ later)) policy s =
      Some (process_messages e generated policy (with_buffer (input_of s @ concat first @ concat later) s))"
    unfolding process_connection_input_def using read_chunks [of "first @ later" "input_of s"] by simp
  show ?thesis
    unfolding all using process_messages_append [OF first, of "concat later"]
    by (simp add: process_connection_input_def read_chunks)
qed

lemma sample_no_message:
  "process_connection_input sample_env None (arriving [[7]]) policy (sample_context [] new_session) =
     Some (True, policy, with_buffer [7] (sample_context [] new_session))"
proof -
  have e: "input_of (sample_context [] new_session) = []" by (simp add: sample_context_def sample_connection_def)
  have "extract_length_prefixed_message (input_of (with_buffer [7] (sample_context [] new_session)))
      MAX_NOISE_MESSAGE_SIZE = (None, False, [7])" by (simp add: extract_length_prefixed_message_def)
  from process_messages_simps(1) [OF this] e show ?thesis by (simp add: process_connection_input_def)
qed

theorem fragmentation_transparent_witness:
  "process_connection_input sample_env None (arriving [[7], [0, 0, 0], [1]]) (fresh_policy 1 1)
      (sample_context [] new_session) =
    process_connection_input sample_env None (arriving [[0, 0, 0], [1]]) (fresh_policy 1 1)
      (with_buffer [7] (sample_context [] new_session))"
  using fragmentation_transparent [OF sample_no_message, where later = "[[0, 0, 0], [1]]"] by simp

section \<open>Completeness\<close>

definition recv_stops :: "recv_result \<Rightarrow> bool" where
  "recv_stops r \<longleftrightarrow> r \<in> {Recv_end, Recv_would_block, Recv_error}"

lemma read_available_stops: "r \<in> set rs \<Longrightarrow> recv_stops r \<Longrightarrow> \<exists>ok b'. read_available rs b = Some (ok, b')"
  by (induction rs b rule: read_available.induct) (auto simp: recv_stops_def)

lemma process_messages_drains:
  "process_messages e generated policy s = (ok, p', s') \<Longrightarrow> ok \<Longrightarrow>
   extract_length_prefixed_message (input_of s') MAX_NOISE_MESSAGE_SIZE = (None, False, input_of s')"
  by (induction rule: process_messages_rounds) (auto dest: extract_None_rest)

text \<open>
  C9. Every call ends, with any input: as soon as the kernel answers one read with "nothing more",
  "closed" or an error, the call returns. When it returns with the connection kept, every complete
  message that had arrived was handled; what is left is the beginning of a message that is neither
  complete nor malformed.
\<close>

theorem input_handled_completely:
  assumes "r \<in> set recvs" and "recv_stops r"
  shows "\<exists>ok p' s'. process_connection_input e generated recvs policy s = Some (ok, p', s') \<and>
    (ok \<longrightarrow> extract_length_prefixed_message (input_of s') MAX_NOISE_MESSAGE_SIZE = (None, False, input_of s'))"
proof -
  obtain more_coming b where "read_available recvs (input_of s) = Some (more_coming, b)"
    using read_available_stops [OF assms] by blast
  moreover obtain ok p' s' where "process_messages e generated policy (with_buffer b s) = (ok, p', s')"
    by (metis prod_cases3)
  ultimately show ?thesis
    using process_messages_drains [of e generated policy "with_buffer b s" ok p' s']
    by (cases more_coming) (auto simp: process_connection_input_def)
qed

theorem input_handled_completely_witness:
  "\<exists>ok p' s'. process_connection_input sample_env None [Received [1, 0, 0, 0, 9], Recv_interrupted, Recv_would_block]
     (fresh_policy 1 1) (sample_context [] new_session) = Some (ok, p', s')"
  using input_handled_completely [of Recv_would_block "[Received [1, 0, 0, 0, 9], Recv_interrupted, Recv_would_block]"
    sample_env None "fresh_policy 1 1" "sample_context [] new_session"]
  by (auto simp: recv_stops_def)

section \<open>Invariants of a connection\<close>

text \<open>Before the handshake is finished the session is the initial one, as far as authority goes.\<close>

definition handshake_ok :: "client_connection \<Rightarrow> bool" where
  "handshake_ok c \<longleftrightarrow> is_established (cn_channel c) \<or>
     st_phase (cn_session c) = Awaiting_handshake \<and> st_user_id (cn_session c) = 0"

definition input_ok :: "handler_env \<Rightarrow> handler_context \<Rightarrow> bool" where
  "input_ok e s \<longleftrightarrow> context_ok e s \<and> handshake_ok (hc_connection s)"

text \<open>What serving one connection keeps, for the rest of the server.\<close>

definition serves :: "handler_context \<Rightarrow> handler_context \<Rightarrow> bool" where
  "serves s s' \<longleftrightarrow> users_persist (tables_of s) (tables_of s') \<and>
     sk_descriptor (cn_socket (hc_connection s')) = sk_descriptor (cn_socket (hc_connection s)) \<and>
     st_peer_address (session_of s') = st_peer_address (session_of s)"

lemma serves_refl: "serves s s" and serves_trans: "serves s s1 \<Longrightarrow> serves s1 s2 \<Longrightarrow> serves s s2"
  unfolding serves_def by (blast intro: users_persist_refl) (metis users_persist_trans)

lemma route_persists:
  assumes "run_state (route_message e type payload) s = (b, s')"
  shows "users_persist (tables_of s) (tables_of s')"
proof (cases "session_message type")
  case True
  then show ?thesis using move_persists [OF session_moves [OF True]] assms by (metis snd_conv)
next
  case False
  then show ?thesis using respects_persist [OF own_changes_respects [OF within_facts(2) [OF False assms]]] by simp
qed

lemma dispatch_cases:
  assumes "dispatch_application_frame e frame policy s = (b, p', s')"
  obtains "s' = s" | s1 now where "run_state get_unix_timestamp s = (now, s1)"
      "s' = snd (run_state (send_status_error e EC_rate_limited) s1)"
    | s1 now s2 type payload where "run_state get_unix_timestamp s = (now, s1)"
      "s2 = snd (run_state (set_session (\<lambda>S. S\<lparr>st_last_activity_at := now\<rparr>)) s1)"
      "run_state (route_message e type payload) s2 = (b, s')"
  using assms by (auto simp: dispatch_application_frame_def Let_def split: option.splits if_splits prod.splits)

lemma status_error_frame:
  assumes "s' = snd (run_state (send_status_error e code) s)"
  shows "hc_database s' = hc_database s" and "session_of s' = session_of s"
proof -
  obtain b c where "send_raw_message e MT_status_error (encode_with status_error_response_write_to
      \<lparr>se_code = code, se_detail = describe_error_code code\<rparr>) (hc_connection s) = (b, c)" by fastforce
  with assms send_raw_message_frame(1) [OF this]
  show "hc_database s' = hc_database s" "session_of s' = session_of s"
    by (simp_all add: send_status_error_def send_message_def run_on_connection)
qed

lemma dispatch_keeps:
  assumes "dispatch_application_frame e frame policy s = (b, p', s')" and "context_ok e s"
  shows "context_ok e s'" and "users_persist (tables_of s) (tables_of s')"
proof -
  have sock: "socket_ok (cn_socket (hc_connection s'))"
    using dispatch_queues [OF assms(1)] assms(2) by (simp add: only_queues_def context_ok_def)
  have "context_ok e s' \<and> users_persist (tables_of s) (tables_of s')"
    using assms(1)
  proof (cases rule: dispatch_cases)
    case 1
    then show ?thesis using assms(2) users_persist_refl by simp
  next
    case (2 s1 now)
    have "hc_database s1 = hc_database s" "hc_connection s1 = hc_connection s"
      using 2(1) by (auto simp: get_unix_timestamp_def split: list.splits)
    then show ?thesis
      using status_error_frame [OF 2(2)] assms(2) sock by (simp add: context_ok_def users_persist_refl)
  next
    case (3 s1 now s2 type payload)
    have s1: "hc_database s1 = hc_database s" "hc_connection s1 = hc_connection s"
      using 3(1) by (auto simp: get_unix_timestamp_def split: list.splits)
    then have s2: "hc_database s2 = hc_database s" by (simp add: 3(2) run_set_session)
    have "context_ok e s2"
      using assms(2) s1 by (simp add: 3(2) run_set_session context_ok_def session_ok_def key_proven_def)
    then show ?thesis
      using route_context_ok [OF _ 3(3)] route_persists [OF 3(3)] s2 by simp
  qed
  then show "context_ok e s'" "users_persist (tables_of s) (tables_of s')" by blast+
qed

lemma serve_keeps:
  assumes "serve_message e generated message policy s = (ok, p', s')" and "input_ok e s"
  shows "input_ok e s'" and "serves s s'"
proof -
  have "input_ok e s' \<and> serves s s'"
  proof (cases "is_established (cn_channel (hc_connection s))")
    case False
    then obtain c where c: "advance_handshake e generated message (hc_connection s) = (ok, c)"
      "s' = s\<lparr>hc_connection := c\<rparr>"
      using assms(1) by (auto simp: serve_message_def split: prod.splits)
    note f = advance_handshake_frame [OF c(1)]
    show ?thesis
      using assms(2) False f c(2)
      by (auto simp: input_ok_def handshake_ok_def context_ok_def session_ok_def serves_def users_persist_refl)
  next
    case True
    obtain found channel where o: "open_message (he_sodium e) message (cn_channel (hc_connection s)) = (found, channel)"
      by fastforce
    then have est: "is_established channel"
      using True by (auto simp: open_message_def is_established_def split: option.splits prod.splits)
    define s1 where "s1 = with_channel channel s"
    have s1: "input_ok e s1" "serves s s1" "is_established (cn_channel (hc_connection s1))"
      using assms(2) est
      by (simp_all add: s1_def with_channel_def input_ok_def handshake_ok_def context_ok_def serves_def users_persist_refl)
    show ?thesis
    proof (cases found)
      case None
      then show ?thesis using assms(1) True o s1 by (simp add: serve_message_def s1_def)
    next
      case (Some frame)
      then have d: "dispatch_application_frame e frame policy s1 = (ok, p', s')"
        using assms(1) True o by (simp add: serve_message_def s1_def)
      have "input_ok e s'"
        using dispatch_keeps(1) [OF d] dispatch_queues [OF d] s1(1,3)
        by (simp add: input_ok_def handshake_ok_def only_queues_def)
      moreover have "serves s1 s'"
        using dispatch_keeps(2) [OF d] dispatch_queues [OF d] s1(1)
        by (simp add: input_ok_def serves_def only_queues_def)
      ultimately show ?thesis using serves_trans [OF s1(2)] by blast
    qed
  qed
  then show "input_ok e s'" "serves s s'" by blast+
qed

lemma with_buffer_keeps: "input_ok e (with_buffer b s) = input_ok e s" "serves s (with_buffer b s)" "serves (with_buffer b s) s"
  by (simp_all add: input_ok_def context_ok_def handshake_ok_def serves_def with_buffer_def users_persist_refl)

lemma process_messages_keeps:
  "process_messages e generated policy s = (ok, p', s') \<Longrightarrow> input_ok e s \<Longrightarrow> input_ok e s' \<and> serves s s'"
proof (induction rule: process_messages_rounds)
  case (stop p s bad rest)
  then show ?case using serves_refl by simp
next
  case (failed p s message bad rest p1 s1)
  then show ?case
    using serve_keeps [OF failed(2)] serves_trans [OF with_buffer_keeps(2)] by (simp add: with_buffer_keeps(1))
next
  case (round p s message bad rest p1 s1 ok p' s')
  have "input_ok e s1" "serves s s1"
    using serve_keeps [OF round(2)] round(5) serves_trans [OF with_buffer_keeps(2)] by (simp_all add: with_buffer_keeps(1))
  then show ?case using round(4) serves_trans by blast
qed

lemma process_connection_input_keeps:
  assumes "process_connection_input e generated recvs policy s = Some (ok, p', s')" and "input_ok e s"
  shows "input_ok e s'" and "serves s s'"
proof -
  have "input_ok e s' \<and> serves s s'"
    using assms process_messages_keeps [of e generated policy "with_buffer b s" ok p' s' for b]
      serves_trans [OF with_buffer_keeps(2)]
    by (auto simp: process_connection_input_def with_buffer_keeps split: option.splits bool.splits prod.splits)
  then show "input_ok e s'" "serves s s'" by blast+
qed

end
