(* ===== verification/State_Machine.thy ===== *)
theory State_Machine
  imports Main
begin

text \<open>
  The interface by which the stateful components state their invariants: a step relation labelled
  with events, the states it reaches, and the contract that an invariant holds initially and is
  kept by every step.
\<close>

inductive reachable :: "('s \<Rightarrow> bool) \<Rightarrow> ('s \<Rightarrow> 'e \<Rightarrow> 's \<Rightarrow> bool) \<Rightarrow> 's \<Rightarrow> bool"
  for init step where
  reachable_init: "init s \<Longrightarrow> reachable init step s"
| reachable_step: "reachable init step s \<Longrightarrow> step s e s' \<Longrightarrow> reachable init step s'"

inductive execution :: "('s \<Rightarrow> 'e \<Rightarrow> 's \<Rightarrow> bool) \<Rightarrow> 's \<Rightarrow> 'e list \<Rightarrow> 's \<Rightarrow> bool"
  for step where
  execution_Nil: "execution step s [] s"
| execution_Cons: "step s e s1 \<Longrightarrow> execution step s1 es s' \<Longrightarrow> execution step s (e # es) s'"

inductive_cases execution_NilE: "execution step s [] s'"
inductive_cases execution_ConsE: "execution step s (e # es) s'"

lemma execution_reachable:
  "execution step s es s' \<Longrightarrow> reachable init step s \<Longrightarrow> reachable init step s'"
  by (induction rule: execution.induct) (auto intro: reachable_step)

locale invariant_machine =
  fixes init :: "'s \<Rightarrow> bool"
    and step :: "'s \<Rightarrow> 'e \<Rightarrow> 's \<Rightarrow> bool"
    and inv :: "'s \<Rightarrow> bool"
  assumes init_inv: "init s \<Longrightarrow> inv s"
    and step_inv: "inv s \<Longrightarrow> step s e s' \<Longrightarrow> inv s'"
begin

lemma reachable_inv: "reachable init step s \<Longrightarrow> inv s"
  by (induction rule: reachable.induct) (auto intro: init_inv step_inv)

lemma execution_inv: "execution step s es s' \<Longrightarrow> inv s \<Longrightarrow> inv s'"
  by (induction rule: execution.induct) (auto intro: step_inv)

end

end
