(* ===== verification/Registry.thy ===== *)
theory Registry
  imports Connection Config State_Machine
begin

text \<open>
  The registry of live connections (\<^verbatim>\<open>connection_registry.cpp\<close>). The table from descriptors to
  connections is an association list, because the order in which an unordered map is walked shows
  in the list of expired descriptors; the theorems hold for every order.
\<close>

record connection_registry =
  cg_max_connections :: u32
  cg_max_connections_per_address :: u32
  cg_connections :: "(int \<times> client_connection) list"
  cg_address_counts :: "bytes \<rightharpoonup> u32"

definition new_registry :: "limits_config \<Rightarrow> connection_registry" where
  "new_registry l =
     \<lparr>cg_max_connections = lm_max_connections l,
      cg_max_connections_per_address = lm_max_connections_per_address l,
      cg_connections = [], cg_address_counts = Map.empty\<rparr>"

definition peer_of :: "client_connection \<Rightarrow> bytes" where
  "peer_of c = st_peer_address (cn_session c)"

text \<open>\<^verbatim>\<open>emplace\<close> leaves an existing entry alone.\<close>

definition insert_connection ::
  "connection_registry \<Rightarrow> client_connection option \<Rightarrow> bool \<times> connection_registry" where
  "insert_connection g entry =
     (case entry of
        None \<Rightarrow> (False, g)
      | Some c \<Rightarrow>
          if length (cg_connections g) \<ge> unat (cg_max_connections g) then (False, g)
          else if (case cg_address_counts g (peer_of c) of
                     None \<Rightarrow> False | Some n \<Rightarrow> n \<ge> cg_max_connections_per_address g) then (False, g)
          else let descriptor = sk_descriptor (cn_socket c);
                   n = (case cg_address_counts g (peer_of c) of None \<Rightarrow> 0 | Some n \<Rightarrow> n)
               in (True, g\<lparr>cg_address_counts := (cg_address_counts g)(peer_of c \<mapsto> n + 1),
                           cg_connections :=
                             (if descriptor \<in> fst ` set (cg_connections g) then cg_connections g
                              else (descriptor, c) # cg_connections g)\<rparr>))"

definition remove_connection :: "connection_registry \<Rightarrow> int \<Rightarrow> connection_registry" where
  "remove_connection g descriptor =
     (case map_of (cg_connections g) descriptor of
        None \<Rightarrow> g
      | Some c \<Rightarrow>
          let counts = (case cg_address_counts g (peer_of c) of
                          None \<Rightarrow> cg_address_counts g
                        | Some n \<Rightarrow> if n \<le> 1 then (cg_address_counts g)(peer_of c := None)
                                    else (cg_address_counts g)(peer_of c \<mapsto> n - 1))
          in g\<lparr>cg_address_counts := counts,
               cg_connections := filter (\<lambda>(d, _). d \<noteq> descriptor) (cg_connections g)\<rparr>)"

definition find_connection :: "connection_registry \<Rightarrow> int \<Rightarrow> client_connection option" where
  "find_connection g descriptor = map_of (cg_connections g) descriptor"

definition connection_expired :: "u64 \<Rightarrow> limits_config \<Rightarrow> client_connection \<Rightarrow> bool" where
  "connection_expired now limits c =
     (let session = cn_session c;
          handshaking = (st_phase session \<noteq> Authenticated)
      in if \<not> handshaking \<and> lm_idle_timeout_seconds limits = 0 then False
         else let budget = (if handshaking then ucast (lm_handshake_timeout_seconds limits)
                            else ucast (lm_idle_timeout_seconds limits)) :: u64
              in now > st_last_activity_at session \<and> now - st_last_activity_at session > budget)"

definition collect_expired_descriptors ::
  "connection_registry \<Rightarrow> u64 \<Rightarrow> limits_config \<Rightarrow> int list" where
  "collect_expired_descriptors g now limits =
     map fst (filter (\<lambda>(_, c). connection_expired now limits c) (cg_connections g))"

text \<open>
  The closures of a sweep, in \<^verbatim>\<open>server_runtime::sweep_expired_connections\<close>, and what a request
  does to a connection through the pointer \<^verbatim>\<open>find_connection\<close> returned.
\<close>

definition sweep_connections :: "connection_registry \<Rightarrow> u64 \<Rightarrow> limits_config \<Rightarrow> connection_registry" where
  "sweep_connections g now limits = fold (\<lambda>d g. remove_connection g d) (collect_expired_descriptors g now limits) g"

definition update_connection ::
  "connection_registry \<Rightarrow> int \<Rightarrow> (client_connection \<Rightarrow> client_connection) \<Rightarrow> connection_registry" where
  "update_connection g descriptor f =
     g\<lparr>cg_connections := map (\<lambda>(d, c). (d, if d = descriptor then f c else c)) (cg_connections g)\<rparr>"

section \<open>The invariant\<close>

definition connections_from :: "bytes \<Rightarrow> (int \<times> client_connection) list \<Rightarrow> nat" where
  "connections_from address cs = length (filter (\<lambda>(_, c). peer_of c = address) cs)"

definition address_count :: "connection_registry \<Rightarrow> bytes \<Rightarrow> nat" where
  "address_count g address = (case cg_address_counts g address of None \<Rightarrow> 0 | Some n \<Rightarrow> unat n)"

definition registry_ok :: "connection_registry \<Rightarrow> bool" where
  "registry_ok g \<longleftrightarrow>
     distinct (map fst (cg_connections g)) \<and>
     length (cg_connections g) \<le> unat (cg_max_connections g) \<and>
     (\<forall>a. address_count g a = connections_from a (cg_connections g)) \<and>
     (\<forall>a. cg_address_counts g a \<noteq> Some 0) \<and>
     (\<forall>a. address_count g a \<le> max 1 (unat (cg_max_connections_per_address g)))"

lemma connections_from_Nil [simp]: "connections_from a [] = 0"
  by (simp add: connections_from_def)

lemma connections_from_Cons [simp]:
  "connections_from a ((d, c) # cs) = (if peer_of c = a then 1 else 0) + connections_from a cs"
  by (simp add: connections_from_def)

lemma connections_from_le: "connections_from a cs \<le> length cs"
  by (simp add: connections_from_def)

lemma registry_okD:
  assumes "registry_ok g"
  shows "distinct (map fst (cg_connections g))"
    and "length (cg_connections g) \<le> unat (cg_max_connections g)"
    and "address_count g a = connections_from a (cg_connections g)"
    and "cg_address_counts g a \<noteq> Some 0"
    and "address_count g a \<le> max 1 (unat (cg_max_connections_per_address g))"
  using assms unfolding registry_ok_def by blast+

lemma new_registry_ok: "registry_ok (new_registry l)"
  by (simp add: registry_ok_def new_registry_def address_count_def)

lemma address_count_plus_one:
  assumes "registry_ok g" and "length (cg_connections g) < unat (cg_max_connections g)"
  shows "unat ((case cg_address_counts g a of None \<Rightarrow> 0 | Some n \<Rightarrow> n) + 1) = address_count g a + 1"
proof -
  let ?n = "case cg_address_counts g a of None \<Rightarrow> 0 | Some n \<Rightarrow> n"
  have n: "unat ?n = address_count g a" by (simp add: address_count_def split: option.split)
  have "address_count g a \<le> length (cg_connections g)"
    using registry_okD(3) [OF assms(1), of a] connections_from_le [of a "cg_connections g"] by simp
  then have "?n < cg_max_connections g" using assms(2) n by (simp add: word_less_nat_alt)
  then show ?thesis using n by (simp add: unat_plus_one)
qed

lemma insert_connection_ok:
  assumes g: "registry_ok g" and fresh: "sk_descriptor (cn_socket c) \<notin> fst ` set (cg_connections g)"
    and ins: "insert_connection g (Some c) = (ok, g')"
  shows "registry_ok g'"
proof (cases ok)
  case False
  then have "g' = g" using ins by (auto simp: insert_connection_def Let_def split: if_splits)
  then show ?thesis using g by simp
next
  case True
  let ?a = "peer_of c"
  let ?n = "case cg_address_counts g ?a of None \<Rightarrow> 0 | Some n \<Rightarrow> n"
  have len: "length (cg_connections g) < unat (cg_max_connections g)"
    and cap: "\<And>n. cg_address_counts g ?a = Some n \<Longrightarrow> n < cg_max_connections_per_address g"
    and g': "g' = g\<lparr>cg_address_counts := (cg_address_counts g)(?a \<mapsto> ?n + 1),
      cg_connections := (sk_descriptor (cn_socket c), c) # cg_connections g\<rparr>"
    using ins True fresh by (auto simp: insert_connection_def Let_def split: if_splits option.splits)
  have n: "unat (?n + 1) = address_count g ?a + 1" by (rule address_count_plus_one [OF g len])
  then have count: "address_count g' b = address_count g b + (if ?a = b then 1 else 0)" for b
    by (auto simp: g' address_count_def)
  have "?n + 1 \<noteq> 0"
  proof
    assume "?n + 1 = 0"
    then have "unat (?n + 1) = 0" by (simp only: unat_0)
    then show False using n by linarith
  qed
  moreover have "address_count g ?a + 1 \<le> max 1 (unat (cg_max_connections_per_address g))"
    using cap by (cases "cg_address_counts g ?a") (auto simp: address_count_def word_less_nat_alt)
  ultimately show ?thesis
    unfolding registry_ok_def using g fresh len count registry_okD [OF g]
    by (auto simp: g')
qed

lemma connections_from_remove:
  assumes "distinct (map fst cs)" and "map_of cs d = Some c"
  shows "connections_from a cs =
    connections_from a (filter (\<lambda>(e, _). e \<noteq> d) cs) + (if peer_of c = a then 1 else 0)"
  using assms
proof (induction cs)
  case Nil
  then show ?case by simp
next
  case (Cons x cs)
  obtain e k where x: "x = (e, k)" by fastforce
  show ?case
  proof (cases "e = d")
    case True
    then have "d \<notin> fst ` set cs" using Cons.prems(1) x by auto
    then have "filter (\<lambda>(e, _). e \<noteq> d) cs = cs" by (force simp: filter_id_conv)
    then show ?thesis using Cons.prems(2) x True by simp
  next
    case False
    then show ?thesis using Cons x by simp
  qed
qed

lemma remove_connection_ok:
  assumes g: "registry_ok g"
  shows "registry_ok (remove_connection g d)"
proof (cases "map_of (cg_connections g) d")
  case None
  then show ?thesis using g by (simp add: remove_connection_def)
next
  case (Some c)
  let ?g = "remove_connection g d"
  let ?cs = "filter (\<lambda>(e, _). e \<noteq> d) (cg_connections g)"
  have cs: "cg_connections ?g = ?cs" and caps: "cg_max_connections ?g = cg_max_connections g"
    "cg_max_connections_per_address ?g = cg_max_connections_per_address g"
    using Some by (simp_all add: remove_connection_def Let_def)
  have from_eq: "connections_from a (cg_connections g) =
      connections_from a ?cs + (if peer_of c = a then 1 else 0)" for a
    by (rule connections_from_remove [OF registry_okD(1) [OF g] Some])
  have pos: "1 \<le> address_count g (peer_of c)"
    using registry_okD(3) [OF g, of "peer_of c"] from_eq [of "peer_of c"] by simp
  then obtain n where n: "cg_address_counts g (peer_of c) = Some n" "1 \<le> unat n"
    by (auto simp: address_count_def split: option.splits)
  have one: "n \<le> 1 \<longleftrightarrow> unat n \<le> 1" by (simp add: word_le_nat_alt)
  have sub: "unat (n - 1) = unat n - 1" using n(2) by (simp add: unat_sub word_le_nat_alt)
  have count: "address_count ?g a = address_count g a - (if peer_of c = a then 1 else 0)" for a
    using Some n one sub by (auto simp: remove_connection_def Let_def address_count_def)
  have nz: "cg_address_counts ?g a \<noteq> Some 0" for a
    using Some n one sub registry_okD(4) [OF g, of a]
    by (auto simp: remove_connection_def Let_def dest: arg_cong [where f = unat])
  have "distinct (map fst ?cs)" using registry_okD(1) [OF g] by (simp add: distinct_map_filter)
  moreover have "length ?cs \<le> unat (cg_max_connections g)"
    using registry_okD(2) [OF g] length_filter_le le_trans by blast
  moreover have "address_count ?g a = connections_from a ?cs" for a
    using count [of a] registry_okD(3) [OF g, of a] from_eq [of a] by simp
  moreover have "address_count ?g a \<le> max 1 (unat (cg_max_connections_per_address g))" for a
    using count [of a] registry_okD(5) [OF g, of a] by auto
  ultimately show ?thesis unfolding registry_ok_def using nz by (simp add: cs caps)
qed

lemma sweep_connections_ok: "registry_ok g \<Longrightarrow> registry_ok (sweep_connections g now limits)"
proof -
  have "registry_ok g \<Longrightarrow> registry_ok (fold (\<lambda>d g. remove_connection g d) ds g)" for ds g
    by (induction ds arbitrary: g) (simp_all add: remove_connection_ok)
  then show "registry_ok g \<Longrightarrow> registry_ok (sweep_connections g now limits)"
    by (simp add: sweep_connections_def)
qed

lemma update_connection_ok:
  assumes g: "registry_ok g" and f: "\<And>c. peer_of (f c) = peer_of c"
  shows "registry_ok (update_connection g d f)"
proof -
  have "connections_from a (map (\<lambda>(e, c). (e, if e = d then f c else c)) cs) = connections_from a cs"
    for a cs by (induction cs) (auto simp: f)
  moreover have "map (fst \<circ> (\<lambda>(e, c). (e, if e = d then f c else c))) cs = map fst cs"
    for cs :: "(int \<times> client_connection) list" by (simp add: comp_def case_prod_beta)
  moreover have "address_count (update_connection g d f) = address_count g"
    by (rule ext) (simp add: update_connection_def address_count_def)
  ultimately show ?thesis
    using g unfolding registry_ok_def by (simp add: update_connection_def del: map_eq_conv) metis
qed

section \<open>The registry as a state machine\<close>

text \<open>
  Everything the server does to the registry: an accepted connection, whose descriptor the kernel
  has just handed out and is therefore not in the table, a closure, a sweep, and a request that
  changes a connection but not its peer address.
\<close>

datatype registry_event =
    Accept client_connection
  | Close int
  | Sweep_at u64 limits_config
  | Serve int "client_connection \<Rightarrow> client_connection"

inductive registry_step :: "connection_registry \<Rightarrow> registry_event \<Rightarrow> connection_registry \<Rightarrow> bool" where
  step_accept: "sk_descriptor (cn_socket c) \<notin> fst ` set (cg_connections g) \<Longrightarrow>
    registry_step g (Accept c) (snd (insert_connection g (Some c)))"
| step_close: "registry_step g (Close d) (remove_connection g d)"
| step_sweep: "registry_step g (Sweep_at now limits) (sweep_connections g now limits)"
| step_serve: "(\<And>c. peer_of (f c) = peer_of c) \<Longrightarrow> registry_step g (Serve d f) (update_connection g d f)"

inductive_cases registry_stepE: "registry_step g e g'"

interpretation registry: invariant_machine "\<lambda>g. \<exists>l. g = new_registry l" registry_step registry_ok
proof
  fix g assume "\<exists>l. g = new_registry l"
  then show "registry_ok g" using new_registry_ok by blast
next
  fix g e g' assume "registry_ok g" "registry_step g e g'"
  then show "registry_ok g'"
    by (auto elim!: registry_stepE intro: remove_connection_ok sweep_connections_ok update_connection_ok
        dest: insert_connection_ok [OF _ _ prod.collapse [symmetric]])
qed

section \<open>Expiry\<close>

lemma remove_connection_connections:
  assumes "distinct (map fst (cg_connections g))"
  shows "cg_connections (remove_connection g d) = filter (\<lambda>(e, _). e \<noteq> d) (cg_connections g)"
proof (cases "map_of (cg_connections g) d")
  case None
  then have "d \<notin> fst ` set (cg_connections g)" by (simp add: map_of_eq_None_iff)
  then have "filter (\<lambda>(e, _). e \<noteq> d) (cg_connections g) = cg_connections g"
    by (force simp: filter_id_conv)
  then show ?thesis using None by (simp add: remove_connection_def)
qed (simp add: remove_connection_def Let_def)

lemma fold_remove_connections:
  assumes "distinct (map fst (cg_connections g))"
  shows "cg_connections (fold (\<lambda>d g. remove_connection g d) ds g) =
    filter (\<lambda>(e, _). e \<notin> set ds) (cg_connections g)"
  using assms
proof (induction ds arbitrary: g)
  case Nil
  then show ?case by (simp add: case_prod_beta)
next
  case (Cons d ds)
  have "distinct (map fst (cg_connections (remove_connection g d)))"
    using Cons.prems by (simp add: remove_connection_connections distinct_map_filter)
  from Cons.IH [OF this] Cons.prems show ?case
    by (auto simp: remove_connection_connections intro!: filter_cong)
qed

lemma sweep_connections_eq:
  assumes "distinct (map fst (cg_connections g))"
  shows "cg_connections (sweep_connections g now limits) =
    filter (\<lambda>(_, c). \<not> connection_expired now limits c) (cg_connections g)"
proof -
  have "e \<in> set (collect_expired_descriptors g now limits) \<longleftrightarrow> connection_expired now limits c"
    if "(e, c) \<in> set (cg_connections g)" for e c
    using that assms by (force simp: collect_expired_descriptors_def distinct_map inj_on_def)
  then show ?thesis
    unfolding sweep_connections_def fold_remove_connections [OF assms] by (auto intro!: filter_cong)
qed

section \<open>Properties\<close>

text \<open>
  C36: in every state the server can reach, the registry holds at most \<^verbatim>\<open>max_connections\<close>
  connections with different descriptors, the counter of every address equals the number of its
  live connections (no entry is left at zero, none is forgotten), and no address has more than
  \<^verbatim>\<open>max_connections_per_address\<close> connections; only when that setting is zero an address still gets one.
\<close>

theorem registry_counts_exact:
  assumes "reachable (\<lambda>g. \<exists>l. g = new_registry l) registry_step g"
  shows "distinct (map fst (cg_connections g)) \<and>
    length (cg_connections g) \<le> unat (cg_max_connections g) \<and>
    (cg_address_counts g a =
      (let n = connections_from a (cg_connections g) in if n = 0 then None else Some (word_of_nat n))) \<and>
    connections_from a (cg_connections g) \<le>
      (if cg_max_connections_per_address g = 0 then 1 else unat (cg_max_connections_per_address g))"
proof -
  note ok = registry_okD [OF registry.reachable_inv [OF assms]]
  have "cg_address_counts g a =
      (let n = connections_from a (cg_connections g) in if n = 0 then None else Some (word_of_nat n))"
  proof (cases "cg_address_counts g a")
    case None
    then show ?thesis using ok(3) [of a] by (simp add: address_count_def)
  next
    case (Some n)
    then have "connections_from a (cg_connections g) = unat n" "n \<noteq> 0"
      using ok(3) [of a] ok(4) [of a] by (simp_all add: address_count_def)
    then show ?thesis using Some by (simp add: Let_def unat_0_iff)
  qed
  moreover have "connections_from a (cg_connections g) \<le>
      (if cg_max_connections_per_address g = 0 then 1 else unat (cg_max_connections_per_address g))"
  proof (cases "cg_max_connections_per_address g = 0")
    case False
    then have "1 \<le> unat (cg_max_connections_per_address g)" by (metis One_nat_def Suc_leI unat_gt_0)
    then show ?thesis using ok(3) [of a] ok(5) [of a] False by simp
  qed (use ok(3) [of a] ok(5) [of a] in simp)
  ultimately show ?thesis using ok(1,2) by simp
qed

text \<open>
  Two connections of one address where two are allowed, a third that is refused, one of another address, and the
  first one closed again.
\<close>

definition toy_peer :: "int \<Rightarrow> bytes \<Rightarrow> client_connection" where
  "toy_peer d address = \<lparr>cn_socket = new_socket d, cn_channel = new_channel toy_sodium [] [],
     cn_session = new_session\<lparr>st_peer_address := address\<rparr>, cn_input_buffer = []\<rparr>"

definition toy_events :: "registry_event list" where
  "toy_events = [Accept (toy_peer 3 [1]), Accept (toy_peer 4 [1]), Accept (toy_peer 5 [1]), Accept (toy_peer 6 [2]), Close 3]"

definition toy_table :: connection_registry where
  "toy_table = \<lparr>cg_max_connections = lm_max_connections default_limits, cg_max_connections_per_address = 2,
     cg_connections = [(6, toy_peer 6 [2]), (4, toy_peer 4 [1])], cg_address_counts = [[1] \<mapsto> 1, [2] \<mapsto> 1]\<rparr>"

lemma toy_events_run: "execution registry_step (new_registry (default_limits\<lparr>lm_max_connections_per_address := 2\<rparr>)) toy_events toy_table"
proof -
  let ?g = "\<lambda>cs counts. \<lparr>cg_max_connections = lm_max_connections default_limits, cg_max_connections_per_address = 2,
     cg_connections = cs, cg_address_counts = counts\<rparr>"
  have step: "registry_step g (Accept c) g'" if "insert_connection g (Some c) = (ok, g')"
    "sk_descriptor (cn_socket c) \<notin> fst ` set (cg_connections g)" for g c ok g'
    using step_accept [OF that(2)] that(1) by simp
  have "registry_step (?g [] Map.empty) (Accept (toy_peer 3 [1])) (?g [(3, toy_peer 3 [1])] [[1] \<mapsto> 1])"
    by (rule step [where ok = True]) (simp_all add: insert_connection_def toy_peer_def new_socket_def peer_of_def default_limits_def word_le_nat_alt)
  moreover have "registry_step (?g [(3, toy_peer 3 [1])] [[1] \<mapsto> 1]) (Accept (toy_peer 4 [1]))
      (?g [(4, toy_peer 4 [1]), (3, toy_peer 3 [1])] [[1] \<mapsto> 2])"
    by (rule step [where ok = True]) (simp_all add: insert_connection_def toy_peer_def new_socket_def peer_of_def default_limits_def word_le_nat_alt)
  moreover have "registry_step (?g [(4, toy_peer 4 [1]), (3, toy_peer 3 [1])] [[1] \<mapsto> 2]) (Accept (toy_peer 5 [1]))
      (?g [(4, toy_peer 4 [1]), (3, toy_peer 3 [1])] [[1] \<mapsto> 2])"
    by (rule step [where ok = False]) (simp_all add: insert_connection_def toy_peer_def new_socket_def peer_of_def default_limits_def word_le_nat_alt)
  moreover have "registry_step (?g [(4, toy_peer 4 [1]), (3, toy_peer 3 [1])] [[1] \<mapsto> 2]) (Accept (toy_peer 6 [2]))
      (?g [(6, toy_peer 6 [2]), (4, toy_peer 4 [1]), (3, toy_peer 3 [1])] [[1] \<mapsto> 2, [2] \<mapsto> 1])"
    by (rule step [where ok = True]) (simp_all add: insert_connection_def toy_peer_def new_socket_def peer_of_def default_limits_def word_le_nat_alt)
  moreover have "registry_step (?g [(6, toy_peer 6 [2]), (4, toy_peer 4 [1]), (3, toy_peer 3 [1])] [[1] \<mapsto> 2, [2] \<mapsto> 1]) (Close 3) toy_table"
  proof -
    have "remove_connection (?g [(6, toy_peer 6 [2]), (4, toy_peer 4 [1]), (3, toy_peer 3 [1])] [[1] \<mapsto> 2, [2] \<mapsto> 1]) 3 = toy_table"
      by (simp add: remove_connection_def toy_table_def toy_peer_def new_socket_def peer_of_def fun_eq_iff word_le_nat_alt Let_def)
    then show ?thesis using step_close [of _ 3] by metis
  qed
  moreover have "new_registry (default_limits\<lparr>lm_max_connections_per_address := 2\<rparr>) = ?g [] Map.empty"
    by (simp add: new_registry_def)
  ultimately show ?thesis unfolding toy_events_def by (auto intro!: execution_Cons execution_Nil)
qed

theorem registry_counts_exact_witness:
  "execution registry_step (new_registry (default_limits\<lparr>lm_max_connections_per_address := 2\<rparr>)) toy_events toy_table \<and>
   cg_address_counts toy_table [1] = Some 1 \<and> cg_address_counts toy_table [3] = None \<and>
   connections_from [1] (cg_connections toy_table) \<le> 2 \<and> distinct (map fst (cg_connections toy_table))"
proof -
  have r: "reachable (\<lambda>g. \<exists>l. g = new_registry l) registry_step toy_table"
    by (rule execution_reachable [OF toy_events_run]) (blast intro: reachable_init)
  have "connections_from [1] (cg_connections toy_table) = 1" "connections_from [3] (cg_connections toy_table) = 0"
    "cg_max_connections_per_address toy_table = 2"
    by (simp_all add: toy_table_def toy_peer_def peer_of_def)
  then show ?thesis
    using registry_counts_exact [OF r, of "[1]"] registry_counts_exact [OF r, of "[3]"] toy_events_run by (simp add: Let_def)
qed

text \<open>
  After a sweep no expired connection is left and no other was closed. A connection whose
  handshake or authentication is not finished is expired as soon as it has been silent for longer
  than the handshake timeout, whatever the idle setting; an authenticated one never is when the
  idle timeout is zero.
\<close>

theorem sweep_closes_exactly_expired:
  assumes "reachable (\<lambda>g. \<exists>l. g = new_registry l) registry_step g"
  shows "find_connection (sweep_connections g now limits) d = Some c \<longleftrightarrow>
    find_connection g d = Some c \<and>
    \<not> (if st_phase (cn_session c) = Authenticated
       then lm_idle_timeout_seconds limits \<noteq> 0 \<and>
         unat (st_last_activity_at (cn_session c)) + unat (lm_idle_timeout_seconds limits) < unat now
       else unat (st_last_activity_at (cn_session c)) + unat (lm_handshake_timeout_seconds limits) < unat now)"
proof -
  have d: "distinct (map fst (cg_connections g))"
    by (rule registry_okD(1) [OF registry.reachable_inv [OF assms]])
  have "unat (ucast (x :: u32) :: u64) = unat x" for x
    using unsigned_less [of x, where ?'a = nat] by (simp add: unsigned_ucast_eq take_bit_eq_mod)
  then have "connection_expired now limits c \<longleftrightarrow>
      (if st_phase (cn_session c) = Authenticated
       then lm_idle_timeout_seconds limits \<noteq> 0 \<and>
         unat (st_last_activity_at (cn_session c)) + unat (lm_idle_timeout_seconds limits) < unat now
       else unat (st_last_activity_at (cn_session c)) + unat (lm_handshake_timeout_seconds limits) < unat now)"
    by (auto simp: connection_expired_def Let_def word_less_nat_alt unat_sub word_le_nat_alt)
  moreover have "find_connection (sweep_connections g now limits) d = Some c \<longleftrightarrow>
      find_connection g d = Some c \<and> \<not> connection_expired now limits c"
  proof -
    have "map_of cs d = Some c \<longleftrightarrow> (d, c) \<in> set cs" if "distinct (map fst cs)" for cs
      using that by (auto simp: map_of_eq_Some_iff)
    then show ?thesis
      using d by (simp add: find_connection_def sweep_connections_eq distinct_map_filter)
  qed
  ultimately show ?thesis by simp
qed

theorem sweep_closes_exactly_expired_witness:
  "find_connection (sweep_connections (snd (insert_connection (new_registry default_limits)
      (Some \<lparr>cn_socket = new_socket 3, cn_channel = new_channel toy_sodium [] [],
        cn_session = new_session, cn_input_buffer = []\<rparr>))) 100 default_limits) 3 = None"
proof (rule ccontr)
  let ?c = "\<lparr>cn_socket = new_socket 3, cn_channel = new_channel toy_sodium [] [],
    cn_session = new_session, cn_input_buffer = []\<rparr>"
  let ?g = "snd (insert_connection (new_registry default_limits) (Some ?c))"
  have "reachable (\<lambda>g. \<exists>l. g = new_registry l) registry_step (new_registry default_limits)"
    by (rule reachable_init) blast
  moreover have "registry_step (new_registry default_limits) (Accept ?c) ?g"
    by (rule step_accept) (simp add: new_registry_def)
  ultimately have r: "reachable (\<lambda>g. \<exists>l. g = new_registry l) registry_step ?g" by (rule reachable_step)
  assume "find_connection (sweep_connections ?g 100 default_limits) 3 \<noteq> None"
  then obtain c where c: "find_connection (sweep_connections ?g 100 default_limits) 3 = Some c" by blast
  then have "find_connection ?g 3 = Some c"
    using sweep_closes_exactly_expired [OF r, of 100 default_limits 3 c] by blast
  then have "c = ?c"
    by (simp add: find_connection_def insert_connection_def new_registry_def default_limits_def
        new_socket_def Let_def)
  with c show False
    using sweep_closes_exactly_expired [OF r, of 100 default_limits 3 c]
    by (simp add: new_session_def default_limits_def)
qed

end
