(* ===== verification/Admin.thy ===== *)
theory Admin
  imports Input_Properties Registry
begin

text \<open>
  The local administration interface (\<^verbatim>\<open>src/server/admin\<close>): the command line, the commands and
  their answers, and the service that reads one command per connection. Answers are byte strings,
  built the way the code concatenates them.
\<close>

section \<open>The command line (\<open>admin_command.cpp\<close>)\<close>

definition MAX_COMMAND_TOKENS :: nat where "MAX_COMMAND_TOKENS = 16"

abbreviation NEWLINE :: u8 where "NEWLINE \<equiv> 10"
abbreviation QUOTE :: u8 where "QUOTE \<equiv> 34"

record admin_command =
  ad_verb :: bytes
  ad_arguments :: "bytes list"

definition is_blank :: "u8 \<Rightarrow> bool" where
  "is_blank character \<longleftrightarrow> character = 32 \<or> character = 9 \<or> character = 13"

text \<open>The loop of \<^verbatim>\<open>take_token\<close>; the offset is what is left of the line.\<close>

fun take_rest :: "bool \<Rightarrow> bytes \<Rightarrow> bytes \<Rightarrow> (bytes \<times> bytes) option" where
  "take_rest quoted [] token = (if quoted then None else Some (token, []))"
| "take_rest quoted (character # rest) token =
     (if quoted \<and> character = QUOTE then Some (token, rest)
      else if \<not> quoted \<and> is_blank character then Some (token, character # rest)
      else take_rest quoted rest (token @ [character]))"

definition take_token :: "bytes \<Rightarrow> (bytes \<times> bytes) option" where
  "take_token line = (if hd line = QUOTE then take_rest True (tl line) [] else take_rest False line [])"

lemma take_rest_length: "take_rest quoted line token = Some (t, rest) \<Longrightarrow> length rest \<le> length line"
  by (induction quoted line token rule: take_rest.induct) (auto split: if_splits)

lemma take_token_shorter:
  assumes "take_token (c # line) = Some (t, rest)" and "\<not> is_blank c"
  shows "length rest < length (c # line)"
proof (cases "c = QUOTE")
  case True
  then show ?thesis using assms(1) take_rest_length [of True line "[]"] by (auto simp: take_token_def)
next
  case False
  then have "take_rest False line [c] = Some (t, rest)" using assms by (simp add: take_token_def)
  from take_rest_length [OF this] show ?thesis by simp
qed

function parse_tokens :: "bytes \<Rightarrow> bytes list \<Rightarrow> bytes list option" where
  "parse_tokens line tokens =
     (case line of
        [] \<Rightarrow> Some tokens
      | character # rest \<Rightarrow>
          if is_blank character then parse_tokens rest tokens
          else if length tokens \<ge> MAX_COMMAND_TOKENS then None
          else (case take_token line of
                  None \<Rightarrow> None
                | Some (token, left) \<Rightarrow> parse_tokens left (tokens @ [token])))"
  by pat_completeness auto
termination
  by (relation "measure (\<lambda>(line, _). length line)") (auto dest: take_token_shorter)

declare parse_tokens.simps [simp del]

definition parse_admin_command :: "bytes \<Rightarrow> admin_command option" where
  "parse_admin_command line =
     (case parse_tokens line [] of
        None \<Rightarrow> None
      | Some [] \<Rightarrow> None
      | Some (verb # arguments) \<Rightarrow> Some \<lparr>ad_verb = verb, ad_arguments = arguments\<rparr>)"

section \<open>Text\<close>

definition int_text :: "int \<Rightarrow> bytes" where
  "int_text i = (if i < 0 then ascii ''-'' @ decimal_text (nat (- i)) else decimal_text (nat i))"

text \<open>
  \<^verbatim>\<open>std::from_chars\<close> for a signed integer of the given range: an optional minus sign, then digits;
  what follows them is ignored, and a value out of range is an error.
\<close>

definition is_digit :: "u8 \<Rightarrow> bool" where
  "is_digit c \<longleftrightarrow> 48 \<le> c \<and> c \<le> 57"

definition digits_value :: "bytes \<Rightarrow> nat" where
  "digits_value ds = foldl (\<lambda>n d. 10 * n + unat (d - 48)) 0 ds"

definition from_chars :: "int \<Rightarrow> int \<Rightarrow> bytes \<Rightarrow> int option" where
  "from_chars lowest highest characters =
     (let negative = (characters \<noteq> [] \<and> hd characters = 45);
          ds = takeWhile is_digit (if negative then tl characters else characters);
          v = (if negative then - int (digits_value ds) else int (digits_value ds))
      in if ds = [] \<or> v < lowest \<or> v > highest then None else Some v)"

definition format_duration :: "u64 \<Rightarrow> bytes" where
  "format_duration seconds =
     (let days = seconds div 86400;
          hours = (seconds mod 86400) div 3600;
          minutes = (seconds mod 3600) div 60;
          remainder = seconds mod 60
      in (if days > 0 then decimal_text (unat days) @ ascii ''j '' else []) @
         (if days > 0 \<or> hours > 0 then decimal_text (unat hours) @ ascii ''h '' else []) @
         (if days > 0 \<or> hours > 0 \<or> minutes > 0 then decimal_text (unat minutes) @ ascii ''m '' else []) @
         decimal_text (unat remainder) @ ascii ''s'')"

definition pad_right :: "bytes \<Rightarrow> nat \<Rightarrow> bytes" where
  "pad_right characters width =
     (if length characters < width then characters @ replicate (width - length characters) 32 else characters) @ [32]"

section \<open>The context of a command\<close>

record admin_context =
  ax_logger :: logger
  ax_database :: database
  ax_registry :: connection_registry
  ax_started_at :: u64
  ax_clock :: "u64 list"

definition admin_now :: "admin_context \<Rightarrow> u64 \<times> admin_context" where
  "admin_now x = (case ax_clock x of [] \<Rightarrow> (0, x) | t # ts \<Rightarrow> (t, x\<lparr>ax_clock := ts\<rparr>))"

definition admin_log :: "handler_env \<Rightarrow> bytes \<Rightarrow> admin_context \<Rightarrow> admin_context" where
  "admin_log e message x = x\<lparr>ax_logger := write_entry (he_log_stamp e) LL_info message (ax_logger x)\<rparr>"

section \<open>Statistics (\<open>admin_stats_command.cpp\<close>)\<close>

definition count_authenticated :: "connection_registry \<Rightarrow> u32" where
  "count_authenticated g =
     foldl (\<lambda>n (_, c). if st_phase (cn_session c) = Authenticated then n + 1 else n) 0 (cg_connections g)"

definition format_line :: "bytes \<Rightarrow> bytes \<Rightarrow> bytes" where
  "format_line label value = ascii ''  '' @ pad_right label 22 @ ascii '': '' @ value @ [NEWLINE]"

definition run_stats_command :: "handler_env \<Rightarrow> admin_context \<Rightarrow> bytes \<times> admin_context" where
  "run_stats_command e x =
     (let (now, x1) = admin_now x;
          g = ax_registry x1;
          head = ascii ''hypercom -- statistiques'' @ [NEWLINE] @
            format_line (ascii ''en service depuis'') (format_duration (now - ax_started_at x1)) @
            format_line (ascii ''connexions'')
              (decimal_text (length (cg_connections g)) @ ascii '' / '' @
               decimal_text (unat (lm_max_connections (sc_limits (he_config e))))) @
            format_line (ascii ''dont authentifiees'') (decimal_text (unat (count_authenticated g))) @
            format_line (ascii ''inscriptions'')
              (if sc_registration_open (he_config e) then ascii ''ouvertes'' else ascii ''fermees'') @
            format_line (ascii ''journalisation des IP'')
              (if gc_log_peer_addresses (sc_logging (he_config e)) then ascii ''ACTIVE'' else ascii ''desactivee (defaut)'')
      in case collect_counts (ax_database x1) of
           (None, d) \<Rightarrow> (head @ ascii ''  (compteurs de base illisibles)'' @ [NEWLINE], x1\<lparr>ax_database := d\<rparr>)
         | (Some n, d) \<Rightarrow>
             (head @ format_line (ascii ''comptes'') (int_text (sv_users n)) @
              format_line (ascii ''forums'') (int_text (sv_forums n)) @
              format_line (ascii ''posts'') (int_text (sv_posts n)) @
              format_line (ascii ''commentaires'') (int_text (sv_comments n)) @
              format_line (ascii ''enveloppes en attente'') (int_text (sv_pending_envelopes n)),
              x1\<lparr>ax_database := d\<rparr>))"

section \<open>Sessions (\<open>admin_session_command.cpp\<close>)\<close>

primrec describe_phase :: "session_phase \<Rightarrow> bytes" where
  "describe_phase Awaiting_handshake = ascii ''handshake''"
| "describe_phase Awaiting_hello = ascii ''hello''"
| "describe_phase Awaiting_auth = ascii ''auth''"
| "describe_phase Authenticated = ascii ''authentifiee''"

definition session_line :: "u64 \<Rightarrow> int \<Rightarrow> session_state \<Rightarrow> bytes" where
  "session_line now descriptor session =
     pad_right (int_text descriptor) 6 @ pad_right (describe_phase (st_phase session)) 14 @
     pad_right (format_duration (now - st_connected_at session)) 14 @
     format_duration (now - st_last_activity_at session) @ [NEWLINE]"

definition list_sessions :: "admin_context \<Rightarrow> bytes \<times> admin_context" where
  "list_sessions x =
     (let (now, x1) = admin_now x;
          cs = cg_connections (ax_registry x1)
      in (pad_right (ascii ''DESCR'') 6 @ pad_right (ascii ''ETAT'') 14 @ pad_right (ascii ''DEPUIS'') 14 @
            ascii ''INACTIF'' @ [NEWLINE] @
          concat (map (\<lambda>(descriptor, c). session_line now descriptor (cn_session c)) cs) @
          (if cs = [] then ascii ''(aucune connexion)'' @ [NEWLINE] else []), x1))"

definition close_session :: "handler_env \<Rightarrow> bytes \<Rightarrow> admin_context \<Rightarrow> bytes \<times> int list \<times> admin_context" where
  "close_session e argument x =
     (case from_chars (- (2 ^ 31)) (2 ^ 31 - 1) argument of
        None \<Rightarrow> (ascii ''usage : sessions close <descripteur>'' @ [NEWLINE], [], x)
      | Some descriptor \<Rightarrow>
          if find_connection (ax_registry x) descriptor = None
          then (ascii ''descripteur inconnu : '' @ argument @ [NEWLINE], [], x)
          else (ascii ''session '' @ argument @ ascii '' marquee pour fermeture'' @ [NEWLINE], [descriptor],
                admin_log e (ascii ''session fermee par l'administration'') x))"

definition run_sessions_command ::
  "handler_env \<Rightarrow> admin_command \<Rightarrow> admin_context \<Rightarrow> bytes \<times> int list \<times> admin_context" where
  "run_sessions_command e command x =
     (case ad_arguments command of
        [] \<Rightarrow> let (r, x1) = list_sessions x in (r, [], x1)
      | action # more_arguments \<Rightarrow>
          if action = ascii ''list'' then let (r, x1) = list_sessions x in (r, [], x1)
          else if action = ascii ''close''
          then (case more_arguments of
                  [] \<Rightarrow> (ascii ''usage : sessions close <descripteur>'' @ [NEWLINE], [], x)
                | argument # _ \<Rightarrow> close_session e argument x)
          else (ascii ''usage : sessions [list | close <descripteur>]'' @ [NEWLINE], [], x))"

section \<open>Announcements (\<open>admin_motd_command.cpp\<close>)\<close>

definition show_motd :: "admin_context \<Rightarrow> bytes \<times> admin_context" where
  "show_motd x =
     (case find_active_motd (ax_database x) of
        (None, d) \<Rightarrow> (ascii ''aucune annonce active'' @ [NEWLINE], x\<lparr>ax_database := d\<rparr>)
      | (Some a, d) \<Rightarrow>
          (ascii ''revision '' @ decimal_text (unat (mp_revision a)) @ [NEWLINE] @ mp_body a @ [NEWLINE],
           x\<lparr>ax_database := d\<rparr>))"

definition WRITE_FAILED :: bytes where
  "WRITE_FAILED = ascii ''echec : ecriture en base impossible'' @ [NEWLINE]"

definition set_motd :: "handler_env \<Rightarrow> bytes \<Rightarrow> admin_context \<Rightarrow> bytes \<times> admin_context" where
  "set_motd e body x =
     (if length body > MAX_MOTD_LENGTH
      then (ascii ''refus : annonce trop longue (max '' @ decimal_text MAX_MOTD_LENGTH @ ascii '' octets)'' @ [NEWLINE], x)
      else if \<not> validate_text_field body
      then (ascii ''refus : l'annonce doit etre de l'UTF-8 valide, sans caracteres de controle'' @ [NEWLINE], x)
      else let (now, x1) = admin_now x;
               (published, d) = publish_motd body now (ax_database x1);
               x2 = x1\<lparr>ax_database := d\<rparr>
           in if \<not> published then (WRITE_FAILED, x2)
              else (ascii ''annonce publiee, active des la prochaine connexion'' @ [NEWLINE],
                    admin_log e (ascii ''MOTD modifie par l'administration'') x2))"

definition clear_motd :: "handler_env \<Rightarrow> admin_context \<Rightarrow> bytes \<times> admin_context" where
  "clear_motd e x =
     (let (cleared, d) = clear_active_motd (ax_database x); x1 = x\<lparr>ax_database := d\<rparr>
      in if \<not> cleared then (WRITE_FAILED, x1)
         else (ascii ''annonce desactivee'' @ [NEWLINE], admin_log e (ascii ''MOTD desactive par l'administration'') x1))"

definition run_motd_command :: "handler_env \<Rightarrow> admin_command \<Rightarrow> admin_context \<Rightarrow> bytes \<times> admin_context" where
  "run_motd_command e command x =
     (case ad_arguments command of
        [] \<Rightarrow> show_motd x
      | action # more_arguments \<Rightarrow>
          if action = ascii ''show'' then show_motd x
          else if action = ascii ''clear'' then clear_motd e x
          else if action = ascii ''set''
          then (case more_arguments of
                  [] \<Rightarrow> (ascii ''usage : motd set '' @ [QUOTE] @ ascii ''texte de l'annonce'' @ [QUOTE, NEWLINE], x)
                | body # _ \<Rightarrow> set_motd e body x)
          else (ascii ''usage : motd [show | set '' @ [QUOTE] @ ascii ''texte'' @ [QUOTE] @ ascii '' | clear]'' @ [NEWLINE], x))"

section \<open>Backup (\<open>database_backup.cpp\<close>, \<open>admin_backup_command.cpp\<close>)\<close>

text \<open>
  What the storage engine answers to the calls of a backup: the destination opens or not; with it
  open the copy is refused or not; and the copy completes or not. The texts are its error messages.
\<close>

datatype backup_outcome = Backup_not_opened | Backup_refused bytes | Backup_incomplete bytes | Backup_done

definition backup_database_to :: "backup_outcome \<Rightarrow> bytes \<Rightarrow> bytes option" where
  "backup_database_to outcome destination_path =
     (case outcome of
        Backup_not_opened \<Rightarrow> Some (ascii ''ouverture impossible de '' @ destination_path)
      | Backup_refused message \<Rightarrow> Some (ascii ''sauvegarde refusee par sqlite : '' @ message)
      | Backup_incomplete message \<Rightarrow> Some (ascii ''copie incomplete : '' @ message)
      | Backup_done \<Rightarrow> None)"

definition run_backup_command ::
  "handler_env \<Rightarrow> backup_outcome \<Rightarrow> admin_command \<Rightarrow> admin_context \<Rightarrow> bytes \<times> admin_context" where
  "run_backup_command e outcome command x =
     (case ad_arguments command of
        [] \<Rightarrow> (ascii ''usage : backup <chemin/de/sortie.db>'' @ [NEWLINE], x)
      | destination # _ \<Rightarrow>
          (case backup_database_to outcome destination of
             Some failure \<Rightarrow> (ascii ''echec : '' @ failure @ [NEWLINE], x)
           | None \<Rightarrow>
               (ascii ''sauvegarde ecrite : '' @ destination @ [NEWLINE] @ ascii ''Penser a sauvegarder aussi '' @
                pt_server_key_path (sc_paths (he_config e)) @
                ascii '' : sans elle, les clients refuseront de se reconnecter.'' @ [NEWLINE],
                admin_log e (ascii ''sauvegarde a chaud effectuee'') x)))"

section \<open>Reports (\<open>admin_reports_command.cpp\<close>)\<close>

definition REPORTS_LIST_LIMIT :: u16 where "REPORTS_LIST_LIMIT = 200"

definition report_line :: "report_row \<Rightarrow> bytes" where
  "report_line row =
     (let target = (if rr_kind row \<noteq> ascii ''post'' then take 16 (encode_hex (rr_target_pubkey row))
                    else int_text (rr_post_id row))
      in pad_right (int_text (rr_id row)) 6 @ pad_right (rr_kind row) 10 @ pad_right target 20 @
         pad_right (take 28 (rr_reason row)) 30 @ ascii ''#'' @ int_text (rr_reporter_id row) @ [NEWLINE])"

definition list_reports_text :: "admin_context \<Rightarrow> bytes \<times> admin_context" where
  "list_reports_text x =
     (case list_reports REPORTS_LIST_LIMIT (ax_database x) of
        (None, d) \<Rightarrow> (ascii ''echec : lecture des signalements impossible'' @ [NEWLINE], x\<lparr>ax_database := d\<rparr>)
      | (Some rows, d) \<Rightarrow>
          (if rows = [] then ascii ''(aucun signalement)'' @ [NEWLINE]
           else pad_right (ascii ''ID'') 6 @ pad_right (ascii ''TYPE'') 10 @ pad_right (ascii ''CIBLE'') 20 @
                pad_right (ascii ''MOTIF'') 30 @ ascii ''PAR'' @ [NEWLINE] @ concat (map report_line rows),
           x\<lparr>ax_database := d\<rparr>))"

definition parse_report_id :: "bytes \<Rightarrow> int option" where
  "parse_report_id characters = from_chars (- (2 ^ 63)) (2 ^ 63 - 1) characters"

definition clear_report_text :: "handler_env \<Rightarrow> bytes \<Rightarrow> admin_context \<Rightarrow> bytes \<times> admin_context" where
  "clear_report_text e argument x =
     (case parse_report_id argument of
        None \<Rightarrow> (ascii ''usage : reports clear <id>'' @ [NEWLINE], x)
      | Some i \<Rightarrow>
          let (cleared, d) = clear_report i (ax_database x); x1 = x\<lparr>ax_database := d\<rparr>
          in if \<not> cleared then (ascii ''echec : signalement introuvable ou deja classe'' @ [NEWLINE], x1)
             else (ascii ''signalement '' @ argument @ ascii '' classe'' @ [NEWLINE],
                   admin_log e (ascii ''signalement classe par l'administration'') x1))"

definition delete_reported_post :: "handler_env \<Rightarrow> bytes \<Rightarrow> admin_context \<Rightarrow> bytes \<times> admin_context" where
  "delete_reported_post e argument x =
     (case parse_report_id argument of
        None \<Rightarrow> (ascii ''usage : reports delete-post <post_id>'' @ [NEWLINE], x)
      | Some post_id \<Rightarrow>
          let (now, x1) = admin_now x;
              (deleted, d) = admin_delete_post post_id now (ax_database x1);
              x2 = x1\<lparr>ax_database := d\<rparr>
          in if \<not> deleted then (ascii ''echec : post introuvable ou deja supprime'' @ [NEWLINE], x2)
             else (ascii ''post '' @ argument @ ascii '' supprime'' @ [NEWLINE],
                   admin_log e (ascii ''post supprime par l'administration suite a un signalement'') x2))"

definition run_reports_command :: "handler_env \<Rightarrow> admin_command \<Rightarrow> admin_context \<Rightarrow> bytes \<times> admin_context" where
  "run_reports_command e command x =
     (case ad_arguments command of
        [] \<Rightarrow> list_reports_text x
      | action # more_arguments \<Rightarrow>
          if action = ascii ''list'' then list_reports_text x
          else if action = ascii ''clear'' \<and> more_arguments \<noteq> [] then clear_report_text e (hd more_arguments) x
          else if action = ascii ''delete-post'' \<and> more_arguments \<noteq> [] then delete_reported_post e (hd more_arguments) x
          else (ascii ''usage : reports [list | clear <id> | delete-post <post_id>]'' @ [NEWLINE], x))"

section \<open>Bans (\<open>admin_ban_command.cpp\<close>)\<close>

definition decode_pubkey :: "bytes \<Rightarrow> bytes option" where
  "decode_pubkey characters =
     (case decode_hex characters of
        None \<Rightarrow> None
      | Some decoded \<Rightarrow> if length decoded \<noteq> PUBLIC_KEY_SIZE then None else Some decoded)"

definition run_ban_command ::
  "handler_env \<Rightarrow> admin_command \<Rightarrow> bool \<Rightarrow> admin_context \<Rightarrow> bytes \<times> admin_context" where
  "run_ban_command e command banned x =
     (case ad_arguments command of
        [] \<Rightarrow> (ascii ''usage : '' @ (if banned then ascii ''ban'' else ascii ''unban'') @ ascii '' <cle_publique_hex>'' @ [NEWLINE], x)
      | argument # _ \<Rightarrow>
          (case decode_pubkey argument of
             None \<Rightarrow> (ascii ''cle publique invalide : 64 caracteres hexadecimaux attendus'' @ [NEWLINE], x)
           | Some pubkey \<Rightarrow>
               (case find_user_by_pubkey pubkey (ax_database x) of
                  (None, d) \<Rightarrow> (ascii ''aucun compte pour cette cle'' @ [NEWLINE], x\<lparr>ax_database := d\<rparr>)
                | (Some target, d) \<Rightarrow>
                    let (written, d1) = set_banned (ur_id target) banned d; x1 = x\<lparr>ax_database := d1\<rparr>
                    in if \<not> written then (WRITE_FAILED, x1)
                       else (ascii ''@'' @ ur_handle target @ (if banned then ascii '' banni'' else ascii '' reintegre'') @ [NEWLINE],
                             admin_log e ((if banned then ascii ''compte banni'' else ascii ''compte reintegre'') @
                               ascii '' par l'administration'') x1))))"

section \<open>The dispatcher (\<open>admin_dispatcher.cpp\<close>)\<close>

definition build_help :: bytes where
  "build_help = concat (map (\<lambda>line. line @ [NEWLINE])
     [ascii ''commandes disponibles'',
      ascii ''  stats                      etat du serveur et volumetrie'',
      ascii ''  sessions [list]            connexions en cours'',
      ascii ''  sessions close <descr>     ferme une connexion'',
      ascii ''  motd [show]                annonce en cours'',
      ascii ''  motd set '' @ [QUOTE] @ ascii ''texte'' @ [QUOTE] @ ascii ''           publie une annonce'',
      ascii ''  motd clear                 desactive l'annonce'',
      ascii ''  backup <chemin>            sauvegarde a chaud de la base'',
      ascii ''  reports [list]             signalements en attente'',
      ascii ''  reports clear <id>         classe un signalement'',
      ascii ''  reports delete-post <id>   supprime le post signale'',
      ascii ''  ban <cle_hex>              revoque l'authentification d'un compte'',
      ascii ''  unban <cle_hex>            restaure l'authentification'',
      ascii ''  help                       cette liste'',
      [],
      ascii ''Non implemente : le rechargement a chaud de la configuration.'',
      ascii ''Changer un listener demanderait de le reouvrir sous les connexions'',
      ascii ''en cours ; tant que ce n'est pas traite proprement, il faut'',
      ascii ''redemarrer le serveur.''])"

text \<open>The answer, the descriptors to close, and the context.\<close>

definition execute_admin_command ::
  "handler_env \<Rightarrow> backup_outcome \<Rightarrow> admin_command \<Rightarrow> admin_context \<Rightarrow> bytes \<times> int list \<times> admin_context" where
  "execute_admin_command e outcome command x =
     (let verb = ad_verb command; only = (\<lambda>(r :: bytes, x1). (r, [] :: int list, x1))
      in if verb = ascii ''stats'' then only (run_stats_command e x)
         else if verb = ascii ''sessions'' then run_sessions_command e command x
         else if verb = ascii ''motd'' then only (run_motd_command e command x)
         else if verb = ascii ''backup'' then only (run_backup_command e outcome command x)
         else if verb = ascii ''reports'' then only (run_reports_command e command x)
         else if verb = ascii ''ban'' then only (run_ban_command e command True x)
         else if verb = ascii ''unban'' then only (run_ban_command e command False x)
         else if verb = ascii ''help'' then (build_help, [], x)
         else (ascii ''commande inconnue : '' @ verb @ [NEWLINE] @ ascii ''Taper help.'' @ [NEWLINE], [], x))"

section \<open>The service (\<open>admin_service.cpp\<close>)\<close>

definition MAX_REQUEST_BYTES :: nat where "MAX_REQUEST_BYTES = 4096"

record admin_connection =
  am_input :: bytes
  am_output :: bytes
  am_response_ready :: bool

definition new_admin_connection :: admin_connection where
  "new_admin_connection = \<lparr>am_input = [], am_output = [], am_response_ready = False\<rparr>"

type_synonym admin_service = "(int \<times> admin_connection) list"

text \<open>\<^verbatim>\<open>recv\<close> below zero, for whatever reason, ends the loop with success.\<close>

fun read_into_buffer :: "recv_result list \<Rightarrow> bytes \<Rightarrow> (bool \<times> bytes) option" where
  "read_into_buffer [] buffer = None"
| "read_into_buffer (Received chunk # rs) buffer =
     (if length buffer + length chunk > MAX_REQUEST_BYTES then Some (False, buffer)
      else read_into_buffer rs (buffer @ chunk))"
| "read_into_buffer (Recv_end # rs) buffer = Some (False, buffer)"
| "read_into_buffer (r # rs) buffer = Some (True, buffer)"

fun flush_buffer :: "send_result list \<Rightarrow> bytes \<Rightarrow> (bool \<times> bytes) option" where
  "flush_buffer rs buffer =
     (if buffer = [] then Some (False, [])
      else case rs of
        [] \<Rightarrow> None
      | Sent n # rs' \<Rightarrow> flush_buffer rs' (drop n buffer)
      | _ \<Rightarrow> Some (True, buffer))"

declare flush_buffer.simps [simp del]

definition build_response ::
  "handler_env \<Rightarrow> backup_outcome \<Rightarrow> admin_connection \<Rightarrow> admin_context \<Rightarrow>
    admin_connection \<times> int list \<times> admin_context" where
  "build_response e outcome c x =
     (if NEWLINE \<notin> set (am_input c) then (c, [], x)
      else let line = takeWhile (\<lambda>b. b \<noteq> NEWLINE) (am_input c);
               (answer, close_requests, x1) =
                 (case parse_admin_command line of
                    None \<Rightarrow> (ascii ''commande vide ou guillemet non ferme'' @ [NEWLINE], [], x)
                  | Some command \<Rightarrow> execute_admin_command e outcome command x)
           in (\<lparr>am_input = [], am_output = answer, am_response_ready = True\<rparr>, close_requests, x1))"

text \<open>\<^verbatim>\<open>accept_admin_connections\<close>, for one accepted descriptor: \<open>watched\<close> is what the loop answers.\<close>

definition accept_admin_connection :: "admin_service \<Rightarrow> int \<Rightarrow> bool \<Rightarrow> admin_service" where
  "accept_admin_connection service accepted watched =
     (let service1 = (if accepted \<in> fst ` set service then service
                      else (accepted, new_admin_connection) # service)
      in if watched then service1 else filter (\<lambda>(d, _). d \<noteq> accepted) service1)"

definition owns_admin_descriptor :: "admin_service \<Rightarrow> int \<Rightarrow> bool" where
  "owns_admin_descriptor service descriptor \<longleftrightarrow> map_of service descriptor \<noteq> None"

definition close_admin_connection :: "admin_service \<Rightarrow> int \<Rightarrow> admin_service" where
  "close_admin_connection service descriptor = filter (\<lambda>(d, _). d \<noteq> descriptor) service"

definition put_admin_connection :: "admin_service \<Rightarrow> int \<Rightarrow> admin_connection \<Rightarrow> admin_service" where
  "put_admin_connection service descriptor c = map (\<lambda>(d, c'). (d, if d = descriptor then c else c')) service"

text \<open>The part after the answer is ready: write, and close as soon as nothing is left.\<close>

definition finish_admin_response ::
  "send_result list \<Rightarrow> bool \<Rightarrow> admin_service \<Rightarrow> int \<Rightarrow> admin_connection \<Rightarrow> admin_service option" where
  "finish_admin_response sends watched service descriptor c =
     (case flush_buffer sends (am_output c) of
        None \<Rightarrow> None
      | Some (has_remaining, output) \<Rightarrow>
          Some (if \<not> has_remaining \<or> \<not> watched then close_admin_connection service descriptor
                else put_admin_connection service descriptor (c\<lparr>am_output := output\<rparr>)))"

definition service_admin_connection ::
  "handler_env \<Rightarrow> backup_outcome \<Rightarrow> recv_result list \<Rightarrow> send_result list \<Rightarrow> bool \<Rightarrow> int \<Rightarrow>
    admin_service \<Rightarrow> admin_context \<Rightarrow> (admin_service \<times> int list \<times> admin_context) option" where
  "service_admin_connection e outcome recvs sends watched descriptor service x =
     (case map_of service descriptor of
        None \<Rightarrow> Some (service, [], x)
      | Some c \<Rightarrow>
          if am_response_ready c
          then map_option (\<lambda>service'. (service', [], x)) (finish_admin_response sends watched service descriptor c)
          else (case read_into_buffer recvs (am_input c) of
                  None \<Rightarrow> None
                | Some (False, input) \<Rightarrow> Some (close_admin_connection service descriptor, [], x)
                | Some (True, input) \<Rightarrow>
                    let (c1, close_requests, x1) = build_response e outcome (c\<lparr>am_input := input\<rparr>) x
                    in if \<not> am_response_ready c1
                       then Some (put_admin_connection service descriptor c1, close_requests, x1)
                       else map_option (\<lambda>service'. (service', close_requests, x1))
                              (finish_admin_response sends watched service descriptor c1)))"

end
