(* ===== verification/Admin_Properties.thy ===== *)
theory Admin_Properties
  imports Admin
begin

text \<open>
  What the administration interface can do: the changes a command may make to the stored data, what
  its listings reveal, the effect of a ban, and the command line.
\<close>

section \<open>The changes a command may make\<close>

inductive admin_change :: "tables \<Rightarrow> tables \<Rightarrow> bool" where
  ban: "admin_change t (t\<lparr>tb_users := map (\<lambda>u. if ur_id u = i then u\<lparr>ur_banned := b\<rparr> else u) (tb_users t)\<rparr>)"
| withdraw: "deactivate_motd t = Some (v, t') \<Longrightarrow> admin_change t t'"
| announce: "insert_motd body now t = Some (v, t') \<Longrightarrow> text_ok MAX_MOTD_LENGTH body \<Longrightarrow> admin_change t t'"
| close_report: "admin_change t (t\<lparr>tb_reports := filter (\<lambda>r. re_id r \<noteq> i) (tb_reports t)\<rparr>)"
| delete_post: "blank_posts (\<lambda>p. po_id p = i \<and> po_deleted_at p = None) now t = Some (n, t') \<Longrightarrow> admin_change t t'"

lemma admin_change_keeps: "admin_change t t' \<Longrightarrow> tables_ok t \<Longrightarrow> tables_ok t'"
proof (induction rule: admin_change.induct)
  case (ban t i b)
  then show ?case by (blast intro: update_banned.keeps)
next
  case (close_report t i)
  then show ?case by (blast intro: clear_report.keeps)
qed (blast intro: deactivate_motd.keeps insert_motd.keeps blank_posts.keeps)+

text \<open>A post after its deletion by the administration, if it was not deleted before.\<close>

definition blanked :: "post_row \<Rightarrow> post_row \<Rightarrow> bool" where
  "blanked p p' \<longleftrightarrow> p' = p \<or>
     po_deleted_at p = None \<and> (\<exists>now. p' = p\<lparr>po_title := [], po_body := [], po_deleted_at := Some now\<rparr>)"

definition admin_scope :: "tables \<Rightarrow> tables \<Rightarrow> bool" where
  "admin_scope t t' \<longleftrightarrow>
     map (\<lambda>u. (ur_id u, ur_pubkey u, ur_handle u)) (tb_users t') = map (\<lambda>u. (ur_id u, ur_pubkey u, ur_handle u)) (tb_users t) \<and>
     list_all2 blanked (tb_posts t) (tb_posts t') \<and>
     set (tb_reports t') \<subseteq> set (tb_reports t) \<and>
     tb_prekeys t' = tb_prekeys t \<and> tb_forums t' = tb_forums t \<and> tb_comments t' = tb_comments t \<and>
     tb_profiles t' = tb_profiles t \<and> tb_friends t' = tb_friends t \<and> tb_top8 t' = tb_top8 t \<and>
     tb_envelopes t' = tb_envelopes t"

lemma blanked_refl: "blanked p p" and blanked_trans: "blanked p p1 \<Longrightarrow> blanked p1 p2 \<Longrightarrow> blanked p p2"
  by (auto simp: blanked_def)

lemma admin_scope_refl: "admin_scope t t"
  by (simp add: admin_scope_def list_all2_refl blanked_refl)

lemma admin_scope_trans: "admin_scope t t1 \<Longrightarrow> admin_scope t1 t2 \<Longrightarrow> admin_scope t t2"
  unfolding admin_scope_def by (auto intro: list_all2_trans [OF blanked_trans])

lemma admin_change_scope: "admin_change t t' \<Longrightarrow> admin_scope t t'"
proof (induction rule: admin_change.induct)
  case (delete_post i now t n t')
  have "list_all2 blanked ps (map (\<lambda>p. if po_id p = i \<and> po_deleted_at p = None
      then p\<lparr>po_title := [], po_body := [], po_deleted_at := Some now\<rparr> else p) ps)" for ps
    by (induction ps) (auto simp: blanked_def)
  with delete_post show ?case by (auto simp: admin_scope_def blank_posts_def)
qed (auto simp: admin_scope_def list_all2_refl blanked_refl deactivate_motd_def insert_motd_def Let_def
    split: if_splits)

lemma admin_changes_scope: "changes admin_change d d' \<Longrightarrow> admin_scope (db_tables d) (db_tables d')"
  by (rule changes_respects [OF admin_scope_refl admin_scope_trans admin_change_scope])

lemma admin_scope_persists: "admin_scope t t' \<Longrightarrow> users_persist t t'"
proof -
  assume "admin_scope t t'"
  then have "set (map (\<lambda>u. (ur_id u, ur_pubkey u, ur_handle u)) (tb_users t')) =
      set (map (\<lambda>u. (ur_id u, ur_pubkey u, ur_handle u)) (tb_users t))"
    by (simp add: admin_scope_def)
  then have "(ur_id u, ur_pubkey u, ur_handle u) \<in> (\<lambda>u. (ur_id u, ur_pubkey u, ur_handle u)) ` set (tb_users t')"
    if "u \<in> set (tb_users t)" for u using that by simp
  then show ?thesis unfolding users_persist_def by fastforce
qed

section \<open>Commands\<close>

text \<open>The contract of a command: changes within the scope, the registry as it was.\<close>

definition administers :: "admin_context \<Rightarrow> admin_context \<Rightarrow> bool" where
  "administers x x' \<longleftrightarrow> changes admin_change (ax_database x) (ax_database x') \<and>
     ax_registry x' = ax_registry x \<and> ax_started_at x' = ax_started_at x"

lemma administers_refl: "administers x x"
  by (simp add: administers_def changes_refl)

lemma administers_trans: "administers x x1 \<Longrightarrow> administers x1 x2 \<Longrightarrow> administers x x2"
  unfolding administers_def by (auto intro: changes_trans)

lemma administers_log: "administers x (admin_log e m y) \<longleftrightarrow> administers x y"
  by (simp add: administers_def admin_log_def)

lemma admin_now_frame:
  "ax_database (snd (admin_now x)) = ax_database x" "ax_registry (snd (admin_now x)) = ax_registry x"
  "ax_started_at (snd (admin_now x)) = ax_started_at x"
  by (auto simp: admin_now_def split: list.splits)

lemma administers_now: "administers (snd (admin_now x)) y \<longleftrightarrow> administers x y"
  by (simp add: administers_def admin_now_frame)

lemma administers_database: "changes admin_change (ax_database x) d \<Longrightarrow> administers x (x\<lparr>ax_database := d\<rparr>)"
  by (simp add: administers_def)

lemma administers_reads: "reads_only f \<Longrightarrow> administers x (x\<lparr>ax_database := snd (f (ax_database x))\<rparr>)"
  by (auto simp: reads_only_def intro!: administers_database changes_same)

lemma reads_counts: "reads_only collect_counts"
  by (auto simp: reads_only_def collect_counts_def count_rows_def case_prod_beta split: option.splits)

lemma reads_reports: "reads_only (list_reports n)"
  by (simp add: reads_only_def list_reports_def)

lemma admin_writes:
  "changes admin_change d (snd (set_banned i b d))"
  "changes admin_change d (snd (clear_active_motd d))"
  "text_ok MAX_MOTD_LENGTH body \<Longrightarrow> changes admin_change d (snd (publish_motd body now d))"
  "changes admin_change d (snd (clear_report i d))"
  "changes admin_change d (snd (admin_delete_post i now d))"
proof -
  show "changes admin_change d (snd (set_banned i b d))"
    unfolding set_banned_def by (auto simp: case_prod_beta intro!: step_write_changes admin_change.ban)
  show "changes admin_change d (snd (clear_active_motd d))"
    unfolding clear_active_motd_def by (auto simp: case_prod_beta intro!: step_write_changes admin_change.withdraw)
  show "changes admin_change d (snd (clear_report i d))"
    unfolding clear_report_def by (auto simp: case_prod_beta intro!: step_write_changes admin_change.close_report)
  show "text_ok MAX_MOTD_LENGTH body \<Longrightarrow> changes admin_change d (snd (publish_motd body now d))"
    unfolding publish_motd_def by (rule in_transaction_changes) (auto intro: admin_change.intros)
  have "changes admin_change d (snd (step_write (blank_posts (\<lambda>p. po_id p = i \<and> po_deleted_at p = None) n) d))" for n
    by (rule step_write_changes) (blast intro: admin_change.delete_post)
  then show "changes admin_change d (snd (admin_delete_post i now d))"
    by (auto simp: admin_delete_post_def case_prod_beta split: option.splits)
qed

lemma run_motd_administers: "administers x (snd (run_motd_command e command x))"
proof -
  have "administers x (snd (show_motd x))"
    using administers_reads [OF reads_queries(8), of x]
    by (auto simp: show_motd_def case_prod_beta split: option.splits)
  moreover have "administers x (snd (clear_motd e x))"
    using administers_database [OF admin_writes(2), of x] by (simp add: clear_motd_def case_prod_beta administers_log Let_def)
  moreover have "administers x (snd (set_motd e body x))" for body
  proof (cases "text_ok MAX_MOTD_LENGTH body")
    case True
    let ?n = "admin_now x"
    have "administers x ((snd ?n)\<lparr>ax_database := snd (publish_motd body (fst ?n) (ax_database (snd ?n)))\<rparr>)"
      using administers_database [OF admin_writes(3) [OF True], of "snd ?n" "fst ?n"] by (simp add: administers_now)
    then show ?thesis using True
      by (simp add: set_motd_def text_ok_def case_prod_beta administers_log Let_def)
  qed (auto simp: set_motd_def text_ok_def administers_refl)
  ultimately show ?thesis
    by (auto simp: run_motd_command_def administers_refl split: list.splits)
qed

lemma run_reports_administers: "administers x (snd (run_reports_command e command x))"
proof -
  have "administers x (snd (list_reports_text x))"
    using administers_reads [OF reads_reports, of x]
    by (auto simp: list_reports_text_def case_prod_beta split: option.splits)
  moreover have "administers x (snd (clear_report_text e argument x))" for argument
    using administers_database [OF admin_writes(4), of x]
    by (auto simp: clear_report_text_def case_prod_beta administers_log administers_refl Let_def split: option.splits)
  moreover have "administers x (snd (delete_reported_post e argument x))" for argument
    using administers_database [OF admin_writes(5), of "snd (admin_now x)"]
    by (auto simp: delete_reported_post_def case_prod_beta administers_log administers_refl administers_now Let_def
        split: option.splits)
  ultimately show ?thesis
    by (auto simp: run_reports_command_def administers_refl split: list.splits)
qed

lemma run_ban_administers: "administers x (snd (run_ban_command e command banned x))"
proof -
  have "administers x (x\<lparr>ax_database := snd (set_banned i banned (snd (find_user_by_pubkey k (ax_database x))))\<rparr>)" for i k
    using reads_queries(1) [of k]
    by (intro administers_database changes_trans [OF changes_same admin_writes(1)]) (simp_all add: reads_only_def)
  then show ?thesis
    using administers_reads [OF reads_queries(1), of x]
    by (auto simp: run_ban_command_def case_prod_beta administers_refl administers_log Let_def
        split: list.splits option.splits)
qed

lemma run_sessions_administers:
  "run_sessions_command e command x = (answer, closing, x') \<Longrightarrow>
   administers x x' \<and> (\<forall>d\<in>set closing. find_connection (ax_registry x) d \<noteq> None)"
  using administers_now [of x "snd (admin_now x)"]
  by (auto simp: run_sessions_command_def list_sessions_def close_session_def administers_refl administers_log
      case_prod_beta Let_def split: list.splits option.splits if_splits)

lemma run_stats_administers: "administers x (snd (run_stats_command e x))"
  using administers_reads [OF reads_counts, of "snd (admin_now x)"]
  by (auto simp: run_stats_command_def Let_def administers_now case_prod_beta split: option.splits)

lemma run_backup_administers: "administers x (snd (run_backup_command e outcome command x))"
  by (auto simp: run_backup_command_def administers_refl administers_log split: list.splits option.splits)

lemma execute_administers:
  assumes "execute_admin_command e outcome command x = (answer, closing, x')"
  shows "administers x x'" and "\<forall>d\<in>set closing. find_connection (ax_registry x) d \<noteq> None"
proof -
  have "administers x x' \<and> (\<forall>d\<in>set closing. find_connection (ax_registry x) d \<noteq> None)"
    using assms run_sessions_administers [of e command x answer closing x'] run_stats_administers [of x e]
      run_motd_administers [of x e command] run_backup_administers [of x e outcome command]
      run_reports_administers [of x e command] run_ban_administers [of x e command True]
      run_ban_administers [of x e command False]
    by (auto simp: execute_admin_command_def Let_def administers_refl split: if_splits prod.splits)
  then show "administers x x'" "\<forall>d\<in>set closing. find_connection (ax_registry x) d \<noteq> None" by blast+
qed

section \<open>The reach of each command\<close>

text \<open>
  What each command may do to the tables, as section 7 of \<^verbatim>\<open>docs/ADMIN.md\<close> gives it: \<^verbatim>\<open>ban\<close> and
  \<^verbatim>\<open>unban\<close> write the flag of the one account with the given key; \<^verbatim>\<open>reports clear\<close> removes the
  report with the given number and \<^verbatim>\<open>reports delete-post\<close> empties the one post with the given
  number, unless it was deleted before; \<^verbatim>\<open>motd clear\<close> withdraws the announcement, and \<^verbatim>\<open>motd set\<close>
  withdraws it and adds the new one, a text that passed the checks. The transaction of the latter
  may be cut short by the storage engine between the two. Every other command leaves the tables
  alone.
\<close>

abbreviation mark_banned :: "bytes \<Rightarrow> bool \<Rightarrow> tables \<Rightarrow> tables" where
  "mark_banned k b t \<equiv> t\<lparr>tb_users := map (\<lambda>u. if ur_pubkey u = k then u\<lparr>ur_banned := b\<rparr> else u) (tb_users t)\<rparr>"

abbreviation withdraw_motd :: "tables \<Rightarrow> tables" where
  "withdraw_motd t \<equiv> t\<lparr>tb_motd := map (\<lambda>m. m\<lparr>mo_active := False\<rparr>) (tb_motd t)\<rparr>"

inductive command_reach :: "bytes \<Rightarrow> bytes list \<Rightarrow> tables \<Rightarrow> tables \<Rightarrow> bool" where
  nothing: "command_reach verb arguments t t"
| ban: "decode_pubkey key = Some k \<Longrightarrow>
    command_reach (ascii ''ban'') (key # rest) t (mark_banned k True t)"
| unban: "decode_pubkey key = Some k \<Longrightarrow>
    command_reach (ascii ''unban'') (key # rest) t (mark_banned k False t)"
| clear_report: "parse_report_id number = Some i \<Longrightarrow>
    command_reach (ascii ''reports'') (ascii ''clear'' # number # rest) t
      (t\<lparr>tb_reports := filter (\<lambda>r. re_id r \<noteq> i) (tb_reports t)\<rparr>)"
| delete_post: "parse_report_id number = Some i \<Longrightarrow>
    command_reach (ascii ''reports'') (ascii ''delete-post'' # number # rest) t
      (t\<lparr>tb_posts := map (\<lambda>p. if po_id p = i \<and> po_deleted_at p = None
        then p\<lparr>po_title := [], po_body := [], po_deleted_at := Some now\<rparr> else p) (tb_posts t)\<rparr>)"
| clear_motd: "command_reach (ascii ''motd'') (ascii ''clear'' # rest) t (withdraw_motd t)"
| set_motd_cut: "text_ok MAX_MOTD_LENGTH body \<Longrightarrow>
    command_reach (ascii ''motd'') (ascii ''set'' # body # rest) t (withdraw_motd t)"
| set_motd: "text_ok MAX_MOTD_LENGTH body \<Longrightarrow>
    insert_motd body now (withdraw_motd t) = Some (v, t') \<Longrightarrow>
    command_reach (ascii ''motd'') (ascii ''set'' # body # rest) t t'"

abbreviation reach_between :: "bytes \<Rightarrow> bytes list \<Rightarrow> admin_context \<Rightarrow> admin_context \<Rightarrow> bool" where
  "reach_between verb arguments x x' \<equiv>
     command_reach verb arguments (db_tables (ax_database x)) (db_tables (ax_database x'))"

lemma reach_log: "db_tables (ax_database (admin_log e m x)) = db_tables (ax_database x)"
  by (simp add: admin_log_def)

lemma reads_tables: "reads_only f \<Longrightarrow> db_tables (snd (f d)) = db_tables d"
  by (simp add: reads_only_def)

lemma step_write_tables:
  obtains "db_tables (snd (step_write effect d)) = db_tables d"
  | v t' where "effect (db_tables d) = Some (v, t')" "db_tables (snd (step_write effect d)) = t'"
proof -
  obtain r d' where p: "step_write effect d = (r, d')" by (rule prod.exhaust)
  show thesis using that step_write_cases(3,4) [OF p] p by (cases r) auto
qed

text \<open>A transaction leaves the tables after some first part of its statements.\<close>

lemma step_all_tables: "\<exists>n. apply_all (take n es) (db_tables d) = Some (db_tables (snd (step_all es d)))"
proof (induction es arbitrary: d)
  case (Cons e es)
  obtain r d' where p: "step_write e d = (r, d')" by (rule prod.exhaust)
  show ?case
  proof (cases r)
    case None
    then show ?thesis using step_write_cases(4) [OF p] p by (intro exI [of _ 0]) simp
  next
    case (Some v)
    from Cons.IH [of d'] obtain n where "apply_all (take n es) (db_tables d') = Some (db_tables (snd (step_all es d')))" ..
    then show ?thesis
      using step_write_cases(3) [OF p] p Some by (intro exI [of _ "Suc n"]) simp
  qed
qed simp

lemma in_transaction_tables:
  "\<exists>n. apply_all (take n es) (db_tables d) = Some (db_tables (snd (in_transaction es d)))"
proof -
  obtain b d1 where b: "begin_immediate d = (b, d1)" by (rule prod.exhaust)
  then have d1: "db_tables d1 = db_tables d" "b \<Longrightarrow> db_saved d1 = Some (db_tables d)"
    by (auto simp: begin_immediate_def pop_fault_def Let_def split: list.splits if_splits)
  obtain s d2 where s: "step_all es d1 = (s, d2)" by (rule prod.exhaust)
  have "db_tables (snd (in_transaction es d)) = db_tables d \<or> db_tables (snd (in_transaction es d)) = db_tables d2"
    using d1 step_all_cases [OF s]
    by (auto simp: in_transaction_def b s end_transaction_def pop_fault_def Let_def case_prod_beta
        split: bool.splits list.splits option.splits)
  then show ?thesis
  proof
    assume "db_tables (snd (in_transaction es d)) = db_tables d"
    then show ?thesis by (intro exI [of _ 0]) simp
  next
    assume "db_tables (snd (in_transaction es d)) = db_tables d2"
    then show ?thesis using step_all_tables [of es d1] d1(1) s by simp
  qed
qed

lemma publish_motd_tables:
  obtains "db_tables (snd (publish_motd body now d)) = db_tables d"
  | "db_tables (snd (publish_motd body now d)) = withdraw_motd (db_tables d)"
  | v where "insert_motd body (to_i64 now) (withdraw_motd (db_tables d)) =
      Some (v, db_tables (snd (publish_motd body now d)))"
proof -
  let ?es = "[deactivate_motd, insert_motd body (to_i64 now)]"
  obtain n where n: "apply_all (take n ?es) (db_tables d) = Some (db_tables (snd (publish_motd body now d)))"
    using in_transaction_tables [of ?es d] unfolding publish_motd_def by blast
  consider "n = 0" | "n = 1" | "n \<ge> 2" by linarith
  then show thesis
    using that n by cases (auto simp: deactivate_motd_def take_Cons' bind_eq_Some_conv)
qed

lemma run_motd_reach: "reach_between (ascii ''motd'') (ad_arguments command) x (snd (run_motd_command e command x))"
proof -
  have shown: "db_tables (ax_database (snd (show_motd x))) = db_tables (ax_database x)"
    using reads_tables [OF reads_queries(8)] by (auto simp: show_motd_def case_prod_beta split: option.splits)
  have clear: "reach_between (ascii ''motd'') (ascii ''clear'' # rest) x (snd (clear_motd e x))" for rest
    by (rule step_write_tables [of deactivate_motd "ax_database x"])
      (auto simp: clear_motd_def clear_active_motd_def case_prod_beta reach_log Let_def deactivate_motd_def
        intro: command_reach.intros)
  have set: "reach_between (ascii ''motd'') (ascii ''set'' # body # rest) x (snd (set_motd e body x))" for body rest
  proof (cases "text_ok MAX_MOTD_LENGTH body")
    case True
    let ?n = "admin_now x"
    have t: "db_tables (ax_database (snd (set_motd e body x))) =
        db_tables (snd (publish_motd body (fst ?n) (ax_database x)))"
      using True by (simp add: set_motd_def text_ok_def case_prod_beta reach_log Let_def admin_now_frame)
    show ?thesis unfolding t
      by (rule publish_motd_tables [of body "fst ?n" "ax_database x"])
        (auto intro: command_reach.nothing command_reach.set_motd_cut [OF True] command_reach.set_motd [OF True])
  qed (auto simp: set_motd_def text_ok_def command_reach.nothing)
  show ?thesis
    using shown clear set by (auto simp: run_motd_command_def command_reach.nothing split: list.splits)
qed

lemma run_reports_reach: "reach_between (ascii ''reports'') (ad_arguments command) x (snd (run_reports_command e command x))"
proof -
  have list: "db_tables (ax_database (snd (list_reports_text x))) = db_tables (ax_database x)"
    using reads_tables [OF reads_reports] by (auto simp: list_reports_text_def case_prod_beta split: option.splits)
  have clear: "reach_between (ascii ''reports'') (ascii ''clear'' # number # rest) x (snd (clear_report_text e number x))"
    for number rest
  proof (cases "parse_report_id number")
    case (Some i)
    let ?effect = "\<lambda>t. Some ((), t\<lparr>tb_reports := filter (\<lambda>r. re_id r \<noteq> i) (tb_reports t)\<rparr>)"
    have t: "db_tables (ax_database (snd (clear_report_text e number x))) =
        db_tables (snd (step_write ?effect (ax_database x)))"
      using Some by (simp add: clear_report_text_def clear_report_def case_prod_beta reach_log Let_def)
    show ?thesis unfolding t
      by (rule step_write_tables [of ?effect "ax_database x"]) (use Some in \<open>auto intro: command_reach.intros\<close>)
  qed (simp add: clear_report_text_def command_reach.nothing)
  have delete: "reach_between (ascii ''reports'') (ascii ''delete-post'' # number # rest) x (snd (delete_reported_post e number x))"
    for number rest
  proof (cases "parse_report_id number")
    case (Some i)
    let ?blank = "blank_posts (\<lambda>p. po_id p = i \<and> po_deleted_at p = None) (to_i64 (fst (admin_now x)))"
    have t: "db_tables (ax_database (snd (delete_reported_post e number x))) =
        db_tables (snd (step_write ?blank (ax_database x)))"
      using Some by (auto simp: delete_reported_post_def admin_delete_post_def case_prod_beta reach_log Let_def
          admin_now_frame split: option.splits)
    show ?thesis unfolding t
      by (rule step_write_tables [of ?blank "ax_database x"])
        (use Some in \<open>auto simp: blank_posts_def intro: command_reach.intros\<close>)
  qed (simp add: delete_reported_post_def command_reach.nothing)
  show ?thesis
    using list clear delete
    by (auto simp: run_reports_command_def command_reach.nothing neq_Nil_conv split: list.splits)
qed

lemma unique_key:
  assumes "tables_ok t" and "u \<in> set (tb_users t)" and "v \<in> set (tb_users t)" and "ur_pubkey u = ur_pubkey v"
  shows "u = v"
proof -
  have "distinct (map ur_pubkey (tb_users t))" using assms(1) by (simp add: tables_ok_def users_ok_def)
  then show ?thesis using assms(2-4) by (auto simp: distinct_map inj_on_def)
qed

lemma unique_id:
  assumes "tables_ok t" and "u \<in> set (tb_users t)" and "v \<in> set (tb_users t)" and "ur_id u = ur_id v"
  shows "u = v"
proof -
  have "sorted_wrt (<) (map ur_id (tb_users t))"
    using assms(1) by (simp add: tables_ok_def users_ok_def ids_ok_def)
  then have "distinct (map ur_id (tb_users t))" by (simp add: strict_sorted_iff)
  then show ?thesis using assms(2-4) by (auto simp: distinct_map inj_on_def)
qed

lemma run_ban_reach:
  assumes ok: "tables_ok (db_tables (ax_database x))"
  obtains "db_tables (ax_database (snd (run_ban_command e command b x))) = db_tables (ax_database x)"
  | key rest k where "ad_arguments command = key # rest" "decode_pubkey key = Some k"
    "db_tables (ax_database (snd (run_ban_command e command b x))) = mark_banned k b (db_tables (ax_database x))"
proof -
  let ?t = "db_tables (ax_database x)" and ?x = "snd (run_ban_command e command b x)"
  note found = reads_tables [OF reads_queries(1)]
  show thesis
  proof (cases "\<exists>key rest k u. ad_arguments command = key # rest \<and> decode_pubkey key = Some k \<and>
      fst (find_user_by_pubkey k (ax_database x)) = Some u")
    case True
    then obtain key rest k u where c: "ad_arguments command = key # rest" "decode_pubkey key = Some k"
      and f: "fst (find_user_by_pubkey k (ax_database x)) = Some u" by blast
    have u: "u \<in> set (tb_users ?t)" "ur_pubkey u = k"
      using f pop_fault_facts(1) [of "ax_database x"]
      by (auto simp: find_user_by_pubkey_def step_read_def read_user_row_def case_prod_beta bind_eq_Some_conv
          dest!: user_by_pubkey_Some split: if_splits)
    have same: "map (\<lambda>w. if ur_id w = ur_id u then w\<lparr>ur_banned := b\<rparr> else w) (tb_users ?t) =
        map (\<lambda>w. if ur_pubkey w = k then w\<lparr>ur_banned := b\<rparr> else w) (tb_users ?t)"
      using unique_id [OF ok _ u(1)] unique_key [OF ok _ u(1)] u(2) by (intro map_cong) auto
    let ?effect = "\<lambda>t. Some ((), t\<lparr>tb_users := map (\<lambda>w. if ur_id w = ur_id u then w\<lparr>ur_banned := b\<rparr> else w) (tb_users t)\<rparr>)"
    have x': "db_tables (ax_database ?x) =
        db_tables (snd (step_write ?effect (snd (find_user_by_pubkey k (ax_database x)))))"
      using c f by (auto simp: run_ban_command_def set_banned_def case_prod_beta reach_log Let_def split: option.splits)
    show thesis
      by (rule step_write_tables [of ?effect "snd (find_user_by_pubkey k (ax_database x))"])
        (use that c x' same found in auto)
  next
    case False
    then have "db_tables (ax_database ?x) = ?t"
      using found by (auto simp: run_ban_command_def case_prod_beta split: list.splits option.splits)
    then show thesis by (rule that)
  qed
qed

lemma run_bans_reach:
  assumes "tables_ok (db_tables (ax_database x))"
  shows "reach_between (ascii ''ban'') (ad_arguments command) x (snd (run_ban_command e command True x))"
    and "reach_between (ascii ''unban'') (ad_arguments command) x (snd (run_ban_command e command False x))"
  by (rule run_ban_reach [OF assms, of e command True]; auto intro: command_reach.intros)
    (rule run_ban_reach [OF assms, of e command False]; auto intro: command_reach.intros)

lemma quiet_commands_reach:
  "db_tables (ax_database (snd (run_stats_command e x))) = db_tables (ax_database x)"
  "db_tables (ax_database (snd (run_backup_command e outcome command x))) = db_tables (ax_database x)"
  "db_tables (ax_database (snd (snd (run_sessions_command e command x)))) = db_tables (ax_database x)"
proof -
  show "db_tables (ax_database (snd (run_stats_command e x))) = db_tables (ax_database x)"
    using reads_tables [OF reads_counts]
    by (auto simp: run_stats_command_def Let_def case_prod_beta admin_now_frame split: option.splits)
  show "db_tables (ax_database (snd (run_backup_command e outcome command x))) = db_tables (ax_database x)"
    by (auto simp: run_backup_command_def reach_log split: list.splits option.splits)
  show "db_tables (ax_database (snd (snd (run_sessions_command e command x)))) = db_tables (ax_database x)"
    by (auto simp: run_sessions_command_def list_sessions_def close_session_def reach_log admin_now_frame
        case_prod_beta Let_def split: list.splits option.splits if_splits)
qed

lemma execute_reach:
  assumes "tables_ok (db_tables (ax_database x))"
  shows "reach_between (ad_verb command) (ad_arguments command) x (snd (snd (execute_admin_command e outcome command x)))"
  using run_motd_reach [of command x e] run_reports_reach [of command x e] run_bans_reach [OF assms, of command e]
  by (auto simp: execute_admin_command_def Let_def case_prod_beta quiet_commands_reach command_reach.nothing)

text \<open>The descriptors a command asks to close.\<close>

definition closure_named :: "admin_command \<Rightarrow> connection_registry \<Rightarrow> int list" where
  "closure_named command registry =
     (case ad_arguments command of
        action # number # rest \<Rightarrow>
          (case from_chars (- (2 ^ 31)) (2 ^ 31 - 1) number of
             Some d \<Rightarrow> if ad_verb command = ascii ''sessions'' \<and> action = ascii ''close'' \<and>
                 find_connection registry d \<noteq> None then [d] else []
           | None \<Rightarrow> [])
      | _ \<Rightarrow> [])"

lemma execute_closes:
  "fst (snd (execute_admin_command e outcome command x)) = closure_named command (ax_registry x)"
proof -
  have "ascii ''list'' \<noteq> ascii ''close''" "ascii ''stats'' \<noteq> ascii ''sessions''" by (simp_all add: ascii_def)
  then show ?thesis
    by (auto simp: execute_admin_command_def run_sessions_command_def list_sessions_def close_session_def
        closure_named_def case_prod_beta Let_def split: list.splits option.splits)
qed

text \<open>
  C10. The reach of the administration. Whatever command is given, and however the storage engine
  fails under it, the stored data keep their invariant and change at most as the documentation of
  that very command says: a ban or its end writes the flag of the account with the given key and
  nothing else, the closing of a report touches that report only, the deletion of a post that post
  only, an announcement replaces the announcement only, and all other commands change nothing. A
  command closes no connection itself; it asks for the closure of the connection that
  \<^verbatim>\<open>sessions close\<close> names, if there is one, and of no other.
\<close>

theorem admin_stays_in_scope:
  assumes "database_ok (ax_database x)" and "execute_admin_command e outcome command x = (answer, closing, x')"
  shows "database_ok (ax_database x') \<and>
    command_reach (ad_verb command) (ad_arguments command) (db_tables (ax_database x)) (db_tables (ax_database x')) \<and>
    ax_registry x' = ax_registry x \<and> closing = closure_named command (ax_registry x)"
proof -
  have "administers x x'" by (rule execute_administers [OF assms(2)])
  then have c: "changes admin_change (ax_database x) (ax_database x')" and "ax_registry x' = ax_registry x"
    by (simp_all add: administers_def)
  moreover have "tables_ok (db_tables (ax_database x))" using assms(1) by (simp add: database_ok_def)
  ultimately show ?thesis
    using changes_keeps [OF admin_change_keeps c assms(1)] execute_reach [of x command e outcome]
      execute_closes [of e outcome command x] assms(2) by simp
qed

definition sample_admin :: admin_context where
  "sample_admin = \<lparr>ax_logger = hc_logger (sample_context [] new_session),
     ax_database = hc_database (sample_context [sample_user] new_session),
     ax_registry = new_registry default_limits, ax_started_at = 0, ax_clock = [5]\<rparr>"

definition sample_ban :: admin_command where
  "sample_ban = \<lparr>ad_verb = ascii ''ban'', ad_arguments = [encode_hex (replicate 32 7)]\<rparr>"

lemma sample_admin_database:
  "ax_database sample_admin = \<lparr>db_tables = empty_tables\<lparr>tb_users := [sample_user], tb_user_seq := 1\<rparr>,
     db_saved = None, db_faults = []\<rparr>"
  by (simp add: sample_admin_def sample_context_simps)

lemma sample_admin_ok: "database_ok (ax_database sample_admin)"
  by (simp add: sample_admin_database database_ok_def sample_tables_ok)

text \<open>A ban of the only account of a small server.\<close>

theorem admin_stays_in_scope_witness:
  "tb_users (db_tables (ax_database (snd (snd (execute_admin_command sample_env Backup_done sample_ban sample_admin))))) \<in>
     {[sample_user], [sample_user\<lparr>ur_banned := True\<rparr>]} \<and>
   fst (snd (execute_admin_command sample_env Backup_done sample_ban sample_admin)) = []"
proof -
  obtain answer closing x' where x: "execute_admin_command sample_env Backup_done sample_ban sample_admin =
      (answer, closing, x')" by (metis prod_cases3)
  have "ascii ''ban'' \<notin> {ascii ''unban'', ascii ''reports'', ascii ''motd'', ascii ''sessions''}"
    by (simp add: ascii_def)
  with admin_stays_in_scope [OF sample_admin_ok x]
  have "tb_users (db_tables (ax_database x')) \<in> {[sample_user], [sample_user\<lparr>ur_banned := True\<rparr>]} \<and> closing = []"
    by (auto simp: sample_ban_def sample_admin_database closure_named_def elim!: command_reach.cases
        split: if_splits)
  then show ?thesis by (simp add: x)
qed

section \<open>Bans\<close>

lemma user_by_pubkey_found:
  assumes "tables_ok t" and "u \<in> set (tb_users t)"
  shows "user_by_pubkey t (ur_pubkey u) = Some u"
proof -
  obtain v where v: "user_by_pubkey t (ur_pubkey u) = Some v"
    using assms(2) unfolding user_by_pubkey_def by (cases "find (\<lambda>v. ur_pubkey v = ur_pubkey u) (tb_users t)")
      (auto simp: find_None_iff)
  then show ?thesis using unique_key [OF assms(1), of u v] assms(2) user_by_pubkey_Some [OF v] by auto
qed

lemma move_users: "session_move e S t S' t' \<Longrightarrow> set (tb_users t) \<subseteq> set (tb_users t')"
proof (induction rule: session_move.induct)
  case (created S handle t i t1 S' t')
  have "t' = t1 \<or> upsert_profile i empty_profile t1 = Some ((), t')" using created(7) by blast
  from created_users [OF created(6) this] show ?case by auto
qed auto

lemma banned_stays_out:
  assumes "context_ok e s" and "run_state (route_message e type payload) s = (continues, s')"
    and "u \<in> set (tb_users (tables_of s))" and "ur_banned u" and "\<not> registered (session_of s)"
    and "st_announced_pubkey (session_of s') = ur_pubkey u"
  shows "\<not> registered (session_of s')"
proof
  assume r: "registered (session_of s')"
  have type: "session_message type" using within_facts(1) [OF _ assms(2)] assms(5) r by metis
  note m = session_moves [OF type, of e s payload, unfolded assms(2) snd_conv]
  have ok: "tables_ok (tables_of s)" "session_ok e (tables_of s) (session_of s)"
    using assms(1) by (auto simp: context_ok_def database_ok_def)
  obtain v where v: "v \<in> set (tb_users (tables_of s'))" "ur_pubkey v = ur_pubkey u" "\<not> ur_banned v"
    using move_entry(1) [OF m ok assms(5) r] assms(6) by auto
  have "u \<in> set (tb_users (tables_of s'))" using move_users [OF m] assms(3) by blast
  then show False using unique_key [OF move_keeps [OF m ok(1)] v(1)] v assms(4) by auto
qed

lemma ban_bans:
  assumes "tables_ok (db_tables (ax_database x))" and "no_faults (ax_database x)"
    and "u \<in> set (tb_users (db_tables (ax_database x)))"
  shows "\<exists>x'. run_ban_command e \<lparr>ad_verb = v, ad_arguments = [encode_hex (ur_pubkey u)]\<rparr> True x =
      (ascii ''@'' @ ur_handle u @ ascii '' banni'' @ [NEWLINE], x') \<and>
    u\<lparr>ur_banned := True\<rparr> \<in> set (tb_users (db_tables (ax_database x')))"
proof -
  let ?d = "ax_database x"
  have key: "length (ur_pubkey u) = PUBLIC_KEY_SIZE"
    using assms(1,3) by (auto simp: tables_ok_def users_ok_def)
  then have k: "decode_pubkey (encode_hex (ur_pubkey u)) = Some (ur_pubkey u)"
    by (simp add: decode_pubkey_def decode_hex_def decode_encode_hex_pairs)
  have q: "read_user_row u = Some u" using key by (simp add: read_user_row_def key_column_ok_def)
  obtain f d1 where p: "pop_fault ?d = (f, d1)" by fastforce
  have f: "\<not> f" "no_faults d1" "db_tables d1 = db_tables ?d"
    using pop_no_faults [OF assms(2)] p pop_fault_facts(1) [OF p] by auto
  have find: "find_user_by_pubkey (ur_pubkey u) ?d = (Some u, d1)"
    using f user_by_pubkey_found [OF assms(1,3)] q by (simp add: find_user_by_pubkey_def step_read_def p)
  let ?users = "map (\<lambda>w. if ur_id w = ur_id u then w\<lparr>ur_banned := True\<rparr> else w) (tb_users (db_tables ?d))"
  have w: "fst (set_banned (ur_id u) True d1)" "tb_users (db_tables (snd (set_banned (ur_id u) True d1))) = ?users"
    using pop_no_faults [OF f(2)] f(3) by (auto simp: set_banned_def step_write_def case_prod_beta)
  have "u\<lparr>ur_banned := True\<rparr> \<in> set ?users" using assms(3) by force
  then show ?thesis using k find w by (auto simp: run_ban_command_def case_prod_beta Let_def admin_log_def)
qed

text \<open>
  C11. A ban bans. On a storage engine that does not fail, \<^verbatim>\<open>ban\<close> with the hexadecimal key of an
  account answers that the account is banned; from then on no message, of any type and with any
  signature, lets a session that is not registered yet enter with that key, as long as the account
  is not reinstated, even when the storage engine fails.
\<close>

theorem ban_refuses_entry:
  assumes "database_ok (ax_database x)" and "no_faults (ax_database x)"
    and "u \<in> set (tb_users (db_tables (ax_database x)))"
    and "execute_admin_command e outcome \<lparr>ad_verb = ascii ''ban'', ad_arguments = [encode_hex (ur_pubkey u)]\<rparr> x =
      (answer, closing, x')"
  shows "answer = ascii ''@'' @ ur_handle u @ ascii '' banni'' @ [NEWLINE] \<and>
    (\<forall>s type payload continues s'. db_tables (hc_database s) = db_tables (ax_database x') \<longrightarrow> context_ok e s \<longrightarrow>
       \<not> registered (session_of s) \<longrightarrow> run_state (route_message e type payload) s = (continues, s') \<longrightarrow>
       st_announced_pubkey (session_of s') = ur_pubkey u \<longrightarrow> \<not> registered (session_of s'))"
proof -
  have ok: "tables_ok (db_tables (ax_database x))" using assms(1) by (simp add: database_ok_def)
  have verbs: "ascii ''ban'' \<notin> {ascii ''stats'', ascii ''sessions'', ascii ''motd'', ascii ''backup'', ascii ''reports''}"
    by (simp add: ascii_def)
  let ?c = "\<lparr>ad_verb = ascii ''ban'', ad_arguments = [encode_hex (ur_pubkey u)]\<rparr>"
  have "run_ban_command e ?c True x = (answer, x')"
    using assms(4) verbs by (auto simp: execute_admin_command_def Let_def split: prod.splits)
  then have "answer = ascii ''@'' @ ur_handle u @ ascii '' banni'' @ [NEWLINE]"
    and "u\<lparr>ur_banned := True\<rparr> \<in> set (tb_users (db_tables (ax_database x')))"
    using ban_bans [OF ok assms(2,3), of e "ascii ''ban''"] by auto
  then show ?thesis
    using banned_stays_out [where u = "u\<lparr>ur_banned := True\<rparr>"] by fastforce
qed

theorem ban_refuses_entry_witness:
  "fst (execute_admin_command sample_env Backup_done sample_ban sample_admin) = ascii ''@ banni'' @ [NEWLINE] \<and>
   \<not> registered (session_of (snd (run_state (route_message sample_env MT_auth_response
     (encode_with auth_response_write_to \<lparr>ar_signature = replicate 64 3\<rparr>))
     (sample_context [sample_user\<lparr>ur_banned := True\<rparr>]
       (new_session\<lparr>st_phase := Awaiting_auth, st_announced_pubkey := replicate 32 7\<rparr>)))))"
proof -
  let ?s = "sample_context [sample_user\<lparr>ur_banned := True\<rparr>]
       (new_session\<lparr>st_phase := Awaiting_auth, st_announced_pubkey := replicate 32 7\<rparr>)"
  let ?m = "route_message sample_env MT_auth_response (encode_with auth_response_write_to \<lparr>ar_signature = replicate 64 3\<rparr>)"
  obtain answer closing x' where x: "execute_admin_command sample_env Backup_done sample_ban sample_admin =
      (answer, closing, x')" by (metis prod_cases3)
  have u: "sample_user \<in> set (tb_users (db_tables (ax_database sample_admin)))" "ur_handle sample_user = []"
    by (simp_all add: sample_admin_database sample_user_def)
  have n: "no_faults (ax_database sample_admin)" by (simp add: sample_admin_database no_faults_def)
  have c: "sample_ban = \<lparr>ad_verb = ascii ''ban'', ad_arguments = [encode_hex (ur_pubkey sample_user)]\<rparr>"
    by (simp add: sample_ban_def sample_user_def)
  note p = ban_refuses_entry [OF sample_admin_ok n u(1) x [unfolded c]]
  have key: "decode_pubkey (encode_hex (replicate 32 7)) = Some (replicate 32 7)"
    by (simp add: decode_pubkey_def decode_hex_def decode_encode_hex_pairs)
  have "run_ban_command sample_env sample_ban True sample_admin = (answer, x')"
    using x by (auto simp: execute_admin_command_def sample_ban_def ascii_def Let_def split: prod.splits)
  then have "db_tables (ax_database x') = db_tables (hc_database ?s)"
    using key by (auto simp: run_ban_command_def sample_ban_def sample_admin_database find_user_by_pubkey_def step_read_def
        pop_fault_def user_by_pubkey_def read_user_row_def key_column_ok_def sample_user_def set_banned_def
        step_write_def sample_context_simps admin_log_def)
  moreover have "tables_ok (db_tables (hc_database ?s))"
    by (simp add: sample_context_simps tables_ok_def tables_ok_defs empty_tables_def ids_ok_def MAX_ROWID_def sample_user_def)
  then have "context_ok sample_env ?s"
    by (simp add: context_ok_def database_ok_def sample_context_simps session_ok_def socket_ok_def new_session_def new_socket_def)
  moreover have "\<not> registered (session_of ?s)" by (simp add: registered_def sample_context_simps)
  moreover have "st_announced_pubkey (session_of (snd (run_state ?m ?s))) = ur_pubkey sample_user"
    by (simp add: route_defs handle_auth_response_def run_bind run_get_session sample_context_simps
        auth_response.request_roundtrip auth_response_valid_def sample_env_def case_prod_beta
        find_user_by_pubkey_def step_read_def pop_fault_def user_by_pubkey_def sample_user_def
        read_user_row_def key_column_ok_def)
  moreover have "run_state ?m ?s = (fst (run_state ?m ?s), snd (run_state ?m ?s))" by simp
  ultimately have "\<not> registered (session_of (snd (run_state ?m ?s)))" using p by metis
  moreover have "answer = ascii ''@ banni'' @ [NEWLINE]" using p u(2) by (simp add: ascii_def)
  ultimately show ?thesis by (simp add: x)
qed

section \<open>What the listings reveal\<close>

definition with_sessions :: "(session_state \<Rightarrow> session_state) \<Rightarrow> admin_context \<Rightarrow> admin_context" where
  "with_sessions f x = x\<lparr>ax_registry := (ax_registry x)\<lparr>cg_connections :=
     map (\<lambda>(d, c). (d, c\<lparr>cn_session := f (cn_session c)\<rparr>)) (cg_connections (ax_registry x))\<rparr>\<rparr>"

lemma with_sessions_frame:
  "ax_database (with_sessions f x) = ax_database x" "ax_started_at (with_sessions f x) = ax_started_at x"
  "ax_clock (with_sessions f x) = ax_clock x" "ax_logger (with_sessions f x) = ax_logger x"
  "cg_connections (ax_registry (with_sessions f x)) =
     map (\<lambda>(d, c). (d, c\<lparr>cn_session := f (cn_session c)\<rparr>)) (cg_connections (ax_registry x))"
  by (simp_all add: with_sessions_def)

lemma with_sessions_find:
  "find_connection (ax_registry (with_sessions f x)) d = None \<longleftrightarrow> find_connection (ax_registry x) d = None"
  by (simp add: find_connection_def with_sessions_frame map_of_eq_None_iff image_image case_prod_beta)

lemma admin_now_with_sessions: "admin_now (with_sessions f x) = apsnd (with_sessions f) (admin_now x)"
  by (auto simp: admin_now_def with_sessions_frame split: list.splits) (simp add: with_sessions_def)

text \<open>
  No identity in the listings. \<^verbatim>\<open>sessions\<close> and \<^verbatim>\<open>stats\<close> answer the same, and ask for the same
  closures, whatever the announced keys, handles, account identifiers, nonces and peer addresses of
  the live sessions are: the answer depends on the phase of a session and its two times only, so it
  cannot tell who is connected.
\<close>

theorem listings_are_anonymous:
  assumes "\<And>S. st_phase (f S) = st_phase S \<and> st_connected_at (f S) = st_connected_at S \<and>
      st_last_activity_at (f S) = st_last_activity_at S"
    and "ad_verb command \<in> {ascii ''sessions'', ascii ''stats''}"
  shows "fst (execute_admin_command e outcome command (with_sessions f x)) = fst (execute_admin_command e outcome command x) \<and>
    fst (snd (execute_admin_command e outcome command (with_sessions f x))) =
    fst (snd (execute_admin_command e outcome command x))"
proof -
  have count: "count_authenticated (ax_registry (with_sessions f x)) = count_authenticated (ax_registry x)" for x
  proof -
    have "foldl (\<lambda>n (_, c). if st_phase (cn_session c) = Authenticated then n + 1 else n) m
        (map (\<lambda>(d, c). (d, c\<lparr>cn_session := f (cn_session c)\<rparr>)) cs) =
      foldl (\<lambda>n (_, c). if st_phase (cn_session c) = Authenticated then n + 1 else n) m cs"
      for m :: u32 and cs :: "(int \<times> client_connection) list"
      by (induction cs arbitrary: m) (auto simp: assms(1))
    then show ?thesis by (simp add: count_authenticated_def with_sessions_frame)
  qed
  have line: "session_line now d (f S) = session_line now d S" for now d S
    by (simp add: session_line_def assms(1))
  have list: "fst (list_sessions (with_sessions f x)) = fst (list_sessions x)"
    by (simp add: list_sessions_def admin_now_with_sessions case_prod_unfold with_sessions_frame line comp_def Let_def)
  have stats: "fst (run_stats_command e (with_sessions f x)) = fst (run_stats_command e x)"
    by (simp add: run_stats_command_def admin_now_with_sessions case_prod_beta with_sessions_frame count Let_def
        split: option.splits)
  have close: "fst (close_session e a (with_sessions f x)) = fst (close_session e a x)"
    "fst (snd (close_session e a (with_sessions f x))) = fst (snd (close_session e a x))" for a
    by (simp_all add: close_session_def with_sessions_find split: option.split)
  from assms(2) consider "ad_verb command = ascii ''sessions''" | "ad_verb command = ascii ''stats''" by blast
  then show ?thesis
  proof cases
    case 1
    have "ascii ''sessions'' \<noteq> ascii ''stats''" by (simp add: ascii_def)
    then have run: "execute_admin_command e outcome command y = run_sessions_command e command y" for y
      using 1 by (simp add: execute_admin_command_def Let_def)
    show ?thesis
      unfolding run run_sessions_command_def
      by (simp add: list close case_prod_beta split: list.split)
  next
    case 2
    then show ?thesis using stats by (simp add: execute_admin_command_def Let_def case_prod_beta)
  qed
qed

theorem listings_are_anonymous_witness:
  "fst (execute_admin_command sample_env Backup_done \<lparr>ad_verb = ascii ''sessions'', ad_arguments = []\<rparr>
      (with_sessions (\<lambda>S. S\<lparr>st_handle := [1], st_user_id := 4\<rparr>) sample_admin)) =
    fst (execute_admin_command sample_env Backup_done \<lparr>ad_verb = ascii ''sessions'', ad_arguments = []\<rparr> sample_admin)"
  using listings_are_anonymous [of "\<lambda>S. S\<lparr>st_handle := [1], st_user_id := 4\<rparr>"
    "\<lparr>ad_verb = ascii ''sessions'', ad_arguments = []\<rparr>" sample_env Backup_done sample_admin] by simp

section \<open>The command line\<close>

lemma take_rest_quoted: "QUOTE \<notin> set w \<Longrightarrow> take_rest True (w @ QUOTE # rest) token = Some (token @ w, rest)"
  by (induction w arbitrary: token) auto

lemma parse_quoted:
  assumes "\<And>w. w \<in> set ws \<Longrightarrow> QUOTE \<notin> set w" and "length tokens \<le> MAX_COMMAND_TOKENS"
  shows "parse_tokens (concat (map (\<lambda>w. [QUOTE] @ w @ [QUOTE, 32]) ws)) tokens =
    (if length tokens + length ws \<le> MAX_COMMAND_TOKENS then Some (tokens @ ws) else None)"
  using assms
proof (induction ws arbitrary: tokens)
  case Nil
  then show ?case by (simp add: parse_tokens.simps [of "[]"])
next
  case (Cons w ws)
  let ?rest = "concat (map (\<lambda>w. [QUOTE] @ w @ [QUOTE, 32]) ws)"
  have take: "take_token (QUOTE # w @ QUOTE # 32 # ?rest) = Some (w, 32 # ?rest)"
    using take_rest_quoted [of w "32 # ?rest" "[]"] Cons.prems(1) [of w] by (simp add: take_token_def)
  have blank: "parse_tokens (32 # ?rest) (tokens @ [w]) = parse_tokens ?rest (tokens @ [w])"
    by (subst parse_tokens.simps) (simp add: is_blank_def)
  show ?case
  proof (cases "length tokens < MAX_COMMAND_TOKENS")
    case True
    then have "parse_tokens ?rest (tokens @ [w]) =
        (if length tokens + length (w # ws) \<le> MAX_COMMAND_TOKENS then Some (tokens @ w # ws) else None)"
      using Cons.IH [of "tokens @ [w]"] Cons.prems(1) by simp
    then show ?thesis using True take blank by (subst parse_tokens.simps) (simp add: is_blank_def)
  next
    case False
    then show ?thesis by (subst parse_tokens.simps) (simp add: is_blank_def)
  qed
qed

text \<open>
  The command line can carry any words: a verb and up to fifteen arguments, written in double
  quotes and separated by blanks, are read back exactly, blanks, tabs and empty words included, as
  long as none of them contains a double quote. A seventeenth word makes the line unreadable.
\<close>

theorem command_line_roundtrip:
  assumes "\<forall>w\<in>set (verb # arguments). QUOTE \<notin> set w"
  shows "parse_admin_command (concat (map (\<lambda>w. [QUOTE] @ w @ [QUOTE, 32]) (verb # arguments))) =
    (if length arguments < 16 then Some \<lparr>ad_verb = verb, ad_arguments = arguments\<rparr> else None)"
  using parse_quoted [of "verb # arguments" "[]"] assms
  by (auto simp: parse_admin_command_def MAX_COMMAND_TOKENS_def)

theorem command_line_roundtrip_witness:
  "parse_admin_command (concat (map (\<lambda>w. [QUOTE] @ w @ [QUOTE, 32]) [ascii ''motd'', ascii ''set'', ascii ''a b''])) =
     Some \<lparr>ad_verb = ascii ''motd'', ad_arguments = [ascii ''set'', ascii ''a b'']\<rparr>"
  using command_line_roundtrip [of "ascii ''motd''" "[ascii ''set'', ascii ''a b'']"] by (simp add: ascii_def)

end
