(* ===== verification/Server.thy ===== *)
theory Server
  imports Admin_Properties
begin

text \<open>
  The assembly of the server (\<^verbatim>\<open>server_runtime.cpp\<close>): accepting, serving and closing connections,
  the administration socket, the periodic sweep and the loop. What the kernel answers to the calls
  one event makes is an argument of the event; the table of watched descriptors is the kernel's and
  shows only in these answers.
\<close>

section \<open>The state\<close>

record server_state =
  ss_logger :: logger
  ss_database :: database
  ss_registry :: connection_registry
  ss_policy :: rate_policy
  ss_admin :: admin_service
  ss_started_at :: u64
  ss_clock :: "u64 list"
  ss_random :: "bytes list"

text \<open>The server's long-term keys and the descriptors it listens on.\<close>

record server_setup =
  su_static_public :: bytes
  su_static_secret :: bytes
  su_clearnet :: int
  su_onion :: int
  su_admin :: int
  su_signal :: int

text \<open>
  The answers of the kernel during one event: the accepted descriptors with the peer's address and
  whether the loop could watch them (\<open>None\<close>: nothing left to accept), the same for the
  administration socket, what was received and sent, whether the descriptor could be watched again,
  the key pair drawn for a handshake and the outcome of a backup.
\<close>

record kernel_answers =
  ka_accepts :: "(int \<times> bytes \<times> bool) option list"
  ka_admin_accepts :: "(int \<times> bool) option list"
  ka_recvs :: "recv_result list"
  ka_sends :: "send_result list"
  ka_watched :: bool
  ka_generated :: "(bytes \<times> bytes) option"
  ka_backup :: backup_outcome

text \<open>The constructor of \<^verbatim>\<open>server_runtime\<close>.\<close>

definition new_server :: "handler_env \<Rightarrow> logger \<Rightarrow> database \<Rightarrow> u64 \<Rightarrow> u64 list \<Rightarrow> bytes list \<Rightarrow> server_state" where
  "new_server e logger database now clock random =
     (let limits = sc_limits (he_config e)
      in \<lparr>ss_logger = logger, ss_database = database, ss_registry = new_registry limits,
          ss_policy = fresh_policy (lm_requests_per_minute_per_address limits) (lm_requests_per_minute_per_identity limits),
          ss_admin = [], ss_started_at = now, ss_clock = clock, ss_random = random\<rparr>)"

definition server_now :: "server_state \<Rightarrow> u64 \<times> server_state" where
  "server_now st = (case ss_clock st of [] \<Rightarrow> (0, st) | t # ts \<Rightarrow> (t, st\<lparr>ss_clock := ts\<rparr>))"

definition close_connection :: "int \<Rightarrow> server_state \<Rightarrow> server_state" where
  "close_connection descriptor st = st\<lparr>ss_registry := remove_connection (ss_registry st) descriptor\<rparr>"

section \<open>Accepting\<close>

definition MAX_ACCEPTS_PER_CALL :: nat where "MAX_ACCEPTS_PER_CALL = 32"

definition accepted_connection :: "handler_env \<Rightarrow> server_setup \<Rightarrow> int \<Rightarrow> bytes \<Rightarrow> u64 \<Rightarrow> client_connection" where
  "accepted_connection e keys accepted peer_address now =
     \<lparr>cn_socket = new_socket accepted,
      cn_channel = new_channel (he_sodium e) (su_static_public keys) (su_static_secret keys),
      cn_session = new_session\<lparr>st_peer_address := peer_address, st_connected_at := now, st_last_activity_at := now\<rparr>,
      cn_input_buffer = []\<rparr>"

definition accept_one ::
  "handler_env \<Rightarrow> server_setup \<Rightarrow> bool \<Rightarrow> int \<times> bytes \<times> bool \<Rightarrow> server_state \<Rightarrow> server_state" where
  "accept_one e keys is_clearnet = (\<lambda>(accepted, peer_address, watched) st.
     let (now, st1) = server_now st;
         entry = accepted_connection e keys accepted peer_address now;
         st2 = (if is_clearnet
                then st1\<lparr>ss_logger := write_entry (he_log_stamp e) LL_info
                  (ascii ''connexion acceptee depuis '' @ redact_peer_address (ss_logger st1) peer_address) (ss_logger st1)\<rparr>
                else st1);
         (inserted, registry) = insert_connection (ss_registry st2) (Some entry);
         st3 = st2\<lparr>ss_registry := registry\<rparr>
     in if \<not> inserted then st3 else if \<not> watched then close_connection accepted st3 else st3)"

fun accept_loop ::
  "handler_env \<Rightarrow> server_setup \<Rightarrow> bool \<Rightarrow> nat \<Rightarrow> (int \<times> bytes \<times> bool) option list \<Rightarrow> server_state \<Rightarrow> server_state option" where
  "accept_loop e keys is_clearnet 0 rs st = Some st"
| "accept_loop e keys is_clearnet (Suc n) [] st = None"
| "accept_loop e keys is_clearnet (Suc n) (None # rs) st = Some st"
| "accept_loop e keys is_clearnet (Suc n) (Some a # rs) st =
     accept_loop e keys is_clearnet n rs (accept_one e keys is_clearnet a st)"

definition accept_pending_connections ::
  "handler_env \<Rightarrow> server_setup \<Rightarrow> bool \<Rightarrow> kernel_answers \<Rightarrow> server_state \<Rightarrow> server_state option" where
  "accept_pending_connections e keys is_clearnet k st =
     accept_loop e keys is_clearnet MAX_ACCEPTS_PER_CALL (ka_accepts k) st"

fun accept_admin_connections :: "(int \<times> bool) option list \<Rightarrow> admin_service \<Rightarrow> admin_service option" where
  "accept_admin_connections [] service = None"
| "accept_admin_connections (None # rs) service = Some service"
| "accept_admin_connections (Some (accepted, watched) # rs) service =
     accept_admin_connections rs (accept_admin_connection service accepted watched)"

section \<open>Serving a client\<close>

definition EPOLLIN :: u32 where "EPOLLIN = 0x001"
definition EPOLLERR :: u32 where "EPOLLERR = 0x008"
definition EPOLLHUP :: u32 where "EPOLLHUP = 0x010"

definition context_of :: "client_connection \<Rightarrow> server_state \<Rightarrow> handler_context" where
  "context_of c st = \<lparr>hc_logger = ss_logger st, hc_database = ss_database st, hc_connection = c,
     hc_clock = ss_clock st, hc_random = ss_random st\<rparr>"

text \<open>The context holds references: what the handlers did to it, they did to the server.\<close>

definition put_context :: "int \<Rightarrow> rate_policy \<Rightarrow> handler_context \<Rightarrow> server_state \<Rightarrow> server_state" where
  "put_context descriptor policy s st =
     st\<lparr>ss_logger := hc_logger s, ss_database := hc_database s, ss_policy := policy,
        ss_registry := update_connection (ss_registry st) descriptor (\<lambda>_. hc_connection s),
        ss_clock := hc_clock s, ss_random := hc_random s\<rparr>"

definition service_connection ::
  "handler_env \<Rightarrow> kernel_answers \<Rightarrow> int \<Rightarrow> u32 \<Rightarrow> server_state \<Rightarrow> server_state option" where
  "service_connection e k descriptor events st =
     (case find_connection (ss_registry st) descriptor of
        None \<Rightarrow> Some st
      | Some c \<Rightarrow>
          if events AND (EPOLLHUP OR EPOLLERR) \<noteq> 0 then Some (close_connection descriptor st)
          else (case (if events AND EPOLLIN \<noteq> 0
                      then process_connection_input e (ka_generated k) (ka_recvs k) (ss_policy st) (context_of c st)
                      else Some (True, ss_policy st, context_of c st)) of
                  None \<Rightarrow> None
                | Some (False, policy, s) \<Rightarrow> Some (close_connection descriptor (put_context descriptor policy s st))
                | Some (True, policy, s) \<Rightarrow>
                    (case flush_pending_writes (ka_sends k) (cn_socket (hc_connection s)) of
                       None \<Rightarrow> None
                     | Some (flushed, has_remaining, socket, wire) \<Rightarrow>
                         let s1 = s\<lparr>hc_connection := (hc_connection s)\<lparr>cn_socket := socket\<rparr>\<rparr>;
                             st1 = put_context descriptor policy s1 st
                         in if \<not> flushed \<or> \<not> ka_watched k then Some (close_connection descriptor st1)
                            else Some st1)))"

section \<open>Serving the administration\<close>

definition admin_context_of :: "server_state \<Rightarrow> admin_context" where
  "admin_context_of st = \<lparr>ax_logger = ss_logger st, ax_database = ss_database st, ax_registry = ss_registry st,
     ax_started_at = ss_started_at st, ax_clock = ss_clock st\<rparr>"

definition service_admin :: "handler_env \<Rightarrow> kernel_answers \<Rightarrow> int \<Rightarrow> server_state \<Rightarrow> server_state option" where
  "service_admin e k descriptor st =
     (case service_admin_connection e (ka_backup k) (ka_recvs k) (ka_sends k) (ka_watched k) descriptor
             (ss_admin st) (admin_context_of st) of
        None \<Rightarrow> None
      | Some (service, close_requests, x) \<Rightarrow>
          Some (fold close_connection close_requests
            (st\<lparr>ss_admin := service, ss_logger := ax_logger x, ss_database := ax_database x,
                ss_registry := ax_registry x, ss_clock := ax_clock x\<rparr>)))"

section \<open>Events, sweeps and the loop\<close>

definition dispatch_event ::
  "handler_env \<Rightarrow> server_setup \<Rightarrow> kernel_answers \<Rightarrow> int \<Rightarrow> u32 \<Rightarrow> server_state \<Rightarrow> server_state option" where
  "dispatch_event e keys k descriptor events st =
     (if descriptor = su_clearnet keys then accept_pending_connections e keys True k st
      else if descriptor = su_onion keys then accept_pending_connections e keys False k st
      else if descriptor = su_admin keys
      then map_option (\<lambda>service. st\<lparr>ss_admin := service\<rparr>) (accept_admin_connections (ka_admin_accepts k) (ss_admin st))
      else if owns_admin_descriptor (ss_admin st) descriptor then service_admin e k descriptor st
      else service_connection e k descriptor events st)"

definition sweep_expired_connections :: "handler_env \<Rightarrow> server_state \<Rightarrow> server_state" where
  "sweep_expired_connections e st =
     (let (now, st1) = server_now st;
          st2 = fold close_connection
            (collect_expired_descriptors (ss_registry st1) now (sc_limits (he_config e))) st1
      in st2\<lparr>ss_policy := (ss_policy st2)\<lparr>rp_tracker := forget_expired_windows (rp_tracker (ss_policy st2)) now\<rparr>\<rparr>)"

text \<open>
  The events of one round, with the answers of the kernel to each. The flag tells that the signal
  descriptor was among them and the server stops.
\<close>

fun run_events ::
  "handler_env \<Rightarrow> server_setup \<Rightarrow> (int \<times> u32 \<times> kernel_answers) list \<Rightarrow> server_state \<Rightarrow> (bool \<times> server_state) option" where
  "run_events e keys [] st = Some (False, st)"
| "run_events e keys ((descriptor, events, k) # rest) st =
     (if descriptor = su_signal keys
      then Some (True, st\<lparr>ss_logger := write_entry (he_log_stamp e) LL_info
             (ascii ''signal recu, arret du serveur'') (ss_logger st)\<rparr>)
      else (case dispatch_event e keys k descriptor events st of
              None \<Rightarrow> None
            | Some st1 \<Rightarrow> run_events e keys rest st1))"

text \<open>
  The loop, over what \<^verbatim>\<open>wait_for_events\<close> returns in each round (\<open>None\<close> for its failure). The value
  is whether the loop has ended, and how.
\<close>

datatype run_result = Still_running | Stopped | Wait_failed

fun run_rounds ::
  "handler_env \<Rightarrow> server_setup \<Rightarrow> u64 \<Rightarrow> (int \<times> u32 \<times> kernel_answers) list option list \<Rightarrow> server_state \<Rightarrow>
    (run_result \<times> server_state) option" where
  "run_rounds e keys last_sweep [] st = Some (Still_running, st)"
| "run_rounds e keys last_sweep (None # rounds) st = Some (Wait_failed, st)"
| "run_rounds e keys last_sweep (Some events # rounds) st =
     (case run_events e keys events st of
        None \<Rightarrow> None
      | Some (True, st1) \<Rightarrow> Some (Stopped, st1)
      | Some (False, st1) \<Rightarrow>
          let (now, st2) = server_now st1
          in if now \<noteq> last_sweep then run_rounds e keys now rounds (sweep_expired_connections e st2)
             else run_rounds e keys last_sweep rounds st2)"

definition run_until_stopped ::
  "handler_env \<Rightarrow> server_setup \<Rightarrow> (int \<times> u32 \<times> kernel_answers) list option list \<Rightarrow> server_state \<Rightarrow>
    (run_result \<times> server_state) option" where
  "run_until_stopped e keys rounds st = (let (now, st1) = server_now st in run_rounds e keys now rounds st1)"

end
