(* ===== verification/Server_Properties.thy ===== *)
theory Server_Properties
  imports Server
begin

text \<open>
  The invariant of the whole server and what it gives: every event keeps it, connections do not
  disturb each other, and the loop stops when it is told to.
\<close>

section \<open>The invariant\<close>

definition connection_ok :: "handler_env \<Rightarrow> tables \<Rightarrow> int \<Rightarrow> client_connection \<Rightarrow> bool" where
  "connection_ok e t d c \<longleftrightarrow> sk_descriptor (cn_socket c) = d \<and> session_ok e t (cn_session c) \<and>
     socket_ok (cn_socket c) \<and> handshake_ok c"

definition server_ok :: "handler_env \<Rightarrow> server_state \<Rightarrow> bool" where
  "server_ok e st \<longleftrightarrow> registry_ok (ss_registry st) \<and> database_ok (ss_database st) \<and>
     (\<forall>(d, c)\<in>set (cg_connections (ss_registry st)). connection_ok e (db_tables (ss_database st)) d c) \<and>
     (\<forall>(d, a)\<in>set (ss_admin st). length (am_input a) \<le> MAX_REQUEST_BYTES)"

lemma server_okD:
  assumes "server_ok e st"
  shows "registry_ok (ss_registry st)" and "database_ok (ss_database st)"
    and "(d, c) \<in> set (cg_connections (ss_registry st)) \<Longrightarrow> connection_ok e (db_tables (ss_database st)) d c"
    and "(d, a) \<in> set (ss_admin st) \<Longrightarrow> length (am_input a) \<le> MAX_REQUEST_BYTES"
  using assms by (auto simp: server_ok_def)

lemma connection_ok_persist:
  "connection_ok e t d c \<Longrightarrow> users_persist t t' \<Longrightarrow> connection_ok e t' d c"
  by (auto simp: connection_ok_def intro: session_ok_persist)

section \<open>Steps on the registry\<close>

lemma find_in_set: "find_connection g d = Some c \<Longrightarrow> (d, c) \<in> set (cg_connections g)"
  by (simp add: find_connection_def map_of_SomeD)

lemma put_connection_ok:
  assumes g: "registry_ok g" and c: "find_connection g d = Some c" and peer: "peer_of c' = peer_of c"
  shows "registry_ok (update_connection g d (\<lambda>_. c'))"
proof -
  have "x = c" if "(d, x) \<in> set (cg_connections g)" for x
    using registry_okD(1) [OF g] c that by (metis find_connection_def map_of_is_SomeI option.inject)
  then have "update_connection g d (\<lambda>_. c') = update_connection g d (\<lambda>x. if x = c then c' else x)"
    by (auto simp: update_connection_def intro!: arg_cong [where f = "\<lambda>cs. g\<lparr>cg_connections := cs\<rparr>"])
  moreover have "registry_ok (update_connection g d (\<lambda>x. if x = c then c' else x))"
    by (rule update_connection_ok [OF g]) (simp add: peer)
  ultimately show ?thesis by simp
qed

lemma close_connection_frame:
  "ss_database (close_connection d st) = ss_database st" "ss_admin (close_connection d st) = ss_admin st"
  "ss_policy (close_connection d st) = ss_policy st" "ss_logger (close_connection d st) = ss_logger st"
  "ss_clock (close_connection d st) = ss_clock st"
  by (simp_all add: close_connection_def)

lemma close_connection_ok: "server_ok e st \<Longrightarrow> server_ok e (close_connection d st)"
  using remove_connection_ok [of "ss_registry st" d] registry_okD(1) [of "ss_registry st"]
  by (auto simp: server_ok_def close_connection_def remove_connection_connections)

lemma fold_close_ok: "server_ok e st \<Longrightarrow> server_ok e (fold close_connection ds st)"
  by (induction ds arbitrary: st) (auto intro: close_connection_ok)

lemma fold_close_frame:
  "ss_database (fold close_connection ds st) = ss_database st" "ss_admin (fold close_connection ds st) = ss_admin st"
  by (induction ds arbitrary: st) (simp_all add: close_connection_frame)

lemma server_now_frame:
  "ss_database (snd (server_now st)) = ss_database st" "ss_registry (snd (server_now st)) = ss_registry st"
  "ss_admin (snd (server_now st)) = ss_admin st" "ss_policy (snd (server_now st)) = ss_policy st"
  by (auto simp: server_now_def split: list.splits)

lemma server_now_ok: "server_ok e (snd (server_now st)) \<longleftrightarrow> server_ok e st"
  by (simp add: server_ok_def server_now_frame)

section \<open>Accepting\<close>

text \<open>The kernel hands out a descriptor only when it is not in use.\<close>

definition fresh_descriptor :: "int \<Rightarrow> server_state \<Rightarrow> bool" where
  "fresh_descriptor d st \<longleftrightarrow> find_connection (ss_registry st) d = None"

lemma accepted_connection_ok: "connection_ok e t d (accepted_connection e keys d peer now)"
  by (simp add: connection_ok_def accepted_connection_def new_socket_def session_ok_def new_session_def
      socket_ok_def handshake_ok_def)

lemma inserted_connections:
  "insert_connection g (Some c) = (b, g') \<Longrightarrow> set (cg_connections g') \<subseteq> insert (sk_descriptor (cn_socket c), c) (set (cg_connections g))"
  by (auto simp: insert_connection_def Let_def split: if_splits option.splits)

lemma accept_one_ok:
  assumes ok: "server_ok e st" and fresh: "fresh_descriptor d st"
  shows "server_ok e (accept_one e keys clearnet (d, peer, watched) st)"
proof -
  let ?c = "accepted_connection e keys d peer (fst (server_now st))"
  have sk: "sk_descriptor (cn_socket ?c) = d" by (simp add: accepted_connection_def new_socket_def)
  obtain b g where g: "insert_connection (ss_registry st) (Some ?c) = (b, g)" by fastforce
  have "registry_ok g"
    using insert_connection_ok [OF server_okD(1) [OF ok] _ g] fresh sk
    by (simp add: fresh_descriptor_def find_connection_def map_of_eq_None_iff)
  moreover have "connection_ok e (db_tables (ss_database st)) d' c'" if "(d', c') \<in> set (cg_connections g)" for d' c'
    using inserted_connections [OF g] that server_okD(3) [OF ok] sk accepted_connection_ok by auto
  ultimately have s: "server_ok e (st'\<lparr>ss_registry := g\<rparr>)"
    if "ss_database st' = ss_database st" "ss_admin st' = ss_admin st" for st'
    using ok that by (auto simp: server_ok_def)
  show ?thesis
    using s by (auto simp: accept_one_def case_prod_beta Let_def server_now_frame g intro!: close_connection_ok)
qed

text \<open>The same along the loop: fresh at the moment it is accepted.\<close>

fun fresh_accepts ::
  "handler_env \<Rightarrow> server_setup \<Rightarrow> bool \<Rightarrow> nat \<Rightarrow> (int \<times> bytes \<times> bool) option list \<Rightarrow> server_state \<Rightarrow> bool" where
  "fresh_accepts e keys clearnet (Suc n) (Some a # rs) st \<longleftrightarrow>
     fresh_descriptor (fst a) st \<and> fresh_accepts e keys clearnet n rs (accept_one e keys clearnet a st)"
| "fresh_accepts e keys clearnet n rs st \<longleftrightarrow> True"

lemma accept_loop_ok:
  "accept_loop e keys clearnet n rs st = Some st' \<Longrightarrow> fresh_accepts e keys clearnet n rs st \<Longrightarrow> server_ok e st \<Longrightarrow>
   server_ok e st'"
proof (induction e keys clearnet n rs st rule: accept_loop.induct)
  case (4 e keys clearnet n a rs st)
  then show ?case using accept_one_ok [of e st "fst a" keys clearnet "fst (snd a)" "snd (snd a)"] by auto
qed auto

section \<open>Serving a client\<close>

text \<open>What serving a connection does to its context, input and flush together.\<close>

lemma put_context_ok:
  assumes ok: "server_ok e st" and c: "find_connection (ss_registry st) d = Some c"
    and s: "input_ok e s" "serves (context_of c st) s"
  shows "server_ok e (put_context d policy s st)"
proof -
  let ?g = "ss_registry st" and ?t = "db_tables (ss_database st)"
  have "(d, c) \<in> set (cg_connections ?g)" using c by (rule find_in_set)
  from server_okD(3) [OF ok this] have "sk_descriptor (cn_socket c) = d" by (simp add: connection_ok_def)
  then have new: "connection_ok e (tables_of s) d (hc_connection s)"
    using s by (simp add: connection_ok_def input_ok_def context_ok_def serves_def context_of_def)
  have persist: "users_persist ?t (tables_of s)" and peer: "peer_of (hc_connection s) = peer_of c"
    using s(2) by (simp_all add: serves_def context_of_def peer_of_def)
  have "connection_ok e (tables_of s) d' c'" if "(d', c') \<in> set (cg_connections (update_connection ?g d (\<lambda>_. hc_connection s)))"
    for d' c'
    using that new connection_ok_persist [OF server_okD(3) [OF ok] persist]
    by (auto simp: update_connection_def split: if_splits)
  moreover have "registry_ok (update_connection ?g d (\<lambda>_. hc_connection s))"
    by (rule put_connection_ok [OF server_okD(1) [OF ok] c peer])
  ultimately show ?thesis
    using ok s(1) by (auto simp: server_ok_def put_context_def input_ok_def context_ok_def)
qed

lemma context_of_ok:
  assumes "server_ok e st" and "find_connection (ss_registry st) d = Some c"
  shows "input_ok e (context_of c st)"
  using server_okD(2) [OF assms(1)] server_okD(3) [OF assms(1) find_in_set [OF assms(2)]]
  by (simp add: input_ok_def context_ok_def context_of_def connection_ok_def)

lemma flushed_context:
  assumes "flush_pending_writes sends (cn_socket (hc_connection s)) = Some (flushed, remaining, socket, wire)" and "input_ok e s"
  shows "input_ok e (s\<lparr>hc_connection := (hc_connection s)\<lparr>cn_socket := socket\<rparr>\<rparr>)"
    and "serves s (s\<lparr>hc_connection := (hc_connection s)\<lparr>cn_socket := socket\<rparr>\<rparr>)"
  using assms flush_ok [OF assms(1)] flush_conserves [OF assms(1)]
  by (simp_all add: input_ok_def context_ok_def handshake_ok_def serves_def users_persist_refl)

lemma service_connection_cases:
  assumes "service_connection e k d events st = Some st'"
  obtains (gone) "find_connection (ss_registry st) d = None" "st' = st"
  | (hangup) c where "find_connection (ss_registry st) d = Some c" "st' = close_connection d st"
  | (served) c ok policy s st1 where "find_connection (ss_registry st) d = Some c"
      "(if events AND EPOLLIN \<noteq> 0 then process_connection_input e (ka_generated k) (ka_recvs k) (ss_policy st) (context_of c st)
        else Some (True, ss_policy st, context_of c st)) = Some (ok, policy, s)"
      "st1 = put_context d policy s st \<and> \<not> ok \<or>
       (\<exists>flushed remaining socket wire.
          flush_pending_writes (ka_sends k) (cn_socket (hc_connection s)) = Some (flushed, remaining, socket, wire) \<and>
          st1 = put_context d policy (s\<lparr>hc_connection := (hc_connection s)\<lparr>cn_socket := socket\<rparr>\<rparr>) st)"
      "st' = st1 \<and> ok \<or> st' = close_connection d st1" "events AND (EPOLLHUP OR EPOLLERR) = 0"
proof (cases "find_connection (ss_registry st) d")
  case None
  then have "st' = st" using assms(1) by (simp add: service_connection_def)
  then show ?thesis using gone [OF None] by blast
next
  case (Some c)
  let ?input = "if events AND EPOLLIN \<noteq> 0 then process_connection_input e (ka_generated k) (ka_recvs k) (ss_policy st) (context_of c st)
    else Some (True, ss_policy st, context_of c st)"
  show ?thesis
  proof (cases "events AND (EPOLLHUP OR EPOLLERR) \<noteq> 0")
    case True
    then have "st' = close_connection d st" using assms(1) Some by (simp add: service_connection_def)
    then show ?thesis using hangup [OF Some] by blast
  next
    case False
    note run = assms(1) [unfolded service_connection_def Some option.case if_not_P [OF False]]
    obtain ok policy s where i: "?input = Some (ok, policy, s)"
      using run by (cases ?input) auto
    show ?thesis
    proof (cases ok)
      case False
      then have "st' = close_connection d (put_context d policy s st)" using run i by simp
      then show ?thesis using served [OF Some i] False \<open>\<not> events AND (EPOLLHUP OR EPOLLERR) \<noteq> 0\<close> by blast
    next
      case True
      obtain flushed remaining socket wire where
        f: "flush_pending_writes (ka_sends k) (cn_socket (hc_connection s)) = Some (flushed, remaining, socket, wire)"
        using run i True by (cases "flush_pending_writes (ka_sends k) (cn_socket (hc_connection s))") auto
      let ?st = "put_context d policy (s\<lparr>hc_connection := (hc_connection s)\<lparr>cn_socket := socket\<rparr>\<rparr>) st"
      have "st' = ?st \<or> st' = close_connection d ?st"
        using run i True f by (auto simp: Let_def split: if_splits)
      then show ?thesis using served [OF Some i, of ?st] True f \<open>\<not> events AND (EPOLLHUP OR EPOLLERR) \<noteq> 0\<close> by blast
    qed
  qed
qed

lemma served_context:
  assumes "server_ok e st" and "find_connection (ss_registry st) d = Some c"
    and "(if readable then process_connection_input e generated recvs policy0 (context_of c st)
        else Some (True, policy0, context_of c st)) = Some (ok, policy, s)"
  shows "input_ok e s" and "serves (context_of c st) s"
  using assms(3) process_connection_input_keeps [OF _ context_of_ok [OF assms(1,2)]] context_of_ok [OF assms(1,2)] serves_refl
  by (auto split: if_splits)

lemma service_connection_ok:
  assumes "service_connection e k d events st = Some st'" and ok: "server_ok e st"
  shows "server_ok e st'"
  using assms(1)
proof (cases rule: service_connection_cases)
  case gone
  then show ?thesis using ok by simp
next
  case hangup
  then show ?thesis using ok close_connection_ok by simp
next
  case (served c okay policy s st1)
  note s = served_context [OF ok served(1,2)]
  have "server_ok e st1"
    using served(3)
  proof (elim disjE exE conjE)
    assume "st1 = put_context d policy s st"
    then show ?thesis using put_context_ok [OF ok served(1) s] by simp
  next
    fix flushed remaining socket wire
    assume f: "flush_pending_writes (ka_sends k) (cn_socket (hc_connection s)) = Some (flushed, remaining, socket, wire)"
      "st1 = put_context d policy (s\<lparr>hc_connection := (hc_connection s)\<lparr>cn_socket := socket\<rparr>\<rparr>) st"
    show ?thesis
      unfolding f(2) using flushed_context [OF f(1) s(1)] serves_trans [OF s(2)]
      by (intro put_context_ok [OF ok served(1)])
  qed
  then show ?thesis using served(4) close_connection_ok by blast
qed

section \<open>Serving the administration\<close>

lemma read_into_buffer_bound:
  "read_into_buffer rs b = Some (ok, b') \<Longrightarrow> length b \<le> MAX_REQUEST_BYTES \<Longrightarrow> length b' \<le> MAX_REQUEST_BYTES"
  by (induction rs b rule: read_into_buffer.induct) (auto split: if_splits)

definition inputs_bounded :: "admin_service \<Rightarrow> bool" where
  "inputs_bounded service \<longleftrightarrow> (\<forall>(d, a)\<in>set service. length (am_input a) \<le> MAX_REQUEST_BYTES)"

lemma inputs_bounded_steps:
  "inputs_bounded service \<Longrightarrow> inputs_bounded (close_admin_connection service d)"
  "inputs_bounded service \<Longrightarrow> length (am_input a) \<le> MAX_REQUEST_BYTES \<Longrightarrow> inputs_bounded (put_admin_connection service d a)"
  "inputs_bounded service \<Longrightarrow> inputs_bounded (accept_admin_connection service d watched)"
  by (auto simp: inputs_bounded_def close_admin_connection_def put_admin_connection_def accept_admin_connection_def
      new_admin_connection_def Let_def split: if_splits)

lemma finish_bounded:
  "finish_admin_response sends watched service d a = Some service' \<Longrightarrow> inputs_bounded service \<Longrightarrow>
   length (am_input a) \<le> MAX_REQUEST_BYTES \<Longrightarrow> inputs_bounded service'"
  by (auto simp: finish_admin_response_def inputs_bounded_steps split: option.splits prod.splits if_splits)

lemma build_response_facts:
  assumes "build_response e outcome a x = (a', closing, x')"
  shows "administers x x'" and "length (am_input a') \<le> length (am_input a)"
  using assms execute_administers(1) administers_refl
  by (auto simp: build_response_def Let_def split: if_splits option.splits prod.splits)

lemma service_admin_connection_facts:
  assumes "service_admin_connection e outcome recvs sends watched d service x = Some (service', closing, x')"
    and "inputs_bounded service"
  shows "inputs_bounded service' \<and> administers x x'"
proof (cases "map_of service d")
  case None
  then show ?thesis using assms administers_refl by (simp add: service_admin_connection_def)
next
  case (Some a)
  then have a: "length (am_input a) \<le> MAX_REQUEST_BYTES" using assms(2) map_of_SomeD by (fastforce simp: inputs_bounded_def)
  show ?thesis
  proof (cases "am_response_ready a")
    case True
    then show ?thesis
      using assms Some a finish_bounded administers_refl by (auto simp: service_admin_connection_def)
  next
    case False
    obtain ok input where r: "read_into_buffer recvs (am_input a) = Some (ok, input)"
      using assms Some False by (auto simp: service_admin_connection_def split: option.splits)
    obtain a1 closing1 x1 where b: "build_response e outcome (a\<lparr>am_input := input\<rparr>) x = (a1, closing1, x1)"
      by (metis prod_cases3)
    have "length (am_input a1) \<le> MAX_REQUEST_BYTES"
      using build_response_facts(2) [OF b] read_into_buffer_bound [OF r a] by simp
    then show ?thesis
      using assms Some False r b build_response_facts(1) [OF b] finish_bounded inputs_bounded_steps administers_refl
      by (cases ok) (auto simp: service_admin_connection_def split: if_splits)
  qed
qed

lemma server_ok_inputs: "server_ok e st \<Longrightarrow> inputs_bounded (ss_admin st)"
  by (simp add: server_ok_def inputs_bounded_def)

lemma service_admin_ok:
  assumes "service_admin e k d st = Some st'" and ok: "server_ok e st"
  shows "server_ok e st'"
proof -
  obtain service closing x where
    a: "service_admin_connection e (ka_backup k) (ka_recvs k) (ka_sends k) (ka_watched k) d (ss_admin st) (admin_context_of st) =
      Some (service, closing, x)"
    and st': "st' = fold close_connection closing (st\<lparr>ss_admin := service, ss_logger := ax_logger x, ss_database := ax_database x,
      ss_registry := ax_registry x, ss_clock := ax_clock x\<rparr>)"
    using assms(1) by (auto simp: service_admin_def split: option.splits)
  from service_admin_connection_facts [OF a server_ok_inputs [OF ok]]
  have b: "inputs_bounded service" and x: "administers (admin_context_of st) x" by blast+
  from x have c: "changes admin_change (ss_database st) (ax_database x)" and g: "ax_registry x = ss_registry st"
    by (simp_all add: administers_def admin_context_of_def)
  have "database_ok (ax_database x)" using changes_keeps [OF admin_change_keeps c server_okD(2) [OF ok]] .
  moreover have "users_persist (db_tables (ss_database st)) (db_tables (ax_database x))"
    using admin_scope_persists [OF admin_changes_scope [OF c]] .
  ultimately show ?thesis
    unfolding st' using ok b g connection_ok_persist
    by (intro fold_close_ok) (auto simp: server_ok_def inputs_bounded_def)
qed

lemma accept_admin_ok:
  "accept_admin_connections rs service = Some service' \<Longrightarrow> inputs_bounded service \<Longrightarrow> inputs_bounded service'"
  by (induction rs service rule: accept_admin_connections.induct) (auto intro: inputs_bounded_steps)

section \<open>The server as a state machine\<close>

text \<open>Descriptors handed out during an event are fresh.\<close>

definition event_fresh :: "handler_env \<Rightarrow> server_setup \<Rightarrow> kernel_answers \<Rightarrow> int \<Rightarrow> server_state \<Rightarrow> bool" where
  "event_fresh e keys k d st \<longleftrightarrow>
     (d = su_clearnet keys \<longrightarrow> fresh_accepts e keys True MAX_ACCEPTS_PER_CALL (ka_accepts k) st) \<and>
     (d = su_onion keys \<longrightarrow> fresh_accepts e keys False MAX_ACCEPTS_PER_CALL (ka_accepts k) st)"

datatype server_event = Kernel_event int u32 kernel_answers | Sweep_now | Read_clock | Log bytes

inductive server_step :: "handler_env \<Rightarrow> server_setup \<Rightarrow> server_state \<Rightarrow> server_event \<Rightarrow> server_state \<Rightarrow> bool" for e keys where
  step_event: "event_fresh e keys k d st \<Longrightarrow> dispatch_event e keys k d events st = Some st' \<Longrightarrow>
    server_step e keys st (Kernel_event d events k) st'"
| step_sweep: "server_step e keys st Sweep_now (sweep_expired_connections e st)"
| step_clock: "server_step e keys st Read_clock (snd (server_now st))"
| step_log: "server_step e keys st (Log message)
    (st\<lparr>ss_logger := write_entry (he_log_stamp e) LL_info message (ss_logger st)\<rparr>)"

inductive_cases server_stepE: "server_step e keys st event st'"

definition server_init :: "handler_env \<Rightarrow> server_state \<Rightarrow> bool" where
  "server_init e st \<longleftrightarrow> (\<exists>logger d now clock random. st = new_server e logger d now clock random \<and> database_ok d)"

lemma dispatch_event_ok:
  assumes "dispatch_event e keys k d events st = Some st'" and "event_fresh e keys k d st" and ok: "server_ok e st"
  shows "server_ok e st'"
proof -
  have "server_ok e (st\<lparr>ss_admin := service\<rparr>)"
    if "accept_admin_connections (ka_admin_accepts k) (ss_admin st) = Some service" for service
    using accept_admin_ok [OF that server_ok_inputs [OF ok]] ok by (auto simp: server_ok_def inputs_bounded_def)
  then show ?thesis
    using assms accept_loop_ok service_admin_ok service_connection_ok
    by (auto simp: dispatch_event_def accept_pending_connections_def event_fresh_def split: if_splits)
qed

lemma sweep_expired_ok: "server_ok e st \<Longrightarrow> server_ok e (sweep_expired_connections e st)"
proof -
  assume "server_ok e st"
  then have "server_ok e (fold close_connection ds (snd (server_now st)))" for ds
    by (intro fold_close_ok) (simp add: server_now_ok)
  then show ?thesis by (simp add: sweep_expired_connections_def case_prod_beta Let_def) (simp add: server_ok_def)
qed

interpretation server: invariant_machine "server_init e" "server_step e keys" "server_ok e" for e keys
proof
  fix st assume "server_init e st"
  then show "server_ok e st"
    using new_registry_ok by (auto simp: server_init_def server_ok_def new_server_def Let_def) (auto simp: new_registry_def)
next
  fix st event st' assume "server_ok e st" "server_step e keys st event st'"
  then show "server_ok e st'"
    by (auto elim!: server_stepE intro: dispatch_event_ok sweep_expired_ok simp: server_now_ok)
      (simp add: server_ok_def)
qed

text \<open>The loop makes these steps only, when the kernel keeps its word.\<close>

fun fresh_events :: "handler_env \<Rightarrow> server_setup \<Rightarrow> (int \<times> u32 \<times> kernel_answers) list \<Rightarrow> server_state \<Rightarrow> bool" where
  "fresh_events e keys [] st \<longleftrightarrow> True"
| "fresh_events e keys ((d, events, k) # rest) st \<longleftrightarrow>
     d = su_signal keys \<or> event_fresh e keys k d st \<and>
       (case dispatch_event e keys k d events st of None \<Rightarrow> True | Some st1 \<Rightarrow> fresh_events e keys rest st1)"

fun fresh_rounds ::
  "handler_env \<Rightarrow> server_setup \<Rightarrow> u64 \<Rightarrow> (int \<times> u32 \<times> kernel_answers) list option list \<Rightarrow> server_state \<Rightarrow> bool" where
  "fresh_rounds e keys last_sweep (Some events # rounds) st \<longleftrightarrow>
     fresh_events e keys events st \<and>
     (case run_events e keys events st of
        Some (False, st1) \<Rightarrow>
          let (now, st2) = server_now st1
          in if now \<noteq> last_sweep then fresh_rounds e keys now rounds (sweep_expired_connections e st2)
             else fresh_rounds e keys last_sweep rounds st2
      | _ \<Rightarrow> True)"
| "fresh_rounds e keys last_sweep rounds st \<longleftrightarrow> True"

lemma run_events_reachable:
  "run_events e keys evs st = Some (b, st') \<Longrightarrow> fresh_events e keys evs st \<Longrightarrow>
   reachable init (server_step e keys) st \<Longrightarrow> reachable init (server_step e keys) st'"
proof (induction e keys evs st rule: run_events.induct)
  case (2 e keys d events k rest st)
  then show ?case
    by (auto split: if_splits option.splits intro: reachable_step step_log step_event)
qed auto

lemma run_rounds_reachable:
  "run_rounds e keys last_sweep rounds st = Some (r, st') \<Longrightarrow> fresh_rounds e keys last_sweep rounds st \<Longrightarrow>
   reachable init (server_step e keys) st \<Longrightarrow> reachable init (server_step e keys) st'"
proof (induction e keys last_sweep rounds st rule: run_rounds.induct)
  case (3 e keys last_sweep events rounds st)
  obtain stop st1 where ev: "run_events e keys events st = Some (stop, st1)"
    using 3(3) by (auto split: option.splits)
  have st1: "reachable init (server_step e keys) st1" using run_events_reachable [OF ev _ 3(5)] 3(4) by simp
  obtain now st2 where t: "server_now st1 = (now, st2)" by fastforce
  have st2: "reachable init (server_step e keys) st2" using reachable_step [OF st1 step_clock] t by simp
  show ?case
    using 3 ev t st1 st2 reachable_step [OF st2 step_sweep]
    by (cases stop) (auto split: if_splits)
qed auto

section \<open>Properties\<close>

definition sample_setup :: server_setup where
  "sample_setup = \<lparr>su_static_public = replicate 32 1, su_static_secret = replicate 32 2, su_clearnet = 3,
     su_onion = -1, su_admin = 4, su_signal = 5\<rparr>"

definition sample_answers :: kernel_answers where
  "sample_answers = \<lparr>ka_accepts = [Some (7, ascii ''127.0.0.1'', True), None], ka_admin_accepts = [None],
     ka_recvs = [Received [0, 0], Recv_would_block], ka_sends = [Send_would_block], ka_watched = True, ka_generated = None, ka_backup = Backup_done\<rparr>"

definition sample_server :: server_state where
  "sample_server = new_server sample_env (hc_logger (sample_context [] new_session))
     (hc_database (sample_context [sample_user] new_session)) 0 [9] []"

lemma sample_server_init: "server_init sample_env sample_server"
proof -
  have "database_ok (hc_database (sample_context [sample_user] new_session))"
    by (simp add: sample_context_simps database_ok_def sample_tables_ok)
  then show ?thesis unfolding server_init_def sample_server_def by blast
qed

text \<open>
  C5. The whole server keeps its invariants. Start it on a sound database and let it run for any
  number of rounds of events, with any bytes from the network, any failures of the storage engine and
  any commands from the administration, as long as the kernel accepts connections under descriptors
  that are not in use: the tables are sound; the registry is exact; whoever is logged in on a live
  connection has a completed handshake, a proven key and an account with that key; no output queue
  exceeds 4 MiB and no administration request 4 KiB.
\<close>

theorem server_keeps_invariants:
  assumes "server_init e st" and "run_until_stopped e keys rounds st = Some (result, st')"
    and "fresh_rounds e keys (fst (server_now st)) rounds (snd (server_now st))"
  shows "registry_ok (ss_registry st') \<and> database_ok (ss_database st') \<and>
    (\<forall>d c. find_connection (ss_registry st') d = Some c \<longrightarrow>
       sk_descriptor (cn_socket c) = d \<and> length (sk_pending_output (cn_socket c)) \<le> MAX_PENDING_OUTPUT \<and>
       (st_user_id (cn_session c) \<noteq> 0 \<longrightarrow> is_established (cn_channel c) \<and> key_proven e (cn_session c) \<and>
          (\<exists>u\<in>set (tb_users (db_tables (ss_database st'))).
             ur_id u = st_user_id (cn_session c) \<and> ur_pubkey u = st_announced_pubkey (cn_session c)))) \<and>
    (\<forall>(d, a)\<in>set (ss_admin st'). length (am_input a) \<le> MAX_REQUEST_BYTES)"
proof -
  have "reachable (server_init e) (server_step e keys) st" by (rule reachable_init) (rule assms(1))
  from reachable_step [OF this step_clock]
  have "reachable (server_init e) (server_step e keys) (snd (server_now st))" .
  from run_rounds_reachable [OF _ assms(3) this] assms(2)
  have "reachable (server_init e) (server_step e keys) st'"
    by (simp add: run_until_stopped_def case_prod_beta)
  from server.reachable_inv [OF this] have ok: "server_ok e st'" .
  have "sk_descriptor (cn_socket c) = d \<and> length (sk_pending_output (cn_socket c)) \<le> MAX_PENDING_OUTPUT \<and>
      (st_user_id (cn_session c) \<noteq> 0 \<longrightarrow> is_established (cn_channel c) \<and> key_proven e (cn_session c) \<and>
        (\<exists>u\<in>set (tb_users (db_tables (ss_database st'))).
           ur_id u = st_user_id (cn_session c) \<and> ur_pubkey u = st_announced_pubkey (cn_session c)))"
    if "find_connection (ss_registry st') d = Some c" for d c
    using server_okD(3) [OF ok find_in_set [OF that]]
    by (auto simp: connection_ok_def session_ok_def socket_ok_def handshake_ok_def)
  then show ?thesis using ok by (simp add: server_ok_def)
qed

definition sample_rounds :: "(int \<times> u32 \<times> kernel_answers) list option list" where
  "sample_rounds = [Some [(3, EPOLLIN, sample_answers), (5, EPOLLIN, sample_answers)]]"

definition sample_started :: server_state where
  "sample_started = snd (server_now sample_server)"

lemma sample_started_simps:
  "ss_registry sample_started = new_registry default_limits"
  by (simp add: sample_started_def sample_server_def new_server_def server_now_frame Let_def sample_env_def
      default_config_def)

lemma sample_accepts:
  "fresh_rounds sample_env sample_setup last_sweep sample_rounds sample_started"
  "\<exists>st'. run_rounds sample_env sample_setup last_sweep sample_rounds sample_started = Some (Stopped, st') \<and>
     ss_registry st' = ss_registry (accept_one sample_env sample_setup True (7, ascii ''127.0.0.1'', True) sample_started)"
proof -
  have f: "find_connection (ss_registry sample_started) 7 = None"
    by (simp add: sample_started_simps new_registry_def find_connection_def)
  have d: "dispatch_event sample_env sample_setup sample_answers 3 EPOLLIN sample_started =
      Some (accept_one sample_env sample_setup True (7, ascii ''127.0.0.1'', True) sample_started)"
    by (simp add: dispatch_event_def sample_setup_def accept_pending_connections_def sample_answers_def
        MAX_ACCEPTS_PER_CALL_def eval_nat_numeral)
  have e: "event_fresh sample_env sample_setup sample_answers 3 sample_started"
    by (simp add: event_fresh_def sample_setup_def sample_answers_def MAX_ACCEPTS_PER_CALL_def fresh_descriptor_def
        eval_nat_numeral f)
  have n: "su_signal sample_setup = 5" by (simp add: sample_setup_def)
  show "fresh_rounds sample_env sample_setup last_sweep sample_rounds sample_started"
    by (simp add: sample_rounds_def d e n)
  show "\<exists>st'. run_rounds sample_env sample_setup last_sweep sample_rounds sample_started = Some (Stopped, st') \<and>
     ss_registry st' = ss_registry (accept_one sample_env sample_setup True (7, ascii ''127.0.0.1'', True) sample_started)"
    by (simp add: sample_rounds_def d n)
qed

lemma sample_accepted:
  "\<exists>c. find_connection (ss_registry (accept_one sample_env sample_setup True (7, ascii ''127.0.0.1'', True) sample_started)) 7 = Some c"
  by (simp add: accept_one_def case_prod_beta Let_def server_now_frame sample_started_simps insert_connection_def
      new_registry_def default_limits_def accepted_connection_def new_socket_def find_connection_def)

theorem server_keeps_invariants_witness:
  "\<exists>st' c. run_until_stopped sample_env sample_setup sample_rounds sample_server = Some (Stopped, st') \<and>
    find_connection (ss_registry st') 7 = Some c \<and> registry_ok (ss_registry st') \<and> sk_descriptor (cn_socket c) = 7"
proof -
  obtain st' where r: "run_until_stopped sample_env sample_setup sample_rounds sample_server = Some (Stopped, st')"
    and g: "ss_registry st' = ss_registry (accept_one sample_env sample_setup True (7, ascii ''127.0.0.1'', True) sample_started)"
    using sample_accepts(2) [of "fst (server_now sample_server)"]
    by (auto simp: run_until_stopped_def case_prod_beta sample_started_def)
  obtain c where c: "find_connection (ss_registry st') 7 = Some c" using sample_accepted g by auto
  from server_keeps_invariants [OF sample_server_init r sample_accepts(1) [unfolded sample_started_def]]
  show ?thesis using r c by blast
qed

section \<open>Isolation\<close>

lemma find_close:
  assumes "registry_ok (ss_registry st)"
  shows "find_connection (ss_registry (close_connection d st)) d' =
    (if d' = d then None else find_connection (ss_registry st) d')"
proof -
  have "map_of (filter (\<lambda>(e, _). e \<noteq> d) cs) d' = (if d' = d then None else map_of cs d')"
    for cs :: "(int \<times> client_connection) list" by (induction cs) auto
  then show ?thesis
    by (simp add: find_connection_def close_connection_def remove_connection_connections [OF registry_okD(1) [OF assms]])
qed

lemma find_put:
  "find_connection (ss_registry (put_context d policy s st)) d' =
    (if d' = d then map_option (\<lambda>_. hc_connection s) (find_connection (ss_registry st) d)
     else find_connection (ss_registry st) d')"
proof -
  have "map_of (map (\<lambda>(e, c). (e, if e = d then c' else c)) cs) d' =
      (if d' = d then map_option (\<lambda>_. c') (map_of cs d) else map_of cs d')"
    for c' and cs :: "(int \<times> client_connection) list" by (induction cs) auto
  then show ?thesis by (simp add: find_connection_def put_context_def update_connection_def)
qed

text \<open>
  C6. Clients do not reach each other's connections. An event on the connection of one client, with
  any input, leaves every other connection exactly as it was: its keys, its session, its buffers and
  its queue. Input that is refused, a hang-up and a write error close that connection and no other;
  nothing else can be found under the descriptor afterwards than the same client's connection.
\<close>

theorem client_event_isolated:
  assumes "server_ok e st" and "service_connection e k d events st = Some st'"
  shows "(d' \<noteq> d \<longrightarrow> find_connection (ss_registry st') d' = find_connection (ss_registry st) d') \<and>
    (\<forall>c'. find_connection (ss_registry st') d = Some c' \<longrightarrow>
       (\<exists>c. find_connection (ss_registry st) d = Some c \<and> peer_of c' = peer_of c \<and>
          events AND (EPOLLHUP OR EPOLLERR) = 0 \<and>
          (events AND EPOLLIN \<noteq> 0 \<longrightarrow> (\<exists>p s. process_connection_input e (ka_generated k) (ka_recvs k) (ss_policy st)
             (context_of c st) = Some (True, p, s))))) \<and>
    ss_admin st' = ss_admin st"
  using assms(2)
proof (cases rule: service_connection_cases)
  case gone
  then show ?thesis by simp
next
  case (hangup c)
  then show ?thesis using find_close [OF server_okD(1) [OF assms(1)]] by (simp add: close_connection_frame)
next
  case (served c ok policy s st1)
  note s = served_context [OF assms(1) served(1,2)]
  obtain s1 where s1: "input_ok e s1" "serves (context_of c st) s1" "st1 = put_context d policy s1 st"
    using served(3) s flushed_context [OF _ s(1)] serves_trans [OF s(2)] by blast
  have ok1: "registry_ok (ss_registry st1)" using put_context_ok [OF assms(1) served(1) s1(1,2)] s1(3) server_okD(1) by blast
  have f1: "find_connection (ss_registry st1) d' =
      (if d' = d then Some (hc_connection s1) else find_connection (ss_registry st) d')" for d'
    using find_put [of d policy s1 st d'] served(1) s1(3) by simp
  have a: "ss_admin st1 = ss_admin st" by (simp add: s1(3) put_context_def)
  have peer: "peer_of (hc_connection s1) = peer_of c" using s1(2) by (simp add: serves_def context_of_def peer_of_def)
  from served(4) show ?thesis
  proof
    assume st': "st' = st1 \<and> ok"
    then have "events AND EPOLLIN \<noteq> 0 \<longrightarrow> process_connection_input e (ka_generated k) (ka_recvs k) (ss_policy st)
        (context_of c st) = Some (True, policy, s)"
      using served(2) by (simp split: if_splits)
    then show ?thesis using st' f1 a peer served(1,5) by auto
  next
    assume "st' = close_connection d st1"
    then show ?thesis using find_close [OF ok1] f1 a by (simp add: close_connection_frame)
  qed
qed

definition sample_two :: server_state where
  "sample_two = accept_one sample_env sample_setup False (8, ascii ''10.0.0.1'', True)
     (accept_one sample_env sample_setup True (7, ascii ''127.0.0.1'', True) sample_started)"

lemma sample_two_found:
  "find_connection (ss_registry sample_two) 7 \<noteq> None" "find_connection (ss_registry sample_two) 8 \<noteq> None"
  by (simp_all add: sample_two_def accept_one_def case_prod_beta Let_def server_now_frame sample_started_simps
      insert_connection_def new_registry_def default_limits_def accepted_connection_def new_socket_def find_connection_def
      peer_of_def new_session_def ascii_def split: option.splits)

lemma sample_two_ok: "server_ok sample_env sample_two"
proof -
  let ?st = "accept_one sample_env sample_setup True (7, ascii ''127.0.0.1'', True) sample_started"
  have "server_ok sample_env sample_started"
    using server.init_inv [OF sample_server_init] by (simp add: sample_started_def server_now_ok)
  then have ok: "server_ok sample_env ?st"
    by (rule accept_one_ok) (simp add: fresh_descriptor_def sample_started_simps new_registry_def find_connection_def)
  have "fresh_descriptor 8 ?st"
    by (simp add: fresh_descriptor_def accept_one_def case_prod_beta Let_def server_now_frame sample_started_simps
        insert_connection_def new_registry_def default_limits_def accepted_connection_def new_socket_def find_connection_def)
  from accept_one_ok [OF ok this] show ?thesis by (simp add: sample_two_def)
qed

theorem client_event_isolated_witness:
  "\<exists>st'. service_connection sample_env sample_answers 7 EPOLLHUP sample_two = Some st' \<and>
    find_connection (ss_registry st') 7 = None \<and>
    find_connection (ss_registry st') 8 = find_connection (ss_registry sample_two) 8"
proof -
  have "service_connection sample_env sample_answers 7 EPOLLHUP sample_two = Some (close_connection 7 sample_two)"
    using sample_two_found(1) by (auto simp: service_connection_def EPOLLHUP_def EPOLLERR_def)
  from client_event_isolated [OF sample_two_ok this, of 8] this show ?thesis
    using find_close [OF server_okD(1) [OF sample_two_ok], of 7 7] by simp
qed

section \<open>Progress\<close>

definition send_stops :: "send_result \<Rightarrow> bool" where
  "send_stops r \<longleftrightarrow> r \<in> {Send_would_block, Send_error}"

text \<open>The sockets do not block: every sequence of reads, writes and accepts comes to an end.\<close>

definition answers_end :: "kernel_answers \<Rightarrow> bool" where
  "answers_end k \<longleftrightarrow> (\<exists>r\<in>set (ka_recvs k). recv_stops r) \<and> (\<exists>r\<in>set (ka_sends k). send_stops r) \<and>
     None \<in> set (ka_accepts k) \<and> None \<in> set (ka_admin_accepts k)"

lemma flush_ends: "\<exists>r\<in>set rs. send_stops r \<Longrightarrow> flush_pending_writes rs s \<noteq> None"
proof (induction rs arbitrary: s)
  case (Cons r rs)
  then show ?case
    by (cases "sk_pending_output s = []"; cases r) (auto simp: flush_simps send_stops_def)
qed simp

lemma flush_buffer_ends: "\<exists>r\<in>set rs. send_stops r \<Longrightarrow> flush_buffer rs b \<noteq> None"
proof (induction rs arbitrary: b)
  case (Cons r rs)
  then show ?case
    by (cases r) (auto simp: send_stops_def flush_buffer.simps [of "r # rs" for r])
qed simp

lemma read_into_buffer_ends: "\<exists>r\<in>set rs. recv_stops r \<Longrightarrow> read_into_buffer rs b \<noteq> None"
  by (induction rs b rule: read_into_buffer.induct) (auto simp: recv_stops_def)

lemma accept_loop_ends: "None \<in> set rs \<Longrightarrow> accept_loop e keys clearnet n rs st \<noteq> None"
  by (induction e keys clearnet n rs st rule: accept_loop.induct) auto

lemma accept_admin_ends: "None \<in> set rs \<Longrightarrow> accept_admin_connections rs service \<noteq> None"
  by (induction rs service rule: accept_admin_connections.induct) auto

lemma process_input_ends: "\<exists>r\<in>set rs. recv_stops r \<Longrightarrow> process_connection_input e g rs p s \<noteq> None"
proof -
  assume "\<exists>r\<in>set rs. recv_stops r"
  then obtain ok b where "read_available rs (input_of s) = Some (ok, b)" using read_available_stops by blast
  then show ?thesis by (cases ok) (simp_all add: process_connection_input_def)
qed

lemma service_connection_ends:
  assumes "answers_end k"
  shows "service_connection e k d events st \<noteq> None"
proof (cases "find_connection (ss_registry st) d")
  case (Some c)
  obtain ok p s where i: "(if events AND EPOLLIN \<noteq> 0
      then process_connection_input e (ka_generated k) (ka_recvs k) (ss_policy st) (context_of c st)
      else Some (True, ss_policy st, context_of c st)) = Some (ok, p, s)"
    using assms process_input_ends [of "ka_recvs k" e "ka_generated k" "ss_policy st" "context_of c st"]
    by (cases "events AND EPOLLIN \<noteq> 0") (auto simp: answers_end_def)
  obtain flushed remaining socket wire where
    "flush_pending_writes (ka_sends k) (cn_socket (hc_connection s)) = Some (flushed, remaining, socket, wire)"
    using assms flush_ends [of "ka_sends k" "cn_socket (hc_connection s)"] by (auto simp: answers_end_def)
  then show ?thesis
    unfolding service_connection_def Some option.case i by (cases ok) (simp_all add: Let_def)
qed (simp add: service_connection_def)

lemma service_admin_ends:
  assumes "answers_end k"
  shows "service_admin e k d st \<noteq> None"
proof (cases "map_of (ss_admin st) d")
  case None
  then show ?thesis by (simp add: service_admin_def service_admin_connection_def)
next
  case (Some a)
  have f: "\<exists>service'. finish_admin_response (ka_sends k) w service d a = Some service'" for w service a
    using assms flush_buffer_ends [of "ka_sends k" "am_output a"]
    by (auto simp: answers_end_def finish_admin_response_def)
  obtain ok b where r: "read_into_buffer (ka_recvs k) (am_input a) = Some (ok, b)"
    using assms read_into_buffer_ends [of "ka_recvs k" "am_input a"] by (auto simp: answers_end_def)
  have "service_admin_connection e (ka_backup k) (ka_recvs k) (ka_sends k) (ka_watched k) d (ss_admin st) x \<noteq> None" for x
    using f [of "ka_watched k" "ss_admin st"]
    by (cases ok) (auto simp: service_admin_connection_def Some r case_prod_beta Let_def)
  then show ?thesis by (auto simp: service_admin_def split: option.splits)
qed

lemma accept_loop_bound:
  "accept_loop e keys clearnet n rs st = Some st' \<Longrightarrow>
   length (cg_connections (ss_registry st')) \<le> length (cg_connections (ss_registry st)) + n"
proof (induction e keys clearnet n rs st rule: accept_loop.induct)
  case (4 e keys clearnet n a rs st)
  have ins: "length (cg_connections (snd (insert_connection g (Some c)))) \<le> Suc (length (cg_connections g))" for g c
    by (simp add: insert_connection_def Let_def split: option.split)
  have rem: "length (cg_connections (remove_connection g d)) \<le> length (cg_connections g)" for g d
    by (auto simp: remove_connection_def Let_def split: option.splits)
  have both: "length (cg_connections (remove_connection (snd (insert_connection g (Some c))) d)) \<le> Suc (length (cg_connections g))"
    for g c d using ins rem le_trans by blast
  have "length (cg_connections (ss_registry (accept_one e keys clearnet a st))) \<le> Suc (length (cg_connections (ss_registry st)))"
    using ins both
    by (simp add: accept_one_def case_prod_beta Let_def server_now_frame close_connection_def)
  with 4 show ?case by fastforce
qed auto

text \<open>
  C7. No event can hold up the server. Whatever a client or the administration sends, the handling of
  one event ends as soon as the sockets answer that they would block, closed or failed; one event
  accepts at most 32 connections, so that the connections already open get their turn.
\<close>

theorem events_end:
  assumes "answers_end k"
  shows "\<exists>st'. dispatch_event e keys k d events st = Some st' \<and>
    (d \<in> {su_clearnet keys, su_onion keys} \<longrightarrow>
       length (cg_connections (ss_registry st')) \<le> length (cg_connections (ss_registry st)) + 32)"
proof -
  have "accept_pending_connections e keys clearnet k st \<noteq> None" for clearnet
    using assms accept_loop_ends by (simp add: accept_pending_connections_def answers_end_def)
  moreover have "accept_admin_connections (ka_admin_accepts k) (ss_admin st) \<noteq> None"
    using assms accept_admin_ends by (simp add: answers_end_def)
  ultimately have "dispatch_event e keys k d events st \<noteq> None"
    using service_connection_ends [OF assms] service_admin_ends [OF assms] by (auto simp: dispatch_event_def)
  then obtain st' where st': "dispatch_event e keys k d events st = Some st'" by blast
  have "length (cg_connections (ss_registry st')) \<le> length (cg_connections (ss_registry st)) + 32"
    if "d \<in> {su_clearnet keys, su_onion keys}"
    using st' that accept_loop_bound [of e keys _ 32 "ka_accepts k" st st']
    by (auto simp: dispatch_event_def accept_pending_connections_def MAX_ACCEPTS_PER_CALL_def split: if_splits)
  with st' show ?thesis by blast
qed

theorem events_end_witness:
  "\<exists>st'. dispatch_event sample_env sample_setup sample_answers 3 EPOLLIN sample_started = Some st' \<and>
     length (cg_connections (ss_registry st')) \<le> 32"
proof -
  have "answers_end sample_answers" by (simp add: answers_end_def sample_answers_def recv_stops_def send_stops_def)
  from events_end [OF this, of sample_env sample_setup 3 EPOLLIN sample_started] show ?thesis
    by (auto simp: sample_setup_def sample_started_simps new_registry_def)
qed

text \<open>
  A signal stops the server. In the round in which the signal descriptor becomes readable, the
  events before it are handled, the ones after it are not, and the loop returns with success.
\<close>

theorem signal_stops_server:
  assumes "su_signal keys \<notin> fst ` set before" and "run_events e keys before st = Some (False, st1)"
  shows "run_rounds e keys last_sweep (Some (before @ (su_signal keys, events, k) # later) # rounds) st =
    Some (Stopped, st1\<lparr>ss_logger := write_entry (he_log_stamp e) LL_info
      (ascii ''signal recu, arret du serveur'') (ss_logger st1)\<rparr>)"
proof -
  have "run_events e keys (before @ (su_signal keys, events, k) # later) st =
    Some (True, st1\<lparr>ss_logger := write_entry (he_log_stamp e) LL_info
      (ascii ''signal recu, arret du serveur'') (ss_logger st1)\<rparr>)"
    using assms by (induction e keys before st rule: run_events.induct) (auto split: option.splits)
  then show ?thesis by simp
qed

theorem signal_stops_server_witness:
  "fst (the (run_rounds sample_env sample_setup 0
     [Some [(3, EPOLLIN, sample_answers), (5, EPOLLIN, sample_answers), (7, EPOLLIN, sample_answers)]] sample_started)) = Stopped"
proof -
  have n: "su_signal sample_setup = 5" by (simp add: sample_setup_def)
  obtain st1 where "run_events sample_env sample_setup [(3, EPOLLIN, sample_answers)] sample_started = Some (False, st1)"
    by (simp add: n dispatch_event_def sample_setup_def accept_pending_connections_def sample_answers_def
        MAX_ACCEPTS_PER_CALL_def eval_nat_numeral)
  from signal_stops_server [OF _ this, of 0 EPOLLIN sample_answers "[(7, EPOLLIN, sample_answers)]" "[]"]
  show ?thesis by (simp add: n)
qed

end
