(* ===== verification/Word_List.thy ===== *)
theory Word_List
  imports Byte_Codec
begin

text \<open>
  The word list of the recovery phrases (\<^verbatim>\<open>recovery_wordlist.cpp\<close>), in its order, and the two facts the
  code relies on: it has 2048 words and it is sorted.
\<close>

definition words_0 :: "string list" where
  "words_0 = [
    ''abandon'', ''ability'', ''able'', ''about'', ''above'', ''absent'', ''absorb'', ''abstract'', ''absurd'',
    ''abuse'', ''access'', ''accident'', ''account'', ''accuse'', ''achieve'', ''acid'', ''acoustic'',
    ''acquire'', ''across'', ''act'', ''action'', ''actor'', ''actress'', ''actual'', ''adapt'', ''add'',
    ''addict'', ''address'', ''adjust'', ''admit'', ''adult'', ''advance'', ''advice'', ''aerobic'', ''affair'',
    ''afford'', ''afraid'', ''again'', ''age'', ''agent'', ''agree'', ''ahead'', ''aim'', ''air'', ''airport'',
    ''aisle'', ''alarm'', ''album'', ''alcohol'', ''alert'', ''alien'', ''all'', ''alley'', ''allow'', ''almost'',
    ''alone'', ''alpha'', ''already'', ''also'', ''alter'', ''always'', ''amateur'', ''amazing'', ''among'',
    ''amount'', ''amused'', ''analyst'', ''anchor'', ''ancient'', ''anger'', ''angle'', ''angry'', ''animal'',
    ''ankle'', ''announce'', ''annual'', ''another'', ''answer'', ''antenna'', ''antique'', ''anxiety'', ''any'',
    ''apart'', ''apology'', ''appear'', ''apple'', ''approve'', ''april'', ''arch'', ''arctic'', ''area'',
    ''arena'', ''argue'', ''arm'', ''armed'', ''armor'', ''army'', ''around'', ''arrange'', ''arrest'',
    ''arrive'', ''arrow'', ''art'', ''artefact'', ''artist'', ''artwork'', ''ask'', ''aspect'', ''assault'',
    ''asset'', ''assist'', ''assume'', ''asthma'', ''athlete'', ''atom'', ''attack'', ''attend'', ''attitude'',
    ''attract'', ''auction'', ''audit'', ''august'', ''aunt'', ''author'', ''auto'', ''autumn'', ''average'',
    ''avocado'']"

definition words_1 :: "string list" where
  "words_1 = [
    ''avoid'', ''awake'', ''aware'', ''away'', ''awesome'', ''awful'', ''awkward'', ''axis'', ''baby'',
    ''bachelor'', ''bacon'', ''badge'', ''bag'', ''balance'', ''balcony'', ''ball'', ''bamboo'', ''banana'',
    ''banner'', ''bar'', ''barely'', ''bargain'', ''barrel'', ''base'', ''basic'', ''basket'', ''battle'',
    ''beach'', ''bean'', ''beauty'', ''because'', ''become'', ''beef'', ''before'', ''begin'', ''behave'',
    ''behind'', ''believe'', ''below'', ''belt'', ''bench'', ''benefit'', ''best'', ''betray'', ''better'',
    ''between'', ''beyond'', ''bicycle'', ''bid'', ''bike'', ''bind'', ''biology'', ''bird'', ''birth'',
    ''bitter'', ''black'', ''blade'', ''blame'', ''blanket'', ''blast'', ''bleak'', ''bless'', ''blind'',
    ''blood'', ''blossom'', ''blouse'', ''blue'', ''blur'', ''blush'', ''board'', ''boat'', ''body'', ''boil'',
    ''bomb'', ''bone'', ''bonus'', ''book'', ''boost'', ''border'', ''boring'', ''borrow'', ''boss'', ''bottom'',
    ''bounce'', ''box'', ''boy'', ''bracket'', ''brain'', ''brand'', ''brass'', ''brave'', ''bread'', ''breeze'',
    ''brick'', ''bridge'', ''brief'', ''bright'', ''bring'', ''brisk'', ''broccoli'', ''broken'', ''bronze'',
    ''broom'', ''brother'', ''brown'', ''brush'', ''bubble'', ''buddy'', ''budget'', ''buffalo'', ''build'',
    ''bulb'', ''bulk'', ''bullet'', ''bundle'', ''bunker'', ''burden'', ''burger'', ''burst'', ''bus'',
    ''business'', ''busy'', ''butter'', ''buyer'', ''buzz'', ''cabbage'', ''cabin'', ''cable'']"

definition words_2 :: "string list" where
  "words_2 = [
    ''cactus'', ''cage'', ''cake'', ''call'', ''calm'', ''camera'', ''camp'', ''can'', ''canal'', ''cancel'',
    ''candy'', ''cannon'', ''canoe'', ''canvas'', ''canyon'', ''capable'', ''capital'', ''captain'', ''car'',
    ''carbon'', ''card'', ''cargo'', ''carpet'', ''carry'', ''cart'', ''case'', ''cash'', ''casino'', ''castle'',
    ''casual'', ''cat'', ''catalog'', ''catch'', ''category'', ''cattle'', ''caught'', ''cause'', ''caution'',
    ''cave'', ''ceiling'', ''celery'', ''cement'', ''census'', ''century'', ''cereal'', ''certain'', ''chair'',
    ''chalk'', ''champion'', ''change'', ''chaos'', ''chapter'', ''charge'', ''chase'', ''chat'', ''cheap'',
    ''check'', ''cheese'', ''chef'', ''cherry'', ''chest'', ''chicken'', ''chief'', ''child'', ''chimney'',
    ''choice'', ''choose'', ''chronic'', ''chuckle'', ''chunk'', ''churn'', ''cigar'', ''cinnamon'', ''circle'',
    ''citizen'', ''city'', ''civil'', ''claim'', ''clap'', ''clarify'', ''claw'', ''clay'', ''clean'', ''clerk'',
    ''clever'', ''click'', ''client'', ''cliff'', ''climb'', ''clinic'', ''clip'', ''clock'', ''clog'', ''close'',
    ''cloth'', ''cloud'', ''clown'', ''club'', ''clump'', ''cluster'', ''clutch'', ''coach'', ''coast'',
    ''coconut'', ''code'', ''coffee'', ''coil'', ''coin'', ''collect'', ''color'', ''column'', ''combine'',
    ''come'', ''comfort'', ''comic'', ''common'', ''company'', ''concert'', ''conduct'', ''confirm'',
    ''congress'', ''connect'', ''consider'', ''control'', ''convince'', ''cook'', ''cool'', ''copper'']"

definition words_3 :: "string list" where
  "words_3 = [
    ''copy'', ''coral'', ''core'', ''corn'', ''correct'', ''cost'', ''cotton'', ''couch'', ''country'',
    ''couple'', ''course'', ''cousin'', ''cover'', ''coyote'', ''crack'', ''cradle'', ''craft'', ''cram'',
    ''crane'', ''crash'', ''crater'', ''crawl'', ''crazy'', ''cream'', ''credit'', ''creek'', ''crew'',
    ''cricket'', ''crime'', ''crisp'', ''critic'', ''crop'', ''cross'', ''crouch'', ''crowd'', ''crucial'',
    ''cruel'', ''cruise'', ''crumble'', ''crunch'', ''crush'', ''cry'', ''crystal'', ''cube'', ''culture'',
    ''cup'', ''cupboard'', ''curious'', ''current'', ''curtain'', ''curve'', ''cushion'', ''custom'', ''cute'',
    ''cycle'', ''dad'', ''damage'', ''damp'', ''dance'', ''danger'', ''daring'', ''dash'', ''daughter'', ''dawn'',
    ''day'', ''deal'', ''debate'', ''debris'', ''decade'', ''december'', ''decide'', ''decline'', ''decorate'',
    ''decrease'', ''deer'', ''defense'', ''define'', ''defy'', ''degree'', ''delay'', ''deliver'', ''demand'',
    ''demise'', ''denial'', ''dentist'', ''deny'', ''depart'', ''depend'', ''deposit'', ''depth'', ''deputy'',
    ''derive'', ''describe'', ''desert'', ''design'', ''desk'', ''despair'', ''destroy'', ''detail'', ''detect'',
    ''develop'', ''device'', ''devote'', ''diagram'', ''dial'', ''diamond'', ''diary'', ''dice'', ''diesel'',
    ''diet'', ''differ'', ''digital'', ''dignity'', ''dilemma'', ''dinner'', ''dinosaur'', ''direct'', ''dirt'',
    ''disagree'', ''discover'', ''disease'', ''dish'', ''dismiss'', ''disorder'', ''display'', ''distance'',
    ''divert'', ''divide'']"

definition words_4 :: "string list" where
  "words_4 = [
    ''divorce'', ''dizzy'', ''doctor'', ''document'', ''dog'', ''doll'', ''dolphin'', ''domain'', ''donate'',
    ''donkey'', ''donor'', ''door'', ''dose'', ''double'', ''dove'', ''draft'', ''dragon'', ''drama'',
    ''drastic'', ''draw'', ''dream'', ''dress'', ''drift'', ''drill'', ''drink'', ''drip'', ''drive'', ''drop'',
    ''drum'', ''dry'', ''duck'', ''dumb'', ''dune'', ''during'', ''dust'', ''dutch'', ''duty'', ''dwarf'',
    ''dynamic'', ''eager'', ''eagle'', ''early'', ''earn'', ''earth'', ''easily'', ''east'', ''easy'', ''echo'',
    ''ecology'', ''economy'', ''edge'', ''edit'', ''educate'', ''effort'', ''egg'', ''eight'', ''either'',
    ''elbow'', ''elder'', ''electric'', ''elegant'', ''element'', ''elephant'', ''elevator'', ''elite'', ''else'',
    ''embark'', ''embody'', ''embrace'', ''emerge'', ''emotion'', ''employ'', ''empower'', ''empty'', ''enable'',
    ''enact'', ''end'', ''endless'', ''endorse'', ''enemy'', ''energy'', ''enforce'', ''engage'', ''engine'',
    ''enhance'', ''enjoy'', ''enlist'', ''enough'', ''enrich'', ''enroll'', ''ensure'', ''enter'', ''entire'',
    ''entry'', ''envelope'', ''episode'', ''equal'', ''equip'', ''era'', ''erase'', ''erode'', ''erosion'',
    ''error'', ''erupt'', ''escape'', ''essay'', ''essence'', ''estate'', ''eternal'', ''ethics'', ''evidence'',
    ''evil'', ''evoke'', ''evolve'', ''exact'', ''example'', ''excess'', ''exchange'', ''excite'', ''exclude'',
    ''excuse'', ''execute'', ''exercise'', ''exhaust'', ''exhibit'', ''exile'', ''exist'', ''exit'']"

definition words_5 :: "string list" where
  "words_5 = [
    ''exotic'', ''expand'', ''expect'', ''expire'', ''explain'', ''expose'', ''express'', ''extend'', ''extra'',
    ''eye'', ''eyebrow'', ''fabric'', ''face'', ''faculty'', ''fade'', ''faint'', ''faith'', ''fall'', ''false'',
    ''fame'', ''family'', ''famous'', ''fan'', ''fancy'', ''fantasy'', ''farm'', ''fashion'', ''fat'', ''fatal'',
    ''father'', ''fatigue'', ''fault'', ''favorite'', ''feature'', ''february'', ''federal'', ''fee'', ''feed'',
    ''feel'', ''female'', ''fence'', ''festival'', ''fetch'', ''fever'', ''few'', ''fiber'', ''fiction'',
    ''field'', ''figure'', ''file'', ''film'', ''filter'', ''final'', ''find'', ''fine'', ''finger'', ''finish'',
    ''fire'', ''firm'', ''first'', ''fiscal'', ''fish'', ''fit'', ''fitness'', ''fix'', ''flag'', ''flame'',
    ''flash'', ''flat'', ''flavor'', ''flee'', ''flight'', ''flip'', ''float'', ''flock'', ''floor'', ''flower'',
    ''fluid'', ''flush'', ''fly'', ''foam'', ''focus'', ''fog'', ''foil'', ''fold'', ''follow'', ''food'',
    ''foot'', ''force'', ''forest'', ''forget'', ''fork'', ''fortune'', ''forum'', ''forward'', ''fossil'',
    ''foster'', ''found'', ''fox'', ''fragile'', ''frame'', ''frequent'', ''fresh'', ''friend'', ''fringe'',
    ''frog'', ''front'', ''frost'', ''frown'', ''frozen'', ''fruit'', ''fuel'', ''fun'', ''funny'', ''furnace'',
    ''fury'', ''future'', ''gadget'', ''gain'', ''galaxy'', ''gallery'', ''game'', ''gap'', ''garage'',
    ''garbage'', ''garden'', ''garlic'', ''garment'']"

definition words_6 :: "string list" where
  "words_6 = [
    ''gas'', ''gasp'', ''gate'', ''gather'', ''gauge'', ''gaze'', ''general'', ''genius'', ''genre'', ''gentle'',
    ''genuine'', ''gesture'', ''ghost'', ''giant'', ''gift'', ''giggle'', ''ginger'', ''giraffe'', ''girl'',
    ''give'', ''glad'', ''glance'', ''glare'', ''glass'', ''glide'', ''glimpse'', ''globe'', ''gloom'', ''glory'',
    ''glove'', ''glow'', ''glue'', ''goat'', ''goddess'', ''gold'', ''good'', ''goose'', ''gorilla'', ''gospel'',
    ''gossip'', ''govern'', ''gown'', ''grab'', ''grace'', ''grain'', ''grant'', ''grape'', ''grass'',
    ''gravity'', ''great'', ''green'', ''grid'', ''grief'', ''grit'', ''grocery'', ''group'', ''grow'', ''grunt'',
    ''guard'', ''guess'', ''guide'', ''guilt'', ''guitar'', ''gun'', ''gym'', ''habit'', ''hair'', ''half'',
    ''hammer'', ''hamster'', ''hand'', ''happy'', ''harbor'', ''hard'', ''harsh'', ''harvest'', ''hat'', ''have'',
    ''hawk'', ''hazard'', ''head'', ''health'', ''heart'', ''heavy'', ''hedgehog'', ''height'', ''hello'',
    ''helmet'', ''help'', ''hen'', ''hero'', ''hidden'', ''high'', ''hill'', ''hint'', ''hip'', ''hire'',
    ''history'', ''hobby'', ''hockey'', ''hold'', ''hole'', ''holiday'', ''hollow'', ''home'', ''honey'',
    ''hood'', ''hope'', ''horn'', ''horror'', ''horse'', ''hospital'', ''host'', ''hotel'', ''hour'', ''hover'',
    ''hub'', ''huge'', ''human'', ''humble'', ''humor'', ''hundred'', ''hungry'', ''hunt'', ''hurdle'', ''hurry'',
    ''hurt'', ''husband'']"

definition words_7 :: "string list" where
  "words_7 = [
    ''hybrid'', ''ice'', ''icon'', ''idea'', ''identify'', ''idle'', ''ignore'', ''ill'', ''illegal'',
    ''illness'', ''image'', ''imitate'', ''immense'', ''immune'', ''impact'', ''impose'', ''improve'',
    ''impulse'', ''inch'', ''include'', ''income'', ''increase'', ''index'', ''indicate'', ''indoor'',
    ''industry'', ''infant'', ''inflict'', ''inform'', ''inhale'', ''inherit'', ''initial'', ''inject'',
    ''injury'', ''inmate'', ''inner'', ''innocent'', ''input'', ''inquiry'', ''insane'', ''insect'', ''inside'',
    ''inspire'', ''install'', ''intact'', ''interest'', ''into'', ''invest'', ''invite'', ''involve'', ''iron'',
    ''island'', ''isolate'', ''issue'', ''item'', ''ivory'', ''jacket'', ''jaguar'', ''jar'', ''jazz'',
    ''jealous'', ''jeans'', ''jelly'', ''jewel'', ''job'', ''join'', ''joke'', ''journey'', ''joy'', ''judge'',
    ''juice'', ''jump'', ''jungle'', ''junior'', ''junk'', ''just'', ''kangaroo'', ''keen'', ''keep'',
    ''ketchup'', ''key'', ''kick'', ''kid'', ''kidney'', ''kind'', ''kingdom'', ''kiss'', ''kit'', ''kitchen'',
    ''kite'', ''kitten'', ''kiwi'', ''knee'', ''knife'', ''knock'', ''know'', ''lab'', ''label'', ''labor'',
    ''ladder'', ''lady'', ''lake'', ''lamp'', ''language'', ''laptop'', ''large'', ''later'', ''latin'',
    ''laugh'', ''laundry'', ''lava'', ''law'', ''lawn'', ''lawsuit'', ''layer'', ''lazy'', ''leader'', ''leaf'',
    ''learn'', ''leave'', ''lecture'', ''left'', ''leg'', ''legal'', ''legend'', ''leisure'', ''lemon'', ''lend'']"

definition words_8 :: "string list" where
  "words_8 = [
    ''length'', ''lens'', ''leopard'', ''lesson'', ''letter'', ''level'', ''liar'', ''liberty'', ''library'',
    ''license'', ''life'', ''lift'', ''light'', ''like'', ''limb'', ''limit'', ''link'', ''lion'', ''liquid'',
    ''list'', ''little'', ''live'', ''lizard'', ''load'', ''loan'', ''lobster'', ''local'', ''lock'', ''logic'',
    ''lonely'', ''long'', ''loop'', ''lottery'', ''loud'', ''lounge'', ''love'', ''loyal'', ''lucky'',
    ''luggage'', ''lumber'', ''lunar'', ''lunch'', ''luxury'', ''lyrics'', ''machine'', ''mad'', ''magic'',
    ''magnet'', ''maid'', ''mail'', ''main'', ''major'', ''make'', ''mammal'', ''man'', ''manage'', ''mandate'',
    ''mango'', ''mansion'', ''manual'', ''maple'', ''marble'', ''march'', ''margin'', ''marine'', ''market'',
    ''marriage'', ''mask'', ''mass'', ''master'', ''match'', ''material'', ''math'', ''matrix'', ''matter'',
    ''maximum'', ''maze'', ''meadow'', ''mean'', ''measure'', ''meat'', ''mechanic'', ''medal'', ''media'',
    ''melody'', ''melt'', ''member'', ''memory'', ''mention'', ''menu'', ''mercy'', ''merge'', ''merit'',
    ''merry'', ''mesh'', ''message'', ''metal'', ''method'', ''middle'', ''midnight'', ''milk'', ''million'',
    ''mimic'', ''mind'', ''minimum'', ''minor'', ''minute'', ''miracle'', ''mirror'', ''misery'', ''miss'',
    ''mistake'', ''mix'', ''mixed'', ''mixture'', ''mobile'', ''model'', ''modify'', ''mom'', ''moment'',
    ''monitor'', ''monkey'', ''monster'', ''month'', ''moon'', ''moral'', ''more'', ''morning'']"

definition words_9 :: "string list" where
  "words_9 = [
    ''mosquito'', ''mother'', ''motion'', ''motor'', ''mountain'', ''mouse'', ''move'', ''movie'', ''much'',
    ''muffin'', ''mule'', ''multiply'', ''muscle'', ''museum'', ''mushroom'', ''music'', ''must'', ''mutual'',
    ''myself'', ''mystery'', ''myth'', ''naive'', ''name'', ''napkin'', ''narrow'', ''nasty'', ''nation'',
    ''nature'', ''near'', ''neck'', ''need'', ''negative'', ''neglect'', ''neither'', ''nephew'', ''nerve'',
    ''nest'', ''net'', ''network'', ''neutral'', ''never'', ''news'', ''next'', ''nice'', ''night'', ''noble'',
    ''noise'', ''nominee'', ''noodle'', ''normal'', ''north'', ''nose'', ''notable'', ''note'', ''nothing'',
    ''notice'', ''novel'', ''now'', ''nuclear'', ''number'', ''nurse'', ''nut'', ''oak'', ''obey'', ''object'',
    ''oblige'', ''obscure'', ''observe'', ''obtain'', ''obvious'', ''occur'', ''ocean'', ''october'', ''odor'',
    ''off'', ''offer'', ''office'', ''often'', ''oil'', ''okay'', ''old'', ''olive'', ''olympic'', ''omit'',
    ''once'', ''one'', ''onion'', ''online'', ''only'', ''open'', ''opera'', ''opinion'', ''oppose'', ''option'',
    ''orange'', ''orbit'', ''orchard'', ''order'', ''ordinary'', ''organ'', ''orient'', ''original'', ''orphan'',
    ''ostrich'', ''other'', ''outdoor'', ''outer'', ''output'', ''outside'', ''oval'', ''oven'', ''over'',
    ''own'', ''owner'', ''oxygen'', ''oyster'', ''ozone'', ''pact'', ''paddle'', ''page'', ''pair'', ''palace'',
    ''palm'', ''panda'', ''panel'', ''panic'', ''panther'', ''paper'']"

definition words_10 :: "string list" where
  "words_10 = [
    ''parade'', ''parent'', ''park'', ''parrot'', ''party'', ''pass'', ''patch'', ''path'', ''patient'',
    ''patrol'', ''pattern'', ''pause'', ''pave'', ''payment'', ''peace'', ''peanut'', ''pear'', ''peasant'',
    ''pelican'', ''pen'', ''penalty'', ''pencil'', ''people'', ''pepper'', ''perfect'', ''permit'', ''person'',
    ''pet'', ''phone'', ''photo'', ''phrase'', ''physical'', ''piano'', ''picnic'', ''picture'', ''piece'',
    ''pig'', ''pigeon'', ''pill'', ''pilot'', ''pink'', ''pioneer'', ''pipe'', ''pistol'', ''pitch'', ''pizza'',
    ''place'', ''planet'', ''plastic'', ''plate'', ''play'', ''please'', ''pledge'', ''pluck'', ''plug'',
    ''plunge'', ''poem'', ''poet'', ''point'', ''polar'', ''pole'', ''police'', ''pond'', ''pony'', ''pool'',
    ''popular'', ''portion'', ''position'', ''possible'', ''post'', ''potato'', ''pottery'', ''poverty'',
    ''powder'', ''power'', ''practice'', ''praise'', ''predict'', ''prefer'', ''prepare'', ''present'',
    ''pretty'', ''prevent'', ''price'', ''pride'', ''primary'', ''print'', ''priority'', ''prison'', ''private'',
    ''prize'', ''problem'', ''process'', ''produce'', ''profit'', ''program'', ''project'', ''promote'',
    ''proof'', ''property'', ''prosper'', ''protect'', ''proud'', ''provide'', ''public'', ''pudding'', ''pull'',
    ''pulp'', ''pulse'', ''pumpkin'', ''punch'', ''pupil'', ''puppy'', ''purchase'', ''purity'', ''purpose'',
    ''purse'', ''push'', ''put'', ''puzzle'', ''pyramid'', ''quality'', ''quantum'', ''quarter'', ''question'',
    ''quick'', ''quit'', ''quiz'']"

definition words_11 :: "string list" where
  "words_11 = [
    ''quote'', ''rabbit'', ''raccoon'', ''race'', ''rack'', ''radar'', ''radio'', ''rail'', ''rain'', ''raise'',
    ''rally'', ''ramp'', ''ranch'', ''random'', ''range'', ''rapid'', ''rare'', ''rate'', ''rather'', ''raven'',
    ''raw'', ''razor'', ''ready'', ''real'', ''reason'', ''rebel'', ''rebuild'', ''recall'', ''receive'',
    ''recipe'', ''record'', ''recycle'', ''reduce'', ''reflect'', ''reform'', ''refuse'', ''region'', ''regret'',
    ''regular'', ''reject'', ''relax'', ''release'', ''relief'', ''rely'', ''remain'', ''remember'', ''remind'',
    ''remove'', ''render'', ''renew'', ''rent'', ''reopen'', ''repair'', ''repeat'', ''replace'', ''report'',
    ''require'', ''rescue'', ''resemble'', ''resist'', ''resource'', ''response'', ''result'', ''retire'',
    ''retreat'', ''return'', ''reunion'', ''reveal'', ''review'', ''reward'', ''rhythm'', ''rib'', ''ribbon'',
    ''rice'', ''rich'', ''ride'', ''ridge'', ''rifle'', ''right'', ''rigid'', ''ring'', ''riot'', ''ripple'',
    ''risk'', ''ritual'', ''rival'', ''river'', ''road'', ''roast'', ''robot'', ''robust'', ''rocket'',
    ''romance'', ''roof'', ''rookie'', ''room'', ''rose'', ''rotate'', ''rough'', ''round'', ''route'', ''royal'',
    ''rubber'', ''rude'', ''rug'', ''rule'', ''run'', ''runway'', ''rural'', ''sad'', ''saddle'', ''sadness'',
    ''safe'', ''sail'', ''salad'', ''salmon'', ''salon'', ''salt'', ''salute'', ''same'', ''sample'', ''sand'',
    ''satisfy'', ''satoshi'', ''sauce'', ''sausage'', ''save'', ''say'']"

definition words_12 :: "string list" where
  "words_12 = [
    ''scale'', ''scan'', ''scare'', ''scatter'', ''scene'', ''scheme'', ''school'', ''science'', ''scissors'',
    ''scorpion'', ''scout'', ''scrap'', ''screen'', ''script'', ''scrub'', ''sea'', ''search'', ''season'',
    ''seat'', ''second'', ''secret'', ''section'', ''security'', ''seed'', ''seek'', ''segment'', ''select'',
    ''sell'', ''seminar'', ''senior'', ''sense'', ''sentence'', ''series'', ''service'', ''session'', ''settle'',
    ''setup'', ''seven'', ''shadow'', ''shaft'', ''shallow'', ''share'', ''shed'', ''shell'', ''sheriff'',
    ''shield'', ''shift'', ''shine'', ''ship'', ''shiver'', ''shock'', ''shoe'', ''shoot'', ''shop'', ''short'',
    ''shoulder'', ''shove'', ''shrimp'', ''shrug'', ''shuffle'', ''shy'', ''sibling'', ''sick'', ''side'',
    ''siege'', ''sight'', ''sign'', ''silent'', ''silk'', ''silly'', ''silver'', ''similar'', ''simple'',
    ''since'', ''sing'', ''siren'', ''sister'', ''situate'', ''six'', ''size'', ''skate'', ''sketch'', ''ski'',
    ''skill'', ''skin'', ''skirt'', ''skull'', ''slab'', ''slam'', ''sleep'', ''slender'', ''slice'', ''slide'',
    ''slight'', ''slim'', ''slogan'', ''slot'', ''slow'', ''slush'', ''small'', ''smart'', ''smile'', ''smoke'',
    ''smooth'', ''snack'', ''snake'', ''snap'', ''sniff'', ''snow'', ''soap'', ''soccer'', ''social'', ''sock'',
    ''soda'', ''soft'', ''solar'', ''soldier'', ''solid'', ''solution'', ''solve'', ''someone'', ''song'',
    ''soon'', ''sorry'', ''sort'', ''soul'', ''sound'', ''soup'']"

definition words_13 :: "string list" where
  "words_13 = [
    ''source'', ''south'', ''space'', ''spare'', ''spatial'', ''spawn'', ''speak'', ''special'', ''speed'',
    ''spell'', ''spend'', ''sphere'', ''spice'', ''spider'', ''spike'', ''spin'', ''spirit'', ''split'',
    ''spoil'', ''sponsor'', ''spoon'', ''sport'', ''spot'', ''spray'', ''spread'', ''spring'', ''spy'',
    ''square'', ''squeeze'', ''squirrel'', ''stable'', ''stadium'', ''staff'', ''stage'', ''stairs'', ''stamp'',
    ''stand'', ''start'', ''state'', ''stay'', ''steak'', ''steel'', ''stem'', ''step'', ''stereo'', ''stick'',
    ''still'', ''sting'', ''stock'', ''stomach'', ''stone'', ''stool'', ''story'', ''stove'', ''strategy'',
    ''street'', ''strike'', ''strong'', ''struggle'', ''student'', ''stuff'', ''stumble'', ''style'', ''subject'',
    ''submit'', ''subway'', ''success'', ''such'', ''sudden'', ''suffer'', ''sugar'', ''suggest'', ''suit'',
    ''summer'', ''sun'', ''sunny'', ''sunset'', ''super'', ''supply'', ''supreme'', ''sure'', ''surface'',
    ''surge'', ''surprise'', ''surround'', ''survey'', ''suspect'', ''sustain'', ''swallow'', ''swamp'', ''swap'',
    ''swarm'', ''swear'', ''sweet'', ''swift'', ''swim'', ''swing'', ''switch'', ''sword'', ''symbol'',
    ''symptom'', ''syrup'', ''system'', ''table'', ''tackle'', ''tag'', ''tail'', ''talent'', ''talk'', ''tank'',
    ''tape'', ''target'', ''task'', ''taste'', ''tattoo'', ''taxi'', ''teach'', ''team'', ''tell'', ''ten'',
    ''tenant'', ''tennis'', ''tent'', ''term'', ''test'', ''text'', ''thank'', ''that'']"

definition words_14 :: "string list" where
  "words_14 = [
    ''theme'', ''then'', ''theory'', ''there'', ''they'', ''thing'', ''this'', ''thought'', ''three'', ''thrive'',
    ''throw'', ''thumb'', ''thunder'', ''ticket'', ''tide'', ''tiger'', ''tilt'', ''timber'', ''time'', ''tiny'',
    ''tip'', ''tired'', ''tissue'', ''title'', ''toast'', ''tobacco'', ''today'', ''toddler'', ''toe'',
    ''together'', ''toilet'', ''token'', ''tomato'', ''tomorrow'', ''tone'', ''tongue'', ''tonight'', ''tool'',
    ''tooth'', ''top'', ''topic'', ''topple'', ''torch'', ''tornado'', ''tortoise'', ''toss'', ''total'',
    ''tourist'', ''toward'', ''tower'', ''town'', ''toy'', ''track'', ''trade'', ''traffic'', ''tragic'',
    ''train'', ''transfer'', ''trap'', ''trash'', ''travel'', ''tray'', ''treat'', ''tree'', ''trend'', ''trial'',
    ''tribe'', ''trick'', ''trigger'', ''trim'', ''trip'', ''trophy'', ''trouble'', ''truck'', ''true'',
    ''truly'', ''trumpet'', ''trust'', ''truth'', ''try'', ''tube'', ''tuition'', ''tumble'', ''tuna'',
    ''tunnel'', ''turkey'', ''turn'', ''turtle'', ''twelve'', ''twenty'', ''twice'', ''twin'', ''twist'', ''two'',
    ''type'', ''typical'', ''ugly'', ''umbrella'', ''unable'', ''unaware'', ''uncle'', ''uncover'', ''under'',
    ''undo'', ''unfair'', ''unfold'', ''unhappy'', ''uniform'', ''unique'', ''unit'', ''universe'', ''unknown'',
    ''unlock'', ''until'', ''unusual'', ''unveil'', ''update'', ''upgrade'', ''uphold'', ''upon'', ''upper'',
    ''upset'', ''urban'', ''urge'', ''usage'', ''use'', ''used'', ''useful'']"

definition words_15 :: "string list" where
  "words_15 = [
    ''useless'', ''usual'', ''utility'', ''vacant'', ''vacuum'', ''vague'', ''valid'', ''valley'', ''valve'',
    ''van'', ''vanish'', ''vapor'', ''various'', ''vast'', ''vault'', ''vehicle'', ''velvet'', ''vendor'',
    ''venture'', ''venue'', ''verb'', ''verify'', ''version'', ''very'', ''vessel'', ''veteran'', ''viable'',
    ''vibrant'', ''vicious'', ''victory'', ''video'', ''view'', ''village'', ''vintage'', ''violin'', ''virtual'',
    ''virus'', ''visa'', ''visit'', ''visual'', ''vital'', ''vivid'', ''vocal'', ''voice'', ''void'', ''volcano'',
    ''volume'', ''vote'', ''voyage'', ''wage'', ''wagon'', ''wait'', ''walk'', ''wall'', ''walnut'', ''want'',
    ''warfare'', ''warm'', ''warrior'', ''wash'', ''wasp'', ''waste'', ''water'', ''wave'', ''way'', ''wealth'',
    ''weapon'', ''wear'', ''weasel'', ''weather'', ''web'', ''wedding'', ''weekend'', ''weird'', ''welcome'',
    ''west'', ''wet'', ''whale'', ''what'', ''wheat'', ''wheel'', ''when'', ''where'', ''whip'', ''whisper'',
    ''wide'', ''width'', ''wife'', ''wild'', ''will'', ''win'', ''window'', ''wine'', ''wing'', ''wink'',
    ''winner'', ''winter'', ''wire'', ''wisdom'', ''wise'', ''wish'', ''witness'', ''wolf'', ''woman'',
    ''wonder'', ''wood'', ''wool'', ''word'', ''work'', ''world'', ''worry'', ''worth'', ''wrap'', ''wreck'',
    ''wrestle'', ''wrist'', ''write'', ''wrong'', ''yard'', ''year'', ''yellow'', ''you'', ''young'', ''youth'',
    ''zebra'', ''zero'', ''zone'', ''zoo'']"

definition RECOVERY_WORDLIST :: "bytes list" where
  "RECOVERY_WORDLIST = map ascii (words_0 @ words_1 @ words_2 @ words_3 @ words_4 @ words_5 @ words_6 @ words_7 @
     words_8 @ words_9 @ words_10 @ words_11 @ words_12 @ words_13 @ words_14 @ words_15)"

text \<open>The order of \<^verbatim>\<open>std::string_view\<close>: bytes as unsigned numbers, a prefix first.\<close>

fun bytes_less :: "bytes \<Rightarrow> bytes \<Rightarrow> bool" where
  "bytes_less _ [] = False"
| "bytes_less [] (_ # _) = True"
| "bytes_less (a # as) (b # bs) \<longleftrightarrow> a < b \<or> a = b \<and> bytes_less as bs"

section \<open>The list is sorted\<close>

fun word_less :: "string \<Rightarrow> string \<Rightarrow> bool" where
  "word_less _ [] = False"
| "word_less [] (_ # _) = True"
| "word_less (a # as) (b # bs) \<longleftrightarrow> (of_char a :: nat) < of_char b \<or> a = b \<and> word_less as bs"

lemma unat_of_char: "unat (of_char c :: u8) = of_char c"
  by (simp add: of_char_def unsigned_of_nat take_bit_eq_mod)

lemma bytes_less_ascii: "bytes_less (ascii a) (ascii b) \<longleftrightarrow> word_less a b"
proof (induction a b rule: word_less.induct)
  case (3 a as b bs)
  have "(of_char a :: u8) < of_char b \<longleftrightarrow> (of_char a :: nat) < of_char b" by (simp add: word_less_nat_alt unat_of_char)
  moreover have "(of_char a :: u8) = of_char b \<longleftrightarrow> a = b" 
    by (metis unat_of_char of_char_eq_iff)
  ultimately show ?case using 3 by (simp add: ascii_def)
qed (simp_all add: ascii_def)

text \<open>Lower-case words of three letters or more, in order.\<close>

fun words_ok :: "string list \<Rightarrow> bool" where
  "words_ok (a # b # r) \<longleftrightarrow> list_all (\<lambda>c. 97 \<le> (of_char c :: nat) \<and> (of_char c :: nat) \<le> 122) a \<and> a \<noteq> [] \<and>
     word_less a b \<and> words_ok (b # r)"
| "words_ok [a] \<longleftrightarrow> list_all (\<lambda>c. 97 \<le> (of_char c :: nat) \<and> (of_char c :: nat) \<le> 122) a \<and> a \<noteq> []"
| "words_ok [] \<longleftrightarrow> True"

lemma words_0_ok: "words_ok (words_0 @ [''avoid''])" "length words_0 = 128" "hd words_0 = ''abandon''" "words_0 \<noteq> []"
  by (simp_all add: words_0_def)

lemma words_1_ok: "words_ok (words_1 @ [''cactus''])" "length words_1 = 128" "hd words_1 = ''avoid''" "words_1 \<noteq> []"
  by (simp_all add: words_1_def)

lemma words_2_ok: "words_ok (words_2 @ [''copy''])" "length words_2 = 128" "hd words_2 = ''cactus''" "words_2 \<noteq> []"
  by (simp_all add: words_2_def)

lemma words_3_ok: "words_ok (words_3 @ [''divorce''])" "length words_3 = 128" "hd words_3 = ''copy''" "words_3 \<noteq> []"
  by (simp_all add: words_3_def)

lemma words_4_ok: "words_ok (words_4 @ [''exotic''])" "length words_4 = 128" "hd words_4 = ''divorce''" "words_4 \<noteq> []"
  by (simp_all add: words_4_def)

lemma words_5_ok: "words_ok (words_5 @ [''gas''])" "length words_5 = 128" "hd words_5 = ''exotic''" "words_5 \<noteq> []"
  by (simp_all add: words_5_def)

lemma words_6_ok: "words_ok (words_6 @ [''hybrid''])" "length words_6 = 128" "hd words_6 = ''gas''" "words_6 \<noteq> []"
  by (simp_all add: words_6_def)

lemma words_7_ok: "words_ok (words_7 @ [''length''])" "length words_7 = 128" "hd words_7 = ''hybrid''" "words_7 \<noteq> []"
  by (simp_all add: words_7_def)

lemma words_8_ok: "words_ok (words_8 @ [''mosquito''])" "length words_8 = 128" "hd words_8 = ''length''" "words_8 \<noteq> []"
  by (simp_all add: words_8_def)

lemma words_9_ok: "words_ok (words_9 @ [''parade''])" "length words_9 = 128" "hd words_9 = ''mosquito''" "words_9 \<noteq> []"
  by (simp_all add: words_9_def)

lemma words_10_ok: "words_ok (words_10 @ [''quote''])" "length words_10 = 128" "hd words_10 = ''parade''" "words_10 \<noteq> []"
  by (simp_all add: words_10_def)

lemma words_11_ok: "words_ok (words_11 @ [''scale''])" "length words_11 = 128" "hd words_11 = ''quote''" "words_11 \<noteq> []"
  by (simp_all add: words_11_def)

lemma words_12_ok: "words_ok (words_12 @ [''source''])" "length words_12 = 128" "hd words_12 = ''scale''" "words_12 \<noteq> []"
  by (simp_all add: words_12_def)

lemma words_13_ok: "words_ok (words_13 @ [''theme''])" "length words_13 = 128" "hd words_13 = ''source''" "words_13 \<noteq> []"
  by (simp_all add: words_13_def)

lemma words_14_ok: "words_ok (words_14 @ [''useless''])" "length words_14 = 128" "hd words_14 = ''theme''" "words_14 \<noteq> []"
  by (simp_all add: words_14_def)

lemma words_15_ok: "words_ok words_15" "length words_15 = 128" "hd words_15 = ''useless''" "words_15 \<noteq> []"
  by (simp_all add: words_15_def)

lemma words_ok_append: "words_ok (xs @ [y]) \<Longrightarrow> words_ok ys \<Longrightarrow> hd ys = y \<Longrightarrow> ys \<noteq> [] \<Longrightarrow> words_ok (xs @ ys)"
proof (induction xs rule: words_ok.induct)
  case (2 a)
  then show ?case by (cases ys) simp_all
qed simp_all

lemma words_ok_all: "words_ok (words_0 @ words_1 @ words_2 @ words_3 @ words_4 @ words_5 @ words_6 @ words_7 @
    words_8 @ words_9 @ words_10 @ words_11 @ words_12 @ words_13 @ words_14 @ words_15)"
  by (intro words_0_ok(1) [THEN words_ok_append] words_1_ok(1) [THEN words_ok_append] words_2_ok(1) [THEN words_ok_append]
      words_3_ok(1) [THEN words_ok_append] words_4_ok(1) [THEN words_ok_append] words_5_ok(1) [THEN words_ok_append]
      words_6_ok(1) [THEN words_ok_append] words_7_ok(1) [THEN words_ok_append] words_8_ok(1) [THEN words_ok_append]
      words_9_ok(1) [THEN words_ok_append] words_10_ok(1) [THEN words_ok_append] words_11_ok(1) [THEN words_ok_append]
      words_12_ok(1) [THEN words_ok_append] words_13_ok(1) [THEN words_ok_append] words_14_ok(1) [THEN words_ok_append]
      words_15_ok(1))
    (simp_all add: words_1_ok words_2_ok words_3_ok words_4_ok words_5_ok words_6_ok words_7_ok words_8_ok
      words_9_ok words_10_ok words_11_ok words_12_ok words_13_ok words_14_ok words_15_ok)

lemma word_less_trans: "word_less a b \<Longrightarrow> word_less b c \<Longrightarrow> word_less a c"
proof (induction a c arbitrary: b rule: word_less.induct)
  case (1 a)
  then show ?case by (cases b) auto
next
  case (2 c cs)
  then show ?case by simp
next
  case (3 a as c cs)
  then obtain d ds where "b = d # ds" by (cases b) auto
  with 3 show ?case by auto
qed

lemma words_ok_sorted: "words_ok ws \<Longrightarrow> sorted_wrt word_less ws"
proof (induction ws rule: words_ok.induct)
  case (1 a b r)
  then have s: "sorted_wrt word_less (b # r)" "word_less a b" by simp_all
  then show ?case using word_less_trans by (auto simp: words_ok.simps)
qed simp_all

lemma words_ok_letters:
  "words_ok ws \<Longrightarrow> w \<in> set ws \<Longrightarrow> w \<noteq> [] \<and> (\<forall>c\<in>set w. 97 \<le> (of_char c :: nat) \<and> (of_char c :: nat) \<le> 122)"
  by (induction ws rule: words_ok.induct) (auto simp: list_all_iff)

lemma ascii_letters:
  assumes "words_ok ws" and "w \<in> set (map ascii ws)"
  shows "w \<noteq> [] \<and> (\<forall>c\<in>set w. 97 \<le> c \<and> c \<le> 122)"
proof -
  obtain v where v: "v \<in> set ws" "w = ascii v" using assms(2) by auto
  have "97 \<le> (of_char c :: u8) \<and> (of_char c :: u8) \<le> 122" if "97 \<le> (of_char c :: nat)" "(of_char c :: nat) \<le> 122" for c
    using that by (simp add: word_le_nat_alt unat_of_char)
  then show ?thesis using words_ok_letters [OF assms(1) v(1)] v(2) by (auto simp: ascii_def)
qed

lemma ascii_sorted: "words_ok ws \<Longrightarrow> sorted_wrt bytes_less (map ascii ws)"
  by (simp add: sorted_wrt_map bytes_less_ascii words_ok_sorted)

lemma wordlist_facts:
  "length RECOVERY_WORDLIST = 2048" "sorted_wrt bytes_less RECOVERY_WORDLIST"
  "w \<in> set RECOVERY_WORDLIST \<Longrightarrow> w \<noteq> [] \<and> (\<forall>c\<in>set w. 97 \<le> c \<and> c \<le> 122)"
proof -
  show "length RECOVERY_WORDLIST = 2048"
    unfolding RECOVERY_WORDLIST_def length_map length_append words_0_ok(2) words_1_ok(2) words_2_ok(2) words_3_ok(2)
      words_4_ok(2) words_5_ok(2) words_6_ok(2) words_7_ok(2) words_8_ok(2) words_9_ok(2) words_10_ok(2) words_11_ok(2)
      words_12_ok(2) words_13_ok(2) words_14_ok(2) words_15_ok(2) by simp
  show "sorted_wrt bytes_less RECOVERY_WORDLIST"
    unfolding RECOVERY_WORDLIST_def by (rule ascii_sorted [OF words_ok_all])
  show "w \<in> set RECOVERY_WORDLIST \<Longrightarrow> w \<noteq> [] \<and> (\<forall>c\<in>set w. 97 \<le> c \<and> c \<le> 122)"
    unfolding RECOVERY_WORDLIST_def by (rule ascii_letters [OF words_ok_all])
qed

end
