(* ===== verification/Client_Crypto.thy ===== *)
theory Client_Crypto
  imports Noise Messages_Session
begin

text \<open>
  What only clients do with keys (\<^verbatim>\<open>src/common/crypto\<close>, \<^verbatim>\<open>src/client/dm\<close>): private messages that the
  server cannot open. The further primitives of libsodium are the fields of a record; the laws of
  them that the theorems rely on are named hypotheses.
\<close>

section \<open>Primitives\<close>

record client_lib =
  cl_sodium :: sodium
  cl_xaead_encrypt :: "bytes \<Rightarrow> bytes \<Rightarrow> bytes \<Rightarrow> bytes \<Rightarrow> bytes option"
  cl_xaead_decrypt :: "bytes \<Rightarrow> bytes \<Rightarrow> bytes \<Rightarrow> bytes \<Rightarrow> bytes option"
  cl_pk_to_curve :: "bytes \<Rightarrow> bytes option"
  cl_sk_to_curve :: "bytes \<Rightarrow> bytes option"
  cl_sign :: "bytes \<Rightarrow> bytes \<Rightarrow> bytes option"
  cl_verify :: "bytes \<Rightarrow> bytes \<Rightarrow> bytes \<Rightarrow> bool"
  cl_seed_keypair :: "bytes \<Rightarrow> (bytes \<times> bytes) option"
  cl_pwhash :: "bytes \<Rightarrow> bytes \<Rightarrow> u64 \<Rightarrow> nat \<Rightarrow> bytes option"
  cl_opslimit_moderate :: nat
  cl_memlimit_moderate :: nat

definition ED25519_PUBLIC_KEY_SIZE :: nat where [simp]: "ED25519_PUBLIC_KEY_SIZE = 32"
definition ED25519_SEED_SIZE :: nat where [simp]: "ED25519_SEED_SIZE = 32"
definition XCHACHA_NONCE_SIZE :: nat where [simp]: "XCHACHA_NONCE_SIZE = 24"
definition ARGON2ID_SALT_SIZE :: nat where [simp]: "ARGON2ID_SALT_SIZE = 16"

text \<open>
  Encrypting and decrypting with the same key, nonce and associated data are inverse: the tag is a
  function of all of them, so a ciphertext is accepted exactly when it is the encryption of what
  comes out.
\<close>

definition xaead_correct :: "client_lib \<Rightarrow> bool" where
  "xaead_correct lib \<longleftrightarrow> (\<forall>k n ad p c.
     (cl_xaead_encrypt lib k n ad p = Some c \<longleftrightarrow> cl_xaead_decrypt lib k n ad c = Some p) \<and>
     (cl_xaead_encrypt lib k n ad p = Some c \<longrightarrow> length c = length p + AEAD_TAG_SIZE))"

section \<open>Identities\<close>

record identity_keypair =
  ik_public :: bytes
  ik_secret :: bytes

definition derive_from_seed :: "client_lib \<Rightarrow> bytes \<Rightarrow> identity_keypair option" where
  "derive_from_seed lib seed =
     (case cl_seed_keypair lib seed of
        None \<Rightarrow> None | Some (public, secret) \<Rightarrow> Some \<lparr>ik_public = public, ik_secret = secret\<rparr>)"

definition sign_message :: "client_lib \<Rightarrow> identity_keypair \<Rightarrow> bytes \<Rightarrow> bytes option" where
  "sign_message lib k message = cl_sign lib (ik_secret k) message"

definition convert_identity_public_to_x25519 :: "client_lib \<Rightarrow> bytes \<Rightarrow> bytes option" where
  "convert_identity_public_to_x25519 lib identity_public = cl_pk_to_curve lib identity_public"

definition convert_identity_secret_to_x25519 :: "client_lib \<Rightarrow> bytes \<Rightarrow> bytes option" where
  "convert_identity_secret_to_x25519 lib identity_secret = cl_sk_to_curve lib identity_secret"

text \<open>The two halves of an identity, converted, are the two halves of an X25519 key pair.\<close>

definition identity_ok :: "client_lib \<Rightarrow> identity_keypair \<Rightarrow> bool" where
  "identity_ok lib k \<longleftrightarrow> length (ik_public k) = ED25519_PUBLIC_KEY_SIZE \<and>
     (\<forall>s p. cl_sk_to_curve lib (ik_secret k) = Some s \<longrightarrow> cl_pk_to_curve lib (ik_public k) = Some p \<longrightarrow>
        so_scalarmult_base (cl_sodium lib) s = Some p) \<and>
     cl_sk_to_curve lib (ik_secret k) \<noteq> None \<and> cl_pk_to_curve lib (ik_public k) \<noteq> None"

section \<open>Session keys (\<open>dm_session_keys.cpp\<close>)\<close>

definition DM_SESSION_DOMAIN :: bytes where
  "DM_SESSION_DOMAIN = ascii ''hypercom-dm-x3dh-v1''"

definition combine_shared_secrets :: "client_lib \<Rightarrow> bytes \<Rightarrow> bytes \<Rightarrow> bytes \<Rightarrow> bytes option" where
  "combine_shared_secrets lib first second third =
     (case extract_pseudo_random_key (cl_sodium lib) DM_SESSION_DOMAIN (first @ second @ third) of
        None \<Rightarrow> None
      | Some pseudo_random \<Rightarrow> expand_key_block (cl_sodium lib) pseudo_random [] 1)"

text \<open>The three exchanges, one after the other.\<close>

definition combine_exchanges ::
  "client_lib \<Rightarrow> bytes \<times> bytes \<Rightarrow> bytes \<times> bytes \<Rightarrow> bytes \<times> bytes \<Rightarrow> bytes option" where
  "combine_exchanges lib = (\<lambda>(s1, p1) (s2, p2) (s3, p3).
     case compute_shared_secret (cl_sodium lib) s1 p1 of None \<Rightarrow> None | Some first \<Rightarrow>
    (case compute_shared_secret (cl_sodium lib) s2 p2 of None \<Rightarrow> None | Some second \<Rightarrow>
    (case compute_shared_secret (cl_sodium lib) s3 p3 of None \<Rightarrow> None | Some third \<Rightarrow>
       combine_shared_secrets lib first second third)))"

definition derive_sender_session_key ::
  "client_lib \<Rightarrow> identity_keypair \<Rightarrow> bytes \<Rightarrow> bytes \<Rightarrow> bytes \<Rightarrow> bytes option" where
  "derive_sender_session_key lib sender_identity sender_ephemeral_secret recipient_identity recipient_prekey =
     (case convert_identity_secret_to_x25519 lib (ik_secret sender_identity) of None \<Rightarrow> None | Some sender_identity_x \<Rightarrow>
     (case convert_identity_public_to_x25519 lib recipient_identity of None \<Rightarrow> None | Some recipient_identity_x \<Rightarrow>
        combine_exchanges lib (sender_identity_x, recipient_prekey)
          (sender_ephemeral_secret, recipient_identity_x) (sender_ephemeral_secret, recipient_prekey)))"

definition derive_recipient_session_key ::
  "client_lib \<Rightarrow> identity_keypair \<Rightarrow> bytes \<Rightarrow> bytes \<Rightarrow> bytes \<Rightarrow> bytes option" where
  "derive_recipient_session_key lib recipient_identity recipient_prekey_secret sender_identity sender_ephemeral =
     (case convert_identity_secret_to_x25519 lib (ik_secret recipient_identity) of None \<Rightarrow> None | Some recipient_identity_x \<Rightarrow>
     (case convert_identity_public_to_x25519 lib sender_identity of None \<Rightarrow> None | Some sender_identity_x \<Rightarrow>
        combine_exchanges lib (recipient_prekey_secret, sender_identity_x)
          (recipient_identity_x, sender_ephemeral) (recipient_prekey_secret, sender_ephemeral)))"

section \<open>The message chain (\<open>dm_message_chain.cpp\<close>)\<close>

definition MAX_SKIPPED_MESSAGE_KEYS :: u32 where "MAX_SKIPPED_MESSAGE_KEYS = 1000"

definition MESSAGE_KEY_INFO :: bytes where "MESSAGE_KEY_INFO = ascii ''hypercom-dm-message''"
definition CHAIN_KEY_INFO :: bytes where "CHAIN_KEY_INFO = ascii ''hypercom-dm-chain''"

record dm_message_chain =
  mc_chain_key :: bytes
  mc_counter :: u32

definition new_message_chain :: "bytes \<Rightarrow> dm_message_chain" where
  "new_message_chain initial_chain_key = \<lparr>mc_chain_key = initial_chain_key, mc_counter = 0\<rparr>"

definition derive_next_message_key :: "client_lib \<Rightarrow> dm_message_chain \<Rightarrow> bytes option \<times> dm_message_chain" where
  "derive_next_message_key lib c =
     (case expand_key_block (cl_sodium lib) (mc_chain_key c) MESSAGE_KEY_INFO 1 of
        None \<Rightarrow> (None, c)
      | Some out \<Rightarrow>
          (case expand_key_block (cl_sodium lib) (mc_chain_key c) CHAIN_KEY_INFO 2 of
             None \<Rightarrow> (None, c)
           | Some next_chain_key \<Rightarrow>
               (Some out, c\<lparr>mc_chain_key := next_chain_key, mc_counter := mc_counter c + 1\<rparr>)))"

text \<open>The loop over the distance; what was pushed to \<^verbatim>\<open>skipped\<close> before a failure stays there.\<close>

primrec derive_skipped ::
  "client_lib \<Rightarrow> nat \<Rightarrow> bytes list \<Rightarrow> dm_message_chain \<Rightarrow> bool \<times> bytes list \<times> dm_message_chain" where
  "derive_skipped lib 0 skipped c = (True, skipped, c)"
| "derive_skipped lib (Suc distance) skipped c =
     (case derive_next_message_key lib c of
        (None, c') \<Rightarrow> (False, skipped, c')
      | (Some message_key, c') \<Rightarrow> derive_skipped lib distance (skipped @ [message_key]) c')"

definition advance_to_counter ::
  "client_lib \<Rightarrow> u32 \<Rightarrow> bytes list \<Rightarrow> dm_message_chain \<Rightarrow> bool \<times> bytes list \<times> dm_message_chain" where
  "advance_to_counter lib target skipped c =
     (if target < mc_counter c then (False, skipped, c)
      else let distance = target - mc_counter c
           in if distance > MAX_SKIPPED_MESSAGE_KEYS then (False, skipped, c)
              else derive_skipped lib (unat distance) skipped c)"

section \<open>Envelopes (\<open>dm_envelope.cpp\<close>)\<close>

definition DM_ENVELOPE_VERSION :: u8 where "DM_ENVELOPE_VERSION = 1"

definition DM_ENVELOPE_HEADER_SIZE :: nat where
  [simp]: "DM_ENVELOPE_HEADER_SIZE = 1 + ED25519_PUBLIC_KEY_SIZE + X25519_PUBLIC_KEY_SIZE + 4"

definition ZERO_NONCE :: bytes where "ZERO_NONCE = replicate XCHACHA_NONCE_SIZE 0"

record dm_envelope_header =
  eh_version :: u8
  eh_sender_identity :: bytes
  eh_sender_ephemeral :: bytes
  eh_counter :: u32

definition serialize_header :: "dm_envelope_header \<Rightarrow> bytes" where
  "serialize_header h =
     [eh_version h] @ eh_sender_identity h @ eh_sender_ephemeral h @
     map (\<lambda>index. ucast (drop_bit (index * 8) (eh_counter h) AND 0xFF)) [0..<4]"

definition parse_dm_envelope_header :: "bytes \<Rightarrow> dm_envelope_header option" where
  "parse_dm_envelope_header envelope =
     (if length envelope < DM_ENVELOPE_HEADER_SIZE + AEAD_TAG_SIZE then None
      else if envelope ! 0 \<noteq> DM_ENVELOPE_VERSION then None
      else let offset = 1 + ED25519_PUBLIC_KEY_SIZE + X25519_PUBLIC_KEY_SIZE
           in Some \<lparr>eh_version = envelope ! 0,
                eh_sender_identity = take ED25519_PUBLIC_KEY_SIZE (drop 1 envelope),
                eh_sender_ephemeral = take X25519_PUBLIC_KEY_SIZE (drop (1 + ED25519_PUBLIC_KEY_SIZE) envelope),
                eh_counter = fold (\<lambda>index counter. counter OR push_bit (index * 8) (ucast (envelope ! (offset + index))))
                  [0..<4] 0\<rparr>)"

definition seal_dm_envelope :: "client_lib \<Rightarrow> dm_envelope_header \<Rightarrow> bytes \<Rightarrow> bytes \<Rightarrow> bytes option" where
  "seal_dm_envelope lib header message_key plaintext =
     (let serialized_header = serialize_header header
      in case cl_xaead_encrypt lib message_key ZERO_NONCE serialized_header plaintext of
           None \<Rightarrow> None | Some sealed \<Rightarrow> Some (serialized_header @ sealed))"

definition open_dm_envelope :: "client_lib \<Rightarrow> bytes \<Rightarrow> bytes \<Rightarrow> bytes option" where
  "open_dm_envelope lib envelope message_key =
     (case parse_dm_envelope_header envelope of
        None \<Rightarrow> None
      | Some header \<Rightarrow>
          cl_xaead_decrypt lib message_key ZERO_NONCE (take DM_ENVELOPE_HEADER_SIZE envelope)
            (drop DM_ENVELOPE_HEADER_SIZE envelope))"

section \<open>Facts\<close>

lemma serialize_header_eq:
  "serialize_header h = eh_version h # eh_sender_identity h @ eh_sender_ephemeral h @ le_bytes (eh_counter h)"
  by (simp add: serialize_header_def le_bytes_def)

definition header_ok :: "dm_envelope_header \<Rightarrow> bool" where
  "header_ok h \<longleftrightarrow> eh_version h = DM_ENVELOPE_VERSION \<and>
     length (eh_sender_identity h) = ED25519_PUBLIC_KEY_SIZE \<and> length (eh_sender_ephemeral h) = X25519_PUBLIC_KEY_SIZE"

lemma length_serialize_header: "header_ok h \<Longrightarrow> length (serialize_header h) = DM_ENVELOPE_HEADER_SIZE"
  by (simp add: serialize_header_eq header_ok_def)

lemma load_u32_fold:
  "4 \<le> length bs \<Longrightarrow> load_little_endian bs =
     Some (fold (\<lambda>i v. v OR push_bit (i * 8) (ucast (bs ! i) :: u32)) [0..<4] 0)"
  by (simp add: load_little_endian_def)

lemma parse_serialized:
  assumes "header_ok h" and "AEAD_TAG_SIZE \<le> length body"
  shows "parse_dm_envelope_header (serialize_header h @ body) = Some h"
proof -
  let ?e = "serialize_header h @ body"
  let ?c = "le_bytes (eh_counter h) @ body"
  have lens: "length (eh_sender_identity h) = 32" "length (eh_sender_ephemeral h) = 32" "eh_version h = DM_ENVELOPE_VERSION"
    using assms(1) by (simp_all add: header_ok_def)
  have at: "?e ! (65 + i) = ?c ! i" for i
    using lens by (simp add: serialize_header_eq nth_append)
  have "fold (\<lambda>i v. v OR push_bit (i * 8) (ucast (?c ! i) :: u32)) [0..<4] 0 = eh_counter h"
    using load_u32_fold [of ?c] load_le_bytes [of "eh_counter h" body] by simp
  then have "fold (\<lambda>i v. v OR push_bit (i * 8) (ucast (?e ! (65 + i)) :: u32)) [0..<4] 0 = eh_counter h"
    by (simp only: at)
  then show ?thesis
    using assms(2) lens length_serialize_header [OF assms(1)]
    by (simp add: parse_dm_envelope_header_def Let_def) (simp add: serialize_header_eq)
qed

lemma parsed_header:
  assumes "parse_dm_envelope_header envelope = Some h"
  shows "header_ok h" and "envelope = serialize_header h @ drop DM_ENVELOPE_HEADER_SIZE envelope"
    and "DM_ENVELOPE_HEADER_SIZE + AEAD_TAG_SIZE \<le> length envelope"
proof -
  show len: "DM_ENVELOPE_HEADER_SIZE + AEAD_TAG_SIZE \<le> length envelope"
    using assms by (auto simp: parse_dm_envelope_header_def split: if_splits)
  show ok: "header_ok h"
    using assms by (auto simp: parse_dm_envelope_header_def header_ok_def Let_def split: if_splits)
  have h: "eh_version h = envelope ! 0" "eh_sender_identity h = take 32 (drop 1 envelope)"
    "eh_sender_ephemeral h = take 32 (drop 33 envelope)"
    "eh_counter h = fold (\<lambda>i v. v OR push_bit (i * 8) (ucast (envelope ! (65 + i)))) [0..<4] 0"
    using assms by (auto simp: parse_dm_envelope_header_def Let_def split: if_splits)
  have "load_little_endian (drop 65 envelope) = Some (eh_counter h)"
    using len by (subst load_u32_fold) (simp_all add: h(4))
  from load_little_endian_Some [OF _ this] have "drop 65 envelope = le_bytes (eh_counter h) @ drop 69 envelope" by simp
  moreover have "envelope = envelope ! 0 # take 32 (drop 1 envelope) @ take 32 (drop 33 envelope) @ drop 65 envelope"
  proof -
    have "drop 33 envelope = take 32 (drop 33 envelope) @ drop 65 envelope"
      using append_take_drop_id [of 32 "drop 33 envelope"] by simp
    moreover have "drop 1 envelope = take 32 (drop 1 envelope) @ drop 33 envelope"
      using append_take_drop_id [of 32 "drop 1 envelope"] by simp
    moreover have "envelope = envelope ! 0 # drop 1 envelope"
      using len by (cases envelope) simp_all
    ultimately show ?thesis by metis
  qed
  ultimately show "envelope = serialize_header h @ drop DM_ENVELOPE_HEADER_SIZE envelope"
    by (simp add: serialize_header_eq h(1-3))
qed

lemma xaead_correctD:
  assumes "xaead_correct lib"
  shows "cl_xaead_encrypt lib k n ad p = Some c \<longleftrightarrow> cl_xaead_decrypt lib k n ad c = Some p"
    and "cl_xaead_encrypt lib k n ad p = Some c \<Longrightarrow> length c = length p + AEAD_TAG_SIZE"
  using assms unfolding xaead_correct_def by blast+

end
