(* ===== verification/Recovery_Phrase.thy ===== *)
theory Recovery_Phrase
  imports Word_List Client_Crypto
begin

text \<open>
  The twelve words that stand for the master seed (\<^verbatim>\<open>common/crypto/recovery_phrase.cpp\<close>): 128 bits of
  entropy and four bits of checksum, cut into twelve indexes of eleven bits. The functions that fill
  an output argument and return a \<^verbatim>\<open>bool\<close> return an option here.
\<close>

section \<open>Definitions\<close>

definition RECOVERY_ENTROPY_SIZE :: nat where [simp]: "RECOVERY_ENTROPY_SIZE = 16"
definition RECOVERY_WORD_COUNT :: nat where [simp]: "RECOVERY_WORD_COUNT = 12"
definition BITS_PER_WORD :: nat where [simp]: "BITS_PER_WORD = 11"

definition checksum_nibble :: "sodium \<Rightarrow> bytes \<Rightarrow> u8" where
  "checksum_nibble lib entropy = so_sha256 lib entropy ! 0 AND 0xF0"

definition bit_at :: "bytes \<Rightarrow> nat \<Rightarrow> u32" where
  "bit_at bits index = drop_bit (7 - index mod 8) (ucast (bits ! (index div 8))) AND 1"

text \<open>\<^verbatim>\<open>std::tolower\<close> and \<^verbatim>\<open>std::isspace\<close> in the C locale, the only one the programs run in.\<close>

definition to_lower :: "u8 \<Rightarrow> u8" where
  "to_lower c = (if 65 \<le> c \<and> c \<le> 90 then c + 32 else c)"

definition is_space :: "u8 \<Rightarrow> bool" where
  "is_space c \<longleftrightarrow> c = 32 \<or> (9 \<le> c \<and> c \<le> 13)"

definition normalize_word :: "bytes \<Rightarrow> bytes" where
  "normalize_word word = map to_lower word"

definition find_word_index :: "bytes \<Rightarrow> u32 option" where
  "find_word_index word =
     (let found = length (takeWhile (\<lambda>w. bytes_less w word) RECOVERY_WORDLIST) in
      if found = length RECOVERY_WORDLIST \<or> RECOVERY_WORDLIST ! found \<noteq> word then None
      else Some (word_of_nat found))"

lemma dropWhile_token_shorter:
  assumes "p \<noteq> []"
  shows "length (dropWhile (\<lambda>c. \<not> is_space c) (dropWhile is_space p)) < length p"
proof (cases p)
  case (Cons c r)
  have d: "length (dropWhile Q (dropWhile R r)) \<le> length r" for Q R
    by (rule order_trans [OF length_dropWhile_le length_dropWhile_le])
  show ?thesis using Cons d [of "\<lambda>c. \<not> is_space c" is_space] length_dropWhile_le [of "\<lambda>c. \<not> is_space c" r]
    by (auto simp: less_Suc_eq_le)
qed (use assms in simp)

function split_words :: "bytes \<Rightarrow> bytes list \<Rightarrow> bytes list option" where
  "split_words phrase out =
     (if phrase = [] then (if length out = RECOVERY_WORD_COUNT then Some out else None)
      else
        let start = dropWhile is_space phrase;
            token = takeWhile (\<lambda>c. \<not> is_space c) start;
            position = dropWhile (\<lambda>c. \<not> is_space c) start in
        if token = [] then split_words position out
        else if length out = RECOVERY_WORD_COUNT then None
        else split_words position (out @ [normalize_word token]))"
  by pat_completeness auto

termination
  by (relation "measure (\<lambda>(phrase, out). length phrase)") (simp_all add: dropWhile_token_shorter)

declare split_words.simps [simp del]

definition word_index :: "bytes \<Rightarrow> nat \<Rightarrow> u32" where
  "word_index bits word =
     fold (\<lambda>bit index. push_bit 1 index OR bit_at bits (word * BITS_PER_WORD + bit)) [0..<BITS_PER_WORD] 0"

definition entropy_to_phrase :: "sodium \<Rightarrow> bytes \<Rightarrow> bytes" where
  "entropy_to_phrase lib entropy =
     (let bits = entropy @ [checksum_nibble lib entropy] in
      fold (\<lambda>word phrase. (if word \<noteq> 0 then phrase @ [32] else phrase) @
              RECOVERY_WORDLIST ! unat (word_index bits word))
        [0..<RECOVERY_WORD_COUNT] [])"

definition pack_bit :: "nat \<Rightarrow> u32 \<Rightarrow> bytes \<Rightarrow> bytes" where
  "pack_bit position value bits =
     bits[position div 8 := bits ! (position div 8) OR ucast (push_bit (7 - position mod 8) value)]"

definition pack_index :: "nat \<Rightarrow> u32 \<Rightarrow> bytes \<Rightarrow> bytes" where
  "pack_index word index bits =
     fold (\<lambda>bit bits. pack_bit (word * BITS_PER_WORD + bit) (drop_bit (BITS_PER_WORD - 1 - bit) index AND 1) bits)
       [0..<BITS_PER_WORD] bits"

fun pack_words :: "nat \<Rightarrow> bytes list \<Rightarrow> bytes \<Rightarrow> bytes option" where
  "pack_words word [] bits = Some bits"
| "pack_words word (w # words) bits =
     (case find_word_index w of
        None \<Rightarrow> None
      | Some index \<Rightarrow> pack_words (word + 1) words (pack_index word index bits))"

definition phrase_to_entropy :: "sodium \<Rightarrow> bytes \<Rightarrow> bytes option" where
  "phrase_to_entropy lib phrase =
     (case split_words phrase [] of
        None \<Rightarrow> None
      | Some words \<Rightarrow>
          (case pack_words 0 words (replicate (RECOVERY_ENTROPY_SIZE + 1) 0) of
             None \<Rightarrow> None
           | Some bits \<Rightarrow>
               (let candidate = take RECOVERY_ENTROPY_SIZE bits in
                if bits ! RECOVERY_ENTROPY_SIZE AND 0xF0 = checksum_nibble lib candidate
                then Some candidate else None)))"

definition RECOVERY_SALT :: bytes where "RECOVERY_SALT = ascii ''hypercom-recovery-v1''"
definition RECOVERY_INFO :: bytes where "RECOVERY_INFO = ascii ''hypercom-master-seed''"

definition derive_master_seed :: "sodium \<Rightarrow> bytes \<Rightarrow> bytes option" where
  "derive_master_seed lib entropy =
     (case extract_pseudo_random_key lib RECOVERY_SALT entropy of
        None \<Rightarrow> None
      | Some pseudo_random_key \<Rightarrow> expand_key_block lib pseudo_random_key RECOVERY_INFO 1)"

section \<open>Splitting\<close>

lemma to_lower_letter: "97 \<le> c \<Longrightarrow> c \<le> 122 \<Longrightarrow> to_lower c = c"
  by (simp add: to_lower_def word_le_nat_alt)

lemma not_space_letter: "97 \<le> c \<Longrightarrow> c \<le> 122 \<Longrightarrow> \<not> is_space c"
  by (auto simp: is_space_def word_le_nat_alt)

definition plain_word :: "bytes \<Rightarrow> bool" where
  "plain_word w \<longleftrightarrow> w \<noteq> [] \<and> (\<forall>c\<in>set w. \<not> is_space c \<and> to_lower c = c)"

lemma wordlist_plain: "w \<in> set RECOVERY_WORDLIST \<Longrightarrow> plain_word w"
  using wordlist_facts(3) [of w] by (auto simp: plain_word_def to_lower_letter not_space_letter)

lemma plain_normal: "plain_word w \<Longrightarrow> normalize_word w = w"
  by (auto simp: plain_word_def normalize_word_def intro: map_idI)

lemma plain_prefix:
  assumes "plain_word w" and "rest = [] \<or> is_space (hd rest)"
  shows "dropWhile is_space (w @ rest) = w @ rest"
    and "takeWhile (\<lambda>c. \<not> is_space c) (w @ rest) = w"
    and "dropWhile (\<lambda>c. \<not> is_space c) (w @ rest) = rest"
proof -
  have n: "\<forall>c\<in>set w. \<not> is_space c" "w \<noteq> []" using assms(1) by (auto simp: plain_word_def)
  show "dropWhile is_space (w @ rest) = w @ rest" using n by (cases w) auto
  show "takeWhile (\<lambda>c. \<not> is_space c) (w @ rest) = w" using n assms(2) by (cases rest) (auto simp: takeWhile_append2)
  show "dropWhile (\<lambda>c. \<not> is_space c) (w @ rest) = rest" using n assms(2) by (cases rest) (auto simp: dropWhile_append2)
qed

text \<open>Words with one space before each are split into themselves.\<close>

definition spaced :: "bytes list \<Rightarrow> bytes" where
  "spaced ws = concat (map (\<lambda>w. 32 # w) ws)"

lemma spaced_simps [simp]: "spaced [] = []" "spaced (w # ws) = 32 # w @ spaced ws"
  by (simp_all add: spaced_def)

lemma spaced_head: "spaced ws = [] \<or> is_space (hd (spaced ws))"
  by (cases ws) (auto simp: is_space_def)

lemma split_spaced:
  "list_all plain_word ws \<Longrightarrow> length out + length ws = RECOVERY_WORD_COUNT \<Longrightarrow>
     split_words (spaced ws) out = Some (out @ ws)"
proof (induction ws arbitrary: out)
  case Nil
  then show ?case by (simp add: split_words.simps)
next
  case (Cons w ws)
  have w: "plain_word w" "w \<noteq> []" using Cons.prems by (auto simp: plain_word_def)
  have d: "dropWhile is_space (32 # w @ spaced ws) = w @ spaced ws"
    using plain_prefix(1) [OF w(1) spaced_head] by (simp add: is_space_def)
  have "split_words (spaced (w # ws)) out = split_words (spaced ws) (out @ [w])"
    using Cons.prems(2) w(2) by (subst split_words.simps)
      (simp add: d [simplified] plain_prefix [OF w(1) spaced_head] plain_normal [OF w(1)] Let_def is_space_def [of 32])
  then show ?case using Cons by simp
qed

lemma split_words_spaced:
  assumes "list_all plain_word (w # ws)" and "length (w # ws) = RECOVERY_WORD_COUNT"
  shows "split_words (w @ spaced ws) [] = Some (w # ws)"
proof -
  have w: "plain_word w" "w \<noteq> []" using assms by (auto simp: plain_word_def)
  have "split_words (w @ spaced ws) [] = split_words (spaced ws) [w]"
    using w(2) by (subst split_words.simps) (simp add: plain_prefix [OF w(1) spaced_head] plain_normal [OF w(1)] Let_def)
  then show ?thesis using split_spaced [of ws "[w]"] assms by simp
qed

lemma split_words_length: "split_words phrase out = Some ws \<Longrightarrow> length ws = RECOVERY_WORD_COUNT"
proof (induction phrase out rule: split_words.induct)
  case (1 phrase out)
  show ?case using 1(3) by (subst (asm) split_words.simps)
    (auto simp: Let_def split: if_splits dest: 1(1) [OF _ refl refl refl] 1(2) [OF _ refl refl refl])
qed

section \<open>The word list\<close>

lemma bytes_less_irrefl: "\<not> bytes_less w w"
  by (induction w) auto

lemma lower_bound_sorted:
  "sorted_wrt bytes_less ws \<Longrightarrow> i < length ws \<Longrightarrow> length (takeWhile (\<lambda>w. bytes_less w (ws ! i)) ws) = i"
proof (induction ws arbitrary: i)
  case (Cons a ws)
  then show ?case by (cases i) (auto simp: bytes_less_irrefl)
qed simp

lemma find_word_index_at:
  assumes "i < 2048"
  shows "find_word_index (RECOVERY_WORDLIST ! i) = Some (word_of_nat i)"
  using lower_bound_sorted [OF wordlist_facts(2), of i] assms
  by (simp add: find_word_index_def Let_def wordlist_facts(1))

lemma find_word_index_Some:
  assumes "find_word_index w = Some i"
  shows "unat i < 2048 \<and> RECOVERY_WORDLIST ! unat i = w"
proof -
  define n where "n = length (takeWhile (\<lambda>v. bytes_less v w) RECOVERY_WORDLIST)"
  have "n \<le> length RECOVERY_WORDLIST" unfolding n_def by (rule length_takeWhile_le)
  moreover have "n \<noteq> length RECOVERY_WORDLIST" "RECOVERY_WORDLIST ! n = w" "i = word_of_nat n"
    using assms by (auto simp: find_word_index_def Let_def n_def split: if_splits)
  ultimately show ?thesis using wordlist_facts(1) by (simp add: unat_u32_of_nat)
qed

section \<open>Bits\<close>

text \<open>Bit \<open>p\<close> of the packed array, counted from the top of its first byte.\<close>

definition packed_bit :: "bytes \<Rightarrow> nat \<Rightarrow> bool" where
  "packed_bit bits p = bit (bits ! (p div 8)) (7 - p mod 8)"

lemma and_one_bit: "bit (x AND (1 :: 'a::len word)) j \<longleftrightarrow> j = 0 \<and> bit x 0"
  by (auto simp: bit_simps)

lemma bit_bit_at: "bit (bit_at bits p) j \<longleftrightarrow> j = 0 \<and> packed_bit bits p"
  by (auto simp: bit_at_def packed_bit_def and_one_bit bit_drop_bit_eq bit_ucast_iff dest: bit_imp_le_length)

lemma bit_word_index_fold:
  "n \<le> 32 \<Longrightarrow>
   bit (fold (\<lambda>b index. push_bit 1 index OR bit_at bits (k + b)) [0..<n] (0 :: u32)) j \<longleftrightarrow>
     j < n \<and> packed_bit bits (k + (n - 1 - j))"
proof (induction n arbitrary: j)
  case (Suc n)
  define x where "x = fold (\<lambda>b index. push_bit 1 index OR bit_at bits (k + b)) [0..<n] (0 :: u32)"
  have IH: "bit x i \<longleftrightarrow> i < n \<and> packed_bit bits (k + (n - 1 - i))" for i
    unfolding x_def using Suc by simp
  have "bit (push_bit 1 x OR bit_at bits (k + n)) j \<longleftrightarrow> j < Suc n \<and> packed_bit bits (k + (n - j))"
    unfolding bit_or_iff bit_push_bit_iff bit_bit_at IH using Suc.prems by (cases j) auto
  then show ?case unfolding x_def by simp
qed simp

lemma bit_word_index:
  "bit (word_index bits w) j \<longleftrightarrow> j < 11 \<and> packed_bit bits (w * 11 + (10 - j))"
  unfolding word_index_def using bit_word_index_fold [of 11 bits "w * 11" j] by simp

lemma length_pack_bit [simp]: "length (pack_bit p v bits) = length bits"
  by (simp add: pack_bit_def)

lemma packed_bit_pack_bit:
  assumes "p < 8 * length bits"
  shows "packed_bit (pack_bit p (x AND 1) bits) q \<longleftrightarrow> packed_bit bits q \<or> q = p \<and> bit x 0"
proof -
  have p: "p div 8 < length bits" using assms by (simp add: less_mult_imp_div_less mult.commute)
  have eq: "q = p \<longleftrightarrow> q div 8 = p div 8 \<and> 7 - q mod 8 = 7 - p mod 8"
  proof -
    have "q mod 8 < 8" "p mod 8 < 8" by simp_all
    then have "7 - q mod 8 = 7 - p mod 8 \<longleftrightarrow> q mod 8 = p mod 8" by linarith
    then show ?thesis using div_mult_mod_eq [of q 8] div_mult_mod_eq [of p 8] by metis
  qed
  show ?thesis
  proof (cases "q div 8 = p div 8")
    case True
    have "bit (ucast (push_bit (7 - p mod 8) (x AND 1)) :: u8) (7 - q mod 8) \<longleftrightarrow> 7 - q mod 8 = 7 - p mod 8 \<and> bit x 0"
      unfolding bit_ucast_iff bit_push_bit_iff and_one_bit by (auto intro!: le_antisym diff_le_mono2)
    then show ?thesis using True p unfolding packed_bit_def pack_bit_def eq by (simp add: bit_or_iff)
  next
    case False
    then show ?thesis unfolding packed_bit_def pack_bit_def by auto
  qed
qed

lemma packed_bit_pack_index_fold:
  "k + n \<le> 8 * length bits \<Longrightarrow> n \<le> m \<Longrightarrow>
   length (fold (\<lambda>b bits. pack_bit (k + b) (drop_bit (m - 1 - b) index AND 1) bits) [0..<n] bits) = length bits \<and>
   (packed_bit (fold (\<lambda>b bits. pack_bit (k + b) (drop_bit (m - 1 - b) index AND 1) bits) [0..<n] bits) q \<longleftrightarrow>
     packed_bit bits q \<or> k \<le> q \<and> q < k + n \<and> bit index (m - 1 - (q - k)))"
proof (induction n)
  case (Suc n)
  then show ?case by (auto simp: packed_bit_pack_bit bit_drop_bit_eq less_Suc_eq)
qed auto

lemma packed_bit_pack_index:
  assumes "w < 12" and "length bits = 17"
  shows "length (pack_index w index bits) = 17"
    and "packed_bit (pack_index w index bits) q \<longleftrightarrow> packed_bit bits q \<or> q div 11 = w \<and> bit index (10 - q mod 11)"
proof -
  have f: "w * 11 + 11 \<le> 8 * length bits" "(11 :: nat) \<le> 11" using assms by simp_all
  note r = packed_bit_pack_index_fold [OF f, of index q]
  show "length (pack_index w index bits) = 17"
    unfolding pack_index_def BITS_PER_WORD_def using r assms(2) by simp
  have "w * 11 \<le> q \<and> q < w * 11 + 11 \<longleftrightarrow> q div 11 = w"
    by (auto simp: div_nat_eqI mult.commute dividend_less_div_times)
  moreover have "q - q div 11 * 11 = q mod 11" by (simp add: minus_div_mult_eq_mod)
  ultimately show "packed_bit (pack_index w index bits) q \<longleftrightarrow> packed_bit bits q \<or> q div 11 = w \<and> bit index (10 - q mod 11)"
    unfolding pack_index_def BITS_PER_WORD_def using r by auto
qed

lemma pack_words_found: "(\<exists>out. pack_words w ws bits = Some out) \<longleftrightarrow> (\<forall>v\<in>set ws. \<exists>i. find_word_index v = Some i)"
  by (induction ws arbitrary: w bits) (auto split: option.splits)

lemma pack_words_bits:
  "pack_words w ws bits = Some out \<Longrightarrow> w + length ws \<le> 12 \<Longrightarrow> length bits = 17 \<Longrightarrow>
   length out = 17 \<and>
   (packed_bit out q \<longleftrightarrow> packed_bit bits q \<or> w \<le> q div 11 \<and> q div 11 < w + length ws \<and>
      bit (the (find_word_index (ws ! (q div 11 - w)))) (10 - q mod 11))"
proof (induction ws arbitrary: w bits)
  case (Cons v ws)
  obtain i where i: "find_word_index v = Some i" "pack_words (w + 1) ws (pack_index w i bits) = Some out"
    using Cons.prems(1) by (auto split: option.splits)
  note b = packed_bit_pack_index [of w bits i]
  have "w < 12" using Cons.prems(2) by simp
  note IH = Cons.IH [OF i(2)] b [OF this Cons.prems(3)]
  have n: "(v # ws) ! (q div 11 - w) = ws ! (q div 11 - Suc w)" if "Suc w \<le> q div 11"
  proof -
    have "q div 11 - w = Suc (q div 11 - Suc w)" using that by simp
    then show ?thesis by simp
  qed
  show ?case
  proof (cases "q div 11 = w")
    case True
    then show ?thesis using IH Cons.prems(2) i(1) by simp
  next
    case False
    then have le: "w \<le> q div 11 \<longleftrightarrow> Suc w \<le> q div 11" by linarith
    show ?thesis
    proof (cases "Suc w \<le> q div 11")
      case True
      then show ?thesis using IH Cons.prems(2) n False by simp
    next
      case F: False
      then show ?thesis using IH Cons.prems(2) le False by simp
    qed
  qed
qed auto

lemma packed_ext:
  assumes "length xs = length ys" and "\<And>q. q < 8 * length xs \<Longrightarrow> packed_bit xs q = packed_bit ys q"
  shows "xs = ys"
proof (rule nth_equalityI [OF assms(1)])
  fix i assume i: "i < length xs"
  show "xs ! i = ys ! i"
  proof (rule bit_word_eqI)
    fix n assume n: "n < LENGTH(8)"
    obtain m where m: "m < 8" "n = 7 - m" using n by (intro that [of "7 - n"]) simp_all
    then have "(8 * i + m) div 8 = i" "(8 * i + m) mod 8 = m" by simp_all
    moreover have "8 * i + m < 8 * length xs" using i m by simp
    ultimately show "bit (xs ! i) n = bit (ys ! i) n" using assms(2) [of "8 * i + m"] m by (simp add: packed_bit_def)
  qed
qed

lemma packed_bit_zeros: "q < 8 * n \<Longrightarrow> \<not> packed_bit (replicate n 0) q"
  by (simp add: packed_bit_def less_mult_imp_div_less mult.commute)

section \<open>The words of an array of bits\<close>

definition packed_words :: "bytes \<Rightarrow> bytes list" where
  "packed_words bits = map (\<lambda>w. RECOVERY_WORDLIST ! unat (word_index bits w)) [0..<12]"

lemma packed_words_length [simp]: "length (packed_words bits) = 12"
  by (simp add: packed_words_def)

lemma word_index_less: "unat (word_index bits w) < 2048"
proof -
  have "take_bit 11 (word_index bits w) = word_index bits w"
    by (rule bit_word_eqI) (auto simp: bit_take_bit_iff bit_word_index)
  then have "take_bit 11 (unat (word_index bits w)) = unat (word_index bits w)" by (metis unsigned_take_bit_eq)
  then show ?thesis using take_bit_nat_less_exp [of 11 "unat (word_index bits w)"] by simp
qed

lemma packed_words_plain: "list_all plain_word (packed_words bits)"
  using word_index_less wordlist_facts(1) by (auto simp: packed_words_def list_all_iff intro: wordlist_plain)

lemma div_mod_block: "m < k \<Longrightarrow> (w * k + m) div k = w" "m < k \<Longrightarrow> (w * k + m) mod k = (m :: nat)"
  by simp_all

lemma bit_small_index: "unat (i :: u32) < 2048 \<Longrightarrow> bit i j \<Longrightarrow> j < 11"
proof -
  assume "unat i < 2048" "bit i j"
  then have "take_bit 11 (unat i) = unat i" by (intro take_bit_nat_eq_self) simp
  then have "unat (take_bit 11 i) = unat i" by (simp add: unsigned_take_bit_eq)
  then have "take_bit 11 i = i" by (rule unsigned_word_eqI)
  then have "bit (take_bit 11 i) j" using \<open>bit i j\<close> by simp
  then show "j < 11" by (simp add: bit_take_bit_iff)
qed

text \<open>The last four of the 136 bits belong to no word.\<close>

definition no_spare_bits :: "bytes \<Rightarrow> bool" where
  "no_spare_bits bits \<longleftrightarrow> length bits = 17 \<and> bits ! 16 AND 0xF0 = bits ! 16"

lemma bit_0xF0: "bit (0xF0 :: u8) n \<longleftrightarrow> 4 \<le> n \<and> n < 8"
proof -
  have eq: "(0xF0 :: u8) = push_bit 4 (mask 4)" by (simp add: mask_eq_exp_minus_1 push_bit_eq_mult)
  show ?thesis unfolding eq bit_push_bit_iff bit_mask_iff by auto
qed

lemma no_spare_bits_iff:
  assumes "length bits = 17"
  shows "no_spare_bits bits \<longleftrightarrow> (\<forall>q. 132 \<le> q \<longrightarrow> q < 136 \<longrightarrow> \<not> packed_bit bits q)"
proof -
  have q: "q div 8 = 16 \<and> 7 - q mod 8 = 135 - q \<and> 135 - q < 4" if "132 \<le> q" "q < 136" for q :: nat
  proof -
    obtain d where d: "q = 16 * 8 + (4 + d)" "d < 4" using le_Suc_ex [OF \<open>132 \<le> q\<close>] \<open>q < 136\<close> by auto
    have "q div 8 = 16" "q mod 8 = 4 + d" unfolding d(1) using d(2) by (intro div_mod_block; simp)+
    then show ?thesis using d by simp
  qed
  have "bits ! 16 AND 0xF0 = bits ! 16 \<longleftrightarrow> (\<forall>n<4. \<not> bit (bits ! 16) n)"
    unfolding bit_eq_iff bit_and_iff bit_0xF0 using bit_u8_bound by (auto dest: leD intro: leI)
  also have "\<dots> \<longleftrightarrow> (\<forall>q. 132 \<le> q \<longrightarrow> q < 136 \<longrightarrow> \<not> packed_bit bits q)"
  proof (intro iffI allI impI)
    fix q :: nat
    assume "\<forall>n<4. \<not> bit (bits ! 16) n" "132 \<le> q" "q < 136"
    then show "\<not> packed_bit bits q" using q [of q] by (simp add: packed_bit_def)
  next
    fix n :: nat
    assume h: "\<forall>q. 132 \<le> q \<longrightarrow> q < 136 \<longrightarrow> \<not> packed_bit bits q" "n < 4"
    then show "\<not> bit (bits ! 16) n" using h(1) [THEN spec, of "135 - n"] q [of "135 - n"] by (simp add: packed_bit_def)
  qed
  finally show ?thesis using assms by (simp add: no_spare_bits_def)
qed

lemma pack_packed_words:
  assumes "no_spare_bits bits"
  shows "pack_words 0 (packed_words bits) (replicate 17 0) = Some bits"
proof -
  have l: "length bits = 17" using assms by (simp add: no_spare_bits_def)
  have "\<forall>v\<in>set (packed_words bits). \<exists>i. find_word_index v = Some i"
    using find_word_index_at word_index_less by (auto simp: packed_words_def)
  then obtain out where out: "pack_words 0 (packed_words bits) (replicate 17 0) = Some out"
    using pack_words_found by metis
  have f: "the (find_word_index (packed_words bits ! w)) = word_index bits w" if "w < 12" for w
    using that find_word_index_at [OF word_index_less] by (simp add: packed_words_def)
  note b = pack_words_bits [OF out, simplified]
  have "bits = out"
  proof (rule packed_ext)
    show "length bits = length out" using b l by simp
    fix q assume q: "q < 8 * length bits"
    then have z: "\<not> packed_bit (replicate 17 0) q" using packed_bit_zeros [of q 17] l by simp
    show "packed_bit bits q = packed_bit out q"
    proof (cases "q < 132")
      case True
      then have "q div 11 < 12" by (simp add: less_mult_imp_div_less)
      moreover have "q div 11 * 11 + (10 - (10 - q mod 11)) = q"
      proof -
        have "q mod 11 < 11" by simp
        then have "10 - (10 - q mod 11) = q mod 11" by linarith
        then show ?thesis by simp
      qed
      moreover have "10 - q mod 11 < 11" by simp
      ultimately show ?thesis using b [of q] z l by (simp add: f bit_word_index)
    next
      case False
      then have "\<not> q div 11 < 12" by (simp add: not_less less_eq_div_iff_mult_less_eq)
      then show ?thesis using b [of q] z False q l assms no_spare_bits_iff [OF l] by simp
    qed
  qed
  then show ?thesis using out by simp
qed

lemma pack_words_sound:
  assumes "pack_words 0 ws (replicate 17 0) = Some out" and "length ws = 12"
  shows "no_spare_bits out \<and> ws = packed_words out"
proof -
  note b = pack_words_bits [OF assms(1), simplified, unfolded assms(2), simplified]
  have l: "length out = 17" using b by simp
  have z: "\<not> packed_bit (replicate 17 0) q" if "q < 136" for q using packed_bit_zeros [of q 17] that by simp
  have "no_spare_bits out" unfolding no_spare_bits_iff [OF l]
  proof (intro allI impI)
    fix q :: nat
    assume "132 \<le> q" "q < 136"
    then have "\<not> q div 11 < 12" "q < 136" by (simp_all add: not_less less_eq_div_iff_mult_less_eq)
    then show "\<not> packed_bit out q" using b [of q] z by simp
  qed
  moreover have "ws ! w = RECOVERY_WORDLIST ! unat (word_index out w)" if w: "w < 12" for w
  proof -
    obtain i where i: "find_word_index (ws ! w) = Some i"
      using pack_words_found [of 0 ws "replicate 17 0"] assms w by (metis nth_mem)
    have "word_index out w = i"
    proof (rule bit_eqI)
      fix j
      have small: "bit i j \<Longrightarrow> j < 11" using bit_small_index find_word_index_Some [OF i] by blast
      have "packed_bit out (w * 11 + (10 - j)) = bit i j" if j: "j < 11"
      proof -
        have "(w * 11 + (10 - j)) div 11 = w" "(w * 11 + (10 - j)) mod 11 = 10 - j" using j by (intro div_mod_block; simp)+
        moreover have "10 - (10 - j) = j" "w * 11 + (10 - j) < 136" using j w by simp_all
        ultimately show ?thesis using b [of "w * 11 + (10 - j)"] z [of "w * 11 + (10 - j)"] w i by simp
      qed
      then show "bit (word_index out w) j = bit i j" using small by (auto simp: bit_word_index)
    qed
    then show ?thesis using find_word_index_Some [OF i] by simp
  qed
  ultimately show ?thesis using assms(2) by (auto simp: packed_words_def intro: nth_equalityI)
qed

section \<open>The phrase of an entropy\<close>

lemma entropy_to_phrase_words:
  "entropy_to_phrase lib e = concat (take 1 (packed_words (e @ [checksum_nibble lib e]))) @
     spaced (drop 1 (packed_words (e @ [checksum_nibble lib e])))"
  by (simp add: entropy_to_phrase_def Let_def packed_words_def upt_rec)

lemma split_entropy_to_phrase:
  "split_words (entropy_to_phrase lib e) [] = Some (packed_words (e @ [checksum_nibble lib e]))"
proof -
  define ws where "ws = packed_words (e @ [checksum_nibble lib e])"
  have "length ws = 12" by (simp add: ws_def)
  then obtain v vs where vs: "ws = v # vs" by (cases ws) auto
  have "entropy_to_phrase lib e = v @ spaced vs" using entropy_to_phrase_words [of lib e, folded ws_def] vs by simp
  moreover have "list_all plain_word (v # vs)" "length (v # vs) = RECOVERY_WORD_COUNT"
    using packed_words_plain vs packed_words_length unfolding ws_def by (metis, metis RECOVERY_WORD_COUNT_def)
  ultimately show ?thesis using split_words_spaced vs ws_def by simp
qed

lemma checksum_no_spare: "length e = 16 \<Longrightarrow> no_spare_bits (e @ [checksum_nibble lib e])"
  by (simp add: no_spare_bits_def nth_append checksum_nibble_def and.assoc)

lemma phrase_to_entropy_iff:
  "phrase_to_entropy lib phrase = Some e \<longleftrightarrow>
     length e = 16 \<and> split_words phrase [] = Some (packed_words (e @ [checksum_nibble lib e]))"
proof
  assume "phrase_to_entropy lib phrase = Some e"
  then obtain ws bits where ws: "split_words phrase [] = Some ws" "pack_words 0 ws (replicate 17 0) = Some bits"
    "e = take 16 bits" "bits ! 16 AND 0xF0 = checksum_nibble lib e"
    by (auto simp: phrase_to_entropy_def Let_def split: option.splits if_splits)
  have s: "no_spare_bits bits" "ws = packed_words bits"
    using pack_words_sound [OF ws(2)] split_words_length [OF ws(1)] by auto
  then have l: "length bits = 17" "bits ! 16 = checksum_nibble lib e" using ws(4) by (auto simp: no_spare_bits_def)
  then have "bits = e @ [checksum_nibble lib e]" using ws(3) take_Suc_conv_app_nth [of 16 bits] by simp
  then show "length e = 16 \<and> split_words phrase [] = Some (packed_words (e @ [checksum_nibble lib e]))"
    using ws l s by simp
next
  assume "length e = 16 \<and> split_words phrase [] = Some (packed_words (e @ [checksum_nibble lib e]))"
  then show "phrase_to_entropy lib phrase = Some e"
    using pack_packed_words [OF checksum_no_spare [of e lib]]
    by (simp add: phrase_to_entropy_def Let_def nth_append checksum_nibble_def and.assoc)
qed

lemma phrase_to_entropy_to_phrase: "length e = 16 \<Longrightarrow> phrase_to_entropy lib (entropy_to_phrase lib e) = Some e"
  by (simp add: phrase_to_entropy_iff split_entropy_to_phrase)

text \<open>
  C30: a recovery phrase restores its entropy, and nothing else does: a text is accepted for the
  entropy \<open>e\<close> exactly when its words, whatever the letter case and the white space between them,
  are the twelve words that \<^verbatim>\<open>entropy_to_phrase\<close> shows for \<open>e\<close>.
\<close>

theorem recovery_phrase_restores:
  assumes "length e = RECOVERY_ENTROPY_SIZE"
  shows "phrase_to_entropy lib (entropy_to_phrase lib e) = Some e \<and>
    (phrase_to_entropy lib phrase = Some e \<longleftrightarrow> split_words phrase [] = split_words (entropy_to_phrase lib e) [])"
  using assms phrase_to_entropy_to_phrase [of e lib] by (simp add: phrase_to_entropy_iff split_entropy_to_phrase)

theorem recovery_phrase_restores_witness:
  "phrase_to_entropy toy_sodium (entropy_to_phrase toy_sodium (replicate 16 7)) = Some (replicate 16 7)"
  using recovery_phrase_restores [of "replicate 16 7" toy_sodium "[]"] by simp

end
