(* ===== verification/Direct_Message.thy ===== *)
theory Direct_Message
  imports Client_Crypto
begin

text \<open>
  Private messages from end to end (\<^verbatim>\<open>src/client/dm/dm_courier.cpp\<close>). Failures are the texts that the
  code puts into \<^verbatim>\<open>error_out\<close>.
\<close>

section \<open>The content of a message\<close>

definition PREKEY_DERIVATION_INFO :: bytes where
  "PREKEY_DERIVATION_INFO = ascii ''hypercom-prekey-derive-v1''"

definition DM_PAYLOAD_VERSION :: u8 where "DM_PAYLOAD_VERSION = 1"

definition build_dm_payload :: "u64 \<Rightarrow> bytes \<Rightarrow> bytes" where
  "build_dm_payload sent_at characters =
     bw_target (write_seq [write_integer DM_PAYLOAD_VERSION, write_integer sent_at, write_fixed_bytes characters]
       (byte_writer_of []))"

definition parse_dm_payload :: "bytes \<Rightarrow> (u64 \<times> bytes) option" where
  "parse_dm_payload payload =
     (case read_integer (byte_reader_of payload) of
        (None, _) \<Rightarrow> None
      | (Some (version :: u8), r1) \<Rightarrow>
          if version \<noteq> DM_PAYLOAD_VERSION then None
          else (case read_integer r1 of
                  (None, _) \<Rightarrow> None
                | (Some (sent_at :: u64), r2) \<Rightarrow>
                    (case read_fixed_bytes (count_remaining_bytes r2) r2 of
                       (None, _) \<Rightarrow> None
                     | (Some characters, _) \<Rightarrow>
                         if validate_text_field characters then Some (sent_at, characters) else None)))"

definition derive_first_message_key :: "client_lib \<Rightarrow> bytes \<Rightarrow> bytes option" where
  "derive_first_message_key lib root = fst (derive_next_message_key lib (new_message_chain root))"

section \<open>Keys\<close>

definition derive_local_prekey :: "client_lib \<Rightarrow> identity_keypair \<Rightarrow> (bytes \<times> bytes) option" where
  "derive_local_prekey lib identity =
     (case expand_key_block (cl_sodium lib) (take SYMMETRIC_KEY_SIZE (ik_secret identity)) PREKEY_DERIVATION_INFO 1 of
        None \<Rightarrow> None
      | Some secret_out \<Rightarrow>
          (case compute_public_from_secret (cl_sodium lib) secret_out of
             None \<Rightarrow> None | Some public_out \<Rightarrow> Some (public_out, secret_out)))"

definition verify_prekey_bundle :: "client_lib \<Rightarrow> prekey_bundle_response \<Rightarrow> bool" where
  "verify_prekey_bundle lib bundle =
     cl_verify lib (pb_owner_pubkey bundle)
       (build_prekey_signing_input (pb_owner_pubkey bundle) (pb_prekey bundle)) (pb_signature bundle)"

section \<open>Sealing and opening\<close>

text \<open>\<open>generated\<close> is the ephemeral key pair the generator returns, \<open>now\<close> the reading of the clock.\<close>

definition seal_direct_message ::
  "client_lib \<Rightarrow> (bytes \<times> bytes) option \<Rightarrow> u64 \<Rightarrow> identity_keypair \<Rightarrow> prekey_bundle_response \<Rightarrow> bytes \<Rightarrow> bytes + bytes" where
  "seal_direct_message lib generated now sender recipient_bundle characters =
     (if \<not> verify_prekey_bundle lib recipient_bundle
      then Inl (ascii ''prekey du destinataire non signee par son identite : le serveur tente peut-etre de s'interposer'')
      else case generated of
        None \<Rightarrow> Inl (ascii ''generation de la cle ephemere impossible'')
      | Some (ephemeral_public, ephemeral_secret) \<Rightarrow>
          (case Option.bind (derive_sender_session_key lib sender ephemeral_secret
                   (pb_owner_pubkey recipient_bundle) (pb_prekey recipient_bundle)) (\<lambda>root.
                 Option.bind (derive_first_message_key lib root) (\<lambda>message_key.
                 seal_dm_envelope lib \<lparr>eh_version = DM_ENVELOPE_VERSION, eh_sender_identity = ik_public sender,
                   eh_sender_ephemeral = ephemeral_public, eh_counter = 0\<rparr> message_key
                   (build_dm_payload now characters))) of
             None \<Rightarrow> Inl (ascii ''chiffrement du message impossible'')
           | Some out \<Rightarrow> Inr out))"

definition open_direct_message :: "client_lib \<Rightarrow> identity_keypair \<Rightarrow> bytes \<Rightarrow> bytes + u64 \<times> bytes" where
  "open_direct_message lib recipient envelope =
     (case parse_dm_envelope_header envelope of
        None \<Rightarrow> Inl (ascii ''enveloppe illisible'')
      | Some header \<Rightarrow>
          (case derive_local_prekey lib recipient of
             None \<Rightarrow> Inl (ascii ''derivation de la prekey locale impossible'')
           | Some (prekey_public, prekey_secret) \<Rightarrow>
               (case Option.bind (derive_recipient_session_key lib recipient prekey_secret
                        (eh_sender_identity header) (eh_sender_ephemeral header)) (\<lambda>root.
                      Option.bind (derive_first_message_key lib root) (\<lambda>message_key.
                      open_dm_envelope lib envelope message_key)) of
                  None \<Rightarrow> Inl (ascii ''dechiffrement impossible : message altere, ou destine a quelqu'un d'autre'')
                | Some plaintext \<Rightarrow>
                    (case parse_dm_payload plaintext of
                       None \<Rightarrow> Inl (ascii ''contenu du message illisible'')
                     | Some result \<Rightarrow> Inr result))))"

section \<open>The content\<close>

lemma build_dm_payload_eq: "build_dm_payload sent_at characters = le_bytes DM_PAYLOAD_VERSION @ le_bytes sent_at @ characters"
  by (simp add: build_dm_payload_def writer_simps)

lemma parse_built:
  "parse_dm_payload (build_dm_payload sent_at characters) =
     (if validate_text_field characters then Some (sent_at, characters) else None)"
proof -
  let ?r = "byte_reader_of (build_dm_payload sent_at characters)"
  have u: "unread ?r = le_bytes DM_PAYLOAD_VERSION @ le_bytes sent_at @ characters" "br_ok ?r"
    by (simp_all add: byte_reader_of_def unread_def br_ok_def build_dm_payload_eq)
  let ?r1 = "advance (length (le_bytes DM_PAYLOAD_VERSION)) ?r"
  have r1: "read_integer ?r = (Some DM_PAYLOAD_VERSION, ?r1)"
    by (rule decodesD [OF decodes_read_integer u(2,1)]) simp
  have u1: "unread ?r1 = le_bytes sent_at @ characters" "br_ok ?r1"
    using unread_advance [OF u(1)] br_ok_advance [OF u(2,1)] by simp_all
  let ?r2 = "advance (length (le_bytes sent_at)) ?r1"
  have r2: "read_integer ?r1 = (Some sent_at, ?r2)"
    by (rule decodesD [OF decodes_read_integer u1(2,1)]) simp
  have u2: "unread ?r2 = characters" "br_ok ?r2"
    using unread_advance [OF u1(1)] br_ok_advance [OF u1(2,1)] by simp_all
  then have r3: "fst (read_fixed_bytes (count_remaining_bytes ?r2) ?r2) = Some characters"
    by (auto simp: read_fixed_bytes_def take_slice_def count_remaining_bytes_def unread_def
        dest: arg_cong [where f = length])
  then obtain r4 where r4: "read_fixed_bytes (count_remaining_bytes ?r2) ?r2 = (Some characters, r4)"
    by (metis prod.collapse)
  show ?thesis
    by (simp only: parse_dm_payload_def r1 r2 r4 prod.case option.case simp_thms if_False)
qed

section \<open>Agreement\<close>

lemma session_keys_agree:
  assumes "dh_agrees (cl_sodium lib)" and sender: "identity_ok lib sender" and recipient: "identity_ok lib recipient"
    and e: "so_scalarmult_base (cl_sodium lib) ephemeral_secret = Some ephemeral_public"
    and p: "so_scalarmult_base (cl_sodium lib) prekey_secret = Some prekey_public"
  shows "derive_recipient_session_key lib recipient prekey_secret (ik_public sender) ephemeral_public =
    derive_sender_session_key lib sender ephemeral_secret (ik_public recipient) prekey_public"
proof -
  obtain xs xp where x: "cl_sk_to_curve lib (ik_secret sender) = Some xs" "cl_pk_to_curve lib (ik_public sender) = Some xp"
    "so_scalarmult_base (cl_sodium lib) xs = Some xp" using sender by (auto simp: identity_ok_def)
  obtain ys yp where y: "cl_sk_to_curve lib (ik_secret recipient) = Some ys" "cl_pk_to_curve lib (ik_public recipient) = Some yp"
    "so_scalarmult_base (cl_sodium lib) ys = Some yp" using recipient by (auto simp: identity_ok_def)
  have swap: "so_scalarmult (cl_sodium lib) b pa = so_scalarmult (cl_sodium lib) a pb"
    if "so_scalarmult_base (cl_sodium lib) a = Some pa" "so_scalarmult_base (cl_sodium lib) b = Some pb" for a b pa pb
    using assms(1) that unfolding dh_agrees_def by metis
  show ?thesis
    unfolding derive_recipient_session_key_def derive_sender_session_key_def convert_identity_secret_to_x25519_def
      convert_identity_public_to_x25519_def x y option.case combine_exchanges_def prod.case compute_shared_secret_def
      swap [OF x(3) p] swap [OF e y(3)] swap [OF e p] by (rule refl)
qed

lemma sealed_opens:
  assumes "xaead_correct lib" and "header_ok h" and "seal_dm_envelope lib h key plaintext = Some envelope"
  shows "parse_dm_envelope_header envelope = Some h" and "open_dm_envelope lib envelope key = Some plaintext"
proof -
  obtain body where b: "cl_xaead_encrypt lib key ZERO_NONCE (serialize_header h) plaintext = Some body"
    "envelope = serialize_header h @ body"
    using assms(3) by (auto simp: seal_dm_envelope_def Let_def split: option.splits)
  then show p: "parse_dm_envelope_header envelope = Some h"
    using parse_serialized [OF assms(2)] xaead_correctD(2) [OF assms(1) b(1)] by simp
  show "open_dm_envelope lib envelope key = Some plaintext"
    using b length_serialize_header [OF assms(2)] xaead_correctD(1) [OF assms(1)] p
    by (simp add: open_dm_envelope_def)
qed

lemma sealed_message_opens:
  assumes "xaead_correct lib" and "dh_agrees (cl_sodium lib)"
    and "identity_ok lib sender" and "identity_ok lib recipient" and "keypair_ok (cl_sodium lib) (ep, es)"
    and "derive_local_prekey lib recipient = Some (pb_prekey bundle, prekey_secret)"
    and "pb_owner_pubkey bundle = ik_public recipient"
    and "seal_direct_message lib (Some (ep, es)) now sender bundle characters = Inr envelope"
  shows "open_direct_message lib recipient envelope =
      (if validate_text_field characters then Inr (now, characters) else Inl (ascii ''contenu du message illisible''))"
    and "parse_dm_envelope_header envelope = Some \<lparr>eh_version = DM_ENVELOPE_VERSION,
      eh_sender_identity = ik_public sender, eh_sender_ephemeral = ep, eh_counter = 0\<rparr>"
proof -
  let ?h = "\<lparr>eh_version = DM_ENVELOPE_VERSION, eh_sender_identity = ik_public sender, eh_sender_ephemeral = ep, eh_counter = 0\<rparr>"
  obtain root key where k: "derive_sender_session_key lib sender es (ik_public recipient) (pb_prekey bundle) = Some root"
    "derive_first_message_key lib root = Some key"
    "seal_dm_envelope lib ?h key (build_dm_payload now characters) = Some envelope"
    using assms(7,8) by (auto simp: seal_direct_message_def bind_eq_Some_conv split: if_splits option.splits)
  have "header_ok ?h" using assms(3,5) by (simp add: header_ok_def identity_ok_def keypair_ok_def)
  note o = sealed_opens [OF assms(1) this k(3)]
  have "so_scalarmult_base (cl_sodium lib) prekey_secret = Some (pb_prekey bundle)"
    using assms(6) by (auto simp: derive_local_prekey_def compute_public_from_secret_def split: option.splits)
  then have "derive_recipient_session_key lib recipient prekey_secret (ik_public sender) ep = Some root"
    using session_keys_agree [OF assms(2,3,4), of es ep prekey_secret "pb_prekey bundle"] assms(5) k(1)
    by (simp add: keypair_ok_def)
  then show "open_direct_message lib recipient envelope =
      (if validate_text_field characters then Inr (now, characters) else Inl (ascii ''contenu du message illisible''))"
    using o k(2) by (simp add: open_direct_message_def assms(6) parse_built)
  show "parse_dm_envelope_header envelope = Some ?h" by (rule o(1))
qed

text \<open>
  C14. A private message arrives. If the sender holds the bundle with the recipient's identity and the
  prekey that identity derives, whatever the sealed message is, the recipient opens it to exactly the
  text and the time the sender put in, when the text is one the protocol permits; nothing has to be
  exchanged before. The header carries the sender's identity and a new ephemeral key.
\<close>

theorem private_message_arrives:
  assumes "xaead_correct lib" and "dh_agrees (cl_sodium lib)"
    and "identity_ok lib sender" and "identity_ok lib recipient" and "keypair_ok (cl_sodium lib) (ep, es)"
    and "derive_local_prekey lib recipient = Some (pb_prekey bundle, prekey_secret)"
    and "pb_owner_pubkey bundle = ik_public recipient"
    and "seal_direct_message lib (Some (ep, es)) now sender bundle characters = Inr envelope"
  shows "open_direct_message lib recipient envelope =
      (if validate_text_field characters then Inr (now, characters) else Inl (ascii ''contenu du message illisible'')) \<and>
    parse_dm_envelope_header envelope = Some \<lparr>eh_version = DM_ENVELOPE_VERSION,
      eh_sender_identity = ik_public sender, eh_sender_ephemeral = ep, eh_counter = 0\<rparr>"
  using sealed_message_opens [OF assms] by (rule conjI)

text \<open>A concrete library that meets the hypotheses.\<close>

definition toy_tag :: "bytes \<Rightarrow> bytes \<Rightarrow> bytes \<Rightarrow> bytes" where
  "toy_tag k n ad = take 16 (k @ ad @ n @ replicate 16 0)"

definition toy_client :: client_lib where
  "toy_client =
     \<lparr>cl_sodium = toy_sodium,
      cl_xaead_encrypt = (\<lambda>k n ad p. Some (p @ toy_tag k n ad)),
      cl_xaead_decrypt = (\<lambda>k n ad c. if 16 \<le> length c \<and> drop (length c - 16) c = toy_tag k n ad
        then Some (take (length c - 16) c) else None),
      cl_pk_to_curve = Some, cl_sk_to_curve = (\<lambda>s. Some (take 32 s)),
      cl_sign = (\<lambda>_ _. Some (replicate 64 0)), cl_verify = (\<lambda>_ _ _. True),
      cl_seed_keypair = (\<lambda>seed. Some (seed, seed @ seed)),
      cl_pwhash = (\<lambda>passphrase salt _ _. Some (take 32 (passphrase @ salt @ replicate 32 0))),
      cl_opslimit_moderate = 3, cl_memlimit_moderate = 268435456\<rparr>"

lemma toy_client_fields:
  "cl_verify toy_client k m sig" "cl_xaead_encrypt toy_client k n ad p = Some (p @ toy_tag k n ad)"
  "cl_sodium toy_client = toy_sodium"
  by (simp_all add: toy_client_def)

lemma toy_client_ok: "xaead_correct toy_client" "dh_agrees (cl_sodium toy_client)"
  "identity_ok toy_client \<lparr>ik_public = replicate 32 k, ik_secret = replicate 64 k\<rparr>"
proof -
  have "length (toy_tag k n ad) = 16" for k n ad by (simp add: toy_tag_def)
  then have "p @ toy_tag k n ad = c \<longleftrightarrow> 16 \<le> length c \<and> drop (length c - 16) c = toy_tag k n ad \<and>
      take (length c - 16) c = p" for p k n ad c
    by (metis append_eq_conv_conj append_take_drop_id diff_add_inverse2 le_add2 length_append)
  then show "xaead_correct toy_client"
    by (auto simp: xaead_correct_def toy_client_def toy_tag_def)
  show "dh_agrees (cl_sodium toy_client)" using toy_sodium_ok(2) by (simp add: toy_client_def)
  show "identity_ok toy_client \<lparr>ik_public = replicate 32 k, ik_secret = replicate 64 k\<rparr>"
    by (simp add: identity_ok_def toy_client_def toy_sodium_def)
qed

lemma toy_expand: "\<exists>k. expand_key_block toy_sodium key info i = Some k"
  by (simp add: expand_key_block_def compute_hmac_def toy_sodium_def)

definition toy_identity :: "u8 \<Rightarrow> identity_keypair" where
  "toy_identity k = \<lparr>ik_public = replicate 32 k, ik_secret = replicate 64 k\<rparr>"

lemma toy_prekey: "\<exists>pk sk. derive_local_prekey toy_client (toy_identity k) = Some (pk, sk) \<and> length pk = 32"
  by (auto simp: derive_local_prekey_def toy_client_def expand_key_block_def compute_hmac_def toy_sodium_def toy_identity_def
      compute_public_from_secret_def)

lemma toy_seals:
  assumes "length (pb_owner_pubkey offer) = 32" and "length (pb_prekey offer) = 32"
  shows "\<exists>envelope. seal_direct_message toy_client (Some (replicate 32 e, replicate 32 e)) now (toy_identity k) offer characters = Inr envelope \<and>
    length envelope \<le> length characters + 200"
proof -
  obtain root where r: "derive_sender_session_key toy_client (toy_identity k) (replicate 32 e) (pb_owner_pubkey offer) (pb_prekey offer) = Some root"
    by (auto simp: derive_sender_session_key_def convert_identity_secret_to_x25519_def convert_identity_public_to_x25519_def
        toy_client_def combine_exchanges_def compute_shared_secret_def combine_shared_secrets_def toy_identity_def
        extract_pseudo_random_key_def expand_key_block_def compute_hmac_def toy_sodium_def DM_SESSION_DOMAIN_def)
  obtain key where "derive_first_message_key toy_client root = Some key"
    by (auto simp: derive_first_message_key_def derive_next_message_key_def toy_client_def expand_key_block_def
        compute_hmac_def toy_sodium_def)
  then show ?thesis
    using r by (simp add: seal_direct_message_def verify_prekey_bundle_def seal_dm_envelope_def toy_client_fields Let_def
        serialize_header_eq toy_identity_def build_dm_payload_eq toy_tag_def)
qed

lemma toy_text: "validate_text_field (ascii ''salut'')"
  by (simp add: ascii_def validate_text_field_def validate_from.simps is_allowed_ascii_def measure_utf8_sequence_def)

lemma toy_identity_ok: "identity_ok toy_client (toy_identity k)" "keypair_ok (cl_sodium toy_client) (replicate 32 k, replicate 32 k)"
  unfolding toy_identity_def using toy_client_ok(3) toy_sodium_ok(3) by (simp_all add: toy_client_def)

theorem private_message_arrives_witness:
  "\<exists>offer envelope. seal_direct_message toy_client (Some (replicate 32 3, replicate 32 3)) 99
      (toy_identity 1) offer (ascii ''salut'') = Inr envelope \<and>
    open_direct_message toy_client (toy_identity 2) envelope = Inr (99, ascii ''salut'')"
proof -
  obtain pk sk where p: "derive_local_prekey toy_client (toy_identity 2) = Some (pk, sk)" "length pk = 32" using toy_prekey by blast
  let ?offer = "\<lparr>pb_owner_pubkey = ik_public (toy_identity 2), pb_prekey = pk, pb_signature = [], pb_created_at = 0\<rparr>"
  obtain envelope where e: "seal_direct_message toy_client (Some (replicate 32 3, replicate 32 3)) 99 (toy_identity 1) ?offer
      (ascii ''salut'') = Inr envelope"
    using toy_seals [of ?offer 3 99 1 "ascii ''salut''"] p(2) by (auto simp: toy_identity_def)
  from private_message_arrives [OF toy_client_ok(1,2) toy_identity_ok(1,1,2) _ _ e, where prekey_secret = sk] p e toy_text
  show ?thesis by (auto intro!: exI [of _ ?offer])
qed

text \<open>
  Envelopes are authentic. An envelope opens with a key exactly when it is what sealing produces,
  with that key, from the opened text under the very header it carries. So no byte of the header, the
  sender's identity and the counter included, and no byte of the body can be changed: the result is
  not a sealing any more, and is refused.
\<close>

theorem envelope_opens_iff_sealed:
  assumes "xaead_correct lib"
  shows "open_dm_envelope lib envelope key = Some plaintext \<longleftrightarrow>
    (\<exists>h. parse_dm_envelope_header envelope = Some h \<and> seal_dm_envelope lib h key plaintext = Some envelope)"
proof
  assume "open_dm_envelope lib envelope key = Some plaintext"
  then obtain h where h: "parse_dm_envelope_header envelope = Some h"
    "cl_xaead_decrypt lib key ZERO_NONCE (take DM_ENVELOPE_HEADER_SIZE envelope) (drop DM_ENVELOPE_HEADER_SIZE envelope) = Some plaintext"
    by (auto simp: open_dm_envelope_def split: option.splits)
  note p = parsed_header [OF h(1)]
  have "take DM_ENVELOPE_HEADER_SIZE envelope = serialize_header h"
    using p(2) length_serialize_header [OF p(1)] by (metis append_eq_conv_conj)
  then have "cl_xaead_encrypt lib key ZERO_NONCE (serialize_header h) plaintext = Some (drop DM_ENVELOPE_HEADER_SIZE envelope)"
    using h(2) by (simp only: xaead_correctD(1) [OF assms])
  then have "seal_dm_envelope lib h key plaintext = Some envelope"
    using p(2) by (simp add: seal_dm_envelope_def)
  with h(1) show "\<exists>h. parse_dm_envelope_header envelope = Some h \<and> seal_dm_envelope lib h key plaintext = Some envelope"
    by blast
next
  assume "\<exists>h. parse_dm_envelope_header envelope = Some h \<and> seal_dm_envelope lib h key plaintext = Some envelope"
  then obtain h where h: "parse_dm_envelope_header envelope = Some h" "seal_dm_envelope lib h key plaintext = Some envelope"
    by blast
  from sealed_opens(2) [OF assms parsed_header(1) [OF h(1)] h(2)]
  show "open_dm_envelope lib envelope key = Some plaintext" .
qed

theorem envelope_opens_iff_sealed_witness:
  "\<exists>envelope. seal_dm_envelope toy_client \<lparr>eh_version = 1, eh_sender_identity = replicate 32 4,
      eh_sender_ephemeral = replicate 32 5, eh_counter = 6\<rparr> (replicate 32 7) [8, 9] = Some envelope \<and>
    open_dm_envelope toy_client envelope (replicate 32 7) = Some [8, 9]"
proof -
  let ?h = "\<lparr>eh_version = 1, eh_sender_identity = replicate 32 4, eh_sender_ephemeral = replicate 32 5, eh_counter = 6\<rparr>"
  obtain envelope where e: "seal_dm_envelope toy_client ?h (replicate 32 7) [8, 9] = Some envelope"
    by (simp add: seal_dm_envelope_def toy_client_def Let_def)
  have "header_ok ?h" by (simp add: header_ok_def DM_ENVELOPE_VERSION_def)
  from sealed_opens(1) [OF toy_client_ok(1) this e] e show ?thesis
    using envelope_opens_iff_sealed [OF toy_client_ok(1), of envelope "replicate 32 7" "[8, 9]"] by blast
qed

section \<open>The chain\<close>

primrec chain_after :: "client_lib \<Rightarrow> nat \<Rightarrow> dm_message_chain \<Rightarrow> dm_message_chain" where
  "chain_after lib 0 c = c"
| "chain_after lib (Suc n) c = chain_after lib n (snd (derive_next_message_key lib c))"

text \<open>The key of the message that is \<open>n\<close> steps ahead, derived one by one.\<close>

definition nth_message_key :: "client_lib \<Rightarrow> dm_message_chain \<Rightarrow> nat \<Rightarrow> bytes" where
  "nth_message_key lib c n = the (fst (derive_next_message_key lib (chain_after lib n c)))"

definition hmac_total :: "client_lib \<Rightarrow> bool" where
  "hmac_total lib \<longleftrightarrow> (\<forall>k b. so_hmac_sha256 (cl_sodium lib) k b \<noteq> None)"

lemma derive_next_total:
  assumes "hmac_total lib"
  shows "\<exists>k. derive_next_message_key lib c = (Some k, (snd (derive_next_message_key lib c)))"
    and "mc_counter (snd (derive_next_message_key lib c)) = mc_counter c + 1"
proof -
  obtain a b where "so_hmac_sha256 (cl_sodium lib) (mc_chain_key c) (MESSAGE_KEY_INFO @ [1]) = Some a"
    "so_hmac_sha256 (cl_sodium lib) (mc_chain_key c) (CHAIN_KEY_INFO @ [2]) = Some b"
    using assms unfolding hmac_total_def by blast
  then show "\<exists>k. derive_next_message_key lib c = (Some k, (snd (derive_next_message_key lib c)))"
    "mc_counter (snd (derive_next_message_key lib c)) = mc_counter c + 1"
    by (simp_all add: derive_next_message_key_def expand_key_block_def compute_hmac_def)
qed

lemma chain_after_counter: "hmac_total lib \<Longrightarrow> mc_counter (chain_after lib n c) = mc_counter c + word_of_nat n"
  by (induction n arbitrary: c) (simp_all add: derive_next_total(2))

lemma derive_skipped_eq:
  assumes "hmac_total lib"
  shows "derive_skipped lib n skipped c = (True, skipped @ map (nth_message_key lib c) [0..<n], chain_after lib n c)"
proof (induction n arbitrary: skipped c)
  case (Suc n)
  obtain k where k: "derive_next_message_key lib c = (Some k, snd (derive_next_message_key lib c))"
    using derive_next_total(1) [OF assms] by blast
  let ?c = "snd (derive_next_message_key lib c)"
  have "map (nth_message_key lib c) [0..<Suc n] = nth_message_key lib c 0 # map (nth_message_key lib ?c) [0..<n]"
    by (simp add: upt_conv_Cons map_Suc_upt [symmetric] nth_message_key_def comp_def del: upt_Suc)
  moreover have "nth_message_key lib c 0 = k" by (simp add: nth_message_key_def, subst k, simp)
  moreover have "derive_skipped lib (Suc n) skipped c = derive_skipped lib n (skipped @ [k]) ?c"
    by (simp, subst k, simp)
  ultimately show ?case using Suc.IH [of "skipped @ [k]" ?c] by simp
qed simp

text \<open>
  Catching up is deriving one by one. For a counter that is not in the past and at most 1000 ahead,
  \<^verbatim>\<open>advance_to_counter\<close> leaves the chain exactly where the same number of single derivations would,
  with the counter asked for, and returns the keys of the messages skipped, in order: a message that
  arrives late opens with the key it would have had in order. Anything else is refused without a
  single derivation, so a forged counter costs nothing.
\<close>

theorem catch_up_equals_single_steps:
  assumes "hmac_total lib"
  shows "advance_to_counter lib target skipped c =
    (if unat (mc_counter c) \<le> unat target \<and> unat target - unat (mc_counter c) \<le> 1000
     then (True, skipped @ map (nth_message_key lib c) [0..<unat target - unat (mc_counter c)],
           chain_after lib (unat target - unat (mc_counter c)) c)
     else (False, skipped, c)) \<and>
    (unat (mc_counter c) \<le> unat target \<longrightarrow> mc_counter (chain_after lib (unat target - unat (mc_counter c)) c) = target)"
proof (cases "mc_counter c \<le> target")
  case True
  then have u: "unat (target - mc_counter c) = unat target - unat (mc_counter c)" by (simp add: unat_sub)
  have "MAX_SKIPPED_MESSAGE_KEYS < target - mc_counter c \<longleftrightarrow> 1000 < unat target - unat (mc_counter c)"
    by (simp add: word_less_nat_alt u MAX_SKIPPED_MESSAGE_KEYS_def)
  moreover have "mc_counter (chain_after lib (unat target - unat (mc_counter c)) c) = target"
    unfolding chain_after_counter [OF assms] u [symmetric] by simp
  ultimately show ?thesis
    using True u by (auto simp: advance_to_counter_def derive_skipped_eq [OF assms] word_le_nat_alt word_less_nat_alt Let_def)
next
  case False
  then show ?thesis by (auto simp: advance_to_counter_def word_le_nat_alt word_less_nat_alt)
qed

theorem catch_up_equals_single_steps_witness:
  "fst (advance_to_counter toy_client 3 [] (new_message_chain [1])) \<and>
   length (fst (snd (advance_to_counter toy_client 3 [] (new_message_chain [1])))) = 3 \<and>
   advance_to_counter toy_client 2000 [] (new_message_chain [1]) = (False, [], new_message_chain [1])"
proof -
  have "hmac_total toy_client" by (simp add: hmac_total_def toy_client_def toy_sodium_def)
  note p = catch_up_equals_single_steps [OF this, of _ "[]" "new_message_chain [1]"]
  from p [of 3] p [of 2000] show ?thesis by (simp add: new_message_chain_def)
qed

end
