(* ===== verification/Keystore.thy ===== *)
theory Keystore
  imports Recovery_Phrase Direct_Message
begin

text \<open>
  The client's secrets on disk (\<^verbatim>\<open>common/crypto/keystore_envelope.cpp\<close>, \<^verbatim>\<open>client/keystore\<close>): the sealed
  envelope, the files, the identity of a single server, the master seed and the identities derived from
  it. Random bytes (salts, nonces, entropy, generated keys) are arguments. The disk is a record of the
  regular files and of what the operating system does with the calls to come.
\<close>

section \<open>The sealed envelope (\<open>keystore_envelope.cpp\<close>)\<close>

definition KEYSTORE_MAGIC :: bytes where "KEYSTORE_MAGIC = ascii ''HYPCKEY1''"
definition KEYSTORE_MAGIC_SIZE :: nat where [simp]: "KEYSTORE_MAGIC_SIZE = 8"
definition KEYSTORE_VERSION :: u8 where [simp]: "KEYSTORE_VERSION = 1"

definition KEYSTORE_HEADER_SIZE :: nat where
  [simp]: "KEYSTORE_HEADER_SIZE = KEYSTORE_MAGIC_SIZE + 1 + 4 + 4 + ARGON2ID_SALT_SIZE + XCHACHA_NONCE_SIZE"

definition append_u32 :: "u32 \<Rightarrow> bytes \<Rightarrow> bytes" where
  "append_u32 v out = fold (\<lambda>index out. out @ [ucast (drop_bit (index * 8) v AND 0xFF)]) [0..<4] out"

definition read_u32 :: "bytes \<Rightarrow> nat \<Rightarrow> u32" where
  "read_u32 source offset = fold (\<lambda>index v. v OR push_bit (index * 8) (ucast (source ! (offset + index)))) [0..<4] 0"

definition derive_wrapping_key :: "client_lib \<Rightarrow> bytes \<Rightarrow> bytes \<Rightarrow> u32 \<Rightarrow> u32 \<Rightarrow> bytes option" where
  "derive_wrapping_key lib passphrase salt operations memory_kib =
     cl_pwhash lib passphrase salt (ucast operations) (unat memory_kib * 1024)"

definition keystore_header :: "u32 \<Rightarrow> u32 \<Rightarrow> bytes \<Rightarrow> bytes \<Rightarrow> bytes" where
  "keystore_header operations memory_kib salt nonce =
     append_u32 memory_kib (append_u32 operations (KEYSTORE_MAGIC @ [KEYSTORE_VERSION])) @ salt @ nonce"

definition seal_blob :: "client_lib \<Rightarrow> bytes \<Rightarrow> bytes \<Rightarrow> bytes \<Rightarrow> bytes \<Rightarrow> bytes option" where
  "seal_blob lib salt nonce passphrase plaintext =
     (let operations = word_of_nat (cl_opslimit_moderate lib);
          memory_kib = word_of_nat (cl_memlimit_moderate lib div 1024) in
      case derive_wrapping_key lib passphrase salt operations memory_kib of
        None \<Rightarrow> None
      | Some wrapping_key \<Rightarrow>
          (let header = keystore_header operations memory_kib salt nonce in
           case cl_xaead_encrypt lib wrapping_key nonce header plaintext of
             None \<Rightarrow> None | Some sealed \<Rightarrow> Some (header @ sealed)))"

definition open_blob :: "client_lib \<Rightarrow> bytes \<Rightarrow> bytes \<Rightarrow> bytes option" where
  "open_blob lib passphrase sealed =
     (if length sealed < KEYSTORE_HEADER_SIZE + AEAD_TAG_SIZE then None
      else if take KEYSTORE_MAGIC_SIZE sealed \<noteq> KEYSTORE_MAGIC then None
      else if sealed ! KEYSTORE_MAGIC_SIZE \<noteq> KEYSTORE_VERSION then None
      else
        let operations = read_u32 sealed (KEYSTORE_MAGIC_SIZE + 1);
            memory_kib = read_u32 sealed (KEYSTORE_MAGIC_SIZE + 5);
            salt = take ARGON2ID_SALT_SIZE (drop (KEYSTORE_MAGIC_SIZE + 9) sealed);
            nonce = take XCHACHA_NONCE_SIZE (drop (KEYSTORE_MAGIC_SIZE + 9 + ARGON2ID_SALT_SIZE) sealed) in
        case derive_wrapping_key lib passphrase salt operations memory_kib of
          None \<Rightarrow> None
        | Some wrapping_key \<Rightarrow>
            cl_xaead_decrypt lib wrapping_key nonce (take KEYSTORE_HEADER_SIZE sealed) (drop KEYSTORE_HEADER_SIZE sealed))"

definition ED25519_SECRET_KEY_SIZE :: nat where [simp]: "ED25519_SECRET_KEY_SIZE = 64"

definition seal_identity_secret :: "client_lib \<Rightarrow> bytes \<Rightarrow> bytes \<Rightarrow> bytes \<Rightarrow> bytes \<Rightarrow> bytes option" where
  "seal_identity_secret lib salt nonce passphrase secret = seal_blob lib salt nonce passphrase secret"

definition open_identity_secret :: "client_lib \<Rightarrow> bytes \<Rightarrow> bytes \<Rightarrow> bytes option" where
  "open_identity_secret lib passphrase sealed =
     (case open_blob lib passphrase sealed of
        None \<Rightarrow> None
      | Some plaintext \<Rightarrow> if length plaintext = ED25519_SECRET_KEY_SIZE then Some plaintext else None)"

section \<open>Files\<close>

text \<open>
  What \<^verbatim>\<open>::write\<close> answers, call by call; when the list is used up the rest is written at once. The
  stream of \<^verbatim>\<open>sealed_file.cpp\<close> issues the same calls.
\<close>

datatype write_outcome = Wrote nat | Interrupted | Write_failed

record disk =
  dk_files :: "bytes \<Rightarrow> bytes option"
  dk_open_fails :: "bytes \<Rightarrow> bool"
  dk_chmod_fails :: "bytes \<Rightarrow> bool"
  dk_read_fails :: "bytes \<Rightarrow> bool"
  dk_writes :: "write_outcome list"

fun write_all :: "write_outcome list \<Rightarrow> bytes \<Rightarrow> bytes \<Rightarrow> bool \<times> bytes \<times> write_outcome list" where
  "write_all outcomes written [] = (True, written, outcomes)"
| "write_all [] written rest = (True, written @ rest, [])"
| "write_all (Interrupted # outcomes) written rest = write_all outcomes written rest"
| "write_all (Write_failed # outcomes) written rest = (False, written, outcomes)"
| "write_all (Wrote n # outcomes) written rest = write_all outcomes (written @ take n rest) (drop n rest)"

datatype store_error =
    Identity_exists | Seed_exists | Empty_passphrase | Keypair_failed | Seal_failed
  | Cannot_write | Write_incomplete | Chmod_failed | Unreadable | Wrong_passphrase_or_altered
  | Rebuild_failed | Derivation_failed | Invalid_phrase | Too_many_servers | Malformed_registry

definition put_file :: "bytes \<Rightarrow> bytes \<Rightarrow> write_outcome list \<Rightarrow> disk \<Rightarrow> disk" where
  "put_file path content outcomes d = d\<lparr>dk_files := (dk_files d)(path \<mapsto> content), dk_writes := outcomes\<rparr>"

definition is_regular_file :: "bytes \<Rightarrow> disk \<Rightarrow> bool" where
  "is_regular_file path d \<longleftrightarrow> dk_files d path \<noteq> None"

text \<open>The writer of \<^verbatim>\<open>identity_store.cpp\<close> and the one of \<^verbatim>\<open>sealed_file.cpp\<close>, which the seed and the registry use.\<close>

definition write_identity_file :: "bytes \<Rightarrow> bytes \<Rightarrow> disk \<Rightarrow> (store_error + unit) \<times> disk" where
  "write_identity_file path sealed d =
     (if dk_open_fails d path then (Inl Cannot_write, d)
      else case write_all (dk_writes d) [] sealed of (success, content, outcomes) \<Rightarrow>
        (if success then Inr () else Inl Write_incomplete, put_file path content outcomes d))"

definition write_sealed_file :: "bytes \<Rightarrow> bytes \<Rightarrow> disk \<Rightarrow> (store_error + unit) \<times> disk" where
  "write_sealed_file path sealed d =
     (if dk_open_fails d path then (Inl Cannot_write, d)
      else case write_all (dk_writes d) [] sealed of (_, content, outcomes) \<Rightarrow>
        (if dk_chmod_fails d path then Inl Chmod_failed else Inr (), put_file path content outcomes d))"

definition read_sealed_file :: "bytes \<Rightarrow> disk \<Rightarrow> bytes option" where
  "read_sealed_file path d =
     (case dk_files d path of
        None \<Rightarrow> None
      | Some content \<Rightarrow> if content = [] \<or> dk_read_fails d path then None else Some content)"

definition read_whole_file :: "bytes \<Rightarrow> disk \<Rightarrow> bytes option" where
  "read_whole_file path d =
     (case dk_files d path of
        None \<Rightarrow> None
      | Some content \<Rightarrow> if content = [] \<or> dk_read_fails d path then None else Some content)"

section \<open>The identity of one server (\<open>identity_store.cpp\<close>)\<close>

text \<open>\<open>generated\<close> is what the key generation gives, \<open>None\<close> when it fails.\<close>

definition create_identity ::
  "client_lib \<Rightarrow> identity_keypair option \<Rightarrow> bytes \<Rightarrow> bytes \<Rightarrow> bytes \<Rightarrow> bytes \<Rightarrow> disk \<Rightarrow>
    (store_error + identity_keypair) \<times> disk" where
  "create_identity lib generated salt nonce path passphrase d =
     (if is_regular_file path d then (Inl Identity_exists, d)
      else if passphrase = [] then (Inl Empty_passphrase, d)
      else case generated of
        None \<Rightarrow> (Inl Keypair_failed, d)
      | Some keypair \<Rightarrow>
          (case seal_identity_secret lib salt nonce passphrase (ik_secret keypair) of
             None \<Rightarrow> (Inl Seal_failed, d)
           | Some sealed \<Rightarrow>
               (case write_identity_file path sealed d of
                  (Inl e, d') \<Rightarrow> (Inl e, d') | (Inr _, d') \<Rightarrow> (Inr keypair, d'))))"

definition unlock_identity :: "client_lib \<Rightarrow> bytes \<Rightarrow> bytes \<Rightarrow> disk \<Rightarrow> store_error + identity_keypair" where
  "unlock_identity lib path passphrase d =
     (case read_whole_file path d of
        None \<Rightarrow> Inl Unreadable
      | Some sealed \<Rightarrow>
          (case open_identity_secret lib passphrase sealed of
             None \<Rightarrow> Inl Wrong_passphrase_or_altered
           | Some secret \<Rightarrow>
               (case derive_from_seed lib (take ED25519_SEED_SIZE secret) of
                  None \<Rightarrow> Inl Rebuild_failed | Some keypair \<Rightarrow> Inr keypair)))"

section \<open>The master seed (\<open>master_seed_store.cpp\<close>)\<close>

definition seal_to_disk ::
  "client_lib \<Rightarrow> bytes \<Rightarrow> bytes \<Rightarrow> bytes \<Rightarrow> bytes \<Rightarrow> bytes \<Rightarrow> disk \<Rightarrow> (store_error + unit) \<times> disk" where
  "seal_to_disk lib salt nonce path passphrase seed d =
     (if is_regular_file path d then (Inl Seed_exists, d)
      else if passphrase = [] then (Inl Empty_passphrase, d)
      else case seal_blob lib salt nonce passphrase seed of
        None \<Rightarrow> (Inl Seal_failed, d)
      | Some sealed \<Rightarrow> write_sealed_file path sealed d)"

text \<open>The seed and the phrase that is shown once.\<close>

definition create_seed ::
  "client_lib \<Rightarrow> bytes \<Rightarrow> bytes \<Rightarrow> bytes \<Rightarrow> bytes \<Rightarrow> bytes \<Rightarrow> disk \<Rightarrow> (store_error + bytes \<times> bytes) \<times> disk" where
  "create_seed lib entropy salt nonce path passphrase d =
     (case derive_master_seed (cl_sodium lib) entropy of
        None \<Rightarrow> (Inl Derivation_failed, d)
      | Some seed \<Rightarrow>
          (case seal_to_disk lib salt nonce path passphrase seed d of
             (Inl e, d') \<Rightarrow> (Inl e, d')
           | (Inr _, d') \<Rightarrow> (Inr (seed, entropy_to_phrase (cl_sodium lib) entropy), d')))"

definition restore_seed ::
  "client_lib \<Rightarrow> bytes \<Rightarrow> bytes \<Rightarrow> bytes \<Rightarrow> bytes \<Rightarrow> bytes \<Rightarrow> disk \<Rightarrow> (store_error + bytes) \<times> disk" where
  "restore_seed lib salt nonce path passphrase phrase d =
     (case phrase_to_entropy (cl_sodium lib) phrase of
        None \<Rightarrow> (Inl Invalid_phrase, d)
      | Some entropy \<Rightarrow>
          (case derive_master_seed (cl_sodium lib) entropy of
             None \<Rightarrow> (Inl Derivation_failed, d)
           | Some seed \<Rightarrow>
               (case seal_to_disk lib salt nonce path passphrase seed d of
                  (Inl e, d') \<Rightarrow> (Inl e, d') | (Inr _, d') \<Rightarrow> (Inr seed, d'))))"

definition unlock_seed :: "client_lib \<Rightarrow> bytes \<Rightarrow> bytes \<Rightarrow> disk \<Rightarrow> store_error + bytes" where
  "unlock_seed lib path passphrase d =
     (case read_sealed_file path d of
        None \<Rightarrow> Inl Unreadable
      | Some sealed \<Rightarrow>
          (case open_blob lib passphrase sealed of
             None \<Rightarrow> Inl Wrong_passphrase_or_altered
           | Some plaintext \<Rightarrow>
               if length plaintext = ED25519_SEED_SIZE then Inr plaintext else Inl Wrong_passphrase_or_altered))"

section \<open>The identity on a server (\<open>server_identity.cpp\<close>)\<close>

definition IDENTITY_DERIVATION_SALT :: bytes where
  "IDENTITY_DERIVATION_SALT = ascii ''hypercom-server-identity-v1''"

definition derive_server_identity :: "client_lib \<Rightarrow> bytes \<Rightarrow> bytes \<Rightarrow> identity_keypair option" where
  "derive_server_identity lib master_seed server_key =
     (case extract_pseudo_random_key (cl_sodium lib) IDENTITY_DERIVATION_SALT master_seed of
        None \<Rightarrow> None
      | Some pseudo_random_key \<Rightarrow>
          (case expand_key_block (cl_sodium lib) pseudo_random_key server_key 1 of
             None \<Rightarrow> None
           | Some derived \<Rightarrow> derive_from_seed lib derived))"

section \<open>Integers in the header\<close>

lemma fold_append_map: "fold (\<lambda>i out. out @ [f i]) is out = out @ map f is"
  by (induction "is" arbitrary: out) auto

lemma append_u32_le_bytes: "append_u32 v out = out @ le_bytes v"
  by (simp add: append_u32_def fold_append_map le_bytes_def size_of_def)

lemma read_u32_load:
  assumes "offset + 4 \<le> length source"
  shows "load_little_endian (drop offset source) = Some (read_u32 source offset)"
  using assms by (simp add: load_little_endian_def read_u32_def size_of_def upt_rec)

lemma read_u32_le_bytes: "read_u32 (xs @ le_bytes v @ rest) (length xs) = v"
  using read_u32_load [of "length xs" "xs @ le_bytes v @ rest"] load_le_bytes [of v rest] by (simp add: size_of_def)

lemma le_bytes_read_u32:
  assumes "offset + 4 \<le> length source"
  shows "drop offset source = le_bytes (read_u32 source offset) @ drop (offset + 4) source"
proof -
  have "8 dvd LENGTH(32)" by simp
  then show ?thesis using load_little_endian_Some [OF _ read_u32_load [OF assms]] by (simp add: size_of_def add.commute)
qed

section \<open>Envelopes\<close>

lemma keystore_header_eq:
  "keystore_header operations memory_kib salt nonce =
     KEYSTORE_MAGIC @ [KEYSTORE_VERSION] @ le_bytes operations @ le_bytes memory_kib @ salt @ nonce"
  by (simp add: keystore_header_def append_u32_le_bytes)

lemma length_KEYSTORE_MAGIC [simp]: "length KEYSTORE_MAGIC = 8"
  by (simp add: KEYSTORE_MAGIC_def)

lemma length_keystore_header:
  "length salt = 16 \<Longrightarrow> length nonce = 24 \<Longrightarrow> length (keystore_header operations memory_kib salt nonce) = 57"
  by (simp add: keystore_header_eq size_of_def)

lemma header_fields:
  assumes "length salt = 16" and "length nonce = 24"
    and f: "f = KEYSTORE_MAGIC @ [KEYSTORE_VERSION] @ le_bytes operations @ le_bytes memory_kib @ salt @ nonce @ body"
  shows "take 8 f = KEYSTORE_MAGIC" and "f ! 8 = 1" and "read_u32 f 9 = operations" and "read_u32 f 13 = memory_kib"
    and "take 16 (drop 17 f) = salt" and "take 24 (drop 33 f) = nonce"
    and "take 57 f = keystore_header operations memory_kib salt nonce" and "drop 57 f = body"
proof -
  show "take 8 f = KEYSTORE_MAGIC" "f ! 8 = 1" by (simp_all add: f nth_append)
  show "read_u32 f 9 = operations"
    using read_u32_le_bytes [of "KEYSTORE_MAGIC @ [KEYSTORE_VERSION]"] by (simp add: f)
  show "read_u32 f 13 = memory_kib"
    using read_u32_le_bytes [of "KEYSTORE_MAGIC @ [KEYSTORE_VERSION] @ le_bytes operations"] by (simp add: f size_of_def)
  show "take 16 (drop 17 f) = salt" "take 24 (drop 33 f) = nonce" "drop 57 f = body"
    using assms(1,2) by (simp_all add: f size_of_def)
  show "take 57 f = keystore_header operations memory_kib salt nonce"
    using assms(1,2) by (simp add: f size_of_def keystore_header_eq)
qed

lemma header_parses:
  assumes "57 \<le> length f" and "take 8 f = KEYSTORE_MAGIC" and "f ! 8 = 1"
  shows "f = KEYSTORE_MAGIC @ [KEYSTORE_VERSION] @ le_bytes (read_u32 f 9) @ le_bytes (read_u32 f 13) @
    take 16 (drop 17 f) @ take 24 (drop 33 f) @ drop 57 f"
proof -
  have "f = take 8 f @ f ! 8 # drop 9 f" using id_take_nth_drop [of 8 f] assms(1) by simp
  moreover have "drop 9 f = le_bytes (read_u32 f 9) @ drop 13 f" using le_bytes_read_u32 [of 9 f] assms(1) by simp
  moreover have "drop 13 f = le_bytes (read_u32 f 13) @ drop 17 f" using le_bytes_read_u32 [of 13 f] assms(1) by simp
  moreover have "drop 17 f = take 16 (drop 17 f) @ drop 33 f" using append_take_drop_id [of 16 "drop 17 f"] by simp
  moreover have "drop 33 f = take 24 (drop 33 f) @ drop 57 f" using append_take_drop_id [of 24 "drop 33 f"] by simp
  ultimately show ?thesis using assms(2,3) by simp
qed

lemma open_blob_header:
  assumes "length salt = 16" and "length nonce = 24" and "16 \<le> length body"
  shows "open_blob lib passphrase (keystore_header operations memory_kib salt nonce @ body) =
    (case derive_wrapping_key lib passphrase salt operations memory_kib of
       None \<Rightarrow> None
     | Some key \<Rightarrow> cl_xaead_decrypt lib key nonce (keystore_header operations memory_kib salt nonce) body)"
proof -
  define f where "f = keystore_header operations memory_kib salt nonce @ body"
  then have F: "f = KEYSTORE_MAGIC @ [KEYSTORE_VERSION] @ le_bytes operations @ le_bytes memory_kib @ salt @ nonce @ body"
    by (simp add: keystore_header_eq)
  have "73 \<le> length f" using length_keystore_header [OF assms(1,2)] assms(3) by (simp add: f_def)
  then show ?thesis unfolding f_def [symmetric] open_blob_def using header_fields [OF assms(1,2) F]
    by (cases "derive_wrapping_key lib passphrase salt operations memory_kib") (simp_all add: Let_def)
qed

lemma open_blob_Some:
  assumes "open_blob lib passphrase f = Some p"
  obtains operations memory_kib salt nonce body key where
    "f = keystore_header operations memory_kib salt nonce @ body" "length salt = 16" "length nonce = 24"
    "derive_wrapping_key lib passphrase salt operations memory_kib = Some key"
    "cl_xaead_decrypt lib key nonce (keystore_header operations memory_kib salt nonce) body = Some p"
proof -
  have f: "73 \<le> length f" "take 8 f = KEYSTORE_MAGIC" "f ! 8 = 1"
    using assms by (auto simp: open_blob_def split: if_splits)
  define salt nonce body where d: "salt = take 16 (drop 17 f)" "nonce = take 24 (drop 33 f)" "body = drop 57 f"
  have eq: "f = keystore_header (read_u32 f 9) (read_u32 f 13) salt nonce @ body"
    using header_parses [of f] f by (simp add: keystore_header_eq d)
  have l: "length salt = 16" "length nonce = 24" "16 \<le> length body" using f(1) by (simp_all add: d)
  have "open_blob lib passphrase f =
    (case derive_wrapping_key lib passphrase salt (read_u32 f 9) (read_u32 f 13) of
       None \<Rightarrow> None
     | Some key \<Rightarrow> cl_xaead_decrypt lib key nonce (keystore_header (read_u32 f 9) (read_u32 f 13) salt nonce) body)"
    using open_blob_header [OF l] eq by metis
  then show thesis using assms that [OF eq l(1,2)] by (auto split: option.splits)
qed

lemma xaead_encrypted:
  assumes "xaead_correct lib" and "cl_xaead_encrypt lib k n ad p = Some c"
  shows "cl_xaead_decrypt lib k n ad c = Some p" and "length c = length p + 16"
  using assms by (auto simp: xaead_correct_def)

lemma open_sealed:
  assumes "xaead_correct lib" and "length salt = 16" and "length nonce = 24"
    and "derive_wrapping_key lib passphrase salt operations memory_kib = Some key"
    and "cl_xaead_encrypt lib key nonce (keystore_header operations memory_kib salt nonce) p = Some body"
  shows "open_blob lib passphrase (keystore_header operations memory_kib salt nonce @ body) = Some p"
  using open_blob_header [OF assms(2,3)] xaead_encrypted [OF assms(1,5)] assms(4) by simp

lemma seal_blob_Some:
  assumes "seal_blob lib salt nonce passphrase p = Some sealed"
  obtains operations memory_kib key body where
    "sealed = keystore_header operations memory_kib salt nonce @ body"
    "derive_wrapping_key lib passphrase salt operations memory_kib = Some key"
    "cl_xaead_encrypt lib key nonce (keystore_header operations memory_kib salt nonce) p = Some body"
  using assms by (auto simp: seal_blob_def Let_def split: option.splits)

lemma open_seal_blob:
  assumes "xaead_correct lib" and "length salt = 16" and "length nonce = 24"
    and "seal_blob lib salt nonce passphrase p = Some sealed"
  shows "open_blob lib passphrase sealed = Some p" and "sealed \<noteq> []"
proof -
  obtain operations memory_kib key body where
    s: "sealed = keystore_header operations memory_kib salt nonce @ body"
      "derive_wrapping_key lib passphrase salt operations memory_kib = Some key"
      "cl_xaead_encrypt lib key nonce (keystore_header operations memory_kib salt nonce) p = Some body"
    using assms(4) by (rule seal_blob_Some)
  then show "open_blob lib passphrase sealed = Some p" using open_sealed [OF assms(1-3)] by simp
  have "length sealed \<ge> 57" using s(1) length_keystore_header [OF assms(2,3)] by simp
  then show "sealed \<noteq> []" by auto
qed

text \<open>
  The keystore envelope opens exactly for what was sealed: under a passphrase a file gives a
  plaintext if and only if it is the header, with any Argon2id cost, followed by the encryption of that
  plaintext under the key that the passphrase, the salt and the cost of this header derive, with the
  whole header as associated data.
\<close>

theorem keystore_opens_iff_sealed:
  assumes "xaead_correct lib"
  shows "open_blob lib passphrase sealed = Some plaintext \<longleftrightarrow>
    (\<exists>operations memory_kib salt nonce key body.
       length salt = ARGON2ID_SALT_SIZE \<and> length nonce = XCHACHA_NONCE_SIZE \<and>
       sealed = keystore_header operations memory_kib salt nonce @ body \<and>
       derive_wrapping_key lib passphrase salt operations memory_kib = Some key \<and>
       cl_xaead_encrypt lib key nonce (keystore_header operations memory_kib salt nonce) plaintext = Some body)"
    (is "?l = ?r")
proof
  assume ?l
  then obtain operations memory_kib salt nonce body key where
    "sealed = keystore_header operations memory_kib salt nonce @ body" "length salt = 16" "length nonce = 24"
    "derive_wrapping_key lib passphrase salt operations memory_kib = Some key"
    "cl_xaead_decrypt lib key nonce (keystore_header operations memory_kib salt nonce) body = Some plaintext"
    by (rule open_blob_Some)
  moreover from this(5) have "cl_xaead_encrypt lib key nonce (keystore_header operations memory_kib salt nonce) plaintext = Some body"
    using assms by (simp add: xaead_correct_def)
  ultimately show ?r unfolding ARGON2ID_SALT_SIZE_def XCHACHA_NONCE_SIZE_def by blast
next
  assume ?r
  then show ?l using open_sealed [OF assms] by auto
qed

theorem keystore_opens_iff_sealed_witness:
  "\<exists>sealed. seal_blob toy_client (replicate 16 5) (replicate 24 6) (ascii ''mot'') (replicate 32 9) = Some sealed \<and>
     open_blob toy_client (ascii ''mot'') sealed = Some (replicate 32 9)"
proof -
  obtain sealed where s: "seal_blob toy_client (replicate 16 5) (replicate 24 6) (ascii ''mot'') (replicate 32 9) = Some sealed"
    by (simp add: seal_blob_def derive_wrapping_key_def toy_client_def Let_def)
  have "open_blob toy_client (ascii ''mot'') sealed = Some (replicate 32 9)"
    unfolding keystore_opens_iff_sealed [OF toy_client_ok(1)]
    by (rule seal_blob_Some [OF s]) (metis length_replicate ARGON2ID_SALT_SIZE_def XCHACHA_NONCE_SIZE_def)
  then show ?thesis using s by blast
qed

section \<open>Files that are written whole\<close>

text \<open>A disk on which the next write goes through and the file can be read back.\<close>

definition disk_works :: "bytes \<Rightarrow> disk \<Rightarrow> bool" where
  "disk_works path d \<longleftrightarrow> dk_files d path = None \<and> dk_writes d = [] \<and> \<not> dk_open_fails d path \<and>
     \<not> dk_chmod_fails d path \<and> \<not> dk_read_fails d path"

lemma write_all_no_faults [simp]: "write_all [] written rest = (True, written @ rest, [])"
  by (cases rest) simp_all

lemma write_all_success: "write_all os written rest = (True, content, os') \<Longrightarrow> content = written @ rest"
  by (induction os written rest rule: write_all.induct) auto

lemma dk_files_put [simp]: "dk_files (put_file path content os d) = (dk_files d)(path \<mapsto> content)"
  "dk_read_fails (put_file path content os d) = dk_read_fails d"
  by (simp_all add: put_file_def)

lemma seal_to_disk_cases:
  "snd (seal_to_disk lib salt nonce path passphrase seed d) = d \<or>
   dk_files d path = None \<and> (\<exists>content os. snd (seal_to_disk lib salt nonce path passphrase seed d) = put_file path content os d)"
  by (auto simp: seal_to_disk_def write_sealed_file_def is_regular_file_def split: option.splits prod.splits)

lemma seal_to_disk_Inr:
  assumes "seal_to_disk lib salt nonce path passphrase seed d = (Inr (), d')" and "dk_writes d = []"
  shows "\<exists>sealed. seal_blob lib salt nonce passphrase seed = Some sealed \<and> d' = put_file path sealed [] d"
  using assms by (auto simp: seal_to_disk_def write_sealed_file_def split: if_splits option.splits)

lemma unlock_sealed_seed:
  assumes "xaead_correct lib" and "length salt = 16" and "length nonce = 24" and "length seed = 32"
    and "seal_to_disk lib salt nonce path passphrase seed d = (Inr (), d')"
    and "dk_writes d = []" and "\<not> dk_read_fails d path"
  shows "unlock_seed lib path passphrase d' = Inr seed"
proof -
  obtain sealed where s: "seal_blob lib salt nonce passphrase seed = Some sealed" "d' = put_file path sealed [] d"
    using seal_to_disk_Inr [OF assms(5,6)] by blast
  show ?thesis using open_seal_blob [OF assms(1-3) s(1)] assms(4,7) by (simp add: unlock_seed_def read_sealed_file_def s(2))
qed

lemma seal_to_disk_works:
  assumes "disk_works path d" and "passphrase \<noteq> []" and "seal_blob lib salt nonce passphrase seed \<noteq> None"
  shows "\<exists>d'. seal_to_disk lib salt nonce path passphrase seed d = (Inr (), d')"
  using assms by (auto simp: disk_works_def seal_to_disk_def is_regular_file_def write_sealed_file_def)

text \<open>HMAC-SHA256 gives 32 bytes.\<close>

definition hmac_sized :: "sodium \<Rightarrow> bool" where
  "hmac_sized lib \<longleftrightarrow> (\<forall>k m t. so_hmac_sha256 lib k m = Some t \<longrightarrow> length t = SYMMETRIC_KEY_SIZE)"

lemma derive_master_seed_length: "hmac_sized lib \<Longrightarrow> derive_master_seed lib e = Some seed \<Longrightarrow> length seed = 32"
  by (auto simp: hmac_sized_def derive_master_seed_def expand_key_block_def compute_hmac_def split: option.splits)

text \<open>
  C29: the twelve words are enough to get everything back. When \<^verbatim>\<open>create_seed\<close> has succeeded and its file
  was written whole, the passphrase unlocks the very seed it returned; and on any other machine whose
  disk works, under any other passphrase that can be sealed with, \<^verbatim>\<open>restore_seed\<close> with the shown phrase
  succeeds with that same seed, and the new passphrase unlocks it there.
\<close>

theorem seed_survives:
  assumes "xaead_correct lib" and "hmac_sized (cl_sodium lib)"
    and "length entropy = RECOVERY_ENTROPY_SIZE"
    and "length salt = ARGON2ID_SALT_SIZE" and "length nonce = XCHACHA_NONCE_SIZE"
    and "length salt2 = ARGON2ID_SALT_SIZE" and "length nonce2 = XCHACHA_NONCE_SIZE"
    and "create_seed lib entropy salt nonce path passphrase d = (Inr (seed, phrase), d')"
    and "dk_writes d = []" and "\<not> dk_read_fails d path"
    and "disk_works path2 d2" and "passphrase2 \<noteq> []" and "seal_blob lib salt2 nonce2 passphrase2 seed \<noteq> None"
  shows "unlock_seed lib path passphrase d' = Inr seed \<and>
    (\<exists>d2'. restore_seed lib salt2 nonce2 path2 passphrase2 phrase d2 = (Inr seed, d2') \<and>
       unlock_seed lib path2 passphrase2 d2' = Inr seed)"
proof -
  have c: "derive_master_seed (cl_sodium lib) entropy = Some seed" "phrase = entropy_to_phrase (cl_sodium lib) entropy"
    "seal_to_disk lib salt nonce path passphrase seed d = (Inr (), d')"
    using assms(8) by (auto simp: create_seed_def split: option.splits prod.splits sum.splits)
  have l: "length seed = 32" by (rule derive_master_seed_length [OF assms(2) c(1)])
  obtain d2' where r: "seal_to_disk lib salt2 nonce2 path2 passphrase2 seed d2 = (Inr (), d2')"
    using seal_to_disk_works [OF assms(11-13)] by blast
  have "restore_seed lib salt2 nonce2 path2 passphrase2 phrase d2 = (Inr seed, d2')"
    using phrase_to_entropy_to_phrase [of entropy "cl_sodium lib"] assms(3) c r by (simp add: restore_seed_def)
  moreover have "unlock_seed lib path2 passphrase2 d2' = Inr seed"
    using unlock_sealed_seed [OF assms(1) _ _ l r] assms(6,7,11) by (simp add: disk_works_def)
  moreover have "unlock_seed lib path passphrase d' = Inr seed"
    using unlock_sealed_seed [OF assms(1) _ _ l c(3) assms(9,10)] assms(4,5) by simp
  ultimately show ?thesis by blast
qed

definition empty_disk :: disk where
  "empty_disk = \<lparr>dk_files = Map.empty, dk_open_fails = (\<lambda>_. False), dk_chmod_fails = (\<lambda>_. False),
     dk_read_fails = (\<lambda>_. False), dk_writes = []\<rparr>"

lemma toy_seal: "seal_blob toy_client salt nonce passphrase p \<noteq> None"
  by (simp add: seal_blob_def derive_wrapping_key_def toy_client_def Let_def)

lemma toy_hmac_sized: "hmac_sized (cl_sodium toy_client)"
  by (auto simp: hmac_sized_def toy_client_def toy_sodium_def)

lemma toy_create_seed:
  assumes "disk_works path d"
  shows "\<exists>seed phrase d'. create_seed toy_client entropy salt nonce path (ascii ''mot'') d = (Inr (seed, phrase), d')"
proof -
  obtain seed where s: "derive_master_seed (cl_sodium toy_client) entropy = Some seed"
    by (simp add: derive_master_seed_def extract_pseudo_random_key_def expand_key_block_def compute_hmac_def
        toy_client_def toy_sodium_def RECOVERY_SALT_def)
  obtain d' where "seal_to_disk toy_client salt nonce path (ascii ''mot'') seed d = (Inr (), d')"
    using seal_to_disk_works [OF assms _ toy_seal, of "ascii ''mot''" salt nonce seed] by (auto simp: ascii_def)
  then show ?thesis using s by (simp add: create_seed_def)
qed

lemma empty_disk_works: "disk_works path empty_disk"
  by (simp add: disk_works_def empty_disk_def)

theorem seed_survives_witness:
  "\<exists>seed phrase d' d2'.
     create_seed toy_client (replicate 16 3) (replicate 16 5) (replicate 24 6) (ascii ''a'') (ascii ''mot'') empty_disk =
       (Inr (seed, phrase), d') \<and>
     restore_seed toy_client (replicate 16 7) (replicate 24 8) (ascii ''b'') (ascii ''clef'') phrase empty_disk = (Inr seed, d2') \<and>
     unlock_seed toy_client (ascii ''b'') (ascii ''clef'') d2' = Inr seed"
proof -
  obtain seed phrase d' where c: "create_seed toy_client (replicate 16 3) (replicate 16 5) (replicate 24 6)
      (ascii ''a'') (ascii ''mot'') empty_disk = (Inr (seed, phrase), d')" using toy_create_seed [OF empty_disk_works] by blast
  have "disk_works (ascii ''b'') empty_disk" by (simp add: disk_works_def empty_disk_def)
  then have "\<exists>d2'. restore_seed toy_client (replicate 16 7) (replicate 24 8) (ascii ''b'') (ascii ''clef'') phrase empty_disk = (Inr seed, d2') \<and>
     unlock_seed toy_client (ascii ''b'') (ascii ''clef'') d2' = Inr seed"
    using seed_survives [OF toy_client_ok(1) toy_hmac_sized _ _ _ _ _ c, of "replicate 16 7" "replicate 24 8"
        "ascii ''b''" empty_disk "ascii ''clef''"] toy_seal by (simp add: empty_disk_def ascii_def)
  then show ?thesis using c by blast
qed

text \<open>
  No secret on disk is ever overwritten. Whatever the outcome, creating or restoring a seed and
  creating an identity leave every file that exists as it is, the target included, and fail when the
  target exists.
\<close>

lemma secrets_never_overwritten:
  assumes "dk_files d q = Some content"
  shows "dk_files (snd (create_seed lib entropy salt nonce path passphrase d)) q = Some content \<and>
    dk_files (snd (restore_seed lib salt nonce path passphrase phrase d)) q = Some content \<and>
    dk_files (snd (create_identity lib generated salt nonce path passphrase d)) q = Some content \<and>
    (q = path \<longrightarrow>
       (\<exists>e. create_seed lib entropy salt nonce path passphrase d = (Inl e, d)) \<and>
       (\<exists>e. restore_seed lib salt nonce path passphrase phrase d = (Inl e, d)) \<and>
       create_identity lib generated salt nonce path passphrase d = (Inl Identity_exists, d))"
proof -
  have s: "dk_files (snd (seal_to_disk lib salt nonce path passphrase seed d)) q = Some content" for seed
    using seal_to_disk_cases [of lib salt nonce path passphrase seed d] assms by auto
  have f: "seal_to_disk lib salt nonce path passphrase seed d = (Inl Seed_exists, d)" if "q = path" for seed
    using assms that by (simp add: seal_to_disk_def is_regular_file_def)
  have "dk_files (snd (create_seed lib entropy salt nonce path passphrase d)) q = Some content"
    using s assms by (auto simp: create_seed_def split: option.splits prod.splits sum.splits) (metis snd_conv)+
  moreover have "dk_files (snd (restore_seed lib salt nonce path passphrase phrase d)) q = Some content"
    using s assms by (auto simp: restore_seed_def split: option.splits prod.splits sum.splits) (metis snd_conv)+
  moreover have "dk_files (snd (create_identity lib generated salt nonce path passphrase d)) q = Some content"
    using assms by (auto simp: create_identity_def write_identity_file_def is_regular_file_def
        split: option.splits prod.splits sum.splits)
  moreover have "(\<exists>e. create_seed lib entropy salt nonce path passphrase d = (Inl e, d)) \<and>
       (\<exists>e. restore_seed lib salt nonce path passphrase phrase d = (Inl e, d)) \<and>
       create_identity lib generated salt nonce path passphrase d = (Inl Identity_exists, d)" if "q = path"
    using f [OF that] assms that
    by (auto simp: create_seed_def restore_seed_def create_identity_def is_regular_file_def split: option.splits)
  ultimately show ?thesis by blast
qed

text \<open>
  The secret key of libsodium starts with the seed of the pair: what a generated pair is documented to
  be.
\<close>

definition generated_ok :: "client_lib \<Rightarrow> identity_keypair \<Rightarrow> bool" where
  "generated_ok lib keypair \<longleftrightarrow> length (ik_secret keypair) = ED25519_SECRET_KEY_SIZE \<and>
     derive_from_seed lib (take ED25519_SEED_SIZE (ik_secret keypair)) = Some keypair"

text \<open>
  An identity that \<^verbatim>\<open>create_identity\<close> reports as created is unlocked by its passphrase, whatever
  short or interrupted writes the file system answered with on the way: success is only reported when
  the whole envelope is in the file.
\<close>

theorem created_identity_unlocks:
  assumes "xaead_correct lib" and "generated_ok lib keypair"
    and "length salt = ARGON2ID_SALT_SIZE" and "length nonce = XCHACHA_NONCE_SIZE"
    and "create_identity lib (Some keypair) salt nonce path passphrase d = (Inr created, d')"
    and "\<not> dk_read_fails d path"
  shows "unlock_identity lib path passphrase d' = Inr created"
proof -
  obtain sealed content os where s: "created = keypair" "seal_blob lib salt nonce passphrase (ik_secret keypair) = Some sealed"
    "write_all (dk_writes d) [] sealed = (True, content, os)" "d' = put_file path content os d"
    using assms(5) by (auto simp: create_identity_def seal_identity_secret_def write_identity_file_def
        split: if_splits option.splits prod.splits sum.splits)
  have "content = sealed" using write_all_success [OF s(3)] by simp
  then show ?thesis
    using open_seal_blob [OF assms(1) _ _ s(2)] assms(2,3,4,6) s(1)
    by (simp add: unlock_identity_def read_whole_file_def s(4) open_identity_secret_def generated_ok_def)
qed

lemma toy_generated_ok: "length seed = 32 \<Longrightarrow> generated_ok toy_client \<lparr>ik_public = seed, ik_secret = seed @ seed\<rparr>"
  by (simp add: generated_ok_def derive_from_seed_def toy_client_def)

theorem created_identity_unlocks_witness:
  "\<exists>d'. create_identity toy_client (Some \<lparr>ik_public = replicate 32 4, ik_secret = replicate 32 4 @ replicate 32 4\<rparr>)
      (replicate 16 5) (replicate 24 6) [1] [2] (empty_disk\<lparr>dk_writes := [Interrupted, Wrote 10]\<rparr>) =
        (Inr \<lparr>ik_public = replicate 32 4, ik_secret = replicate 32 4 @ replicate 32 4\<rparr>, d') \<and>
     unlock_identity toy_client [1] [2] d' = Inr \<lparr>ik_public = replicate 32 4, ik_secret = replicate 32 4 @ replicate 32 4\<rparr>"
proof -
  let ?k = "\<lparr>ik_public = replicate 32 4, ik_secret = replicate 32 4 @ replicate 32 4 :: bytes\<rparr>"
  let ?d = "empty_disk\<lparr>dk_writes := [Interrupted, Wrote 10]\<rparr>"
  obtain sealed where s: "seal_identity_secret toy_client (replicate 16 5) (replicate 24 6) [2] (ik_secret ?k) = Some sealed"
    using toy_seal unfolding seal_identity_secret_def by blast
  have w: "\<exists>content os. write_all [Interrupted, Wrote 10] [] f = (True, content, os)" for f
    by (cases f; cases "drop 10 f") auto
  obtain content os where "write_all [Interrupted, Wrote 10] [] sealed = (True, content, os)" using w by blast
  then obtain d' where c: "create_identity toy_client (Some ?k) (replicate 16 5) (replicate 24 6) [1] [2] ?d = (Inr ?k, d')"
    using s by (simp add: create_identity_def write_identity_file_def is_regular_file_def empty_disk_def)
  have "\<not> dk_read_fails ?d [1]" by (simp add: empty_disk_def)
  then have "unlock_identity toy_client [1] [2] d' = Inr ?k"
    using created_identity_unlocks [OF toy_client_ok(1) toy_generated_ok _ _ c] by simp
  then show ?thesis using c by blast
qed

text \<open>
  The writer of \<^verbatim>\<open>sealed_file.cpp\<close> does not look at the result of the write: on a full disk the seed is
  reported as created, its phrase is shown, and the file left behind can never be unlocked.
\<close>

theorem seed_lost_on_full_disk:
  assumes "disk_works path d" and "passphrase \<noteq> []" and "derive_master_seed (cl_sodium lib) entropy = Some seed"
    and "seal_blob lib salt nonce passphrase seed = Some (b # bs)"
  shows "\<exists>d'. create_seed lib entropy salt nonce path passphrase (d\<lparr>dk_writes := [Write_failed]\<rparr>) =
      (Inr (seed, entropy_to_phrase (cl_sodium lib) entropy), d') \<and> unlock_seed lib path passphrase d' = Inl Unreadable"
  using assms by (simp add: create_seed_def seal_to_disk_def is_regular_file_def disk_works_def write_sealed_file_def
      unlock_seed_def read_sealed_file_def)

end
