(* ===== verification/Server_List.thy ===== *)
theory Server_List
  imports Keystore Config
begin

text \<open>
  How a client knows its servers (\<^verbatim>\<open>client/cli/invite_link.cpp\<close>, \<^verbatim>\<open>client/keystore/server_registry.cpp\<close>): the
  invitation line with the key to pin, and the sealed list of the servers joined.
\<close>

section \<open>Invitations (\<open>invite_link.cpp\<close>)\<close>

record invite_link =
  iv_host :: bytes
  iv_port :: u16
  iv_server_key_hex :: bytes

datatype invite_error = Bad_prefix | Missing_key | Bad_key | Bad_port | Missing_host

definition LINK_PREFIX :: bytes where "LINK_PREFIX = ascii ''hypercom://''"
definition SERVER_KEY_HEX_LENGTH :: nat where [simp]: "SERVER_KEY_HEX_LENGTH = 64"

definition hash_sign :: u8 where "hash_sign = 35"
definition colon :: u8 where "colon = 58"

definition parse_port :: "bytes \<Rightarrow> u16 option" where
  "parse_port s =
     (case from_chars_u32 s of
        None \<Rightarrow> None
      | Some (v, rest) \<Rightarrow> if rest \<noteq> [] \<or> v = 0 \<or> v > 65535 then None else Some (ucast v))"

definition is_hex_key :: "bytes \<Rightarrow> bool" where
  "is_hex_key s \<longleftrightarrow> length s = SERVER_KEY_HEX_LENGTH \<and>
     list_all (\<lambda>c. (48 \<le> c \<and> c \<le> 57) \<or> (97 \<le> c \<and> c \<le> 102) \<or> (65 \<le> c \<and> c \<le> 70)) s"

text \<open>The text before and after the last occurrence of a byte (\<^verbatim>\<open>rfind\<close>).\<close>

definition split_last :: "u8 \<Rightarrow> bytes \<Rightarrow> (bytes \<times> bytes) option" where
  "split_last b s =
     (if b \<in> set s
      then Some (rev (tl (dropWhile (\<lambda>c. c \<noteq> b) (rev s))), rev (takeWhile (\<lambda>c. c \<noteq> b) (rev s)))
      else None)"

definition parse_invite_link :: "bytes \<Rightarrow> invite_error + invite_link" where
  "parse_invite_link line =
     (if take (length LINK_PREFIX) line \<noteq> LINK_PREFIX then Inl Bad_prefix
      else
        let body = drop (length LINK_PREFIX) line in
        if hash_sign \<notin> set body then Inl Missing_key
        else
          let key = tl (dropWhile (\<lambda>c. c \<noteq> hash_sign) body) in
          if \<not> is_hex_key key then Inl Bad_key
          else
            (case split_last colon (takeWhile (\<lambda>c. c \<noteq> hash_sign) body) of
               None \<Rightarrow> Inl Bad_port
             | Some (host, port_text) \<Rightarrow>
                 (case parse_port port_text of
                    None \<Rightarrow> Inl Bad_port
                  | Some port \<Rightarrow>
                      if host = [] then Inl Missing_host
                      else Inr \<lparr>iv_host = host, iv_port = port, iv_server_key_hex = key\<rparr>)))"

definition format_invite_link :: "bytes \<Rightarrow> u16 \<Rightarrow> bytes \<Rightarrow> bytes" where
  "format_invite_link host port server_key_hex =
     LINK_PREFIX @ host @ [colon] @ decimal_text (unat port) @ [hash_sign] @ server_key_hex"

section \<open>The registry of servers (\<open>server_registry.cpp\<close>)\<close>

record server_endpoint =
  ep_host :: bytes
  ep_port :: u16
  ep_socks5_host :: bytes
  ep_socks5_port :: u16

datatype identity_source = Derived | Imported

fun identity_source_value :: "identity_source \<Rightarrow> u8" where
  "identity_source_value Derived = 0"
| "identity_source_value Imported = 1"

record server_entry =
  se_label :: bytes
  se_endpoint :: server_endpoint
  se_server_key :: bytes
  se_source :: identity_source
  se_imported_identity_path :: bytes
  se_trust_acknowledged :: bool

definition REGISTRY_VERSION :: u8 where "REGISTRY_VERSION = 1"
definition MAX_LABEL_LENGTH :: nat where [simp]: "MAX_LABEL_LENGTH = 48"
definition MAX_HOST_LENGTH :: nat where [simp]: "MAX_HOST_LENGTH = 256"
definition MAX_PATH_LENGTH :: nat where [simp]: "MAX_PATH_LENGTH = 512"
definition MAX_SERVERS :: u16 where "MAX_SERVERS = 64"

definition registry_write_entry :: "server_entry \<Rightarrow> byte_writer \<Rightarrow> byte_writer" where
  "registry_write_entry e = write_seq
     [write_text_field (se_label e),
      write_text_field (ep_host (se_endpoint e)),
      write_integer (ep_port (se_endpoint e)),
      write_text_field (ep_socks5_host (se_endpoint e)),
      write_integer (ep_socks5_port (se_endpoint e)),
      write_fixed_bytes (se_server_key e),
      write_integer (identity_source_value (se_source e)),
      write_text_field (se_imported_identity_path e),
      write_integer (if se_trust_acknowledged e then 1 else 0 :: u8)]"

definition registry_read_entry :: "server_entry reader" where
  "registry_read_entry =
     rd_bind (read_text_field MAX_LABEL_LENGTH) (\<lambda>label.
     rd_bind (read_text_field MAX_HOST_LENGTH) (\<lambda>host.
     rd_bind read_integer (\<lambda>port.
     rd_bind (read_text_field MAX_HOST_LENGTH) (\<lambda>socks5_host.
     rd_bind read_integer (\<lambda>socks5_port.
     rd_bind (read_fixed_bytes X25519_PUBLIC_KEY_SIZE) (\<lambda>server_key.
     rd_bind read_integer (\<lambda>raw_source :: u8.
     rd_bind (read_text_field MAX_PATH_LENGTH) (\<lambda>imported_identity_path.
     rd_bind read_integer (\<lambda>raw_acknowledged :: u8.
     if raw_source > identity_source_value Imported then rd_fail
     else rd_return \<lparr>se_label = label,
       se_endpoint = \<lparr>ep_host = host, ep_port = port, ep_socks5_host = socks5_host, ep_socks5_port = socks5_port\<rparr>,
       se_server_key = server_key, se_source = (if raw_source = 0 then Derived else Imported),
       se_imported_identity_path = imported_identity_path, se_trust_acknowledged = (raw_acknowledged \<noteq> 0)\<rparr>)))))))))"

definition registry_reader :: "server_entry list reader" where
  "registry_reader =
     rd_bind read_integer (\<lambda>version :: u8.
       if version \<noteq> REGISTRY_VERSION then rd_fail
       else rd_bind read_integer (\<lambda>count :: u16.
         if count > MAX_SERVERS then rd_fail
         else read_items registry_read_entry (unat count)))"

definition parse_entries :: "bytes \<Rightarrow> server_entry list option" where
  "parse_entries plaintext = fst (registry_reader (byte_reader_of plaintext))"

definition registry_load :: "client_lib \<Rightarrow> bytes \<Rightarrow> bytes \<Rightarrow> disk \<Rightarrow> store_error + server_entry list" where
  "registry_load lib path passphrase d =
     (case read_sealed_file path d of
        None \<Rightarrow> Inl Unreadable
      | Some sealed \<Rightarrow>
          (case open_blob lib passphrase sealed of
             None \<Rightarrow> Inl Wrong_passphrase_or_altered
           | Some plaintext \<Rightarrow>
               (case parse_entries plaintext of None \<Rightarrow> Inl Malformed_registry | Some entries \<Rightarrow> Inr entries)))"

definition write_entries :: "server_entry list \<Rightarrow> bytes" where
  "write_entries entries =
     bw_target (fold registry_write_entry entries
       (write_integer (word_of_nat (length entries) :: u16) (write_integer REGISTRY_VERSION (byte_writer_of []))))"

definition registry_save ::
  "client_lib \<Rightarrow> bytes \<Rightarrow> bytes \<Rightarrow> bytes \<Rightarrow> bytes \<Rightarrow> server_entry list \<Rightarrow> disk \<Rightarrow> (store_error + unit) \<times> disk" where
  "registry_save lib salt nonce path passphrase entries d =
     (if length entries > unat MAX_SERVERS then (Inl Too_many_servers, d)
      else case seal_blob lib salt nonce passphrase (write_entries entries) of
        None \<Rightarrow> (Inl Seal_failed, d)
      | Some sealed \<Rightarrow> write_sealed_file path sealed d)"

section \<open>Links\<close>

lemma while_until:
  assumes "b \<notin> set xs"
  shows "takeWhile (\<lambda>c. c \<noteq> b) (xs @ b # ys) = xs" and "dropWhile (\<lambda>c. c \<noteq> b) (xs @ b # ys) = b # ys"
  using assms by (induction xs) auto

lemma until_split:
  assumes "b \<in> set s"
  shows "s = takeWhile (\<lambda>c. c \<noteq> b) s @ b # tl (dropWhile (\<lambda>c. c \<noteq> b) s)" and "b \<notin> set (takeWhile (\<lambda>c. c \<noteq> b) s)"
  using assms by (induction s) (auto split: if_splits)

lemma split_last_append: "b \<notin> set ys \<Longrightarrow> split_last b (xs @ b # ys) = Some (xs, ys)"
  using while_until [of b "rev ys" "rev xs"] by (simp add: split_last_def)

lemma split_last_Some:
  assumes "split_last b s = Some (xs, ys)"
  shows "s = xs @ b # ys \<and> b \<notin> set ys"
proof -
  have m: "b \<in> set (rev s)" "xs = rev (tl (dropWhile (\<lambda>c. c \<noteq> b) (rev s)))" "ys = rev (takeWhile (\<lambda>c. c \<noteq> b) (rev s))"
    using assms by (auto simp: split_last_def split: if_splits)
  have "rev s = rev ys @ b # rev xs" using until_split(1) [OF m(1)] m(2,3) by simp
  then have "s = xs @ b # ys" by (metis rev_append rev.simps(2) rev_rev_ident append.assoc append_Cons append_Nil)
  moreover have "b \<notin> set ys" using until_split(2) [OF m(1)] m(3) by simp
  ultimately show ?thesis by simp
qed

text \<open>A port: digits whose value is between 1 and 65535.\<close>

definition port_digits :: "bytes \<Rightarrow> u16 \<Rightarrow> bool" where
  "port_digits ds port \<longleftrightarrow> ds \<noteq> [] \<and> list_all is_decimal_digit ds \<and> decimal_value ds = unat port \<and> port \<noteq> 0"

lemma takeWhile_all: "dropWhile P s = [] \<longleftrightarrow> list_all P s" "list_all P s \<Longrightarrow> takeWhile P s = s"
  by (induction s) (auto simp: list_all_iff)

lemma parse_port_iff: "parse_port s = Some port \<longleftrightarrow> port_digits s port"
proof (cases "list_all is_decimal_digit s \<and> s \<noteq> []")
  case False
  then have "s = [] \<or> dropWhile is_decimal_digit s \<noteq> []" by (metis takeWhile_all(1))
  then have "parse_port s = None" by (auto simp: parse_port_def from_chars_u32_def Let_def simp del: dropWhile_eq_Nil_conv)
  then show ?thesis using False by (auto simp: port_digits_def)
next
  case True
  define v where "v = decimal_value s"
  have s: "takeWhile is_decimal_digit s = s" "dropWhile is_decimal_digit s = []" "s \<noteq> []"
    using True by (simp_all add: takeWhile_list_all list_all_iff)
  show ?thesis
  proof (cases "v < 65536 \<and> v \<noteq> 0")
    case v: True
    then have u: "unat (word_of_nat v :: u32) = v" by (simp add: unat_u32_of_nat)
    then have "word_of_nat v \<noteq> (0 :: u32)" "\<not> word_of_nat v > (65535 :: u32)" using v by (auto simp: word_less_nat_alt)
    moreover have "unat (ucast (word_of_nat v :: u32) :: u16) = v" using u v by (simp add: unsigned_ucast_eq take_bit_eq_mod)
    then have "ucast (word_of_nat v :: u32) = port \<longleftrightarrow> v = unat port" by (auto simp: word_unat_eq_iff)
    moreover have "v = unat port \<Longrightarrow> port \<noteq> 0" using v by auto
    ultimately show ?thesis unfolding parse_port_def from_chars_u32_def Let_def s(1,2) port_digits_def v_def [symmetric]
      using s(3) v True by auto
  next
    case v: False
    have "unat port < 65536" using unsigned_less [of port] by simp
    then have "\<not> port_digits s port" using v by (auto simp: port_digits_def v_def unat_eq_0)
    moreover have "parse_port s = None"
    proof (cases "v < 4294967296")
      case True
      then have "unat (word_of_nat v :: u32) = v" by (rule unat_u32_of_nat)
      then have "word_of_nat v = (0 :: u32) \<or> word_of_nat v > (65535 :: u32)"
        using v by (auto simp: word_less_nat_alt unat_eq_0)
      then show ?thesis unfolding parse_port_def from_chars_u32_def Let_def s(1,2) v_def [symmetric] by auto
    next
      case False
      then show ?thesis unfolding parse_port_def from_chars_u32_def Let_def s(1,2) v_def [symmetric] by simp
    qed
    ultimately show ?thesis by simp
  qed
qed

lemma digits_no_mark: "list_all is_decimal_digit ds \<Longrightarrow> colon \<notin> set ds \<and> hash_sign \<notin> set ds"
  by (auto simp: list_all_iff is_decimal_digit_def colon_def hash_sign_def word_le_nat_alt)

lemma invite_link_accepted:
  assumes "iv_host link \<noteq> []" and "hash_sign \<notin> set (iv_host link)" and "port_digits ds (iv_port link)"
    and "is_hex_key (iv_server_key_hex link)"
  shows "parse_invite_link (LINK_PREFIX @ iv_host link @ [colon] @ ds @ [hash_sign] @ iv_server_key_hex link) = Inr link"
proof -
  have d: "colon \<notin> set ds" "hash_sign \<notin> set ds" using assms(3) digits_no_mark by (auto simp: port_digits_def)
  then have "hash_sign \<notin> set (iv_host link @ colon # ds)" using assms(2) by (simp add: colon_def hash_sign_def)
  note w = while_until [OF this, of "iv_server_key_hex link"]
  show ?thesis using assms w d(1) by (simp add: parse_invite_link_def Let_def split_last_append parse_port_iff [symmetric])
qed

text \<open>
  The invitation parser accepts exactly the lines \<^verbatim>\<open>hypercom://host:port#key\<close> with a host that is not
  empty and holds no \<^verbatim>\<open>#\<close> (it may hold colons, as IPv6 addresses do), a decimal port from 1 to 65535
  and 64 hexadecimal digits, and returns these parts; every other line is an error.
\<close>

theorem invite_link_grammar:
  "parse_invite_link line = Inr link \<longleftrightarrow>
    (\<exists>ds. line = LINK_PREFIX @ iv_host link @ [colon] @ ds @ [hash_sign] @ iv_server_key_hex link \<and>
       iv_host link \<noteq> [] \<and> hash_sign \<notin> set (iv_host link) \<and> port_digits ds (iv_port link) \<and>
       is_hex_key (iv_server_key_hex link))" (is "?l = ?r")
proof
  assume l: ?l
  define body where "body = drop (length LINK_PREFIX) line"
  define front where "front = takeWhile (\<lambda>c. c \<noteq> hash_sign) body"
  have h: "take (length LINK_PREFIX) line = LINK_PREFIX" "hash_sign \<in> set body"
    using l by (auto simp: parse_invite_link_def Let_def body_def split: if_splits)
  then have line: "line = LINK_PREFIX @ body" unfolding body_def by (metis append_take_drop_id)
  obtain host ds port where p: "split_last colon front = Some (host, ds)" "parse_port ds = Some port" "host \<noteq> []"
    "is_hex_key (tl (dropWhile (\<lambda>c. c \<noteq> hash_sign) body))"
    "link = \<lparr>iv_host = host, iv_port = port, iv_server_key_hex = tl (dropWhile (\<lambda>c. c \<noteq> hash_sign) body)\<rparr>"
    using l h by (auto simp: parse_invite_link_def Let_def body_def [symmetric] front_def [symmetric]
        split: if_splits option.splits)
  have f: "front = host @ colon # ds" using split_last_Some [OF p(1)] by simp
  have k: "iv_server_key_hex link = tl (dropWhile (\<lambda>c. c \<noteq> hash_sign) body)" using p(5) by simp
  have b: "body = front @ hash_sign # iv_server_key_hex link" "hash_sign \<notin> set front"
    unfolding k front_def by (rule until_split [OF h(2)])+
  have g: "iv_host link = host" "iv_port link = port" "is_hex_key (iv_server_key_hex link)" "port_digits ds port"
    using p parse_port_iff by simp_all
  show ?r unfolding line b(1) f g(1,2) using b(2) f p(3) g(3,4) by (intro exI [of _ ds]) simp
next
  assume ?r
  then show ?l using invite_link_accepted by auto
qed

lemma format_invite_link_parses:
  assumes "iv_host link \<noteq> []" and "hash_sign \<notin> set (iv_host link)" and "iv_port link \<noteq> 0" and "is_hex_key (iv_server_key_hex link)"
  shows "parse_invite_link (format_invite_link (iv_host link) (iv_port link) (iv_server_key_hex link)) = Inr link"
  using invite_link_accepted [OF assms(1,2) _ assms(4), of "decimal_text (unat (iv_port link))"] assms(3)
  by (simp add: format_invite_link_def port_digits_def decimal_text_digits decimal_text_not_Nil decimal_value_text)

section \<open>The registry\<close>

definition entry_fits :: "server_entry \<Rightarrow> bool" where
  "entry_fits e \<longleftrightarrow> text_ok MAX_LABEL_LENGTH (se_label e) \<and> text_ok MAX_HOST_LENGTH (ep_host (se_endpoint e)) \<and>
     text_ok MAX_HOST_LENGTH (ep_socks5_host (se_endpoint e)) \<and> length (se_server_key e) = X25519_PUBLIC_KEY_SIZE \<and>
     text_ok MAX_PATH_LENGTH (se_imported_identity_path e)"

lemma registry_write_entry_emit:
  "registry_write_entry e w = emit
     (prefixed_bytes (se_label e) @ prefixed_bytes (ep_host (se_endpoint e)) @ le_bytes (ep_port (se_endpoint e)) @
      prefixed_bytes (ep_socks5_host (se_endpoint e)) @ le_bytes (ep_socks5_port (se_endpoint e)) @ se_server_key e @
      le_bytes (identity_source_value (se_source e)) @ prefixed_bytes (se_imported_identity_path e) @
      le_bytes (if se_trust_acknowledged e then 1 else 0 :: u8) @ []) w"
  by (simp add: registry_write_entry_def writer_simps)

lemma source_value:
  "\<not> 1 < identity_source_value x" "(if identity_source_value x = 0 then Derived else Imported) = x"
  by (cases x; simp)+

lemma decodes_entry:
  assumes "entry_fits e"
  shows "decodes registry_read_entry e (encode_with registry_write_entry e)"
proof -
  have eq: "encode_with registry_write_entry e =
     prefixed_bytes (se_label e) @ prefixed_bytes (ep_host (se_endpoint e)) @ le_bytes (ep_port (se_endpoint e)) @
      prefixed_bytes (ep_socks5_host (se_endpoint e)) @ le_bytes (ep_socks5_port (se_endpoint e)) @ se_server_key e @
      le_bytes (identity_source_value (se_source e)) @ prefixed_bytes (se_imported_identity_path e) @
      le_bytes (if se_trust_acknowledged e then 1 else 0 :: u8) @ []"
    by (rule encode_withI [OF registry_write_entry_emit])
  show ?thesis unfolding eq registry_read_entry_def using assms unfolding entry_fits_def
    by - (rule decodes_intros decodes_return_eq conjI impI | simp add: source_value)+
qed

lemma yields_entry: "yields registry_read_entry (\<lambda>e bs. entry_fits e)"
  unfolding registry_read_entry_def entry_fits_def
  by ((rule yields_intros yields_if)+, simp_all)

lemma registry_write_entry_encode: "registry_write_entry e w = emit (encode_with registry_write_entry e) w"
  unfolding encode_withI [OF registry_write_entry_emit] by (rule registry_write_entry_emit)

lemma fold_write_entry: "fold registry_write_entry es w = emit (concat (map (encode_with registry_write_entry) es)) w"
proof (induction es arbitrary: w)
  case (Cons e es)
  show ?case unfolding fold_simps Cons.IH registry_write_entry_encode [of e w] by simp
qed simp

lemma decodes_read_items:
  "(\<And>x. x \<in> set xs \<Longrightarrow> decodes rd x (enc x)) \<Longrightarrow> decodes (read_items rd (length xs)) xs (concat (map enc xs))"
proof (induction xs)
  case (Cons x xs)
  have "decodes (read_items rd (length (x # xs))) (x # xs) (enc x @ concat (map enc xs) @ [])"
    unfolding length_Cons read_items.simps
    by (rule decodes_bind decodes_return Cons.IH Cons.prems | simp add: Cons.prems)+
  then show ?case by simp
qed (simp add: decodes_return)

lemma yields_read_items:
  "yields rd (\<lambda>x bs. P x) \<Longrightarrow> yields (read_items rd n) (\<lambda>xs bs. list_all P xs)"
proof (induction n)
  case (Suc n)
  show ?case unfolding read_items.simps
    by (rule yields_bind [OF Suc.prems], rule yields_bind [OF Suc.IH [OF Suc.prems]], rule yields_return) simp
qed (simp add: yields_return)

lemma write_entries_bytes:
  "write_entries es = le_bytes REGISTRY_VERSION @ le_bytes (word_of_nat (length es) :: u16) @ concat (map (encode_with registry_write_entry) es) @ []"
  by (simp add: write_entries_def fold_write_entry writer_simps)

lemma parse_write_entries:
  assumes "length es \<le> 64" and "list_all entry_fits es"
  shows "parse_entries (write_entries es) = Some es"
proof -
  have n: "unat (word_of_nat (length es) :: u16) = length es" using assms(1) by (intro unat_u16_of_nat) simp
  then have c: "\<not> word_of_nat (length es) > MAX_SERVERS" using assms(1) by (simp add: MAX_SERVERS_def word_less_nat_alt)
  have i: "decodes (read_items registry_read_entry (length es)) es (concat (map (encode_with registry_write_entry) es))"
    using assms(2) decodes_entry by (intro decodes_read_items) (auto simp: list_all_iff)
  have "decodes registry_reader es
       (le_bytes REGISTRY_VERSION @ le_bytes (word_of_nat (length es) :: u16) @ concat (map (encode_with registry_write_entry) es))"
    unfolding registry_reader_def by (rule decodes_intros | simp add: n c i)+
  from decodesD [OF this, of "byte_reader_of (write_entries es)" "[]"] show ?thesis
    unfolding parse_entries_def write_entries_bytes by simp
qed

lemma parse_entries_fit:
  assumes "parse_entries bs = Some es"
  shows "list_all entry_fits es"
proof -
  have "yields registry_reader (\<lambda>es bs. list_all entry_fits es)" unfolding registry_reader_def
    by (rule yields_bind, rule yields_intros, rule yields_if, rule yields_fail, rule yields_bind, rule yields_intros,
        rule yields_if, rule yields_fail, rule yields_read_items [OF yields_entry])
  moreover obtain r' where "registry_reader (byte_reader_of bs) = (Some es, r')"
    using assms by (cases "registry_reader (byte_reader_of bs)") (simp add: parse_entries_def)
  ultimately show ?thesis unfolding yields_def using br_ok_byte_reader_of by blast
qed

lemma saved_registry_loads:
  assumes "xaead_correct lib" and "length salt = ARGON2ID_SALT_SIZE" and "length nonce = XCHACHA_NONCE_SIZE"
    and "registry_save lib salt nonce path passphrase entries d = (Inr (), d')"
    and "dk_writes d = []" and "\<not> dk_read_fails d path"
  shows "registry_load lib path passphrase d' = Inr entries \<longleftrightarrow> list_all entry_fits entries"
proof -
  obtain sealed where s: "seal_blob lib salt nonce passphrase (write_entries entries) = Some sealed"
    "d' = put_file path sealed [] d" "length entries \<le> 64"
    using assms(4,5) by (auto simp: registry_save_def write_sealed_file_def MAX_SERVERS_def split: if_splits option.splits)
  have l: "registry_load lib path passphrase d' =
      (case parse_entries (write_entries entries) of None \<Rightarrow> Inl Malformed_registry | Some entries \<Rightarrow> Inr entries)"
    using open_seal_blob [OF assms(1) _ _ s(1)] assms(2,3,6) by (simp add: registry_load_def read_sealed_file_def s(2))
  show ?thesis unfolding l using parse_write_entries [OF s(3)] parse_entries_fit
    by (cases "parse_entries (write_entries entries)") auto
qed

text \<open>
  C40: the saved list of servers comes back. After a successful save that was written whole, loading
  with the same passphrase gives the same entries exactly when each of them fits the limits of the
  reader (48 bytes of label, 256 of host, 512 of path, well-formed text).
  The writer does not check these limits.
\<close>

theorem registry_loads_iff_fits:
  assumes "xaead_correct lib" and "length salt = ARGON2ID_SALT_SIZE" and "length nonce = XCHACHA_NONCE_SIZE"
    and "registry_save lib salt nonce path passphrase entries d = (Inr (), d')"
    and "dk_writes d = []" and "\<not> dk_read_fails d path"
  shows "registry_load lib path passphrase d' = Inr entries \<longleftrightarrow> list_all entry_fits entries"
  by (rule saved_registry_loads [OF assms])

definition onion_entry :: "nat \<Rightarrow> server_entry" where
  "onion_entry n = \<lparr>se_label = replicate n 97,
     se_endpoint = \<lparr>ep_host = ascii ''forum.onion'', ep_port = 7777, ep_socks5_host = [], ep_socks5_port = 0\<rparr>,
     se_server_key = replicate 32 9, se_source = Derived, se_imported_identity_path = [], se_trust_acknowledged = True\<rparr>"

lemma toy_save:
  "\<exists>d'. registry_save toy_client (replicate 16 5) (replicate 24 6) [1] [2] [onion_entry n] empty_disk = (Inr (), d')"
proof -
  obtain sealed where "seal_blob toy_client (replicate 16 5) (replicate 24 6) [2] (write_entries [onion_entry n]) = Some sealed"
    using toy_seal by blast
  then show ?thesis by (simp add: registry_save_def write_sealed_file_def empty_disk_def MAX_SERVERS_def)
qed

theorem registry_loads_iff_fits_witness:
  "\<exists>d'. registry_save toy_client (replicate 16 5) (replicate 24 6) [1] [2] [onion_entry 62] empty_disk = (Inr (), d') \<and>
     registry_load toy_client [1] [2] d' \<noteq> Inr [onion_entry 62]"
proof -
  obtain d' where s: "registry_save toy_client (replicate 16 5) (replicate 24 6) [1] [2] [onion_entry 62] empty_disk = (Inr (), d')"
    using toy_save by blast
  have "\<not> list_all entry_fits [onion_entry 62]" by (simp add: entry_fits_def onion_entry_def text_ok_def)
  then have "registry_load toy_client [1] [2] d' \<noteq> Inr [onion_entry 62]"
    using registry_loads_iff_fits [OF toy_client_ok(1) _ _ s] by (simp add: empty_disk_def)
  then show ?thesis using s by blast
qed

end
