(* ===== verification/Client_Connection.thy ===== *)
theory Client_Connection
  imports Server_List Frame
begin

text \<open>
  The client's side of a session (\<^verbatim>\<open>client/net\<close>): the socket, the SOCKS5 negotiation, the encrypted
  connection, the typed exchange of messages and the authentication. What the network does is part of
  the state: the answers of the receive and send calls to come. Each function returns its result, or
  the error whose text it reports, and the new state.
\<close>

section \<open>Socket (\<open>tcp_client_socket.cpp\<close>)\<close>

text \<open>
  One answer of \<^verbatim>\<open>recv\<close>: bytes (none of them when the peer has closed), a time-out, or an error. When the
  list is used up nothing more arrives. One answer of \<^verbatim>\<open>send\<close>: a count, a time-out, or an error; when the
  list is used up everything is taken.
\<close>

datatype recv_event = Received bytes | Silence | Receive_error
datatype send_event = Sent nat | Send_timeout | Send_error

record tcp_client_socket =
  ts_connected :: bool
  ts_incoming :: "recv_event list"
  ts_sends :: "send_event list"
  ts_sent :: bytes

text \<open>What one address of the resolved name answers, and the addresses of a name.\<close>

datatype dial = No_socket | Refused | Accepted "recv_event list" "send_event list"

type_synonym network = "bytes \<Rightarrow> u16 \<Rightarrow> dial list option"

datatype client_error =
    Unknown_host | Connection_refused
  | Proxy_closed | Proxy_silent | Proxy_send_failed | Proxy_requires_authentication | Bad_host_length
  | Proxy_request_failed | Proxy_bad_reply | Proxy_refused bytes | Proxy_bad_address
  | Invalid_frame | Closed_by_server | No_answer
  | First_message_failed | Handshake_send_failed | Wrong_server_key | Key_derivation_failed
  | Session_closed | Decryption_failed | Malformed_frame
  | Server_error bytes | Unreadable_server_error | Unexpected_reply | Malformed_reply
  | Hello_failed | Signature_failed | Auth_response_failed | Malformed_auth_reply | Authentication_refused
  | Invalid_handle | Register_failed

definition CLIENT_READ_CHUNK_SIZE :: nat where [simp]: "CLIENT_READ_CHUNK_SIZE = 16 * 1024"

definition closed_socket :: tcp_client_socket where
  "closed_socket = \<lparr>ts_connected = False, ts_incoming = [], ts_sends = [], ts_sent = []\<rparr>"

fun try_addresses :: "dial list \<Rightarrow> tcp_client_socket option" where
  "try_addresses [] = None"
| "try_addresses (No_socket # entries) = try_addresses entries"
| "try_addresses (Refused # entries) = try_addresses entries"
| "try_addresses (Accepted incoming sends # entries) =
     Some \<lparr>ts_connected = True, ts_incoming = incoming, ts_sends = sends, ts_sent = []\<rparr>"

definition connect_to_host ::
  "network \<Rightarrow> bytes \<Rightarrow> u16 \<Rightarrow> tcp_client_socket \<Rightarrow> (client_error + unit) \<times> tcp_client_socket" where
  "connect_to_host net host port s =
     (case net host port of
        None \<Rightarrow> (Inl Unknown_host, closed_socket)
      | Some entries \<Rightarrow>
          (case try_addresses entries of
             None \<Rightarrow> (Inl Connection_refused, closed_socket) | Some opened \<Rightarrow> (Inr (), opened)))"

fun send_loop :: "send_event list \<Rightarrow> bytes \<Rightarrow> bytes \<Rightarrow> bool \<times> bytes \<times> send_event list" where
  "send_loop events sent [] = (True, sent, events)"
| "send_loop [] sent rest = (True, sent @ rest, [])"
| "send_loop (Sent n # events) sent rest =
     (if n = 0 then (False, sent, events) else send_loop events (sent @ take n rest) (drop n rest))"
| "send_loop (Send_timeout # events) sent rest = send_loop events sent rest"
| "send_loop (Send_error # events) sent rest = (False, sent, events)"

definition send_all :: "bytes \<Rightarrow> tcp_client_socket \<Rightarrow> bool \<times> tcp_client_socket" where
  "send_all data s =
     (if \<not> ts_connected s then (data = [], s)
      else case send_loop (ts_sends s) (ts_sent s) data of (success, sent, events) \<Rightarrow>
        (success, s\<lparr>ts_sent := sent, ts_sends := events\<rparr>))"

definition receive_available :: "bytes \<Rightarrow> tcp_client_socket \<Rightarrow> bool \<times> bool \<times> bytes \<times> tcp_client_socket" where
  "receive_available destination s =
     (if \<not> ts_connected s then (False, False, destination, s)
      else case ts_incoming s of
        [] \<Rightarrow> (True, False, destination, s)
      | Silence # events \<Rightarrow> (True, False, destination, s\<lparr>ts_incoming := events\<rparr>)
      | Receive_error # events \<Rightarrow> (False, False, destination, s\<lparr>ts_incoming := events\<rparr>)
      | Received bs # events \<Rightarrow>
          if bs = [] then (False, False, destination, s)
          else if length bs \<le> CLIENT_READ_CHUNK_SIZE then (True, True, destination @ bs, s\<lparr>ts_incoming := events\<rparr>)
          else (True, True, destination @ take CLIENT_READ_CHUNK_SIZE bs,
                s\<lparr>ts_incoming := Received (drop CLIENT_READ_CHUNK_SIZE bs) # events\<rparr>))"

section \<open>The SOCKS5 proxy (\<open>socks5_connector.cpp\<close>)\<close>

definition SOCKS_VERSION :: u8 where [simp]: "SOCKS_VERSION = 5"
definition AUTH_NONE :: u8 where [simp]: "AUTH_NONE = 0"
definition COMMAND_CONNECT :: u8 where [simp]: "COMMAND_CONNECT = 1"
definition ADDRESS_TYPE_DOMAIN :: u8 where [simp]: "ADDRESS_TYPE_DOMAIN = 3"
definition ADDRESS_TYPE_IPV4 :: u8 where [simp]: "ADDRESS_TYPE_IPV4 = 1"
definition ADDRESS_TYPE_IPV6 :: u8 where [simp]: "ADDRESS_TYPE_IPV6 = 4"
definition REPLY_SUCCESS :: u8 where [simp]: "REPLY_SUCCESS = 0"
definition MAX_DOMAIN_LENGTH :: nat where [simp]: "MAX_DOMAIN_LENGTH = 255"
definition MAX_READ_ATTEMPTS :: nat where "MAX_READ_ATTEMPTS = 150"

definition describe_reply_code :: "u8 \<Rightarrow> bytes" where
  "describe_reply_code code =
     (if code = 1 then ascii ''echec general du proxy''
      else if code = 2 then ascii ''connexion refusee par la regle du proxy''
      else if code = 3 then ascii ''reseau injoignable''
      else if code = 4 then ascii ''hote injoignable : l'adresse .onion existe-t-elle ?''
      else if code = 5 then ascii ''connexion refusee par la cible''
      else if code = 6 then ascii ''delai expire''
      else if code = 7 then ascii ''commande non supportee par le proxy''
      else if code = 8 then ascii ''type d'adresse non supporte par le proxy''
      else ascii ''code de reponse inconnu'')"

fun read_exactly ::
  "nat \<Rightarrow> nat \<Rightarrow> bytes \<Rightarrow> tcp_client_socket \<Rightarrow> (client_error + bytes) \<times> tcp_client_socket" where
  "read_exactly attempts needed buffer s =
     (if length buffer \<ge> needed then (Inr buffer, s)
      else case attempts of
        0 \<Rightarrow> (Inl Proxy_silent, s)
      | Suc left \<Rightarrow>
          (case receive_available buffer s of
             (False, _, _, s') \<Rightarrow> (Inl Proxy_closed, s')
           | (True, _, buffer', s') \<Rightarrow> read_exactly left needed buffer' s'))"

declare read_exactly.simps [simp del]

definition negotiate_no_auth :: "tcp_client_socket \<Rightarrow> (client_error + unit) \<times> tcp_client_socket" where
  "negotiate_no_auth s =
     (case send_all [SOCKS_VERSION, 1, AUTH_NONE] s of
        (False, s1) \<Rightarrow> (Inl Proxy_send_failed, s1)
      | (True, s1) \<Rightarrow>
          (case read_exactly MAX_READ_ATTEMPTS 2 [] s1 of
             (Inl e, s2) \<Rightarrow> (Inl e, s2)
           | (Inr reply, s2) \<Rightarrow>
               if reply ! 0 \<noteq> SOCKS_VERSION \<or> reply ! 1 \<noteq> AUTH_NONE then (Inl Proxy_requires_authentication, s2)
               else (Inr (), s2)))"

definition connect_request :: "bytes \<Rightarrow> u16 \<Rightarrow> bytes" where
  "connect_request host port =
     [SOCKS_VERSION, COMMAND_CONNECT, 0, ADDRESS_TYPE_DOMAIN, word_of_nat (length host)] @ host @
     [ucast (drop_bit 8 port), ucast (port AND 0xFF)]"

definition send_connect_request ::
  "bytes \<Rightarrow> u16 \<Rightarrow> tcp_client_socket \<Rightarrow> (client_error + unit) \<times> tcp_client_socket" where
  "send_connect_request host port s =
     (if host = [] \<or> length host > MAX_DOMAIN_LENGTH then (Inl Bad_host_length, s)
      else case send_all (connect_request host port) s of
        (False, s1) \<Rightarrow> (Inl Proxy_request_failed, s1) | (True, s1) \<Rightarrow> (Inr (), s1))"

definition measure_bound_address :: "u8 \<Rightarrow> u8 \<Rightarrow> nat" where
  "measure_bound_address address_type first_byte =
     (if address_type = ADDRESS_TYPE_IPV4 then 4
      else if address_type = ADDRESS_TYPE_IPV6 then 16
      else if address_type = ADDRESS_TYPE_DOMAIN then unat first_byte + 1
      else 0)"

definition perform_socks5_connect ::
  "bytes \<Rightarrow> u16 \<Rightarrow> tcp_client_socket \<Rightarrow> (client_error + unit) \<times> tcp_client_socket" where
  "perform_socks5_connect target_host target_port s =
     (case negotiate_no_auth s of
        (Inl e, s1) \<Rightarrow> (Inl e, s1)
      | (Inr _, s1) \<Rightarrow>
     (case send_connect_request target_host target_port s1 of
        (Inl e, s2) \<Rightarrow> (Inl e, s2)
      | (Inr _, s2) \<Rightarrow>
     (case read_exactly MAX_READ_ATTEMPTS 5 [] s2 of
        (Inl e, s3) \<Rightarrow> (Inl e, s3)
      | (Inr reply, s3) \<Rightarrow>
          if reply ! 0 \<noteq> SOCKS_VERSION then (Inl Proxy_bad_reply, s3)
          else if reply ! 1 \<noteq> REPLY_SUCCESS then (Inl (Proxy_refused (describe_reply_code (reply ! 1))), s3)
          else
            let address_size = measure_bound_address (reply ! 3) (reply ! 4) in
            if address_size = 0 then (Inl Proxy_bad_address, s3)
            else (case read_exactly MAX_READ_ATTEMPTS (4 + address_size + 2) reply s3 of
                    (Inl e, s4) \<Rightarrow> (Inl e, s4) | (Inr _, s4) \<Rightarrow> (Inr (), s4)))))"

section \<open>The connection (\<open>server_connection.cpp\<close>)\<close>

definition CLIENT_MAX_NOISE_MESSAGE_SIZE :: nat where
  [simp]: "CLIENT_MAX_NOISE_MESSAGE_SIZE = MAX_FRAME_SIZE + AEAD_TAG_SIZE"

definition MAX_RECEIVE_ATTEMPTS :: nat where "MAX_RECEIVE_ATTEMPTS = 50"

record server_connection =
  sn_socket :: tcp_client_socket
  sn_server_static_public :: bytes
  sn_handshake :: noise_handshake_initiator
  sn_transport :: "noise_transport option"
  sn_input_buffer :: bytes
  sn_open :: bool

definition new_server_connection :: "sodium \<Rightarrow> bytes \<Rightarrow> server_connection" where
  "new_server_connection lib server_static_public =
     \<lparr>sn_socket = closed_socket, sn_server_static_public = server_static_public,
      sn_handshake = new_initiator lib server_static_public, sn_transport = None,
      sn_input_buffer = [], sn_open = False\<rparr>"

primrec pull_attempts :: "nat \<Rightarrow> server_connection \<Rightarrow> (client_error + bytes) \<times> server_connection" where
  "pull_attempts 0 c = (Inl No_answer, c)"
| "pull_attempts (Suc left) c =
     (case extract_length_prefixed_message (sn_input_buffer c) CLIENT_MAX_NOISE_MESSAGE_SIZE of
        (Some message, _, rest) \<Rightarrow> (Inr message, c\<lparr>sn_input_buffer := rest\<rparr>)
      | (None, malformed, _) \<Rightarrow>
          if malformed then (Inl Invalid_frame, c\<lparr>sn_open := False\<rparr>)
          else (case receive_available (sn_input_buffer c) (sn_socket c) of
                  (False, _, buffer, s) \<Rightarrow>
                    (Inl Closed_by_server, c\<lparr>sn_socket := s, sn_input_buffer := buffer, sn_open := False\<rparr>)
                | (True, _, buffer, s) \<Rightarrow> pull_attempts left (c\<lparr>sn_socket := s, sn_input_buffer := buffer\<rparr>)))"

definition pull_next_message :: "server_connection \<Rightarrow> (client_error + bytes) \<times> server_connection" where
  "pull_next_message c = pull_attempts MAX_RECEIVE_ATTEMPTS c"

text \<open>\<open>generated\<close> is the ephemeral key pair of the handshake.\<close>

definition perform_handshake ::
  "sodium \<Rightarrow> (bytes \<times> bytes) option \<Rightarrow> server_connection \<Rightarrow> (client_error + unit) \<times> server_connection" where
  "perform_handshake lib generated c =
     (case write_first_message lib generated [] (sn_handshake c) of
        (None, i) \<Rightarrow> (Inl First_message_failed, c\<lparr>sn_handshake := i\<rparr>)
      | (Some first_message, i) \<Rightarrow>
     (case send_all (append_length_prefixed_message first_message []) (sn_socket c) of
        (False, s) \<Rightarrow> (Inl Handshake_send_failed, c\<lparr>sn_handshake := i, sn_socket := s\<rparr>)
      | (True, s) \<Rightarrow>
     (case pull_next_message (c\<lparr>sn_handshake := i, sn_socket := s\<rparr>) of
        (Inl e, c1) \<Rightarrow> (Inl e, c1)
      | (Inr response, c1) \<Rightarrow>
     (case read_second_message lib response (sn_handshake c1) of
        (None, i1) \<Rightarrow> (Inl Wrong_server_key, c1\<lparr>sn_handshake := i1\<rparr>)
      | (Some payload, i1) \<Rightarrow>
     (case initiator_export_transport_keys lib i1 of
        None \<Rightarrow> (Inl Key_derivation_failed, c1\<lparr>sn_handshake := i1\<rparr>)
      | Some (send_key, receive_key) \<Rightarrow>
          (Inr (), c1\<lparr>sn_handshake := i1, sn_transport := Some (new_transport send_key receive_key)\<rparr>))))))"

definition open_session ::
  "sodium \<Rightarrow> network \<Rightarrow> (bytes \<times> bytes) option \<Rightarrow> server_endpoint \<Rightarrow> server_connection \<Rightarrow>
    (client_error + unit) \<times> server_connection" where
  "open_session lib net generated endpoint c =
     (let c0 = c\<lparr>sn_open := False, sn_transport := None, sn_input_buffer := [],
                 sn_handshake := new_initiator lib (sn_server_static_public c)\<rparr>;
          through_proxy = ep_socks5_host endpoint \<noteq> [];
          dial_host = (if through_proxy then ep_socks5_host endpoint else ep_host endpoint);
          dial_port = (if through_proxy then ep_socks5_port endpoint else ep_port endpoint) in
      case connect_to_host net dial_host dial_port (sn_socket c0) of
        (Inl e, s) \<Rightarrow> (Inl e, c0\<lparr>sn_socket := s\<rparr>)
      | (Inr _, s) \<Rightarrow>
     (case (if through_proxy then perform_socks5_connect (ep_host endpoint) (ep_port endpoint) s else (Inr (), s)) of
        (Inl e, s1) \<Rightarrow> (Inl e, c0\<lparr>sn_socket := s1\<rparr>)
      | (Inr _, s1) \<Rightarrow>
     (case perform_handshake lib generated (c0\<lparr>sn_socket := s1, sn_open := True\<rparr>) of
        (Inl e, c1) \<Rightarrow> (Inl e, c1\<lparr>sn_open := False\<rparr>) | (Inr _, c1) \<Rightarrow> (Inr (), c1))))"

definition client_send_frame ::
  "sodium \<Rightarrow> message_type \<Rightarrow> bytes \<Rightarrow> server_connection \<Rightarrow> bool \<times> server_connection" where
  "client_send_frame lib type payload c =
     (case (sn_open c, sn_transport c) of
        (True, Some t) \<Rightarrow>
          (case encode_frame type payload of
             None \<Rightarrow> (False, c)
           | Some frame \<Rightarrow>
               (case encrypt_message lib frame t of
                  (None, t') \<Rightarrow> (False, c\<lparr>sn_transport := Some t'\<rparr>)
                | (Some sealed, t') \<Rightarrow>
                    (case send_all (append_length_prefixed_message sealed []) (sn_socket c) of
                       (success, s) \<Rightarrow> (success, c\<lparr>sn_transport := Some t', sn_socket := s\<rparr>))))
      | _ \<Rightarrow> (False, c))"

definition client_receive_frame ::
  "sodium \<Rightarrow> server_connection \<Rightarrow> (client_error + frame_header \<times> bytes) \<times> server_connection" where
  "client_receive_frame lib c =
     (case (sn_open c, sn_transport c) of
        (True, Some transport) \<Rightarrow>
     (case pull_next_message c of
        (Inl e, c1) \<Rightarrow> (Inl e, c1)
      | (Inr sealed, c1) \<Rightarrow>
          (case decrypt_message lib sealed transport of
             (None, t) \<Rightarrow> (Inl Decryption_failed, c1\<lparr>sn_transport := Some t, sn_open := False\<rparr>)
           | (Some frame, t) \<Rightarrow>
               (let c2 = c1\<lparr>sn_transport := Some t\<rparr> in
                case decode_frame_header frame of
                  None \<Rightarrow> (Inl Malformed_frame, c2\<lparr>sn_open := False\<rparr>)
                | Some header \<Rightarrow>
                    if length frame \<noteq> FRAME_LENGTH_FIELD_SIZE + unat (fh_body_size header)
                    then (Inl Malformed_frame, c2\<lparr>sn_open := False\<rparr>)
                    else (Inr (header, drop FRAME_HEADER_SIZE frame), c2))))
      | _ \<Rightarrow> (Inl Session_closed, c))"

section \<open>Typed messages (\<open>message_exchange.hpp\<close>)\<close>

definition send_typed_message ::
  "sodium \<Rightarrow> ('a \<Rightarrow> byte_writer \<Rightarrow> byte_writer) \<Rightarrow> message_type \<Rightarrow> 'a \<Rightarrow> server_connection \<Rightarrow> bool \<times> server_connection" where
  "send_typed_message lib write_to type message c = client_send_frame lib type (encode_with write_to message) c"

definition receive_typed_message ::
  "sodium \<Rightarrow> 'a reader \<Rightarrow> message_type \<Rightarrow> server_connection \<Rightarrow> (client_error + 'a) \<times> server_connection" where
  "receive_typed_message lib read_from expected c =
     (case client_receive_frame lib c of
        (Inl e, c1) \<Rightarrow> (Inl e, c1)
      | (Inr (header, payload), c1) \<Rightarrow>
          (if fh_type header = MT_status_error then
             (case fst (status_error_response_read_from (byte_reader_of payload)) of
                Some failure \<Rightarrow> (Inl (Server_error (se_detail failure)), c1)
              | None \<Rightarrow> (Inl Unreadable_server_error, c1))
           else if fh_type header \<noteq> expected then (Inl Unexpected_reply, c1)
           else (case fst (read_from (byte_reader_of payload)) of
                   None \<Rightarrow> (Inl Malformed_reply, c1) | Some out \<Rightarrow> (Inr out, c1))))"

section \<open>The session (\<open>client_session.cpp\<close>)\<close>

record client_session =
  cs_connection :: server_connection
  cs_identity :: identity_keypair
  cs_challenge_nonce :: bytes
  cs_handle :: bytes
  cs_user_id :: u64
  cs_needs_registration :: bool

definition new_client_session :: "server_connection \<Rightarrow> identity_keypair \<Rightarrow> client_session" where
  "new_client_session c identity =
     \<lparr>cs_connection = c, cs_identity = identity, cs_challenge_nonce = replicate AUTH_NONCE_SIZE 0,
      cs_handle = [], cs_user_id = 0, cs_needs_registration = True\<rparr>"

definition sign_and_send_response :: "client_lib \<Rightarrow> client_session \<Rightarrow> (client_error + unit) \<times> client_session" where
  "sign_and_send_response lib s =
     (case sign_message lib (cs_identity s) (build_auth_signing_input (cs_challenge_nonce s) (ik_public (cs_identity s))) of
        None \<Rightarrow> (Inl Signature_failed, s)
      | Some signature \<Rightarrow>
          (case send_typed_message (cl_sodium lib) auth_response_write_to MT_auth_response \<lparr>ar_signature = signature\<rparr> (cs_connection s) of
             (False, c) \<Rightarrow> (Inl Auth_response_failed, s\<lparr>cs_connection := c\<rparr>)
           | (True, c) \<Rightarrow> (Inr (), s\<lparr>cs_connection := c\<rparr>)))"

definition accept_session :: "auth_accepted \<Rightarrow> client_session \<Rightarrow> client_session" where
  "accept_session accepted s =
     s\<lparr>cs_handle := aa_handle accepted, cs_user_id := aa_user_id accepted, cs_needs_registration := False\<rparr>"

definition authenticate :: "client_lib \<Rightarrow> client_session \<Rightarrow> (client_error + unit) \<times> client_session" where
  "authenticate lib s =
     (case send_typed_message (cl_sodium lib) hello_request_write_to MT_hello_request
             \<lparr>hq_protocol_version = PROTOCOL_VERSION, hq_client_pubkey = ik_public (cs_identity s)\<rparr> (cs_connection s) of
        (False, c) \<Rightarrow> (Inl Hello_failed, s\<lparr>cs_connection := c\<rparr>)
      | (True, c) \<Rightarrow>
     (case receive_typed_message (cl_sodium lib) auth_challenge_read_from MT_auth_challenge c of
        (Inl e, c1) \<Rightarrow> (Inl e, s\<lparr>cs_connection := c1\<rparr>)
      | (Inr challenge, c1) \<Rightarrow>
     (case sign_and_send_response lib (s\<lparr>cs_connection := c1, cs_challenge_nonce := ac_nonce challenge\<rparr>) of
        (Inl e, s1) \<Rightarrow> (Inl e, s1)
      | (Inr _, s1) \<Rightarrow>
     (case client_receive_frame (cl_sodium lib) (cs_connection s1) of
        (Inl e, c2) \<Rightarrow> (Inl e, s1\<lparr>cs_connection := c2\<rparr>)
      | (Inr (header, payload), c2) \<Rightarrow>
          (let s2 = s1\<lparr>cs_connection := c2\<rparr> in
           if fh_type header = MT_auth_accepted then
             (case fst (auth_accepted_read_from (byte_reader_of payload)) of
                None \<Rightarrow> (Inl Malformed_auth_reply, s2)
              | Some accepted \<Rightarrow> (Inr (), accept_session accepted s2))
           else if fh_type header = MT_status_ok then (Inr (), s2\<lparr>cs_needs_registration := True\<rparr>)
           else (Inl Authentication_refused, s2))))))"

definition register_handle :: "client_lib \<Rightarrow> bytes \<Rightarrow> client_session \<Rightarrow> (client_error + unit) \<times> client_session" where
  "register_handle lib handle s =
     (if \<not> validate_handle handle then (Inl Invalid_handle, s)
      else case send_typed_message (cl_sodium lib) register_request_write_to MT_register_request
                  \<lparr>rq_handle = handle\<rparr> (cs_connection s) of
        (False, c) \<Rightarrow> (Inl Register_failed, s\<lparr>cs_connection := c\<rparr>)
      | (True, c) \<Rightarrow>
          (case receive_typed_message (cl_sodium lib) auth_accepted_read_from MT_auth_accepted c of
             (Inl e, c1) \<Rightarrow> (Inl e, s\<lparr>cs_connection := c1\<rparr>)
           | (Inr accepted, c1) \<Rightarrow> (Inr (), accept_session accepted (s\<lparr>cs_connection := c1\<rparr>))))"

end
