(* ===== verification/Cli_Options.thy ===== *)
theory Cli_Options
  imports Client_Connection
begin

text \<open>
  The command line of the clients (\<^verbatim>\<open>client/cli/cli_options.cpp\<close>): options, connection files, and where
  the passphrase comes from. \<^verbatim>\<open>argv\<close> is a list of byte strings, its first element left out; the files a
  connection file can be read from are a map.
\<close>

section \<open>Options\<close>

record cli_options =
  op_host :: bytes
  op_port :: u16
  op_server_key_hex :: bytes
  op_socks5_host :: bytes
  op_socks5_port :: u16
  op_identity_path :: bytes
  op_server_label :: bytes
  op_master_seed_path :: bytes
  op_registry_path :: bytes
  op_command :: bytes
  op_arguments :: "bytes list"
  op_replay_intro :: bool

definition default_options :: cli_options where
  "default_options =
     \<lparr>op_host = ascii ''127.0.0.1'', op_port = 7717, op_server_key_hex = [], op_socks5_host = [], op_socks5_port = 0,
      op_identity_path = ascii ''hypercom_identity.key'', op_server_label = [],
      op_master_seed_path = ascii ''hypercom_master.key'', op_registry_path = ascii ''hypercom_servers.dat'',
      op_command = [], op_arguments = [], op_replay_intro = False\<rparr>"

definition DEFAULT_TOR_SOCKS_HOST :: bytes where "DEFAULT_TOR_SOCKS_HOST = ascii ''127.0.0.1''"
definition DEFAULT_TOR_SOCKS_PORT :: u16 where "DEFAULT_TOR_SOCKS_PORT = 9050"
definition ONION_SUFFIX :: bytes where "ONION_SUFFIX = ascii ''.onion''"

datatype option_error =
    Missing_value bytes | Invalid_port bytes | Invalid_proxy bytes | Missing_proxy_host bytes
  | Invalid_file_port bytes | Missing_connect_file bytes | No_command | Server_key_required

text \<open>Unlike the parser of invitations, this one does not look at what follows the digits.\<close>

definition option_port :: "bytes \<Rightarrow> u16 option" where
  "option_port s =
     (case from_chars_u32 s of
        None \<Rightarrow> None
      | Some (v, _) \<Rightarrow> if v = 0 \<or> v > 65535 then None else Some (ucast v))"

definition is_leading_blank :: "u8 \<Rightarrow> bool" where "is_leading_blank c \<longleftrightarrow> c = 32 \<or> c = 9"
definition is_trailing_blank :: "u8 \<Rightarrow> bool" where "is_trailing_blank c \<longleftrightarrow> c = 32 \<or> c = 9 \<or> c = 13"

definition option_trim_spaces :: "bytes \<Rightarrow> bytes" where
  "option_trim_spaces s = rev (dropWhile is_trailing_blank (rev (dropWhile is_leading_blank s)))"

definition parse_proxy_endpoint :: "bytes \<Rightarrow> cli_options \<Rightarrow> option_error + cli_options" where
  "parse_proxy_endpoint s out =
     (case split_last colon s of
        None \<Rightarrow> Inl (Invalid_proxy s)
      | Some (host, port_text) \<Rightarrow>
          (case option_port port_text of
             None \<Rightarrow> Inl (Invalid_proxy s)
           | Some port \<Rightarrow>
               if host = [] then Inl (Missing_proxy_host s)
               else Inr (out\<lparr>op_socks5_port := port, op_socks5_host := host\<rparr>)))"

definition equals_sign :: u8 where "equals_sign = 61"

definition apply_connect_line :: "bytes \<Rightarrow> cli_options \<Rightarrow> option_error + cli_options" where
  "apply_connect_line line out =
     (if equals_sign \<notin> set line then Inr out
      else
        let key = option_trim_spaces (takeWhile (\<lambda>c. c \<noteq> equals_sign) line);
            val = option_trim_spaces (tl (dropWhile (\<lambda>c. c \<noteq> equals_sign) line)) in
        if key = ascii ''host'' then Inr (out\<lparr>op_host := val\<rparr>)
        else if key = ascii ''port'' then
          (case option_port val of None \<Rightarrow> Inl (Invalid_file_port val) | Some port \<Rightarrow> Inr (out\<lparr>op_port := port\<rparr>))
        else if key = ascii ''server_key'' then Inr (out\<lparr>op_server_key_hex := val\<rparr>)
        else if key = ascii ''socks5'' then parse_proxy_endpoint val out
        else Inr out)"

text \<open>\<^verbatim>\<open>std::getline\<close>: the lines of a file; a last line that is empty is none.\<close>

lemma tl_dropWhile_shorter: "s \<noteq> [] \<Longrightarrow> length (tl (dropWhile P s)) < length s"
  using length_dropWhile_le [of P s] by (cases s) auto

function file_lines :: "bytes \<Rightarrow> bytes list" where
  "file_lines content =
     (if content = [] then []
      else takeWhile (\<lambda>c. c \<noteq> 10) content # file_lines (tl (dropWhile (\<lambda>c. c \<noteq> 10) content)))"
  by pat_completeness auto
termination
  by (relation "measure length") (simp_all add: tl_dropWhile_shorter del: length_tl)

declare file_lines.simps [simp del]

fun apply_connect_lines :: "bytes list \<Rightarrow> cli_options \<Rightarrow> option_error + cli_options" where
  "apply_connect_lines [] out = Inr out"
| "apply_connect_lines (line # rest) out =
     (case apply_connect_line line out of Inl e \<Rightarrow> Inl e | Inr out' \<Rightarrow> apply_connect_lines rest out')"

definition load_connect_file :: "(bytes \<Rightarrow> bytes option) \<Rightarrow> bytes \<Rightarrow> cli_options \<Rightarrow> option_error + cli_options" where
  "load_connect_file files path out =
     (case files path of
        None \<Rightarrow> Inl (Missing_connect_file path)
      | Some content \<Rightarrow> apply_connect_lines (file_lines content) out)"

text \<open>
  One argument. An option that takes a value takes the next argument, whatever it is
  (\<^verbatim>\<open>take_value\<close>); the result is the new options and the arguments that are left.
\<close>

definition take_value :: "bytes \<Rightarrow> bytes list \<Rightarrow> option_error + (bytes \<times> bytes list)" where
  "take_value argument rest =
     (case rest of [] \<Rightarrow> Inl (Missing_value argument) | v # rest' \<Rightarrow> Inr (v, rest'))"

definition with_value ::
  "bytes \<Rightarrow> bytes list \<Rightarrow> (bytes \<Rightarrow> option_error + cli_options) \<Rightarrow> option_error + (cli_options \<times> bytes list)" where
  "with_value argument rest use =
     (case take_value argument rest of
        Inl e \<Rightarrow> Inl e
      | Inr (v, rest') \<Rightarrow> (case use v of Inl e \<Rightarrow> Inl e | Inr out \<Rightarrow> Inr (out, rest')))"

definition apply_argument ::
  "(bytes \<Rightarrow> bytes option) \<Rightarrow> bytes \<Rightarrow> bytes list \<Rightarrow> cli_options \<Rightarrow> option_error + (cli_options \<times> bytes list)" where
  "apply_argument files argument rest out =
     (if argument = ascii ''--host'' then with_value argument rest (\<lambda>v. Inr (out\<lparr>op_host := v\<rparr>))
      else if argument = ascii ''--port'' then
        with_value argument rest (\<lambda>v.
          case option_port v of None \<Rightarrow> Inl (Invalid_port v) | Some port \<Rightarrow> Inr (out\<lparr>op_port := port\<rparr>))
      else if argument = ascii ''--server-key'' then with_value argument rest (\<lambda>v. Inr (out\<lparr>op_server_key_hex := v\<rparr>))
      else if argument = ascii ''--identity'' then with_value argument rest (\<lambda>v. Inr (out\<lparr>op_identity_path := v\<rparr>))
      else if argument = ascii ''--server'' then with_value argument rest (\<lambda>v. Inr (out\<lparr>op_server_label := v\<rparr>))
      else if argument = ascii ''--master-seed'' then with_value argument rest (\<lambda>v. Inr (out\<lparr>op_master_seed_path := v\<rparr>))
      else if argument = ascii ''--servers'' then with_value argument rest (\<lambda>v. Inr (out\<lparr>op_registry_path := v\<rparr>))
      else if argument = ascii ''--connect-file'' then with_value argument rest (\<lambda>v. load_connect_file files v out)
      else if argument = ascii ''--tor'' then
        Inr (out\<lparr>op_socks5_host := DEFAULT_TOR_SOCKS_HOST, op_socks5_port := DEFAULT_TOR_SOCKS_PORT\<rparr>, rest)
      else if argument = ascii ''--socks5'' then with_value argument rest (\<lambda>v. parse_proxy_endpoint v out)
      else if argument = ascii ''--direct'' then Inr (out\<lparr>op_socks5_host := [], op_socks5_port := 0\<rparr>, rest)
      else if argument = ascii ''--replay-intro'' then Inr (out\<lparr>op_replay_intro := True\<rparr>, rest)
      else if op_command out = [] then Inr (out\<lparr>op_command := argument\<rparr>, rest)
      else Inr (out\<lparr>op_arguments := op_arguments out @ [argument]\<rparr>, rest))"

lemma apply_argument_rest: "apply_argument files a rest out = Inr (out', rest') \<Longrightarrow> length rest' \<le> length rest"
  by (auto simp: apply_argument_def with_value_def take_value_def split: if_splits list.splits sum.splits option.splits)

function parse_arguments :: "(bytes \<Rightarrow> bytes option) \<Rightarrow> bytes list \<Rightarrow> cli_options \<Rightarrow> option_error + cli_options" where
  "parse_arguments files [] out = Inr out"
| "parse_arguments files (argument # rest) out =
     (case apply_argument files argument rest out of
        Inl e \<Rightarrow> Inl e
      | Inr (out', rest') \<Rightarrow> parse_arguments files rest' out')"
  by pat_completeness auto
termination
  by (relation "measure (\<lambda>(files, args, out). length args)") (auto dest!: apply_argument_rest simp: less_Suc_eq_le)

definition ends_with :: "bytes \<Rightarrow> bytes \<Rightarrow> bool" where
  "ends_with s suff \<longleftrightarrow> length suff \<le> length s \<and> drop (length s - length suff) s = suff"

definition starts_with :: "bytes \<Rightarrow> bytes \<Rightarrow> bool" where
  "starts_with s pre \<longleftrightarrow> take (length pre) s = pre"

definition route_onion :: "cli_options \<Rightarrow> cli_options" where
  "route_onion out =
     (if op_socks5_host out = [] \<and> ends_with (op_host out) ONION_SUFFIX
      then out\<lparr>op_socks5_host := DEFAULT_TOR_SOCKS_HOST, op_socks5_port := DEFAULT_TOR_SOCKS_PORT\<rparr>
      else out)"

definition parse_cli_options ::
  "(bytes \<Rightarrow> bytes option) \<Rightarrow> bytes list \<Rightarrow> cli_options \<Rightarrow> bool \<Rightarrow> bool \<Rightarrow> option_error + cli_options" where
  "parse_cli_options files args out require_command require_server_key =
     (case parse_arguments files args out of
        Inl e \<Rightarrow> Inl e
      | Inr parsed \<Rightarrow>
          if require_command \<and> op_command parsed = [] then Inl No_command
          else
            let routed = route_onion parsed in
            if require_server_key \<and> op_server_label routed = [] \<and>
              \<not> starts_with (op_command routed) (ascii ''server-'') \<and> op_command routed \<noteq> ascii ''seed-restore'' \<and>
              length (op_server_key_hex routed) \<noteq> 64
            then Inl Server_key_required
            else Inr routed)"

text \<open>The environment variable comes first; without it a line is read, which must not be empty.\<close>

definition read_passphrase :: "bytes option \<Rightarrow> bytes option \<Rightarrow> bytes option" where
  "read_passphrase from_environment typed =
     (case from_environment of
        Some p \<Rightarrow> Some p
      | None \<Rightarrow> (case typed of None \<Rightarrow> None | Some p \<Rightarrow> if p = [] then None else Some p))"

section \<open>What the options mean\<close>

text \<open>The arguments that set every option, in the order of the record.\<close>

definition render_options :: "cli_options \<Rightarrow> bytes list" where
  "render_options opts =
     [ascii ''--host'', op_host opts, ascii ''--port'', decimal_text (unat (op_port opts)),
      ascii ''--server-key'', op_server_key_hex opts,
      ascii ''--socks5'', op_socks5_host opts @ [colon] @ decimal_text (unat (op_socks5_port opts)),
      ascii ''--identity'', op_identity_path opts, ascii ''--server'', op_server_label opts,
      ascii ''--master-seed'', op_master_seed_path opts, ascii ''--servers'', op_registry_path opts] @
     (if op_replay_intro opts then [ascii ''--replay-intro''] else []) @ [op_command opts] @ op_arguments opts"

definition option_words :: "bytes set" where
  "option_words = {ascii ''--host'', ascii ''--port'', ascii ''--server-key'', ascii ''--identity'', ascii ''--server'',
     ascii ''--master-seed'', ascii ''--servers'', ascii ''--connect-file'', ascii ''--tor'', ascii ''--socks5'',
     ascii ''--direct'', ascii ''--replay-intro''}"

lemma option_port_text: "port \<noteq> 0 \<Longrightarrow> option_port (decimal_text (unat port)) = Some port"
proof -
  assume "port \<noteq> 0"
  then have "parse_port (decimal_text (unat port)) = Some port"
    by (simp add: parse_port_iff port_digits_def decimal_text_not_Nil decimal_text_digits decimal_value_text)
  then show ?thesis by (auto simp: parse_port_def option_port_def split: option.splits prod.splits if_splits)
qed

lemma proxy_text_parses:
  assumes "host \<noteq> []" and "port \<noteq> 0"
  shows "parse_proxy_endpoint (host @ [colon] @ decimal_text (unat port)) out = Inr (out\<lparr>op_socks5_port := port, op_socks5_host := host\<rparr>)"
  using assms digits_no_mark [OF decimal_text_digits] by (simp add: parse_proxy_endpoint_def split_last_append option_port_text)

lemma plain_argument:
  "argument \<notin> option_words \<Longrightarrow> apply_argument files argument rest out =
     Inr (if op_command out = [] then out\<lparr>op_command := argument\<rparr> else out\<lparr>op_arguments := op_arguments out @ [argument]\<rparr>, rest)"
  by (simp add: apply_argument_def option_words_def)

lemma plain_arguments:
  "list_all (\<lambda>a. a \<notin> option_words) args \<Longrightarrow> op_command out \<noteq> [] \<Longrightarrow>
     parse_arguments files args out = Inr (out\<lparr>op_arguments := op_arguments out @ args\<rparr>)"
  by (induction args arbitrary: out) (simp_all add: plain_argument)

lemma command_and_arguments:
  assumes "op_command out = []" and "op_arguments out = []" and "command \<notin> option_words" and "command \<noteq> []"
    and "list_all (\<lambda>a. a \<notin> option_words) args"
  shows "parse_arguments files (command # args) out = Inr (out\<lparr>op_command := command, op_arguments := args\<rparr>)"
  using assms by (simp add: plain_argument plain_arguments)

lemma apply_option_words:
  "apply_argument files (ascii ''--host'') (v # rest) out = Inr (out\<lparr>op_host := v\<rparr>, rest)"
  "apply_argument files (ascii ''--port'') (v # rest) out =
     (case option_port v of None \<Rightarrow> Inl (Invalid_port v) | Some port \<Rightarrow> Inr (out\<lparr>op_port := port\<rparr>, rest))"
  "apply_argument files (ascii ''--server-key'') (v # rest) out = Inr (out\<lparr>op_server_key_hex := v\<rparr>, rest)"
  "apply_argument files (ascii ''--identity'') (v # rest) out = Inr (out\<lparr>op_identity_path := v\<rparr>, rest)"
  "apply_argument files (ascii ''--server'') (v # rest) out = Inr (out\<lparr>op_server_label := v\<rparr>, rest)"
  "apply_argument files (ascii ''--master-seed'') (v # rest) out = Inr (out\<lparr>op_master_seed_path := v\<rparr>, rest)"
  "apply_argument files (ascii ''--servers'') (v # rest) out = Inr (out\<lparr>op_registry_path := v\<rparr>, rest)"
  "apply_argument files (ascii ''--socks5'') (v # rest) out =
     (case parse_proxy_endpoint v out of Inl e \<Rightarrow> Inl e | Inr out' \<Rightarrow> Inr (out', rest))"
  "apply_argument files (ascii ''--replay-intro'') rest out = Inr (out\<lparr>op_replay_intro := True\<rparr>, rest)"
  by (simp_all add: apply_argument_def with_value_def take_value_def ascii_def split: option.split)

text \<open>
  Any settings can be given on the command line. For every value of the options with ports other
  than zero, a proxy, and a command and arguments that are no option words, the arguments that name
  each option with its value are read back to exactly these options, whatever the values are, whatever
  options were set before, and without reading any file.
\<close>

theorem options_round_trip:
  assumes "op_port opts \<noteq> 0" and "op_socks5_port opts \<noteq> 0" and "op_socks5_host opts \<noteq> []"
    and "op_command opts \<noteq> []" and "list_all (\<lambda>a. a \<notin> option_words) (op_command opts # op_arguments opts)"
    and "op_command out = []" and "op_arguments out = []" and "\<not> op_replay_intro out"
  shows "parse_arguments files (render_options opts) out = Inr opts"
proof -
  define set_opts where "set_opts = out\<lparr>op_host := op_host opts, op_port := op_port opts, op_server_key_hex := op_server_key_hex opts,
    op_socks5_port := op_socks5_port opts, op_socks5_host := op_socks5_host opts, op_identity_path := op_identity_path opts,
    op_server_label := op_server_label opts, op_master_seed_path := op_master_seed_path opts, op_registry_path := op_registry_path opts\<rparr>"
  let ?opts' = "if op_replay_intro opts then set_opts\<lparr>op_replay_intro := True\<rparr> else set_opts"
  have "parse_arguments files (render_options opts) out = parse_arguments files (op_command opts # op_arguments opts) ?opts'"
    using assms(1-3)
    by (cases "op_replay_intro opts") (simp_all add: set_opts_def render_options_def apply_option_words option_port_text proxy_text_parses [simplified]
        del: parse_arguments.simps(2) add: parse_arguments.simps(2) [of _ "ascii _"])
  also have "\<dots> = Inr (?opts'\<lparr>op_command := op_command opts, op_arguments := op_arguments opts\<rparr>)"
    using assms(4-7) by (intro command_and_arguments) (simp_all add: set_opts_def)
  also have "?opts'\<lparr>op_command := op_command opts, op_arguments := op_arguments opts\<rparr> = opts"
    using assms(8) by (intro cli_options.equality) (simp_all add: set_opts_def)
  finally show ?thesis .
qed

definition toy_options :: cli_options where
  "toy_options =
     \<lparr>op_host = ascii ''forum.onion'', op_port = 80, op_server_key_hex = replicate 64 48, op_socks5_host = ascii ''localhost'',
      op_socks5_port = 9150, op_identity_path = ascii ''--tor'', op_server_label = [], op_master_seed_path = [],
      op_registry_path = ascii ''r'', op_command = ascii ''posts'', op_arguments = [ascii ''3'', ascii ''x''], op_replay_intro = True\<rparr>"

theorem options_round_trip_witness:
  "parse_arguments (\<lambda>_. None) (render_options toy_options) default_options = Inr toy_options"
  by (rule options_round_trip) (simp_all add: toy_options_def default_options_def option_words_def ascii_def)

text \<open>An address of the hidden network always has a proxy once the options are read.\<close>

lemma onion_has_proxy:
  assumes "parse_cli_options files args out require_command require_server_key = Inr opts"
    and "ends_with (op_host opts) ONION_SUFFIX"
  shows "op_socks5_host opts \<noteq> []"
  using assms
  by (auto simp: parse_cli_options_def route_onion_def Let_def DEFAULT_TOR_SOCKS_HOST_def ascii_def split: sum.splits if_splits)

text \<open>Digits followed by anything are a port.\<close>

lemma option_port_ignores_rest: "option_port (ascii ''80abc'') = Some 80"
  by (simp add: option_port_def from_chars_u32_def ascii_def is_decimal_digit_def decimal_value_def Let_def)

end
