(* ===== verification/Cli_Commands.thy ===== *)
theory Cli_Commands
  imports Cli_Options Messages_Content Messages_Social
begin

text \<open>
  The commands of the command line client that talk to a server (\<^verbatim>\<open>client/cli/cli_*_commands.cpp\<close>). A
  command runs on the session and on what was printed so far; it ends with a value or with an error,
  and keeps the state it reached in both cases. Identity and connection of \<^verbatim>\<open>cli_context\<close> are those of
  the session, which refers to the same objects.
\<close>

section \<open>Sequencing\<close>

record cli_context =
  cx_session :: client_session
  cx_output :: bytes

datatype cli_error =
    Cli_text bytes
  | Cli_network client_error
  | Cli_store store_error
  | Cli_invite invite_error
  | Cli_option option_error

type_synonym ('a, 's) command = "'s \<Rightarrow> (cli_error + 'a) \<times> 's"

definition cmd_return :: "'a \<Rightarrow> ('a, 's) command" where
  "cmd_return x s = (Inr x, s)"

definition cmd_fail :: "cli_error \<Rightarrow> ('a, 's) command" where
  "cmd_fail e s = (Inl e, s)"

definition cmd_bind :: "('a, 's) command \<Rightarrow> ('a \<Rightarrow> ('b, 's) command) \<Rightarrow> ('b, 's) command" where
  "cmd_bind m f s = (case m s of (Inl e, s1) \<Rightarrow> (Inl e, s1) | (Inr x, s1) \<Rightarrow> f x s1)"

text \<open>A guard and an optional value, each with the text of the failure.\<close>

definition cmd_check :: "bool \<Rightarrow> bytes \<Rightarrow> (unit, 's) command" where
  "cmd_check condition message = (if condition then cmd_return () else cmd_fail (Cli_text message))"

definition cmd_the :: "'a option \<Rightarrow> bytes \<Rightarrow> ('a, 's) command" where
  "cmd_the x message = (case x of None \<Rightarrow> cmd_fail (Cli_text message) | Some v \<Rightarrow> cmd_return v)"

definition print :: "bytes list \<Rightarrow> (unit, cli_context) command" where
  "print parts s = (Inr (), s\<lparr>cx_output := cx_output s @ concat parts\<rparr>)"

definition newline :: bytes where "newline = [10]"

section \<open>One request and its reply\<close>

definition through_connection ::
  "(server_connection \<Rightarrow> 'r \<times> server_connection) \<Rightarrow> cli_context \<Rightarrow> 'r \<times> cli_context" where
  "through_connection f s =
     (case f (cs_connection (cx_session s)) of
        (r, c) \<Rightarrow> (r, s\<lparr>cx_session := (cx_session s)\<lparr>cs_connection := c\<rparr>\<rparr>))"

definition cmd_send :: "(server_connection \<Rightarrow> bool \<times> server_connection) \<Rightarrow> bytes \<Rightarrow> (unit, cli_context) command" where
  "cmd_send f message s =
     (case through_connection f s of
        (success, s1) \<Rightarrow> (if success then Inr () else Inl (Cli_text message), s1))"

definition cmd_receive ::
  "(server_connection \<Rightarrow> (client_error + 'r) \<times> server_connection) \<Rightarrow> ('r, cli_context) command" where
  "cmd_receive f s =
     (case through_connection f s of (Inl e, s1) \<Rightarrow> (Inl (Cli_network e), s1) | (Inr r, s1) \<Rightarrow> (Inr r, s1))"

definition exchange ::
  "sodium \<Rightarrow> ('q \<Rightarrow> byte_writer \<Rightarrow> byte_writer) \<Rightarrow> message_type \<Rightarrow> 'q \<Rightarrow> 'r reader \<Rightarrow> message_type \<Rightarrow> ('r, cli_context) command" where
  "exchange lib write_to type request read_from expected =
     cmd_bind (cmd_send (send_typed_message lib write_to type request) (ascii ''envoi impossible'')) (\<lambda>_.
       cmd_receive (receive_typed_message lib read_from expected))"

section \<open>Arguments\<close>

text \<open>\<^verbatim>\<open>std::from_chars\<close> into 64 bits; what follows the digits is not looked at.\<close>

definition parse_identifier :: "bytes \<Rightarrow> u64 option" where
  "parse_identifier s =
     (let ds = takeWhile is_decimal_digit s
      in if ds = [] \<or> decimal_value ds \<ge> 2 ^ 64 then None else Some (word_of_nat (decimal_value ds)))"

definition parse_public_key :: "bytes \<Rightarrow> bytes option" where
  "parse_public_key s =
     (case decode_hex s of
        None \<Rightarrow> None | Some decoded \<Rightarrow> if length decoded = PUBLIC_KEY_SIZE then Some decoded else None)"

definition bad_key_text :: bytes where
  "bad_key_text = ascii ''cle publique invalide : 64 caracteres hexadecimaux attendus''"

definition id_text :: "u64 \<Rightarrow> bytes" where "id_text i = decimal_text (unat i)"

section \<open>Forums (\<open>cli_forum_commands.cpp\<close>)\<close>

definition run_forum_create :: "client_lib \<Rightarrow> bytes list \<Rightarrow> (unit, cli_context) command" where
  "run_forum_create lib arguments =
     cmd_bind (cmd_check (length arguments \<ge> 2) (ascii ''usage : forum-create <nom> <description>'')) (\<lambda>_.
     cmd_bind (exchange (cl_sodium lib) forum_create_request_write_to MT_forum_create_request
       \<lparr>fc_name = arguments ! 0, fc_description = arguments ! 1, fc_theme_json = []\<rparr>
       forum_info_response_read_from MT_forum_info_response) (\<lambda>response.
     print [ascii ''forum cree : #'', id_text (fr_id (fi_forum response)), ascii '' '', fr_name (fi_forum response), newline]))"

definition forum_lines :: "forum_record \<Rightarrow> bytes list" where
  "forum_lines forum =
     [ascii ''  #'', id_text (fr_id forum), ascii ''  '', fr_name forum, ascii ''  ('',
      decimal_text (unat (fr_post_count forum)), ascii '' posts, fonde par '', fr_founder_handle forum, ascii '')'', newline] @
     (if fr_description forum \<noteq> [] then [ascii ''        '', fr_description forum, newline] else [])"

definition run_forum_list :: "client_lib \<Rightarrow> (unit, cli_context) command" where
  "run_forum_list lib =
     cmd_bind (exchange (cl_sodium lib) forum_list_request_write_to MT_forum_list_request
       \<lparr>flq_offset = 0, flq_limit = DEFAULT_LIST_ITEMS\<rparr> forum_list_response_read_from MT_forum_list_response) (\<lambda>response.
     print ([decimal_text (length (fl_forums response)), ascii '' forum(s) sur '',
       decimal_text (unat (fl_total_count response)), ascii '' :'', newline] @
       concat (map forum_lines (fl_forums response))))"

section \<open>Posts and comments (\<open>cli_content_commands.cpp\<close>)\<close>

definition indented_comment :: "comment_record \<Rightarrow> bytes list" where
  "indented_comment comment =
     replicate (unat (cr_depth comment)) (ascii ''  '') @
     [ascii ''|- #'', id_text (cr_id comment), ascii '' <'', cr_author_handle comment, ascii ''> '', cr_body comment, newline]"

definition run_post_create :: "client_lib \<Rightarrow> bytes list \<Rightarrow> (unit, cli_context) command" where
  "run_post_create lib arguments =
     cmd_bind (cmd_check (length arguments \<ge> 3) (ascii ''usage : post <forum_id> <titre> <corps>'')) (\<lambda>_.
     cmd_bind (cmd_the (parse_identifier (arguments ! 0)) (ascii ''identifiant de forum invalide'')) (\<lambda>forum_id.
     cmd_bind (exchange (cl_sodium lib) post_create_request_write_to MT_post_create_request
       \<lparr>pc_forum_id = forum_id, pc_title = arguments ! 1, pc_body = arguments ! 2\<rparr>
       post_info_response_read_from MT_post_info_response) (\<lambda>response.
     print [ascii ''post cree : #'', id_text (pr_id (pi_post response)), newline])))"

definition post_line :: "post_record \<Rightarrow> bytes list" where
  "post_line post =
     [ascii ''  #'', id_text (pr_id post), ascii ''  '', pr_title post, ascii ''  <'', pr_author_handle post, ascii ''>  '',
      decimal_text (unat (pr_comment_count post)), ascii '' commentaire(s)'', newline]"

definition run_post_list :: "client_lib \<Rightarrow> bytes list \<Rightarrow> (unit, cli_context) command" where
  "run_post_list lib arguments =
     cmd_bind (cmd_check (arguments \<noteq> []) (ascii ''usage : posts <forum_id>'')) (\<lambda>_.
     cmd_bind (cmd_the (parse_identifier (arguments ! 0)) (ascii ''identifiant de forum invalide'')) (\<lambda>forum_id.
     cmd_bind (exchange (cl_sodium lib) post_list_request_write_to MT_post_list_request
       \<lparr>plq_forum_id = forum_id, plq_offset = 0, plq_limit = DEFAULT_LIST_ITEMS\<rparr>
       post_list_response_read_from MT_post_list_response) (\<lambda>response.
     print ([decimal_text (length (pl_posts response)), ascii '' post(s) sur '',
       decimal_text (unat (pl_total_count response)), ascii '' :'', newline] @ concat (map post_line (pl_posts response))))))"

definition run_thread_fetch :: "client_lib \<Rightarrow> bytes list \<Rightarrow> (unit, cli_context) command" where
  "run_thread_fetch lib arguments =
     cmd_bind (cmd_check (arguments \<noteq> []) (ascii ''usage : thread <post_id>'')) (\<lambda>_.
     cmd_bind (cmd_the (parse_identifier (arguments ! 0)) (ascii ''identifiant de post invalide'')) (\<lambda>post_id.
     cmd_bind (exchange (cl_sodium lib) thread_fetch_request_write_to MT_thread_fetch_request
       \<lparr>tfq_post_id = post_id\<rparr> thread_response_read_from MT_thread_response) (\<lambda>response.
     print ([ascii ''#'', id_text (pr_id (tr_post response)), ascii ''  '', pr_title (tr_post response),
         ascii ''  <'', pr_author_handle (tr_post response), ascii ''>'', newline,
         pr_body (tr_post response), newline, ascii ''---'', newline] @
       concat (map indented_comment (tr_comments response)) @
       (if tr_truncated response \<noteq> 0 then [ascii ''(fil tronque)'', newline] else [])))))"

definition run_comment_create :: "client_lib \<Rightarrow> bytes list \<Rightarrow> (unit, cli_context) command" where
  "run_comment_create lib arguments =
     cmd_bind (cmd_check (length arguments \<ge> 3) (ascii ''usage : comment <post_id> <parent_id|0> <corps>'')) (\<lambda>_.
     cmd_bind (cmd_the (parse_identifier (arguments ! 0)) (ascii ''identifiant invalide'')) (\<lambda>post_id.
     cmd_bind (cmd_the (parse_identifier (arguments ! 1)) (ascii ''identifiant invalide'')) (\<lambda>parent_comment_id.
     cmd_bind (exchange (cl_sodium lib) comment_create_request_write_to MT_comment_create_request
       \<lparr>cc_post_id = post_id, cc_parent_comment_id = parent_comment_id, cc_body = arguments ! 2\<rparr>
       comment_info_response_read_from MT_comment_info_response) (\<lambda>response.
     print [ascii ''commentaire cree : #'', id_text (cr_id (ci_comment response)), newline]))))"

section \<open>Deletion (\<open>cli_content_delete_commands.cpp\<close>)\<close>

definition exchange_status ::
  "client_lib \<Rightarrow> ('q \<Rightarrow> byte_writer \<Rightarrow> byte_writer) \<Rightarrow> message_type \<Rightarrow> 'q \<Rightarrow> (status_ok_response, cli_context) command" where
  "exchange_status lib write_to type request =
     exchange (cl_sodium lib) write_to type request status_ok_response_read_from MT_status_ok"

definition run_post_delete :: "client_lib \<Rightarrow> bytes list \<Rightarrow> (unit, cli_context) command" where
  "run_post_delete lib arguments =
     cmd_bind (cmd_check (arguments \<noteq> []) (ascii ''usage : post-delete <post_id>'')) (\<lambda>_.
     cmd_bind (cmd_the (parse_identifier (arguments ! 0)) (ascii ''identifiant invalide'')) (\<lambda>post_id.
     cmd_bind (exchange_status lib post_delete_request_write_to MT_post_delete_request \<lparr>pd_post_id = post_id\<rparr>) (\<lambda>_.
     print [ascii ''post retire'', newline])))"

definition run_comment_delete :: "client_lib \<Rightarrow> bytes list \<Rightarrow> (unit, cli_context) command" where
  "run_comment_delete lib arguments =
     cmd_bind (cmd_check (arguments \<noteq> []) (ascii ''usage : comment-delete <comment_id>'')) (\<lambda>_.
     cmd_bind (cmd_the (parse_identifier (arguments ! 0)) (ascii ''identifiant invalide'')) (\<lambda>comment_id.
     cmd_bind (exchange_status lib comment_delete_request_write_to MT_comment_delete_request \<lparr>cd_comment_id = comment_id\<rparr>) (\<lambda>_.
     print [ascii ''commentaire retire'', newline])))"

section \<open>Reports (\<open>cli_report_commands.cpp\<close>)\<close>

definition report_reason :: "bytes list \<Rightarrow> bytes" where
  "report_reason arguments = (if length arguments > 1 then arguments ! 1 else [])"

definition run_report_post :: "client_lib \<Rightarrow> bytes list \<Rightarrow> (unit, cli_context) command" where
  "run_report_post lib arguments =
     cmd_bind (cmd_check (arguments \<noteq> []) (ascii ''usage : report-post <post_id> [motif]'')) (\<lambda>_.
     cmd_bind (cmd_the (parse_identifier (arguments ! 0)) (ascii ''identifiant invalide'')) (\<lambda>post_id.
     cmd_bind (exchange_status lib report_post_request_write_to MT_report_post_request
       \<lparr>rp_post_id = post_id, rp_reason = report_reason arguments\<rparr>) (\<lambda>_.
     print [ascii ''post signale'', newline])))"

definition run_report_account :: "client_lib \<Rightarrow> bytes list \<Rightarrow> (unit, cli_context) command" where
  "run_report_account lib arguments =
     cmd_bind (cmd_check (arguments \<noteq> []) (ascii ''usage : report-account <pubkey_hex> [motif]'')) (\<lambda>_.
     cmd_bind (cmd_the (parse_public_key (arguments ! 0)) bad_key_text) (\<lambda>target_pubkey.
     cmd_bind (exchange_status lib report_account_request_write_to MT_report_account_request
       \<lparr>ra_target_pubkey = target_pubkey, ra_reason = report_reason arguments\<rparr>) (\<lambda>_.
     print [ascii ''compte signale'', newline])))"

section \<open>Profiles and friends (\<open>cli_social_commands.cpp\<close>)\<close>

definition run_profile_set :: "client_lib \<Rightarrow> bytes list \<Rightarrow> (unit, cli_context) command" where
  "run_profile_set lib arguments =
     cmd_bind (cmd_check (length arguments \<ge> 2) (ascii ''usage : profile-set <nom_affiche> <bio>'')) (\<lambda>_.
     cmd_bind (exchange_status lib profile_set_request_write_to MT_profile_set_request
       \<lparr>ps_display_name = arguments ! 0, ps_bio = arguments ! 1, ps_theme_json = [], ps_banner_reference = []\<rparr>) (\<lambda>_.
     print [ascii ''profil mis a jour'', newline]))"

definition run_profile_get :: "client_lib \<Rightarrow> bytes list \<Rightarrow> (unit, cli_context) command" where
  "run_profile_get lib arguments =
     cmd_bind (cmd_check (arguments \<noteq> []) (ascii ''usage : profile-get <pubkey_hex>'')) (\<lambda>_.
     cmd_bind (cmd_the (parse_public_key (arguments ! 0)) bad_key_text) (\<lambda>target_pubkey.
     cmd_bind (exchange (cl_sodium lib) profile_get_request_write_to MT_profile_get_request
       \<lparr>pgq_target_pubkey = target_pubkey\<rparr> profile_response_read_from MT_profile_response) (\<lambda>response.
     print [ascii ''@'', prf_handle (prs_profile response), ascii ''  ('', prf_display_name (prs_profile response), ascii '')'',
       newline, prf_bio (prs_profile response), newline])))"

definition run_friend_add :: "client_lib \<Rightarrow> bytes list \<Rightarrow> (unit, cli_context) command" where
  "run_friend_add lib arguments =
     cmd_bind (cmd_check (arguments \<noteq> []) (ascii ''usage : friend-add <pubkey_hex>'')) (\<lambda>_.
     cmd_bind (cmd_the (parse_public_key (arguments ! 0)) bad_key_text) (\<lambda>target_pubkey.
     cmd_bind (exchange_status lib friend_add_request_write_to MT_friend_add_request
       \<lparr>fa_target_pubkey = target_pubkey, fa_status = FS_accepted\<rparr>) (\<lambda>_.
     print [ascii ''ami ajoute'', newline])))"

definition friend_line :: "friend_record \<Rightarrow> bytes list" where
  "friend_line entry = [ascii ''  @'', frd_handle entry, ascii ''  '', encode_hex (frd_pubkey entry), newline]"

definition run_friend_list :: "client_lib \<Rightarrow> (unit, cli_context) command" where
  "run_friend_list lib =
     cmd_bind (cmd_send (client_send_frame (cl_sodium lib) MT_friend_list_request []) (ascii ''envoi impossible'')) (\<lambda>_.
     cmd_bind (cmd_receive (receive_typed_message (cl_sodium lib) friend_list_response_read_from MT_friend_list_response)) (\<lambda>response.
     print ([decimal_text (length (fls_friends response)), ascii '' ami(s) :'', newline] @
       concat (map friend_line (fls_friends response)))))"

section \<open>The eight favourites (\<open>cli_top8_commands.cpp\<close>)\<close>

definition EMPTY_SLOT_MARKER :: bytes where "EMPTY_SLOT_MARKER = ascii ''-''"

fun parse_slots :: "bytes list \<Rightarrow> bytes list option" where
  "parse_slots [] = Some []"
| "parse_slots (argument # rest) =
     (case (if argument = EMPTY_SLOT_MARKER then Some (replicate PUBLIC_KEY_SIZE 0) else parse_public_key argument) of
        None \<Rightarrow> None | Some slot \<Rightarrow> map_option ((#) slot) (parse_slots rest))"

definition run_top8_set :: "client_lib \<Rightarrow> bytes list \<Rightarrow> (unit, cli_context) command" where
  "run_top8_set lib arguments =
     cmd_bind (cmd_check (length arguments = TOP8_SLOT_COUNT)
       (ascii ''usage : top8-set <8 cles hex ou '' @ [39, 45, 39] @ ascii '' pour une case vide>'')) (\<lambda>_.
     cmd_bind (cmd_the (parse_slots arguments) bad_key_text) (\<lambda>slots.
     cmd_bind (exchange_status lib top8_set_request_write_to MT_top8_set_request \<lparr>ts_slots = slots\<rparr>) (\<lambda>_.
     print [ascii ''top 8 enregistre'', newline])))"

definition find_slot_detail :: "top8_response \<Rightarrow> nat \<Rightarrow> friend_record option" where
  "find_slot_detail response slot = find (\<lambda>record. frd_pubkey record = t8_slots response ! slot) (t8_details response)"

definition slot_line :: "top8_response \<Rightarrow> nat \<Rightarrow> bytes list" where
  "slot_line response index =
     [ascii ''  '', decimal_text (index + 1)] @
     (case find_slot_detail response index of
        Some detail \<Rightarrow> [ascii ''. @'', frd_handle detail, ascii ''  ('', frd_display_name detail, ascii '')'', newline]
      | None \<Rightarrow> [ascii ''. --'', newline])"

definition run_top8_get :: "client_lib \<Rightarrow> bytes list \<Rightarrow> (unit, cli_context) command" where
  "run_top8_get lib arguments =
     cmd_bind (cmd_check (arguments \<noteq> []) (ascii ''usage : top8-get <pubkey_hex>'')) (\<lambda>_.
     cmd_bind (cmd_the (parse_public_key (arguments ! 0)) bad_key_text) (\<lambda>target_pubkey.
     cmd_bind (exchange (cl_sodium lib) top8_get_request_write_to MT_top8_get_request
       \<lparr>tg_target_pubkey = target_pubkey\<rparr> top8_response_read_from MT_top8_response) (\<lambda>response.
     print (concat (map (slot_line response) [0..<length (t8_slots response)])))))"

section \<open>Private messages (\<open>cli_dm_commands.cpp\<close>)\<close>

definition own_identity :: "cli_context \<Rightarrow> identity_keypair" where
  "own_identity s = cs_identity (cx_session s)"

definition build_prekey_request :: "client_lib \<Rightarrow> identity_keypair \<Rightarrow> bytes + prekey_publish_request" where
  "build_prekey_request lib identity =
     (case derive_local_prekey lib identity of
        None \<Rightarrow> Inl (ascii ''derivation de la prekey impossible'')
      | Some (prekey, _) \<Rightarrow>
          (case sign_message lib identity (build_prekey_signing_input (ik_public identity) prekey) of
             None \<Rightarrow> Inl (ascii ''signature de la prekey impossible'')
           | Some signature \<Rightarrow> Inr \<lparr>pp_prekey = prekey, pp_signature = signature\<rparr>))"

definition run_prekey_publish :: "client_lib \<Rightarrow> (unit, cli_context) command" where
  "run_prekey_publish lib s =
     (case build_prekey_request lib (own_identity s) of
        Inl message \<Rightarrow> cmd_fail (Cli_text message) s
      | Inr request \<Rightarrow>
          cmd_bind (exchange_status lib prekey_publish_request_write_to MT_prekey_publish_request request) (\<lambda>_.
          print [ascii ''prekey publiee'', newline]) s)"

definition fetch_recipient_bundle :: "client_lib \<Rightarrow> bytes \<Rightarrow> (prekey_bundle_response, cli_context) command" where
  "fetch_recipient_bundle lib target =
     exchange (cl_sodium lib) prekey_fetch_request_write_to MT_prekey_fetch_request
       \<lparr>pf_target_pubkey = target\<rparr> prekey_bundle_response_read_from MT_prekey_bundle_response"

text \<open>\<open>generated\<close> is the ephemeral key pair, \<open>now\<close> the clock.\<close>

definition run_dm_send ::
  "client_lib \<Rightarrow> (bytes \<times> bytes) option \<Rightarrow> u64 \<Rightarrow> bytes list \<Rightarrow> (unit, cli_context) command" where
  "run_dm_send lib generated now arguments =
     cmd_bind (cmd_check (length arguments \<ge> 2) (ascii ''usage : dm-send <pubkey_hex> <texte>'')) (\<lambda>_.
     cmd_bind (cmd_the (parse_public_key (arguments ! 0)) (ascii ''cle publique invalide'')) (\<lambda>recipient_pubkey.
     cmd_bind (fetch_recipient_bundle lib recipient_pubkey) (\<lambda>offer s.
       case seal_direct_message lib generated now (own_identity s) offer (arguments ! 1) of
         Inl message \<Rightarrow> cmd_fail (Cli_text message) s
       | Inr ciphertext \<Rightarrow>
           cmd_bind (exchange_status lib dm_send_request_write_to MT_dm_send_request
             \<lparr>ds_recipient_pubkey = recipient_pubkey, ds_ciphertext = ciphertext\<rparr>) (\<lambda>_.
           print [ascii ''message chiffre depose ('', decimal_text (length ciphertext),
             ascii '' octets opaques pour le serveur)'', newline]) s)))"

text \<open>What is printed for one envelope, and whether it is acknowledged.\<close>

definition envelope_line :: "client_lib \<Rightarrow> identity_keypair \<Rightarrow> dm_envelope_record \<Rightarrow> bytes list" where
  "envelope_line lib identity envelope =
     [ascii ''  de '', take 16 (encode_hex (de_sender_pubkey envelope)), ascii ''... : ''] @
     (case open_direct_message lib identity (de_ciphertext envelope) of
        Inr (_, characters) \<Rightarrow> [characters, newline]
      | Inl failure \<Rightarrow> [ascii ''[illisible] '', failure, newline])"

definition opened_ids :: "client_lib \<Rightarrow> identity_keypair \<Rightarrow> dm_envelope_record list \<Rightarrow> u64 list" where
  "opened_ids lib identity envelopes =
     map de_id (filter (\<lambda>envelope. \<not> isl (open_direct_message lib identity (de_ciphertext envelope))) envelopes)"

definition run_dm_fetch :: "client_lib \<Rightarrow> (unit, cli_context) command" where
  "run_dm_fetch lib =
     cmd_bind (exchange (cl_sodium lib) dm_fetch_request_write_to MT_dm_fetch_request
       \<lparr>df_since_id = 0, df_limit = MAX_DM_BATCH_ITEMS\<rparr> dm_list_response_read_from MT_dm_list_response) (\<lambda>response s.
     cmd_bind (print ([decimal_text (length (dl_envelopes response)), ascii '' message(s) :'', newline] @
       concat (map (envelope_line lib (own_identity s)) (dl_envelopes response)))) (\<lambda>_ s.
       let ids = opened_ids lib (own_identity s) (dl_envelopes response) in
       if ids = [] then cmd_return () s
       else cmd_bind (cmd_send (send_typed_message (cl_sodium lib) dm_ack_request_write_to MT_dm_ack_request
              \<lparr>da_envelope_ids = ids\<rparr>) (ascii ''accuse de reception impossible'')) (\<lambda>_.
            cmd_bind (cmd_receive (receive_typed_message (cl_sodium lib) status_ok_response_read_from MT_status_ok)) (\<lambda>_.
            cmd_return ())) s) s)"

section \<open>Rules\<close>

lemma cmd_simps [simp]:
  "cmd_bind (cmd_return x) f s = f x s" "cmd_bind (cmd_fail e) f s = (Inl e, s)"
  "cmd_check True m = cmd_return ()" "cmd_check False m = cmd_fail (Cli_text m)"
  "cmd_the (Some v) m = cmd_return v" "cmd_the None m = cmd_fail (Cli_text m)"
  "cmd_fail e s = (Inl e, s)" "cmd_return x s = (Inr x, s)"
  by (simp_all add: cmd_bind_def cmd_return_def cmd_fail_def cmd_check_def cmd_the_def fun_eq_iff)

lemma cmd_bind_Inr: "m s = (Inr x, s1) \<Longrightarrow> cmd_bind m f s = f x s1"
  and cmd_bind_Inl: "m s = (Inl e, s1) \<Longrightarrow> cmd_bind m f s = (Inl e, s1)"
  by (simp_all add: cmd_bind_def)

lemma cmd_bind_assoc: "cmd_bind (cmd_bind m f) g = cmd_bind m (\<lambda>x. cmd_bind (f x) g)"
  by (simp add: cmd_bind_def fun_eq_iff split: prod.splits sum.splits)

lemma cmd_bind_InrE:
  assumes "cmd_bind m f s = (Inr y, s')"
  obtains x s1 where "m s = (Inr x, s1)" and "f x s1 = (Inr y, s')"
  using assms by (auto simp: cmd_bind_def split: prod.splits sum.splits)

lemma cmd_check_InrE:
  assumes "cmd_check c m s = (Inr x, s')"
  obtains "c" and "s' = s"
  using assms by (auto simp: cmd_check_def split: if_splits)

lemma cmd_the_InrE:
  assumes "cmd_the v m s = (Inr x, s')"
  obtains "v = Some x" and "s' = s"
  using assms by (cases v) auto

text \<open>
  A contract on what a command may do to its state, whatever its outcome: any relation that is
  reflexive and transitive is kept by a sequence when its parts keep it.
\<close>

definition obeys :: "('s \<Rightarrow> 's \<Rightarrow> bool) \<Rightarrow> ('a, 's) command \<Rightarrow> bool" where
  "obeys R m \<longleftrightarrow> (\<forall>s. R s (snd (m s)))"

locale command_contract =
  fixes R :: "'s \<Rightarrow> 's \<Rightarrow> bool"
  assumes contract_refl: "R s s"
    and contract_trans: "R s s1 \<Longrightarrow> R s1 s2 \<Longrightarrow> R s s2"
begin

lemma obeys_return: "obeys R (cmd_return x)"
  and obeys_fail: "obeys R (cmd_fail e)"
  and obeys_check: "obeys R (cmd_check c m)"
  and obeys_the: "obeys R (cmd_the v m)"
  by (simp_all add: obeys_def cmd_check_def cmd_the_def contract_refl split: option.split)

lemma obeys_bind:
  assumes "obeys R m" and "\<And>x. obeys R (f x)"
  shows "obeys R (cmd_bind m f)"
proof -
  have "R s (snd (cmd_bind m f s))" for s
  proof (cases "m s")
    case (Pair r s1)
    then have "R s s1" using assms(1) by (metis obeys_def snd_conv)
    then show ?thesis using Pair assms(2) contract_trans by (cases r) (auto simp: cmd_bind_def obeys_def)
  qed
  then show ?thesis by (simp add: obeys_def)
qed

lemma obeys_branch: "obeys R (\<lambda>s. if c s then m s else m' s)" if "obeys R m" "obeys R m'"
  using that by (simp add: obeys_def)

lemmas flow = obeys_return obeys_fail obeys_check obeys_the obeys_bind obeys_branch

end

end
