(* ===== verification/Cli_Process.thy ===== *)
theory Cli_Process
  imports Cli_Commands
begin

text \<open>
  The process of the command line client (\<^verbatim>\<open>client/cli_main.cpp\<close>, \<^verbatim>\<open>client/cli/cli_server_commands.cpp\<close>): the
  commands on the local registry, the choice of server and identity, and \<^verbatim>\<open>main\<close> with its exit codes. What
  the process draws from its surroundings (environment variables, random bytes, the clock, the network)
  is a record; the disk, the lines still to be typed and the output are its state.
\<close>

section \<open>Surroundings and state\<close>

record cli_surroundings =
  ce_lib :: client_lib
  ce_environment :: "bytes \<Rightarrow> bytes option"
  ce_network :: network
  ce_handshake_keys :: "(bytes \<times> bytes) option"
  ce_ephemeral_keys :: "(bytes \<times> bytes) option"
  ce_identity_keys :: "identity_keypair option"
  ce_entropy :: bytes
  ce_salt :: bytes
  ce_nonce :: bytes
  ce_now :: u64

record cli_process =
  cp_disk :: disk
  cp_input :: "bytes list"
  cp_output :: bytes

definition say :: "bytes list \<Rightarrow> (unit, cli_process) command" where
  "say parts p = (Inr (), p\<lparr>cp_output := cp_output p @ concat parts\<rparr>)"

definition on_disk :: "(disk \<Rightarrow> (store_error + 'a) \<times> disk) \<Rightarrow> ('a, cli_process) command" where
  "on_disk f p =
     (case f (cp_disk p) of
        (Inl e, d) \<Rightarrow> (Inl (Cli_store e), p\<lparr>cp_disk := d\<rparr>) | (Inr x, d) \<Rightarrow> (Inr x, p\<lparr>cp_disk := d\<rparr>))"

definition from_disk :: "(disk \<Rightarrow> store_error + 'a) \<Rightarrow> ('a, cli_process) command" where
  "from_disk f = on_disk (\<lambda>d. (f d, d))"

text \<open>\<^verbatim>\<open>std::getline\<close> on the standard input; \<open>None\<close> at its end.\<close>

definition type_line :: "cli_process \<Rightarrow> bytes option \<times> cli_process" where
  "type_line p = (case cp_input p of [] \<Rightarrow> (None, p) | line # rest \<Rightarrow> (Some line, p\<lparr>cp_input := rest\<rparr>))"

definition ask_passphrase :: "cli_surroundings \<Rightarrow> (bytes, cli_process) command" where
  "ask_passphrase w p =
     (case ce_environment w (ascii ''HYPERCOM_PASSPHRASE'') of
        Some passphrase \<Rightarrow> (Inr passphrase, p)
      | None \<Rightarrow>
          (case type_line (snd (say [ascii ''passphrase : ''] p)) of
             (typed, p1) \<Rightarrow>
               (case read_passphrase None typed of
                  None \<Rightarrow> (Inl (Cli_text (ascii ''passphrase requise'')), p1) | Some passphrase \<Rightarrow> (Inr passphrase, p1))))"

definition usage_text :: bytes where
  "usage_text = concat (map (\<lambda>line. ascii line @ newline)
     [''hypercom_cli -- client en ligne de commande'',
      '''',
      ''  --host <adresse>       defaut 127.0.0.1'',
      ''  --port <port>          defaut 7717'',
      ''  --server-key <hex>     cle statique du serveur, 64 caracteres'',
      ''  --connect-file <chemin> fichier host+port+server-key partage'',
      ''                          par l'administrateur (ecrase par tout'',
      ''                          flag place apres sur la ligne)'',
      ''  --identity <chemin>    fichier de cle privee chiffree'',
      ''  --server <nom>         serveur du registre a viser'',
      ''  --master-seed <chemin> graine dont derivent les identites'',
      ''  --servers <chemin>     registre chiffre des serveurs'',
      ''  --tor                  passe par Tor (127.0.0.1:9050). Implicite'',
      ''                          si --host se termine par .onion'',
      ''  --socks5 <hote:port>   proxy SOCKS5 autre que celui par defaut'',
      ''  --direct               force la connexion directe, sans proxy'',
      ''  --replay-intro         (client graphique) rejoue l'accueil'',
      '''',
      ''Commandes de registre (aucune connexion) :'',
      ''  server-add <hypercom://hote:port#cle> [nom]'',
      ''  server-list'',
      ''  server-import <nom> <chemin_identite>'',
      ''  seed-restore           recree la graine depuis les 12 mots'',
      ''                          (HYPERCOM_RECOVERY_PHRASE ou demandes)'',
      '''',
      ''Commandes :'',
      ''  register <pseudo>'',
      ''  whoami'',
      ''  forum-create <nom> <description>'',
      ''  forum-list'',
      ''  post <forum_id> <titre> <corps>'',
      ''  posts <forum_id>'',
      ''  thread <post_id>'',
      ''  comment <post_id> <parent_id|0> <corps>'',
      ''  post-delete <post_id>        retire SON propre post'',
      ''  comment-delete <comment_id>  retire SON propre commentaire'',
      ''  profile-set <nom_affiche> <bio>'',
      ''  profile-get <pubkey_hex>'',
      ''  friend-add <pubkey_hex>'',
      ''  friends'',
      ''  prekey-publish'',
      ''  dm-send <pubkey_hex> <texte>'',
      ''  dm-fetch'',
      ''  report-post <post_id> [motif]'',
      ''  report-account <pubkey_hex> [motif]'',
      '''',
      ''La passphrase se lit dans HYPERCOM_PASSPHRASE, ou est demandee.''])"

section \<open>The local registry (\<open>cli_server_commands.cpp\<close>)\<close>

definition load_existing :: "cli_surroundings \<Rightarrow> cli_options \<Rightarrow> bytes \<Rightarrow> (server_entry list, cli_process) command" where
  "load_existing w options passphrase p =
     (if \<not> is_regular_file (op_registry_path options) (cp_disk p) then cmd_return [] p
      else from_disk (registry_load (ce_lib w) (op_registry_path options) passphrase) p)"

definition save_registry :: "cli_surroundings \<Rightarrow> cli_options \<Rightarrow> bytes \<Rightarrow> server_entry list \<Rightarrow> (unit, cli_process) command" where
  "save_registry w options passphrase entries =
     on_disk (registry_save (ce_lib w) (ce_salt w) (ce_nonce w) (op_registry_path options) passphrase entries)"

definition find_by_label :: "bytes \<Rightarrow> server_entry list \<Rightarrow> server_entry option" where
  "find_by_label label entries = find (\<lambda>entry. se_label entry = label) entries"

definition decode_key :: "bytes \<Rightarrow> bytes option" where
  "decode_key hex =
     (case decode_hex hex of
        None \<Rightarrow> None | Some decoded \<Rightarrow> if length decoded = X25519_PUBLIC_KEY_SIZE then Some decoded else None)"

definition is_registry_command :: "bytes \<Rightarrow> bool" where
  "is_registry_command command \<longleftrightarrow>
     command = ascii ''server-add'' \<or> command = ascii ''server-list'' \<or>
     command = ascii ''server-import'' \<or> command = ascii ''seed-restore''"

definition print_recovery_phrase :: "bytes \<Rightarrow> (unit, cli_process) command" where
  "print_recovery_phrase phrase =
     say [newline, ascii ''PHRASE DE RECUPERATION (12 mots) -- a noter MAINTENANT :'', newline, newline,
       ascii ''    '', phrase, newline, newline,
       ascii ''Elle ne sera plus jamais affichee. Avec elle, on retrouve toutes vos identites'', newline,
       ascii ''sur tous les serveurs ; sans elle, perdre hypercom_master.key les perd toutes.'', newline,
       ascii ''Ne la partagez avec personne : qui la connait EST vous.'', newline, newline]"

definition ask_phrase :: "cli_surroundings \<Rightarrow> (bytes, cli_process) command" where
  "ask_phrase w p =
     (case ce_environment w (ascii ''HYPERCOM_RECOVERY_PHRASE'') of
        Some phrase \<Rightarrow> (Inr phrase, p)
      | None \<Rightarrow>
          (case type_line (snd (say [ascii ''phrase de recuperation (12 mots) : ''] p)) of
             (None, p1) \<Rightarrow> (Inl (Cli_text (ascii ''phrase de recuperation requise'')), p1)
           | (Some phrase, p1) \<Rightarrow> (Inr phrase, p1)))"

definition run_seed_restore :: "cli_surroundings \<Rightarrow> cli_options \<Rightarrow> (unit, cli_process) command" where
  "run_seed_restore w options =
     cmd_bind (ask_phrase w) (\<lambda>phrase.
     cmd_bind (ask_passphrase w) (\<lambda>passphrase.
     cmd_bind (on_disk (restore_seed (ce_lib w) (ce_salt w) (ce_nonce w) (op_master_seed_path options) passphrase phrase)) (\<lambda>_.
     say [ascii ''graine restauree dans '', op_master_seed_path options,
       ascii '' : les identites de vos serveurs sont retrouvees.'', newline])))"

definition invited_entry :: "cli_options \<Rightarrow> bytes list \<Rightarrow> invite_link \<Rightarrow> bytes \<Rightarrow> server_entry" where
  "invited_entry options arguments link server_key =
     \<lparr>se_label = (if length arguments > 1 then arguments ! 1 else iv_host link),
      se_endpoint = \<lparr>ep_host = iv_host link, ep_port = iv_port link,
        ep_socks5_host = op_socks5_host options, ep_socks5_port = op_socks5_port options\<rparr>,
      se_server_key = server_key, se_source = Derived, se_imported_identity_path = [], se_trust_acknowledged = False\<rparr>"

definition parse_invitation :: "bytes \<Rightarrow> (invite_link, cli_process) command" where
  "parse_invitation line p =
     (case parse_invite_link line of Inl e \<Rightarrow> (Inl (Cli_invite e), p) | Inr link \<Rightarrow> (Inr link, p))"

definition run_server_add :: "cli_surroundings \<Rightarrow> cli_options \<Rightarrow> bytes list \<Rightarrow> (unit, cli_process) command" where
  "run_server_add w options arguments =
     cmd_bind (cmd_check (arguments \<noteq> []) (ascii ''usage : server-add <hypercom://hote:port#cle> [nom]'')) (\<lambda>_.
     cmd_bind (parse_invitation (arguments ! 0)) (\<lambda>link.
     cmd_bind (cmd_the (decode_key (iv_server_key_hex link)) (ascii ''cle du serveur illisible'')) (\<lambda>server_key.
     let entry = invited_entry options arguments link server_key in
     cmd_bind (ask_passphrase w) (\<lambda>passphrase.
     cmd_bind (load_existing w options passphrase) (\<lambda>entries.
     cmd_bind (cmd_check (find_by_label (se_label entry) entries = None)
       (ascii ''un serveur porte deja le nom '' @ se_label entry)) (\<lambda>_.
     cmd_bind (save_registry w options passphrase (entries @ [entry])) (\<lambda>_.
     say [ascii ''serveur enregistre : '', se_label entry, newline])))))))"

definition entry_line :: "server_entry \<Rightarrow> bytes list" where
  "entry_line entry =
     [ascii ''  '', se_label entry, ascii ''  '', ep_host (se_endpoint entry), [colon],
      decimal_text (unat (ep_port (se_endpoint entry))), ascii ''  '', take 16 (encode_hex (se_server_key entry)),
      ascii ''  identite '', if se_source entry = Imported then ascii ''importee'' else ascii ''derivee'', newline]"

definition run_server_list :: "cli_surroundings \<Rightarrow> cli_options \<Rightarrow> (unit, cli_process) command" where
  "run_server_list w options =
     cmd_bind (ask_passphrase w) (\<lambda>passphrase.
     cmd_bind (load_existing w options passphrase) (\<lambda>entries.
     say ([decimal_text (length entries), ascii '' serveur(s) :'', newline] @ concat (map entry_line entries))))"

text \<open>The entry found is changed where it stands.\<close>

fun attach_identity :: "bytes \<Rightarrow> bytes \<Rightarrow> server_entry list \<Rightarrow> server_entry list option" where
  "attach_identity label path [] = None"
| "attach_identity label path (entry # rest) =
     (if se_label entry = label
      then Some (entry\<lparr>se_source := Imported, se_imported_identity_path := path\<rparr> # rest)
      else map_option ((#) entry) (attach_identity label path rest))"

definition run_server_import :: "cli_surroundings \<Rightarrow> cli_options \<Rightarrow> bytes list \<Rightarrow> (unit, cli_process) command" where
  "run_server_import w options arguments =
     cmd_bind (cmd_check (length arguments \<ge> 2) (ascii ''usage : server-import <nom> <chemin_identite>'')) (\<lambda>_.
     cmd_bind (ask_passphrase w) (\<lambda>passphrase.
     cmd_bind (load_existing w options passphrase) (\<lambda>entries.
     cmd_bind (cmd_the (attach_identity (arguments ! 0) (arguments ! 1) entries)
       (ascii ''serveur inconnu : '' @ arguments ! 0)) (\<lambda>changed.
     cmd_bind (save_registry w options passphrase changed) (\<lambda>_.
     say [ascii ''identite rattachee a '', arguments ! 0, newline])))))"

section \<open>Server and identity (\<open>cli_main.cpp\<close>)\<close>

definition decode_server_key :: "bytes \<Rightarrow> (bytes, cli_process) command" where
  "decode_server_key hex = cmd_the (decode_key hex) (ascii ''--server-key doit faire 64 caracteres hexadecimaux'')"

definition resolve_server :: "cli_surroundings \<Rightarrow> cli_options \<Rightarrow> bytes \<Rightarrow> (server_entry, cli_process) command" where
  "resolve_server w options passphrase =
     (if op_server_label options = [] then
        cmd_bind (decode_server_key (op_server_key_hex options)) (\<lambda>server_key.
        cmd_return \<lparr>se_label = op_host options,
          se_endpoint = \<lparr>ep_host = op_host options, ep_port = op_port options,
            ep_socks5_host = op_socks5_host options, ep_socks5_port = op_socks5_port options\<rparr>,
          se_server_key = server_key, se_source = Imported, se_imported_identity_path = op_identity_path options,
          se_trust_acknowledged = False\<rparr>)
      else
        cmd_bind (from_disk (registry_load (ce_lib w) (op_registry_path options) passphrase)) (\<lambda>entries.
        cmd_the (find_by_label (op_server_label options) entries)
          (ascii ''serveur inconnu dans le registre : '' @ op_server_label options)))"

definition resolve_seed :: "cli_surroundings \<Rightarrow> cli_options \<Rightarrow> bytes \<Rightarrow> (bytes, cli_process) command" where
  "resolve_seed w options passphrase p =
     (if is_regular_file (op_master_seed_path options) (cp_disk p)
      then from_disk (unlock_seed (ce_lib w) (op_master_seed_path options) passphrase) p
      else cmd_bind (on_disk (create_seed (ce_lib w) (ce_entropy w) (ce_salt w) (ce_nonce w) (op_master_seed_path options) passphrase))
             (\<lambda>(seed, phrase). cmd_bind (print_recovery_phrase phrase) (\<lambda>_. cmd_return seed)) p)"

definition resolve_identity ::
  "cli_surroundings \<Rightarrow> cli_options \<Rightarrow> server_entry \<Rightarrow> bytes \<Rightarrow> (identity_keypair, cli_process) command" where
  "resolve_identity w options entry passphrase p =
     (if se_source entry = Imported then
        (if is_regular_file (se_imported_identity_path entry) (cp_disk p)
         then from_disk (unlock_identity (ce_lib w) (se_imported_identity_path entry) passphrase) p
         else cmd_bind (say [ascii ''aucune identite dans '', se_imported_identity_path entry,
                  ascii '', creation d'une nouvelle paire de cles.'', newline,
                  ascii ''ATTENTION : cette cle EST le compte. Perdue, elle ne se recupere pas, et personne ne peut la reinitialiser.'',
                  newline]) (\<lambda>_.
              on_disk (create_identity (ce_lib w) (ce_identity_keys w) (ce_salt w) (ce_nonce w)
                (se_imported_identity_path entry) passphrase)) p)
      else
        cmd_bind (resolve_seed w options passphrase) (\<lambda>seed.
        cmd_the (derive_server_identity (ce_lib w) seed (se_server_key entry)) (ascii ''derivation de l'identite impossible'')) p)"

section \<open>Commands with a session\<close>

definition run_whoami :: "(unit, cli_context) command" where
  "run_whoami s =
     print [ascii ''@'', cs_handle (cx_session s), newline, encode_hex (ik_public (own_identity s)), newline] s"

definition dispatch_command :: "cli_surroundings \<Rightarrow> cli_options \<Rightarrow> (unit, cli_context) command" where
  "dispatch_command w options =
     (let lib = ce_lib w; command = op_command options; arguments = op_arguments options in
      if command = ascii ''whoami'' then run_whoami
      else if command = ascii ''forum-create'' then run_forum_create lib arguments
      else if command = ascii ''forum-list'' then run_forum_list lib
      else if command = ascii ''post'' then run_post_create lib arguments
      else if command = ascii ''posts'' then run_post_list lib arguments
      else if command = ascii ''thread'' then run_thread_fetch lib arguments
      else if command = ascii ''comment'' then run_comment_create lib arguments
      else if command = ascii ''post-delete'' then run_post_delete lib arguments
      else if command = ascii ''comment-delete'' then run_comment_delete lib arguments
      else if command = ascii ''profile-set'' then run_profile_set lib arguments
      else if command = ascii ''profile-get'' then run_profile_get lib arguments
      else if command = ascii ''friend-add'' then run_friend_add lib arguments
      else if command = ascii ''friends'' then run_friend_list lib
      else if command = ascii ''prekey-publish'' then run_prekey_publish lib
      else if command = ascii ''top8-set'' then run_top8_set lib arguments
      else if command = ascii ''top8-get'' then run_top8_get lib arguments
      else if command = ascii ''dm-send'' then run_dm_send lib (ce_ephemeral_keys w) (ce_now w) arguments
      else if command = ascii ''dm-fetch'' then run_dm_fetch lib
      else if command = ascii ''report-post'' then run_report_post lib arguments
      else if command = ascii ''report-account'' then run_report_account lib arguments
      else cmd_fail (Cli_text (ascii ''commande inconnue : '' @ command)))"

definition on_session ::
  "(client_session \<Rightarrow> (client_error + unit) \<times> client_session) \<Rightarrow> (unit, cli_context) command" where
  "on_session f s =
     (case f (cx_session s) of
        (Inl e, session) \<Rightarrow> (Inl (Cli_network e), s\<lparr>cx_session := session\<rparr>)
      | (Inr _, session) \<Rightarrow> (Inr (), s\<lparr>cx_session := session\<rparr>))"

definition open_connection :: "cli_surroundings \<Rightarrow> server_endpoint \<Rightarrow> (unit, cli_context) command" where
  "open_connection w endpoint =
     cmd_receive (open_session (cl_sodium (ce_lib w)) (ce_network w) (ce_handshake_keys w) endpoint)"

definition converse :: "cli_surroundings \<Rightarrow> cli_options \<Rightarrow> server_endpoint \<Rightarrow> (unit, cli_context) command" where
  "converse w options endpoint =
     cmd_bind (open_connection w endpoint) (\<lambda>_.
     cmd_bind (on_session (authenticate (ce_lib w))) (\<lambda>_ s.
     if op_command options = ascii ''register'' then
       cmd_bind (cmd_check (op_arguments options \<noteq> []) (ascii ''usage : register <pseudo>'')) (\<lambda>_.
       cmd_bind (on_session (register_handle (ce_lib w) (op_arguments options ! 0))) (\<lambda>_ s.
       print [ascii ''compte cree : @'', cs_handle (cx_session s), newline] s)) s
     else if cs_needs_registration (cx_session s) then
       cmd_fail (Cli_text (ascii ''cette cle n'a pas encore de compte : lancer d'abord 'register <pseudo>''  @ [39])) s
     else dispatch_command w options s))"

text \<open>The connection and the session live as long as the command; their end is the second part of the result.\<close>

definition start_context :: "client_lib \<Rightarrow> server_entry \<Rightarrow> identity_keypair \<Rightarrow> bytes \<Rightarrow> cli_context" where
  "start_context lib entry identity printed =
     \<lparr>cx_session = new_client_session (new_server_connection (cl_sodium lib) (se_server_key entry)) identity,
      cx_output = printed\<rparr>"

definition run_cli :: "cli_surroundings \<Rightarrow> cli_options \<Rightarrow> (unit, cli_process) command" where
  "run_cli w options =
     cmd_bind (ask_passphrase w) (\<lambda>passphrase.
     cmd_bind (resolve_server w options passphrase) (\<lambda>entry.
     cmd_bind (resolve_identity w options entry passphrase) (\<lambda>identity p.
       case converse w options (se_endpoint entry) (start_context (ce_lib w) entry identity (cp_output p)) of
         (result, s) \<Rightarrow> (result, p\<lparr>cp_output := cx_output s\<rparr>))))"

section \<open>Main\<close>

definition run_registry_command :: "cli_surroundings \<Rightarrow> cli_options \<Rightarrow> (unit, cli_process) command" where
  "run_registry_command w options =
     (if op_command options = ascii ''server-add'' then run_server_add w options (op_arguments options)
      else if op_command options = ascii ''server-list'' then run_server_list w options
      else if op_command options = ascii ''seed-restore'' then run_seed_restore w options
      else run_server_import w options (op_arguments options))"

definition exit_with :: "nat \<Rightarrow> (cli_error + unit) \<times> cli_process \<Rightarrow> nat \<times> cli_error option \<times> cli_process" where
  "exit_with code r = (case r of (Inl e, p) \<Rightarrow> (code, Some e, p) | (Inr _, p) \<Rightarrow> (0, None, p))"

text \<open>The exit code, what goes to the error output, and the state.\<close>

definition cli_main ::
  "cli_surroundings \<Rightarrow> bool \<Rightarrow> bytes list \<Rightarrow> cli_process \<Rightarrow> nat \<times> cli_error option \<times> cli_process" where
  "cli_main w sodium_ready args p =
     (if \<not> sodium_ready then (1, Some (Cli_text (ascii ''libsodium n'a pas pu s'initialiser'')), p)
      else case parse_cli_options (dk_files (cp_disk p)) args default_options True True of
        Inl e \<Rightarrow> (2, Some (Cli_option e), snd (say [usage_text] p))
      | Inr options \<Rightarrow>
          if is_registry_command (op_command options) then exit_with 3 (run_registry_command w options p)
          else exit_with 4 (run_cli w options p))"

end
