(* ===== verification/Cli_Registry.thy ===== *)
theory Cli_Registry
  imports Cli_Process
begin

text \<open>
  What the commands on the local registry do to the files, and that a server that was added is found
  again under its name.
\<close>

section \<open>Adding a server\<close>

lemma from_disk_Inr: "from_disk f p = (Inr x, p') \<longleftrightarrow> f (cp_disk p) = Inr x \<and> p' = p"
  by (auto simp: from_disk_def on_disk_def split: sum.splits)

lemma on_disk_Inr: "on_disk f p = (Inr x, p') \<longleftrightarrow> (\<exists>d. f (cp_disk p) = (Inr x, d) \<and> p' = p\<lparr>cp_disk := d\<rparr>)"
  by (auto simp: on_disk_def split: sum.splits prod.splits)

lemma find_append: "find P (xs @ ys) = (case find P xs of None \<Rightarrow> find P ys | Some x \<Rightarrow> Some x)"
  by (induction xs) auto

lemma server_add_Inr:
  assumes "run_server_add w options (line # rest) p = (Inr (), p')"
    and "ce_environment w (ascii ''HYPERCOM_PASSPHRASE'') = Some passphrase"
    and "parse_invite_link line = Inr link" and "decode_key (iv_server_key_hex link) = Some key"
    and "entry = invited_entry options (line # rest) link key"
  obtains entries d where "load_existing w options passphrase p = (Inr entries, p)" and "find_by_label (se_label entry) entries = None"
    and "registry_save (ce_lib w) (ce_salt w) (ce_nonce w) (op_registry_path options) passphrase (entries @ [entry]) (cp_disk p) = (Inr (), d)"
    and "cp_disk p' = d"
proof -
  have ask: "ask_passphrase w q = (Inr passphrase, q)" for q using assms(2) by (simp add: ask_passphrase_def)
  have parse: "parse_invitation line q = (Inr link, q)" for q using assms(3) by (simp add: parse_invitation_def)
  obtain entries q q' where l: "load_existing w options passphrase p = (Inr entries, q)" "find_by_label (se_label entry) entries = None"
    and s: "save_registry w options passphrase (entries @ [entry]) q = (Inr (), q')" "cp_disk p' = cp_disk q'"
    using assms(1) unfolding run_server_add_def
    by (auto simp: assms(4) cmd_bind_Inr [OF parse] cmd_bind_Inr [OF ask] Let_def assms(5) say_def elim!: cmd_bind_InrE cmd_check_InrE)
  have "q = p" using l(1) by (auto simp: load_existing_def from_disk_Inr split: if_splits)
  moreover obtain d where "registry_save (ce_lib w) (ce_salt w) (ce_nonce w) (op_registry_path options) passphrase (entries @ [entry]) (cp_disk q) = (Inr (), d)"
    "cp_disk p' = d"
    using s by (auto simp: save_registry_def on_disk_Inr)
  ultimately show thesis using that l by blast
qed

lemma resolve_named:
  "label \<noteq> [] \<Longrightarrow> fst (resolve_server w (options\<lparr>op_server_label := label\<rparr>) passphrase p) = Inr e \<longleftrightarrow>
     (\<exists>entries. registry_load (ce_lib w) (op_registry_path options) passphrase (cp_disk p) = Inr entries \<and> find_by_label label entries = Some e)"
  by (auto simp: resolve_server_def cmd_bind_def from_disk_def on_disk_def cmd_the_def cmd_fail_def cmd_return_def
      split: sum.splits option.splits)

lemma load_existing_Inr:
  "load_existing w options passphrase p = (Inr entries, p) \<Longrightarrow>
     registry_load (ce_lib w) (op_registry_path options) passphrase (cp_disk p) = Inr entries \<or>
     entries = [] \<and> registry_load (ce_lib w) (op_registry_path options) passphrase (cp_disk p) = Inl Unreadable"
  by (auto simp: load_existing_def from_disk_Inr registry_load_def is_regular_file_def read_sealed_file_def split: if_splits option.splits)

lemma loaded_entries_fit: "registry_load lib path passphrase d = Inr entries \<Longrightarrow> list_all entry_fits entries"
  using parse_entries_fit by (auto simp: registry_load_def split: option.splits)


definition toy_surroundings :: cli_surroundings where
  "toy_surroundings =
     \<lparr>ce_lib = toy_client, ce_environment = (\<lambda>_. Some (ascii ''mot'')), ce_network = (\<lambda>_ _. None), ce_handshake_keys = None,
      ce_ephemeral_keys = None, ce_identity_keys = None, ce_entropy = replicate 16 1, ce_salt = replicate 16 5,
      ce_nonce = replicate 24 6, ce_now = 0\<rparr>"

definition toy_process :: "disk \<Rightarrow> cli_process" where
  "toy_process d = \<lparr>cp_disk = d, cp_input = [], cp_output = []\<rparr>"

definition toy_invitation :: bytes where
  "toy_invitation = format_invite_link (ascii ''a.onion'') 80 (replicate 64 48)"

definition toy_link_entry :: server_entry where
  "toy_link_entry = invited_entry default_options [toy_invitation] \<lparr>iv_host = ascii ''a.onion'', iv_port = 80, iv_server_key_hex = replicate 64 48\<rparr> (replicate 32 0)"

lemma toy_invitation_parses:
  "parse_invite_link toy_invitation = Inr \<lparr>iv_host = ascii ''a.onion'', iv_port = 80, iv_server_key_hex = replicate 64 48\<rparr>"
  "decode_key (replicate 64 48) = Some (replicate 32 0)" "entry_fits toy_link_entry"
proof -
  let ?l = "\<lparr>iv_host = ascii ''a.onion'', iv_port = 80, iv_server_key_hex = replicate 64 48\<rparr>"
  have "is_hex_key (replicate 64 48)" by (simp add: is_hex_key_def list_all_iff)
  then show "parse_invite_link toy_invitation = Inr ?l"
    using format_invite_link_parses [of ?l] by (simp add: toy_invitation_def ascii_def hash_sign_def)
  show "decode_key (replicate 64 48) = Some (replicate 32 0)" by code_simp
  show "entry_fits toy_link_entry"
    by (simp add: entry_fits_def toy_link_entry_def invited_entry_def text_ok_def default_options_def ascii_def validate_text_field_def
        validate_from.simps is_allowed_ascii_def measure_utf8_sequence_def)
qed


section \<open>Files\<close>

text \<open>A file that is there stays as it is.\<close>

definition keeps_file :: "bytes \<Rightarrow> cli_process \<Rightarrow> cli_process \<Rightarrow> bool" where
  "keeps_file path p p' \<longleftrightarrow> (dk_files (cp_disk p) path \<noteq> None \<longrightarrow> dk_files (cp_disk p') path = dk_files (cp_disk p) path)"

interpretation kept: command_contract "keeps_file path" for path
  by unfold_locales (auto simp: keeps_file_def)

lemma kept_disk:
  "(\<And>d. dk_files d path \<noteq> None \<Longrightarrow> dk_files (snd (f d)) path = dk_files d path) \<Longrightarrow> obeys (keeps_file path) (on_disk f)"
  by (auto simp: obeys_def keeps_file_def on_disk_def split: prod.splits sum.splits) (metis option.distinct(1) snd_conv)+

lemma kept_read: "obeys (keeps_file path) (from_disk f)"
  unfolding from_disk_def by (rule kept_disk) simp

lemma kept_talk: "obeys (keeps_file path) (say parts)" "obeys (keeps_file path) (ask_passphrase w)" "obeys (keeps_file path) (ask_phrase w)"
  "obeys (keeps_file path) (parse_invitation line)" "obeys (keeps_file path) (print_recovery_phrase phrase)"
  by (auto simp: obeys_def keeps_file_def say_def ask_passphrase_def ask_phrase_def type_line_def parse_invitation_def
      print_recovery_phrase_def split: option.splits list.splits sum.splits)

lemma kept_secrets:
  "obeys (keeps_file path) (on_disk (create_seed lib entropy salt nonce q passphrase))"
  "obeys (keeps_file path) (on_disk (restore_seed lib salt nonce q passphrase phrase))"
  "obeys (keeps_file path) (on_disk (create_identity lib generated salt nonce q passphrase))"
  using secrets_never_overwritten by (intro kept_disk; fastforce)+

lemma kept_save: "path \<noteq> op_registry_path options \<Longrightarrow> obeys (keeps_file path) (save_registry w options passphrase entries)"
  unfolding save_registry_def
  by (rule kept_disk) (auto simp: registry_save_def write_sealed_file_def split: option.splits prod.splits)

lemma kept_load: "obeys (keeps_file path) (load_existing w options passphrase)"
  unfolding load_existing_def by (intro kept.flow kept_read)

lemmas kept_rules = kept.flow kept_read kept_talk kept_secrets kept_save kept_load

lemma kept_registry_command:
  assumes "path \<noteq> op_registry_path options"
  shows "obeys (keeps_file path) (run_registry_command w options)"
  unfolding run_registry_command_def run_server_add_def run_server_list_def run_seed_restore_def run_server_import_def Let_def
  using assms by (auto intro!: kept_rules)

lemma kept_resolve: "obeys (keeps_file path) (resolve_server w options passphrase)"
  "obeys (keeps_file path) (resolve_seed w options passphrase)"
  "obeys (keeps_file path) (resolve_identity w options entry passphrase)"
proof -
  show r: "obeys (keeps_file path) (resolve_seed w options passphrase)"
    unfolding resolve_seed_def by (intro kept_rules) (auto intro!: kept_rules split: prod.split)
  show "obeys (keeps_file path) (resolve_server w options passphrase)"
    unfolding resolve_server_def decode_server_key_def by (auto intro!: kept_rules)
  show "obeys (keeps_file path) (resolve_identity w options entry passphrase)"
    unfolding resolve_identity_def by (intro kept_rules r)
qed

lemma kept_run: "obeys (keeps_file path) (run_cli w options)"
proof -
  have "obeys (keeps_file path) (\<lambda>p. case converse w options endpoint (start_context lib entry identity (cp_output p)) of
      (result, s) \<Rightarrow> (result, p\<lparr>cp_output := cx_output s\<rparr>))" for endpoint lib entry identity
    by (auto simp: obeys_def keeps_file_def split: prod.split)
  then show ?thesis unfolding run_cli_def by (intro kept_rules kept_resolve)
qed

text \<open>
  C26: the client destroys nothing. Whatever the arguments, the state of the disk, the answers of the
  server and the faults on the way, a run of the client leaves every file that exists as it is, secrets
  first of all, except the registry of servers that the options name.
\<close>

theorem cli_keeps_files:
  assumes "cli_main w sodium_ready args p = (code, failure, p')" and "dk_files (cp_disk p) path = Some content"
    and "\<And>options. parse_cli_options (dk_files (cp_disk p)) args default_options True True = Inr options \<Longrightarrow>
      path \<noteq> op_registry_path options"
  shows "dk_files (cp_disk p') path = Some content"
proof -
  have e: "keeps_file path p (snd (snd (exit_with n r)))" if "keeps_file path p (snd r)" for n r
    using that by (auto simp: exit_with_def split: prod.split sum.split)
  have "keeps_file path p p'"
  proof (cases "parse_cli_options (dk_files (cp_disk p)) args default_options True True")
    case (Inl a)
    then show ?thesis using assms(1) by (auto simp: cli_main_def keeps_file_def say_def split: if_splits)
  next
    case (Inr options)
    then have "keeps_file path p (snd (run_registry_command w options p))" "keeps_file path p (snd (run_cli w options p))"
      using kept_registry_command [OF assms(3)] kept_run by (auto simp: obeys_def)
    then have "keeps_file path p (snd (snd (cli_main w sodium_ready args p)))"
      using e Inr kept.contract_refl by (simp add: cli_main_def)
    then show ?thesis using assms(1) by simp
  qed
  then show ?thesis using assms(2) by (simp add: keeps_file_def)
qed

lemma restore_options:
  "parse_cli_options files [ascii ''seed-restore''] default_options True True = Inr (default_options\<lparr>op_command := ascii ''seed-restore''\<rparr>)"
  by (simp add: parse_cli_options_def apply_argument_def default_options_def route_onion_def ends_with_def ONION_SUFFIX_def ascii_def)

theorem cli_keeps_files_witness:
  "\<exists>code failure p'. cli_main toy_surroundings True [ascii ''seed-restore'']
       (toy_process (empty_disk\<lparr>dk_files := [ascii ''hypercom_master.key'' \<mapsto> [9]]\<rparr>)) = (code, failure, p') \<and>
     dk_files (cp_disk p') (ascii ''hypercom_master.key'') = Some [9]"
proof -
  let ?p = "toy_process (empty_disk\<lparr>dk_files := [ascii ''hypercom_master.key'' \<mapsto> [9]]\<rparr>)"
  obtain code failure p' where r: "cli_main toy_surroundings True [ascii ''seed-restore''] ?p = (code, failure, p')"
    by (metis prod_cases3)
  have "dk_files (cp_disk p') (ascii ''hypercom_master.key'') = Some [9]"
  proof (rule cli_keeps_files [OF r])
    show "dk_files (cp_disk ?p) (ascii ''hypercom_master.key'') = Some [9]" by (simp add: toy_process_def)
    show "ascii ''hypercom_master.key'' \<noteq> op_registry_path options"
      if "parse_cli_options (dk_files (cp_disk ?p)) [ascii ''seed-restore''] default_options True True = Inr options" for options
      using that unfolding restore_options by (auto simp: default_options_def ascii_def)
  qed
  then show ?thesis using r by blast
qed

end
