(* ===== verification/Client_Properties.thy ===== *)
theory Client_Properties
  imports Client_Connection
begin

text \<open>
  What the client's connection guarantees (\<^verbatim>\<open>Client_Connection\<close>): the stream from the server is received
  frame by frame however the network cuts it, the session with the server whose key is pinned is
  established with the server's keys, and the challenge is answered.
\<close>

section \<open>The stream\<close>

text \<open>
  The bytes that are still to be read: those in the buffer and those the network holds. The events that
  carry them are chunks of a size one call returns, possibly with time-outs in between.
\<close>

definition events_bytes :: "recv_event list \<Rightarrow> bytes" where
  "events_bytes es = concat (map (\<lambda>e. case e of Received bs \<Rightarrow> bs | _ \<Rightarrow> []) es)"

definition pending :: "server_connection \<Rightarrow> bytes" where
  "pending c = sn_input_buffer c @ events_bytes (ts_incoming (sn_socket c))"

definition chunk_event :: "recv_event \<Rightarrow> bool" where
  "chunk_event e \<longleftrightarrow> (case e of Received bs \<Rightarrow> bs \<noteq> [] \<and> length bs \<le> CLIENT_READ_CHUNK_SIZE | Silence \<Rightarrow> True | _ \<Rightarrow> False)"

definition link_up :: "server_connection \<Rightarrow> bool" where
  "link_up c \<longleftrightarrow> ts_connected (sn_socket c) \<and> list_all chunk_event (ts_incoming (sn_socket c))"

text \<open>Only the reading side of the connection has moved, over no more than the events there were.\<close>

definition read_moved :: "server_connection \<Rightarrow> server_connection \<Rightarrow> bool" where
  "read_moved c c' \<longleftrightarrow> (\<exists>es buffer. c' = c\<lparr>sn_socket := sn_socket c\<lparr>ts_incoming := es\<rparr>, sn_input_buffer := buffer\<rparr> \<and>
     length es \<le> length (ts_incoming (sn_socket c)))"

lemma read_moved_fields:
  assumes "read_moved c c'"
  shows "sn_transport c' = sn_transport c" "sn_open c' = sn_open c" "sn_handshake c' = sn_handshake c"
    "sn_server_static_public c' = sn_server_static_public c"
    "ts_connected (sn_socket c') = ts_connected (sn_socket c)" "ts_sent (sn_socket c') = ts_sent (sn_socket c)"
    "ts_sends (sn_socket c') = ts_sends (sn_socket c)"
    "length (ts_incoming (sn_socket c')) \<le> length (ts_incoming (sn_socket c))"
  using assms by (auto simp: read_moved_def)

lemma events_bytes_simps [simp]:
  "events_bytes [] = []" "events_bytes (Received bs # es) = bs @ events_bytes es"
  "events_bytes (Silence # es) = events_bytes es"
  by (simp_all add: events_bytes_def)

lemma receive_chunk:
  assumes "ts_connected s" and "ts_incoming s = e # es" and "chunk_event e"
  shows "\<exists>any bs. receive_available b s = (True, any, b @ bs, s\<lparr>ts_incoming := es\<rparr>) \<and>
    events_bytes (e # es) = bs @ events_bytes es"
  using assms by (cases e) (auto simp: receive_available_def chunk_event_def)

lemma pull_attempts_reads:
  "link_up c \<Longrightarrow> pending c = prefixed_bytes m @ extra \<Longrightarrow> 0 < length m \<Longrightarrow> length m \<le> CLIENT_MAX_NOISE_MESSAGE_SIZE \<Longrightarrow>
   length (ts_incoming (sn_socket c)) < n \<Longrightarrow>
   \<exists>c'. pull_attempts n c = (Inr m, c') \<and> pending c' = extra \<and> link_up c' \<and> read_moved c c'"
proof (induction n arbitrary: c)
  case (Suc n)
  let ?M = CLIENT_MAX_NOISE_MESSAGE_SIZE
  let ?x = "events_bytes (ts_incoming (sn_socket c))"
  obtain out bad rest where x: "extract_length_prefixed_message (sn_input_buffer c) ?M = (out, bad, rest)"
    by (cases "extract_length_prefixed_message (sn_input_buffer c) ?M") auto
  have whole: "extract_length_prefixed_message (sn_input_buffer c @ ?x) ?M = (Some m, False, extra)"
    using extract_prefixed [OF Suc.prems(3,4), of extra] Suc.prems(2) by (simp add: pending_def)
  show ?case
  proof (cases out)
    case (Some m')
    then have "m' = m" "rest @ ?x = extra" using extract_append_Some [of _ ?M m' bad rest ?x] x whole by auto
    then show ?thesis using Some x Suc.prems(1)
      by (intro exI [of _ "c\<lparr>sn_input_buffer := rest\<rparr>"])
        (auto simp: pending_def link_up_def read_moved_def intro!: exI [of _ "ts_incoming (sn_socket c)"])
  next
    case None
    have nb: "\<not> bad" using extract_append_malformed [of "sn_input_buffer c" ?M rest ?x] x None whole by auto
    have "ts_incoming (sn_socket c) \<noteq> []" using whole x None by auto
    then obtain e es where e: "ts_incoming (sn_socket c) = e # es" by (cases "ts_incoming (sn_socket c)") auto
    have "ts_connected (sn_socket c)" "chunk_event e" using Suc.prems(1) e by (auto simp: link_up_def)
    then obtain any bs where r: "receive_available (sn_input_buffer c) (sn_socket c) =
        (True, any, sn_input_buffer c @ bs, sn_socket c\<lparr>ts_incoming := es\<rparr>)" "?x = bs @ events_bytes es"
      using receive_chunk [OF _ e, of "sn_input_buffer c"] e by auto
    define c1 where "c1 = c\<lparr>sn_socket := sn_socket c\<lparr>ts_incoming := es\<rparr>, sn_input_buffer := sn_input_buffer c @ bs\<rparr>"
    have "\<exists>c'. pull_attempts n c1 = (Inr m, c') \<and> pending c' = extra \<and> link_up c' \<and> read_moved c1 c'"
    proof (rule Suc.IH)
      show "link_up c1" using Suc.prems(1) e by (simp add: link_up_def c1_def)
      show "pending c1 = prefixed_bytes m @ extra" using Suc.prems(2) r(2) by (simp add: pending_def c1_def)
      show "length (ts_incoming (sn_socket c1)) < n" using Suc.prems(5) e by (simp add: c1_def)
    qed (use Suc.prems in auto)
    then obtain c' where c': "pull_attempts n c1 = (Inr m, c')" "pending c' = extra" "link_up c'" "read_moved c1 c'" by blast
    have "pull_attempts (Suc n) c = (Inr m, c')" using x None nb r(1) c'(1) by (simp add: c1_def)
    moreover have "read_moved c c'" using c'(4) e by (auto simp: read_moved_def c1_def)
    ultimately show ?thesis using c' by blast
  qed
qed simp

section \<open>Frames\<close>

lemma frame_decodes:
  assumes "encode_frame t payload = Some frame"
  shows "decode_frame_header frame = Some \<lparr>fh_body_size = word_of_nat (Suc (length payload)), fh_type = t\<rparr>"
    and "length frame = 4 + unat (word_of_nat (Suc (length payload)) :: u32)" and "drop 5 frame = payload"
    and "length frame \<le> MAX_FRAME_SIZE" and "0 < length frame"
proof -
  have l: "length payload \<le> MAX_PAYLOAD_SIZE" and f: "frame = le_bytes (word_of_nat (Suc (length payload)) :: u32) @ [message_code t] @ payload"
    using assms by (auto simp: encode_frame_eq split: if_splits)
  have n: "unat (word_of_nat (Suc (length payload)) :: u32) = Suc (length payload)" using l by (intro unat_u32_of_nat) simp
  show "decode_frame_header frame = Some \<lparr>fh_body_size = word_of_nat (Suc (length payload)), fh_type = t\<rparr>"
    unfolding decode_frame_header_Some using n l f by simp
  show "length frame = 4 + unat (word_of_nat (Suc (length payload)) :: u32)" "drop 5 frame = payload"
    "length frame \<le> MAX_FRAME_SIZE" "0 < length frame" unfolding n using l by (simp_all add: f)
qed

lemma decrypt_encrypt_message:
  assumes "aead_correct lib" and "cs_has_key (nt_send_state u)" and "nt_receive_state t = nt_send_state u"
    and "encrypt_message lib p u = (Some x, u')"
  shows "decrypt_message lib x t = (Some p, t\<lparr>nt_receive_state := nt_send_state u'\<rparr>)"
    and "cs_has_key (nt_send_state u')" and "length x = length p + 16" and "nt_receive_state u' = nt_receive_state u"
proof -
  have e: "encrypt_with_ad lib [] p (nt_send_state u) = (Some x, nt_send_state u')" "nt_receive_state u' = nt_receive_state u"
    using assms(4) by (auto simp: encrypt_message_def split: prod.splits)
  show "decrypt_message lib x t = (Some p, t\<lparr>nt_receive_state := nt_send_state u'\<rparr>)"
    using decrypt_encrypt [OF assms(1,2) e(1)] assms(3) by (simp add: decrypt_message_def)
  show "cs_has_key (nt_send_state u')" using encrypt_with_ad_keeps [OF e(1)] assms(2) by simp
  show "length x = length p + 16" using e(1) assms(1,2)
    by (auto simp: encrypt_with_ad_def aead_correct_def split: if_splits option.splits)
  show "nt_receive_state u' = nt_receive_state u" by (rule e(2))
qed

text \<open>The client's receiving state is the server's sending state.\<close>

definition in_step :: "server_connection \<Rightarrow> noise_transport \<Rightarrow> bool" where
  "in_step c u \<longleftrightarrow> (\<exists>t. sn_transport c = Some t \<and> nt_receive_state t = nt_send_state u) \<and> cs_has_key (nt_send_state u)"

text \<open>What the server puts on the wire for a message.\<close>

definition server_sends :: "sodium \<Rightarrow> message_type \<Rightarrow> bytes \<Rightarrow> noise_transport \<Rightarrow> bytes \<Rightarrow> noise_transport \<Rightarrow> bool" where
  "server_sends lib type payload u wire u' \<longleftrightarrow>
     (\<exists>frame sealed. encode_frame type payload = Some frame \<and> encrypt_message lib frame u = (Some sealed, u') \<and>
        wire = prefixed_bytes sealed)"

lemma receive_frame_reads:
  assumes "aead_correct lib" and "sn_open c" and "in_step c u" and "link_up c"
    and "server_sends lib type payload u wire u'" and "pending c = wire @ extra"
    and "length (ts_incoming (sn_socket c)) < MAX_RECEIVE_ATTEMPTS"
  shows "\<exists>header c'. client_receive_frame lib c = (Inr (header, payload), c') \<and> fh_type header = type \<and>
    sn_open c' \<and> in_step c' u' \<and> link_up c' \<and> pending c' = extra \<and>
    length (ts_incoming (sn_socket c')) \<le> length (ts_incoming (sn_socket c)) \<and>
    ts_sent (sn_socket c') = ts_sent (sn_socket c) \<and> ts_sends (sn_socket c') = ts_sends (sn_socket c) \<and>
    map_option nt_send_state (sn_transport c') = map_option nt_send_state (sn_transport c)"
proof -
  obtain t where t: "sn_transport c = Some t" "nt_receive_state t = nt_send_state u" and k: "cs_has_key (nt_send_state u)"
    using assms(3) by (auto simp: in_step_def)
  obtain frame sealed where w: "encode_frame type payload = Some frame" "encrypt_message lib frame u = (Some sealed, u')"
    "wire = prefixed_bytes sealed" using assms(5) by (auto simp: server_sends_def)
  note f = frame_decodes [OF w(1)] and d = decrypt_encrypt_message [OF assms(1) k t(2) w(2)]
  have "0 < length sealed" "length sealed \<le> CLIENT_MAX_NOISE_MESSAGE_SIZE" using d(3) f(4,5) by simp_all
  then obtain c1 where c1: "pull_next_message c = (Inr sealed, c1)" "pending c1 = extra" "link_up c1" "read_moved c c1"
    using pull_attempts_reads [OF assms(4) _ _ _ assms(7)] assms(6) w(3) unfolding pull_next_message_def by blast
  note m = read_moved_fields [OF c1(4)]
  define c2 where "c2 = c1\<lparr>sn_transport := Some (t\<lparr>nt_receive_state := nt_send_state u'\<rparr>)\<rparr>"
  have "client_receive_frame lib c = (Inr (\<lparr>fh_body_size = word_of_nat (Suc (length payload)), fh_type = type\<rparr>, payload), c2)"
    using assms(2) t(1) c1(1) d(1) f(1,2,3) by (simp add: client_receive_frame_def Let_def c2_def)
  moreover have "sn_open c2" "in_step c2 u'" "link_up c2" "pending c2 = extra"
    using m assms(2) d(2) c1(2,3) by (simp_all add: c2_def in_step_def link_up_def pending_def)
  ultimately show ?thesis using m t(1) by (auto simp: c2_def)
qed

text \<open>
  The client receives what the server sent. Whatever chunks the network cuts the stream into and
  however many time-outs lie between them (fewer events than the fifty attempts of a call), a receive
  returns the first frame of the stream with its type and its payload, leaves the bytes behind it to
  be read, keeps the connection open and the client's cipher in step with the server's.
\<close>

theorem client_receives_frame:
  assumes "aead_correct lib" and "sn_open c" and "in_step c u" and "link_up c"
    and "server_sends lib type payload u wire u'" and "pending c = wire @ extra"
    and "length (ts_incoming (sn_socket c)) < MAX_RECEIVE_ATTEMPTS"
  shows "\<exists>header c'. client_receive_frame lib c = (Inr (header, payload), c') \<and> fh_type header = type \<and>
    sn_open c' \<and> in_step c' u' \<and> link_up c' \<and> pending c' = extra"
  using receive_frame_reads [OF assms] by blast

text \<open>A connection on which a frame of the server arrives after a time-out, for the witnesses.\<close>

definition toy_link :: "recv_event list \<Rightarrow> server_connection" where
  "toy_link es = (new_server_connection toy_sodium (replicate 32 1))
     \<lparr>sn_socket := \<lparr>ts_connected = True, ts_incoming = es, ts_sends = [], ts_sent = []\<rparr>,
      sn_transport := Some (new_transport (replicate 32 1) (replicate 32 2)), sn_open := True\<rparr>"

definition toy_server :: noise_transport where
  "toy_server = new_transport (replicate 32 2) (replicate 32 1)"

lemma toy_link_ok:
  "sn_open (toy_link es)" "in_step (toy_link es) toy_server" "pending (toy_link es) = events_bytes es"
  "link_up (toy_link es) \<longleftrightarrow> list_all chunk_event es" "ts_incoming (sn_socket (toy_link es)) = es"
  by (simp_all add: toy_link_def in_step_def toy_server_def new_transport_def initialize_key_def pending_def link_up_def
      new_server_connection_def)

lemma toy_encrypt_message:
  assumes "cs_has_key (nt_send_state u)" and "cs_nonce_counter (nt_send_state u) \<noteq> - 1"
  shows "\<exists>sealed u'. encrypt_message toy_sodium p u = (Some sealed, u') \<and> length sealed = length p + 16 \<and>
    cs_has_key (nt_send_state u') \<and> cs_nonce_counter (nt_send_state u') = cs_nonce_counter (nt_send_state u) + 1"
  using assms by (simp add: encrypt_message_def encrypt_with_ad_def toy_sodium_def build_nonce_eq)

lemma toy_sends:
  assumes "cs_has_key (nt_send_state u)" and "cs_nonce_counter (nt_send_state u) \<noteq> - 1" and "length payload \<le> 1000"
  shows "\<exists>wire u'. server_sends toy_sodium type payload u wire u' \<and> wire \<noteq> [] \<and> length wire \<le> 2000 \<and>
    cs_has_key (nt_send_state u') \<and> cs_nonce_counter (nt_send_state u') = cs_nonce_counter (nt_send_state u) + 1"
proof -
  obtain frame where f: "encode_frame type payload = Some frame" "length frame \<le> 1010" using assms(3) by (simp add: encode_frame_eq)
  obtain sealed u' where "encrypt_message toy_sodium frame u = (Some sealed, u')" "length sealed = length frame + 16"
    "cs_has_key (nt_send_state u')" "cs_nonce_counter (nt_send_state u') = cs_nonce_counter (nt_send_state u) + 1"
    using toy_encrypt_message [OF assms(1,2)] by blast
  then show ?thesis using f
    by (intro exI [of _ "prefixed_bytes sealed"] exI [of _ u']) (auto simp: server_sends_def simp flip: length_0_conv)
qed

lemma toy_server_keys: "cs_has_key (nt_send_state toy_server)" "cs_nonce_counter (nt_send_state toy_server) = 0"
  by (simp_all add: toy_server_def new_transport_def initialize_key_def new_cipher_state_def)

theorem client_receives_frame_witness:
  "\<exists>wire u' header c'. server_sends toy_sodium MT_status_ok [1, 2] toy_server wire u' \<and>
     client_receive_frame toy_sodium (toy_link [Silence, Received wire]) = (Inr (header, [1, 2]), c') \<and> pending c' = []"
proof -
  obtain wire u' where w: "server_sends toy_sodium MT_status_ok [1, 2] toy_server wire u'" "wire \<noteq> []" "length wire \<le> 2000"
    using toy_sends [OF toy_server_keys(1), of "[1, 2]" MT_status_ok] toy_server_keys(2) by auto
  then have "link_up (toy_link [Silence, Received wire])" by (simp add: toy_link_ok chunk_event_def)
  then show ?thesis
    using client_receives_frame [OF toy_sodium_ok(1) toy_link_ok(1,2) _ w(1), of "[Silence, Received wire]" "[]"] w(1)
    by (auto simp: toy_link_ok MAX_RECEIVE_ATTEMPTS_def)
qed

section \<open>A message of the day\<close>

lemma receive_typed_reads:
  assumes "aead_correct lib" and "sn_open c" and "in_step c u" and "link_up c"
    and "server_sends lib type payload u wire u'" and "pending c = wire @ extra"
    and "length (ts_incoming (sn_socket c)) < MAX_RECEIVE_ATTEMPTS" and "type \<noteq> MT_status_error"
  shows "\<exists>c'. receive_typed_message lib read_from expected c =
      ((if type \<noteq> expected then Inl Unexpected_reply
        else case fst (read_from (byte_reader_of payload)) of None \<Rightarrow> Inl Malformed_reply | Some out \<Rightarrow> Inr out), c') \<and>
    sn_open c' \<and> in_step c' u' \<and> link_up c' \<and> pending c' = extra \<and>
    length (ts_incoming (sn_socket c')) \<le> length (ts_incoming (sn_socket c)) \<and>
    ts_sent (sn_socket c') = ts_sent (sn_socket c) \<and> ts_sends (sn_socket c') = ts_sends (sn_socket c) \<and>
    map_option nt_send_state (sn_transport c') = map_option nt_send_state (sn_transport c)"
proof -
  obtain header c' where "client_receive_frame lib c = (Inr (header, payload), c')" "fh_type header = type"
    and c': "sn_open c'" "in_step c' u'" "link_up c'" "pending c' = extra"
    "length (ts_incoming (sn_socket c')) \<le> length (ts_incoming (sn_socket c))"
    "ts_sent (sn_socket c') = ts_sent (sn_socket c)" "ts_sends (sn_socket c') = ts_sends (sn_socket c)"
    "map_option nt_send_state (sn_transport c') = map_option nt_send_state (sn_transport c)"
    using receive_frame_reads [OF assms(1-7)] by blast
  then have "receive_typed_message lib read_from expected c =
      ((if type \<noteq> expected then Inl Unexpected_reply
        else case fst (read_from (byte_reader_of payload)) of None \<Rightarrow> Inl Malformed_reply | Some out \<Rightarrow> Inr out), c')"
    using assms(8) by (simp add: receive_typed_message_def split: option.splits)
  then show ?thesis using c' by blast
qed

text \<open>
  The server announces a message of the day with a frame of its own after the login; no client code
  reads one. The request that follows takes it for its reply and fails, and the reply to that request
  stays on the stream: the next request receives it as its own.
\<close>

theorem motd_shifts_replies:
  assumes "aead_correct lib" and "sn_open c" and "in_step c u" and "link_up c"
    and "server_sends lib MT_motd_push announcement u wire1 u1" and "server_sends lib expected reply u1 wire2 u2"
    and "pending c = wire1 @ wire2" and "expected \<noteq> MT_motd_push" and "expected \<noteq> MT_status_error"
    and "length (ts_incoming (sn_socket c)) < MAX_RECEIVE_ATTEMPTS"
    and "fst (read_from (byte_reader_of reply)) = Some out"
  shows "\<exists>c1 c2. receive_typed_message lib other_reader expected c = (Inl Unexpected_reply, c1) \<and> sn_open c1 \<and>
    receive_typed_message lib read_from expected c1 = (Inr out, c2)"
proof -
  obtain c1 where c1: "receive_typed_message lib other_reader expected c = (Inl Unexpected_reply, c1)"
    "sn_open c1" "in_step c1 u1" "link_up c1" "pending c1 = wire2 @ []"
    "length (ts_incoming (sn_socket c1)) < MAX_RECEIVE_ATTEMPTS"
    using receive_typed_reads [OF assms(1-5,7,10), of other_reader expected] assms(8,10) by auto
  then show ?thesis
    using receive_typed_reads [OF assms(1) c1(2-4) assms(6) c1(5,6) assms(9), of read_from expected] assms(11) by auto
qed

text \<open>A time-out, too, leaves the connection open for a reply that comes late.\<close>

lemma pull_no_answer_open: "pull_attempts n c = (Inl No_answer, c') \<Longrightarrow> sn_open c' = sn_open c"
  by (induction n arbitrary: c) (auto split: prod.splits option.splits if_splits bool.splits)

section \<open>The handshake\<close>

lemma send_all_quiet: "ts_connected s \<Longrightarrow> ts_sends s = [] \<Longrightarrow> send_all data s = (True, s\<lparr>ts_sent := ts_sent s @ data\<rparr>)"
  by (cases data) (simp_all add: send_all_def)

text \<open>The server's side of a handshake: its answer to a first message, and its keys (to send, to receive).\<close>

definition server_answers ::
  "sodium \<Rightarrow> bytes \<times> bytes \<Rightarrow> bytes \<times> bytes \<Rightarrow> bytes \<Rightarrow> bytes \<Rightarrow> bytes \<times> bytes \<Rightarrow> bool" where
  "server_answers lib static ephemeral first second keys \<longleftrightarrow>
     (\<exists>h1 h2. read_first_message lib first (new_responder lib (fst static) (snd static)) = (Some [], h1) \<and>
        write_second_message lib (Some ephemeral) [] h1 = (Some second, h2) \<and>
        responder_export_transport_keys lib h2 = Some keys)"

lemma handshake_keys:
  assumes lib: "aead_correct lib" "dh_agrees lib" and "keypair_ok lib (sp, ss)" and "keypair_ok lib (ep, es)"
    and "keypair_ok lib (fp, fs)"
    and first: "write_first_message lib (Some (ep, es)) [] (new_initiator lib sp) = (Some m1, i1)"
    and ans: "server_answers lib (sp, ss) (fp, fs) m1 m2 (k1, k2)"
  shows "\<exists>i2. read_second_message lib m2 i1 = (Some [], i2) \<and> initiator_export_transport_keys lib i2 = Some (k2, k1)"
    and "length m2 = 48"
proof -
  obtain h1 h2 where h: "read_first_message lib m1 (new_responder lib sp ss) = (Some [], h1)"
    "write_second_message lib (Some (fp, fs)) [] h1 = (Some m2, h2)" "responder_export_transport_keys lib h2 = Some (k1, k2)"
    using ans by (auto simp: server_answers_def)
  have h1: "hr_state h1 = hi_state i1" "hr_remote_ephemeral h1 = ep"
    using read_first_message_reads [OF lib assms(3,4) first] h(1) by auto
  have i1: "hi_first_message_sent i1" "\<not> hi_complete i1" "hi_ephemeral_secret i1 = es"
    using write_first_message_Some [OF first] by auto
  obtain i2 where i2: "read_second_message lib m2 i1 = (Some [], i2)" "hi_complete i2" "hr_complete h2" "hi_state i2 = hr_state h2"
    using read_second_message_reads [OF lib assms(4,5) h1 i1 h(2)] by blast
  then show "\<exists>i2. read_second_message lib m2 i1 = (Some [], i2) \<and> initiator_export_transport_keys lib i2 = Some (k2, k1)"
    using h(3) by (auto simp: initiator_export_transport_keys_def responder_export_transport_keys_def)
  obtain shared s s' sealed where w: "mix_key lib shared (mix_hash lib fp (hr_state h1)) = (True, s)"
    "encrypt_and_hash lib [] s = (Some sealed, s')" "m2 = fp @ sealed"
    using write_second_message_Some [OF h(2)] by blast
  have "length sealed = 16" using w(2) mix_key_has_key [OF w(1)] lib(1)
    by (auto simp: encrypt_and_hash_def encrypt_with_ad_def aead_correct_def split: prod.splits option.splits if_splits)
  then show "length m2 = 48" using w(3) assms(5) by (auto simp: keypair_ok_def)
qed

text \<open>The socket once the way to the server is open, directly or through the proxy.\<close>

definition reaches :: "network \<Rightarrow> server_endpoint \<Rightarrow> tcp_client_socket \<Rightarrow> bool" where
  "reaches net endpoint s \<longleftrightarrow>
     (if ep_socks5_host endpoint = [] then connect_to_host net (ep_host endpoint) (ep_port endpoint) s = (Inr (), s)
      else \<exists>s0. connect_to_host net (ep_socks5_host endpoint) (ep_socks5_port endpoint) s = (Inr (), s0) \<and>
        perform_socks5_connect (ep_host endpoint) (ep_port endpoint) s0 = (Inr (), s))"

lemma connect_ignores_socket: "connect_to_host net host port s = connect_to_host net host port s'"
  by (simp add: connect_to_host_def)

lemma open_session_reached:
  assumes "reaches net endpoint s"
  shows "open_session lib net generated endpoint c =
    (case perform_handshake lib generated
            (c\<lparr>sn_transport := None, sn_input_buffer := [],
               sn_handshake := new_initiator lib (sn_server_static_public c), sn_socket := s, sn_open := True\<rparr>) of
       (Inl e, c1) \<Rightarrow> (Inl e, c1\<lparr>sn_open := False\<rparr>) | (Inr _, c1) \<Rightarrow> (Inr (), c1))"
  using assms connect_ignores_socket [of net "ep_host endpoint" "ep_port endpoint" "sn_socket c" s]
    connect_ignores_socket [of net "ep_socks5_host endpoint" "ep_socks5_port endpoint" "sn_socket c" s]
  by (auto simp: open_session_def reaches_def Let_def split: if_splits)

lemma pinned_session:
  assumes "aead_correct lib" and "dh_agrees lib"
    and "keypair_ok lib (sp, ss)" and "keypair_ok lib (ep, es)" and "keypair_ok lib (fp, fs)"
    and "sn_server_static_public c = sp"
    and "write_first_message lib (Some (ep, es)) [] (new_initiator lib sp) = (Some m1, i1)"
    and "server_answers lib (sp, ss) (fp, fs) m1 m2 (k1, k2)"
    and "reaches net endpoint s" and "ts_connected s" and "list_all chunk_event (ts_incoming s)" and "ts_sends s = []"
    and "events_bytes (ts_incoming s) = prefixed_bytes m2 @ extra" and "length (ts_incoming s) < MAX_RECEIVE_ATTEMPTS"
  shows "\<exists>c'. open_session lib net (Some (ep, es)) endpoint c = (Inr (), c') \<and> sn_open c' \<and>
    sn_transport c' = Some (new_transport k2 k1) \<and> ts_sent (sn_socket c') = ts_sent s @ prefixed_bytes m1 \<and>
    pending c' = extra \<and> link_up c' \<and> ts_sends (sn_socket c') = []"
proof -
  note k = handshake_keys [OF assms(1-5,7,8)]
  obtain i2 where i2: "read_second_message lib m2 i1 = (Some [], i2)" "initiator_export_transport_keys lib i2 = Some (k2, k1)"
    using k(1) by blast
  define c0 where "c0 = c\<lparr>sn_transport := None, sn_input_buffer := [], sn_open := True,
    sn_handshake := i1, sn_socket := s\<lparr>ts_sent := ts_sent s @ prefixed_bytes m1\<rparr>\<rparr>"
  have "link_up c0" "pending c0 = prefixed_bytes m2 @ extra" "length (ts_incoming (sn_socket c0)) < MAX_RECEIVE_ATTEMPTS"
    using assms(10,11,13,14) by (simp_all add: link_up_def pending_def c0_def)
  moreover have "0 < length m2" "length m2 \<le> CLIENT_MAX_NOISE_MESSAGE_SIZE" using k(2) by simp_all
  ultimately obtain c1 where c1: "pull_next_message c0 = (Inr m2, c1)" "pending c1 = extra" "link_up c1" "read_moved c0 c1"
    using pull_attempts_reads unfolding pull_next_message_def by blast
  note m = read_moved_fields [OF c1(4)]
  have h: "sn_handshake c1 = i1" "sn_open c1" "ts_sent (sn_socket c1) = ts_sent s @ prefixed_bytes m1"
    using m by (simp_all add: c0_def)
  define c2 where "c2 = c1\<lparr>sn_handshake := i2, sn_transport := Some (new_transport k2 k1)\<rparr>"
  have "perform_handshake lib (Some (ep, es))
      (c\<lparr>sn_transport := None, sn_input_buffer := [],
         sn_handshake := new_initiator lib (sn_server_static_public c), sn_socket := s, sn_open := True\<rparr>) = (Inr (), c2)"
    using assms(6,7) send_all_quiet [OF assms(10,12)] c1(1) i2 h(1)
    by (simp add: perform_handshake_def append_length_prefixed_message_eq c0_def c2_def)
  then have "open_session lib net (Some (ep, es)) endpoint c = (Inr (), c2)" by (simp add: open_session_reached [OF assms(9)])
  moreover have "ts_sends (sn_socket c2) = []" using m(7) assms(12) by (simp add: c0_def c2_def)
  ultimately show ?thesis using h c1(2,3) by (intro exI [of _ c2]) (simp add: c2_def pending_def link_up_def)
qed


lemma toy_first_message:
  "\<exists>m1 i1. write_first_message toy_sodium (Some (ep, es)) p (new_initiator toy_sodium sp) = (Some m1, i1)"
proof -
  let ?i = "new_initiator toy_sodium sp"
  obtain shared where sh: "so_scalarmult toy_sodium es (hi_remote_static ?i) = Some shared" by (simp add: toy_sodium_def)
  obtain s where mk: "mix_key toy_sodium shared (mix_hash toy_sodium ep (hi_state ?i)) = (True, s)" using toy_mix_key by blast
  obtain x s' where "encrypt_and_hash toy_sodium p s = (Some x, s')" using toy_encrypt_and_hash [OF mk] by blast
  moreover have "\<not> hi_first_message_sent ?i" by (simp add: new_initiator_def)
  ultimately show ?thesis using sh mk by (simp add: write_first_message_def compute_shared_secret_def Let_def)
qed

lemma toy_second_message:
  assumes "hr_first_message_read h" and "\<not> hr_complete h"
  shows "\<exists>m2 h2 keys. write_second_message toy_sodium (Some (fp, fs)) p h = (Some m2, h2) \<and>
    responder_export_transport_keys toy_sodium h2 = Some keys"
proof -
  obtain shared where sh: "so_scalarmult toy_sodium fs (hr_remote_ephemeral h) = Some shared" by (simp add: toy_sodium_def)
  obtain s where mk: "mix_key toy_sodium shared (mix_hash toy_sodium fp (hr_state h)) = (True, s)" using toy_mix_key by blast
  obtain x s' where e: "encrypt_and_hash toy_sodium p s = (Some x, s')" using toy_encrypt_and_hash [OF mk] by blast
  obtain k1 k2 where "split_transport_keys toy_sodium s' = Some (k1, k2)"
    by (simp add: split_transport_keys_def derive_key_pair_def compute_hmac_def expand_key_block_def toy_sodium_def)
  then show ?thesis using assms sh mk e
    by (simp add: write_second_message_def compute_shared_secret_def Let_def responder_export_transport_keys_def)
qed

lemma toy_server_answers:
  assumes "keypair_ok toy_sodium (sp, ss)" and "keypair_ok toy_sodium (ep, es)"
    and "write_first_message toy_sodium (Some (ep, es)) [] (new_initiator toy_sodium sp) = (Some m1, i1)"
  shows "\<exists>m2 k1 k2. server_answers toy_sodium (sp, ss) (fp, fs) m1 m2 (k1, k2)"
proof -
  obtain h where h: "read_first_message toy_sodium m1 (new_responder toy_sodium sp ss) = (Some [], h)"
    "hr_first_message_read h" "\<not> hr_complete h"
    using read_first_message_reads [OF toy_sodium_ok(1,2) assms] by blast
  show ?thesis using toy_second_message [OF h(2,3), of fp fs "[]"] h(1) unfolding server_answers_def by auto
qed

definition toy_socket :: "bytes \<Rightarrow> tcp_client_socket" where
  "toy_socket m2 = \<lparr>ts_connected = True, ts_incoming = [Silence, Received (prefixed_bytes m2)], ts_sends = [], ts_sent = []\<rparr>"

definition toy_network :: "bytes \<Rightarrow> network" where
  "toy_network m2 = (\<lambda>_ _. Some [Refused, Accepted [Silence, Received (prefixed_bytes m2)] []])"

lemma toy_handshake:
  fixes k e :: u8
  defines "server \<equiv> replicate 32 k" and "client \<equiv> replicate 32 e"
  assumes "ep_socks5_host endpoint = []"
  obtains m1 i1 m2 k1 k2 where
    "write_first_message toy_sodium (Some (client, client)) [] (new_initiator toy_sodium server) = (Some m1, i1)"
    "server_answers toy_sodium (server, server) (replicate 32 3, replicate 32 3) m1 m2 (k1, k2)"
    "reaches (toy_network m2) endpoint (toy_socket m2)" "ts_connected (toy_socket m2)"
    "list_all chunk_event (ts_incoming (toy_socket m2))" "ts_sends (toy_socket m2) = []"
    "events_bytes (ts_incoming (toy_socket m2)) = prefixed_bytes m2 @ []" "length (ts_incoming (toy_socket m2)) < MAX_RECEIVE_ATTEMPTS"
proof -
  have ok: "aead_correct toy_sodium" "dh_agrees toy_sodium" "keypair_ok toy_sodium (server, server)"
    "keypair_ok toy_sodium (client, client)" unfolding server_def client_def by (rule toy_sodium_ok)+
  obtain m1 i1 where w: "write_first_message toy_sodium (Some (client, client)) [] (new_initiator toy_sodium server) = (Some m1, i1)"
    using toy_first_message by blast
  obtain m2 k1 k2 where a: "server_answers toy_sodium (server, server) (replicate 32 3, replicate 32 3) m1 m2 (k1, k2)"
    using toy_server_answers [OF ok(3,4) w] by blast
  have "length m2 = 48" by (rule handshake_keys(2) [OF ok toy_sodium_ok(3) w a])
  then have "prefixed_bytes m2 \<noteq> []" "length (prefixed_bytes m2) = 52" by (simp_all flip: length_0_conv)
  moreover have "reaches (toy_network m2) endpoint (toy_socket m2)"
    using assms(3) by (simp add: reaches_def connect_to_host_def toy_network_def toy_socket_def)
  ultimately show thesis by (intro that [OF w a]) (simp_all add: toy_socket_def chunk_event_def MAX_RECEIVE_ATTEMPTS_def)
qed


section \<open>Authentication\<close>

text \<open>The server reads a frame of the client from the bytes on the wire.\<close>

definition server_reads :: "sodium \<Rightarrow> bytes \<Rightarrow> noise_transport \<Rightarrow> message_type \<Rightarrow> bytes \<Rightarrow> noise_transport \<Rightarrow> bool" where
  "server_reads lib wire u type payload u' \<longleftrightarrow>
     (\<exists>sealed frame. wire = prefixed_bytes sealed \<and> decrypt_message lib sealed u = (Some frame, u') \<and>
        encode_frame type payload = Some frame)"

lemma send_frame_sends:
  assumes "aead_correct lib" and "sn_open c" and "sn_transport c = Some t" and "cs_has_key (nt_send_state t)"
    and "nt_receive_state u = nt_send_state t" and "cs_nonce_counter (nt_send_state t) \<noteq> - 1"
    and "ts_connected (sn_socket c)" and "ts_sends (sn_socket c) = []" and "length payload \<le> MAX_PAYLOAD_SIZE"
    and "\<And>k n p. so_aead_encrypt lib k n [] p \<noteq> None"
  shows "\<exists>wire t' u'. client_send_frame lib type payload c =
      (True, c\<lparr>sn_transport := Some t', sn_socket := sn_socket c\<lparr>ts_sent := ts_sent (sn_socket c) @ wire\<rparr>\<rparr>) \<and>
    server_reads lib wire u type payload u' \<and> nt_receive_state u' = nt_send_state t' \<and> nt_send_state u' = nt_send_state u \<and>
    nt_receive_state t' = nt_receive_state t \<and> cs_has_key (nt_send_state t') \<and>
    cs_nonce_counter (nt_send_state t') = cs_nonce_counter (nt_send_state t) + 1"
proof -
  obtain frame where f: "encode_frame type payload = Some frame" using assms(9) by (simp add: encode_frame_eq)
  obtain sealed where s: "so_aead_encrypt lib (cs_key (nt_send_state t)) (build_nonce (nt_send_state t)) [] frame = Some sealed"
    using assms(10) by blast
  define t' where "t' = t\<lparr>nt_send_state := (nt_send_state t)\<lparr>cs_nonce_counter := cs_nonce_counter (nt_send_state t) + 1\<rparr>\<rparr>"
  have e: "encrypt_message lib frame t = (Some sealed, t')"
    using s assms(4,6) by (simp add: encrypt_message_def encrypt_with_ad_def t'_def)
  note d = decrypt_encrypt_message [OF assms(1,4,5) e]
  have "client_send_frame lib type payload c =
      (True, c\<lparr>sn_transport := Some t', sn_socket := sn_socket c\<lparr>ts_sent := ts_sent (sn_socket c) @ prefixed_bytes sealed\<rparr>\<rparr>)"
    using assms(2,3) f e send_all_quiet [OF assms(7,8)] by (simp add: client_send_frame_def append_length_prefixed_message_eq)
  moreover have "server_reads lib (prefixed_bytes sealed) u type payload (u\<lparr>nt_receive_state := nt_send_state t'\<rparr>)"
    unfolding server_reads_def using d(1) f by blast
  ultimately show ?thesis using assms(4) by (intro exI conjI) (assumption | simp add: t'_def)+
qed

lemma ready_after_send:
  assumes "link_up c" and "in_step c u" and "sn_transport c = Some t" and "nt_receive_state t' = nt_receive_state t"
    and "c1 = c\<lparr>sn_transport := Some t', sn_socket := sn_socket c\<lparr>ts_sent := sent\<rparr>\<rparr>"
  shows "link_up c1" and "in_step c1 u" and "pending c1 = pending c"
  using assms by (auto simp: link_up_def in_step_def pending_def)

definition aead_total :: "sodium \<Rightarrow> bool" where
  "aead_total lib \<longleftrightarrow> (\<forall>k n ad p. so_aead_encrypt lib k n ad p \<noteq> None)"

text \<open>
  C21: logging in. On a fresh connection whose ends are in step, a server that sends a challenge and then
  accepts the account gets from the client exactly two frames: a hello with the client's public key, and
  the signature, by the client's identity, of that challenge's nonce together with that key; the login
  succeeds, and the session holds the handle and the number the server named.
\<close>

theorem authenticate_answers_challenge:
  assumes "aead_correct (cl_sodium lib)" and "aead_total (cl_sodium lib)"
    and "cs_connection s = c" and "cs_identity s = identity" and "length (ik_public identity) = PUBLIC_KEY_SIZE"
    and "sn_open c" and "sn_transport c = Some t" and "cs_has_key (nt_send_state t)" and "cs_nonce_counter (nt_send_state t) = 0"
    and "nt_receive_state v = nt_send_state t" and "in_step c u" and "link_up c" and "ts_sends (sn_socket c) = []"
    and "length (ts_incoming (sn_socket c)) < MAX_RECEIVE_ATTEMPTS"
    and "auth_challenge_valid challenge" and "auth_accepted_valid accepted"
    and "server_sends (cl_sodium lib) MT_auth_challenge (encode_with auth_challenge_write_to challenge) u wire1 u1"
    and "server_sends (cl_sodium lib) MT_auth_accepted (encode_with auth_accepted_write_to accepted) u1 wire2 u2"
    and "pending c = wire1 @ wire2 @ extra"
    and "cl_sign lib (ik_secret identity) (build_auth_signing_input (ac_nonce challenge) (ik_public identity)) = Some signature"
    and "length signature = SIGNATURE_SIZE"
  shows "\<exists>s' w1 w2 v1 v2. authenticate lib s = (Inr (), s') \<and>
    cs_handle s' = aa_handle accepted \<and> cs_user_id s' = aa_user_id accepted \<and> \<not> cs_needs_registration s' \<and>
    pending (cs_connection s') = extra \<and> ts_sent (sn_socket (cs_connection s')) = ts_sent (sn_socket c) @ w1 @ w2 \<and>
    server_reads (cl_sodium lib) w1 v MT_hello_request
      (encode_with hello_request_write_to \<lparr>hq_protocol_version = PROTOCOL_VERSION, hq_client_pubkey = ik_public identity\<rparr>) v1 \<and>
    server_reads (cl_sodium lib) w2 v1 MT_auth_response (encode_with auth_response_write_to \<lparr>ar_signature = signature\<rparr>) v2"
proof -
  let ?so = "cl_sodium lib"
  let ?hello = "encode_with hello_request_write_to \<lparr>hq_protocol_version = PROTOCOL_VERSION, hq_client_pubkey = ik_public identity\<rparr>"
  let ?answer = "encode_with auth_response_write_to \<lparr>ar_signature = signature\<rparr>"
  have tot: "so_aead_encrypt ?so k n [] p \<noteq> None" for k n p using assms(2) by (simp add: aead_total_def)
  have lens: "length ?hello \<le> MAX_PAYLOAD_SIZE" "length ?answer \<le> MAX_PAYLOAD_SIZE"
    using assms(5,21) by (simp_all add: encode_withI [OF hello_request_emit] encode_withI [OF auth_response_emit])
  have rd: "fst (auth_challenge_read_from (byte_reader_of (encode_with auth_challenge_write_to challenge))) = Some challenge"
    "fst (auth_accepted_read_from (byte_reader_of (encode_with auth_accepted_write_to accepted))) = Some accepted"
    using auth_challenge.roundtrip [OF assms(15), of "[]"] auth_accepted.roundtrip [OF assms(16), of "[]"] by simp_all
  have con: "ts_connected (sn_socket c)" using assms(12) by (simp add: link_up_def)
  obtain w1 t1 v1 where h: "client_send_frame ?so MT_hello_request ?hello c =
      (True, c\<lparr>sn_transport := Some t1, sn_socket := sn_socket c\<lparr>ts_sent := ts_sent (sn_socket c) @ w1\<rparr>\<rparr>)"
    "server_reads ?so w1 v MT_hello_request ?hello v1" "nt_receive_state v1 = nt_send_state t1"
    "nt_receive_state t1 = nt_receive_state t" "cs_has_key (nt_send_state t1)" "cs_nonce_counter (nt_send_state t1) = 1"
    using send_frame_sends [OF assms(1,6,7,8,10) _ con assms(13) lens(1) tot, where type = MT_hello_request] assms(9) by auto
  define c1 where "c1 = c\<lparr>sn_transport := Some t1, sn_socket := sn_socket c\<lparr>ts_sent := ts_sent (sn_socket c) @ w1\<rparr>\<rparr>"
  note r1 = ready_after_send [OF assms(12,11,7) h(4) c1_def]
  have o1: "sn_open c1" "length (ts_incoming (sn_socket c1)) < MAX_RECEIVE_ATTEMPTS" using assms(6,14) by (simp_all add: c1_def)
  obtain c2 where c2: "receive_typed_message ?so auth_challenge_read_from MT_auth_challenge c1 = (Inr challenge, c2)"
    "sn_open c2" "in_step c2 u1" "link_up c2" "pending c2 = wire2 @ extra"
    "length (ts_incoming (sn_socket c2)) < MAX_RECEIVE_ATTEMPTS" "ts_sent (sn_socket c2) = ts_sent (sn_socket c) @ w1"
    "ts_sends (sn_socket c2) = []" "map_option nt_send_state (sn_transport c2) = Some (nt_send_state t1)"
    using receive_typed_reads [OF assms(1) o1(1) r1(2,1) assms(17) _ o1(2), of "wire2 @ extra" auth_challenge_read_from MT_auth_challenge]
      r1(3) assms(13,19) rd(1) o1(2) by (auto simp: c1_def)
  obtain t2 where t2: "sn_transport c2 = Some t2" "nt_send_state t2 = nt_send_state t1" using c2(9) by auto
  have con2: "ts_connected (sn_socket c2)" using c2(4) by (simp add: link_up_def)
  obtain w2 t3 v2 where a: "client_send_frame ?so MT_auth_response ?answer c2 =
      (True, c2\<lparr>sn_transport := Some t3, sn_socket := sn_socket c2\<lparr>ts_sent := ts_sent (sn_socket c2) @ w2\<rparr>\<rparr>)"
    "server_reads ?so w2 v1 MT_auth_response ?answer v2" "nt_receive_state t3 = nt_receive_state t2"
    using send_frame_sends [OF assms(1) c2(2) t2(1) _ _ _ con2 c2(8) lens(2) tot, where type = MT_auth_response and u = v1]
      t2(2) h(3,5,6) by auto
  define c3 where "c3 = c2\<lparr>sn_transport := Some t3, sn_socket := sn_socket c2\<lparr>ts_sent := ts_sent (sn_socket c2) @ w2\<rparr>\<rparr>"
  note r3 = ready_after_send [OF c2(4,3) t2(1) a(3) c3_def]
  have o3: "sn_open c3" "length (ts_incoming (sn_socket c3)) < MAX_RECEIVE_ATTEMPTS" using c2(2,6) by (simp_all add: c3_def)
  obtain header c4 where c4: "client_receive_frame ?so c3 = (Inr (header, encode_with auth_accepted_write_to accepted), c4)"
    "fh_type header = MT_auth_accepted" "pending c4 = extra" "ts_sent (sn_socket c4) = ts_sent (sn_socket c3)"
    using receive_frame_reads [OF assms(1) o3(1) r3(2,1) assms(18) _ o3(2), of extra] r3(3) c2(5) by auto
  have "authenticate lib s = (Inr (), accept_session accepted (s\<lparr>cs_connection := c4, cs_challenge_nonce := ac_nonce challenge\<rparr>))"
    using assms(3,4,20) h(1) c2(1) a(1) c4(1,2) rd(2)
    by (simp add: authenticate_def send_typed_message_def sign_and_send_response_def sign_message_def c1_def [symmetric]
        c3_def [symmetric] Let_def accept_session_def)
  then show ?thesis using h(2) a(2) c4(3,4) c2(7)
    by (intro exI conjI) (assumption | simp add: accept_session_def c3_def)+
qed

theorem authenticate_answers_challenge_witness:
  "\<exists>es s'. authenticate toy_client (new_client_session (toy_link es) \<lparr>ik_public = replicate 32 4, ik_secret = replicate 64 4\<rparr>) =
     (Inr (), s') \<and> cs_handle s' = ascii ''ada''"
proof -
  let ?id = "\<lparr>ik_public = replicate 32 4, ik_secret = replicate 64 4 :: bytes\<rparr>"
  let ?ch = "\<lparr>ac_protocol_version = 1, ac_nonce = replicate 32 8, ac_account_exists = 1, ac_server_time = 0\<rparr>"
  let ?ok = "\<lparr>aa_user_id = 3, aa_handle = ascii ''ada'', aa_server_time = 0\<rparr>"
  have v: "auth_challenge_valid ?ch" "auth_accepted_valid ?ok"
    by (simp_all add: auth_challenge_valid_def auth_accepted_valid_def text_ok_def ascii_def validate_text_field_def) code_simp
  have "length (encode_with auth_challenge_write_to ?ch) \<le> 1000" "length (encode_with auth_accepted_write_to ?ok) \<le> 1000"
    by (simp_all add: encode_withI [OF auth_challenge_emit] encode_withI [OF auth_accepted_emit])
  then obtain wire1 u1 wire2 u2 where
    w1: "server_sends toy_sodium MT_auth_challenge (encode_with auth_challenge_write_to ?ch) toy_server wire1 u1" "wire1 \<noteq> []" "length wire1 \<le> 2000"
    and w2: "server_sends toy_sodium MT_auth_accepted (encode_with auth_accepted_write_to ?ok) u1 wire2 u2" "wire2 \<noteq> []" "length wire2 \<le> 2000"
    using toy_sends [OF toy_server_keys(1), of "encode_with auth_challenge_write_to ?ch" MT_auth_challenge] toy_server_keys(2)
      toy_sends [of _ "encode_with auth_accepted_write_to ?ok" MT_auth_accepted] by fastforce
  let ?es = "[Received wire1, Silence, Received wire2]"
  let ?t = "new_transport (replicate 32 1) (replicate 32 2)"
  let ?v = "toy_server"
  have so: "cl_sodium toy_client = toy_sodium" by (rule toy_client_fields(3))
  have tot: "aead_total toy_sodium" by (simp add: aead_total_def toy_sodium_def)
  have up: "link_up (toy_link ?es)" using w1 w2 by (simp add: toy_link_ok chunk_event_def)
  have tr: "sn_transport (toy_link ?es) = Some ?t" "ts_sends (sn_socket (toy_link ?es)) = []"
    "cs_has_key (nt_send_state ?t)" "cs_nonce_counter (nt_send_state ?t) = 0" "nt_receive_state ?v = nt_send_state ?t"
    by (simp_all add: toy_link_def toy_server_def new_transport_def initialize_key_def new_cipher_state_def)
  have p: "pending (toy_link ?es) = wire1 @ wire2 @ []" "length (ts_incoming (sn_socket (toy_link ?es))) < MAX_RECEIVE_ATTEMPTS"
    by (simp_all add: toy_link_ok MAX_RECEIVE_ATTEMPTS_def)
  have sg: "cl_sign toy_client (ik_secret ?id) (build_auth_signing_input (ac_nonce ?ch) (ik_public ?id)) = Some (replicate 64 0)"
    by (simp add: toy_client_def)
  show ?thesis
    using authenticate_answers_challenge [of toy_client "new_client_session (toy_link ?es) ?id" "toy_link ?es" ?id ?t ?v toy_server
        ?ch ?ok wire1 u1 wire2 u2 "[]" "replicate 64 0", unfolded so, OF toy_sodium_ok(1) tot _ _ _ toy_link_ok(1) tr(1,3,4,5)
        toy_link_ok(2) up tr(2) p(2) v w1(1) w2(1) p(1) sg]
    by (auto simp: new_client_session_def)
qed

text \<open>
  A wait for the server ends: whatever the network does, one call reads at most fifty events, and after
  it the client is as it was but for the reading side and the open flag, which only a broken stream
  clears.
\<close>

lemma receive_available_shrinks:
  "receive_available b s = (ok, any, b', s') \<Longrightarrow> length (ts_incoming s') \<le> length (ts_incoming s) \<and>
     length (ts_incoming s) \<le> length (ts_incoming s') + 1"
  by (auto simp: receive_available_def split: if_splits list.splits recv_event.splits)

lemma pull_attempts_bounded:
  "pull_attempts n c = (r, c') \<Longrightarrow>
     length (ts_incoming (sn_socket c)) \<le> length (ts_incoming (sn_socket c')) + n \<and>
     sn_transport c' = sn_transport c \<and> ts_sent (sn_socket c') = ts_sent (sn_socket c) \<and>
     (sn_open c' \<longrightarrow> sn_open c) \<and> (sn_open c \<longrightarrow> \<not> sn_open c' \<longrightarrow> r = Inl Invalid_frame \<or> r = Inl Closed_by_server)"
proof (induction n arbitrary: c)
  case (Suc n)
  obtain out bad rest where x: "extract_length_prefixed_message (sn_input_buffer c) CLIENT_MAX_NOISE_MESSAGE_SIZE = (out, bad, rest)"
    by (cases "extract_length_prefixed_message (sn_input_buffer c) CLIENT_MAX_NOISE_MESSAGE_SIZE") auto
  obtain ok any b s where r: "receive_available (sn_input_buffer c) (sn_socket c) = (ok, any, b, s)"
    by (cases "receive_available (sn_input_buffer c) (sn_socket c)") auto
  have sent: "ts_sent s = ts_sent (sn_socket c)"
    using r by (auto simp: receive_available_def split: if_splits list.splits recv_event.splits)
  show ?case
  proof (cases "out = None \<and> \<not> bad \<and> ok")
    case True
    then have "pull_attempts n (c\<lparr>sn_socket := s, sn_input_buffer := b\<rparr>) = (r, c')" using Suc.prems x r by simp
    from Suc.IH [OF this] show ?thesis using receive_available_shrinks [OF r] sent by auto
  next
    case False
    then show ?thesis using Suc.prems x r sent receive_available_shrinks [OF r] by (auto split: option.splits if_splits)
  qed
qed simp

section \<open>Failures that leave the connection open\<close>

text \<open>The faults of the stream, after which the connection counts as closed.\<close>

definition stream_fault :: "client_error \<Rightarrow> bool" where
  "stream_fault e \<longleftrightarrow> e \<in> {Invalid_frame, Closed_by_server, Decryption_failed, Malformed_frame}"

lemma send_keeps_open: "client_send_frame lib type payload c = (ok, c') \<Longrightarrow> sn_open c' = sn_open c"
  by (auto simp: client_send_frame_def split: prod.splits option.splits bool.splits)

lemma receive_keeps_open:
  assumes "client_receive_frame lib c = (r, c')" and "sn_open c" and "\<And>e. r = Inl e \<Longrightarrow> \<not> stream_fault e"
  shows "sn_open c'"
proof (cases "sn_transport c")
  case (Some t)
  obtain r1 c1 where p: "pull_next_message c = (r1, c1)" by (rule prod.exhaust)
  note b = pull_attempts_bounded [OF p [unfolded pull_next_message_def]]
  show ?thesis
  proof (cases r1)
    case (Inl e)
    then show ?thesis using assms Some p b by (auto simp: client_receive_frame_def stream_fault_def)
  next
    case (Inr sealed)
    then have "sn_open c1" using b assms(2) by auto
    then show ?thesis using assms Some p Inr
      by (auto simp: client_receive_frame_def stream_fault_def Let_def split: prod.splits option.splits if_splits)
  qed
qed (use assms in \<open>simp add: client_receive_frame_def\<close>)

lemma receive_typed_keeps_open:
  assumes "receive_typed_message lib read_from expected c = (r, c')" and "sn_open c" and "\<And>e. r = Inl e \<Longrightarrow> \<not> stream_fault e"
  shows "sn_open c'"
proof -
  obtain x c1 where x: "client_receive_frame lib c = (x, c1)" by (rule prod.exhaust)
  then have "c' = c1" using assms(1) by (auto simp: receive_typed_message_def split: sum.splits prod.splits if_splits option.splits)
  moreover have "\<not> stream_fault e" if "x = Inl e" for e
    using assms(1,3) x that by (auto simp: receive_typed_message_def)
  ultimately show ?thesis using receive_keeps_open [OF x assms(2)] by simp
qed

text \<open>A login that fails for any other reason than a fault of the stream leaves the connection open.\<close>

lemma failed_login_keeps_open:
  assumes "authenticate lib s = (Inl e, s')" and "sn_open (cs_connection s)" and "\<not> stream_fault e"
  shows "sn_open (cs_connection s')"
proof -
  obtain ok c where h: "client_send_frame (cl_sodium lib) MT_hello_request (encode_with hello_request_write_to
      \<lparr>hq_protocol_version = PROTOCOL_VERSION, hq_client_pubkey = ik_public (cs_identity s)\<rparr>) (cs_connection s) = (ok, c)" by (rule prod.exhaust)
  have oc: "sn_open c" using send_keeps_open [OF h] assms(2) by simp
  obtain r c1 where r: "receive_typed_message (cl_sodium lib) auth_challenge_read_from MT_auth_challenge c = (r, c1)" by (rule prod.exhaust)
  note start = assms(1) [unfolded authenticate_def send_typed_message_def]
  show ?thesis
  proof (cases "ok \<and> (\<exists>challenge. r = Inr challenge)")
    case False
    then show ?thesis using start h r oc receive_typed_keeps_open [OF r oc] assms(3) by (cases ok; cases r) auto
  next
    case True
    then obtain challenge where ch: ok "r = Inr challenge" by blast
    then have o1: "sn_open c1" using receive_typed_keeps_open [OF r oc] by simp
    define s1 where "s1 = s\<lparr>cs_connection := c1, cs_challenge_nonce := ac_nonce challenge\<rparr>"
    obtain q s2 where q: "sign_and_send_response lib s1 = (q, s2)" by (rule prod.exhaust)
    have o2: "sn_open (cs_connection s2)"
      using q o1 send_keeps_open by (fastforce simp: sign_and_send_response_def send_typed_message_def s1_def
          split: option.splits prod.splits bool.splits)
    obtain x c2 where x: "client_receive_frame (cl_sodium lib) (cs_connection s2) = (x, c2)" by (rule prod.exhaust)
    show ?thesis
    proof (cases q)
      case (Inl f)
      then show ?thesis using start h r ch q o2 by (simp add: s1_def [symmetric])
    next
      case (Inr u)
      note rest = start h r ch q Inr x
      have "cs_connection s' = c2" and "\<And>f. x = Inl f \<Longrightarrow> f = e"
        using rest by (auto simp: s1_def [symmetric] Let_def accept_session_def split: sum.splits prod.splits if_splits option.splits)
      then show ?thesis using receive_keeps_open [OF x o2] assms(3) by blast
    qed
  qed
qed

text \<open>A server that says nothing more after the handshake.\<close>

lemma pull_silent:
  assumes "link_up c" and "pending c = []"
  shows "fst (pull_attempts n c) = Inl No_answer"
  using assms
proof (induction n arbitrary: c)
  case (Suc n)
  have empty: "extract_length_prefixed_message [] CLIENT_MAX_NOISE_MESSAGE_SIZE = (None, False, [])" by (simp add: extract_length_prefixed_message_def)
  have b: "sn_input_buffer c = []" using Suc.prems(2) by (simp add: pending_def)
  show ?case
  proof (cases "ts_incoming (sn_socket c)")
    case Nil
    then show ?thesis using Suc b empty by (simp add: receive_available_def link_up_def pending_def)
  next
    case (Cons e es)
    then have "e = Silence" using Suc.prems by (cases e) (auto simp: link_up_def chunk_event_def pending_def)
    then show ?thesis using Suc b empty Cons by (simp add: receive_available_def link_up_def pending_def)
  qed
qed simp

lemma toy_silent_login:
  assumes "ep_socks5_host endpoint = []" and "length (ik_public identity) = 32"
  obtains net keys c s where "open_session toy_sodium net keys endpoint (new_server_connection toy_sodium (replicate 32 k)) = (Inr (), c)"
    and "sn_open c" and "authenticate toy_client (new_client_session c identity) = (Inl No_answer, s)"
proof (rule toy_handshake [of endpoint 2 k])
  let ?s = "replicate 32 k :: bytes" and ?e = "replicate 32 2 :: bytes" and ?f = "replicate 32 3 :: bytes"
  fix m1 i1 m2 k1 k2
  assume h: "write_first_message toy_sodium (Some (?e, ?e)) [] (new_initiator toy_sodium ?s) = (Some m1, i1)"
    "server_answers toy_sodium (?s, ?s) (?f, ?f) m1 m2 (k1, k2)"
    "reaches (toy_network m2) endpoint (toy_socket m2)"
    "ts_connected (toy_socket m2)" "list_all chunk_event (ts_incoming (toy_socket m2))" "ts_sends (toy_socket m2) = []"
    "events_bytes (ts_incoming (toy_socket m2)) = prefixed_bytes m2 @ []" "length (ts_incoming (toy_socket m2)) < MAX_RECEIVE_ATTEMPTS"
  have "sn_server_static_public (new_server_connection toy_sodium ?s) = ?s" by (simp add: new_server_connection_def)
  from pinned_session [OF toy_sodium_ok(1,2) toy_sodium_ok(3) toy_sodium_ok(3) toy_sodium_ok(3) this h]
  obtain c where c: "open_session toy_sodium (toy_network m2) (Some (?e, ?e)) endpoint (new_server_connection toy_sodium ?s) = (Inr (), c)"
    "sn_open c" "sn_transport c = Some (new_transport k2 k1)" "pending c = []" "link_up c" "ts_sends (sn_socket c) = []" by blast
  let ?hello = "encode_with hello_request_write_to \<lparr>hq_protocol_version = PROTOCOL_VERSION, hq_client_pubkey = ik_public identity\<rparr>"
  let ?u = "new_transport k1 k2"
  have "ts_connected (sn_socket c)" using c(5) by (simp add: link_up_def)
  moreover have "length ?hello \<le> MAX_PAYLOAD_SIZE" using assms(2) by (simp add: encode_withI [OF hello_request_emit])
  moreover have "so_aead_encrypt toy_sodium key n [] p \<noteq> None" for key n p by (simp add: toy_sodium_def)
  ultimately obtain wire t' where sent: "client_send_frame toy_sodium MT_hello_request ?hello c =
      (True, c\<lparr>sn_transport := Some t', sn_socket := sn_socket c\<lparr>ts_sent := ts_sent (sn_socket c) @ wire\<rparr>\<rparr>)"
    using send_frame_sends [OF toy_sodium_ok(1) c(2,3), of ?u ?hello MT_hello_request] c(6)
    by (auto simp: new_transport_def initialize_key_def new_cipher_state_def)
  let ?c = "c\<lparr>sn_transport := Some t', sn_socket := sn_socket c\<lparr>ts_sent := ts_sent (sn_socket c) @ wire\<rparr>\<rparr>"
  have "fst (pull_attempts MAX_RECEIVE_ATTEMPTS ?c) = Inl No_answer"
    using c(4,5) by (intro pull_silent) (simp_all add: link_up_def pending_def)
  then obtain c1 where "pull_next_message ?c = (Inl No_answer, c1)" unfolding pull_next_message_def by (metis prod.collapse)
  then have "receive_typed_message toy_sodium auth_challenge_read_from MT_auth_challenge ?c = (Inl No_answer, c1)"
    using c(2) by (simp add: receive_typed_message_def client_receive_frame_def)
  then have "authenticate toy_client (new_client_session c identity) = (Inl No_answer, (new_client_session c identity)\<lparr>cs_connection := c1\<rparr>)"
    using sent by (simp add: authenticate_def send_typed_message_def toy_client_fields(3) new_client_session_def)
  then show thesis using that c(1,2) by blast
qed (use assms in simp_all)

end
