(* ===== verification/Cli_Properties.thy ===== *)
theory Cli_Properties
  imports Cli_Process Client_Properties
begin

text \<open>
  What the command line client does over a connection to a server, with the server's frames given as
  what it replies, and the client's frames stated as what the server reads.
\<close>

section \<open>A conversation\<close>

text \<open>
  Both ends of an open connection hold the same cipher states, nothing but chunks and time-outs comes
  from the network, and \<open>k\<close> more frames can be sent before the nonce runs out.
\<close>

definition linked :: "nat \<Rightarrow> server_connection \<Rightarrow> noise_transport \<Rightarrow> bool" where
  "linked k c u \<longleftrightarrow> sn_open c \<and> link_up c \<and> ts_sends (sn_socket c) = [] \<and>
     length (ts_incoming (sn_socket c)) < MAX_RECEIVE_ATTEMPTS \<and>
     cs_has_key (nt_send_state u) \<and> cs_has_key (nt_receive_state u) \<and>
     unat (cs_nonce_counter (nt_receive_state u)) + k < 2 ^ 64 \<and>
     (\<exists>t. sn_transport c = Some t \<and> nt_receive_state t = nt_send_state u \<and> nt_send_state t = nt_receive_state u)"

text \<open>The frames the server sends one after the other, and those it reads.\<close>

primrec server_replies :: "sodium \<Rightarrow> (message_type \<times> bytes) list \<Rightarrow> noise_transport \<Rightarrow> bytes \<Rightarrow> bool" where
  "server_replies lib [] u wire \<longleftrightarrow> wire = []"
| "server_replies lib (m # ms) u wire \<longleftrightarrow>
     (\<exists>w1 w2 u1. server_sends lib (fst m) (snd m) u w1 u1 \<and> server_replies lib ms u1 w2 \<and> wire = w1 @ w2)"

primrec server_gets :: "sodium \<Rightarrow> (message_type \<times> bytes) list \<Rightarrow> noise_transport \<Rightarrow> bytes \<Rightarrow> bool" where
  "server_gets lib [] u wire \<longleftrightarrow> wire = []"
| "server_gets lib (m # ms) u wire \<longleftrightarrow>
     (\<exists>w1 w2 u1. server_reads lib w1 u (fst m) (snd m) u1 \<and> server_gets lib ms u1 w2 \<and> wire = w1 @ w2)"

lemma server_sends_cong:
  assumes "server_sends lib type payload u wire u1" and "nt_send_state u' = nt_send_state u"
  shows "server_sends lib type payload u' wire (u'\<lparr>nt_send_state := nt_send_state u1\<rparr>)"
proof -
  obtain frame sealed where f: "encode_frame type payload = Some frame" "wire = prefixed_bytes sealed"
    "encrypt_message lib frame u = (Some sealed, u1)" using assms(1) by (auto simp: server_sends_def)
  then have "encrypt_message lib frame u' = (Some sealed, u'\<lparr>nt_send_state := nt_send_state u1\<rparr>)"
    using assms(2) by (auto simp: encrypt_message_def split: prod.splits)
  then show ?thesis using f by (auto simp: server_sends_def)
qed

lemma server_replies_cong:
  "server_replies lib ms u wire \<Longrightarrow> nt_send_state u' = nt_send_state u \<Longrightarrow> server_replies lib ms u' wire"
proof (induction ms arbitrary: u u' wire)
  case (Cons m ms)
  then obtain w1 w2 u1 where w: "server_sends lib (fst m) (snd m) u w1 u1" "server_replies lib ms u1 w2" "wire = w1 @ w2"
    by auto
  have "server_replies lib ms (u'\<lparr>nt_send_state := nt_send_state u1\<rparr>) w2" by (rule Cons.IH [OF w(2)]) simp
  then show ?case using server_sends_cong [OF w(1) Cons.prems(2)] w(3) by auto
qed simp

lemma server_reads_cong:
  assumes "server_reads lib wire u type payload u1" and "nt_receive_state u' = nt_receive_state u"
  shows "server_reads lib wire u' type payload (u'\<lparr>nt_receive_state := nt_receive_state u1\<rparr>)"
proof -
  obtain sealed frame where f: "encode_frame type payload = Some frame" "wire = prefixed_bytes sealed"
    "decrypt_message lib sealed u = (Some frame, u1)" using assms(1) by (auto simp: server_reads_def)
  then have "decrypt_message lib sealed u' = (Some frame, u'\<lparr>nt_receive_state := nt_receive_state u1\<rparr>)"
    using assms(2) by (auto simp: decrypt_message_def split: prod.splits)
  then show ?thesis using f by (auto simp: server_reads_def)
qed

lemma server_gets_cong:
  "server_gets lib ms u wire \<Longrightarrow> nt_receive_state u' = nt_receive_state u \<Longrightarrow> server_gets lib ms u' wire"
proof (induction ms arbitrary: u u' wire)
  case (Cons m ms)
  then obtain w1 w2 u1 where w: "server_reads lib w1 u (fst m) (snd m) u1" "server_gets lib ms u1 w2" "wire = w1 @ w2"
    by auto
  have "server_gets lib ms (u'\<lparr>nt_receive_state := nt_receive_state u1\<rparr>) w2" by (rule Cons.IH [OF w(2)]) simp
  then show ?case using server_reads_cong [OF w(1) Cons.prems(2)] w(3) by auto
qed simp

lemma linked_send:
  assumes "aead_correct lib" and "aead_total lib" and "linked (Suc k) c u" and "length payload \<le> MAX_PAYLOAD_SIZE"
  shows "\<exists>wire c' u'. client_send_frame lib type payload c = (True, c') \<and> linked k c' u' \<and> pending c' = pending c \<and>
    ts_sent (sn_socket c') = ts_sent (sn_socket c) @ wire \<and> nt_send_state u' = nt_send_state u \<and>
    server_reads lib wire u type payload u'"
proof -
  obtain t where t: "sn_transport c = Some t" "nt_receive_state t = nt_send_state u" "nt_send_state t = nt_receive_state u"
    using assms(3) by (auto simp: linked_def)
  note l = assms(3) [unfolded linked_def]
  have n: "cs_nonce_counter (nt_receive_state u) \<noteq> - 1"
  proof
    assume "cs_nonce_counter (nt_receive_state u) = - 1"
    then show False using l by (simp add: unsigned_minus_1_eq_mask mask_eq_exp_minus_1)
  qed
  have up: "in_step c u" using l t by (auto simp: in_step_def)
  have tot: "so_aead_encrypt lib k n [] p \<noteq> None" for k n p using assms(2) by (simp add: aead_total_def)
  have pre: "sn_open c" "cs_has_key (nt_send_state t)" "nt_receive_state u = nt_send_state t"
    "cs_nonce_counter (nt_send_state t) \<noteq> - 1" "ts_connected (sn_socket c)" "ts_sends (sn_socket c) = []"
    using l n t(3) by (simp_all add: link_up_def)
  obtain wire t' u' where s: "client_send_frame lib type payload c =
      (True, c\<lparr>sn_transport := Some t', sn_socket := sn_socket c\<lparr>ts_sent := ts_sent (sn_socket c) @ wire\<rparr>\<rparr>)"
    "server_reads lib wire u type payload u'" "nt_receive_state u' = nt_send_state t'" "nt_send_state u' = nt_send_state u"
    "nt_receive_state t' = nt_receive_state t" "cs_has_key (nt_send_state t')"
    "cs_nonce_counter (nt_send_state t') = cs_nonce_counter (nt_send_state t) + 1"
    using send_frame_sends [OF assms(1) pre(1) t(1) pre(2-6) assms(4) tot, where type = type] by blast
  define c' where "c' = c\<lparr>sn_transport := Some t', sn_socket := sn_socket c\<lparr>ts_sent := ts_sent (sn_socket c) @ wire\<rparr>\<rparr>"
  note r = ready_after_send [OF _ up t(1) s(5) c'_def]
  have "unat (cs_nonce_counter (nt_receive_state u')) = unat (cs_nonce_counter (nt_receive_state u)) + 1"
    using s(3,7) t(3) l by (simp add: unat_word_ariths(1))
  then have "linked k c' u'" using l r s t(2,3) by (auto simp: linked_def c'_def)
  then show ?thesis using s(1,2,4) r(3) l unfolding c'_def by (intro exI conjI) (assumption | simp)+
qed

lemma linked_receive:
  assumes "aead_correct lib" and "linked k c u" and "server_sends lib type payload u wire u'" and "pending c = wire @ extra"
    and "type \<noteq> MT_status_error"
  shows "\<exists>c'. receive_typed_message lib read_from expected c =
      ((if type \<noteq> expected then Inl Unexpected_reply
        else case fst (read_from (byte_reader_of payload)) of None \<Rightarrow> Inl Malformed_reply | Some out \<Rightarrow> Inr out), c') \<and>
    linked k c' u' \<and> pending c' = extra \<and> ts_sent (sn_socket c') = ts_sent (sn_socket c)"
proof -
  obtain t where t: "sn_transport c = Some t" "nt_receive_state t = nt_send_state u" "nt_send_state t = nt_receive_state u"
    using assms(2) by (auto simp: linked_def)
  note l = assms(2) [unfolded linked_def]
  have up: "in_step c u" using l t by (auto simp: in_step_def)
  have rs: "nt_receive_state u' = nt_receive_state u"
    using assms(3) unfolding server_sends_def encrypt_message_def by (fastforce split: prod.splits)
  obtain c' where r: "receive_typed_message lib read_from expected c =
      ((if type \<noteq> expected then Inl Unexpected_reply
        else case fst (read_from (byte_reader_of payload)) of None \<Rightarrow> Inl Malformed_reply | Some out \<Rightarrow> Inr out), c')"
    and c': "sn_open c'" "in_step c' u'" "link_up c'" "pending c' = extra"
    "length (ts_incoming (sn_socket c')) \<le> length (ts_incoming (sn_socket c))"
    "ts_sent (sn_socket c') = ts_sent (sn_socket c)" "ts_sends (sn_socket c') = ts_sends (sn_socket c)"
    "map_option nt_send_state (sn_transport c') = map_option nt_send_state (sn_transport c)"
    using receive_typed_reads [OF assms(1) _ up _ assms(3,4) _ assms(5), of read_from expected] l by blast
  have "linked k c' u'" using c' l t rs by (auto simp: linked_def in_step_def)
  then show ?thesis using r c'(4,6) by blast
qed

section \<open>Commands\<close>

abbreviation link_of :: "cli_context \<Rightarrow> server_connection" where
  "link_of s \<equiv> cs_connection (cx_session s)"

abbreviation sent_of :: "cli_context \<Rightarrow> bytes" where
  "sent_of s \<equiv> ts_sent (sn_socket (link_of s))"

text \<open>The server has these frames on their way to the client, and nothing else.\<close>

definition ready :: "sodium \<Rightarrow> nat \<Rightarrow> (message_type \<times> bytes) list \<Rightarrow> cli_context \<Rightarrow> noise_transport \<Rightarrow> bool" where
  "ready lib k ms s u \<longleftrightarrow> linked k (link_of s) u \<and> server_replies lib ms u (pending (link_of s))"

text \<open>From one state to another the client has sent exactly these frames, as the same user.\<close>

definition heard :: "sodium \<Rightarrow> (message_type \<times> bytes) list \<Rightarrow> cli_context \<Rightarrow> noise_transport \<Rightarrow> cli_context \<Rightarrow> noise_transport \<Rightarrow> bool" where
  "heard lib qs s u s' u' \<longleftrightarrow> own_identity s' = own_identity s \<and>
     (\<exists>wire. sent_of s' = sent_of s @ wire \<and> (\<forall>rs w. server_gets lib rs u' w \<longrightarrow> server_gets lib (qs @ rs) u (wire @ w)))"

lemma heard_trans: "heard lib qs s u s1 u1 \<Longrightarrow> heard lib rs s1 u1 s2 u2 \<Longrightarrow> heard lib (qs @ rs) s u s2 u2"
  unfolding heard_def by (metis append_assoc)

lemma heard_frames: "heard lib qs s u s' u' \<Longrightarrow> \<exists>wire. sent_of s' = sent_of s @ wire \<and> server_gets lib qs u wire"
  unfolding heard_def by (metis append_Nil2 server_gets.simps(1))

lemma heard_print [simp]:
  "heard lib qs s u (s'\<lparr>cx_output := printed\<rparr>) u' = heard lib qs s u s' u'"
  "heard lib qs (s\<lparr>cx_output := printed\<rparr>) u s' u' = heard lib qs s u s' u'"
  "ready lib k ms (s\<lparr>cx_output := printed\<rparr>) u = ready lib k ms s u"
  "own_identity (s\<lparr>cx_output := printed\<rparr>) = own_identity s"
  by (simp_all add: heard_def ready_def own_identity_def)

lemma send_talks:
  assumes "aead_correct lib" and "aead_total lib" and "ready lib (Suc k) ms s u" and "length payload \<le> MAX_PAYLOAD_SIZE"
  shows "\<exists>s' u'. cmd_send (client_send_frame lib type payload) m s = (Inr (), s') \<and> ready lib k ms s' u' \<and>
    heard lib [(type, payload)] s u s' u' \<and> cx_output s' = cx_output s"
proof -
  have l: "linked (Suc k) (link_of s) u" and r: "server_replies lib ms u (pending (link_of s))"
    using assms(3) by (simp_all add: ready_def)
  obtain wire c' u' where c: "client_send_frame lib type payload (link_of s) = (True, c')" "linked k c' u'"
    "pending c' = pending (link_of s)" "ts_sent (sn_socket c') = sent_of s @ wire" "nt_send_state u' = nt_send_state u"
    "server_reads lib wire u type payload u'" using linked_send [OF assms(1,2) l assms(4), where type = type] by blast
  let ?s = "s\<lparr>cx_session := (cx_session s)\<lparr>cs_connection := c'\<rparr>\<rparr>"
  have "cmd_send (client_send_frame lib type payload) m s = (Inr (), ?s)"
    using c(1) by (simp add: cmd_send_def through_connection_def)
  moreover have "ready lib k ms ?s u'" using c(2,3) server_replies_cong [OF r c(5)] by (simp add: ready_def)
  moreover have "heard lib [(type, payload)] s u ?s u'"
  proof -
    have "server_gets lib ([(type, payload)] @ rs) u (wire @ w)" if "server_gets lib rs u' w" for rs w
      using c(6) that by auto
    then show ?thesis using c(4) by (auto simp: heard_def own_identity_def)
  qed
  ultimately show ?thesis by (intro exI conjI) (assumption | simp)+
qed

lemma receive_talks:
  assumes "aead_correct lib" and "ready lib k ((type, reply) # ms) s u"
    and "type \<noteq> MT_status_error" and "fst (read_from (byte_reader_of reply)) = Some r"
  shows "\<exists>s' u'. cmd_receive (receive_typed_message lib read_from type) s = (Inr r, s') \<and> ready lib k ms s' u' \<and>
    heard lib [] s u s' u' \<and> cx_output s' = cx_output s"
proof -
  obtain w1 w2 u' where w: "server_sends lib type reply u w1 u'" "server_replies lib ms u' w2" "pending (link_of s) = w1 @ w2"
    and l: "linked k (link_of s) u" using assms(2) by (auto simp: ready_def)
  obtain c' where c: "receive_typed_message lib read_from type (link_of s) = (Inr r, c')" "linked k c' u'" "pending c' = w2"
    "ts_sent (sn_socket c') = sent_of s"
    using linked_receive [OF assms(1) l w(1,3) assms(3), of read_from type] assms(4) by auto
  have n: "nt_receive_state u' = nt_receive_state u"
    using w(1) unfolding server_sends_def encrypt_message_def by (fastforce split: prod.splits)
  let ?s = "s\<lparr>cx_session := (cx_session s)\<lparr>cs_connection := c'\<rparr>\<rparr>"
  have "cmd_receive (receive_typed_message lib read_from type) s = (Inr r, ?s)"
    using c(1) by (simp add: cmd_receive_def through_connection_def)
  moreover have "ready lib k ms ?s u'" using c(2,3) w(2) by (simp add: ready_def)
  moreover have "heard lib [] s u ?s u'"
    using c(4) server_gets_cong [OF _ n [symmetric]] by (simp add: heard_def own_identity_def)
  ultimately show ?thesis by (intro exI conjI) (assumption | simp)+
qed

lemma exchange_talks:
  assumes "aead_correct lib" and "aead_total lib" and "ready lib (Suc k) ((expected, reply) # ms) s u"
    and "expected \<noteq> MT_status_error" and "length (encode_with write_to q) \<le> MAX_PAYLOAD_SIZE"
    and "fst (read_from (byte_reader_of reply)) = Some r"
  shows "\<exists>s' u'. exchange lib write_to type q read_from expected s = (Inr r, s') \<and> ready lib k ms s' u' \<and>
    heard lib [(type, encode_with write_to q)] s u s' u' \<and> cx_output s' = cx_output s"
proof -
  obtain s1 u1 where s1: "cmd_send (client_send_frame lib type (encode_with write_to q)) (ascii ''envoi impossible'') s = (Inr (), s1)"
    "ready lib k ((expected, reply) # ms) s1 u1" "heard lib [(type, encode_with write_to q)] s u s1 u1" "cx_output s1 = cx_output s"
    using send_talks [OF assms(1-3,5), where type = type] by blast
  obtain s2 u2 where s2: "cmd_receive (receive_typed_message lib read_from expected) s1 = (Inr r, s2)"
    "ready lib k ms s2 u2" "heard lib [] s1 u1 s2 u2" "cx_output s2 = cx_output s1"
    using receive_talks [of lib k expected reply ms s1 u1 read_from r, OF assms(1) s1(2) assms(4,6)] by blast
  have "exchange lib write_to type q read_from expected s = (Inr r, s2)"
    using s1(1) s2(1) by (simp add: exchange_def cmd_bind_def send_typed_message_def [abs_def])
  then show ?thesis using s2(2,4) heard_trans [OF s1(3) s2(3)] s1(4) by auto
qed

section \<open>A server that answers\<close>

text \<open>For the witnesses: a server that sends any short replies.\<close>

lemma toy_replies:
  "list_all (\<lambda>m. length (snd m) \<le> 1000) ms \<Longrightarrow> cs_has_key (nt_send_state u) \<Longrightarrow>
   unat (cs_nonce_counter (nt_send_state u)) + length ms < 2 ^ 64 \<Longrightarrow>
   \<exists>ws. server_replies toy_sodium ms u (concat ws) \<and> length ws = length ms \<and> list_all (\<lambda>w. w \<noteq> [] \<and> length w \<le> 2000) ws"
proof (induction ms arbitrary: u)
  case (Cons m ms)
  have "cs_nonce_counter (nt_send_state u) \<noteq> - 1"
  proof
    assume "cs_nonce_counter (nt_send_state u) = - 1"
    then show False using Cons.prems(3) by (simp add: unsigned_minus_1_eq_mask mask_eq_exp_minus_1)
  qed
  then obtain w u1 where w: "server_sends toy_sodium (fst m) (snd m) u w u1" "w \<noteq> []" "length w \<le> 2000" "cs_has_key (nt_send_state u1)"
    "cs_nonce_counter (nt_send_state u1) = cs_nonce_counter (nt_send_state u) + 1"
    using toy_sends [OF Cons.prems(2), of "snd m" "fst m"] Cons.prems(1) by auto
  then have "unat (cs_nonce_counter (nt_send_state u1)) + length ms < 2 ^ 64"
    using Cons.prems(3) by (simp add: unat_word_ariths(1))
  then obtain ws where "server_replies toy_sodium ms u1 (concat ws)" "length ws = length ms" "list_all (\<lambda>w. w \<noteq> [] \<and> length w \<le> 2000) ws"
    using Cons.IH [of u1] Cons.prems(1) w(4) by auto
  then show ?case using w by (intro exI [of _ "w # ws"]) auto
qed (simp add: exI [of _ "[]"])

definition toy_context :: "recv_event list \<Rightarrow> u8 \<Rightarrow> cli_context" where
  "toy_context es k = \<lparr>cx_session = new_client_session (toy_link es) (toy_identity k), cx_output = []\<rparr>"

lemma events_bytes_chunks: "events_bytes (map Received ws) = concat ws"
  by (induction ws) simp_all

lemma toy_ready:
  assumes "list_all (\<lambda>m. length (snd m) \<le> 1000) ms" and "length ms < 50" and "k < 1000"
  shows "\<exists>es. ready toy_sodium k ms (toy_context es i) toy_server"
proof -
  obtain ws where ws: "server_replies toy_sodium ms toy_server (concat ws)" "length ws = length ms"
    "list_all (\<lambda>w. w \<noteq> [] \<and> length w \<le> 2000) ws"
    using toy_replies [OF assms(1) toy_server_keys(1)] toy_server_keys(2) assms(2) by auto
  let ?es = "map Received ws"
  have "list_all chunk_event ?es" using ws(3) by (auto simp: list_all_iff chunk_event_def)
  then have "linked k (toy_link ?es) toy_server"
    using ws(2) assms(2,3) toy_link_ok(1,4,5) [of ?es]
    by (simp add: linked_def MAX_RECEIVE_ATTEMPTS_def toy_link_def toy_server_def new_transport_def initialize_key_def new_cipher_state_def)
  then have "ready toy_sodium k ms (toy_context ?es i) toy_server"
    using ws(1) by (simp add: ready_def toy_context_def new_client_session_def toy_link_ok(3) events_bytes_chunks)
  then show ?thesis by blast
qed

section \<open>Private messages\<close>

lemma parse_encoded_key: "length key = PUBLIC_KEY_SIZE \<Longrightarrow> parse_public_key (encode_hex key) = Some key"
  by (simp add: parse_public_key_def decode_hex_def decode_encode_hex_pairs)

lemma prekey_offer_read:
  "prekey_bundle_response_valid offer \<Longrightarrow>
     fst (prekey_bundle_response_read_from (byte_reader_of (encode_with prekey_bundle_response_write_to offer))) = Some offer"
  using prekey_bundle_response.roundtrip [of offer "[]"] by simp

lemma status_ok_read: "fst (status_ok_response_read_from (byte_reader_of (encode_with status_ok_response_write_to m))) = Some m"
  using status_ok_response.roundtrip [of m "[]"] by (simp add: status_ok_response_valid_def)

lemma dm_requests_fit:
  "length key = PUBLIC_KEY_SIZE \<Longrightarrow> length (encode_with prekey_fetch_request_write_to \<lparr>pf_target_pubkey = key\<rparr>) \<le> MAX_PAYLOAD_SIZE"
  "length key = PUBLIC_KEY_SIZE \<Longrightarrow> length c \<le> MAX_DM_CIPHERTEXT_SIZE \<Longrightarrow>
     length (encode_with dm_send_request_write_to \<lparr>ds_recipient_pubkey = key, ds_ciphertext = c\<rparr>) \<le> MAX_PAYLOAD_SIZE"
  by (simp_all add: encode_withI [OF prekey_fetch_request_emit] encode_withI [OF dm_send_request_emit])

text \<open>
  C22: what \<^verbatim>\<open>dm-send\<close> does. With a server that answers the request for the recipient's keys with an offer,
  and the message with an acknowledgement, the command succeeds and has sent exactly two frames: the
  request for the keys of the recipient that was named, and a message addressed to that recipient; and
  the envelope in it is opened, to the very text, by the identity the offer names. Nothing compares that
  identity with the recipient: the statement holds for any owner of the offer, also for one the server
  chose, whose offer is properly signed by its own key.
\<close>

theorem dm_send_opens_for_offer_owner:
  assumes "aead_correct (cl_sodium lib)" and "aead_total (cl_sodium lib)" and "xaead_correct lib" and "dh_agrees (cl_sodium lib)"
    and "identity_ok lib (own_identity s)" and "identity_ok lib owner"
    and "keypair_ok (cl_sodium lib) (ep, es)" and "derive_local_prekey lib owner = Some (pb_prekey offer, prekey_secret)"
    and "pb_owner_pubkey offer = ik_public owner" and "prekey_bundle_response_valid offer"
    and "seal_direct_message lib (Some (ep, es)) now (own_identity s) offer characters = Inr envelope"
    and "validate_text_field characters" and "length envelope \<le> MAX_DM_CIPHERTEXT_SIZE" and "length recipient = PUBLIC_KEY_SIZE"
    and "ready (cl_sodium lib) 2
      [(MT_prekey_bundle_response, encode_with prekey_bundle_response_write_to offer),
       (MT_status_ok, encode_with status_ok_response_write_to ok)] s u"
  shows "\<exists>s' wire. run_dm_send lib (Some (ep, es)) now [encode_hex recipient, characters] s = (Inr (), s') \<and>
    sent_of s' = sent_of s @ wire \<and>
    server_gets (cl_sodium lib)
      [(MT_prekey_fetch_request, encode_with prekey_fetch_request_write_to \<lparr>pf_target_pubkey = recipient\<rparr>),
       (MT_dm_send_request, encode_with dm_send_request_write_to \<lparr>ds_recipient_pubkey = recipient, ds_ciphertext = envelope\<rparr>)] u wire \<and>
    open_direct_message lib owner envelope = Inr (now, characters)"
proof -
  let ?so = "cl_sodium lib" and ?ok = "encode_with status_ok_response_write_to ok"
  let ?q1 = "\<lparr>pf_target_pubkey = recipient\<rparr>" and ?q2 = "\<lparr>ds_recipient_pubkey = recipient, ds_ciphertext = envelope\<rparr>"
  have two: "ready ?so (Suc (Suc 0)) [(MT_prekey_bundle_response, encode_with prekey_bundle_response_write_to offer), (MT_status_ok, ?ok)] s u"
    using assms(15) by (simp add: numeral_2_eq_2)
  obtain s1 u1 where s1: "fetch_recipient_bundle lib recipient s = (Inr offer, s1)" "ready ?so (Suc 0) [(MT_status_ok, ?ok)] s1 u1"
    "heard ?so [(MT_prekey_fetch_request, encode_with prekey_fetch_request_write_to ?q1)] s u s1 u1"
    using exchange_talks [OF assms(1,2) two _ dm_requests_fit(1) [OF assms(14)], where read_from = prekey_bundle_response_read_from and r = offer, OF _ prekey_offer_read [OF assms(10)],
        where type = MT_prekey_fetch_request] unfolding fetch_recipient_bundle_def by auto
  obtain s2 u2 where s2: "exchange_status lib dm_send_request_write_to MT_dm_send_request ?q2 s1 = (Inr ok, s2)"
    "heard ?so [(MT_dm_send_request, encode_with dm_send_request_write_to ?q2)] s1 u1 s2 u2"
    using exchange_talks [OF assms(1,2) s1(2) _ dm_requests_fit(2) [OF assms(14,13)], where read_from = status_ok_response_read_from and r = ok, OF _ status_ok_read,
        where type = MT_dm_send_request] unfolding exchange_status_def by auto
  have id: "own_identity s1 = own_identity s" using s1(3) by (simp add: heard_def)
  obtain s3 where s3: "run_dm_send lib (Some (ep, es)) now [encode_hex recipient, characters] s = (Inr (), s3)" "sent_of s3 = sent_of s2"
    using s1(1) s2(1) id assms(11)
    by (simp add: run_dm_send_def cmd_bind_Inr [of "fetch_recipient_bundle lib recipient"] cmd_bind_Inr [of "exchange_status _ _ _ _"]
        parse_encoded_key [OF assms(14)] print_def)
  show ?thesis
    using heard_frames [OF heard_trans [OF s1(3) s2(2)]] s3 assms(12)
      sealed_message_opens(1) [OF assms(3,4,5,6,7,8,9,11)] by auto
qed

lemma toy_laws: "aead_correct (cl_sodium toy_client)" "aead_total (cl_sodium toy_client)"
  using toy_sodium_ok(1) by (simp_all add: toy_client_fields(3) aead_total_def) (simp add: toy_sodium_def)

lemma toy_user: "own_identity (toy_context es k) = toy_identity k"
  by (simp add: own_identity_def toy_context_def new_client_session_def)

text \<open>The message is for the key of ones; the server offers the key of twos, and its owner reads it.\<close>

theorem dm_send_opens_for_offer_owner_witness:
  "\<exists>es s' envelope. run_dm_send toy_client (Some (replicate 32 3, replicate 32 3)) 99 [encode_hex (replicate 32 1), ascii ''salut'']
      (toy_context es 4) = (Inr (), s') \<and>
    open_direct_message toy_client (toy_identity 2) envelope = Inr (99, ascii ''salut'')"
proof -
  obtain pk sk where p: "derive_local_prekey toy_client (toy_identity 2) = Some (pk, sk)" "length pk = 32" using toy_prekey by blast
  let ?offer = "\<lparr>pb_owner_pubkey = ik_public (toy_identity 2), pb_prekey = pk, pb_signature = replicate 64 0, pb_created_at = 0\<rparr>"
  let ?ok = "\<lparr>so_reference_id = 0\<rparr>"
  let ?ms = "[(MT_prekey_bundle_response, encode_with prekey_bundle_response_write_to ?offer),
    (MT_status_ok, encode_with status_ok_response_write_to ?ok)]"
  have l: "length (pb_owner_pubkey ?offer) = 32" by (simp add: toy_identity_def)
  obtain envelope where e: "seal_direct_message toy_client (Some (replicate 32 3, replicate 32 3)) 99 (toy_identity 4) ?offer
      (ascii ''salut'') = Inr envelope" "length envelope \<le> 205"
    using toy_seals [OF l, of 3 99 4 "ascii ''salut''"] p(2) by auto
  obtain es where r: "ready toy_sodium 2 ?ms (toy_context es 4) toy_server"
    using toy_ready [of ?ms 2 4] p(2) l
    by (auto simp: encode_withI [OF prekey_bundle_response_emit] encode_withI [OF status_ok_response_emit])
  have h: "derive_local_prekey toy_client (toy_identity 2) = Some (pb_prekey ?offer, sk)" "pb_owner_pubkey ?offer = ik_public (toy_identity 2)"
    "prekey_bundle_response_valid ?offer" "length envelope \<le> MAX_DM_CIPHERTEXT_SIZE" "length (replicate 32 1 :: bytes) = PUBLIC_KEY_SIZE"
    using p l e(2) by (simp_all add: prekey_bundle_response_valid_def)
  have r': "ready (cl_sodium toy_client) 2 ?ms (toy_context es 4) toy_server" using r by (simp only: toy_client_fields(3))
  show ?thesis
    using dm_send_opens_for_offer_owner [OF toy_laws toy_client_ok(1,2) _ toy_identity_ok(1,2) h(1-3) _ toy_text h(4,5) r', unfolded toy_user,
        OF toy_identity_ok(1) e(1)] by blast
qed

lemma dm_list_read:
  "dm_list_response_valid m \<Longrightarrow> fst (dm_list_response_read_from (byte_reader_of (encode_with dm_list_response_write_to m))) = Some m"
  using dm_list_response.roundtrip [of m "[]"] by simp

lemma ids_fit:
  "length ids \<le> 100 \<Longrightarrow> length (encode_with dm_ack_request_write_to \<lparr>da_envelope_ids = ids\<rparr>) \<le> MAX_PAYLOAD_SIZE"
proof -
  have "length (bw_target (fold write_integer ids w)) = length (bw_target w) + 8 * length ids" for w and ids :: "u64 list"
    by (induction ids arbitrary: w) (simp_all add: writer_simps emit_def)
  moreover assume "length ids \<le> 100"
  ultimately show ?thesis by (simp add: encode_with_def dm_ack_request_write_to_def writer_simps emit_def byte_writer_of_def)
qed

lemma fetch_fits: "length (encode_with dm_fetch_request_write_to m) \<le> MAX_PAYLOAD_SIZE"
  by (simp add: encode_withI [OF dm_fetch_request_emit])

lemma opened_ids_length: "length (opened_ids lib identity es) \<le> length es"
  by (simp add: opened_ids_def)

lemma not_isl_iff: "\<not> isl x \<longleftrightarrow> (\<exists>y. x = Inr y)"
  by (cases x) auto

lemma opened_ids_set:
  "set (opened_ids lib identity es) =
     {de_id e |e. e \<in> set es \<and> (\<exists>m. open_direct_message lib identity (de_ciphertext e) = Inr m)}"
  by (simp only: opened_ids_def not_isl_iff set_map set_filter) blast

definition acknowledge :: "client_lib \<Rightarrow> u64 list \<Rightarrow> (unit, cli_context) command" where
  "acknowledge lib ids =
     cmd_bind (cmd_send (send_typed_message (cl_sodium lib) dm_ack_request_write_to MT_dm_ack_request
       \<lparr>da_envelope_ids = ids\<rparr>) (ascii ''accuse de reception impossible'')) (\<lambda>_.
     cmd_bind (cmd_receive (receive_typed_message (cl_sodium lib) status_ok_response_read_from MT_status_ok)) (\<lambda>_.
     cmd_return ()))"

lemma acknowledge_talks:
  assumes "aead_correct (cl_sodium lib)" and "aead_total (cl_sodium lib)" and "length ids \<le> 100"
    and "ready (cl_sodium lib) (Suc 0) [(MT_status_ok, encode_with status_ok_response_write_to ok)] s u"
  shows "\<exists>s' u'. acknowledge lib ids s = (Inr (), s') \<and> cx_output s' = cx_output s \<and>
    heard (cl_sodium lib) [(MT_dm_ack_request, encode_with dm_ack_request_write_to \<lparr>da_envelope_ids = ids\<rparr>)] s u s' u'"
proof -
  let ?so = "cl_sodium lib" and ?ack = "encode_with dm_ack_request_write_to \<lparr>da_envelope_ids = ids\<rparr>"
  obtain s1 u1 where s1: "cmd_send (client_send_frame ?so MT_dm_ack_request ?ack) (ascii ''accuse de reception impossible'') s = (Inr (), s1)"
    "ready ?so 0 [(MT_status_ok, encode_with status_ok_response_write_to ok)] s1 u1" "heard ?so [(MT_dm_ack_request, ?ack)] s u s1 u1"
    "cx_output s1 = cx_output s"
    using send_talks [OF assms(1,2,4) ids_fit [OF assms(3)], where type = MT_dm_ack_request] by blast
  obtain s2 u2 where s2: "cmd_receive (receive_typed_message ?so status_ok_response_read_from MT_status_ok) s1 = (Inr ok, s2)"
    "heard ?so [] s1 u1 s2 u2" "cx_output s2 = cx_output s1"
    using receive_talks [OF assms(1) s1(2), where read_from = status_ok_response_read_from, OF _ status_ok_read] by auto
  have "acknowledge lib ids s = (Inr (), s2)"
    using s1(1) s2(1) by (simp add: acknowledge_def cmd_bind_def send_typed_message_def [abs_def])
  then show ?thesis using heard_trans [OF s1(3) s2(2)] s1(4) s2(3) by auto
qed

text \<open>
  C23: what \<^verbatim>\<open>dm-fetch\<close> does. With a server that answers with a list of envelopes, and the acknowledgement
  with its status, the command prints one line for every envelope, in the order of the list, and
  acknowledges, in one frame, exactly the envelopes this identity could open; when it could open none
  it sends no acknowledgement. So a message that could not be read is never deleted from the server.
\<close>

theorem dm_fetch_acknowledges_opened:
  assumes "aead_correct (cl_sodium lib)" and "aead_total (cl_sodium lib)" and "dm_list_response_valid response"
    and "ready (cl_sodium lib) 2
      ((MT_dm_list_response, encode_with dm_list_response_write_to response) #
       (if opened_ids lib (own_identity s) (dl_envelopes response) = [] then []
        else [(MT_status_ok, encode_with status_ok_response_write_to ok)])) s u"
  shows "\<exists>s' wire. run_dm_fetch lib s = (Inr (), s') \<and> sent_of s' = sent_of s @ wire \<and>
    server_gets (cl_sodium lib)
      ((MT_dm_fetch_request, encode_with dm_fetch_request_write_to \<lparr>df_since_id = 0, df_limit = MAX_DM_BATCH_ITEMS\<rparr>) #
       (if opened_ids lib (own_identity s) (dl_envelopes response) = [] then []
        else [(MT_dm_ack_request, encode_with dm_ack_request_write_to
          \<lparr>da_envelope_ids = opened_ids lib (own_identity s) (dl_envelopes response)\<rparr>)])) u wire \<and>
    set (opened_ids lib (own_identity s) (dl_envelopes response)) =
      {de_id e |e. e \<in> set (dl_envelopes response) \<and> (\<exists>m. open_direct_message lib (own_identity s) (de_ciphertext e) = Inr m)} \<and>
    cx_output s' = cx_output s @ decimal_text (length (dl_envelopes response)) @ ascii '' message(s) :'' @ newline @
      concat (concat (map (envelope_line lib (own_identity s)) (dl_envelopes response)))"
proof -
  let ?so = "cl_sodium lib" and ?ok = "encode_with status_ok_response_write_to ok"
  let ?q = "\<lparr>df_since_id = 0, df_limit = MAX_DM_BATCH_ITEMS\<rparr>" and ?id = "own_identity s" and ?es = "dl_envelopes response"
  define ids where "ids = opened_ids lib ?id ?es"
  let ?printed = "cx_output s @ decimal_text (length ?es) @ ascii '' message(s) :'' @ newline @ concat (concat (map (envelope_line lib ?id) ?es))"
  have two: "ready ?so (Suc (Suc 0)) ((MT_dm_list_response, encode_with dm_list_response_write_to response) #
      (if ids = [] then [] else [(MT_status_ok, ?ok)])) s u" using assms(4) by (simp add: ids_def numeral_2_eq_2)
  obtain s1 u1 where s1: "exchange ?so dm_fetch_request_write_to MT_dm_fetch_request ?q dm_list_response_read_from MT_dm_list_response s = (Inr response, s1)"
    "ready ?so (Suc 0) (if ids = [] then [] else [(MT_status_ok, ?ok)]) s1 u1" "cx_output s1 = cx_output s"
    and h1: "heard ?so [(MT_dm_fetch_request, encode_with dm_fetch_request_write_to ?q)] s u s1 u1"
    using exchange_talks [OF assms(1,2) two _ fetch_fits, where read_from = dm_list_response_read_from and r = response,
        OF _ dm_list_read [OF assms(3)], where type = MT_dm_fetch_request] by fastforce
  define s2 where "s2 = s1\<lparr>cx_output := ?printed\<rparr>"
  have id: "own_identity s1 = ?id" "own_identity s2 = ?id" using h1 by (simp_all add: heard_def s2_def)
  have set_ids: "set ids = {de_id e |e. e \<in> set ?es \<and> (\<exists>m. open_direct_message lib ?id (de_ciphertext e) = Inr m)}"
    unfolding ids_def by (rule opened_ids_set)
  have run: "run_dm_fetch lib s = (if ids = [] then (Inr (), s2) else acknowledge lib ids s2)"
    using s1(1,3) id by (simp add: run_dm_fetch_def cmd_bind_Inr [of "exchange _ _ _ _ _ _"] cmd_bind_Inr [of "print _"] print_def
        s2_def ids_def Let_def acknowledge_def)
  show ?thesis
  proof (cases "ids = []")
    case True
    obtain wire where "sent_of s1 = sent_of s @ wire" "server_gets ?so [(MT_dm_fetch_request, encode_with dm_fetch_request_write_to ?q)] u wire"
      using heard_frames [OF h1] by blast
    then show ?thesis using True run set_ids
      by (intro exI [of _ s2] exI [of _ wire]) (simp add: s2_def flip: ids_def del: server_gets.simps)
  next
    case False
    have "length ids \<le> 100" using assms(3) opened_ids_length [of lib ?id ?es] by (simp add: dm_list_response_valid_def valid_list_def ids_def)
    moreover have "ready ?so (Suc 0) [(MT_status_ok, ?ok)] s2 u1" using s1(2) False by (simp add: s2_def)
    ultimately obtain s3 u3 where s3: "acknowledge lib ids s2 = (Inr (), s3)" "cx_output s3 = cx_output s2"
      "heard ?so [(MT_dm_ack_request, encode_with dm_ack_request_write_to \<lparr>da_envelope_ids = ids\<rparr>)] s2 u1 s3 u3"
      using acknowledge_talks [OF assms(1,2)] by blast
    have h: "heard ?so ([(MT_dm_fetch_request, encode_with dm_fetch_request_write_to ?q)] @
        [(MT_dm_ack_request, encode_with dm_ack_request_write_to \<lparr>da_envelope_ids = ids\<rparr>)]) s u s3 u3"
      using heard_trans [OF h1] s3(3) by (simp add: s2_def)
    obtain wire where "sent_of s3 = sent_of s @ wire" "server_gets ?so ([(MT_dm_fetch_request, encode_with dm_fetch_request_write_to ?q)] @
        [(MT_dm_ack_request, encode_with dm_ack_request_write_to \<lparr>da_envelope_ids = ids\<rparr>)]) u wire"
      using heard_frames [OF h] by blast
    then show ?thesis
      using run False s3(1,2) set_ids
      by (intro exI [of _ s3] exI [of _ wire]) (simp add: s2_def flip: ids_def del: server_gets.simps)
  qed
qed

text \<open>Of two envelopes the second one opens.\<close>

theorem dm_fetch_acknowledges_opened_witness:
  "\<exists>es s' wire envelope. run_dm_fetch toy_client (toy_context es 2) = (Inr (), s') \<and> sent_of s' = wire \<and>
     server_gets toy_sodium [(MT_dm_fetch_request, encode_with dm_fetch_request_write_to \<lparr>df_since_id = 0, df_limit = 100\<rparr>),
       (MT_dm_ack_request, encode_with dm_ack_request_write_to \<lparr>da_envelope_ids = [8]\<rparr>)] toy_server wire \<and>
     open_direct_message toy_client (toy_identity 2) envelope = Inr (99, ascii ''salut'')"
proof -
  obtain pk sk where p: "derive_local_prekey toy_client (toy_identity 2) = Some (pk, sk)" "length pk = 32" using toy_prekey by blast
  let ?offer = "\<lparr>pb_owner_pubkey = ik_public (toy_identity 2), pb_prekey = pk, pb_signature = replicate 64 0, pb_created_at = 0\<rparr>"
  have l: "length (pb_owner_pubkey ?offer) = 32" by (simp add: toy_identity_def)
  obtain envelope where e: "seal_direct_message toy_client (Some (replicate 32 3, replicate 32 3)) 99 (toy_identity 4) ?offer
      (ascii ''salut'') = Inr envelope" "length envelope \<le> 205"
    using toy_seals [OF l, of 3 99 4 "ascii ''salut''"] p(2) by auto
  have o: "open_direct_message toy_client (toy_identity 2) envelope = Inr (99, ascii ''salut'')"
    using sealed_message_opens(1) [OF toy_client_ok(1,2) toy_identity_ok(1,1,2) _ _ e(1), where prekey_secret = sk] p(1) toy_text by simp
  have bad: "open_direct_message toy_client (toy_identity 2) [] = Inl (ascii ''enveloppe illisible'')"
    by (simp add: open_direct_message_def parse_dm_envelope_header_def DM_ENVELOPE_HEADER_SIZE_def)
  let ?r = "\<lparr>dl_envelopes = [\<lparr>de_id = 7, de_sender_pubkey = replicate 32 4, de_ciphertext = []\<rparr>,
      \<lparr>de_id = 8, de_sender_pubkey = replicate 32 4, de_ciphertext = envelope\<rparr>], dl_has_more = 0\<rparr>"
  let ?ms = "[(MT_dm_list_response, encode_with dm_list_response_write_to ?r),
    (MT_status_ok, encode_with status_ok_response_write_to \<lparr>so_reference_id = 0\<rparr>)]"
  have v: "dm_list_response_valid ?r" using e(2) by (simp add: dm_list_response_valid_def valid_list_def dm_envelope_record_valid_def)
  have ids: "opened_ids toy_client (toy_identity 2) (dl_envelopes ?r) = [8]" by (simp add: opened_ids_def o bad)
  have "length (encode_with dm_list_response_write_to ?r) \<le> 1000" using e(2)
    by (simp add: encode_with_def dm_list_response_write_to_def dm_envelope_record_write_to_def write_record_list_def writer_simps
        emit_def byte_writer_of_def prefixed_bytes_def)
  then obtain es where "ready toy_sodium 2 ?ms (toy_context es 2) toy_server"
    using toy_ready [of ?ms 2 2] by (auto simp: encode_withI [OF status_ok_response_emit])
  then have r: "ready (cl_sodium toy_client) 2 ((MT_dm_list_response, encode_with dm_list_response_write_to ?r) #
      (if opened_ids toy_client (own_identity (toy_context es 2)) (dl_envelopes ?r) = [] then []
       else [(MT_status_ok, encode_with status_ok_response_write_to \<lparr>so_reference_id = 0\<rparr>)])) (toy_context es 2) toy_server"
    by (simp only: toy_user ids toy_client_fields(3) list.distinct if_False)
  have sent: "sent_of (toy_context es 2) = []" by (simp add: toy_context_def toy_link_def new_client_session_def)
  show ?thesis
    using dm_fetch_acknowledges_opened [OF toy_laws v r] o
    unfolding sent toy_user ids toy_client_fields(3) by (simp del: server_gets.simps) blast
qed

end
