(* ===== verification/I18n.thy ===== *)
theory I18n
  imports Util
begin

text \<open>
  The texts of the graphical client in its two languages (\<^verbatim>\<open>client/ui/i18n.cpp\<close>). Letters with accents
  are the bytes of their UTF-8 encoding.
\<close>

datatype language = French | English

definition dictionary :: "(bytes \<times> bytes \<times> bytes) list" where
  "dictionary =
     [(ascii ''status_encrypted'', ascii ''Canal chiffr'' @ [195, 169] @ ascii '' (Noise_NK) et authentifi'' @ [195, 169], ascii ''Encrypted channel (Noise_NK) & authenticated''),
      (ascii ''status_offline'', ascii ''Hors ligne'', ascii ''Offline''),
      (ascii ''status_server'', ascii ''Serveur'', ascii ''Server''),
      (ascii ''status_identity'', ascii ''Identit'' @ [195, 169], ascii ''Identity''),
      (ascii ''status_registered'', ascii ''Enregistr'' @ [195, 169] @ ascii '' sous'', ascii ''Registered as''),
      (ascii ''status_unregistered'', ascii ''Non enregistr'' @ [195, 169], ascii ''Not registered''),
      (ascii ''zoom_label'', ascii ''Zoom'', ascii ''Zoom''),
      (ascii ''zoom_reset'', ascii ''100 %'', ascii ''100 %''),
      (ascii ''auth_welcome'', ascii ''BIENVENUE SUR HYPERCOM'', ascii ''WELCOME TO HYPERCOM''),
      (ascii ''auth_desc_1'', ascii ''Votre cl'' @ [195, 169] @ ascii '' publique n'a pas encore de compte sur ce serveur.'', ascii ''Your public key does not have an account on this server yet.''),
      (ascii ''auth_desc_2'', ascii ''Choisissez un pseudo pour vous enregistrer et acc'' @ [195, 169] @ ascii ''der au r'' @ [195, 169] @ ascii ''seau social.'', ascii ''Choose a handle to register and access the social network.''),
      (ascii ''auth_handle_heading'', ascii ''PSEUDO DE COMPTE'', ascii ''ACCOUNT HANDLE''),
      (ascii ''auth_handle_hint'', ascii ''3 '' @ [195, 160] @ ascii '' 32 caract'' @ [195, 168] @ ascii ''res (lettres, chiffres, tiret, soulign'' @ [195, 169] @ ascii '')'', ascii ''3 to 32 characters (letters, numbers, dash, underscore)''),
      (ascii ''auth_btn_register'', ascii ''S'inscrire et se connecter'', ascii ''Register & Connect''),
      (ascii ''auth_success'', ascii ''Compte cr'' @ [195, 169, 195, 169] @ ascii '' avec succ'' @ [195, 168] @ ascii ''s !'', ascii ''Account successfully created!''),
      (ascii ''forum_heading'', ascii ''FORUMS'', ascii ''FORUMS''),
      (ascii ''forum_btn_refresh'', ascii ''Actualiser'', ascii ''Refresh''),
      (ascii ''forum_create_heading'', ascii ''CR'' @ [195, 137] @ ascii ''ER UN FORUM'', ascii ''CREATE FORUM''),
      (ascii ''forum_create_name'', ascii ''Nom'', ascii ''Name''),
      (ascii ''forum_create_desc'', ascii ''Description'', ascii ''Description''),
      (ascii ''forum_create_btn'', ascii ''Cr'' @ [195, 169] @ ascii ''er ce forum'', ascii ''Create this forum''),
      (ascii ''thread_list_heading'', ascii ''FIL'', ascii ''FEED''),
      (ascii ''thread_list_empty'', ascii ''Choisir un forum'', ascii ''Select a forum''),
      (ascii ''thread_create_heading'', ascii ''NOUVEAU POST'', ascii ''NEW POST''),
      (ascii ''thread_create_title'', ascii ''Titre'', ascii ''Title''),
      (ascii ''thread_create_body'', ascii ''Texte'', ascii ''Body''),
      (ascii ''thread_create_btn'', ascii ''Publier le post'', ascii ''Publish post''),
      (ascii ''thread_create_hint'', ascii ''texte et liens uniquement'', ascii ''text and links only''),
      (ascii ''post_read_empty'', ascii ''Choisir un post pour lire le fil'', ascii ''Select a post to read the thread''),
      (ascii ''post_reply_heading'', ascii ''R'' @ [195, 137] @ ascii ''PONDRE'', ascii ''REPLY''),
      (ascii ''post_reply_btn'', ascii ''Publier la r'' @ [195, 169] @ ascii ''ponse'', ascii ''Publish reply''),
      (ascii ''reply_action'', ascii ''r'' @ [195, 169] @ ascii ''pondre'', ascii ''reply''),
      (ascii ''delete_action'', ascii ''retirer'', ascii ''remove''),
      (ascii ''content_removed'', ascii ''[retir'' @ [195, 169] @ ascii '' par son auteur]'', ascii ''[removed by its author]''),
      (ascii ''report_action'', ascii ''signaler'', ascii ''report''),
      (ascii ''report_account_btn'', ascii ''Signaler ce compte'', ascii ''Report this account''),
      (ascii ''replies_heading'', ascii ''R'' @ [195, 137] @ ascii ''PONSES'', ascii ''REPLIES''),
      (ascii ''thread_truncated'', ascii ''(fil tronqu'' @ [195, 169] @ ascii '' par le serveur)'', ascii ''(thread truncated by server)''),
      (ascii ''profile_heading'', ascii ''PROFIL'', ascii ''PROFILE''),
      (ascii ''profile_name'', ascii ''Nom affich'' @ [195, 169], ascii ''Display name''),
      (ascii ''profile_bio'', ascii ''Bio'', ascii ''Bio''),
      (ascii ''profile_btn_save'', ascii ''Enregistrer le profil'', ascii ''Save profile''),
      (ascii ''friends_heading'', ascii ''AMIS'', ascii ''FRIENDS''),
      (ascii ''friends_add'', ascii ''Ajouter par cl'' @ [195, 169], ascii ''Add by key''),
      (ascii ''social_tab_dm'', ascii ''Messages'', ascii ''Messages''),
      (ascii ''social_tab_social'', ascii ''Social'', ascii ''Social''),
      (ascii ''social_view_btn'', ascii ''voir'', ascii ''view''),
      (ascii ''social_favorite_btn'', ascii ''favori'', ascii ''favorite''),
      (ascii ''social_add_btn'', ascii ''+'', ascii ''+''),
      (ascii ''social_save_btn'', ascii ''Enregistrer le top 8'', ascii ''Save top 8''),
      (ascii ''top8_heading'', ascii ''TOP 8'', ascii ''TOP 8''),
      (ascii ''viewed_profile_heading'', ascii ''PROFIL CONSULT'' @ [195, 137], ascii ''VIEWED PROFILE''),
      (ascii ''viewed_profile_empty'', ascii ''Choisir un ami pour voir son profil'', ascii ''Select a friend to view their profile''),
      (ascii ''dm_heading'', ascii ''MESSAGES PRIV'' @ [195, 137] @ ascii ''S'', ascii ''DIRECT MESSAGES''),
      (ascii ''dm_status'', ascii ''Chiffr'' @ [195, 169] @ ascii '' de bout en bout'', ascii ''End-to-end encrypted''),
      (ascii ''dm_desc'', ascii ''Seulement vous, et le destinataire, pouvez lire ces messages.'', ascii ''Only you, and the recipient, can read these messages.''),
      (ascii ''dm_btn_prekey'', ascii ''Publier ma prekey'', ascii ''Publish my prekey''),
      (ascii ''dm_btn_inbox'', ascii ''Relever la bo'' @ [195, 174] @ ascii ''te'', ascii ''Check inbox''),
      (ascii ''dm_recipient'', ascii ''Destinataire'', ascii ''Recipient''),
      (ascii ''dm_btn_send'', ascii ''Chiffrer et envoyer'', ascii ''Encrypt and send''),
      (ascii ''dm_unreadable'', ascii ''illisible'', ascii ''unreadable''),
      (ascii ''identity_heading'', ascii ''IDENTIT'' @ [195, 137], ascii ''IDENTITY''),
      (ascii ''identity_copy_key'', ascii ''Copier ma cl'' @ [195, 169] @ ascii '' publique'', ascii ''Copy my public key''),
      (ascii ''identity_per_server'', ascii ''Cette cl'' @ [195, 169] @ ascii '' ne vaut que sur ce serveur. Ailleurs vous en avez une autre, sans lien avec celle-ci : vos amis doivent vous rajouter sur chaque serveur.'', ascii ''This key only applies to this server. Elsewhere you have a different, unlinked one: your friends must add you again on each server.''),
      (ascii ''servers_heading'', ascii ''SERVEURS'', ascii ''SERVERS''),
      (ascii ''servers_add_heading'', ascii ''REJOINDRE'', ascii ''JOIN''),
      (ascii ''servers_add_hint'', ascii ''Collez le lien re'' @ [195, 167] @ ascii ''u d'un ami (hypercom://'' @ [226, 128, 166] @ ascii ''). Il n'existe pas d'annuaire : on ne rejoint un serveur que sur invitation.'', ascii ''Paste the link a friend sent you (hypercom://'' @ [226, 128, 166] @ ascii ''). There is no directory: you only join a server by invitation.''),
      (ascii ''servers_add_btn'', ascii ''Ajouter ce serveur'', ascii ''Add this server''),
      (ascii ''trust_heading'', ascii ''AVANT DE VOUS CONNECTER'', ascii ''BEFORE YOU CONNECT''),
      (ascii ''trust_server'', ascii ''Serveur :'', ascii ''Server:''),
      (ascii ''trust_body'', ascii ''L'op'' @ [195, 169] @ ascii ''rateur de ce serveur verra vos publications, vos forums et le moment de vos connexions. Vos messages priv'' @ [195, 169] @ ascii ''s, eux, restent chiffr'' @ [195, 169] @ ascii ''s : il ne peut pas les lire.'', ascii ''This server's operator will see your posts, your forums and when you connect. Your direct messages stay encrypted: they cannot read them.''),
      (ascii ''trust_identity'', ascii ''Vous utiliserez ici une identit'' @ [195, 169] @ ascii '' distincte de celle de vos autres serveurs. Aucun op'' @ [195, 169] @ ascii ''rateur ne peut faire le lien entre elles.'', ascii ''You will use an identity here that is separate from your other servers. No operator can link them together.''),
      (ascii ''trust_accept'', ascii ''J'ai compris, se connecter'', ascii ''Understood, connect'')]"

text \<open>A key that is not in the dictionary is shown as it is.\<close>

definition tr :: "bytes \<Rightarrow> language \<Rightarrow> bytes" where
  "tr key lang =
     (case map_of dictionary key of
        None \<Rightarrow> key | Some (fr, en) \<Rightarrow> if lang = French then fr else en)"

lemma tr_unknown: "key \<notin> fst ` set dictionary \<Longrightarrow> tr key lang = key"
  by (simp add: tr_def map_of_eq_None_iff [THEN iffD2])

end
