(* ===== verification/Ui_Actions.thy ===== *)
theory Ui_Actions
  imports Cli_Commands I18n
begin

text \<open>
  The actions of the graphical client on one server (\<^verbatim>\<open>client/ui/*_actions.cpp\<close>, \<^verbatim>\<open>connection_guard.cpp\<close> and
  the button handlers of the panels). A slot holds the session with a server and what is shown of it; an
  action takes the slot to a new one. What the coming attempts to connect will meet is part of the slot:
  the network and the key pair the generator gives.
\<close>

section \<open>What is shown\<close>

datatype side_panel_tab = Direct_messages | Social

text \<open>A message of the inbox; its date, which nothing shows, is left out.\<close>

record decrypted_message =
  dc_sender_hex :: bytes
  dc_text :: bytes
  dc_readable :: bool

text \<open>A status line: a text of the client, the failure of an exchange, or of a reconnection.\<close>

datatype status_line = Status bytes | Status_failure client_error | Status_lost client_error

text \<open>
  The post and the profile that no reply has filled yet are \<open>None\<close>; the program holds empty records for them,
  which it does not show.
\<close>

record ui_state =
  ui_current_lang :: language
  ui_connected :: bool
  ui_registered :: bool
  ui_handle :: bytes
  ui_identity_hex :: bytes
  ui_server_key_hex :: bytes
  ui_endpoint :: server_endpoint
  ui_status_message :: status_line
  ui_status_is_error :: bool
  ui_intro_requested :: bool
  ui_forums :: "forum_record list"
  ui_selected_forum_id :: u64
  ui_posts :: "post_record list"
  ui_selected_post_id :: u64
  ui_open_post :: "post_record option"
  ui_comments :: "comment_record list"
  ui_thread_truncated :: bool
  ui_active_side_tab :: side_panel_tab
  ui_friends :: "friend_record list"
  ui_viewed_profile :: "profile_record option"
  ui_viewed_top8_slots :: "bytes list"
  ui_viewed_top8_details :: "friend_record list"
  ui_own_top8_slots :: "bytes list"
  ui_own_top8_details :: "friend_record list"
  ui_inbox :: "decrypted_message list"
  ui_forum_name_input :: bytes
  ui_forum_description_input :: bytes
  ui_post_title_input :: bytes
  ui_post_body_input :: bytes
  ui_comment_input :: bytes
  ui_display_name_input :: bytes
  ui_bio_input :: bytes
  ui_dm_recipient_input :: bytes
  ui_dm_text_input :: bytes
  ui_registration_handle_input :: bytes
  ui_friend_add_input :: bytes

definition empty_slot_key :: bytes where "empty_slot_key = replicate PUBLIC_KEY_SIZE 0"

definition new_ui_state :: ui_state where
  "new_ui_state =
     \<lparr>ui_current_lang = French, ui_connected = False, ui_registered = False, ui_handle = [], ui_identity_hex = [],
      ui_server_key_hex = [],
      ui_endpoint = \<lparr>ep_host = [], ep_port = 0, ep_socks5_host = [], ep_socks5_port = 0\<rparr>,
      ui_status_message = Status [], ui_status_is_error = False, ui_intro_requested = False,
      ui_forums = [], ui_selected_forum_id = 0, ui_posts = [], ui_selected_post_id = 0, ui_open_post = None,
      ui_comments = [], ui_thread_truncated = False, ui_active_side_tab = Direct_messages,
      ui_friends = [], ui_viewed_profile = None, ui_viewed_top8_slots = replicate TOP8_SLOT_COUNT empty_slot_key,
      ui_viewed_top8_details = [], ui_own_top8_slots = replicate TOP8_SLOT_COUNT empty_slot_key, ui_own_top8_details = [],
      ui_inbox = [], ui_forum_name_input = [], ui_forum_description_input = [], ui_post_title_input = [],
      ui_post_body_input = [], ui_comment_input = [], ui_display_name_input = [], ui_bio_input = [],
      ui_dm_recipient_input = [], ui_dm_text_input = [], ui_registration_handle_input = [], ui_friend_add_input = []\<rparr>"

type_synonym dial_conditions = "network \<times> (bytes \<times> bytes) option"

record server_slot =
  sl_entry :: server_entry
  sl_session :: client_session
  sl_view :: ui_state
  sl_dials :: "dial_conditions list"

definition update_view :: "(ui_state \<Rightarrow> ui_state) \<Rightarrow> server_slot \<Rightarrow> server_slot" where
  "update_view f slot = slot\<lparr>sl_view := f (sl_view slot)\<rparr>"

definition report_status :: "status_line \<Rightarrow> bool \<Rightarrow> server_slot \<Rightarrow> server_slot" where
  "report_status message is_error =
     update_view (\<lambda>v. v\<lparr>ui_status_message := message, ui_status_is_error := is_error\<rparr>)"

abbreviation report_failure :: "status_line \<Rightarrow> server_slot \<Rightarrow> server_slot" where
  "report_failure message \<equiv> report_status message True"

abbreviation report_success :: "bytes \<Rightarrow> server_slot \<Rightarrow> server_slot" where
  "report_success message \<equiv> report_status (Status message) False"

section \<open>The connection\<close>

definition next_dial :: "server_slot \<Rightarrow> dial_conditions \<times> server_slot" where
  "next_dial slot =
     (case sl_dials slot of
        [] \<Rightarrow> ((\<lambda>_ _. None, None), slot) | d # rest \<Rightarrow> (d, slot\<lparr>sl_dials := rest\<rparr>))"

definition is_open :: "server_slot \<Rightarrow> bool" where
  "is_open slot = sn_open (cs_connection (sl_session slot))"

definition open_and_authenticate :: "client_lib \<Rightarrow> server_endpoint \<Rightarrow> server_slot \<Rightarrow> (client_error + unit) \<times> server_slot" where
  "open_and_authenticate lib endpoint slot =
     (case next_dial slot of
        ((net, keys), slot1) \<Rightarrow>
          (case open_session (cl_sodium lib) net keys endpoint (cs_connection (sl_session slot1)) of
             (Inl e, c) \<Rightarrow> (Inl e, slot1\<lparr>sl_session := (sl_session slot1)\<lparr>cs_connection := c\<rparr>\<rparr>)
           | (Inr _, c) \<Rightarrow>
               (case authenticate lib ((sl_session slot1)\<lparr>cs_connection := c\<rparr>) of
                  (r, session) \<Rightarrow> (r, slot1\<lparr>sl_session := session\<rparr>))))"

definition ensure_connected :: "client_lib \<Rightarrow> server_slot \<Rightarrow> bool \<times> server_slot" where
  "ensure_connected lib slot =
     (if is_open slot then (True, update_view (\<lambda>v. v\<lparr>ui_connected := True\<rparr>) slot)
      else case open_and_authenticate lib (ui_endpoint (sl_view slot)) slot of
        (Inl e, slot1) \<Rightarrow>
          (False, report_failure (Status_lost e) (update_view (\<lambda>v. v\<lparr>ui_connected := False\<rparr>) slot1))
      | (Inr _, slot1) \<Rightarrow>
          (True, report_success (ascii ''reconnecte au serveur'') (update_view (\<lambda>v. v\<lparr>ui_connected := True\<rparr>) slot1)))"

text \<open>A request and its reply; when the request cannot be sent the text of the failure stays empty.\<close>

definition ui_send :: "(server_connection \<Rightarrow> bool \<times> server_connection) \<Rightarrow> server_slot \<Rightarrow> bool \<times> server_slot" where
  "ui_send f slot =
     (case f (cs_connection (sl_session slot)) of
        (success, c) \<Rightarrow> (success, slot\<lparr>sl_session := (sl_session slot)\<lparr>cs_connection := c\<rparr>\<rparr>))"

definition ui_receive ::
  "(server_connection \<Rightarrow> (client_error + 'r) \<times> server_connection) \<Rightarrow> server_slot \<Rightarrow> (status_line + 'r) \<times> server_slot" where
  "ui_receive f slot =
     (case f (cs_connection (sl_session slot)) of
        (r, c) \<Rightarrow> (case r of Inl e \<Rightarrow> Inl (Status_failure e) | Inr x \<Rightarrow> Inr x,
                   slot\<lparr>sl_session := (sl_session slot)\<lparr>cs_connection := c\<rparr>\<rparr>))"

definition ui_exchange ::
  "client_lib \<Rightarrow> ('q \<Rightarrow> byte_writer \<Rightarrow> byte_writer) \<Rightarrow> message_type \<Rightarrow> 'q \<Rightarrow> 'r reader \<Rightarrow> message_type \<Rightarrow> server_slot \<Rightarrow>
    (status_line + 'r) \<times> server_slot" where
  "ui_exchange lib write_to type request read_from expected slot =
     (case ui_send (send_typed_message (cl_sodium lib) write_to type request) slot of
        (False, slot1) \<Rightarrow> (Inl (Status []), slot1)
      | (True, slot1) \<Rightarrow> ui_receive (receive_typed_message (cl_sodium lib) read_from expected) slot1)"

text \<open>An action that needs a connection, and one that goes on with the reply or reports the failure.\<close>

definition when_connected :: "client_lib \<Rightarrow> (server_slot \<Rightarrow> server_slot) \<Rightarrow> server_slot \<Rightarrow> server_slot" where
  "when_connected lib action slot =
     (case ensure_connected lib slot of (False, slot1) \<Rightarrow> slot1 | (True, slot1) \<Rightarrow> action slot1)"

definition on_reply :: "(status_line + 'r) \<times> server_slot \<Rightarrow> ('r \<Rightarrow> server_slot \<Rightarrow> server_slot) \<Rightarrow> server_slot" where
  "on_reply outcome continue =
     (case outcome of (Inl failure, slot) \<Rightarrow> report_failure failure slot | (Inr response, slot) \<Rightarrow> continue response slot)"

section \<open>Forums and threads (\<open>ui_actions.cpp\<close>)\<close>

definition refresh_forum_list :: "client_lib \<Rightarrow> server_slot \<Rightarrow> server_slot" where
  "refresh_forum_list lib = when_connected lib (\<lambda>slot.
     on_reply (ui_exchange lib forum_list_request_write_to MT_forum_list_request
         \<lparr>flq_offset = 0, flq_limit = DEFAULT_LIST_ITEMS\<rparr> forum_list_response_read_from MT_forum_list_response slot) (\<lambda>response.
       update_view (\<lambda>v. v\<lparr>ui_forums := fl_forums response\<rparr>)))"

definition refresh_post_list :: "client_lib \<Rightarrow> server_slot \<Rightarrow> server_slot" where
  "refresh_post_list lib slot =
     (if ui_selected_forum_id (sl_view slot) = 0 then slot
      else when_connected lib (\<lambda>slot.
        on_reply (ui_exchange lib post_list_request_write_to MT_post_list_request
            \<lparr>plq_forum_id = ui_selected_forum_id (sl_view slot), plq_offset = 0, plq_limit = DEFAULT_LIST_ITEMS\<rparr>
            post_list_response_read_from MT_post_list_response slot) (\<lambda>response slot.
          report_success (ascii ''fil a jour'') (update_view (\<lambda>v. v\<lparr>ui_posts := pl_posts response\<rparr>) slot))) slot)"

definition open_thread :: "client_lib \<Rightarrow> u64 \<Rightarrow> server_slot \<Rightarrow> server_slot" where
  "open_thread lib post_id = when_connected lib (\<lambda>slot.
     on_reply (ui_exchange lib thread_fetch_request_write_to MT_thread_fetch_request \<lparr>tfq_post_id = post_id\<rparr>
         thread_response_read_from MT_thread_response slot) (\<lambda>response slot.
       report_success (ascii ''fil ouvert'')
         (update_view (\<lambda>v. v\<lparr>ui_selected_post_id := post_id, ui_open_post := Some (tr_post response),
           ui_comments := tr_comments response, ui_thread_truncated := (tr_truncated response \<noteq> 0)\<rparr>) slot)))"

definition submit_post :: "client_lib \<Rightarrow> server_slot \<Rightarrow> server_slot" where
  "submit_post lib = when_connected lib (\<lambda>slot.
     let v = sl_view slot in
     if ui_post_title_input v = [] \<or> ui_post_body_input v = []
     then report_failure (Status (ascii ''titre et corps sont requis'')) slot
     else on_reply (ui_exchange lib post_create_request_write_to MT_post_create_request
         \<lparr>pc_forum_id = ui_selected_forum_id v, pc_title = ui_post_title_input v, pc_body = ui_post_body_input v\<rparr>
         post_info_response_read_from MT_post_info_response slot) (\<lambda>_ slot.
       report_success (ascii ''post publie'')
         (refresh_post_list lib (update_view (\<lambda>v. v\<lparr>ui_post_title_input := [], ui_post_body_input := []\<rparr>) slot))))"

definition submit_comment :: "client_lib \<Rightarrow> u64 \<Rightarrow> server_slot \<Rightarrow> server_slot" where
  "submit_comment lib parent_comment_id = when_connected lib (\<lambda>slot.
     let v = sl_view slot in
     if ui_comment_input v = [] then report_failure (Status (ascii ''commentaire vide'')) slot
     else on_reply (ui_exchange lib comment_create_request_write_to MT_comment_create_request
         \<lparr>cc_post_id = ui_selected_post_id v, cc_parent_comment_id = parent_comment_id, cc_body = ui_comment_input v\<rparr>
         comment_info_response_read_from MT_comment_info_response slot) (\<lambda>_ slot.
       report_success (ascii ''commentaire publie'')
         (open_thread lib (ui_selected_post_id (sl_view slot)) (update_view (\<lambda>v. v\<lparr>ui_comment_input := []\<rparr>) slot))))"

section \<open>Deletion and reports (\<open>ui_delete_actions.cpp\<close>, \<open>ui_report_actions.cpp\<close>)\<close>

definition ui_exchange_status ::
  "client_lib \<Rightarrow> ('q \<Rightarrow> byte_writer \<Rightarrow> byte_writer) \<Rightarrow> message_type \<Rightarrow> 'q \<Rightarrow> server_slot \<Rightarrow> (status_line + status_ok_response) \<times> server_slot" where
  "ui_exchange_status lib write_to type request =
     ui_exchange lib write_to type request status_ok_response_read_from MT_status_ok"

definition delete_post_action :: "client_lib \<Rightarrow> u64 \<Rightarrow> server_slot \<Rightarrow> server_slot" where
  "delete_post_action lib post_id = when_connected lib (\<lambda>slot.
     on_reply (ui_exchange_status lib post_delete_request_write_to MT_post_delete_request \<lparr>pd_post_id = post_id\<rparr> slot) (\<lambda>_ slot.
       report_success (ascii ''post retire'')
         (refresh_post_list lib (update_view (\<lambda>v. v\<lparr>ui_selected_post_id := 0, ui_comments := []\<rparr>) slot))))"

definition delete_comment_action :: "client_lib \<Rightarrow> u64 \<Rightarrow> server_slot \<Rightarrow> server_slot" where
  "delete_comment_action lib comment_id = when_connected lib (\<lambda>slot.
     on_reply (ui_exchange_status lib comment_delete_request_write_to MT_comment_delete_request \<lparr>cd_comment_id = comment_id\<rparr> slot) (\<lambda>_ slot.
       report_success (ascii ''commentaire retire'') (open_thread lib (ui_selected_post_id (sl_view slot)) slot)))"

definition report_post_action :: "client_lib \<Rightarrow> u64 \<Rightarrow> server_slot \<Rightarrow> server_slot" where
  "report_post_action lib post_id = when_connected lib (\<lambda>slot.
     on_reply (ui_exchange_status lib report_post_request_write_to MT_report_post_request
         \<lparr>rp_post_id = post_id, rp_reason = []\<rparr> slot) (\<lambda>_. report_success (ascii ''signalement envoye'')))"

definition report_account_action :: "client_lib \<Rightarrow> bytes \<Rightarrow> server_slot \<Rightarrow> server_slot" where
  "report_account_action lib target_pubkey = when_connected lib (\<lambda>slot.
     on_reply (ui_exchange_status lib report_account_request_write_to MT_report_account_request
         \<lparr>ra_target_pubkey = target_pubkey, ra_reason = []\<rparr> slot) (\<lambda>_. report_success (ascii ''signalement envoye'')))"

section \<open>Friends, profiles and favourites (\<open>ui_social_actions.cpp\<close>)\<close>

definition refresh_friend_list :: "client_lib \<Rightarrow> server_slot \<Rightarrow> server_slot" where
  "refresh_friend_list lib = when_connected lib (\<lambda>slot.
     on_reply
       (case ui_send (client_send_frame (cl_sodium lib) MT_friend_list_request []) slot of
          (False, slot1) \<Rightarrow> (Inl (Status []), slot1)
        | (True, slot1) \<Rightarrow> ui_receive (receive_typed_message (cl_sodium lib) friend_list_response_read_from MT_friend_list_response) slot1)
       (\<lambda>response. update_view (\<lambda>v. v\<lparr>ui_friends := fls_friends response\<rparr>)))"

definition add_friend :: "client_lib \<Rightarrow> server_slot \<Rightarrow> server_slot" where
  "add_friend lib = when_connected lib (\<lambda>slot.
     case parse_public_key (ui_friend_add_input (sl_view slot)) of
       None \<Rightarrow> report_failure (Status (ascii ''cle publique invalide'')) slot
     | Some target_pubkey \<Rightarrow>
         on_reply (ui_exchange_status lib friend_add_request_write_to MT_friend_add_request
             \<lparr>fa_target_pubkey = target_pubkey, fa_status = FS_accepted\<rparr> slot) (\<lambda>_ slot.
           report_success (ascii ''ami ajoute'')
             (refresh_friend_list lib (update_view (\<lambda>v. v\<lparr>ui_friend_add_input := []\<rparr>) slot))))"

definition view_profile :: "client_lib \<Rightarrow> bytes \<Rightarrow> server_slot \<Rightarrow> server_slot" where
  "view_profile lib target_pubkey = when_connected lib (\<lambda>slot.
     on_reply (ui_exchange lib profile_get_request_write_to MT_profile_get_request \<lparr>pgq_target_pubkey = target_pubkey\<rparr>
         profile_response_read_from MT_profile_response slot) (\<lambda>profile slot.
       on_reply (ui_exchange lib top8_get_request_write_to MT_top8_get_request \<lparr>tg_target_pubkey = target_pubkey\<rparr>
           top8_response_read_from MT_top8_response (update_view (\<lambda>v. v\<lparr>ui_viewed_profile := Some (prs_profile profile)\<rparr>) slot))
         (\<lambda>top8 slot.
           report_success (ascii ''profil charge'')
             (update_view (\<lambda>v. v\<lparr>ui_viewed_top8_slots := t8_slots top8, ui_viewed_top8_details := t8_details top8\<rparr>) slot))))"

definition slot_identity :: "server_slot \<Rightarrow> identity_keypair" where
  "slot_identity slot = cs_identity (sl_session slot)"

definition refresh_own_top8 :: "client_lib \<Rightarrow> server_slot \<Rightarrow> server_slot" where
  "refresh_own_top8 lib = when_connected lib (\<lambda>slot.
     on_reply (ui_exchange lib top8_get_request_write_to MT_top8_get_request
         \<lparr>tg_target_pubkey = ik_public (slot_identity slot)\<rparr> top8_response_read_from MT_top8_response slot) (\<lambda>response.
       update_view (\<lambda>v. v\<lparr>ui_own_top8_slots := t8_slots response, ui_own_top8_details := t8_details response\<rparr>)))"

definition submit_own_top8 :: "client_lib \<Rightarrow> server_slot \<Rightarrow> server_slot" where
  "submit_own_top8 lib = when_connected lib (\<lambda>slot.
     on_reply (ui_exchange_status lib top8_set_request_write_to MT_top8_set_request
         \<lparr>ts_slots = ui_own_top8_slots (sl_view slot)\<rparr> slot) (\<lambda>_ slot.
       report_success (ascii ''top 8 enregistre'') (refresh_own_top8 lib slot)))"

text \<open>The two buttons of the editor (\<^verbatim>\<open>draw_social_panel.cpp\<close>): the first free place, and freeing one.\<close>

fun fill_first_free :: "bytes \<Rightarrow> bytes list \<Rightarrow> bytes list" where
  "fill_first_free key [] = []"
| "fill_first_free key (slot # rest) = (if slot = empty_slot_key then key # rest else slot # fill_first_free key rest)"

definition add_favorite :: "bytes \<Rightarrow> server_slot \<Rightarrow> server_slot" where
  "add_favorite key = update_view (\<lambda>v. v\<lparr>ui_own_top8_slots := fill_first_free key (ui_own_top8_slots v)\<rparr>)"

definition remove_favorite :: "nat \<Rightarrow> server_slot \<Rightarrow> server_slot" where
  "remove_favorite index = update_view (\<lambda>v.
     if index < length (ui_own_top8_slots v) then v\<lparr>ui_own_top8_slots := (ui_own_top8_slots v)[index := empty_slot_key]\<rparr> else v)"

section \<open>Private messages (\<open>ui_dm_actions.cpp\<close>)\<close>

definition publish_own_prekey :: "client_lib \<Rightarrow> server_slot \<Rightarrow> server_slot" where
  "publish_own_prekey lib = when_connected lib (\<lambda>slot.
     case build_prekey_request lib (slot_identity slot) of
       Inl message \<Rightarrow> report_failure (Status message) slot
     | Inr request \<Rightarrow>
         on_reply (ui_exchange_status lib prekey_publish_request_write_to MT_prekey_publish_request request slot) (\<lambda>_.
           report_success (ascii ''prekey publiee : on peut vous ecrire'')))"

definition decrypt_envelope :: "client_lib \<Rightarrow> identity_keypair \<Rightarrow> dm_envelope_record \<Rightarrow> decrypted_message" where
  "decrypt_envelope lib identity envelope =
     (case open_direct_message lib identity (de_ciphertext envelope) of
        Inl reason \<Rightarrow> \<lparr>dc_sender_hex = encode_hex (de_sender_pubkey envelope), dc_text = reason, dc_readable = False\<rparr>
      | Inr (_, characters) \<Rightarrow>
          \<lparr>dc_sender_hex = encode_hex (de_sender_pubkey envelope), dc_text = characters, dc_readable = True\<rparr>)"

definition refresh_inbox :: "client_lib \<Rightarrow> server_slot \<Rightarrow> server_slot" where
  "refresh_inbox lib = when_connected lib (\<lambda>slot.
     on_reply (ui_exchange lib dm_fetch_request_write_to MT_dm_fetch_request \<lparr>df_since_id = 0, df_limit = MAX_DM_BATCH_ITEMS\<rparr>
         dm_list_response_read_from MT_dm_list_response slot) (\<lambda>response slot.
       let slot1 = update_view (\<lambda>v. v\<lparr>ui_inbox := ui_inbox v @
             map (decrypt_envelope lib (slot_identity slot)) (dl_envelopes response)\<rparr>) slot;
           ids = opened_ids lib (slot_identity slot) (dl_envelopes response) in
       if ids = [] then slot1
       else case ui_send (send_typed_message (cl_sodium lib) dm_ack_request_write_to MT_dm_ack_request \<lparr>da_envelope_ids = ids\<rparr>) slot1 of
         (False, slot2) \<Rightarrow> slot2
       | (True, slot2) \<Rightarrow> snd (ui_receive (receive_typed_message (cl_sodium lib) status_ok_response_read_from MT_status_ok) slot2)))"

definition submit_direct_message :: "client_lib \<Rightarrow> (bytes \<times> bytes) option \<Rightarrow> u64 \<Rightarrow> server_slot \<Rightarrow> server_slot" where
  "submit_direct_message lib generated now = when_connected lib (\<lambda>slot.
     case parse_public_key (ui_dm_recipient_input (sl_view slot)) of
       None \<Rightarrow> report_failure (Status (ascii ''cle publique du destinataire invalide'')) slot
     | Some recipient_pubkey \<Rightarrow>
         on_reply (ui_exchange lib prekey_fetch_request_write_to MT_prekey_fetch_request \<lparr>pf_target_pubkey = recipient_pubkey\<rparr>
             prekey_bundle_response_read_from MT_prekey_bundle_response slot) (\<lambda>offer slot.
           case seal_direct_message lib generated now (slot_identity slot) offer (ui_dm_text_input (sl_view slot)) of
             Inl message \<Rightarrow> report_failure (Status message) slot
           | Inr ciphertext \<Rightarrow>
               on_reply (ui_exchange_status lib dm_send_request_write_to MT_dm_send_request
                   \<lparr>ds_recipient_pubkey = recipient_pubkey, ds_ciphertext = ciphertext\<rparr> slot) (\<lambda>_ slot.
                 report_success (ascii ''message chiffre et depose'')
                   (update_view (\<lambda>v. v\<lparr>ui_dm_text_input := []\<rparr>) slot))))"

section \<open>Buttons of the panels\<close>

text \<open>\<^verbatim>\<open>draw_auth_modal.cpp\<close>\<close>

definition submit_registration :: "client_lib \<Rightarrow> server_slot \<Rightarrow> server_slot" where
  "submit_registration lib slot =
     (case register_handle lib (ui_registration_handle_input (sl_view slot)) (sl_session slot) of
        (Inl e, session) \<Rightarrow> report_failure (Status_failure e) (slot\<lparr>sl_session := session\<rparr>)
      | (Inr _, session) \<Rightarrow>
          refresh_forum_list lib
            (update_view (\<lambda>v. v\<lparr>ui_registered := True, ui_handle := cs_handle session,
               ui_status_message := Status (tr (ascii ''auth_success'') (ui_current_lang v)), ui_status_is_error := False,
               ui_intro_requested := True\<rparr>) (slot\<lparr>sl_session := session\<rparr>)))"

text \<open>\<^verbatim>\<open>draw_forum_panel.cpp\<close>\<close>

definition submit_forum :: "client_lib \<Rightarrow> server_slot \<Rightarrow> server_slot" where
  "submit_forum lib = when_connected lib (\<lambda>slot.
     on_reply (ui_exchange lib forum_create_request_write_to MT_forum_create_request
         \<lparr>fc_name = ui_forum_name_input (sl_view slot), fc_description = ui_forum_description_input (sl_view slot), fc_theme_json = []\<rparr>
         forum_info_response_read_from MT_forum_info_response slot) (\<lambda>_ slot.
       report_success (ascii ''forum fonde'')
         (refresh_forum_list lib (update_view (\<lambda>v. v\<lparr>ui_forum_name_input := [], ui_forum_description_input := []\<rparr>) slot))))"

definition select_forum :: "client_lib \<Rightarrow> u64 \<Rightarrow> server_slot \<Rightarrow> server_slot" where
  "select_forum lib forum_id slot = refresh_post_list lib (update_view (\<lambda>v. v\<lparr>ui_selected_forum_id := forum_id\<rparr>) slot)"

text \<open>\<^verbatim>\<open>draw_dm_panel.cpp\<close>\<close>

definition submit_profile :: "client_lib \<Rightarrow> server_slot \<Rightarrow> server_slot" where
  "submit_profile lib = when_connected lib (\<lambda>slot.
     on_reply (ui_exchange_status lib profile_set_request_write_to MT_profile_set_request
         \<lparr>ps_display_name = ui_display_name_input (sl_view slot), ps_bio = ui_bio_input (sl_view slot),
          ps_theme_json = [], ps_banner_reference = []\<rparr> slot) (\<lambda>_. report_success (ascii ''profil enregistre'')))"

definition switch_tab :: "side_panel_tab \<Rightarrow> server_slot \<Rightarrow> server_slot" where
  "switch_tab tab = update_view (\<lambda>v. v\<lparr>ui_active_side_tab := tab\<rparr>)"

text \<open>\<^verbatim>\<open>draw_thread_panel.cpp\<close>: which button is offered for a text.\<close>

datatype offered_action = Nothing_offered | Offer_delete | Offer_report

definition is_own_content :: "server_slot \<Rightarrow> bytes \<Rightarrow> bool" where
  "is_own_content slot author = (author = ik_public (slot_identity slot))"

definition is_removed :: "bytes \<Rightarrow> bool" where
  "is_removed body = (body = [])"

definition offered :: "server_slot \<Rightarrow> bytes \<Rightarrow> bytes \<Rightarrow> offered_action" where
  "offered slot author body =
     (if is_removed body then Nothing_offered else if is_own_content slot author then Offer_delete else Offer_report)"

definition MAX_VISUAL_DEPTH :: u16 where "MAX_VISUAL_DEPTH = 8"

definition visual_depth :: "comment_record \<Rightarrow> u16" where
  "visual_depth comment = (if cr_depth comment > MAX_VISUAL_DEPTH then MAX_VISUAL_DEPTH else cr_depth comment)"

end
