(* ===== verification/Ui_Servers.thy ===== *)
theory Ui_Servers
  imports Ui_Actions Cli_Process
begin

text \<open>
  The graphical client as a whole (\<^verbatim>\<open>client/ui/server_actions.cpp\<close>, \<^verbatim>\<open>gui_main.cpp\<close>): the list of servers, the
  warning before a first connection, the start of the program and what a frame does besides drawing.
\<close>

section \<open>State\<close>

datatype app_status = App_text bytes | App_error cli_error

record app_state =
  ap_current_lang :: language
  ap_active_slot :: nat
  ap_intro_requested :: bool
  ap_status_message :: app_status
  ap_status_is_error :: bool
  ap_invite_input :: bytes
  ap_passphrase :: bytes
  ap_pending_recovery_phrase :: bytes
  ap_registry_path :: bytes
  ap_master_seed_path :: bytes

record ui_app =
  ua_app :: app_state
  ua_slots :: "server_slot list"
  ua_disk :: disk

text \<open>What an operation draws from its surroundings; a seed and the registry are sealed with salts of their own.\<close>

record ui_surroundings =
  us_lib :: client_lib
  us_entropy :: bytes
  us_seed_salt :: bytes
  us_seed_nonce :: bytes
  us_registry_salt :: bytes
  us_registry_nonce :: bytes
  us_dials :: "dial_conditions list"

section \<open>Slots (\<open>server_actions.cpp\<close>)\<close>

definition gui_resolve_seed :: "ui_surroundings \<Rightarrow> ui_app \<Rightarrow> (cli_error + bytes) \<times> ui_app" where
  "gui_resolve_seed w a =
     (let path = ap_master_seed_path (ua_app a); passphrase = ap_passphrase (ua_app a) in
      if is_regular_file path (ua_disk a) then
        (case unlock_seed (us_lib w) path passphrase (ua_disk a) of
           Inl e \<Rightarrow> (Inl (Cli_store e), a) | Inr seed \<Rightarrow> (Inr seed, a))
      else
        (case create_seed (us_lib w) (us_entropy w) (us_seed_salt w) (us_seed_nonce w) path passphrase (ua_disk a) of
           (Inl e, d) \<Rightarrow> (Inl (Cli_store e), a\<lparr>ua_disk := d\<rparr>)
         | (Inr (seed, phrase), d) \<Rightarrow>
             (Inr seed, a\<lparr>ua_disk := d, ua_app := (ua_app a)\<lparr>ap_pending_recovery_phrase := phrase\<rparr>\<rparr>)))"

definition gui_resolve_identity :: "ui_surroundings \<Rightarrow> server_entry \<Rightarrow> ui_app \<Rightarrow> (cli_error + identity_keypair) \<times> ui_app" where
  "gui_resolve_identity w entry a =
     (if se_source entry = Imported then
        (case unlock_identity (us_lib w) (se_imported_identity_path entry) (ap_passphrase (ua_app a)) (ua_disk a) of
           Inl e \<Rightarrow> (Inl (Cli_store e), a) | Inr identity \<Rightarrow> (Inr identity, a))
      else case gui_resolve_seed w a of
        (Inl e, a1) \<Rightarrow> (Inl e, a1)
      | (Inr seed, a1) \<Rightarrow>
          (case derive_server_identity (us_lib w) seed (se_server_key entry) of
             None \<Rightarrow> (Inl (Cli_text (ascii ''derivation de l'identite impossible'')), a1)
           | Some identity \<Rightarrow> (Inr identity, a1)))"

definition persist :: "ui_surroundings \<Rightarrow> ui_app \<Rightarrow> (store_error + unit) \<times> ui_app" where
  "persist w a =
     (case registry_save (us_lib w) (us_registry_salt w) (us_registry_nonce w) (ap_registry_path (ua_app a))
             (ap_passphrase (ua_app a)) (map sl_entry (ua_slots a)) (ua_disk a) of
        (r, d) \<Rightarrow> (r, a\<lparr>ua_disk := d\<rparr>))"

definition app_report :: "app_status \<Rightarrow> bool \<Rightarrow> ui_app \<Rightarrow> ui_app" where
  "app_report message is_error a =
     a\<lparr>ua_app := (ua_app a)\<lparr>ap_status_message := message, ap_status_is_error := is_error\<rparr>\<rparr>"

definition fresh_slot :: "ui_surroundings \<Rightarrow> server_entry \<Rightarrow> identity_keypair \<Rightarrow> language \<Rightarrow> server_slot" where
  "fresh_slot w entry identity lang =
     \<lparr>sl_entry = entry,
      sl_session = new_client_session (new_server_connection (cl_sodium (us_lib w)) (se_server_key entry)) identity,
      sl_view = new_ui_state\<lparr>ui_current_lang := lang, ui_identity_hex := encode_hex (ik_public identity),
        ui_server_key_hex := encode_hex (se_server_key entry), ui_endpoint := se_endpoint entry\<rparr>,
      sl_dials = us_dials w\<rparr>"

definition build_slot :: "ui_surroundings \<Rightarrow> server_entry \<Rightarrow> ui_app \<Rightarrow> (cli_error + server_slot) \<times> ui_app" where
  "build_slot w entry a =
     (case gui_resolve_identity w entry a of
        (Inl e, a1) \<Rightarrow> (Inl e, a1)
      | (Inr identity, a1) \<Rightarrow> (Inr (fresh_slot w entry identity (ap_current_lang (ua_app a1))), a1))"

datatype connect_error = Not_acknowledged bytes | Connect_failed client_error

definition connect_slot :: "client_lib \<Rightarrow> server_slot \<Rightarrow> (connect_error + unit) \<times> server_slot" where
  "connect_slot lib slot =
     (if \<not> se_trust_acknowledged (sl_entry slot) then (Inl (Not_acknowledged (se_label (sl_entry slot))), slot)
      else if is_open slot then (Inr (), update_view (\<lambda>v. v\<lparr>ui_connected := True\<rparr>) slot)
      else case open_and_authenticate lib (se_endpoint (sl_entry slot)) slot of
        (Inl e, slot1) \<Rightarrow> (Inl (Connect_failed e), update_view (\<lambda>v. v\<lparr>ui_connected := False\<rparr>) slot1)
      | (Inr _, slot1) \<Rightarrow>
          (let known = \<not> cs_needs_registration (sl_session slot1) in
           (Inr (), update_view (\<lambda>v. v\<lparr>ui_connected := True, ui_registered := known,
              ui_handle := (if known then cs_handle (sl_session slot1) else ui_handle v)\<rparr>) slot1)))"

definition add_server_from_invite :: "ui_surroundings \<Rightarrow> ui_app \<Rightarrow> ui_app" where
  "add_server_from_invite w a =
     (case parse_invite_link (ap_invite_input (ua_app a)) of
        Inl e \<Rightarrow> app_report (App_error (Cli_invite e)) True a
      | Inr link \<Rightarrow>
          (case decode_key (iv_server_key_hex link) of
             None \<Rightarrow> app_report (App_text (ascii ''cle du serveur illisible'')) True a
           | Some server_key \<Rightarrow>
               (let entry = \<lparr>se_label = iv_host link,
                      se_endpoint = \<lparr>ep_host = iv_host link, ep_port = iv_port link, ep_socks5_host = [], ep_socks5_port = 0\<rparr>,
                      se_server_key = server_key, se_source = Derived, se_imported_identity_path = [],
                      se_trust_acknowledged = False\<rparr> in
                if list_ex (\<lambda>slot. se_server_key (sl_entry slot) = server_key) (ua_slots a)
                then app_report (App_text (ascii ''ce serveur est deja dans la liste'')) True a
                else case build_slot w entry a of
                  (Inl e, a1) \<Rightarrow> app_report (App_error e) True a1
                | (Inr slot, a1) \<Rightarrow>
                    (case persist w (a1\<lparr>ua_slots := ua_slots a1 @ [slot]\<rparr>) of
                       (Inl e, a2) \<Rightarrow> app_report (App_error (Cli_store e)) True a2
                     | (Inr _, a2) \<Rightarrow>
                         app_report (App_text (ascii ''serveur ajoute : '' @ se_label entry)) False
                           (a2\<lparr>ua_app := (ua_app a2)\<lparr>ap_invite_input := []\<rparr>\<rparr>)))))"

definition update_slot :: "nat \<Rightarrow> (server_slot \<Rightarrow> server_slot) \<Rightarrow> ui_app \<Rightarrow> ui_app" where
  "update_slot index f a =
     (if index < length (ua_slots a) then a\<lparr>ua_slots := (ua_slots a)[index := f (ua_slots a ! index)]\<rparr> else a)"

definition acknowledge_slot_trust :: "ui_surroundings \<Rightarrow> nat \<Rightarrow> ui_app \<Rightarrow> ui_app" where
  "acknowledge_slot_trust w index a =
     (if index \<ge> length (ua_slots a) then a
      else case persist w (update_slot index (\<lambda>slot. slot\<lparr>sl_entry := (sl_entry slot)\<lparr>se_trust_acknowledged := True\<rparr>\<rparr>) a) of
        (Inl e, a1) \<Rightarrow> app_report (App_error (Cli_store e)) True a1 | (Inr _, a1) \<Rightarrow> a1)"

section \<open>Frames (\<open>gui_main.cpp\<close>)\<close>

text \<open>The connection of the server on display.\<close>

definition service_slot :: "client_lib \<Rightarrow> server_slot \<Rightarrow> server_slot" where
  "service_slot lib slot =
     (if \<not> se_trust_acknowledged (sl_entry slot) \<or> is_open slot then slot
      else case connect_slot lib slot of
        (Inl (Connect_failed e), slot1) \<Rightarrow> report_failure (Status_failure e) slot1
      | (Inl (Not_acknowledged label), slot1) \<Rightarrow>
          report_failure (Status (ascii ''avertissement non acquitte pour '' @ label)) slot1
      | (Inr _, slot1) \<Rightarrow>
          if ui_registered (sl_view slot1) \<and> ui_forums (sl_view slot1) = [] then refresh_forum_list lib slot1 else slot1)"

definition service_active_slot :: "client_lib \<Rightarrow> ui_app \<Rightarrow> ui_app" where
  "service_active_slot lib a =
     (let index = ap_active_slot (ua_app a) in
      if index \<ge> length (ua_slots a) then a
      else
        let requested = ui_intro_requested (sl_view (ua_slots a ! index));
            a1 = (if requested then a\<lparr>ua_app := (ua_app a)\<lparr>ap_intro_requested := True\<rparr>\<rparr> else a) in
        update_slot index (\<lambda>slot. service_slot lib
          (update_view (\<lambda>v. v\<lparr>ui_current_lang := ap_current_lang (ua_app a),
             ui_intro_requested := False\<rparr>) slot)) a1)"

text \<open>What the middle of the window shows, and which notice lies over it.\<close>

datatype main_area = Empty_area | Columns | Registration_card
datatype notice = No_notice | Recovery_notice | Trust_warning

definition active_slot :: "ui_app \<Rightarrow> server_slot option" where
  "active_slot a =
     (if ap_active_slot (ua_app a) < length (ua_slots a) then Some (ua_slots a ! ap_active_slot (ua_app a)) else None)"

definition shown_area :: "ui_app \<Rightarrow> main_area" where
  "shown_area a =
     (case active_slot a of
        None \<Rightarrow> Empty_area
      | Some slot \<Rightarrow>
          if ui_registered (sl_view slot) then Columns
          else if se_trust_acknowledged (sl_entry slot) then Registration_card else Empty_area)"

definition shown_notice :: "ui_app \<Rightarrow> notice" where
  "shown_notice a =
     (if ap_pending_recovery_phrase (ua_app a) \<noteq> [] then Recovery_notice
      else case active_slot a of
        None \<Rightarrow> No_notice
      | Some slot \<Rightarrow> if se_trust_acknowledged (sl_entry slot) then No_notice else Trust_warning)"

section \<open>Start\<close>

definition load_server_entries :: "ui_surroundings \<Rightarrow> cli_options \<Rightarrow> bytes \<Rightarrow> disk \<Rightarrow> cli_error + server_entry list" where
  "load_server_entries w options passphrase d =
     (if is_regular_file (op_registry_path options) d then
        (case registry_load (us_lib w) (op_registry_path options) passphrase d of
           Inl e \<Rightarrow> Inl (Cli_store e) | Inr entries \<Rightarrow> Inr entries)
      else if length (op_server_key_hex options) \<noteq> 64 then
        Inl (Cli_text (ascii ''Aucun serveur enregistre, et --server-key absent.'' @ newline @ newline @
          ascii ''Ajoutez un serveur avec hypercom_cli server-add, ou passez --server-key.''))
      else case decode_key (op_server_key_hex options) of
        None \<Rightarrow> Inl (Cli_text (ascii ''--server-key doit faire 64 caracteres hexadecimaux.''))
      | Some server_key \<Rightarrow>
          Inr [\<lparr>se_label = op_host options,
            se_endpoint = \<lparr>ep_host = op_host options, ep_port = op_port options,
              ep_socks5_host = op_socks5_host options, ep_socks5_port = op_socks5_port options\<rparr>,
            se_server_key = server_key, se_source = Imported, se_imported_identity_path = op_identity_path options,
            se_trust_acknowledged = True\<rparr>])"

fun build_slots :: "ui_surroundings \<Rightarrow> server_entry list \<Rightarrow> ui_app \<Rightarrow> (cli_error + unit) \<times> ui_app" where
  "build_slots w [] a = (Inr (), a)"
| "build_slots w (entry # entries) a =
     (case build_slot w entry a of
        (Inl e, a1) \<Rightarrow> (Inl e, a1)
      | (Inr slot, a1) \<Rightarrow> build_slots w entries (a1\<lparr>ua_slots := ua_slots a1 @ [slot]\<rparr>))"

definition new_app :: "cli_options \<Rightarrow> bytes \<Rightarrow> disk \<Rightarrow> ui_app" where
  "new_app options passphrase d =
     \<lparr>ua_app = \<lparr>ap_current_lang = French, ap_active_slot = 0, ap_intro_requested = False, ap_status_message = App_text [],
        ap_status_is_error = False, ap_invite_input = [], ap_passphrase = passphrase, ap_pending_recovery_phrase = [],
        ap_registry_path = op_registry_path options, ap_master_seed_path = op_master_seed_path options\<rparr>,
      ua_slots = [], ua_disk = d\<rparr>"

text \<open>The exit code and the message of a start that fails, or the program ready for its first frame.\<close>

definition gui_start ::
  "ui_surroundings \<Rightarrow> bool \<Rightarrow> bool \<Rightarrow> bytes list \<Rightarrow> bytes option \<Rightarrow> bytes option \<Rightarrow> disk \<Rightarrow> (nat \<times> cli_error + ui_app) \<times> disk" where
  "gui_start w sodium_ready window_created args from_environment typed d =
     (if \<not> sodium_ready then (Inl (1, Cli_text (ascii ''libsodium n'a pas pu s'initialiser.'')), d)
      else case parse_cli_options (dk_files d) args default_options False False of
        Inl e \<Rightarrow> (Inl (2, Cli_option e), d)
      | Inr options \<Rightarrow>
          (case read_passphrase from_environment typed of
             None \<Rightarrow> (Inl (3, Cli_text (ascii ''passphrase requise'')), d)
           | Some passphrase \<Rightarrow>
               (case load_server_entries w options passphrase d of
                  Inl e \<Rightarrow> (Inl (4, e), d)
                | Inr entries \<Rightarrow>
                    (case build_slots w entries (new_app options passphrase d) of
                       (Inl e, a) \<Rightarrow> (Inl (5, e), ua_disk a)
                     | (Inr _, a) \<Rightarrow>
                         if \<not> window_created
                         then (Inl (7, Cli_text (ascii ''Creation de la fenetre impossible : pilote OpenGL 3.3 absent ?'')), ua_disk a)
                         else (Inr (a\<lparr>ua_app := (ua_app a)\<lparr>ap_intro_requested := op_replay_intro options\<rparr>\<rparr>), ua_disk a)))))"

section \<open>Everything a user can do\<close>

text \<open>The actions of the columns on the active slot.\<close>

datatype column_action =
    Refresh_forums | Select_forum u64 | Submit_forum | Open_thread u64 | Submit_post | Submit_comment u64
  | Delete_post u64 | Delete_comment u64 | Report_post u64 | Report_account bytes
  | Refresh_friends | Add_friend | View_profile bytes | Add_favorite bytes | Remove_favorite nat | Submit_top8
  | Publish_prekey | Refresh_inbox | Submit_message "(bytes \<times> bytes) option" u64
  | Submit_profile | Switch_tab side_panel_tab

fun column_effect :: "client_lib \<Rightarrow> column_action \<Rightarrow> server_slot \<Rightarrow> server_slot" where
  "column_effect lib Refresh_forums = refresh_forum_list lib"
| "column_effect lib (Select_forum i) = select_forum lib i"
| "column_effect lib Submit_forum = submit_forum lib"
| "column_effect lib (Open_thread i) = open_thread lib i"
| "column_effect lib Submit_post = submit_post lib"
| "column_effect lib (Submit_comment i) = submit_comment lib i"
| "column_effect lib (Delete_post i) = delete_post_action lib i"
| "column_effect lib (Delete_comment i) = delete_comment_action lib i"
| "column_effect lib (Report_post i) = report_post_action lib i"
| "column_effect lib (Report_account k) = report_account_action lib k"
| "column_effect lib Refresh_friends = refresh_friend_list lib"
| "column_effect lib Add_friend = add_friend lib"
| "column_effect lib (View_profile k) = view_profile lib k"
| "column_effect lib (Add_favorite k) = add_favorite k"
| "column_effect lib (Remove_favorite i) = remove_favorite i"
| "column_effect lib Submit_top8 = submit_own_top8 lib"
| "column_effect lib Publish_prekey = publish_own_prekey lib"
| "column_effect lib Refresh_inbox = refresh_inbox lib"
| "column_effect lib (Submit_message generated now) = submit_direct_message lib generated now"
| "column_effect lib Submit_profile = submit_profile lib"
| "column_effect lib (Switch_tab tab) = switch_tab tab"

text \<open>Which of them the columns offer; the side column shows the messages or the social panel.\<close>

definition on_tab :: "side_panel_tab \<Rightarrow> server_slot \<Rightarrow> bool" where
  "on_tab tab slot \<longleftrightarrow> ui_active_side_tab (sl_view slot) = tab"

definition top8_detail :: "bytes \<Rightarrow> friend_record list \<Rightarrow> friend_record option" where
  "top8_detail slot details = (if slot = empty_slot_key then None else find (\<lambda>record. frd_pubkey record = slot) details)"

fun column_enabled :: "server_slot \<Rightarrow> column_action \<Rightarrow> bool" where
  "column_enabled slot (Select_forum i) \<longleftrightarrow> i \<in> fr_id ` set (ui_forums (sl_view slot))"
| "column_enabled slot (Open_thread i) \<longleftrightarrow>
     ui_selected_forum_id (sl_view slot) \<noteq> 0 \<and> i \<in> pr_id ` set (ui_posts (sl_view slot))"
| "column_enabled slot Submit_post \<longleftrightarrow> ui_selected_forum_id (sl_view slot) \<noteq> 0"
| "column_enabled slot (Submit_comment i) \<longleftrightarrow>
     ui_selected_post_id (sl_view slot) \<noteq> 0 \<and> (i = 0 \<or> i \<in> cr_id ` set (ui_comments (sl_view slot)))"
| "column_enabled slot (Delete_post i) \<longleftrightarrow> ui_selected_post_id (sl_view slot) \<noteq> 0 \<and>
     (case ui_open_post (sl_view slot) of
        None \<Rightarrow> False | Some p \<Rightarrow> pr_id p = i \<and> offered slot (pr_author_pubkey p) (pr_body p) = Offer_delete)"
| "column_enabled slot (Report_post i) \<longleftrightarrow> ui_selected_post_id (sl_view slot) \<noteq> 0 \<and>
     (case ui_open_post (sl_view slot) of
        None \<Rightarrow> False | Some p \<Rightarrow> pr_id p = i \<and> offered slot (pr_author_pubkey p) (pr_body p) = Offer_report)"
| "column_enabled slot (Delete_comment i) \<longleftrightarrow> ui_selected_post_id (sl_view slot) \<noteq> 0 \<and>
     list_ex (\<lambda>c. cr_id c = i \<and> offered slot (cr_author_pubkey c) (cr_body c) = Offer_delete) (ui_comments (sl_view slot))"
| "column_enabled slot (Report_account k) \<longleftrightarrow>
     ui_selected_post_id (sl_view slot) \<noteq> 0 \<and>
       list_ex (\<lambda>c. cr_author_pubkey c = k \<and> offered slot (cr_author_pubkey c) (cr_body c) = Offer_report) (ui_comments (sl_view slot)) \<or>
     on_tab Social slot \<and>
       (case ui_viewed_profile (sl_view slot) of None \<Rightarrow> False | Some p \<Rightarrow> prf_handle p \<noteq> [] \<and> prf_pubkey p = k)"
| "column_enabled slot Refresh_friends \<longleftrightarrow> on_tab Social slot"
| "column_enabled slot Add_friend \<longleftrightarrow> on_tab Social slot"
| "column_enabled slot (View_profile k) \<longleftrightarrow> on_tab Social slot \<and> k \<in> frd_pubkey ` set (ui_friends (sl_view slot))"
| "column_enabled slot (Add_favorite k) \<longleftrightarrow> on_tab Social slot \<and> k \<in> frd_pubkey ` set (ui_friends (sl_view slot))"
| "column_enabled slot (Remove_favorite i) \<longleftrightarrow> on_tab Social slot \<and> i < length (ui_own_top8_slots (sl_view slot)) \<and>
     top8_detail (ui_own_top8_slots (sl_view slot) ! i) (ui_own_top8_details (sl_view slot)) \<noteq> None"
| "column_enabled slot Submit_top8 \<longleftrightarrow> on_tab Social slot"
| "column_enabled slot Publish_prekey \<longleftrightarrow> on_tab Direct_messages slot"
| "column_enabled slot Refresh_inbox \<longleftrightarrow> on_tab Direct_messages slot"
| "column_enabled slot (Submit_message generated now) \<longleftrightarrow> on_tab Direct_messages slot"
| "column_enabled slot _ \<longleftrightarrow> True"

text \<open>
  One step of the program: the connection of the active slot at the start of a frame, or one thing the
  user does with what is shown. Typing changes the input fields of a slot and nothing else.
\<close>

definition only_inputs :: "ui_state \<Rightarrow> ui_state \<Rightarrow> bool" where
  "only_inputs v v' \<longleftrightarrow>
     v' = v\<lparr>ui_forum_name_input := ui_forum_name_input v',
       ui_forum_description_input := ui_forum_description_input v', ui_post_title_input := ui_post_title_input v',
       ui_post_body_input := ui_post_body_input v', ui_comment_input := ui_comment_input v',
       ui_display_name_input := ui_display_name_input v', ui_bio_input := ui_bio_input v',
       ui_dm_recipient_input := ui_dm_recipient_input v', ui_dm_text_input := ui_dm_text_input v',
       ui_registration_handle_input := ui_registration_handle_input v', ui_friend_add_input := ui_friend_add_input v'\<rparr>"

text \<open>The language buttons of the top bar; the frame copies the choice to the application.\<close>

definition switch_language :: "language \<Rightarrow> ui_app \<Rightarrow> ui_app" where
  "switch_language lang a =
     (update_slot (ap_active_slot (ua_app a)) (update_view (\<lambda>v. v\<lparr>ui_current_lang := lang\<rparr>)) a)
       \<lparr>ua_app := (ua_app a)\<lparr>ap_current_lang := lang\<rparr>\<rparr>"

text \<open>
  Behind the server bar the frame copies the language of the slot on display to the application. A slot that was
  just chosen brings its own language along, the one it had when it was last on display or was built; in every
  other step the two are equal already.
\<close>

definition copy_language :: "ui_app \<Rightarrow> ui_app" where
  "copy_language a =
     (case active_slot a of
        None \<Rightarrow> a
      | Some slot \<Rightarrow> a\<lparr>ua_app := (ua_app a)\<lparr>ap_current_lang := ui_current_lang (sl_view slot)\<rparr>\<rparr>)"

inductive gui_step :: "ui_surroundings \<Rightarrow> ui_app \<Rightarrow> ui_app \<Rightarrow> bool" for w where
  frame: "gui_step w a (service_active_slot (us_lib w) a)"
| select: "gui_step w a (copy_language (a\<lparr>ua_app := (ua_app a)\<lparr>ap_active_slot := index\<rparr>\<rparr>))" if "index < length (ua_slots a)"
| tongue: "gui_step w a (switch_language lang a)" if "active_slot a \<noteq> None"
| invite: "gui_step w a (add_server_from_invite w' (a\<lparr>ua_app := (ua_app a)\<lparr>ap_invite_input := line\<rparr>\<rparr>))"
    if "us_lib w' = us_lib w"
| trust: "gui_step w a (acknowledge_slot_trust w' (ap_active_slot (ua_app a)) a)"
    if "us_lib w' = us_lib w" and "shown_notice a = Trust_warning"
| noted: "gui_step w a (a\<lparr>ua_app := (ua_app a)\<lparr>ap_pending_recovery_phrase := []\<rparr>\<rparr>)" if "shown_notice a = Recovery_notice"
| register: "gui_step w a (update_slot (ap_active_slot (ua_app a)) (submit_registration (us_lib w)) a)"
    if "shown_area a = Registration_card"
| column: "gui_step w a (update_slot (ap_active_slot (ua_app a)) (column_effect (us_lib w) action) a)"
    if "shown_area a = Columns" and "column_enabled (ua_slots a ! ap_active_slot (ua_app a)) action"
| typing: "gui_step w a (update_slot index (\<lambda>slot. slot\<lparr>sl_view := v\<rparr>) a)"
    if "index < length (ua_slots a)" and "only_inputs (sl_view (ua_slots a ! index)) v"

end
