(* ===== verification/Ui_Properties.thy ===== *)
theory Ui_Properties
  imports Ui_Servers Cli_Registry Client_Properties
begin

text \<open>
  Invariants of the graphical client: what it shows has passed the checks of the protocol, a server is
  not contacted before its warning is acknowledged, and no server is listed twice by adding.
\<close>

section \<open>What an action may do\<close>

text \<open>
  The contract the building blocks of an action keep: exchanges, reconnections and status lines move
  only the session, the coming dials, the status line and the connected flag.
\<close>

locale slot_contract =
  fixes R :: "server_slot \<Rightarrow> server_slot \<Rightarrow> bool"
  assumes slot_refl: "R slot slot"
    and slot_trans: "R slot slot1 \<Longrightarrow> R slot1 slot2 \<Longrightarrow> R slot slot2"
    and slot_session: "R slot (slot\<lparr>sl_session := s\<rparr>)"
    and slot_dials: "R slot (slot\<lparr>sl_dials := d\<rparr>)"
    and slot_status: "R slot (report_status m b slot)"
    and slot_connected: "R slot (update_view (\<lambda>v. v\<lparr>ui_connected := b\<rparr>) slot)"
begin

lemma slot_next_dial: "R slot (snd (next_dial slot))"
  by (simp add: next_dial_def slot_refl slot_dials split: list.split)

lemma slot_open: "R slot (snd (open_and_authenticate lib endpoint slot))"
proof -
  obtain net keys slot1 where d: "next_dial slot = ((net, keys), slot1)" by (metis prod.collapse)
  then have "R slot slot1" using slot_next_dial [of slot] by simp
  then show ?thesis
    using d slot_session slot_trans by (auto simp: open_and_authenticate_def split: prod.split sum.split)
qed

lemma slot_ensure: "R slot (snd (ensure_connected lib slot))"
proof (cases "is_open slot")
  case False
  obtain r slot1 where o: "open_and_authenticate lib (ui_endpoint (sl_view slot)) slot = (r, slot1)" by (metis prod.collapse)
  then have "R slot slot1" using slot_open [of slot lib] by (metis snd_conv)
  then have "R slot (report_status m b (update_view (\<lambda>v. v\<lparr>ui_connected := b'\<rparr>) slot1))" for m b b'
    using slot_trans slot_status slot_connected by blast
  then show ?thesis using False o by (cases r) (simp_all add: ensure_connected_def)
qed (simp add: ensure_connected_def slot_connected)

lemma slot_when_connected:
  assumes "\<And>slot1. R slot1 (act slot1)"
  shows "R slot (when_connected lib act slot)"
proof -
  obtain ok slot1 where e: "ensure_connected lib slot = (ok, slot1)" by (metis prod.collapse)
  then have "R slot slot1" using slot_ensure [of slot lib] by simp
  then show ?thesis using e assms slot_trans by (cases ok) (auto simp: when_connected_def)
qed

lemma slot_send: "R slot (snd (ui_send f slot))"
  and slot_receive: "R slot (snd (ui_receive g slot))"
  by (auto simp: ui_send_def ui_receive_def slot_session split: prod.split)

lemma slot_exchange: "R slot (snd (ui_exchange lib write_to type request read_from expected slot))"
proof -
  obtain ok slot1 where s: "ui_send (send_typed_message (cl_sodium lib) write_to type request) slot = (ok, slot1)" by (metis prod.collapse)
  then have "R slot slot1" by (metis slot_send snd_conv)
  then have "R slot (snd (ui_receive g slot1))" for g using slot_trans slot_receive by blast
  then show ?thesis using s \<open>R slot slot1\<close> by (cases ok) (simp_all add: ui_exchange_def)
qed

lemma slot_on_reply:
  assumes "R slot (snd outcome)" and "\<And>r slot1. fst outcome = Inr r \<Longrightarrow> R slot1 (continue r slot1)"
  shows "R slot (on_reply outcome continue)"
proof (cases outcome)
  case (Pair r slot1)
  then show ?thesis using assms slot_trans slot_status by (cases r) (auto simp: on_reply_def)
qed

lemma slot_then: "R slot slot1 \<Longrightarrow> R slot (report_status m b slot1)"
  using slot_trans slot_status by blast

end

section \<open>Replies\<close>

text \<open>Some payload is read as this message.\<close>

definition reads_as :: "'r reader \<Rightarrow> 'r \<Rightarrow> bool" where
  "reads_as read_from r \<longleftrightarrow> (\<exists>payload. fst (read_from (byte_reader_of payload)) = Some r)"

context codec
begin

lemma received_valid: "reads_as read_from x \<Longrightarrow> valid x"
  unfolding reads_as_def using inverts(1) by (metis prod.collapse)

end

lemma receive_typed_payload:
  "receive_typed_message lib read_from expected c = (Inr r, c') \<Longrightarrow> reads_as read_from r"
  by (auto simp: reads_as_def receive_typed_message_def split: prod.splits sum.splits if_splits option.splits)

lemma ui_receive_payload:
  assumes "fst (ui_receive (receive_typed_message lib read_from expected) slot) = Inr r"
  shows "reads_as read_from r"
proof (cases "receive_typed_message lib read_from expected (cs_connection (sl_session slot))")
  case (Pair x c)
  then have "x = Inr r" using assms by (cases x) (simp_all add: ui_receive_def)
  then show ?thesis using receive_typed_payload [of lib read_from expected] Pair by blast
qed

lemma ui_exchange_payload:
  assumes "fst (ui_exchange lib write_to type request read_from expected slot) = Inr r"
  shows "reads_as read_from r"
proof (cases "ui_send (send_typed_message (cl_sodium lib) write_to type request) slot")
  case (Pair ok slot1)
  then have "fst (ui_receive (receive_typed_message (cl_sodium lib) read_from expected) slot1) = Inr r"
    using assms by (cases ok) (simp_all add: ui_exchange_def)
  then show ?thesis by (rule ui_receive_payload)
qed

section \<open>Well-formed views\<close>

definition view_ok :: "ui_state \<Rightarrow> bool" where
  "view_ok v \<longleftrightarrow> list_all forum_record_valid (ui_forums v) \<and> list_all post_record_valid (ui_posts v) \<and>
     pred_option post_record_valid (ui_open_post v) \<and> list_all comment_record_valid (ui_comments v) \<and>
     list_all friend_record_valid (ui_friends v) \<and> pred_option profile_record_valid (ui_viewed_profile v) \<and>
     slots_valid (ui_viewed_top8_slots v) \<and> list_all friend_record_valid (ui_viewed_top8_details v) \<and>
     slots_valid (ui_own_top8_slots v) \<and> list_all friend_record_valid (ui_own_top8_details v)"

definition shows_valid :: "server_slot \<Rightarrow> server_slot \<Rightarrow> bool" where
  "shows_valid slot slot' \<longleftrightarrow> sl_entry slot' = sl_entry slot \<and> (view_ok (sl_view slot) \<longrightarrow> view_ok (sl_view slot'))"

interpretation shown: slot_contract shows_valid
  by unfold_locales (auto simp: shows_valid_def report_status_def update_view_def view_ok_def)

lemma shown_view:
  "(view_ok (sl_view slot) \<Longrightarrow> view_ok (f (sl_view slot))) \<Longrightarrow> shows_valid slot (update_view f slot)"
  by (simp add: shows_valid_def update_view_def)

lemma shown_reply:
  assumes "\<And>r slot1. reads_as read_from r \<Longrightarrow> shows_valid slot1 (continue r slot1)"
  shows "shows_valid slot (on_reply (ui_exchange lib write_to type request read_from expected slot) continue)"
  by (rule shown.slot_on_reply [OF shown.slot_exchange]) (rule assms, erule ui_exchange_payload)

lemma shown_status:
  assumes "\<And>r slot1. shows_valid slot1 (continue r slot1)"
  shows "shows_valid slot (on_reply (ui_exchange_status lib write_to type request slot) continue)"
  unfolding ui_exchange_status_def by (rule shown_reply) (rule assms)

lemma shown_after: "shows_valid slot1 slot2 \<Longrightarrow> shows_valid slot slot1 \<Longrightarrow> shows_valid slot slot2"
  by (rule shown.slot_trans)

lemma shown_sent: "ui_send f slot = (ok, slot1) \<Longrightarrow> shows_valid slot slot1"
  using shown.slot_send [of slot f] by simp

lemmas shown_rules = shown.slot_when_connected shown_status shown.slot_status shown.slot_then

lemma inputs_shown:
  "shows_valid slot (update_view (\<lambda>v. v\<lparr>ui_post_title_input := t, ui_post_body_input := b\<rparr>) slot)"
  "shows_valid slot (update_view (\<lambda>v. v\<lparr>ui_comment_input := b\<rparr>) slot)"
  "shows_valid slot (update_view (\<lambda>v. v\<lparr>ui_selected_post_id := i, ui_comments := []\<rparr>) slot)"
  "shows_valid slot (update_view (\<lambda>v. v\<lparr>ui_friend_add_input := b\<rparr>) slot)"
  "shows_valid slot (update_view (\<lambda>v. v\<lparr>ui_dm_text_input := b\<rparr>) slot)"
  "shows_valid slot (update_view (\<lambda>v. v\<lparr>ui_forum_name_input := b, ui_forum_description_input := c\<rparr>) slot)"
  "shows_valid slot (update_view (\<lambda>v. v\<lparr>ui_inbox := f v\<rparr>) slot)"
  "shows_valid slot (update_view (\<lambda>v. v\<lparr>ui_selected_forum_id := i\<rparr>) slot)"
  "shows_valid slot (update_view (\<lambda>v. v\<lparr>ui_active_side_tab := tab\<rparr>) slot)"
  by (simp_all add: shows_valid_def update_view_def view_ok_def)

lemma forum_list_shown: "shows_valid slot (refresh_forum_list lib slot)"
  unfolding refresh_forum_list_def
  by (intro shown_rules shown_reply shown_view) (auto dest!: forum_list_response.received_valid
      simp: view_ok_def forum_list_response_valid_def valid_list_def)

lemma post_list_shown: "shows_valid slot (refresh_post_list lib slot)"
proof (cases "ui_selected_forum_id (sl_view slot) = 0")
  case False
  then show ?thesis unfolding refresh_post_list_def
    by (simp, intro shown_rules shown_reply shown_view) (auto dest!: post_list_response.received_valid
        simp: view_ok_def post_list_response_valid_def valid_list_def)
qed (simp add: refresh_post_list_def shown.slot_refl)

lemma thread_shown: "shows_valid slot (open_thread lib i slot)"
  unfolding open_thread_def
  by (intro shown_rules shown_reply shown_view) (auto dest!: thread_response.received_valid
      simp: view_ok_def thread_response_valid_def valid_list_def)

lemma friend_list_shown: "shows_valid slot (refresh_friend_list lib slot)"
  unfolding refresh_friend_list_def
proof (intro shown_rules shown.slot_on_reply shown_view)
  fix slot1
  let ?outcome = "case ui_send (client_send_frame (cl_sodium lib) MT_friend_list_request []) slot1 of
      (True, slot2) \<Rightarrow> ui_receive (receive_typed_message (cl_sodium lib) friend_list_response_read_from MT_friend_list_response) slot2
    | (False, slot2) \<Rightarrow> (Inl (Status []), slot2)"
  obtain ok slot2 where s: "ui_send (client_send_frame (cl_sodium lib) MT_friend_list_request []) slot1 = (ok, slot2)" by (metis prod.collapse)
  have sent: "shows_valid slot1 slot2" by (rule shown_sent [OF s])
  have "shows_valid slot1 (snd (ui_receive g slot2))" for g :: "server_connection \<Rightarrow> (client_error + friend_list_response) \<times> server_connection"
    by (rule shown.slot_trans [OF sent shown.slot_receive])
  then show "shows_valid slot1 (snd ?outcome)" using s sent by (cases ok) simp_all
  show "view_ok ((sl_view slot3)\<lparr>ui_friends := fls_friends r\<rparr>)" if "fst ?outcome = Inr r" "view_ok (sl_view slot3)" for r slot3
  proof -
    have "reads_as friend_list_response_read_from r" using that(1) s by (cases ok) (auto intro: ui_receive_payload)
    then have "friend_list_response_valid r" by (rule friend_list_response.received_valid)
    then show ?thesis using that(2) by (simp add: view_ok_def friend_list_response_valid_def valid_list_def)
  qed
qed

lemma own_top8_shown: "shows_valid slot (refresh_own_top8 lib slot)"
  unfolding refresh_own_top8_def
  by (intro shown_rules shown_reply shown_view) (auto dest!: top8_response.received_valid
      simp: view_ok_def top8_response_valid_def valid_list_def)

lemma profile_shown: "shows_valid slot (view_profile lib k slot)"
  unfolding view_profile_def
  by (intro shown.slot_when_connected shown_reply shown_after [OF shown_reply] shown.slot_then shown_view)
    (auto dest!: top8_response.received_valid profile_response.received_valid
      simp: view_ok_def top8_response_valid_def profile_response_valid_def valid_list_def)

lemma shown_then_view:
  assumes "shows_valid (update_view f slot) slot'" and "\<And>v. view_ok v \<Longrightarrow> view_ok (f v)"
  shows "shows_valid slot slot'"
  using shown_after [OF assms(1) shown_view] assms(2) by blast

lemma submissions_shown:
  "shows_valid slot (submit_post lib slot)"
  "shows_valid slot (submit_comment lib i slot)"
  "shows_valid slot (delete_post_action lib i slot)"
  "shows_valid slot (delete_comment_action lib i slot)"
  "shows_valid slot (submit_forum lib slot)"
  unfolding submit_post_def submit_comment_def delete_post_action_def delete_comment_action_def submit_forum_def Let_def if_distrib
  by (intro shown.slot_when_connected; auto intro!: shown.slot_status shown_reply shown_status shown.slot_then
        thread_shown shown_then_view [OF post_list_shown] shown_then_view [OF thread_shown] shown_then_view [OF forum_list_shown]
        simp: view_ok_def)+

lemma friend_added_shown: "shows_valid slot (add_friend lib slot)"
  unfolding add_friend_def
  by (intro shown.slot_when_connected) (auto intro!: shown_rules shown_then_view [OF friend_list_shown]
      simp: view_ok_def split: option.split)

lemma top8_submitted_shown: "shows_valid slot (submit_own_top8 lib slot)"
  unfolding submit_own_top8_def by (intro shown_rules own_top8_shown)

lemma notices_shown:
  "shows_valid slot (report_post_action lib i slot)"
  "shows_valid slot (report_account_action lib k slot)"
  "shows_valid slot (submit_profile lib slot)"
  unfolding report_post_action_def report_account_action_def submit_profile_def by (intro shown_rules)+

lemma prekey_published_shown: "shows_valid slot (publish_own_prekey lib slot)"
  unfolding publish_own_prekey_def by (intro shown.slot_when_connected) (auto intro!: shown_rules split: sum.split)

lemma inbox_shown: "shows_valid slot (refresh_inbox lib slot)"
  unfolding refresh_inbox_def Let_def
proof (intro shown.slot_when_connected shown_reply)
  fix r slot1
  let ?slot2 = "update_view (\<lambda>v. v\<lparr>ui_inbox := ui_inbox v @
    map (decrypt_envelope lib (slot_identity slot1)) (dl_envelopes r)\<rparr>) slot1"
  let ?ids = "opened_ids lib (slot_identity slot1) (dl_envelopes r)"
  obtain ok slot3 where s: "ui_send (send_typed_message (cl_sodium lib) dm_ack_request_write_to MT_dm_ack_request
      \<lparr>da_envelope_ids = ?ids\<rparr>) ?slot2 = (ok, slot3)" by (rule prod.exhaust)
  have added: "shows_valid slot1 ?slot2" by (simp add: shows_valid_def update_view_def view_ok_def)
  have sent: "shows_valid slot1 slot3" by (rule shown_after [OF shown_sent [OF s] added])
  have "shows_valid slot1 (snd (ui_receive g slot3))" for g :: "server_connection \<Rightarrow> (client_error + status_ok_response) \<times> server_connection"
    by (rule shown.slot_trans [OF sent shown.slot_receive])
  then have "shows_valid slot1 (case (ok, slot3) of
      (True, slot2) \<Rightarrow> snd (ui_receive (receive_typed_message (cl_sodium lib) status_ok_response_read_from MT_status_ok) slot2)
    | (False, slot2) \<Rightarrow> slot2)" using sent by (cases ok) simp_all
  then show "shows_valid slot1
      (if ?ids = [] then ?slot2
       else case ui_send (send_typed_message (cl_sodium lib) dm_ack_request_write_to MT_dm_ack_request \<lparr>da_envelope_ids = ?ids\<rparr>) ?slot2 of
         (True, slot2) \<Rightarrow> snd (ui_receive (receive_typed_message (cl_sodium lib) status_ok_response_read_from MT_status_ok) slot2)
       | (False, slot2) \<Rightarrow> slot2)"
    unfolding s using added by (cases "?ids = []") (simp_all only: if_True if_False simp_thms)
qed

lemma message_sent_shown: "shows_valid slot (submit_direct_message lib generated now slot)"
  unfolding submit_direct_message_def
  by (intro shown.slot_when_connected) (auto intro!: shown_rules shown_reply shown_view
      simp: view_ok_def split: option.split sum.split)

lemma registration_shown: "shows_valid slot (submit_registration lib slot)"
proof -
  obtain r session where g: "register_handle lib (ui_registration_handle_input (sl_view slot)) (sl_session slot) = (r, session)"
    by (metis prod.collapse)
  have stored: "shows_valid slot (slot\<lparr>sl_session := session\<rparr>)" by (rule shown.slot_session)
  show ?thesis
  proof (cases r)
    case (Inl e)
    then show ?thesis using g stored by (simp add: submit_registration_def shown.slot_then)
  next
    case (Inr u)
    then show ?thesis using g
      by (auto simp: submit_registration_def view_ok_def intro!: shown_after [OF shown_then_view [OF forum_list_shown] stored])
  qed
qed

lemma forum_selected_shown: "shows_valid slot (select_forum lib i slot)"
  unfolding select_forum_def by (rule shown_then_view [OF post_list_shown]) (simp add: view_ok_def)

lemma tab_switched_shown: "shows_valid slot (switch_tab tab slot)"
  unfolding switch_tab_def by (rule shown_view) (simp add: view_ok_def)

section \<open>Favourites\<close>

lemma fill_first_free_length [simp]: "length (fill_first_free key slots) = length slots"
  by (induction slots) auto

lemma fill_first_free_set: "set (fill_first_free key slots) \<subseteq> insert key (set slots)"
  by (induction slots) auto

lemma slots_valid_filled: "slots_valid slots \<Longrightarrow> length key = PUBLIC_KEY_SIZE \<Longrightarrow> slots_valid (fill_first_free key slots)"
  using fill_first_free_set [of key slots] by (auto simp: slots_valid_def list_all_iff)

lemma slots_valid_freed: "slots_valid slots \<Longrightarrow> slots_valid (slots[i := empty_slot_key])"
  by (auto simp: slots_valid_def list_all_iff empty_slot_key_def dest: set_update_subset_insert [THEN subsetD])

section \<open>Steps of the program\<close>

lemma column_shown:
  assumes "column_enabled slot action"
  shows "shows_valid slot (column_effect lib action slot)"
proof (cases action)
  case (Add_favorite k)
  have "slots_valid (fill_first_free k (ui_own_top8_slots (sl_view slot)))" if "view_ok (sl_view slot)"
    using assms Add_favorite that
    by (intro slots_valid_filled) (auto simp: view_ok_def list_all_iff friend_record_valid_def)
  then show ?thesis using Add_favorite by (auto simp: add_favorite_def view_ok_def intro!: shown_view)
next
  case (Remove_favorite i)
  then show ?thesis by (auto simp: remove_favorite_def view_ok_def slots_valid_freed intro!: shown_view)
qed (simp_all add: forum_list_shown forum_selected_shown submissions_shown thread_shown notices_shown friend_list_shown
      friend_added_shown profile_shown top8_submitted_shown prekey_published_shown inbox_shown message_sent_shown tab_switched_shown)

lemma connect_shown: "shows_valid slot (snd (connect_slot lib slot))"
proof (cases "se_trust_acknowledged (sl_entry slot) \<and> \<not> is_open slot")
  case True
  obtain r slot1 where o: "open_and_authenticate lib (se_endpoint (sl_entry slot)) slot = (r, slot1)" by (rule prod.exhaust)
  then have opened: "shows_valid slot slot1" using shown.slot_open [of slot lib] by (metis snd_conv)
  show ?thesis
    using True o by (cases r) (auto simp: connect_slot_def Let_def view_ok_def intro!: shown_after [OF shown_view opened])
qed (auto simp: connect_slot_def shown.slot_refl shown.slot_connected)

lemma service_shown: "shows_valid slot (service_slot lib slot)"
proof (cases "se_trust_acknowledged (sl_entry slot) \<and> \<not> is_open slot")
  case True
  obtain r slot1 where c: "connect_slot lib slot = (r, slot1)" by (rule prod.exhaust)
  then have "shows_valid slot slot1" using connect_shown [of slot lib] by simp
  then show ?thesis
    using True c by (auto simp: service_slot_def intro: shown.slot_then shown_after [OF forum_list_shown]
        split: sum.split connect_error.split)
qed (auto simp: service_slot_def shown.slot_refl)

text \<open>A server whose warning is not acknowledged: its connection is the one made with the slot.\<close>

definition apart :: "client_lib \<Rightarrow> server_slot \<Rightarrow> bool" where
  "apart lib slot \<longleftrightarrow> \<not> se_trust_acknowledged (sl_entry slot) \<longrightarrow>
     cs_connection (sl_session slot) = new_server_connection (cl_sodium lib) (se_server_key (sl_entry slot)) \<and>
     \<not> ui_registered (sl_view slot)"

definition slot_ok :: "client_lib \<Rightarrow> server_slot \<Rightarrow> bool" where
  "slot_ok lib slot \<longleftrightarrow> view_ok (sl_view slot) \<and> apart lib slot"

definition slot_key :: "server_slot \<Rightarrow> bytes" where
  "slot_key slot = se_server_key (sl_entry slot)"

lemma slot_ok_shown:
  "shows_valid slot slot' \<Longrightarrow> se_trust_acknowledged (sl_entry slot) \<Longrightarrow> slot_ok lib slot \<Longrightarrow> slot_ok lib slot'"
  by (simp add: slot_ok_def apart_def shows_valid_def)

lemma slot_ok_service: "slot_ok lib slot \<Longrightarrow> slot_ok lib (service_slot lib slot)"
  by (cases "se_trust_acknowledged (sl_entry slot)") (erule (1) slot_ok_shown [OF service_shown], simp add: service_slot_def)

lemma slot_ok_fresh: "slot_ok (us_lib w) (fresh_slot w entry identity lang)"
  by (simp add: slot_ok_def apart_def fresh_slot_def view_ok_def new_ui_state_def new_client_session_def
      slots_valid_def empty_slot_key_def list_all_iff)

lemma slot_ok_inputs: "only_inputs (sl_view slot) v \<Longrightarrow> slot_ok lib slot \<Longrightarrow> slot_ok lib (slot\<lparr>sl_view := v\<rparr>)"
  unfolding only_inputs_def by (erule ssubst) (simp add: slot_ok_def apart_def view_ok_def)

lemma update_slot_slots:
  "ua_slots (update_slot index f a) = (if index < length (ua_slots a) then (ua_slots a)[index := f (ua_slots a ! index)] else ua_slots a)"
  by (simp add: update_slot_def)

lemma update_slot_ok:
  assumes "list_all (slot_ok lib) (ua_slots a)"
    and "index < length (ua_slots a) \<Longrightarrow> slot_ok lib (ua_slots a ! index) \<Longrightarrow> slot_ok lib (f (ua_slots a ! index))"
  shows "list_all (slot_ok lib) (ua_slots (update_slot index f a))"
  using assms by (auto simp: update_slot_slots list_all_length nth_list_update)

lemma update_slot_keys:
  assumes "index < length (ua_slots a) \<Longrightarrow> slot_key (f (ua_slots a ! index)) = slot_key (ua_slots a ! index)"
  shows "map slot_key (ua_slots (update_slot index f a)) = map slot_key (ua_slots a)"
  using assms by (auto simp: update_slot_slots nth_list_update intro!: nth_equalityI)

lemma resolve_keeps_slots:
  "ua_slots (snd (gui_resolve_seed w a)) = ua_slots a"
  "ua_slots (snd (gui_resolve_identity w entry a)) = ua_slots a"
proof -
  show seed: "ua_slots (snd (gui_resolve_seed w a)) = ua_slots a" for a
    by (auto simp: gui_resolve_seed_def Let_def split: sum.splits prod.splits)
  show "ua_slots (snd (gui_resolve_identity w entry a)) = ua_slots a"
    using seed [of a] by (auto simp: gui_resolve_identity_def split: sum.splits prod.splits option.splits)
qed

lemma persist_slots: "persist w a = (r, a1) \<Longrightarrow> ua_slots a1 = ua_slots a"
  by (auto simp: persist_def split: prod.splits)

lemma app_report_slots [simp]: "ua_slots (app_report m b a) = ua_slots a"
  by (simp add: app_report_def)

lemma build_slot_effect:
  assumes "build_slot w entry a = (r, a1)"
  shows "ua_slots a1 = ua_slots a" and "r = Inr slot \<Longrightarrow> slot_ok (us_lib w) slot \<and> sl_entry slot = entry"
  using assms resolve_keeps_slots(2) [of w entry a] slot_ok_fresh
  by (auto simp: build_slot_def fresh_slot_def split: prod.splits sum.splits)

lemma invite_slots:
  obtains "ua_slots (add_server_from_invite w a) = ua_slots a"
  | slot where "ua_slots (add_server_from_invite w a) = ua_slots a @ [slot]" and "slot_ok (us_lib w) slot"
      and "slot_key slot \<notin> slot_key ` set (ua_slots a)"
proof (cases "parse_invite_link (ap_invite_input (ua_app a))")
  case (Inr link)
  show thesis
  proof (cases "decode_key (iv_server_key_hex link)")
    case (Some key)
    let ?entry = "\<lparr>se_label = iv_host link,
      se_endpoint = \<lparr>ep_host = iv_host link, ep_port = iv_port link, ep_socks5_host = [], ep_socks5_port = 0\<rparr>,
      se_server_key = key, se_source = Derived, se_imported_identity_path = [], se_trust_acknowledged = False\<rparr>"
    obtain r a1 where b: "build_slot w ?entry a = (r, a1)" by (rule prod.exhaust)
    show thesis
    proof (cases "list_ex (\<lambda>slot. se_server_key (sl_entry slot) = key) (ua_slots a)")
      case True
      then show thesis using that(1) Inr Some by (simp add: add_server_from_invite_def)
    next
      case False
      note here = Inr Some False b add_server_from_invite_def
      show thesis
      proof (cases r)
        case (Inl e)
        then show thesis using that(1) here build_slot_effect(1) [OF b] by simp
      next
        case built: (Inr slot)
        obtain r2 a2 where p: "persist w (a1\<lparr>ua_slots := ua_slots a1 @ [slot]\<rparr>) = (r2, a2)" by (rule prod.exhaust)
        then have "ua_slots (add_server_from_invite w a) = ua_slots a2" using here built by (cases r2) simp_all
        then have slots: "ua_slots (add_server_from_invite w a) = ua_slots a @ [slot]"
          using persist_slots [OF p] build_slot_effect(1) [OF b] by simp
        have "slot_key slot \<notin> slot_key ` set (ua_slots a)"
          using False build_slot_effect(2) [OF b built] by (auto simp: slot_key_def list_ex_iff)
        then show thesis using that(2) slots build_slot_effect(2) [OF b built] by blast
      qed
    qed
  qed (use that(1) Inr in \<open>simp add: add_server_from_invite_def\<close>)
qed (use that(1) in \<open>simp add: add_server_from_invite_def\<close>)

lemma service_slots:
  "ua_slots (service_active_slot lib a) = ua_slots (update_slot (ap_active_slot (ua_app a)) (\<lambda>slot. service_slot lib
     (update_view (\<lambda>v. v\<lparr>ui_current_lang := ap_current_lang (ua_app a), ui_intro_requested := False\<rparr>) slot)) a)"
  by (simp add: service_active_slot_def update_slot_slots Let_def)

lemma slot_ok_framed:
  "slot_ok lib slot \<Longrightarrow> slot_ok lib (update_view (\<lambda>v. v\<lparr>ui_current_lang := l, ui_intro_requested := False\<rparr>) slot)"
  by (simp add: slot_ok_def apart_def update_view_def view_ok_def)

lemma language_slots:
  "ua_slots (switch_language lang a) = ua_slots (update_slot (ap_active_slot (ua_app a)) (update_view (\<lambda>v. v\<lparr>ui_current_lang := lang\<rparr>)) a)"
  by (simp add: switch_language_def)

lemma copy_language_slots [simp]: "ua_slots (copy_language a) = ua_slots a"
  by (simp add: copy_language_def split: option.split)

lemma shows_valid_key: "shows_valid slot slot' \<Longrightarrow> slot_key slot' = slot_key slot"
  by (simp add: shows_valid_def slot_key_def)

lemma trusted_slots:
  "ua_slots (acknowledge_slot_trust w index a) =
     ua_slots (update_slot index (\<lambda>slot. slot\<lparr>sl_entry := (sl_entry slot)\<lparr>se_trust_acknowledged := True\<rparr>\<rparr>) a)"
proof (cases "index < length (ua_slots a)")
  case True
  obtain r a1 where p: "persist w (update_slot index (\<lambda>slot. slot\<lparr>sl_entry := (sl_entry slot)\<lparr>se_trust_acknowledged := True\<rparr>\<rparr>) a) = (r, a1)"
    by (rule prod.exhaust)
  then show ?thesis using True persist_slots [OF p] by (cases r) (simp_all add: acknowledge_slot_trust_def)
qed (simp add: acknowledge_slot_trust_def update_slot_def)

lemma shown_area_slot:
  "shown_area a = Columns \<Longrightarrow> ui_registered (sl_view (ua_slots a ! ap_active_slot (ua_app a)))"
  "shown_area a = Registration_card \<Longrightarrow> se_trust_acknowledged (sl_entry (ua_slots a ! ap_active_slot (ua_app a)))"
  by (auto simp: shown_area_def active_slot_def split: if_splits)

lemma step_keeps_ok:
  assumes "gui_step w a a'" and "list_all (slot_ok (us_lib w)) (ua_slots a)"
  shows "list_all (slot_ok (us_lib w)) (ua_slots a')"
  using assms
proof cases
  case frame
  then show ?thesis using assms(2) by (simp only: service_slots) (rule update_slot_ok, simp_all add: slot_ok_service slot_ok_framed)
next
  case (tongue lang)
  then show ?thesis using assms(2)
    by (simp only: language_slots) (rule update_slot_ok, simp_all add: slot_ok_def apart_def update_view_def view_ok_def)
next
  case (invite w' line)
  then show ?thesis using assms(2) by (cases rule: invite_slots [of w' "a\<lparr>ua_app := (ua_app a)\<lparr>ap_invite_input := line\<rparr>\<rparr>"]) simp_all
next
  case (trust w')
  then show ?thesis using assms(2)
    by (simp only: trusted_slots) (rule update_slot_ok, simp_all add: slot_ok_def apart_def)
next
  case register
  show ?thesis unfolding register(1) using assms(2) shown_area_slot(2) [OF register(2)]
    by (intro update_slot_ok) (auto intro: slot_ok_shown [OF registration_shown])
next
  case (column action)
  have "se_trust_acknowledged (sl_entry slot)" if "slot_ok (us_lib w) slot" "ui_registered (sl_view slot)" for slot
    using that by (auto simp: slot_ok_def apart_def)
  then show ?thesis unfolding column(1) using assms(2) shown_area_slot(1) [OF column(2)]
    by (intro update_slot_ok) (auto intro: slot_ok_shown [OF column_shown [OF column(3)]])
next
  case (typing index v)
  show ?thesis unfolding typing(1) using assms(2) by (rule update_slot_ok) (rule slot_ok_inputs [OF typing(3)])
qed simp_all

lemma step_keys:
  assumes "gui_step w a a'"
  obtains "map slot_key (ua_slots a') = map slot_key (ua_slots a)"
  | key where "map slot_key (ua_slots a') = map slot_key (ua_slots a) @ [key]" and "key \<notin> slot_key ` set (ua_slots a)"
  using assms
proof cases
  case frame
  have "slot_key (service_slot lib (update_view (\<lambda>v. v\<lparr>ui_current_lang := l, ui_intro_requested := False\<rparr>) slot)) = slot_key slot" for lib l slot
    using shows_valid_key [OF service_shown] by (simp add: slot_key_def update_view_def)
  then show ?thesis using that(1) frame by (simp add: service_slots update_slot_keys)
next
  case (tongue lang)
  then show ?thesis using that(1) by (simp add: language_slots update_slot_keys slot_key_def update_view_def)
next
  case (invite w' line)
  then show ?thesis using that by (cases rule: invite_slots [of w' "a\<lparr>ua_app := (ua_app a)\<lparr>ap_invite_input := line\<rparr>\<rparr>"]) simp_all
next
  case (trust w')
  then show ?thesis using that(1) by (simp add: trusted_slots update_slot_keys slot_key_def)
next
  case register
  then show ?thesis using that(1) shows_valid_key [OF registration_shown] by (simp add: update_slot_keys)
next
  case (column action)
  then show ?thesis using that(1) shows_valid_key [OF column_shown [OF column(3)]] by (simp add: update_slot_keys)
next
  case (typing index v)
  then show ?thesis using that(1) by (simp add: update_slot_keys slot_key_def)
qed (use that(1) in simp_all)

lemma steps_keep_ok:
  assumes "(gui_step w)\<^sup>*\<^sup>* a a'" and "list_all (slot_ok (us_lib w)) (ua_slots a)"
  shows "list_all (slot_ok (us_lib w)) (ua_slots a')"
  using assms by (induction rule: rtranclp_induct) (blast intro: step_keeps_ok)+

lemma built_slots_ok:
  "build_slots w entries a = (Inr u, a') \<Longrightarrow> list_all (slot_ok (us_lib w)) (ua_slots a) \<Longrightarrow> list_all (slot_ok (us_lib w)) (ua_slots a')"
proof (induction entries arbitrary: a)
  case (Cons entry entries)
  obtain r a1 where b: "build_slot w entry a = (r, a1)" by (rule prod.exhaust)
  show ?case
  proof (cases r)
    case (Inr slot)
    have "build_slots w entries (a1\<lparr>ua_slots := ua_slots a1 @ [slot]\<rparr>) = (Inr u, a')" using Cons.prems(1) b Inr by simp
    moreover have "list_all (slot_ok (us_lib w)) (ua_slots (a1\<lparr>ua_slots := ua_slots a1 @ [slot]\<rparr>))"
      using Cons.prems(2) build_slot_effect(1) [OF b] build_slot_effect(2) [OF b Inr] by simp
    ultimately show ?thesis by (rule Cons.IH)
  qed (use Cons.prems b in simp)
qed simp

lemma started_ok:
  assumes "gui_start w sodium_ready window_created args from_environment typed d = (Inr a, d')"
  shows "list_all (slot_ok (us_lib w)) (ua_slots a)"
proof -
  note started = assms [unfolded gui_start_def]
  have ready: sodium_ready using started by (cases sodium_ready) simp_all
  obtain options where o: "parse_cli_options (dk_files d) args default_options False False = Inr options"
    using started ready by (cases "parse_cli_options (dk_files d) args default_options False False") simp_all
  obtain passphrase where p: "read_passphrase from_environment typed = Some passphrase"
    using started ready o by (cases "read_passphrase from_environment typed") simp_all
  obtain entries where e: "load_server_entries w options passphrase d = Inr entries"
    using started ready o p by (cases "load_server_entries w options passphrase d") simp_all
  obtain r b where b: "build_slots w entries (new_app options passphrase d) = (r, b)" by (rule prod.exhaust)
  obtain u where "r = Inr u" using started ready o p e b by (cases r) simp_all
  moreover from this have "ua_slots a = ua_slots b"
    using started ready o p e b by (cases window_created) auto
  ultimately show ?thesis using built_slots_ok b by (simp add: new_app_def)
qed

section \<open>What the program promises\<close>

text \<open>A start with one server in the registry, its warning not acknowledged, and no secret on disk yet.\<close>

definition toy_gui :: ui_surroundings where
  "toy_gui = \<lparr>us_lib = toy_client, us_entropy = replicate 16 1, us_seed_salt = replicate 16 5, us_seed_nonce = replicate 24 6,
     us_registry_salt = replicate 16 7, us_registry_nonce = replicate 24 8, us_dials = []\<rparr>"

lemma no_options_parse: "parse_cli_options files [] default_options False False = Inr default_options"
  by (simp add: parse_cli_options_def default_options_def route_onion_def ends_with_def ONION_SUFFIX_def ascii_def)

lemma toy_registry:
  obtains d where "load_server_entries toy_gui default_options (ascii ''mot'') d = Inr [toy_link_entry]"
    and "disk_works (op_master_seed_path default_options) d"
proof -
  let ?path = "op_registry_path default_options"
  obtain sealed where "seal_blob toy_client (replicate 16 5) (replicate 24 6) (ascii ''mot'') (write_entries [toy_link_entry]) = Some sealed"
    using toy_seal by blast
  then have d: "registry_save toy_client (replicate 16 5) (replicate 24 6) ?path (ascii ''mot'') [toy_link_entry] empty_disk =
      (Inr (), put_file ?path sealed [] empty_disk)"
    by (simp add: registry_save_def write_sealed_file_def empty_disk_def MAX_SERVERS_def)
  have "registry_load toy_client ?path (ascii ''mot'') (put_file ?path sealed [] empty_disk) = Inr [toy_link_entry]"
    using saved_registry_loads [OF toy_client_ok(1) _ _ d] toy_invitation_parses(3) by (simp add: empty_disk_def)
  then have "load_server_entries toy_gui default_options (ascii ''mot'') (put_file ?path sealed [] empty_disk) = Inr [toy_link_entry]"
    by (simp add: load_server_entries_def toy_gui_def is_regular_file_def put_file_def)
  moreover have "disk_works (op_master_seed_path default_options) (put_file ?path sealed [] empty_disk)"
    by (simp add: disk_works_def put_file_def empty_disk_def default_options_def ascii_def)
  ultimately show thesis by (rule that)
qed

lemma toy_identity_derived: "derive_server_identity toy_client seed key \<noteq> None"
  by (simp add: derive_server_identity_def extract_pseudo_random_key_def expand_key_block_def compute_hmac_def
      derive_from_seed_def toy_client_def toy_sodium_def IDENTITY_DERIVATION_SALT_def)

lemma toy_gui_start:
  obtains a d d' slot where "gui_start toy_gui True True [] (Some (ascii ''mot'')) None d = (Inr a, d')"
    and "ua_slots a = [slot]" and "sl_entry slot = toy_link_entry"
proof -
  obtain d where e: "load_server_entries toy_gui default_options (ascii ''mot'') d = Inr [toy_link_entry]"
    and w: "disk_works (op_master_seed_path default_options) d" by (rule toy_registry)
  obtain seed phrase d' where c: "create_seed toy_client (replicate 16 1) (replicate 16 5) (replicate 24 6)
      (op_master_seed_path default_options) (ascii ''mot'') d = (Inr (seed, phrase), d')" using toy_create_seed [OF w] by blast
  obtain identity where i: "derive_server_identity toy_client seed (se_server_key toy_link_entry) = Some identity"
    using toy_identity_derived by blast
  let ?a = "(new_app default_options (ascii ''mot'') d)\<lparr>ua_disk := d',
    ua_app := (ua_app (new_app default_options (ascii ''mot'') d))\<lparr>ap_pending_recovery_phrase := phrase\<rparr>\<rparr>"
  have "gui_resolve_identity toy_gui toy_link_entry (new_app default_options (ascii ''mot'') d) = (Inr identity, ?a)"
    using c i w by (simp add: gui_resolve_identity_def gui_resolve_seed_def toy_link_entry_def invited_entry_def new_app_def toy_gui_def
        disk_works_def is_regular_file_def)
  then have "build_slots toy_gui [toy_link_entry] (new_app default_options (ascii ''mot'') d) =
      (Inr (), ?a\<lparr>ua_slots := [fresh_slot toy_gui toy_link_entry identity French]\<rparr>)"
    by (simp add: build_slot_def new_app_def)
  then have "gui_start toy_gui True True [] (Some (ascii ''mot'')) None d =
      (Inr (?a\<lparr>ua_slots := [fresh_slot toy_gui toy_link_entry identity French],
         ua_app := (ua_app ?a)\<lparr>ap_intro_requested := op_replay_intro default_options\<rparr>\<rparr>), d')"
    using e by (simp add: gui_start_def no_options_parse read_passphrase_def)
  then show thesis
    by (rule that [where slot = "fresh_slot toy_gui toy_link_entry identity French"]) (simp_all add: fresh_slot_def)
qed

text \<open>
  C25: whatever the servers send and whatever the user does, in any order, every forum, post, comment,
  friend and profile the graphical client shows, and every list of favourites it would send, satisfies the
  limits of the protocol; a reply that breaks one is refused as a whole.
\<close>

theorem shown_records_valid:
  assumes "gui_start w sodium_ready window_created args from_environment typed d = (Inr a, d')"
    and "(gui_step w)\<^sup>*\<^sup>* a a'"
  shows "list_all (\<lambda>slot. view_ok (sl_view slot)) (ua_slots a')"
  using steps_keep_ok [OF assms(2) started_ok [OF assms(1)]] by (auto simp: list_all_iff slot_ok_def)

theorem shown_records_valid_witness:
  "\<exists>a d d' slot. gui_start toy_gui True True [] (Some (ascii ''mot'')) None d = (Inr a, d') \<and> slot \<in> set (ua_slots a) \<and>
     list_all (\<lambda>slot. view_ok (sl_view slot)) (ua_slots (service_active_slot toy_client a))"
proof -
  obtain a d d' slot where s: "gui_start toy_gui True True [] (Some (ascii ''mot'')) None d = (Inr a, d')"
    and slots: "ua_slots a = [slot]" by (rule toy_gui_start)
  have "(gui_step toy_gui)\<^sup>*\<^sup>* a (service_active_slot toy_client a)"
    using gui_step.frame [of toy_gui a] by (simp add: toy_gui_def r_into_rtranclp)
  then have "list_all (\<lambda>slot. view_ok (sl_view slot)) (ua_slots (service_active_slot toy_client a))"
    by (rule shown_records_valid [OF s])
  moreover have "slot \<in> set (ua_slots a)" using slots by simp
  ultimately show ?thesis using s by blast
qed

text \<open>
  C24: a server whose warning the user has not acknowledged is never contacted. From the start of the
  program, through any frames, invitations, selections and actions, the connection of such a server is
  still the one that was made with its slot: no socket was opened, no byte was sent, nothing of the
  identity was shown, and no column or registration card is offered for it.
\<close>

theorem unacknowledged_never_contacted:
  assumes "gui_start w sodium_ready window_created args from_environment typed d = (Inr a, d')"
    and "(gui_step w)\<^sup>*\<^sup>* a a'" and "slot \<in> set (ua_slots a')" and "\<not> se_trust_acknowledged (sl_entry slot)"
  shows "cs_connection (sl_session slot) = new_server_connection (cl_sodium (us_lib w)) (se_server_key (sl_entry slot)) \<and>
     (active_slot a' = Some slot \<longrightarrow> shown_area a' = Empty_area)"
proof -
  have "apart (us_lib w) slot"
    using steps_keep_ok [OF assms(2) started_ok [OF assms(1)]] assms(3) by (simp add: list_all_iff slot_ok_def)
  then show ?thesis using assms(4) by (simp add: apart_def shown_area_def)
qed

theorem unacknowledged_never_contacted_witness:
  "\<exists>a d d' slot. gui_start toy_gui True True [] (Some (ascii ''mot'')) None d = (Inr a, d') \<and>
     slot \<in> set (ua_slots (service_active_slot toy_client a)) \<and> \<not> se_trust_acknowledged (sl_entry slot) \<and>
     cs_connection (sl_session slot) = new_server_connection toy_sodium (replicate 32 0)"
proof -
  obtain a d d' slot where s: "gui_start toy_gui True True [] (Some (ascii ''mot'')) None d = (Inr a, d')"
    and slots: "ua_slots a = [slot]" "sl_entry slot = toy_link_entry" by (rule toy_gui_start)
  have step: "(gui_step toy_gui)\<^sup>*\<^sup>* a (service_active_slot toy_client a)"
    using gui_step.frame [of toy_gui a] by (simp add: toy_gui_def r_into_rtranclp)
  obtain slot' where slot': "ua_slots (service_active_slot toy_client a) = [slot']" "sl_entry slot' = toy_link_entry"
  proof (cases "ap_active_slot (ua_app a) = 0")
    case True
    then show thesis
      using that slots by (simp add: service_slots update_slot_slots service_slot_def update_view_def toy_link_entry_def invited_entry_def)
  qed (use that slots in \<open>simp add: service_slots update_slot_slots\<close>)
  have "cs_connection (sl_session slot') = new_server_connection (cl_sodium (us_lib toy_gui)) (se_server_key (sl_entry slot'))"
    using unacknowledged_never_contacted [OF s step, of slot'] slot' by (simp add: toy_link_entry_def invited_entry_def)
  then show ?thesis using s slot'
    by (intro exI [of _ a] exI [of _ d] exI [of _ d'] exI [of _ slot'])
      (simp add: toy_gui_def toy_client_fields(3) toy_link_entry_def invited_entry_def)
qed

text \<open>
  The list of servers only grows, and never by a server it has. Whatever steps the program takes, the
  servers it lists stay where they are, so that a number of a slot keeps its meaning, and a new one is added
  at the end; when no two slots have the same key at first, no two ever have.
\<close>

theorem servers_listed_once:
  assumes "(gui_step w)\<^sup>*\<^sup>* a a'"
  shows "\<exists>added. map slot_key (ua_slots a') = map slot_key (ua_slots a) @ added \<and> distinct added \<and>
     set added \<inter> slot_key ` set (ua_slots a) = {}"
  using assms
proof (induction rule: rtranclp_induct)
  case (step b c)
  then obtain added where i: "map slot_key (ua_slots b) = map slot_key (ua_slots a) @ added" "distinct added"
    "set added \<inter> slot_key ` set (ua_slots a) = {}" by blast
  have keys: "slot_key ` set (ua_slots b) = slot_key ` set (ua_slots a) \<union> set added"
    using arg_cong [OF i(1), of set] by simp
  from step.hyps(2) show ?case
  proof (cases rule: step_keys)
    case 1
    then show ?thesis using i by auto
  next
    case (2 key)
    then show ?thesis using i keys by (intro exI [of _ "added @ [key]"]) auto
  qed
qed simp

theorem servers_listed_once_witness:
  "\<exists>a d d' added. gui_start toy_gui True True [] (Some (ascii ''mot'')) None d = (Inr a, d') \<and>
     map slot_key (ua_slots (add_server_from_invite toy_gui
       (a\<lparr>ua_app := (ua_app a)\<lparr>ap_invite_input := toy_invitation\<rparr>\<rparr>))) = replicate 32 0 # added \<and> replicate 32 0 \<notin> set added"
proof -
  obtain a d d' slot where s: "gui_start toy_gui True True [] (Some (ascii ''mot'')) None d = (Inr a, d')"
    and slots: "ua_slots a = [slot]" "sl_entry slot = toy_link_entry" by (rule toy_gui_start)
  have "(gui_step toy_gui)\<^sup>*\<^sup>* a (add_server_from_invite toy_gui (a\<lparr>ua_app := (ua_app a)\<lparr>ap_invite_input := toy_invitation\<rparr>\<rparr>))"
    by (intro r_into_rtranclp gui_step.invite refl)
  from servers_listed_once [OF this] s slots show ?thesis
    by (fastforce simp: slot_key_def toy_link_entry_def invited_entry_def)
qed

text \<open>
  A language chosen on one server does not survive the choice of another one: the frame takes over the language
  that slot was left with.
\<close>

lemma chosen_language_lost:
  assumes "ua_slots a = [first, second]" and "ap_active_slot (ua_app a) = 0" and "ui_current_lang (sl_view second) = French"
  shows "\<exists>b c. gui_step w a b \<and> ap_current_lang (ua_app b) = English \<and> gui_step w b c \<and> ap_current_lang (ua_app c) = French"
proof (intro exI conjI)
  let ?b = "switch_language English a"
  show "gui_step w a ?b" by (rule gui_step.tongue) (use assms in \<open>simp add: active_slot_def\<close>)
  show "ap_current_lang (ua_app ?b) = English" by (simp add: switch_language_def)
  show "gui_step w ?b (copy_language (?b\<lparr>ua_app := (ua_app ?b)\<lparr>ap_active_slot := 1\<rparr>\<rparr>))"
    by (rule gui_step.select) (use assms in \<open>simp add: switch_language_def update_slot_def\<close>)
  show "ap_current_lang (ua_app (copy_language (?b\<lparr>ua_app := (ua_app ?b)\<lparr>ap_active_slot := 1\<rparr>\<rparr>))) = French"
    using assms by (simp add: copy_language_def active_slot_def switch_language_def update_slot_def)
qed

text \<open>
  C28: a login that fails counts as a connection. When the session with an acknowledged server opens and the
  login then fails, for any reason but a fault of the stream (a refusal, an error of the server, no answer
  in time), the slot is reported as not connected; but its connection stays open, so that no later frame
  tries again, and the next action, or the next call, takes the slot for connected and goes on without a
  login.
\<close>

theorem failed_login_counts_as_connected:
  assumes "se_trust_acknowledged (sl_entry slot)" and "\<not> is_open slot"
    and "next_dial slot = ((net, keys), slot1)"
    and "open_session (cl_sodium lib) net keys (se_endpoint (sl_entry slot)) (cs_connection (sl_session slot1)) = (Inr (), c)" and "sn_open c"
    and "authenticate lib ((sl_session slot1)\<lparr>cs_connection := c\<rparr>) = (Inl e, session)" and "\<not> stream_fault e"
  shows "\<exists>failed. connect_slot lib slot = (Inl (Connect_failed e), failed) \<and> \<not> ui_connected (sl_view failed) \<and>
     service_slot lib failed = failed \<and>
     ensure_connected lib failed = (True, update_view (\<lambda>v. v\<lparr>ui_connected := True\<rparr>) failed) \<and>
     connect_slot lib failed = (Inr (), update_view (\<lambda>v. v\<lparr>ui_connected := True\<rparr>) failed)"
proof -
  let ?failed = "update_view (\<lambda>v. v\<lparr>ui_connected := False\<rparr>) (slot1\<lparr>sl_session := session\<rparr>)"
  have "sl_entry slot1 = sl_entry slot" using assms(3) by (auto simp: next_dial_def split: list.splits)
  then have trusted: "se_trust_acknowledged (sl_entry ?failed)" using assms(1) by (simp add: update_view_def)
  have "sn_open (cs_connection session)" using failed_login_keeps_open [OF assms(6) _ assms(7)] assms(5) by simp
  then have open_left: "is_open ?failed" by (simp add: is_open_def update_view_def)
  have "connect_slot lib slot = (Inl (Connect_failed e), ?failed)"
    using assms by (simp add: connect_slot_def open_and_authenticate_def)
  moreover have "\<not> ui_connected (sl_view ?failed)" by (simp add: update_view_def)
  moreover have "service_slot lib ?failed = ?failed" unfolding service_slot_def using open_left by simp
  moreover have "ensure_connected lib ?failed = (True, update_view (\<lambda>v. v\<lparr>ui_connected := True\<rparr>) ?failed)"
    unfolding ensure_connected_def using open_left by simp
  moreover have "connect_slot lib ?failed = (Inr (), update_view (\<lambda>v. v\<lparr>ui_connected := True\<rparr>) ?failed)"
    unfolding connect_slot_def using open_left trusted by simp
  ultimately show ?thesis by blast
qed

text \<open>A slot whose server answers the handshake and nothing after it.\<close>

definition toy_slot :: "dial_conditions list \<Rightarrow> server_slot" where
  "toy_slot dials = (fresh_slot toy_gui (toy_link_entry\<lparr>se_trust_acknowledged := True\<rparr>)
     \<lparr>ik_public = replicate 32 4, ik_secret = replicate 64 4\<rparr> French)\<lparr>sl_dials := dials\<rparr>"

theorem failed_login_counts_as_connected_witness:
  "\<exists>dials failed again. connect_slot toy_client (toy_slot dials) = (Inl (Connect_failed No_answer), failed) \<and>
     connect_slot toy_client failed = (Inr (), again) \<and> ui_connected (sl_view again) \<and> sl_session again = sl_session failed"
proof -
  let ?id = "\<lparr>ik_public = replicate 32 4, ik_secret = replicate 64 4 :: bytes\<rparr>"
  have "ep_socks5_host (se_endpoint toy_link_entry) = []" by (simp add: toy_link_entry_def invited_entry_def default_options_def)
  then obtain net keys c s where o: "open_session toy_sodium net keys (se_endpoint toy_link_entry)
      (new_server_connection toy_sodium (replicate 32 0)) = (Inr (), c)" "sn_open c"
    "authenticate toy_client (new_client_session c ?id) = (Inl No_answer, s)"
    by (rule toy_silent_login [where k = 0 and identity = ?id]) simp_all
  let ?slot = "toy_slot [(net, keys)]"
  have fields: "se_trust_acknowledged (sl_entry ?slot)" "\<not> is_open ?slot" "next_dial ?slot = ((net, keys), toy_slot [])"
    "se_endpoint (sl_entry ?slot) = se_endpoint toy_link_entry"
    "cs_connection (sl_session (toy_slot [])) = new_server_connection toy_sodium (replicate 32 0)"
    "(sl_session (toy_slot []))\<lparr>cs_connection := c\<rparr> = new_client_session c ?id"
    by (simp_all add: toy_slot_def fresh_slot_def is_open_def next_dial_def new_client_session_def new_server_connection_def toy_gui_def
        toy_client_fields(3) toy_link_entry_def invited_entry_def)
  have "\<not> stream_fault No_answer" by (simp add: stream_fault_def)
  from failed_login_counts_as_connected [of ?slot net keys "toy_slot []" toy_client c No_answer s, OF fields(1,2,3) _ o(2) _ this]
  show ?thesis using o(1,3) unfolding fields(4,5,6) toy_client_fields(3) by (fastforce simp: update_view_def)
qed

end
