(* ===== verification/Migrations.thy ===== *)
theory Migrations
  imports Util "HOL-Library.List_Lexorder"
begin

text \<open>
  The schema migrations of the server (\<^verbatim>\<open>server/db/migration_runner.cpp\<close>): which files are applied, in which
  order, each in a transaction of its own. What a script does to the tables is the storage engine's: it is a
  parameter that gives the new tables and whether the script went through. Scripts neither begin nor end a
  transaction.
\<close>

section \<open>The store\<close>

text \<open>
  \<open>sm_saved\<close> is what an open transaction would go back to; a process that ends with one open leaves that.
  Every statement and script takes one element of \<open>sm_faults\<close> and fails when it is set.
\<close>

record 'db schema_store =
  sm_tables :: 'db
  sm_applied :: "(bytes \<times> u64) list"
  sm_saved :: "('db \<times> (bytes \<times> u64) list) option"
  sm_faults :: "bool list"
  sm_clock :: "u64 list"

type_synonym 'db script_effect = "bytes \<Rightarrow> 'db \<Rightarrow> bool \<times> 'db"

definition take_fault :: "'db schema_store \<Rightarrow> bool \<times> 'db schema_store" where
  "take_fault s = (case sm_faults s of [] \<Rightarrow> (False, s) | b # rest \<Rightarrow> (b, s\<lparr>sm_faults := rest\<rparr>))"

definition execute_begin :: "'db schema_store \<Rightarrow> bool \<times> 'db schema_store" where
  "execute_begin s =
     (case take_fault s of (failed, s1) \<Rightarrow>
        if failed \<or> sm_saved s1 \<noteq> None then (False, s1)
        else (True, s1\<lparr>sm_saved := Some (sm_tables s1, sm_applied s1)\<rparr>))"

definition execute_commit :: "'db schema_store \<Rightarrow> bool \<times> 'db schema_store" where
  "execute_commit s =
     (case take_fault s of (failed, s1) \<Rightarrow> if failed then (False, s1) else (True, s1\<lparr>sm_saved := None\<rparr>))"

definition execute_rollback :: "'db schema_store \<Rightarrow> bool \<times> 'db schema_store" where
  "execute_rollback s =
     (case take_fault s of (failed, s1) \<Rightarrow>
        if failed then (False, s1)
        else case sm_saved s1 of
          None \<Rightarrow> (False, s1)
        | Some (tables, applied) \<Rightarrow> (True, s1\<lparr>sm_tables := tables, sm_applied := applied, sm_saved := None\<rparr>))"

definition execute_migration_script :: "'db script_effect \<Rightarrow> bytes \<Rightarrow> 'db schema_store \<Rightarrow> bool \<times> 'db schema_store" where
  "execute_migration_script run script s =
     (case take_fault s of (failed, s1) \<Rightarrow>
        if failed then (False, s1)
        else case run script (sm_tables s1) of (success, tables) \<Rightarrow> (success, s1\<lparr>sm_tables := tables\<rparr>))"

section \<open>Files\<close>

text \<open>\<open>None\<close> when there is no such directory; an entry is a name and whether it is a regular file.\<close>

record migration_directory =
  mg_entries :: "(bytes \<times> bool) list option"
  mg_contents :: "bytes \<Rightarrow> bytes option"

definition SQL_EXTENSION :: bytes where "SQL_EXTENSION = ascii ''.sql''"

text \<open>\<^verbatim>\<open>path::extension\<close>: a name that is only the extension has none.\<close>

definition has_sql_extension :: "bytes \<Rightarrow> bool" where
  "has_sql_extension name \<longleftrightarrow>
     length SQL_EXTENSION < length name \<and> drop (length name - length SQL_EXTENSION) name = SQL_EXTENSION"

definition collect_migration_files :: "migration_directory \<Rightarrow> bytes list option" where
  "collect_migration_files directory =
     map_option (\<lambda>entries. sort (map fst (filter (\<lambda>(name, regular). regular \<and> has_sql_extension name) entries)))
       (mg_entries directory)"

section \<open>Applying\<close>

datatype migration_error =
    Table_not_created | No_directory bytes | Applied_unreadable | Unreadable_migration bytes | Begin_failed
  | Migration_failed bytes | Commit_failed

text \<open>\<^verbatim>\<open>is_already_applied\<close>: \<open>None\<close> when the query fails.\<close>

definition is_already_applied :: "bytes \<Rightarrow> 'db schema_store \<Rightarrow> bool option \<times> 'db schema_store" where
  "is_already_applied name s =
     (case take_fault s of (failed, s1) \<Rightarrow>
        if failed then (None, s1) else (Some (name \<in> fst ` set (sm_applied s1)), s1))"

definition schema_now :: "'db schema_store \<Rightarrow> u64 \<times> 'db schema_store" where
  "schema_now s = (case sm_clock s of [] \<Rightarrow> (0, s) | t # rest \<Rightarrow> (t, s\<lparr>sm_clock := rest\<rparr>))"

text \<open>The name is the primary key of the table.\<close>

definition record_applied_migration :: "bytes \<Rightarrow> 'db schema_store \<Rightarrow> bool \<times> 'db schema_store" where
  "record_applied_migration name s =
     (case schema_now s of (now, s1) \<Rightarrow>
        case take_fault s1 of (failed, s2) \<Rightarrow>
          if failed \<or> name \<in> fst ` set (sm_applied s2) then (False, s2)
          else (True, s2\<lparr>sm_applied := sm_applied s2 @ [(name, now)]\<rparr>))"

definition run_and_record :: "'db script_effect \<Rightarrow> bytes \<Rightarrow> bytes \<Rightarrow> 'db schema_store \<Rightarrow> bool \<times> 'db schema_store" where
  "run_and_record run script name s =
     (case execute_migration_script run script s of
        (False, s1) \<Rightarrow> (False, s1) | (True, s1) \<Rightarrow> record_applied_migration name s1)"

definition apply_one_migration ::
  "'db script_effect \<Rightarrow> migration_directory \<Rightarrow> bytes \<Rightarrow> 'db schema_store \<Rightarrow> (migration_error + unit) \<times> 'db schema_store" where
  "apply_one_migration run directory name s =
     (case mg_contents directory name of
        None \<Rightarrow> (Inl (Unreadable_migration name), s)
      | Some script \<Rightarrow>
     (case execute_begin s of
        (False, s1) \<Rightarrow> (Inl Begin_failed, s1)
      | (True, s1) \<Rightarrow>
     (case run_and_record run script name s1 of
        (False, s2) \<Rightarrow> (Inl (Migration_failed name), snd (execute_rollback s2))
      | (True, s2) \<Rightarrow>
     (case execute_commit s2 of
        (False, s3) \<Rightarrow> (Inl Commit_failed, s3) | (True, s3) \<Rightarrow> (Inr (), s3)))))"

fun apply_files ::
  "'db script_effect \<Rightarrow> migration_directory \<Rightarrow> bytes \<Rightarrow> bytes list \<Rightarrow> logger \<Rightarrow> 'db schema_store \<Rightarrow>
    (migration_error + unit) \<times> logger \<times> 'db schema_store" where
  "apply_files run directory stamp [] l s = (Inr (), l, s)"
| "apply_files run directory stamp (name # names) l s =
     (case is_already_applied name s of
        (None, s1) \<Rightarrow> (Inl Applied_unreadable, l, s1)
      | (Some True, s1) \<Rightarrow> apply_files run directory stamp names l s1
      | (Some False, s1) \<Rightarrow>
          (let l1 = write_entry stamp LL_info (ascii ''application de la migration '' @ name) l in
           case apply_one_migration run directory name s1 of
             (Inl e, s2) \<Rightarrow> (Inl e, l1, s2) | (Inr _, s2) \<Rightarrow> apply_files run directory stamp names l1 s2))"

text \<open>The table of applied migrations is created when it is missing; it is part of the store from the start.\<close>

definition apply_pending_migrations ::
  "'db script_effect \<Rightarrow> migration_directory \<Rightarrow> bytes \<Rightarrow> bytes \<Rightarrow> logger \<Rightarrow> 'db schema_store \<Rightarrow>
    (migration_error + unit) \<times> logger \<times> 'db schema_store" where
  "apply_pending_migrations run directory path stamp l s =
     (case take_fault s of (failed, s1) \<Rightarrow>
        if failed then (Inl Table_not_created, l, s1)
        else case collect_migration_files directory of
          None \<Rightarrow> (Inl (No_directory path), l, s1)
        | Some names \<Rightarrow> apply_files run directory stamp names l s1)"

section \<open>The specification\<close>

text \<open>What remains of the store when the process ends, the times left out.\<close>

definition durable :: "'db schema_store \<Rightarrow> 'db \<times> bytes list" where
  "durable s = (case sm_saved s of
     None \<Rightarrow> (sm_tables s, map fst (sm_applied s)) | Some (tables, applied) \<Rightarrow> (tables, map fst applied))"

text \<open>Migrations one after the other, each as a whole.\<close>

fun migrated :: "'db script_effect \<Rightarrow> (bytes \<Rightarrow> bytes option) \<Rightarrow> bytes list \<Rightarrow> 'db \<times> bytes list \<Rightarrow> ('db \<times> bytes list) option" where
  "migrated run contents [] st = Some st"
| "migrated run contents (name # names) (tables, applied) =
     (case contents name of
        None \<Rightarrow> None
      | Some script \<Rightarrow>
          (case run script tables of
             (False, _) \<Rightarrow> None
           | (True, tables1) \<Rightarrow> migrated run contents names (tables1, applied @ [name])))"

definition pending_migrations :: "bytes list \<Rightarrow> 'db schema_store \<Rightarrow> bytes list" where
  "pending_migrations names s = filter (\<lambda>name. name \<notin> set (snd (durable s))) names"

section \<open>Facts\<close>

text \<open>A statement that only takes a fault or the time leaves the rest as it was.\<close>

definition same_store :: "'db schema_store \<Rightarrow> 'db schema_store \<Rightarrow> bool" where
  "same_store s s' \<longleftrightarrow> sm_tables s' = sm_tables s \<and> sm_applied s' = sm_applied s \<and> sm_saved s' = sm_saved s"

lemma same_durable: "same_store s s' \<Longrightarrow> durable s' = durable s"
  by (simp add: same_store_def durable_def split: option.split)

lemma take_fault_same: "take_fault s = (b, s1) \<Longrightarrow> same_store s s1"
  by (auto simp: take_fault_def same_store_def split: list.splits)

lemma schema_now_same: "schema_now s = (t, s1) \<Longrightarrow> same_store s s1"
  by (auto simp: schema_now_def same_store_def split: list.splits)

lemma already_applied_same: "is_already_applied name s = (r, s1) \<Longrightarrow> same_store s s1"
  using take_fault_same by (auto simp: is_already_applied_def split: prod.splits if_splits)

lemma run_and_record_effect:
  assumes "run_and_record run script name s = (ok, s')"
  shows "sm_saved s' = sm_saved s"
    and "ok \<Longrightarrow> fst (run script (sm_tables s)) \<and> sm_tables s' = snd (run script (sm_tables s)) \<and>
      map fst (sm_applied s') = map fst (sm_applied s) @ [name]"
  using assms take_fault_same schema_now_same
  by (fastforce simp: run_and_record_def execute_migration_script_def record_applied_migration_def same_store_def
      split: prod.splits if_splits bool.splits)+

lemma rollback_durable: "durable (snd (execute_rollback s)) = durable s"
  using take_fault_same
  by (fastforce simp: execute_rollback_def durable_def same_store_def split: prod.splits option.splits)

text \<open>One migration takes effect as a whole, or what remains is what there was.\<close>

lemma one_migration:
  assumes "apply_one_migration run directory name s = (r, s')" and "sm_saved s = None"
  shows "(r = Inr () \<and> sm_saved s' = None \<and> migrated run (mg_contents directory) [name] (durable s) = Some (durable s')) \<or>
    (r \<noteq> Inr () \<and> durable s' = durable s)"
proof (cases "mg_contents directory name")
  case (Some script)
  obtain ok1 s1 where b: "execute_begin s = (ok1, s1)" by (rule prod.exhaust)
  obtain ok2 s2 where m: "run_and_record run script name s1 = (ok2, s2)" by (rule prod.exhaust)
  obtain ok3 s3 where c: "execute_commit s2 = (ok3, s3)" by (rule prod.exhaust)
  note here = assms(1) [unfolded apply_one_migration_def] Some b m c
  have b1: "sm_tables s1 = sm_tables s \<and> sm_applied s1 = sm_applied s \<and>
      sm_saved s1 = (if ok1 then Some (sm_tables s, sm_applied s) else None)"
    using b assms(2) take_fault_same by (fastforce simp: execute_begin_def same_store_def split: prod.splits if_splits)
  note m2 = run_and_record_effect [OF m]
  have d: "durable s = (sm_tables s, map fst (sm_applied s))" using assms(2) by (simp add: durable_def)
  have d2: "durable s2 = durable s" if ok1 using that b1 m2(1) d by (simp add: durable_def)
  have c3: "sm_tables s3 = sm_tables s2 \<and> sm_applied s3 = sm_applied s2 \<and> sm_saved s3 = (if ok3 then None else sm_saved s2)"
    using c take_fault_same by (fastforce simp: execute_commit_def same_store_def split: prod.splits if_splits)
  have d1: "durable s1 = durable s" if "\<not> ok1" using that b1 d by (simp add: durable_def)
  have d3: "durable s3 = durable s2" if "\<not> ok3" using that c3 by (intro same_durable) (simp add: same_store_def)
  show ?thesis
  proof (cases "ok1 \<and> ok2 \<and> ok3")
    case True
    have "fst (run script (sm_tables s))" "sm_tables s2 = snd (run script (sm_tables s))"
      "map fst (sm_applied s2) = map fst (sm_applied s) @ [name]" using m2(2) True b1 by simp_all
    then have "migrated run (mg_contents directory) [name] (durable s) = Some (sm_tables s3, map fst (sm_applied s3))"
      using Some d c3 by (cases "run script (sm_tables s)") simp
    moreover have "r = Inr ()" "s' = s3" using here True by simp_all
    ultimately show ?thesis using c3 True by (simp add: durable_def)
  next
    case False
    then have "r \<noteq> Inr () \<and> durable s' = durable s"
      using here d2 d1 d3 rollback_durable [of s2] by (cases ok1; cases ok2) auto
    then show ?thesis by blast
  qed
qed (use assms in \<open>auto simp: apply_one_migration_def\<close>)

lemma migrated_append:
  "migrated run contents (xs @ ys) st = (case migrated run contents xs st of None \<Rightarrow> None | Some st1 \<Rightarrow> migrated run contents ys st1)"
  by (induction xs arbitrary: st) (auto split: option.split prod.split bool.split)

lemma migrated_names: "migrated run contents names st = Some st' \<Longrightarrow> snd st' = snd st @ names"
  by (induction names arbitrary: st) (auto split: option.splits prod.splits bool.splits)

lemma pending_later:
  assumes "migrated run contents [name] (durable s) = Some (durable s')" and "name \<notin> set names"
  shows "pending_migrations names s' = pending_migrations names s"
  using migrated_names [OF assms(1)] assms(2) by (auto simp: pending_migrations_def intro!: filter_cong)

lemma files_applied:
  assumes "apply_files run directory stamp names l s = (r, l', s')" and "sm_saved s = None" and "distinct names"
  shows "\<exists>applied rest. pending_migrations names s = applied @ rest \<and>
    migrated run (mg_contents directory) applied (durable s) = Some (durable s') \<and>
    (r = Inr () \<longrightarrow> rest = [] \<and> sm_saved s' = None)"
  using assms
proof (induction names arbitrary: l s)
  case Nil
  then show ?case by (auto simp: pending_migrations_def)
next
  case (Cons name names)
  obtain x s1 where a: "is_already_applied name s = (x, s1)" by (rule prod.exhaust)
  note same = already_applied_same [OF a]
  have s1: "sm_saved s1 = None" "durable s1 = durable s"
    using same Cons.prems(2) same_durable [OF same] by (simp_all add: same_store_def)
  have p1: "pending_migrations ns s1 = pending_migrations ns s" for ns by (simp add: pending_migrations_def s1(2))
  have there: "x = Some (name \<in> set (snd (durable s)))" if "x \<noteq> None"
    using a that Cons.prems(2) take_fault_same
    by (fastforce simp: is_already_applied_def durable_def same_store_def split: prod.splits if_splits)
  show ?case
  proof (cases x)
    case None
    then show ?thesis using Cons.prems(1) a s1 by (intro exI [of _ "[]"] exI [of _ "pending_migrations (name # names) s"]) auto
  next
    case (Some already)
    show ?thesis
    proof (cases already)
      case True
      then have "apply_files run directory stamp names l s1 = (r, l', s')" using Cons.prems(1) a Some by simp
      moreover have "pending_migrations (name # names) s = pending_migrations names s"
        using there Some True by (simp add: pending_migrations_def)
      ultimately show ?thesis using Cons.IH [of l s1] Cons.prems(3) s1 p1 by simp
    next
      case False
      have pending: "pending_migrations (name # names) s = name # pending_migrations names s"
        using there Some False by (simp add: pending_migrations_def)
      let ?l = "write_entry stamp LL_info (ascii ''application de la migration '' @ name) l"
      obtain q s2 where o: "apply_one_migration run directory name s1 = (q, s2)" by (rule prod.exhaust)
      from one_migration [OF o s1(1)] show ?thesis
      proof (elim disjE conjE)
        assume q: "q = Inr ()" "sm_saved s2 = None" "migrated run (mg_contents directory) [name] (durable s1) = Some (durable s2)"
        have "apply_files run directory stamp names ?l s2 = (r, l', s')" using Cons.prems(1) a Some False o q(1) by simp
        then obtain applied rest where i: "pending_migrations names s2 = applied @ rest"
          "migrated run (mg_contents directory) applied (durable s2) = Some (durable s')"
          "r = Inr () \<longrightarrow> rest = [] \<and> sm_saved s' = None" using Cons.IH [of ?l s2] Cons.prems(3) q(2) by auto
        have "pending_migrations names s2 = pending_migrations names s"
          using pending_later [OF q(3)] Cons.prems(3) p1 by simp
        moreover have "migrated run (mg_contents directory) (name # applied) (durable s) = Some (durable s')"
          using migrated_append [of run "mg_contents directory" "[name]" applied "durable s"] q(3) i(2) s1(2) by simp
        ultimately show ?thesis using pending i by (intro exI [of _ "name # applied"] exI [of _ rest]) auto
      next
        assume q: "q \<noteq> Inr ()" "durable s2 = durable s1"
        then obtain e where "q = Inl e" by (cases q) auto
        then have "r = Inl e" "s' = s2" using Cons.prems(1) a Some False o by (simp_all add: Let_def)
        then show ?thesis using q(2) s1(2) by (intro exI [of _ "[]"] exI [of _ "pending_migrations (name # names) s"]) auto
      qed
    qed
  qed
qed

lemma collected_distinct: "collect_migration_files directory = Some names \<Longrightarrow> (\<And>entries. mg_entries directory = Some entries \<Longrightarrow> distinct (map fst entries)) \<Longrightarrow> distinct names"
  by (auto simp: collect_migration_files_def distinct_map intro: inj_on_subset)

text \<open>
  C18: migrations are applied in the order of their names, each once and each as a whole. Whatever
  statements fail on the way, what a start leaves behind is what the first of the pending migrations, in
  order, make of the tables, their names recorded, and nothing of any other; when it reports success
  that is all of them, no transaction is left open, and a further start finds none to apply.
\<close>

theorem migrations_all_or_nothing:
  assumes "apply_pending_migrations run directory path stamp l s = (r, l', s')" and "sm_saved s = None"
    and "collect_migration_files directory = Some names" and "mg_entries directory = Some entries" and "distinct (map fst entries)"
  shows "\<exists>applied rest. pending_migrations names s = applied @ rest \<and> sorted (applied @ rest) \<and>
    migrated run (mg_contents directory) applied (durable s) = Some (durable s') \<and>
    (r = Inr () \<longrightarrow> rest = [] \<and> sm_saved s' = None \<and> pending_migrations names s' = [])"
proof -
  obtain failed s1 where t: "take_fault s = (failed, s1)" by (rule prod.exhaust)
  have same: "sm_saved s1 = None" "durable s1 = durable s"
    using take_fault_same [OF t] same_durable [OF take_fault_same [OF t]] assms(2) by (simp_all add: same_store_def)
  have "sorted names" using assms(3) by (auto simp: collect_migration_files_def)
  then have so: "sorted (pending_migrations names s)" using sorted_filter [of id names] by (simp add: pending_migrations_def)
  show ?thesis
  proof (cases failed)
    case True
    then show ?thesis using assms(1) t same so
      by (intro exI [of _ "[]"] exI [of _ "pending_migrations names s"]) (auto simp: apply_pending_migrations_def)
  next
    case False
    then have files: "apply_files run directory stamp names l s1 = (r, l', s')"
      using assms(1,3) t by (simp add: apply_pending_migrations_def)
    have "distinct names" using collected_distinct [OF assms(3)] assms(4,5) by auto
    from files_applied [OF files same(1) this] obtain applied rest where i: "pending_migrations names s1 = applied @ rest"
      "migrated run (mg_contents directory) applied (durable s1) = Some (durable s')"
      "r = Inr () \<longrightarrow> rest = [] \<and> sm_saved s' = None" by blast
    have "pending_migrations names s1 = pending_migrations names s" by (simp add: pending_migrations_def same(2))
    moreover have "pending_migrations names s' = []" if "rest = []"
      using migrated_names [OF i(2)] i(1) that by (auto simp: pending_migrations_def filter_empty_conv)
    ultimately have "pending_migrations names s = applied @ rest \<and> sorted (applied @ rest) \<and>
        migrated run (mg_contents directory) applied (durable s) = Some (durable s') \<and>
        (r = Inr () \<longrightarrow> rest = [] \<and> sm_saved s' = None \<and> pending_migrations names s' = [])"
      using i so same(2) by simp
    then show ?thesis by blast
  qed
qed

text \<open>Two migrations, the second of which fails to be recorded; on a second start it goes through.\<close>

definition toy_directory :: migration_directory where
  "toy_directory = \<lparr>mg_entries = Some [(ascii ''2.sql'', True), (ascii ''notes'', True), (ascii ''1.sql'', True)],
     mg_contents = (\<lambda>name. Some (take 1 name))\<rparr>"

definition toy_store :: "bytes schema_store" where
  "toy_store = \<lparr>sm_tables = [], sm_applied = [], sm_saved = None,
     sm_faults = [False, False, False, False, False, False, False, False, False, True], sm_clock = []\<rparr>"

definition toy_log :: logger where "toy_log = \<lparr>lg_minimum = LL_error, lg_allow_peer_addresses = False, lg_sink = []\<rparr>"

theorem migrations_all_or_nothing_witness:
  "\<exists>l s. apply_pending_migrations (\<lambda>script tables. (True, tables @ script)) toy_directory [] [] toy_log toy_store =
       (Inl (Migration_failed (ascii ''2.sql'')), l, s) \<and>
     (\<exists>applied rest. [ascii ''1.sql'', ascii ''2.sql''] = applied @ rest \<and>
        migrated (\<lambda>script tables. (True, tables @ script)) (mg_contents toy_directory) applied ([], []) = Some (durable s))"
proof -
  let ?run = "\<lambda>script tables. (True, tables @ script)"
  have names: "collect_migration_files toy_directory = Some [ascii ''1.sql'', ascii ''2.sql'']" by code_simp
  obtain l s where r: "apply_pending_migrations ?run toy_directory [] [] toy_log toy_store = (Inl (Migration_failed (ascii ''2.sql'')), l, s)"
  proof -
    have "fst (apply_pending_migrations ?run toy_directory [] [] toy_log toy_store) = Inl (Migration_failed (ascii ''2.sql''))" by code_simp
    then show thesis using that by (metis prod.collapse)
  qed
  have e: "mg_entries toy_directory = Some [(ascii ''2.sql'', True), (ascii ''notes'', True), (ascii ''1.sql'', True)]"
    "distinct (map fst [(ascii ''2.sql'', True), (ascii ''notes'', True), (ascii ''1.sql'', True)])"
    by (simp_all add: toy_directory_def ascii_def)
  have "sm_saved toy_store = None" "durable toy_store = ([], [])" "pending_migrations ns toy_store = ns" for ns
    by (simp_all add: toy_store_def durable_def pending_migrations_def)
  with migrations_all_or_nothing [OF r _ names e] r show ?thesis by auto
qed

end
