(* ===== verification/Server_Start.thy ===== *)
theory Server_Start
  imports Server Migrations Cli_Process
begin

text \<open>
  The start of the server (\<^verbatim>\<open>server/server_main.cpp\<close>, \<^verbatim>\<open>server/net/server_static_key.cpp\<close>, the listeners of
  \<^verbatim>\<open>server_runtime.cpp\<close>, \<^verbatim>\<open>tcp_listener.cpp\<close> and \<^verbatim>\<open>admin_listener.cpp\<close>): its configuration, its database and
  migrations, its long-term key, the file for its clients, its sockets. The disk is that of the keystore; what
  the kernel answers is an argument.
\<close>

section \<open>The long-term key (\<open>server_static_key.cpp\<close>)\<close>

datatype listener_error =
    Loop_unavailable bytes | Invalid_address bytes | No_socket | Bind_refused bytes u16 | Listen_refused | Listener_unwatched bytes
  | Admin_path_too_long bytes | Admin_no_socket | Admin_bind_refused bytes | Admin_not_restricted bytes
  | Admin_listen_refused | Admin_unwatched | No_signal_descriptor

datatype start_error =
    Key_invalid bytes | Key_generation_failed | Key_unwritable bytes | Key_incomplete bytes
  | Database_unopened bytes | Start_migration migration_error | Start_listener listener_error

definition X25519_SECRET_KEY_SIZE :: nat where [simp]: "X25519_SECRET_KEY_SIZE = 32"

definition read_secret_file :: "bytes \<Rightarrow> disk \<Rightarrow> bytes option" where
  "read_secret_file path d =
     (case dk_files d path of
        None \<Rightarrow> None
      | Some content \<Rightarrow>
          if dk_read_fails d path \<or> length content < X25519_SECRET_KEY_SIZE then None
          else Some (take X25519_SECRET_KEY_SIZE content))"

text \<open>The directory of the file is made first; a failure of that shows when the file is opened.\<close>

definition write_secret_file :: "bytes \<Rightarrow> bytes \<Rightarrow> disk \<Rightarrow> (start_error + unit) \<times> disk" where
  "write_secret_file path secret d =
     (if dk_open_fails d path then (Inl (Key_unwritable path), d)
      else case write_all (dk_writes d) [] secret of (success, content, outcomes) \<Rightarrow>
        (if success then Inr () else Inl (Key_incomplete path), put_file path content outcomes d))"

text \<open>The value is the public key and the secret key; \<open>generated\<close> is what the generator gives.\<close>

definition load_or_create_server_key ::
  "sodium \<Rightarrow> (bytes \<times> bytes) option \<Rightarrow> bytes \<Rightarrow> disk \<Rightarrow> (start_error + bytes \<times> bytes) \<times> disk" where
  "load_or_create_server_key lib generated path d =
     (case read_secret_file path d of
        Some secret \<Rightarrow>
          (case compute_public_from_secret lib secret of
             None \<Rightarrow> (Inl (Key_invalid path), d) | Some public \<Rightarrow> (Inr (public, secret), d))
      | None \<Rightarrow>
          (case generated of
             None \<Rightarrow> (Inl Key_generation_failed, d)
           | Some (public, secret) \<Rightarrow>
               (case write_secret_file path secret d of
                  (Inl e, d1) \<Rightarrow> (Inl e, d1) | (Inr _, d1) \<Rightarrow> (Inr (public, secret), d1))))"

section \<open>The database (\<open>database_handle.cpp\<close>)\<close>

definition STARTUP_PRAGMAS :: bytes where
  "STARTUP_PRAGMAS =
     ascii ''PRAGMA journal_mode=WAL;'' @ ascii ''PRAGMA foreign_keys=ON;'' @ ascii ''PRAGMA busy_timeout=5000;'' @
     ascii ''PRAGMA synchronous=NORMAL;'' @ ascii ''PRAGMA secure_delete=ON;'' @ ascii ''PRAGMA temp_store=MEMORY;''"

text \<open>
  \<open>opening\<close> is the engine's message when it cannot open the file, \<open>script_failure\<close> the one for a script it
  does not run through; \<open>None\<close> is success.
\<close>

definition open_database :: "bytes option \<Rightarrow> (bytes \<Rightarrow> bytes option) \<Rightarrow> bytes \<Rightarrow> bytes + unit" where
  "open_database opening script_failure path =
     (case opening of
        Some message \<Rightarrow> Inl (ascii ''ouverture de '' @ path @ ascii '' : '' @ message)
      | None \<Rightarrow> (case script_failure STARTUP_PRAGMAS of Some message \<Rightarrow> Inl message | None \<Rightarrow> Inr ()))"

section \<open>The file for clients (\<open>server_main.cpp\<close>)\<close>

definition announce_server_key :: "bytes \<Rightarrow> bytes \<Rightarrow> logger \<Rightarrow> logger" where
  "announce_server_key stamp public l =
     write_entry stamp LL_info (ascii ''cle statique du serveur : '' @ encode_hex public) l"

definition connect_host :: "server_config \<Rightarrow> bytes" where
  "connect_host config =
     (if lc_advertised_host (sc_clearnet config) = [] then lc_bind_address (sc_clearnet config)
      else lc_advertised_host (sc_clearnet config))"

definition connect_text :: "bytes \<Rightarrow> u16 \<Rightarrow> bytes \<Rightarrow> bytes" where
  "connect_text host port public =
     ascii ''host='' @ host @ newline @ ascii ''port='' @ decimal_text (unat port) @ newline @
     ascii ''server_key='' @ encode_hex public @ newline"

definition write_connect_file :: "bytes \<Rightarrow> server_config \<Rightarrow> bytes \<Rightarrow> logger \<Rightarrow> disk \<Rightarrow> logger \<times> disk" where
  "write_connect_file stamp config public l d =
     (let path = pt_connect_file_path (sc_paths config); host = connect_host config in
      if path = [] \<or> \<not> lc_enabled (sc_clearnet config) then (l, d)
      else if dk_open_fails d path
      then (write_entry stamp LL_warning (ascii ''fichier de connexion non ecrit : '' @ path) l, d)
      else
        case write_all (dk_writes d) [] (connect_text host (lc_port (sc_clearnet config)) public) of (_, content, outcomes) \<Rightarrow>
          let l1 = (if host = ascii ''0.0.0.0''
                    then write_entry stamp LL_warning (ascii
                      ''fichier de connexion : host=0.0.0.0 n'est joignable par personne. Declarer advertised_host dans [clearnet] avant de transmettre le fichier.'') l
                    else l) in
          (write_entry stamp LL_info (ascii ''fichier de connexion : '' @ path) l1, put_file path content outcomes d))"

section \<open>Listeners\<close>

text \<open>
  What the kernel answers when a listener is opened: whether the address is one, the socket, and whether
  it was bound, made non-blocking, set to listen and watched by the loop.
\<close>

record listener_answers =
  la_address_valid :: bool
  la_stale_removed :: bool
  la_socket :: int
  la_bind :: bool
  la_restrict :: bool
  la_nonblocking :: bool
  la_listen :: bool
  la_watch :: bool

definition tcp_open_listener :: "listener_answers \<Rightarrow> bytes \<Rightarrow> u16 \<Rightarrow> listener_error + int" where
  "tcp_open_listener k address port =
     (if \<not> la_address_valid k then Inl (Invalid_address address)
      else if la_socket k < 0 then Inl No_socket
      else if \<not> la_bind k then Inl (Bind_refused address port)
      else if \<not> la_nonblocking k \<or> \<not> la_listen k then Inl Listen_refused
      else Inr (la_socket k))"

text \<open>A listener that is not enabled has no descriptor.\<close>

definition open_configured_listener :: "listener_answers \<Rightarrow> listener_config \<Rightarrow> listener_error + int" where
  "open_configured_listener k settings =
     (if \<not> lc_enabled settings then Inr (- 1) else tcp_open_listener k (lc_bind_address settings) (lc_port settings))"

definition watch_listener :: "listener_answers \<Rightarrow> int \<Rightarrow> bytes \<Rightarrow> listener_error + unit" where
  "watch_listener k descriptor name =
     (if descriptor \<ge> 0 \<and> \<not> la_watch k then Inl (Listener_unwatched name) else Inr ())"

definition SUN_PATH_SIZE :: nat where "SUN_PATH_SIZE = 108"

text \<open>Whatever file is at the path of the administration socket is removed first; a failure of that is ignored.\<close>

definition remove_stale_socket :: "bool \<Rightarrow> bytes \<Rightarrow> disk \<Rightarrow> disk" where
  "remove_stale_socket removed path d = (if removed then d\<lparr>dk_files := (dk_files d)(path := None)\<rparr> else d)"

definition admin_open_listener :: "listener_answers \<Rightarrow> bytes \<Rightarrow> disk \<Rightarrow> (listener_error + int) \<times> disk" where
  "admin_open_listener k path d =
     (if length path \<ge> SUN_PATH_SIZE then (Inl (Admin_path_too_long path), d)
      else let d1 = remove_stale_socket (la_stale_removed k) path d in
        if la_socket k < 0 then (Inl Admin_no_socket, d1)
        else if \<not> la_bind k then (Inl (Admin_bind_refused path), d1)
        else if \<not> la_restrict k then (Inl (Admin_not_restricted path), d1)
        else if \<not> la_nonblocking k \<or> \<not> la_listen k then (Inl Admin_listen_refused, d1)
        else (Inr (la_socket k), d1))"

definition open_admin_service :: "listener_answers \<Rightarrow> bytes \<Rightarrow> disk \<Rightarrow> (listener_error + int) \<times> disk" where
  "open_admin_service k path d =
     (if path = [] then (Inr (- 1), d)
      else case admin_open_listener k path d of
        (Inl e, d1) \<Rightarrow> (Inl e, d1)
      | (Inr descriptor, d1) \<Rightarrow> if la_watch k then (Inr descriptor, d1) else (Inl Admin_unwatched, d1))"

record start_answers =
  sk_loop_failure :: "bytes option"
  sk_clearnet :: listener_answers
  sk_onion :: listener_answers
  sk_admin :: listener_answers
  sk_signal :: int
  sk_signal_watch :: bool

text \<open>The descriptors: clearnet, onion, administration and signals.\<close>

definition start_listeners :: "start_answers \<Rightarrow> server_config \<Rightarrow> disk \<Rightarrow> (listener_error + int \<times> int \<times> int \<times> int) \<times> disk" where
  "start_listeners k config d =
     (case sk_loop_failure k of
        Some message \<Rightarrow> (Inl (Loop_unavailable message), d)
      | None \<Rightarrow>
     (case open_configured_listener (sk_clearnet k) (sc_clearnet config) of
        Inl e \<Rightarrow> (Inl e, d)
      | Inr clearnet \<Rightarrow>
     (case open_configured_listener (sk_onion k) (sc_onion config) of
        Inl e \<Rightarrow> (Inl e, d)
      | Inr onion \<Rightarrow>
     (case watch_listener (sk_clearnet k) clearnet (ascii ''clearnet'') of
        Inl e \<Rightarrow> (Inl e, d)
      | Inr _ \<Rightarrow>
     (case watch_listener (sk_onion k) onion (ascii ''onion'') of
        Inl e \<Rightarrow> (Inl e, d)
      | Inr _ \<Rightarrow>
     (case open_admin_service (sk_admin k) (pt_admin_socket_path (sc_paths config)) d of
        (Inl e, d1) \<Rightarrow> (Inl e, d1)
      | (Inr admin, d1) \<Rightarrow>
          if sk_signal k < 0 \<or> \<not> sk_signal_watch k then (Inl No_signal_descriptor, d1)
          else (Inr (clearnet, onion, admin, sk_signal k), d1)))))))"

section \<open>The program (\<open>server_main.cpp\<close>)\<close>

definition listener_failure_text :: "listener_error \<Rightarrow> bytes" where
  "listener_failure_text e =
     (case e of
        Loop_unavailable message \<Rightarrow> ascii ''epoll_create1() : '' @ message
      | Invalid_address address \<Rightarrow> ascii ''adresse IPv4 invalide : '' @ address
      | No_socket \<Rightarrow> ascii ''socket() a echoue''
      | Bind_refused address port \<Rightarrow>
          ascii ''bind '' @ address @ ascii '':'' @ decimal_text (unat port) @ ascii '' a echoue''
      | Listen_refused \<Rightarrow> ascii ''listen() a echoue''
      | Listener_unwatched name \<Rightarrow> ascii ''listener '' @ name @ ascii '' non enregistrable''
      | Admin_path_too_long path \<Rightarrow> ascii ''chemin de socket d'admin trop long : '' @ path
      | Admin_no_socket \<Rightarrow> ascii ''socket AF_UNIX indisponible pour l'admin''
      | Admin_bind_refused path \<Rightarrow> ascii ''bind du socket d'admin impossible : '' @ path
      | Admin_not_restricted path \<Rightarrow> ascii ''impossible de restreindre le socket d'admin a 0600 : '' @ path
      | Admin_listen_refused \<Rightarrow> ascii ''listen() sur le socket d'admin a echoue''
      | Admin_unwatched \<Rightarrow> ascii ''socket d'admin non enregistrable dans la boucle''
      | No_signal_descriptor \<Rightarrow> ascii ''signalfd indisponible : arret propre impossible'')"

text \<open>\<open>engine\<close> is the message of the storage engine for a script or a statement that failed.\<close>

definition migration_failure_text :: "bytes \<Rightarrow> migration_error \<Rightarrow> bytes" where
  "migration_failure_text engine e =
     (case e of
        No_directory path \<Rightarrow> ascii ''repertoire de migrations introuvable : '' @ path
      | Applied_unreadable \<Rightarrow> ascii ''lecture de schema_migrations impossible''
      | Unreadable_migration name \<Rightarrow> ascii ''lecture impossible : '' @ name
      | Migration_failed name \<Rightarrow>
          name @ ascii '' : '' @ engine @ newline @ ascii ''  La base n'a pas ete modifiee. Voir docs/ADMIN.md, section '' @
          [0xC2, 0xAB] @ ascii '' Migrations '' @ [0xC2, 0xBB] @ ascii '', pour resoudre puis relancer.''
      | Table_not_created \<Rightarrow> engine
      | Begin_failed \<Rightarrow> engine
      | Commit_failed \<Rightarrow> engine)"

definition start_failure_text :: "bytes \<Rightarrow> start_error \<Rightarrow> bytes" where
  "start_failure_text engine e =
     (case e of
        Key_invalid path \<Rightarrow> ascii ''cle serveur illisible ou invalide : '' @ path
      | Key_generation_failed \<Rightarrow> ascii ''generation de la cle serveur impossible''
      | Key_unwritable path \<Rightarrow> ascii ''ecriture impossible : '' @ path
      | Key_incomplete path \<Rightarrow> ascii ''ecriture incomplete : '' @ path
      | Database_unopened message \<Rightarrow> message
      | Start_migration failure \<Rightarrow> migration_failure_text engine failure
      | Start_listener failure \<Rightarrow> listener_failure_text failure)"

text \<open>What the storage engine, the directory, the generator and the kernel answer during the start.\<close>

record start_inputs =
  si_opening :: "bytes option"
  si_script_failure :: "bytes \<Rightarrow> bytes option"
  si_engine_message :: bytes
  si_scripts :: "database script_effect"
  si_migrations :: migration_directory
  si_generated :: "(bytes \<times> bytes) option"
  si_kernel :: start_answers
  si_now :: u64
  si_clock :: "u64 list"
  si_random :: "bytes list"

definition boot_server ::
  "handler_env \<Rightarrow> start_inputs \<Rightarrow> logger \<Rightarrow> disk \<Rightarrow> database schema_store \<Rightarrow>
    (start_error + server_setup \<times> server_state) \<times> logger \<times> disk \<times> database schema_store" where
  "boot_server e w l d store =
     (let config = he_config e; paths = sc_paths config; stamp = he_log_stamp e in
      case open_database (si_opening w) (si_script_failure w) (pt_database_path paths) of
        Inl failure \<Rightarrow> (Inl (Database_unopened failure), l, d, store)
      | Inr _ \<Rightarrow>
     (case apply_pending_migrations (si_scripts w) (si_migrations w) (pt_migrations_directory paths) stamp l store of
        (Inl failure, l1, store1) \<Rightarrow> (Inl (Start_migration failure), l1, d, store1)
      | (Inr _, l1, store1) \<Rightarrow>
     (case load_or_create_server_key (he_sodium e) (si_generated w) (pt_server_key_path paths) d of
        (Inl failure, d1) \<Rightarrow> (Inl failure, l1, d1, store1)
      | (Inr (public, secret), d1) \<Rightarrow>
     (case write_connect_file stamp config public (announce_server_key stamp public l1) d1 of
        (l2, d2) \<Rightarrow>
     (case start_listeners (si_kernel w) config d2 of
        (Inl failure, d3) \<Rightarrow> (Inl (Start_listener failure), l2, d3, store1)
      | (Inr (clearnet, onion, admin, signal), d3) \<Rightarrow>
          (Inr (\<lparr>su_static_public = public, su_static_secret = secret, su_clearnet = clearnet, su_onion = onion,
                 su_admin = admin, su_signal = signal\<rparr>,
                new_server e l2 (sm_tables store1) (si_now w) (si_clock w) (si_random w)),
           l2, d3, store1))))))"

definition EXIT_CONFIGURATION_ERROR :: nat where "EXIT_CONFIGURATION_ERROR = 2"
definition EXIT_RUNTIME_ERROR :: nat where "EXIT_RUNTIME_ERROR = 3"

text \<open>
  The exit code, \<open>None\<close> while the server runs, with the log and the disk; \<open>rounds\<close> are the rounds of the loop.
\<close>

definition run_server ::
  "handler_env \<Rightarrow> start_inputs \<Rightarrow> (int \<times> u32 \<times> kernel_answers) list option list \<Rightarrow> logger \<Rightarrow> disk \<Rightarrow> database schema_store \<Rightarrow>
    nat option \<times> logger \<times> disk" where
  "run_server e w rounds l d store =
     (case boot_server e w l d store of
        (Inl failure, l1, d1, _) \<Rightarrow>
          (Some EXIT_RUNTIME_ERROR, write_entry (he_log_stamp e) LL_error (start_failure_text (si_engine_message w) failure) l1, d1)
      | (Inr (setup_keys, st), l1, d1, _) \<Rightarrow>
          (case run_until_stopped e setup_keys rounds st of
             Some (Stopped, st1) \<Rightarrow>
               (Some 0, write_entry (he_log_stamp e) LL_info (ascii ''arret propre'') (ss_logger st1), d1)
           | Some (Wait_failed, st1) \<Rightarrow>
               (Some EXIT_RUNTIME_ERROR, write_entry (he_log_stamp e) LL_error (ascii ''epoll_wait a echoue'') (ss_logger st1), d1)
           | Some (Still_running, st1) \<Rightarrow> (None, ss_logger st1, d1)
           | None \<Rightarrow> (None, ss_logger st, d1)))"

text \<open>What is written to the error stream, and the configuration when it is accepted.\<close>

definition load_validated_config :: "bytes \<Rightarrow> bytes option \<Rightarrow> bytes \<times> server_config option" where
  "load_validated_config path contents =
     (case parse_config_file path contents default_config [] of
        (False, _, errors) \<Rightarrow> (format_config_errors path errors, None)
      | (True, out, _) \<Rightarrow>
          (case validate_config out of (accepted, problems, warnings) \<Rightarrow>
             let shown = concat (map (\<lambda>warning. ascii ''AVERTISSEMENT '' @ warning @ newline) warnings) in
             if accepted then (shown, Some out)
             else (shown @ ascii ''configuration refusee : '' @ path @ newline @
               concat (map (\<lambda>problem. ascii ''  '' @ problem @ newline) problems), None)))"

text \<open>Where the log goes: the configured file, to which it is appended, or the standard output.\<close>

datatype log_target = Log_file bytes | Standard_output

definition open_log_target :: "server_config \<Rightarrow> disk \<Rightarrow> log_target" where
  "open_log_target config d =
     (let path = gc_file_path (sc_logging config) in
      if path \<noteq> [] \<and> \<not> dk_open_fails d path then Log_file path else Standard_output)"

text \<open>The exit code, the error stream, the log and where it goes, and the disk without the file of the log.\<close>

definition server_main ::
  "bool \<Rightarrow> bytes list \<Rightarrow> handler_env \<Rightarrow> start_inputs \<Rightarrow> (int \<times> u32 \<times> kernel_answers) list option list \<Rightarrow> disk \<Rightarrow>
    database schema_store \<Rightarrow> nat option \<times> bytes \<times> (log_target \<times> bytes) option \<times> disk" where
  "server_main sodium_ready args e w rounds d store =
     (if \<not> sodium_ready
      then (Some EXIT_RUNTIME_ERROR, ascii ''libsodium n'a pas pu s'initialiser, arret'' @ newline, None, d)
      else
        let path = (case args of [] \<Rightarrow> ascii ''hypercom.conf'' | argument # _ \<Rightarrow> argument) in
        case load_validated_config path (dk_files d path) of
          (shown, None) \<Rightarrow> (Some EXIT_CONFIGURATION_ERROR, shown, None, d)
        | (shown, Some config) \<Rightarrow>
            (case run_server (e\<lparr>he_config := config\<rparr>) w rounds
                    \<lparr>lg_minimum = gc_level (sc_logging config),
                     lg_allow_peer_addresses = gc_log_peer_addresses (sc_logging config), lg_sink = []\<rparr> d store of
               (code, l, d1) \<Rightarrow> (code, shown, Some (open_log_target config d, lg_sink l), d1)))"

section \<open>The key across starts\<close>

lemma key_file_written:
  assumes "write_secret_file path secret d = (Inr u, d')" and "length secret = X25519_SECRET_KEY_SIZE" and "\<not> dk_read_fails d path"
  shows "read_secret_file path d' = Some secret"
proof -
  obtain success content os where w: "write_all (dk_writes d) [] secret = (success, content, os)" by (rule prod_cases3)
  then have "success" "d' = put_file path content os d" using assms(1) by (auto simp: write_secret_file_def split: if_splits)
  moreover from this w have "content = secret" using write_all_success by fastforce
  ultimately show ?thesis using assms(2,3) by (simp add: read_secret_file_def put_file_def)
qed

text \<open>What the generator promises: a secret of the right length, with its public key.\<close>

definition keypair_sound :: "sodium \<Rightarrow> (bytes \<times> bytes) option \<Rightarrow> bool" where
  "keypair_sound lib generated \<longleftrightarrow>
     (case generated of
        None \<Rightarrow> True
      | Some (public, secret) \<Rightarrow>
          length secret = X25519_SECRET_KEY_SIZE \<and> compute_public_from_secret lib secret = Some public)"

lemma key_stays:
  assumes "load_or_create_server_key lib generated path d = (Inr (public, secret), d')"
    and "keypair_sound lib generated" and "\<not> dk_read_fails d path"
  shows "read_secret_file path d' = Some secret" and "compute_public_from_secret lib secret = Some public"
  using assms key_file_written
  by (auto simp: load_or_create_server_key_def keypair_sound_def split: option.splits prod.splits sum.splits)

lemma read_secret_same:
  "dk_files d2 path = dk_files d1 path \<Longrightarrow> \<not> dk_read_fails d2 path \<Longrightarrow> read_secret_file path d1 = Some secret \<Longrightarrow>
     read_secret_file path d2 = Some secret"
  by (auto simp: read_secret_file_def split: option.splits if_splits)

lemma key_read_again:
  assumes "read_secret_file path d = Some secret" and "compute_public_from_secret lib secret = Some public"
  shows "load_or_create_server_key lib generated path d = (Inr (public, secret), d)"
  using assms by (simp add: load_or_create_server_key_def)

text \<open>Only the files at the paths of the configuration change.\<close>

definition same_elsewhere :: "bytes set \<Rightarrow> disk \<Rightarrow> disk \<Rightarrow> bool" where
  "same_elsewhere paths d d' \<longleftrightarrow>
     (\<forall>path. path \<notin> paths \<longrightarrow> dk_files d' path = dk_files d path) \<and>
     dk_read_fails d' = dk_read_fails d \<and> dk_open_fails d' = dk_open_fails d"

lemma same_elsewhere_refl [simp, intro]: "same_elsewhere paths d d" by (simp add: same_elsewhere_def)

lemma same_elsewhere_trans: "same_elsewhere a d d1 \<Longrightarrow> same_elsewhere b d1 d2 \<Longrightarrow> same_elsewhere (a \<union> b) d d2"
  by (simp add: same_elsewhere_def)

lemma put_file_elsewhere: "same_elsewhere {path} d (put_file path content os d)"
  by (simp add: same_elsewhere_def put_file_def)

lemma key_elsewhere: "load_or_create_server_key lib generated path d = (r, d') \<Longrightarrow> same_elsewhere {path} d d'"
  using put_file_elsewhere
  by (auto simp: load_or_create_server_key_def write_secret_file_def split: option.splits prod.splits sum.splits if_splits)

lemma connect_elsewhere:
  "write_connect_file stamp config public l d = (l', d') \<Longrightarrow> same_elsewhere {pt_connect_file_path (sc_paths config)} d d'"
  using put_file_elsewhere by (auto simp: write_connect_file_def Let_def split: prod.splits if_splits)

lemma stale_elsewhere: "same_elsewhere {path} d (remove_stale_socket removed path d)"
  by (simp add: same_elsewhere_def remove_stale_socket_def)

lemma admin_elsewhere: "open_admin_service k path d = (r, d') \<Longrightarrow> same_elsewhere {path} d d'"
  using stale_elsewhere
  by (auto simp: open_admin_service_def admin_open_listener_def Let_def split: if_splits prod.splits sum.splits)

lemma listeners_elsewhere:
  "start_listeners k config d = (r, d') \<Longrightarrow> same_elsewhere {pt_admin_socket_path (sc_paths config)} d d'"
  by (auto simp: start_listeners_def dest: admin_elsewhere split: option.splits sum.splits prod.splits if_splits)

lemma booted:
  assumes "boot_server e w l d store = (Inr (su, st), l', d', store')"
  obtains l1 d1 l2 d2 r where
    "load_or_create_server_key (he_sodium e) (si_generated w) (pt_server_key_path (sc_paths (he_config e))) d =
      (Inr (su_static_public su, su_static_secret su), d1)"
    "write_connect_file (he_log_stamp e) (he_config e) (su_static_public su) l1 d1 = (l2, d2)"
    "start_listeners (si_kernel w) (he_config e) d2 = (r, d')"
  using assms by (auto simp: boot_server_def Let_def split: option.splits sum.splits prod.splits)


section \<open>From the start of a server to the options of a client\<close>

lemma encode_hex_digits: "set (encode_hex bs) \<subseteq> set HEX_DIGITS"
proof (induction bs)
  case (Cons b bs)
  have "length HEX_DIGITS = 16" by (simp add: HEX_DIGITS_list)
  then show ?case using Cons nibble_less [of b] by (auto intro!: nth_mem)
qed simp

lemma encode_hex_plain: "c \<in> set (encode_hex bs) \<Longrightarrow> c \<noteq> 10 \<and> \<not> is_leading_blank c \<and> \<not> is_trailing_blank c"
  using encode_hex_digits [of bs] by (auto simp: HEX_DIGITS_list is_leading_blank_def is_trailing_blank_def)

lemma decimal_text_plain: "c \<in> set (decimal_text n) \<Longrightarrow> c \<noteq> 10 \<and> \<not> is_leading_blank c \<and> \<not> is_trailing_blank c"
  using decimal_text_digits [of n]
  by (auto simp: list_all_iff is_decimal_digit_def is_leading_blank_def is_trailing_blank_def)

lemma trim_plain:
  assumes "\<And>c. c \<in> set s \<Longrightarrow> \<not> is_leading_blank c \<and> \<not> is_trailing_blank c"
  shows "option_trim_spaces s = s"
proof -
  have "dropWhile is_leading_blank s = s" "dropWhile is_trailing_blank (rev s) = rev s"
    using assms by (auto simp: dropWhile_eq_self_iff hd_rev)
  then show ?thesis by (simp add: option_trim_spaces_def)
qed

lemma file_lines_line: "10 \<notin> set line \<Longrightarrow> file_lines (line @ newline @ rest) = line # file_lines rest"
  by (subst file_lines.simps) (auto simp: newline_def takeWhile_append dropWhile_append)

lemma connect_line:
  assumes "equals_sign \<notin> set key" and "option_trim_spaces key = key" and "option_trim_spaces v = v"
  shows "apply_connect_line (key @ equals_sign # v) out =
    (if key = ascii ''host'' then Inr (out\<lparr>op_host := v\<rparr>)
     else if key = ascii ''port'' then
       (case option_port v of None \<Rightarrow> Inl (Invalid_file_port v) | Some port \<Rightarrow> Inr (out\<lparr>op_port := port\<rparr>))
     else if key = ascii ''server_key'' then Inr (out\<lparr>op_server_key_hex := v\<rparr>)
     else if key = ascii ''socks5'' then parse_proxy_endpoint v out
     else Inr out)"
proof -
  have "takeWhile (\<lambda>c. c \<noteq> equals_sign) (key @ equals_sign # v) = key"
    "dropWhile (\<lambda>c. c \<noteq> equals_sign) (key @ equals_sign # v) = equals_sign # v"
    using assms(1) by (auto simp: takeWhile_append dropWhile_append)
  then show ?thesis using assms(2,3) by (simp add: apply_connect_line_def)
qed

lemma connect_words:
  "ascii ''host='' = ascii ''host'' @ [equals_sign]" "ascii ''port='' = ascii ''port'' @ [equals_sign]"
  "ascii ''server_key='' = ascii ''server_key'' @ [equals_sign]"
  by (simp_all add: ascii_def equals_sign_def)

lemma connect_keys:
  "equals_sign \<notin> set (ascii ''host'')" "equals_sign \<notin> set (ascii ''port'')" "equals_sign \<notin> set (ascii ''server_key'')"
  "option_trim_spaces (ascii ''host'') = ascii ''host''" "option_trim_spaces (ascii ''port'') = ascii ''port''"
  "option_trim_spaces (ascii ''server_key'') = ascii ''server_key''"
  "10 \<notin> set (ascii ''host'')" "10 \<notin> set (ascii ''port'')" "10 \<notin> set (ascii ''server_key'')"
  by (simp_all add: ascii_def equals_sign_def option_trim_spaces_def is_leading_blank_def is_trailing_blank_def)

lemma connect_text_read:
  assumes "10 \<notin> set host" and "option_trim_spaces host = host" and "port \<noteq> 0"
  shows "apply_connect_lines (file_lines (connect_text host port public)) out =
    Inr (out\<lparr>op_host := host, op_port := port, op_server_key_hex := encode_hex public\<rparr>)"
proof -
  let ?p = "decimal_text (unat port)" and ?k = "encode_hex public"
  have plain: "10 \<notin> set ?p" "10 \<notin> set ?k" "10 \<noteq> equals_sign"
    using decimal_text_plain encode_hex_plain by (blast, blast, simp add: equals_sign_def)
  have trimmed: "option_trim_spaces ?p = ?p" "option_trim_spaces ?k = ?k"
    using decimal_text_plain encode_hex_plain by (blast intro: trim_plain)+
  have text_is: "connect_text host port public =
      (ascii ''host'' @ equals_sign # host) @ newline @ (ascii ''port'' @ equals_sign # ?p) @ newline @
      (ascii ''server_key'' @ equals_sign # ?k) @ newline @ []"
    by (simp add: connect_text_def connect_words)
  have lines: "file_lines (connect_text host port public) =
      [ascii ''host'' @ equals_sign # host, ascii ''port'' @ equals_sign # ?p, ascii ''server_key'' @ equals_sign # ?k]"
    unfolding text_is using plain assms(1) connect_keys(7-9)
      file_lines_line [of "ascii ''server_key'' @ equals_sign # ?k" "[]"]
    by (simp add: file_lines_line file_lines.simps [of "[]"] del: append.simps append_assoc)
  have words: "ascii ''port'' \<noteq> ascii ''host''" "ascii ''server_key'' \<noteq> ascii ''host''" "ascii ''server_key'' \<noteq> ascii ''port''"
    by (simp_all add: ascii_def)
  show ?thesis unfolding lines
    using connect_line [OF connect_keys(1,4) assms(2)] connect_line [OF connect_keys(2,5) trimmed(1)]
      connect_line [OF connect_keys(3,6) trimmed(2)]
    by (simp add: words option_port_text [OF assms(3)])
qed


lemma write_all_unfailing:
  "Write_failed \<notin> set os \<Longrightarrow> \<exists>os'. write_all os written rest = (True, written @ rest, os') \<and> set os' \<subseteq> set os"
  by (induction os written rest rule: write_all.induct) auto

lemma key_writes:
  assumes "load_or_create_server_key lib generated path d = (r, d')" and "Write_failed \<notin> set (dk_writes d)"
  shows "Write_failed \<notin> set (dk_writes d')"
proof -
  have "Write_failed \<notin> set (dk_writes d1)" if "write_secret_file path secret d = (q, d1)" for secret q d1
    using that assms(2) write_all_unfailing [OF assms(2), of "[]" secret]
    by (auto simp: write_secret_file_def put_file_def split: if_splits)
  then show ?thesis using assms
    by (auto simp: load_or_create_server_key_def split: option.splits prod.splits sum.splits)
qed

lemma connect_file_written:
  assumes "write_connect_file stamp config public l d = (l', d')" and "pt_connect_file_path (sc_paths config) \<noteq> []"
    and "lc_enabled (sc_clearnet config)" and "\<not> dk_open_fails d (pt_connect_file_path (sc_paths config))"
    and "Write_failed \<notin> set (dk_writes d)"
  shows "dk_files d' (pt_connect_file_path (sc_paths config)) =
    Some (connect_text (connect_host config) (lc_port (sc_clearnet config)) public)"
  using assms write_all_unfailing [OF assms(5), of "[]" "connect_text (connect_host config) (lc_port (sc_clearnet config)) public"]
  by (auto simp: write_connect_file_def put_file_def Let_def)

lemma valid_port: "fst (validate_config config) \<Longrightarrow> lc_enabled (sc_clearnet config) \<Longrightarrow> lc_port (sc_clearnet config) \<noteq> 0"
  by (auto simp: validate_config_def check_listener_def Let_def split: if_splits)

lemma apply_connect_file_word:
  "apply_argument files (ascii ''--connect-file'') (v # rest) out =
     (case load_connect_file files v out of Inl e \<Rightarrow> Inl e | Inr out' \<Rightarrow> Inr (out', rest))"
  by (simp add: apply_argument_def with_value_def take_value_def ascii_def)

lemma connect_file_options:
  assumes "files path = Some (connect_text host port public)" and "10 \<notin> set host" and "option_trim_spaces host = host"
    and "port \<noteq> 0" and "length public = X25519_PUBLIC_KEY_SIZE"
    and "command \<noteq> []" and "list_all (\<lambda>a. a \<notin> option_words) (command # args)"
  shows "parse_cli_options files (ascii ''--connect-file'' # path # command # args) default_options True True =
    Inr (route_onion (default_options\<lparr>op_host := host, op_port := port, op_server_key_hex := encode_hex public,
      op_command := command, op_arguments := args\<rparr>))"
proof -
  let ?read = "default_options\<lparr>op_host := host, op_port := port, op_server_key_hex := encode_hex public\<rparr>"
  have "load_connect_file files path default_options = Inr ?read"
    using assms(1) connect_text_read [OF assms(2-4)] by (simp add: load_connect_file_def)
  moreover have "parse_arguments files (command # args) ?read = Inr (?read\<lparr>op_command := command, op_arguments := args\<rparr>)"
    using assms(6,7) by (intro command_and_arguments) (simp_all add: default_options_def)
  ultimately have "parse_arguments files (ascii ''--connect-file'' # path # command # args) default_options =
      Inr (?read\<lparr>op_command := command, op_arguments := args\<rparr>)"
    by (simp add: apply_connect_file_word del: parse_arguments.simps(2) add: parse_arguments.simps(2) [of _ "ascii _"])
  then show ?thesis using assms(5,6) by (simp add: parse_cli_options_def route_onion_def Let_def)
qed

text \<open>
  C17: the file a server writes at its start leads a client to that server. Whenever the start succeeds with
  the listener for the clear network enabled and a valid configuration, and the disk takes what is written to
  it, however piecemeal, a client that is given the file reads the host the configuration announces, its port,
  and the very public key the server answers handshakes with; the rest of its command line is unaffected.
\<close>

theorem started_server_reachable:
  assumes "boot_server e w l d store = (Inr (su, st), l', d', store')"
    and "fst (validate_config (he_config e))" and "lc_enabled (sc_clearnet (he_config e))"
    and "path = pt_connect_file_path (sc_paths (he_config e))" and "path \<noteq> []"
    and "path \<noteq> pt_admin_socket_path (sc_paths (he_config e))" and "\<not> dk_open_fails d path" and "Write_failed \<notin> set (dk_writes d)"
    and "10 \<notin> set (connect_host (he_config e))" and "option_trim_spaces (connect_host (he_config e)) = connect_host (he_config e)"
    and "length (su_static_public su) = X25519_PUBLIC_KEY_SIZE"
    and "command \<noteq> []" and "list_all (\<lambda>a. a \<notin> option_words) (command # args)"
  shows "\<exists>opts. parse_cli_options (dk_files d') (ascii ''--connect-file'' # path # command # args) default_options True True = Inr opts \<and>
    op_host opts = connect_host (he_config e) \<and> op_port opts = lc_port (sc_clearnet (he_config e)) \<and>
    decode_key (op_server_key_hex opts) = Some (su_static_public su) \<and> op_command opts = command \<and> op_arguments opts = args"
proof -
  from assms(1) obtain l1 d1 l2 d2 r where
    k: "load_or_create_server_key (he_sodium e) (si_generated w) (pt_server_key_path (sc_paths (he_config e))) d =
      (Inr (su_static_public su, su_static_secret su), d1)" and
    c: "write_connect_file (he_log_stamp e) (he_config e) (su_static_public su) l1 d1 = (l2, d2)" and
    s: "start_listeners (si_kernel w) (he_config e) d2 = (r, d')" by (rule booted)
  have "\<not> dk_open_fails d1 path" using key_elsewhere [OF k] assms(7) by (simp add: same_elsewhere_def)
  then have "dk_files d2 path = Some (connect_text (connect_host (he_config e)) (lc_port (sc_clearnet (he_config e))) (su_static_public su))"
    using connect_file_written [OF c] key_writes [OF k assms(8)] assms(3-5) by simp
  then have f: "dk_files d' path = Some (connect_text (connect_host (he_config e)) (lc_port (sc_clearnet (he_config e))) (su_static_public su))"
    using listeners_elsewhere [OF s] assms(6) by (simp add: same_elsewhere_def)
  show ?thesis
    using connect_file_options [where files = "dk_files d'" and path = path, OF f assms(9,10) valid_port [OF assms(2,3)] assms(11-13)] assms(11)
    by (simp add: route_onion_def decode_key_def decode_hex_def decode_encode_hex_pairs)
qed

text \<open>
  C16: the identity of a server survives its restarts. Once a start has succeeded, every later successful start
  that finds the key file as that one left it runs with the same key pair, whatever the generator would give
  then, however the first writes were split up, and whichever of the two starts made the file; the public key is
  the one of the secret. Neither the file for clients nor the administration socket may be at the path of the key.
\<close>

theorem server_key_survives_restarts:
  assumes "boot_server e w l d store = (Inr (su, st), l', d', store')" and "keypair_sound (he_sodium e) (si_generated w)"
    and "path = pt_server_key_path (sc_paths (he_config e))" and "\<not> dk_read_fails d path"
    and "path \<notin> {pt_connect_file_path (sc_paths (he_config e)), pt_admin_socket_path (sc_paths (he_config e))}"
    and "dk_files d2 path = dk_files d' path" and "\<not> dk_read_fails d2 path"
    and "boot_server e w2 l2 d2 store2 = (Inr (su2, st2), l2', d2', store2')"
  shows "su_static_secret su2 = su_static_secret su \<and> su_static_public su2 = su_static_public su \<and>
    compute_public_from_secret (he_sodium e) (su_static_secret su) = Some (su_static_public su)"
proof -
  from assms(1) obtain l3 d3 l4 d4 r where
    k: "load_or_create_server_key (he_sodium e) (si_generated w) (pt_server_key_path (sc_paths (he_config e))) d =
      (Inr (su_static_public su, su_static_secret su), d3)" and
    c: "write_connect_file (he_log_stamp e) (he_config e) (su_static_public su) l3 d3 = (l4, d4)" and
    s: "start_listeners (si_kernel w) (he_config e) d4 = (r, d')" by (rule booted)
  have stays: "read_secret_file path d3 = Some (su_static_secret su)"
    "compute_public_from_secret (he_sodium e) (su_static_secret su) = Some (su_static_public su)"
    using key_stays [OF k assms(2)] assms(3,4) by simp_all
  have "dk_files d2 path = dk_files d3 path" "dk_read_fails d3 = dk_read_fails d"
    using connect_elsewhere [OF c] listeners_elsewhere [OF s] key_elsewhere [OF k] assms(5,6) by (auto simp: same_elsewhere_def)
  then have "read_secret_file path d2 = Some (su_static_secret su)"
    using read_secret_same stays(1) assms(7) by blast
  moreover from assms(8) obtain d5 where
    "load_or_create_server_key (he_sodium e) (si_generated w2) path d2 = (Inr (su_static_public su2, su_static_secret su2), d5)"
    unfolding assms(3) by (rule booted)
  ultimately show ?thesis using key_read_again stays by fastforce
qed


text \<open>A first start on an empty disk whose writes are interrupted and split, and a second one that would draw another key.\<close>

definition toy_answers :: "int \<Rightarrow> listener_answers" where
  "toy_answers descriptor =
     \<lparr>la_address_valid = True, la_stale_removed = True, la_socket = descriptor, la_bind = True, la_restrict = True,
      la_nonblocking = True, la_listen = True, la_watch = True\<rparr>"

definition toy_start :: "u8 \<Rightarrow> start_inputs" where
  "toy_start key =
     \<lparr>si_opening = None, si_script_failure = (\<lambda>_. None), si_engine_message = [], si_scripts = (\<lambda>_ db. (True, db)),
      si_migrations = \<lparr>mg_entries = Some [], mg_contents = (\<lambda>_. None)\<rparr>,
      si_generated = Some (replicate 32 key, replicate 32 key),
      si_kernel = \<lparr>sk_loop_failure = None, sk_clearnet = toy_answers 3, sk_onion = toy_answers 4, sk_admin = toy_answers 5,
        sk_signal = 6, sk_signal_watch = True\<rparr>,
      si_now = 0, si_clock = [], si_random = []\<rparr>"

definition toy_start_env :: handler_env where
  "toy_start_env = \<lparr>he_sodium = toy_sodium, he_verify = (\<lambda>_ _ _. True),
     he_config = default_config\<lparr>sc_clearnet :=
       \<lparr>lc_enabled = True, lc_bind_address = ascii ''0.0.0.0'', lc_port = 7777, lc_advertised_host = ascii ''a.example''\<rparr>\<rparr>,
     he_log_stamp = [], he_storage_error = []\<rparr>"

definition toy_start_disk :: disk where
  "toy_start_disk = \<lparr>dk_files = (\<lambda>_. None), dk_open_fails = (\<lambda>_. False), dk_chmod_fails = (\<lambda>_. False),
     dk_read_fails = (\<lambda>_. False), dk_writes = [Interrupted, Wrote 10]\<rparr>"

definition toy_start_store :: "database schema_store" where
  "toy_start_store = \<lparr>sm_tables = \<lparr>db_tables = empty_tables, db_saved = None, db_faults = []\<rparr>, sm_applied = [], sm_saved = None, sm_faults = [], sm_clock = []\<rparr>"


lemma boots:
  assumes "si_opening w = None" and "si_script_failure w STARTUP_PRAGMAS = None" and "mg_entries (si_migrations w) = Some []"
    and "sm_faults store = []" and "load_or_create_server_key (he_sodium e) (si_generated w) (pt_server_key_path (sc_paths (he_config e))) d =
      (Inr (public, secret), d1)"
    and "\<And>d. \<exists>x d'. start_listeners (si_kernel w) (he_config e) d = (Inr x, d')"
  obtains su st l' d' store' where "boot_server e w l d store = (Inr (su, st), l', d', store')"
    "su_static_public su = public" "su_static_secret su = secret"
proof -
  have m: "\<exists>store1. apply_pending_migrations (si_scripts w) (si_migrations w) path stamp l store = (Inr (), l, store1)" for path stamp
    using assms(3,4) by (simp add: apply_pending_migrations_def take_fault_def collect_migration_files_def)
  then obtain store1 where m1: "apply_pending_migrations (si_scripts w) (si_migrations w)
      (pt_migrations_directory (sc_paths (he_config e))) (he_log_stamp e) l store = (Inr (), l, store1)" by blast
  obtain l2 d2 where c: "write_connect_file (he_log_stamp e) (he_config e) public
      (announce_server_key (he_log_stamp e) public l) d1 = (l2, d2)" by (rule prod.exhaust)
  obtain x d3 where k: "start_listeners (si_kernel w) (he_config e) d2 = (Inr x, d3)" using assms(6) by blast
  obtain clearnet onion admin signal where "x = (clearnet, onion, admin, signal)" by (rule prod_cases4)
  then show thesis using assms(1,2,5) m1 c k that by (simp add: boot_server_def open_database_def Let_def)
qed

lemma fresh_key:
  assumes "dk_files d path = None" and "\<not> dk_open_fails d path" and "Write_failed \<notin> set (dk_writes d)"
  shows "\<exists>d1. load_or_create_server_key lib (Some (public, secret)) path d = (Inr (public, secret), d1)"
  using assms write_all_unfailing [OF assms(3), of "[]" secret]
  by (auto simp: load_or_create_server_key_def read_secret_file_def write_secret_file_def)

text \<open>A key file that is too short is not reported: it is overwritten, and the server has another identity.\<close>

lemma short_key_replaced:
  assumes "dk_files d path = Some content" and "length content < X25519_SECRET_KEY_SIZE" and "\<not> dk_open_fails d path"
    and "Write_failed \<notin> set (dk_writes d)"
  shows "\<exists>d1. load_or_create_server_key lib (Some (public, secret)) path d = (Inr (public, secret), d1) \<and> dk_files d1 path = Some secret"
  using assms write_all_unfailing [OF assms(4), of "[]" secret]
  by (auto simp: load_or_create_server_key_def read_secret_file_def write_secret_file_def)

lemma toy_listeners: "\<exists>x d'. start_listeners (si_kernel (toy_start key)) (he_config toy_start_env) d = (Inr x, d')"
  by (simp add: start_listeners_def toy_start_def toy_start_env_def toy_answers_def open_configured_listener_def
      tcp_open_listener_def watch_listener_def open_admin_service_def admin_open_listener_def default_config_def
      default_listener_def SUN_PATH_SIZE_def ascii_def)

lemma toy_boot:
  assumes "\<exists>d1. load_or_create_server_key toy_sodium (Some (replicate 32 key, replicate 32 key))
      (pt_server_key_path (sc_paths (he_config toy_start_env))) d = (Inr (public, secret), d1)"
  obtains su st l' d' store' where "boot_server toy_start_env (toy_start key) l d toy_start_store = (Inr (su, st), l', d', store')"
    "su_static_public su = public" "su_static_secret su = secret"
proof -
  have "he_sodium toy_start_env = toy_sodium" "si_generated (toy_start key) = Some (replicate 32 key, replicate 32 key)"
    by (simp_all add: toy_start_env_def toy_start_def)
  with assms obtain d1 where "load_or_create_server_key (he_sodium toy_start_env) (si_generated (toy_start key))
      (pt_server_key_path (sc_paths (he_config toy_start_env))) d = (Inr (public, secret), d1)" by auto
  moreover have "si_opening (toy_start key) = None" "si_script_failure (toy_start key) STARTUP_PRAGMAS = None"
    "mg_entries (si_migrations (toy_start key)) = Some []" "sm_faults toy_start_store = []"
    by (simp_all add: toy_start_def toy_start_store_def)
  ultimately show thesis using boots [OF _ _ _ _ _ toy_listeners] that by blast
qed

lemma toy_start_config:
  "fst (validate_config (he_config toy_start_env))" "lc_enabled (sc_clearnet (he_config toy_start_env))"
  "pt_connect_file_path (sc_paths (he_config toy_start_env)) = ascii ''run/hypercom-connect.txt''"
  "pt_admin_socket_path (sc_paths (he_config toy_start_env)) = ascii ''run/hypercom-admin.sock''"
  "pt_server_key_path (sc_paths (he_config toy_start_env)) = ascii ''keys/server_static.key''"
  "connect_host (he_config toy_start_env) = ascii ''a.example''"
  by (simp_all add: toy_start_env_def default_config_def connect_host_def validate_config_def check_listener_def check_limits_def
      default_listener_def default_limits_def ascii_def)

theorem started_server_reachable_witness:
  "\<exists>su st l d store opts. boot_server toy_start_env (toy_start 1) toy_log toy_start_disk toy_start_store = (Inr (su, st), l, d, store) \<and>
     parse_cli_options (dk_files d) [ascii ''--connect-file'', ascii ''run/hypercom-connect.txt'', ascii ''forums''] default_options True True =
       Inr opts \<and> op_host opts = ascii ''a.example'' \<and> decode_key (op_server_key_hex opts) = Some (replicate 32 1)"
proof -
  have "\<exists>d1. load_or_create_server_key toy_sodium (Some (replicate 32 1, replicate 32 1)) path toy_start_disk =
      (Inr (replicate 32 1, replicate 32 1), d1)" for path
    by (rule fresh_key) (simp_all add: toy_start_disk_def)
  from toy_boot [OF this, of toy_log] obtain su st l d store where
    b: "boot_server toy_start_env (toy_start 1) toy_log toy_start_disk toy_start_store = (Inr (su, st), l, d, store)"
      and key: "su_static_public su = replicate 32 1" by metis
  have disk: "\<not> dk_open_fails toy_start_disk p" "Write_failed \<notin> set (dk_writes toy_start_disk)" for p
    by (simp_all add: toy_start_disk_def)
  have host: "10 \<notin> set (connect_host (he_config toy_start_env))"
    "option_trim_spaces (connect_host (he_config toy_start_env)) = connect_host (he_config toy_start_env)"
    by (simp_all add: toy_start_config(6) ascii_def option_trim_spaces_def is_leading_blank_def is_trailing_blank_def)
  have path: "ascii ''run/hypercom-connect.txt'' \<noteq> []"
    "ascii ''run/hypercom-connect.txt'' \<noteq> pt_admin_socket_path (sc_paths (he_config toy_start_env))"
    by (simp_all add: toy_start_config(4) ascii_def)
  have command: "ascii ''forums'' \<noteq> []" "list_all (\<lambda>a. a \<notin> option_words) [ascii ''forums'']"
    by (simp_all add: ascii_def option_words_def)
  have "length (su_static_public su) = X25519_PUBLIC_KEY_SIZE" by (simp add: key)
  from started_server_reachable [OF b toy_start_config(1,2) toy_start_config(3) [symmetric] path disk host this command] b
  show ?thesis unfolding key toy_start_config(6) by blast
qed

theorem server_key_survives_restarts_witness:
  "\<exists>su st l d store su2 st2 l2 d2 store2.
     boot_server toy_start_env (toy_start 1) toy_log toy_start_disk toy_start_store = (Inr (su, st), l, d, store) \<and>
     boot_server toy_start_env (toy_start 2) toy_log d toy_start_store = (Inr (su2, st2), l2, d2, store2) \<and>
     su_static_secret su = replicate 32 1 \<and> su_static_secret su2 = replicate 32 1"
proof -
  let ?path = "pt_server_key_path (sc_paths (he_config toy_start_env))"
  have "\<exists>d1. load_or_create_server_key toy_sodium (Some (replicate 32 1, replicate 32 1)) path toy_start_disk =
      (Inr (replicate 32 1, replicate 32 1), d1)" for path
    by (rule fresh_key) (simp_all add: toy_start_disk_def)
  from toy_boot [OF this, of toy_log] obtain su st l d store where
    b: "boot_server toy_start_env (toy_start 1) toy_log toy_start_disk toy_start_store = (Inr (su, st), l, d, store)"
      and key: "su_static_secret su = replicate 32 1" by metis
  from b obtain l1 d1 l2 d2 r where
    k: "load_or_create_server_key (he_sodium toy_start_env) (si_generated (toy_start 1)) ?path toy_start_disk =
      (Inr (su_static_public su, su_static_secret su), d1)" and
    c: "write_connect_file (he_log_stamp toy_start_env) (he_config toy_start_env) (su_static_public su) l1 d1 = (l2, d2)" and
    s: "start_listeners (si_kernel (toy_start 1)) (he_config toy_start_env) d2 = (r, d)" by (rule booted)
  have sound: "keypair_sound (he_sodium toy_start_env) (si_generated (toy_start 1))" and fails: "\<not> dk_read_fails toy_start_disk ?path"
    by (simp_all add: keypair_sound_def toy_start_env_def toy_start_def toy_sodium_def compute_public_from_secret_def toy_start_disk_def)
  have apart: "?path \<notin> {pt_connect_file_path (sc_paths (he_config toy_start_env)), pt_admin_socket_path (sc_paths (he_config toy_start_env))}"
    by (simp add: toy_start_config ascii_def)
  have d: "dk_files d ?path = dk_files d1 ?path" "dk_read_fails d = dk_read_fails d1" "\<not> dk_read_fails d ?path"
    using connect_elsewhere [OF c] listeners_elsewhere [OF s] key_elsewhere [OF k] apart fails by (auto simp: same_elsewhere_def)
  then have "read_secret_file ?path d = Some (su_static_secret su)"
    using read_secret_same key_stays(1) [OF k sound fails] by blast
  then have "load_or_create_server_key toy_sodium (Some (replicate 32 2, replicate 32 2)) ?path d =
      (Inr (su_static_public su, su_static_secret su), d)"
    using key_stays(2) [OF k sound fails] by (intro key_read_again) (simp_all add: toy_start_env_def)
  then obtain su2 st2 l2 d2 store2 where
    b2: "boot_server toy_start_env (toy_start 2) toy_log d toy_start_store = (Inr (su2, st2), l2, d2, store2)"
    using toy_boot [of 2 d] by metis
  show ?thesis using server_key_survives_restarts [OF b sound refl fails apart refl d(3) b2] b b2 key by auto
qed

end
