(* ===== verification/Tools.thy ===== *)
theory Tools
  imports Server_Start
begin

text \<open>
  The tools beside the server: the administration client (\<^verbatim>\<open>tools/adminctl/adminctl_main.cpp\<close>), which writes
  one line to the administration socket and copies the answer, and the offline key generator
  (\<^verbatim>\<open>tools/keygen/keygen_main.cpp\<close>).
\<close>

section \<open>The administration client\<close>

definition DEFAULT_SOCKET_PATH :: bytes where "DEFAULT_SOCKET_PATH = ascii ''run/hypercom-admin.sock''"
definition ADMINCTL_EXIT_USAGE :: nat where "ADMINCTL_EXIT_USAGE = 2"
definition ADMINCTL_EXIT_CONNECTION :: nat where "ADMINCTL_EXIT_CONNECTION = 3"

definition adminctl_usage :: bytes where
  "adminctl_usage =
     concat (map (\<lambda>line. ascii line @ newline)
       [''usage : hypercom_adminctl [--socket <chemin>] <commande> [args]'', '''', ''  hypercom_adminctl stats'',
        ''  hypercom_adminctl sessions'', ''  hypercom_adminctl sessions close 12'']) @
     ascii ''  hypercom_adminctl motd set '' @ [QUOTE] @ ascii ''maintenance samedi 14h'' @ [QUOTE] @ newline @
     concat (map (\<lambda>line. ascii line @ newline)
       [''  hypercom_adminctl motd clear'', ''  hypercom_adminctl backup /sauvegardes/hypercom.db'', ''  hypercom_adminctl help'', '''']) @
     ascii ''Defaut du socket : '' @ DEFAULT_SOCKET_PATH @ newline"

definition quote_if_needed :: "bytes \<Rightarrow> bytes" where
  "quote_if_needed argument = (if 32 \<notin> set argument \<and> 9 \<notin> set argument then argument else [QUOTE] @ argument @ [QUOTE])"

text \<open>The loop over the arguments; a blank goes before every argument but the first that leaves something on the line.\<close>

fun append_arguments :: "bytes list \<Rightarrow> bytes \<Rightarrow> bytes" where
  "append_arguments [] line = line"
| "append_arguments (argument # arguments) line =
     append_arguments arguments ((if line = [] then line else line @ [32]) @ quote_if_needed argument)"

definition adminctl_line :: "bytes list \<Rightarrow> bytes" where
  "adminctl_line arguments = append_arguments arguments [] @ [NEWLINE]"

text \<open>\<open>handle\<close> is what \<^verbatim>\<open>socket\<close> and \<^verbatim>\<open>connect\<close> give, \<open>None\<close> when one of them fails.\<close>

definition connect_to_socket :: "int option \<Rightarrow> bytes \<Rightarrow> int option" where
  "connect_to_socket handle path = (if length path \<ge> SUN_PATH_SIZE then None else handle)"

text \<open>
  What the peer was sent and whether that is all of it. \<open>None\<close> in the list is an answer of zero or below;
  when the list is used up the rest is sent at once.
\<close>

fun adminctl_send_all :: "nat option list \<Rightarrow> bytes \<Rightarrow> bool \<times> bytes" where
  "adminctl_send_all answers [] = (True, [])"
| "adminctl_send_all [] payload = (True, payload)"
| "adminctl_send_all (None # answers) payload = (False, [])"
| "adminctl_send_all (Some n # answers) payload =
     (if n = 0 then (False, [])
      else case adminctl_send_all answers (drop n payload) of (success, sent) \<Rightarrow> (success, take n payload @ sent))"

text \<open>An empty chunk is an answer of zero or below.\<close>

fun copy_response_to_output :: "bytes list \<Rightarrow> bytes" where
  "copy_response_to_output [] = []"
| "copy_response_to_output (chunk # chunks) = (if chunk = [] then [] else chunk @ copy_response_to_output chunks)"

record adminctl_run =
  ar_exit :: nat
  ar_socket_path :: bytes
  ar_sent :: bytes
  ar_output :: bytes
  ar_errors :: bytes

definition adminctl_main :: "bytes list \<Rightarrow> int option \<Rightarrow> nat option list \<Rightarrow> bytes list \<Rightarrow> adminctl_run" where
  "adminctl_main args handle sends chunks =
     (let (path, arguments) =
        (case args of
           flag # path # arguments \<Rightarrow> if flag = ascii ''--socket'' then (path, arguments) else (DEFAULT_SOCKET_PATH, args)
         | _ \<Rightarrow> (DEFAULT_SOCKET_PATH, args)) in
      if arguments = []
      then \<lparr>ar_exit = ADMINCTL_EXIT_USAGE, ar_socket_path = path, ar_sent = [], ar_output = [], ar_errors = adminctl_usage\<rparr>
      else case connect_to_socket handle path of
        None \<Rightarrow>
          \<lparr>ar_exit = ADMINCTL_EXIT_CONNECTION, ar_socket_path = path, ar_sent = [], ar_output = [],
           ar_errors = ascii ''connexion impossible au socket d'admin : '' @ path @ newline @
             ascii ''Le serveur tourne-t-il, et le chemin est-il le bon ?'' @ newline\<rparr>
      | Some _ \<Rightarrow>
          (case adminctl_send_all sends (adminctl_line arguments) of (success, sent) \<Rightarrow>
             if success
             then \<lparr>ar_exit = 0, ar_socket_path = path, ar_sent = sent, ar_output = copy_response_to_output chunks, ar_errors = []\<rparr>
             else \<lparr>ar_exit = ADMINCTL_EXIT_CONNECTION, ar_socket_path = path, ar_sent = sent, ar_output = [],
                   ar_errors = ascii ''envoi de la commande impossible'' @ newline\<rparr>))"

section \<open>The key generator\<close>

text \<open>
  The stream has a buffer that holds both kinds of file, so it reports success as soon as the file could be
  opened, which truncates what was there; the bytes are written when the stream goes.
\<close>

definition write_binary_file :: "bytes \<Rightarrow> bytes \<Rightarrow> disk \<Rightarrow> bool \<times> disk" where
  "write_binary_file path content d =
     (if dk_open_fails d path then (False, d)
      else case write_all (dk_writes d) [] content of (_, written, outcomes) \<Rightarrow> (True, put_file path written outcomes d))"

record keygen_run =
  kg_exit :: nat
  kg_output :: bytes
  kg_errors :: bytes
  kg_disk :: disk

definition keygen_fails :: "nat \<Rightarrow> bytes \<Rightarrow> bytes \<Rightarrow> disk \<Rightarrow> keygen_run" where
  "keygen_fails code output message d = \<lparr>kg_exit = code, kg_output = output, kg_errors = message @ newline, kg_disk = d\<rparr>"

definition generate_server_key :: "(bytes \<times> bytes) option \<Rightarrow> bytes \<Rightarrow> disk \<Rightarrow> keygen_run" where
  "generate_server_key generated path d =
     (case generated of
        None \<Rightarrow> keygen_fails 1 [] (ascii ''generation impossible'') d
      | Some (public, secret) \<Rightarrow>
          (case write_binary_file path secret d of
             (False, d1) \<Rightarrow> keygen_fails 1 [] (ascii ''ecriture impossible : '' @ path) d1
           | (True, d1) \<Rightarrow>
               \<lparr>kg_exit = 0,
                kg_output = ascii ''cle privee ecrite dans '' @ path @ newline @ ascii ''METTRE LES DROITS A 0600 : chmod 600 '' @ path @
                  newline @ newline @ ascii ''cle publique a communiquer aux clients :'' @ newline @ encode_hex public @ newline @ newline @
                  ascii ''Elle doit voyager par un canal de confiance. La faire recuperer'' @ newline @
                  ascii ''depuis le serveur lui-meme annulerait tout l'interet de l'epinglage.'' @ newline,
                kg_errors = [], kg_disk = d1\<rparr>))"

text \<open>\<open>typed\<close> is the line read from the standard input, \<open>None\<close> at its end.\<close>

definition generate_identity ::
  "client_lib \<Rightarrow> bytes option \<Rightarrow> identity_keypair option \<Rightarrow> bytes \<Rightarrow> bytes \<Rightarrow> bytes \<Rightarrow> disk \<Rightarrow> keygen_run" where
  "generate_identity lib typed generated salt nonce path d =
     (let asked = ascii ''passphrase : '' in
      case typed of
        None \<Rightarrow> keygen_fails 1 asked (ascii ''passphrase requise'') d
      | Some passphrase \<Rightarrow>
          if passphrase = [] then keygen_fails 1 asked (ascii ''passphrase requise'') d
          else case generated of
            None \<Rightarrow> keygen_fails 1 asked (ascii ''generation impossible'') d
          | Some keypair \<Rightarrow>
              (case seal_identity_secret lib salt nonce passphrase (ik_secret keypair) of
                 None \<Rightarrow> keygen_fails 1 asked (ascii ''ecriture impossible : '' @ path) d
               | Some sealed \<Rightarrow>
                   (case write_binary_file path sealed d of
                      (False, d1) \<Rightarrow> keygen_fails 1 asked (ascii ''ecriture impossible : '' @ path) d1
                    | (True, d1) \<Rightarrow>
                        \<lparr>kg_exit = 0,
                         kg_output = asked @ ascii ''identite ecrite dans '' @ path @ newline @ ascii ''cle publique :'' @ newline @
                           encode_hex (ik_public keypair) @ newline @ newline @
                           ascii ''Cette cle EST le compte. Perdue, elle ne se recupere pas :'' @ newline @
                           ascii ''aucun administrateur ne peut la reinitialiser.'' @ newline,
                         kg_errors = [], kg_disk = d1\<rparr>)))"

record keygen_inputs =
  ki_sodium_ready :: bool
  ki_server_pair :: "(bytes \<times> bytes) option"
  ki_identity_pair :: "identity_keypair option"
  ki_typed :: "bytes option"
  ki_salt :: bytes
  ki_nonce :: bytes

definition keygen_main :: "client_lib \<Rightarrow> keygen_inputs \<Rightarrow> bytes list \<Rightarrow> disk \<Rightarrow> keygen_run" where
  "keygen_main lib inputs args d =
     (if \<not> ki_sodium_ready inputs then keygen_fails 1 [] (ascii ''libsodium n'a pas pu s'initialiser'') d
      else case args of
        mode # path # _ \<Rightarrow>
          if mode = ascii ''server'' then generate_server_key (ki_server_pair inputs) path d
          else if mode = ascii ''identity''
          then generate_identity lib (ki_typed inputs) (ki_identity_pair inputs) (ki_salt inputs) (ki_nonce inputs) path d
          else keygen_fails 2 [] (ascii ''mode inconnu : '' @ mode) d
      | _ \<Rightarrow> keygen_fails 2 [] (ascii ''usage : hypercom_keygen <server|identity> <chemin>'') d)"

section \<open>What is typed is what is executed\<close>

text \<open>
  The arguments that survive the way to the server. None is empty or contains an end of line. An argument with
  a blank or a tab is put between quotes and must not contain one; any other is written as it is, so it must not
  begin with a quote, which may stand elsewhere in it, nor contain a carriage return, which separates words too.
\<close>

definition passes :: "bytes \<Rightarrow> bool" where
  "passes a \<longleftrightarrow> a \<noteq> [] \<and> NEWLINE \<notin> set a \<and>
     (if 32 \<in> set a \<or> 9 \<in> set a then QUOTE \<notin> set a else hd a \<noteq> QUOTE \<and> 13 \<notin> set a)"

lemma append_arguments_tail:
  "line \<noteq> [] \<Longrightarrow> append_arguments args line = line @ concat (map (\<lambda>a. 32 # quote_if_needed a) args)"
  by (induction args arbitrary: line) simp_all

lemma parse_blank: "is_blank c \<Longrightarrow> parse_tokens (c # line) tokens = parse_tokens line tokens"
  by (subst parse_tokens.simps) simp

lemma parse_appended:
  "parse_tokens (append_arguments args []) tokens = parse_tokens (concat (map (\<lambda>a. 32 # quote_if_needed a) args)) tokens"
proof (induction args)
  case (Cons a args)
  then show ?case
    by (cases "a = []") (auto simp: quote_if_needed_def parse_blank is_blank_def append_arguments_tail)
qed simp

lemma take_rest_plain:
  assumes "\<And>c. c \<in> set w \<Longrightarrow> \<not> is_blank c" and "rest = [] \<or> is_blank (hd rest)"
  shows "take_rest False (w @ rest) token = Some (token @ w, rest)"
  using assms(1)
proof (induction w arbitrary: token)
  case Nil
  then show ?case using assms(2) by (cases rest) auto
qed simp

lemma take_token_quote:
  assumes "passes a" and "rest = [] \<or> is_blank (hd rest)"
  shows "take_token (quote_if_needed a @ rest) = Some (a, rest)"
proof (cases "32 \<notin> set a \<and> 9 \<notin> set a")
  case True
  then have "\<not> is_blank c" if "c \<in> set a" for c using that assms(1) by (auto simp: passes_def is_blank_def)
  moreover have "hd (a @ rest) \<noteq> QUOTE" using assms(1) True by (cases a) (auto simp: passes_def)
  ultimately show ?thesis using True take_rest_plain [of a rest "[]"] assms(2) by (simp add: take_token_def quote_if_needed_def)
next
  case False
  then show ?thesis using take_rest_quoted [of a rest "[]"] assms(1) by (auto simp: take_token_def quote_if_needed_def passes_def)
qed

lemma first_not_blank: "passes a \<Longrightarrow> \<exists>c r. quote_if_needed a @ rest = c # r \<and> \<not> is_blank c"
  by (cases a) (auto simp: passes_def quote_if_needed_def is_blank_def)

lemma parse_one_token:
  assumes "passes a" and "rest = [] \<or> is_blank (hd rest)"
  shows "parse_tokens (quote_if_needed a @ rest) tokens =
    (if length tokens \<ge> MAX_COMMAND_TOKENS then None else parse_tokens rest (tokens @ [a]))"
proof -
  obtain c r where "quote_if_needed a @ rest = c # r" "\<not> is_blank c" using first_not_blank [OF assms(1)] by blast
  with take_token_quote [OF assms] show ?thesis by (subst parse_tokens.simps) simp
qed

lemma arguments_start: "concat (map (\<lambda>a. 32 # f a) args) = [] \<or> is_blank (hd (concat (map (\<lambda>a. 32 # f a) args)))"
  by (cases args) (simp_all add: is_blank_def)

lemma parse_sent:
  assumes "\<And>a. a \<in> set args \<Longrightarrow> passes a" and "length tokens \<le> MAX_COMMAND_TOKENS"
  shows "parse_tokens (concat (map (\<lambda>a. 32 # quote_if_needed a) args)) tokens =
    (if length tokens + length args \<le> MAX_COMMAND_TOKENS then Some (tokens @ args) else None)"
  using assms
proof (induction args arbitrary: tokens)
  case Nil
  then show ?case by (simp add: parse_tokens.simps [of "[]"])
next
  case (Cons a args)
  then show ?case
    using Cons.IH [of "tokens @ [a]"] parse_one_token [OF _ arguments_start, of a quote_if_needed args tokens]
    by (auto simp: parse_blank is_blank_def)
qed

text \<open>
  Conversely. A word of a command line contains no quote, if it was written between quotes, or else begins with
  something else and contains no blank; there are at most sixteen words.
\<close>

definition word_shape :: "bytes \<Rightarrow> bool" where
  "word_shape w \<longleftrightarrow> QUOTE \<notin> set w \<or> hd w \<noteq> QUOTE \<and> (\<forall>c\<in>set w. \<not> is_blank c)"

lemma take_rest_word:
  "take_rest quoted line token = Some (t, rest) \<Longrightarrow>
     \<exists>w. t = token @ w \<and> set w \<subseteq> set line \<and> set rest \<subseteq> set line \<and>
       (if quoted then QUOTE \<notin> set w else \<forall>c\<in>set w. \<not> is_blank c)"
  by (induction quoted line token rule: take_rest.induct) (fastforce split: if_splits)+

lemma take_token_word:
  assumes "take_token (c # line) = Some (t, rest)" and "\<not> is_blank c"
  shows "word_shape t" and "set t \<subseteq> set (c # line)" and "set rest \<subseteq> set (c # line)"
proof -
  have "word_shape t \<and> set t \<subseteq> set (c # line) \<and> set rest \<subseteq> set (c # line)"
  proof (cases "c = QUOTE")
    case True
    then show ?thesis using assms take_rest_word [of True line "[]" t rest] by (auto simp: take_token_def word_shape_def)
  next
    case False
    then show ?thesis using assms take_rest_word [of False line "[c]" t rest] by (auto simp: take_token_def word_shape_def)
  qed
  then show "word_shape t" and "set t \<subseteq> set (c # line)" and "set rest \<subseteq> set (c # line)" by blast+
qed

lemma parse_tokens_words:
  "parse_tokens line tokens = Some words \<Longrightarrow>
     \<exists>us. words = tokens @ us \<and> (us \<noteq> [] \<longrightarrow> length words \<le> MAX_COMMAND_TOKENS) \<and>
       (\<forall>u\<in>set us. word_shape u \<and> set u \<subseteq> set line)"
proof (induction line tokens rule: parse_tokens.induct)
  case (1 line tokens)
  show ?case
  proof (cases line)
    case Nil
    then show ?thesis using 1(3) by (simp add: parse_tokens.simps)
  next
    case (Cons c rest)
    show ?thesis
    proof (cases "is_blank c")
      case True
      then have "parse_tokens rest tokens = Some words" using 1(3) Cons by (simp add: parse_blank)
      from 1(1) [OF Cons True this] Cons show ?thesis by auto
    next
      case False
      obtain t left where few: "\<not> MAX_COMMAND_TOKENS \<le> length tokens" and t: "take_token line = Some (t, left)"
        and p: "parse_tokens left (tokens @ [t]) = Some words"
        using 1(3) Cons False by (auto simp: parse_tokens.simps [of "c # rest"] split: if_splits option.splits)
      from 1(2) [OF Cons False few t refl p] obtain us where us: "words = (tokens @ [t]) @ us"
        "us \<noteq> [] \<longrightarrow> length words \<le> MAX_COMMAND_TOKENS" "\<forall>u\<in>set us. word_shape u \<and> set u \<subseteq> set left" by blast
      then show ?thesis
        using take_token_word [OF t [unfolded Cons] False] few Cons by (intro exI [of _ "t # us"]) auto
    qed
  qed
qed

text \<open>Text without quotes gives up its blanks and keeps the rest.\<close>

lemma parse_unquoted:
  assumes "QUOTE \<notin> set w" and "rest = [] \<or> is_blank (hd rest)" and "parse_tokens (w @ rest) tokens = Some words"
  shows "\<exists>us. parse_tokens rest (tokens @ us) = Some words \<and> concat us = filter (\<lambda>c. \<not> is_blank c) w"
  using assms
proof (induction "length w" arbitrary: w tokens rule: less_induct)
  case less
  show ?case
  proof (cases w)
    case Nil
    then show ?thesis using less.prems by (intro exI [of _ "[]"]) simp
  next
    case (Cons c w')
    show ?thesis
    proof (cases "is_blank c")
      case True
      then show ?thesis using less.hyps [of w' tokens] less.prems Cons by (simp add: parse_blank)
    next
      case False
      let ?t = "takeWhile (\<lambda>c. \<not> is_blank c) w" and ?left = "dropWhile (\<lambda>c. \<not> is_blank c) w"
      have left: "?left @ rest = [] \<or> is_blank (hd (?left @ rest))"
        using less.prems(2) hd_dropWhile [of "\<lambda>c. \<not> is_blank c" w] by (cases "?left = []") (simp_all add: hd_append)
      have "hd (w @ rest) \<noteq> QUOTE" using less.prems(1) Cons by auto
      moreover have "w @ rest = ?t @ (?left @ rest)" by (simp flip: append_assoc)
      ultimately have "take_token (w @ rest) = take_rest False (?t @ (?left @ rest)) []"
        by (simp only: take_token_def if_False)
      also have "\<dots> = Some (?t, ?left @ rest)"
        using take_rest_plain [OF _ left, of ?t "[]"] by (auto dest: set_takeWhileD)
      finally have "parse_tokens (?left @ rest) (tokens @ [?t]) = Some words"
        using less.prems(3) Cons False by (auto simp: parse_tokens.simps [of "c # w' @ rest"] split: if_splits)
      moreover have "length ?left < length w" using Cons False by (simp add: length_dropWhile_le le_imp_less_Suc)
      moreover have "QUOTE \<notin> set ?left" using less.prems(1) by (auto dest: set_dropWhileD)
      ultimately obtain us where us: "parse_tokens rest (tokens @ ?t # us) = Some words"
        "concat us = filter (\<lambda>c. \<not> is_blank c) ?left"
        using less.hyps [of ?left "tokens @ [?t]"] less.prems(2) by auto
      have "filter (\<lambda>c. \<not> is_blank c) w = ?t @ filter (\<lambda>c. \<not> is_blank c) ?left"
        by (induction w) auto
      then show ?thesis using us by (intro exI [of _ "?t # us"]) simp
    qed
  qed
qed

text \<open>
  Arguments that have the shape of words and do not all survive come out with fewer characters, where a carriage
  return split one, or else in a smaller number, where one was empty.
\<close>

lemma lost_arguments:
  assumes "\<And>a. a \<in> set args \<Longrightarrow> word_shape a \<and> NEWLINE \<notin> set a"
    and "parse_tokens (concat (map (\<lambda>a. 32 # quote_if_needed a) args)) tokens = Some words"
  shows "\<exists>us. words = tokens @ us \<and> length (concat us) \<le> length (concat args) \<and>
    (length (concat us) = length (concat args) \<longrightarrow>
      length us \<le> length args \<and> (length us = length args \<longrightarrow> list_all passes args))"
  using assms
proof (induction args arbitrary: tokens)
  case Nil
  then show ?case by (simp add: parse_tokens.simps [of "[]"])
next
  case (Cons a args)
  let ?rest = "concat (map (\<lambda>a. 32 # quote_if_needed a) args)"
  have shape: "word_shape a" "NEWLINE \<notin> set a" using Cons.prems(1) by auto
  have p: "parse_tokens (quote_if_needed a @ ?rest) tokens = Some words"
    using Cons.prems(2) by (simp add: parse_blank is_blank_def)
  have "\<exists>vs. parse_tokens ?rest (tokens @ vs) = Some words \<and> length (concat vs) \<le> length a \<and>
      (length (concat vs) = length a \<longrightarrow> length vs \<le> 1 \<and> (length vs = 1 \<longrightarrow> passes a))"
  proof (cases "passes a")
    case True
    then show ?thesis using p parse_one_token [OF True arguments_start, of quote_if_needed args tokens]
      by (intro exI [of _ "[a]"]) (auto split: if_splits)
  next
    case False
    then have a: "32 \<notin> set a" "9 \<notin> set a" "QUOTE \<notin> set a" "a = [] \<or> 13 \<in> set a"
      using shape by (cases a; auto simp: passes_def word_shape_def is_blank_def split: if_splits)+
    then have "parse_tokens (a @ ?rest) tokens = Some words" using p by (simp add: quote_if_needed_def)
    show ?thesis
    proof (cases "a = []")
      case True
      then show ?thesis using p by (intro exI [of _ "[]"]) (simp add: quote_if_needed_def)
    next
      case False
      then have "length (filter (\<lambda>c. \<not> is_blank c) a) < length a"
        using a(4) by (intro length_filter_less [of 13]) (auto simp: is_blank_def)
      then show ?thesis
        using parse_unquoted [OF a(3) arguments_start \<open>parse_tokens (a @ ?rest) tokens = Some words\<close>] by force
    qed
  qed
  then obtain vs where vs: "parse_tokens ?rest (tokens @ vs) = Some words" "length (concat vs) \<le> length a"
    "length (concat vs) = length a \<longrightarrow> length vs \<le> 1 \<and> (length vs = 1 \<longrightarrow> passes a)" by blast
  from Cons.IH [OF Cons.prems(1) vs(1)] obtain us where us: "words = (tokens @ vs) @ us"
    "length (concat us) \<le> length (concat args)"
    "length (concat us) = length (concat args) \<longrightarrow>
      length us \<le> length args \<and> (length us = length args \<longrightarrow> list_all passes args)" by auto
  then show ?case using vs(2,3) by (intro exI [of _ "vs @ us"]) auto
qed

lemma sent_line_read:
  assumes "args \<noteq> []"
  shows "parse_admin_command (takeWhile (\<lambda>b. b \<noteq> NEWLINE) (adminctl_line args)) =
      Some \<lparr>ad_verb = hd args, ad_arguments = tl args\<rparr> \<longleftrightarrow>
    length args \<le> MAX_COMMAND_TOKENS \<and> list_all passes args" (is "?read = ?typed \<longleftrightarrow> _")
proof -
  let ?cut = "takeWhile (\<lambda>b. b \<noteq> NEWLINE) (adminctl_line args)"
  have typed: "?read = ?typed \<longleftrightarrow> parse_tokens ?cut [] = Some args"
    using assms by (cases args) (auto simp: parse_admin_command_def split: option.splits list.splits)
  have whole: "?cut = append_arguments args []" if "\<forall>a\<in>set args. NEWLINE \<notin> set a"
  proof -
    have "set (append_arguments args line) \<subseteq> set line \<union> {32, QUOTE} \<union> \<Union> (set ` set args)" for line
      by (induction args arbitrary: line) (fastforce simp: quote_if_needed_def split: if_splits)+
    from this [of "[]"] have "NEWLINE \<notin> set (append_arguments args [])" using that by auto
    then show ?thesis by (auto simp: adminctl_line_def takeWhile_append)
  qed
  show ?thesis unfolding typed
  proof
    assume p: "parse_tokens ?cut [] = Some args"
    then have words: "length args \<le> MAX_COMMAND_TOKENS" "\<forall>a\<in>set args. word_shape a \<and> set a \<subseteq> set ?cut"
      using parse_tokens_words [OF p] assms by auto
    then have shape: "\<forall>a\<in>set args. word_shape a \<and> NEWLINE \<notin> set a" by (auto dest!: set_takeWhileD)
    then have "parse_tokens (concat (map (\<lambda>a. 32 # quote_if_needed a) args)) [] = Some args"
      using p whole by (simp add: parse_appended)
    with lost_arguments [of args "[]" args] shape have "list_all passes args" by auto
    with words show "length args \<le> MAX_COMMAND_TOKENS \<and> list_all passes args" by simp
  next
    assume ok: "length args \<le> MAX_COMMAND_TOKENS \<and> list_all passes args"
    then have "\<forall>a\<in>set args. NEWLINE \<notin> set a" by (auto simp: list_all_iff passes_def)
    then show "parse_tokens ?cut [] = Some args"
      using ok whole parse_sent [of args "[]"] by (simp add: parse_appended list_all_iff)
  qed
qed

lemma chunks_read:
  "read_into_buffer (map recv_result.Received chunks @ [Recv_would_block]) buffer = Some (True, buffer @ concat chunks)"
  if "length buffer + length (concat chunks) \<le> MAX_REQUEST_BYTES"
  using that by (induction chunks arbitrary: buffer) auto

lemma chunks_too_long:
  "length buffer \<le> MAX_REQUEST_BYTES \<Longrightarrow> length buffer + length (concat chunks) > MAX_REQUEST_BYTES \<Longrightarrow>
     \<exists>b. read_into_buffer (map recv_result.Received chunks @ [Recv_would_block]) buffer = Some (False, b)"
  by (induction chunks arbitrary: buffer) auto

lemma response_copied: "[] \<notin> set chunks \<Longrightarrow> copy_response_to_output chunks = concat chunks"
  by (induction chunks) auto

lemma sent_all: "adminctl_send_all answers payload = (True, sent) \<Longrightarrow> sent = payload"
  by (induction answers payload arbitrary: sent rule: adminctl_send_all.induct) (auto split: if_splits prod.splits)

lemma adminctl_sent:
  assumes "adminctl_main args handle sends chunks = run" and "ar_exit run = 0" and "args \<noteq> []" and "hd args \<noteq> ascii ''--socket''"
  shows "ar_sent run = adminctl_line args" and "ar_output run = copy_response_to_output chunks" and "ar_errors run = []"
  using assms sent_all [of sends "adminctl_line args"]
  by (auto simp: adminctl_main_def ADMINCTL_EXIT_USAGE_def ADMINCTL_EXIT_CONNECTION_def Let_def
      split: list.splits option.splits prod.splits if_splits)

text \<open>
  C19: what becomes of a command typed for the administration client. Whenever the client exits with success,
  what it sent reaches the service, in any pieces. A line of more than 4096 bytes makes the service close the
  connection and do nothing. Otherwise, if there are at most sixteen words and all of them survive the quoting,
  the service executes exactly the verb and the arguments that were typed, closes what the command asks to close,
  ends the connection once its answer is out, and the client, which receives that answer in any pieces, prints
  it unchanged. In all remaining cases the command the service reads is not the one that was typed, and if it can
  read none, nothing happens.
\<close>

theorem adminctl_command_executed:
  assumes "adminctl_main args handle sends chunks = run" and "ar_exit run = 0" and "args \<noteq> []" and "hd args \<noteq> ascii ''--socket''"
    and "concat pieces = ar_sent run" and "map_of service descriptor = Some new_admin_connection"
    and "execute_admin_command e outcome \<lparr>ad_verb = hd args, ad_arguments = tl args\<rparr> x = (answer, close_requests, x')"
    and "service_admin_connection e outcome (map recv_result.Received pieces @ [Recv_would_block]) server_sends watched descriptor service x = served"
  shows "if length (ar_sent run) > MAX_REQUEST_BYTES then served = Some (close_admin_connection service descriptor, [], x)
    else if length args \<le> MAX_COMMAND_TOKENS \<and> list_all passes args
    then (flush_buffer server_sends answer = Some (False, []) \<longrightarrow>
        served = Some (close_admin_connection service descriptor, close_requests, x')) \<and>
      (concat chunks = answer \<and> [] \<notin> set chunks \<longrightarrow> ar_output run = answer)
    else parse_admin_command (takeWhile (\<lambda>b. b \<noteq> NEWLINE) (ar_sent run)) \<noteq> Some \<lparr>ad_verb = hd args, ad_arguments = tl args\<rparr> \<and>
      (parse_admin_command (takeWhile (\<lambda>b. b \<noteq> NEWLINE) (ar_sent run)) = None \<longrightarrow>
        served = None \<or> (\<exists>service'. served = Some (service', [], x)))"
proof -
  let ?recvs = "map recv_result.Received pieces @ [Recv_would_block]"
  note sent = adminctl_sent [OF assms(1-4)] and read = sent_line_read [OF assms(3)]
  have line: "NEWLINE \<in> set (adminctl_line args)" by (simp add: adminctl_line_def)
  show ?thesis
  proof (cases "length (ar_sent run) > MAX_REQUEST_BYTES")
    case True
    then show ?thesis
      using chunks_too_long [of "[]" pieces] assms(5,6,8)
      by (auto simp: service_admin_connection_def new_admin_connection_def)
  next
    case False
    then have got: "read_into_buffer ?recvs [] = Some (True, adminctl_line args)"
      using chunks_read [of "[]" pieces] assms(5) sent(1) by simp
    show ?thesis
    proof (cases "length args \<le> MAX_COMMAND_TOKENS \<and> list_all passes args")
      case True
      have "build_response e outcome (new_admin_connection\<lparr>am_input := adminctl_line args\<rparr>) x =
          (\<lparr>am_input = [], am_output = answer, am_response_ready = True\<rparr>, close_requests, x')"
        using read True line assms(7) by (simp add: build_response_def)
      then have "flush_buffer server_sends answer = Some (False, []) \<Longrightarrow>
          served = Some (close_admin_connection service descriptor, close_requests, x')"
        using got assms(6,8) by (auto simp: service_admin_connection_def new_admin_connection_def finish_admin_response_def)
      moreover have "concat chunks = answer \<Longrightarrow> [] \<notin> set chunks \<Longrightarrow> ar_output run = answer"
        using sent(2) by (simp add: response_copied)
      ultimately show ?thesis using True False by simp
    next
      case other: False
      have "served = None \<or> (\<exists>service'. served = Some (service', [], x))"
        if none: "parse_admin_command (takeWhile (\<lambda>b. b \<noteq> NEWLINE) (adminctl_line args)) = None"
      proof -
        obtain c where c: "build_response e outcome (new_admin_connection\<lparr>am_input := adminctl_line args\<rparr>) x = (c, [], x)"
          and "am_response_ready c"
          using none line by (simp add: build_response_def)
        then show ?thesis
          using got assms(6,8) by (auto simp: service_admin_connection_def new_admin_connection_def)
      qed
      then show ?thesis using False other read sent(1) by auto
    qed
  qed
qed

theorem adminctl_command_executed_witness:
  "\<exists>run. adminctl_main [ascii ''help'', ascii ''a b''] (Some 3) [Some 4] [build_help] = run \<and>
     service_admin_connection sample_env Backup_done (map recv_result.Received [ascii ''help '' @ [34], ascii ''a b'' @ [34, 10]] @ [Recv_would_block])
       [send_result.Sent (length build_help)] True 7 [(7, new_admin_connection)] sample_admin = Some ([], [], sample_admin) \<and> ar_output run = build_help"
proof -
  let ?args = "[ascii ''help'', ascii ''a b'']" and ?pieces = "[ascii ''help '' @ [34], ascii ''a b'' @ [34, 10]]"
  have line: "adminctl_line ?args = concat ?pieces" by (simp add: adminctl_line_def quote_if_needed_def ascii_def)
  obtain run where r: "adminctl_main ?args (Some 3) [Some 4] [build_help] = run" by simp
  have "adminctl_send_all [Some 4] (adminctl_line ?args) = (True, adminctl_line ?args)"
    unfolding line by (simp add: ascii_def)
  then have exit: "ar_exit run = 0"
    by (simp add: r [symmetric] adminctl_main_def connect_to_socket_def SUN_PATH_SIZE_def DEFAULT_SOCKET_PATH_def ascii_def Let_def)
  have a: "?args \<noteq> []" "hd ?args \<noteq> ascii ''--socket''"
    and pass: "length ?args \<le> MAX_COMMAND_TOKENS" "list_all passes ?args"
    by (simp_all add: ascii_def MAX_COMMAND_TOKENS_def passes_def)
  have p: "concat ?pieces = ar_sent run" and short: "length (ar_sent run) \<le> MAX_REQUEST_BYTES"
    using adminctl_sent(1) [OF r exit a] line by (simp_all add: MAX_REQUEST_BYTES_def ascii_def)
  have x: "execute_admin_command sample_env Backup_done \<lparr>ad_verb = hd ?args, ad_arguments = tl ?args\<rparr> sample_admin = (build_help, [], sample_admin)"
    by (simp add: execute_admin_command_def ascii_def Let_def)
  have f: "build_help \<noteq> []" by (simp add: build_help_def ascii_def)
  then have "flush_buffer [send_result.Sent (length build_help)] build_help = Some (False, [])" by (simp add: flush_buffer.simps)
  with adminctl_command_executed [OF r exit a p _ x refl, of "[(7, new_admin_connection)]" 7 "[send_result.Sent (length build_help)]" True]
    pass short f r show ?thesis
    by (simp add: close_admin_connection_def not_less)
qed

text \<open>An empty argument is lost on the way, and a double quote within an argument that has a blank becomes part of the line's own quoting.\<close>

lemma empty_argument_lost:
  "parse_admin_command (takeWhile (\<lambda>b. b \<noteq> NEWLINE) (adminctl_line [ascii ''motd'', ascii ''set'', []])) =
     Some \<lparr>ad_verb = ascii ''motd'', ad_arguments = [ascii ''set'']\<rparr>"
  by code_simp

lemma quoted_argument_split:
  "parse_admin_command (takeWhile (\<lambda>b. b \<noteq> NEWLINE) (adminctl_line [ascii ''motd'', ascii ''set'', [97, 32, 34, 98, 34]])) =
     Some \<lparr>ad_verb = ascii ''motd'', ad_arguments = [ascii ''set'', [97, 32], [98, 34, 34]]\<rparr>"
  by code_simp

section \<open>What the generator writes is what the programs read\<close>

lemma binary_file_written:
  "write_binary_file path content d = (True, d') \<Longrightarrow> Write_failed \<notin> set (dk_writes d) \<Longrightarrow> \<exists>os. d' = put_file path content os d"
  using write_all_unfailing [of "dk_writes d" "[]" content] by (auto simp: write_binary_file_def split: if_splits)

text \<open>
  The generated keys are the ones the programs run with. When the generator exits with success and no write
  failed, a server that is then started on the file of a server key has that key pair, whatever it would
  have drawn itself, and leaves the file alone; and the file of an identity is unlocked by the passphrase that was
  typed and gives that identity.
\<close>

theorem generated_keys_are_used:
  assumes "keygen_main lib inputs [mode, path] d = run" and "kg_exit run = 0"
    and "Write_failed \<notin> set (dk_writes d)" and "\<not> dk_read_fails d path" and "xaead_correct lib"
    and "keypair_sound (cl_sodium lib) (ki_server_pair inputs)" and "\<And>k. ki_identity_pair inputs = Some k \<Longrightarrow> generated_ok lib k"
    and "length (ki_salt inputs) = ARGON2ID_SALT_SIZE" and "length (ki_nonce inputs) = XCHACHA_NONCE_SIZE"
  shows "mode = ascii ''server'' \<and>
      (\<exists>public secret. ki_server_pair inputs = Some (public, secret) \<and>
        load_or_create_server_key (cl_sodium lib) generated path (kg_disk run) = (Inr (public, secret), kg_disk run)) \<or>
    mode = ascii ''identity'' \<and>
      (\<exists>passphrase keypair. ki_typed inputs = Some passphrase \<and> ki_identity_pair inputs = Some keypair \<and>
        unlock_identity lib path passphrase (kg_disk run) = Inr keypair)"
proof -
  have ready: "ki_sodium_ready inputs" using assms(1,2) by (auto simp: keygen_main_def keygen_fails_def split: if_splits)
  consider "mode = ascii ''server''" | "mode = ascii ''identity''" "mode \<noteq> ascii ''server''"
    using assms(1,2) by (auto simp: keygen_main_def keygen_fails_def split: if_splits)
  then show ?thesis
  proof cases
    case 1
    then obtain public secret where g: "ki_server_pair inputs = Some (public, secret)"
      and w: "write_binary_file path secret d = (True, kg_disk run)"
      using assms(1,2) ready
      by (auto simp: keygen_main_def generate_server_key_def keygen_fails_def split: option.splits prod.splits bool.splits)
    obtain os where "kg_disk run = put_file path secret os d" using binary_file_written [OF w assms(3)] by blast
    then have "read_secret_file path (kg_disk run) = Some secret" using assms(4,6) g by (simp add: read_secret_file_def keypair_sound_def)
    then show ?thesis using 1 g assms(6) key_read_again by (simp add: keypair_sound_def)
  next
    case 2
    then obtain passphrase keypair sealed where g: "ki_typed inputs = Some passphrase" "ki_identity_pair inputs = Some keypair"
      and s: "seal_blob lib (ki_salt inputs) (ki_nonce inputs) passphrase (ik_secret keypair) = Some sealed"
      and w: "write_binary_file path sealed d = (True, kg_disk run)"
      using assms(1,2) ready
      by (auto simp: keygen_main_def generate_identity_def seal_identity_secret_def keygen_fails_def Let_def
          split: option.splits prod.splits bool.splits if_splits)
    obtain os where "kg_disk run = put_file path sealed os d" using binary_file_written [OF w assms(3)] by blast
    then have "unlock_identity lib path passphrase (kg_disk run) = Inr keypair"
      using open_seal_blob [OF assms(5) _ _ s] assms(4,7,8,9) g(2)
      by (simp add: unlock_identity_def read_whole_file_def open_identity_secret_def generated_ok_def)
    then show ?thesis using 2 g by blast
  qed
qed


definition toy_keygen :: keygen_inputs where
  "toy_keygen =
     \<lparr>ki_sodium_ready = True, ki_server_pair = Some (replicate 32 1, replicate 32 1),
      ki_identity_pair = Some \<lparr>ik_public = replicate 32 4, ik_secret = replicate 32 4 @ replicate 32 4\<rparr>,
      ki_typed = Some [2], ki_salt = replicate 16 5, ki_nonce = replicate 24 6\<rparr>"

lemma toy_keygen_ok:
  "keypair_sound (cl_sodium toy_client) (ki_server_pair toy_keygen)"
  "ki_identity_pair toy_keygen = Some k \<Longrightarrow> generated_ok toy_client k"
  "length (ki_salt toy_keygen) = ARGON2ID_SALT_SIZE" "length (ki_nonce toy_keygen) = XCHACHA_NONCE_SIZE"
  "Write_failed \<notin> set (dk_writes empty_disk)" "\<not> dk_read_fails empty_disk [1]"
  using toy_generated_ok [of "replicate 32 4"]
  by (auto simp: keypair_sound_def toy_keygen_def toy_client_def toy_sodium_def compute_public_from_secret_def empty_disk_def)

theorem generated_keys_are_used_witness:
  "load_or_create_server_key (cl_sodium toy_client) None [1] (kg_disk (keygen_main toy_client toy_keygen [ascii ''server'', [1]] empty_disk)) =
     (Inr (replicate 32 1, replicate 32 1), kg_disk (keygen_main toy_client toy_keygen [ascii ''server'', [1]] empty_disk)) \<and>
   unlock_identity toy_client [1] [2] (kg_disk (keygen_main toy_client toy_keygen [ascii ''identity'', [1]] empty_disk)) =
     Inr \<lparr>ik_public = replicate 32 4, ik_secret = replicate 32 4 @ replicate 32 4\<rparr>"
proof -
  obtain sealed where s: "seal_identity_secret toy_client (replicate 16 5) (replicate 24 6) [2] (replicate 32 4 @ replicate 32 4) = Some sealed"
    using toy_seal unfolding seal_identity_secret_def by blast
  have exits: "kg_exit (keygen_main toy_client toy_keygen [ascii ''server'', [1]] empty_disk) = 0"
    "kg_exit (keygen_main toy_client toy_keygen [ascii ''identity'', [1]] empty_disk) = 0"
    using s by (simp_all add: keygen_main_def generate_server_key_def generate_identity_def toy_keygen_def write_binary_file_def
        empty_disk_def ascii_def Let_def)
  have modes: "ascii ''server'' \<noteq> ascii ''identity''" by (simp add: ascii_def)
  from generated_keys_are_used [OF refl exits(1) toy_keygen_ok(5,6) toy_client_ok(1) toy_keygen_ok(1-4), of None]
    generated_keys_are_used [OF refl exits(2) toy_keygen_ok(5,6) toy_client_ok(1) toy_keygen_ok(1-4), of None]
  show ?thesis using modes modes [symmetric] by (simp add: toy_keygen_def)
qed

end
