(* ===== verification/Descriptors.thy ===== *)
theory Descriptors
  imports Server_Start "HOL-Library.Multiset"
begin

text \<open>
  Who closes what: the owning handles of \<^verbatim>\<open>server/net/unique_descriptor.cpp\<close>, the listeners opened and the
  connections accepted through them (\<^verbatim>\<open>tcp_listener.cpp\<close>), and the loop of \<^verbatim>\<open>event_loop.cpp\<close>, both the one of
  epoll and the one of Windows, which keeps the watched descriptors itself.
\<close>

section \<open>Handles (\<open>unique_descriptor.cpp\<close>)\<close>

text \<open>
  Objects are numbered; one that does not exist has no entry, and one that holds nothing has a value below zero.
  The table records what was opened and what was closed, in order.
\<close>

record descriptor_table =
  dt_handles :: "nat \<Rightarrow> int option"
  dt_opened :: "int list"
  dt_closed :: "int list"

definition no_descriptors :: descriptor_table where
  "no_descriptors = \<lparr>dt_handles = Map.empty, dt_opened = [], dt_closed = []\<rparr>"

definition construct_handle :: "nat \<Rightarrow> int \<Rightarrow> descriptor_table \<Rightarrow> descriptor_table" where
  "construct_handle v descriptor t =
     t\<lparr>dt_handles := (dt_handles t)(v \<mapsto> descriptor),
       dt_opened := (if descriptor \<ge> 0 then dt_opened t @ [descriptor] else dt_opened t)\<rparr>"

definition close_descriptor :: "nat \<Rightarrow> descriptor_table \<Rightarrow> descriptor_table" where
  "close_descriptor v t =
     (case dt_handles t v of
        None \<Rightarrow> t
      | Some descriptor \<Rightarrow>
          if descriptor \<ge> 0
          then t\<lparr>dt_handles := (dt_handles t)(v \<mapsto> - 1), dt_closed := dt_closed t @ [descriptor]\<rparr>
          else t)"

definition destroy_handle :: "nat \<Rightarrow> descriptor_table \<Rightarrow> descriptor_table" where
  "destroy_handle v t = (let t1 = close_descriptor v t in t1\<lparr>dt_handles := (dt_handles t1)(v := None)\<rparr>)"

text \<open>\<^verbatim>\<open>std::exchange(other.descriptor_, -1)\<close>, stored in the first object.\<close>

definition take_descriptor :: "nat \<Rightarrow> nat \<Rightarrow> descriptor_table \<Rightarrow> descriptor_table" where
  "take_descriptor v other t = t\<lparr>dt_handles := (dt_handles t)(other \<mapsto> - 1, v := dt_handles t other)\<rparr>"

definition move_construct :: "nat \<Rightarrow> nat \<Rightarrow> descriptor_table \<Rightarrow> descriptor_table" where
  "move_construct v other t = take_descriptor v other t"

definition move_assign :: "nat \<Rightarrow> nat \<Rightarrow> descriptor_table \<Rightarrow> descriptor_table" where
  "move_assign v other t = (if v = other then t else take_descriptor v other (close_descriptor v t))"

section \<open>Listeners and connections\<close>

abbreviation MEMBER :: nat where "MEMBER \<equiv> 0"
abbreviation LOCAL :: nat where "LOCAL \<equiv> 1"

text \<open>\<^verbatim>\<open>tcp_listener::open_listener\<close> with its local handle, which goes out of scope on every path.\<close>

definition open_listener_handles ::
  "listener_answers \<Rightarrow> bytes \<Rightarrow> u16 \<Rightarrow> descriptor_table \<Rightarrow> (listener_error + unit) \<times> descriptor_table" where
  "open_listener_handles k address port t =
     (if \<not> la_address_valid k then (Inl (Invalid_address address), t)
      else let t1 = construct_handle LOCAL (la_socket k) t in
        if la_socket k < 0 then (Inl No_socket, destroy_handle LOCAL t1)
        else if \<not> la_bind k then (Inl (Bind_refused address port), destroy_handle LOCAL t1)
        else if \<not> la_nonblocking k \<or> \<not> la_listen k then (Inl Listen_refused, destroy_handle LOCAL t1)
        else (Inr (), destroy_handle LOCAL (move_assign MEMBER LOCAL t1)))"

text \<open>
  The value for the caller, the address of the peer and what the call has closed again: a connection that
  cannot be made non-blocking is closed and reported as none. \<open>shown\<close> is what \<^verbatim>\<open>inet_ntop\<close> gives; without
  it the address stays as it was.
\<close>

definition accept_connection :: "int \<Rightarrow> bool \<Rightarrow> bytes option \<Rightarrow> bytes \<Rightarrow> int \<times> bytes \<times> int list" where
  "accept_connection accepted nonblocking shown peer_address =
     (if accepted < 0 then (- 1, peer_address, [])
      else if \<not> nonblocking then (- 1, peer_address, [accepted])
      else (accepted, case shown of None \<Rightarrow> peer_address | Some address \<Rightarrow> address, []))"

section \<open>The loop (\<open>event_loop.cpp\<close>)\<close>

definition EPOLLOUT :: u32 where "EPOLLOUT = 0x004"
definition EPOLLRDHUP :: u32 where "EPOLLRDHUP = 0x200"
definition MAX_EVENTS_PER_WAIT :: nat where "MAX_EVENTS_PER_WAIT = 256"

definition watch_mask :: "bool \<Rightarrow> u32" where
  "watch_mask watch_write = (let events = EPOLLIN OR EPOLLRDHUP in if watch_write then events OR EPOLLOUT else events)"

text \<open>What \<^verbatim>\<open>epoll_wait\<close> answers; the result is \<open>None\<close> for a failure, as the rounds of the server have it.\<close>

datatype 'e wait_answer = Ready "'e list" | Wait_interrupted | Wait_error

definition wait_for_events :: "'e wait_answer \<Rightarrow> 'e list option" where
  "wait_for_events answer =
     (case answer of
        Ready events \<Rightarrow> Some (take MAX_EVENTS_PER_WAIT events) | Wait_interrupted \<Rightarrow> Some [] | Wait_error \<Rightarrow> None)"

text \<open>On Windows: the watched descriptors in the order of the map, with their interest in writing.\<close>

type_synonym watched_sockets = "(int \<times> bool) list"

fun watch_socket :: "int \<Rightarrow> bool \<Rightarrow> watched_sockets \<Rightarrow> watched_sockets" where
  "watch_socket descriptor watch_write [] = [(descriptor, watch_write)]"
| "watch_socket descriptor watch_write ((d, w) # rest) =
     (if descriptor < d then (descriptor, watch_write) # (d, w) # rest
      else if descriptor = d then (descriptor, watch_write) # rest
      else (d, w) # watch_socket descriptor watch_write rest)"

definition forget_socket :: "int \<Rightarrow> watched_sockets \<Rightarrow> watched_sockets" where
  "forget_socket descriptor watched = filter (\<lambda>(d, _). d \<noteq> descriptor) watched"

definition POLLRDNORM :: u16 where "POLLRDNORM = 0x0100"
definition POLLIN :: u16 where "POLLIN = 0x0300"
definition POLLWRNORM :: u16 where "POLLWRNORM = 0x0010"
definition POLLHUP :: u16 where "POLLHUP = 0x0002"
definition POLLERR :: u16 where "POLLERR = 0x0001"

definition poll_interest :: "bool \<Rightarrow> u16" where
  "poll_interest watch_write = (if watch_write then POLLRDNORM OR POLLWRNORM else POLLRDNORM)"

definition translate_revents :: "u16 \<Rightarrow> u32" where
  "translate_revents revents =
     (if revents AND (POLLRDNORM OR POLLIN) \<noteq> 0 then EPOLLIN else 0) OR
     (if revents AND POLLWRNORM \<noteq> 0 then EPOLLOUT else 0) OR
     (if revents AND POLLHUP \<noteq> 0 then EPOLLHUP else 0) OR
     (if revents AND POLLERR \<noteq> 0 then EPOLLERR else 0)"

text \<open>\<open>poll\<close> gives the count and what happened on each descriptor for the list that is handed to it.\<close>

definition wait_for_sockets :: "((int \<times> u16) list \<Rightarrow> int \<times> (int \<Rightarrow> u16)) \<Rightarrow> watched_sockets \<Rightarrow> int \<times> (int \<times> u32) list" where
  "wait_for_sockets poll watched =
     (if watched = [] then (0, [])
      else case poll (map (\<lambda>(d, w). (d, poll_interest w)) watched) of (found, revents) \<Rightarrow>
        if found \<le> 0 then (found, [])
        else let events = map (\<lambda>(d, _). (d, translate_revents (revents d))) (filter (\<lambda>(d, _). revents d \<noteq> 0) watched) in
          (int (length events), events))"

section \<open>Every descriptor is closed exactly once\<close>

text \<open>What a program can do with handles; the kernel never hands out a descriptor that is still held.\<close>

datatype handle_event =
    Construct nat int | Close_handle nat | Destroy nat | Move_construct nat nat | Move_assign nat nat

definition held :: "int \<Rightarrow> descriptor_table \<Rightarrow> bool" where
  "held descriptor t \<longleftrightarrow> descriptor \<in> ran (dt_handles t)"

inductive handle_step :: "descriptor_table \<Rightarrow> handle_event \<Rightarrow> descriptor_table \<Rightarrow> bool" where
  step_construct: "dt_handles t v = None \<Longrightarrow> descriptor < 0 \<or> \<not> held descriptor t \<Longrightarrow>
    handle_step t (Construct v descriptor) (construct_handle v descriptor t)"
| step_close_handle: "handle_step t (Close_handle v) (close_descriptor v t)"
| step_destroy: "handle_step t (Destroy v) (destroy_handle v t)"
| step_move_construct: "dt_handles t v = None \<Longrightarrow> dt_handles t other \<noteq> None \<Longrightarrow>
    handle_step t (Move_construct v other) (move_construct v other t)"
| step_move_assign: "dt_handles t v \<noteq> None \<Longrightarrow> dt_handles t other \<noteq> None \<Longrightarrow>
    handle_step t (Move_assign v other) (move_assign v other t)"

inductive_cases handle_stepE: "handle_step t e t'"

definition one_owner :: "descriptor_table \<Rightarrow> bool" where
  "one_owner t \<longleftrightarrow> (\<forall>v w d. dt_handles t v = Some d \<and> dt_handles t w = Some d \<and> d \<ge> 0 \<longrightarrow> v = w)"

definition conserved :: "descriptor_table \<Rightarrow> bool" where
  "conserved t \<longleftrightarrow>
     (\<forall>d \<ge> 0. count_list (dt_opened t) d = count_list (dt_closed t) d + (if held d t then 1 else 0)) \<and>
     list_all (\<lambda>d. d \<ge> 0) (dt_opened t @ dt_closed t)"

definition handles_ok :: "descriptor_table \<Rightarrow> bool" where
  "handles_ok t \<longleftrightarrow> one_owner t \<and> conserved t"

lemma held_iff: "held d t \<longleftrightarrow> (\<exists>v. dt_handles t v = Some d)"
  by (auto simp: held_def ran_def)

lemma held_update: "held e (t\<lparr>dt_handles := (dt_handles t)(v := x)\<rparr>) \<longleftrightarrow> x = Some e \<or> (\<exists>w. w \<noteq> v \<and> dt_handles t w = Some e)"
  by (auto simp: held_iff)

lemma held_same: "dt_handles t' = dt_handles t \<Longrightarrow> held e t' \<longleftrightarrow> held e t"
  by (simp add: held_def)

lemma construct_ok:
  assumes "handles_ok t" and "dt_handles t v = None" and "d < 0 \<or> \<not> held d t"
  shows "handles_ok (construct_handle v d t)"
proof -
  have "held e (construct_handle v d t) \<longleftrightarrow> e = d \<or> held e t" for e
    using held_update [of e t v "Some d"] held_same [of "construct_handle v d t" "t\<lparr>dt_handles := (dt_handles t)(v \<mapsto> d)\<rparr>"]
      assms(2) unfolding held_iff [of e t] by (simp add: construct_handle_def) (metis option.distinct(1))
  then show ?thesis using assms
    by (auto simp: handles_ok_def one_owner_def conserved_def construct_handle_def held_iff)
qed

lemma close_ok:
  assumes "handles_ok t"
  shows "handles_ok (close_descriptor v t)" and "dt_handles (close_descriptor v t) v = None \<longleftrightarrow> dt_handles t v = None"
    and "dt_handles (close_descriptor v t) v \<noteq> Some d \<or> d < 0" and "w \<noteq> v \<Longrightarrow> dt_handles (close_descriptor v t) w = dt_handles t w"
proof -
  show "handles_ok (close_descriptor v t)"
  proof (cases "\<exists>x \<ge> 0. dt_handles t v = Some x")
    case True
    then obtain x where x: "x \<ge> 0" "dt_handles t v = Some x" by blast
    then have "held e (close_descriptor v t) \<longleftrightarrow> held e t \<and> e \<noteq> x" if "e \<ge> 0" for e
      using that assms held_update [of e t v "Some (- 1)"]
        held_same [of "close_descriptor v t" "t\<lparr>dt_handles := (dt_handles t)(v \<mapsto> - 1)\<rparr>"]
      unfolding held_iff [of e t] handles_ok_def one_owner_def by (simp add: close_descriptor_def) (metis option.inject)
    then show ?thesis using assms x
      by (auto simp: handles_ok_def one_owner_def conserved_def close_descriptor_def held_iff)
  next
    case False
    then have "close_descriptor v t = t" by (auto simp: close_descriptor_def split: option.splits)
    then show ?thesis using assms by simp
  qed
qed (auto simp: close_descriptor_def split: option.splits)

lemma rearranged_ok:
  assumes "handles_ok t" and "one_owner t'" and "\<And>e. e \<ge> 0 \<Longrightarrow> held e t' \<longleftrightarrow> held e t"
    and "dt_opened t' = dt_opened t" and "dt_closed t' = dt_closed t"
  shows "handles_ok t'"
  using assms by (auto simp: handles_ok_def conserved_def)

lemma destroy_ok: "handles_ok t \<Longrightarrow> handles_ok (destroy_handle v t)"
proof -
  assume t: "handles_ok t"
  note c = close_ok [OF t, where v = v]
  show ?thesis
  proof (rule rearranged_ok [OF c(1)])
    show "one_owner (destroy_handle v t)" using c(1) by (auto simp: one_owner_def handles_ok_def destroy_handle_def Let_def)
    show "held e (destroy_handle v t) \<longleftrightarrow> held e (close_descriptor v t)" if "e \<ge> 0" for e
      using c(3) [of e] that by (auto simp: held_iff destroy_handle_def Let_def)
  qed (simp_all add: destroy_handle_def Let_def)
qed

lemma take_ok:
  assumes "handles_ok t" and "v \<noteq> other" and "dt_handles t other \<noteq> None" and "\<And>d. dt_handles t v = Some d \<Longrightarrow> d < 0"
  shows "handles_ok (take_descriptor v other t)"
proof (rule rearranged_ok [OF assms(1)])
  show "one_owner (take_descriptor v other t)"
    using assms by (auto simp: one_owner_def handles_ok_def take_descriptor_def)
  show "held e (take_descriptor v other t) \<longleftrightarrow> held e t" if "e \<ge> 0" for e
  proof -
    have "(\<exists>w. dt_handles (take_descriptor v other t) w = Some e) \<longleftrightarrow>
        dt_handles t other = Some e \<or> (\<exists>w. w \<noteq> v \<and> w \<noteq> other \<and> dt_handles t w = Some e)"
      using assms(2) that by (auto simp: take_descriptor_def)
    moreover have "dt_handles t v \<noteq> Some e" using assms(4) [of e] that by auto
    ultimately show ?thesis unfolding held_iff by metis
  qed
qed (simp_all add: take_descriptor_def)

lemma move_construct_ok:
  "handles_ok t \<Longrightarrow> dt_handles t v = None \<Longrightarrow> dt_handles t other \<noteq> None \<Longrightarrow> handles_ok (move_construct v other t)"
  unfolding move_construct_def by (rule take_ok) auto

lemma move_assign_ok:
  assumes "handles_ok t" and "dt_handles t other \<noteq> None"
  shows "handles_ok (move_assign v other t)"
proof (cases "v = other")
  case False
  note c = close_ok [OF assms(1), where v = v]
  have "dt_handles (close_descriptor v t) other \<noteq> None" using c(4) [of other] False assms(2) by metis
  then have "handles_ok (take_descriptor v other (close_descriptor v t))"
    using c(3) by (intro take_ok [OF c(1) False]) auto
  then show ?thesis using False by (simp add: move_assign_def)
qed (simp add: move_assign_def assms(1))

interpretation handles: invariant_machine "\<lambda>t. t = no_descriptors" handle_step handles_ok
proof
  show "handles_ok t" if "t = no_descriptors" for t
    using that by (simp add: no_descriptors_def handles_ok_def one_owner_def conserved_def held_iff)
  show "handles_ok t'" if "handles_ok t" "handle_step t e t'" for t e t'
    using that by (auto elim!: handle_stepE intro: construct_ok destroy_ok move_construct_ok move_assign_ok close_ok(1))
qed

text \<open>
  C20: descriptors are closed exactly once. Whatever a program does with handles, at every moment a descriptor has at
  most one owner, and it has been closed as often as it was handed out, less one while it is held; when no
  handle is left, what was closed is what was opened.
\<close>

theorem descriptors_closed_once:
  assumes "reachable (\<lambda>t. t = no_descriptors) handle_step t" and "d \<ge> 0"
  shows "count_list (dt_opened t) d = count_list (dt_closed t) d + (if held d t then 1 else 0) \<and>
    (dt_handles t v = Some d \<and> dt_handles t w = Some d \<longrightarrow> v = w) \<and>
    (dt_handles t = Map.empty \<longrightarrow> mset (dt_closed t) = mset (dt_opened t))"
proof -
  have ok: "handles_ok t" using assms(1) by (rule handles.reachable_inv)
  have "mset (dt_closed t) = mset (dt_opened t)" if "dt_handles t = Map.empty"
  proof (rule multiset_eqI)
    fix e
    show "count (mset (dt_closed t)) e = count (mset (dt_opened t)) e"
    proof (cases "e \<ge> 0")
      case True
      then show ?thesis using ok that by (simp add: handles_ok_def conserved_def held_iff count_mset count_list_eq_length_filter)
    next
      case False
      then have "e \<notin> set (dt_closed t)" "e \<notin> set (dt_opened t)" using ok by (auto simp: handles_ok_def conserved_def list_all_iff)
      then have "e \<notin># mset (dt_closed t)" "e \<notin># mset (dt_opened t)" by simp_all
      then show ?thesis by (simp only: not_in_iff)
    qed
  qed
  then show ?thesis using ok assms(2) unfolding handles_ok_def one_owner_def conserved_def by blast
qed


text \<open>The life of a listener: a member that holds nothing, a socket made in a local handle, moved into the member, all gone at the end.\<close>

definition toy_life :: "descriptor_table" where
  "toy_life = destroy_handle 0 (destroy_handle 1 (move_assign 0 1 (construct_handle 1 5 (construct_handle 0 (- 1) no_descriptors))))"

lemma toy_life_reachable: "reachable (\<lambda>t. t = no_descriptors) handle_step toy_life"
proof -
  let ?t1 = "construct_handle 0 (- 1) no_descriptors"
  have "handle_step no_descriptors (Construct 0 (- 1)) ?t1" by (rule step_construct) (simp_all add: no_descriptors_def)
  moreover have "handle_step ?t1 (Construct 1 5) (construct_handle 1 5 ?t1)"
    by (rule step_construct) (simp_all add: construct_handle_def no_descriptors_def held_iff)
  moreover have "handle_step (construct_handle 1 5 ?t1) (Move_assign 0 1) (move_assign 0 1 (construct_handle 1 5 ?t1))"
    by (rule step_move_assign) (simp_all add: construct_handle_def)
  ultimately have "reachable (\<lambda>t. t = no_descriptors) handle_step (move_assign 0 1 (construct_handle 1 5 ?t1))"
    using reachable_init [of "\<lambda>t. t = no_descriptors" no_descriptors handle_step, OF refl] by (metis reachable_step)
  from reachable_step [OF reachable_step [OF this step_destroy] step_destroy] show ?thesis unfolding toy_life_def .
qed

theorem descriptors_closed_once_witness:
  "count_list (dt_opened toy_life) 5 = count_list (dt_closed toy_life) 5 \<and> dt_closed toy_life = [5] \<and> \<not> held 5 toy_life"
proof -
  have "dt_closed toy_life = [5]" "\<not> held 5 toy_life"
    by (simp_all add: toy_life_def held_iff no_descriptors_def construct_handle_def destroy_handle_def move_assign_def
        take_descriptor_def close_descriptor_def)
  then show ?thesis using descriptors_closed_once [OF toy_life_reachable, of 5] by simp
qed

section \<open>Opening a listener\<close>

text \<open>
  Opening with handles does what \<^verbatim>\<open>open_listener\<close> promises: on success the member owns the new socket and what it
  held before is closed; on any failure the handles are as before, so that the socket, if there was one, is closed.
\<close>

theorem listener_opening_owns_socket:
  assumes "handles_ok t" and "dt_handles t MEMBER = Some old" and "dt_handles t LOCAL = None"
    and "la_socket k < 0 \<or> \<not> held (la_socket k) t" and "open_listener_handles k address port t = (r, t')"
  shows "handles_ok t' \<and>
    (case tcp_open_listener k address port of
       Inl e \<Rightarrow> r = Inl e \<and> dt_handles t' = dt_handles t
     | Inr d \<Rightarrow> r = Inr () \<and> dt_handles t' = (dt_handles t)(MEMBER \<mapsto> d) \<and> (old \<ge> 0 \<longrightarrow> old \<in> set (dt_closed t')))"
proof -
  let ?t1 = "construct_handle LOCAL (la_socket k) t"
  have ok1: "handles_ok ?t1" using construct_ok assms(1,3,4) by blast
  have restored: "dt_handles (destroy_handle LOCAL ?t1) = dt_handles t"
    using assms(3) by (auto simp: destroy_handle_def close_descriptor_def construct_handle_def Let_def)
  have ok2: "handles_ok (move_assign MEMBER LOCAL ?t1)"
    by (rule move_assign_ok [OF ok1]) (simp add: construct_handle_def)
  have moved: "dt_handles (destroy_handle LOCAL (move_assign MEMBER LOCAL ?t1)) = (dt_handles t)(MEMBER \<mapsto> la_socket k)"
    "old \<ge> 0 \<longrightarrow> old \<in> set (dt_closed (destroy_handle LOCAL (move_assign MEMBER LOCAL ?t1)))"
    using assms(2,3)
    by (auto simp: destroy_handle_def close_descriptor_def construct_handle_def move_assign_def take_descriptor_def Let_def)
  show ?thesis
    using assms(1,5) destroy_ok [OF ok1, of LOCAL] destroy_ok [OF ok2, of LOCAL] restored moved
    by (auto simp: open_listener_handles_def tcp_open_listener_def Let_def split: if_splits)
qed

section \<open>The loop on Windows\<close>

lemma watch_socket_keys:
  "sorted_wrt (<) (map fst watched) \<Longrightarrow>
     sorted_wrt (<) (map fst (watch_socket d w watched)) \<and> fst ` set (watch_socket d w watched) = insert d (fst ` set watched)"
  by (induction d w watched rule: watch_socket.induct) auto

lemma watch_socket_lookup:
  "sorted_wrt (<) (map fst watched) \<Longrightarrow> map_of (watch_socket d w watched) = (map_of watched)(d \<mapsto> w)"
proof (induction d w watched rule: watch_socket.induct)
  case (2 d w e v rest)
  have "map_of rest d = None" if "d < e" using 2(2) that by (force simp: map_of_eq_None_iff)
  then show ?case using 2 by (auto simp: fun_eq_iff)
qed simp

text \<open>A wait reports watched descriptors only, each once, and nothing that did not happen.\<close>

lemma wait_reports_watched:
  assumes "wait_for_sockets poll watched = (n, events)" and "sorted_wrt (<) (map fst watched)"
  shows "set (map fst events) \<subseteq> fst ` set watched \<and> distinct (map fst events) \<and> (n > 0 \<longrightarrow> n = int (length events))"
proof -
  obtain found revents where p: "poll (map (\<lambda>(d, w). (d, poll_interest w)) watched) = (found, revents)" by (rule prod.exhaust)
  let ?some = "filter (\<lambda>(d, _). revents d \<noteq> 0) watched"
  have names: "map fst (map (\<lambda>(d, _). (d, translate_revents (revents d))) ?some) = map fst ?some" by (simp add: case_prod_beta)
  have "distinct (map fst watched)" using assms(2) by (simp add: strict_sorted_iff)
  then have some: "distinct (map fst ?some)" "set (map fst ?some) \<subseteq> fst ` set watched" by (auto intro: distinct_map_filter)
  consider "events = []" "n \<le> 0" | "events = map (\<lambda>(d, _). (d, translate_revents (revents d))) ?some" "n = int (length events)"
    using assms(1) p by (auto simp: wait_for_sockets_def Let_def split: if_splits)
  then show ?thesis
  proof cases
    case 2
    then have "map fst events = map fst ?some" using names by simp
    then show ?thesis using some 2(2) by (metis (no_types))
  qed simp
qed

end
