(* ===== verification/Spec2Isabelle.thy ===== *)
theory Spec2Isabelle
  imports Server_Properties Cli_Registry Cli_Properties Ui_Properties Tools Descriptors
begin

text \<open>
  HyperCom: a forum, profile and private-message network in C++. A server (\<^verbatim>\<open>src/server\<close>) keeps the
  data in SQLite and serves clients over a Noise-encrypted TCP stream with a binary protocol
  (\<^verbatim>\<open>src/common\<close>); a command line client and a graphical client (\<^verbatim>\<open>src/client\<close>) share the keys, the
  files and the connection.

  The parts and their theories, from the bytes up:

  \<^item> \<open>Prelude\<close>: types of the model, lemmas on lists and words, the lemma collections.
  \<^item> \<open>Byte_Codec\<close>, \<open>Codec_Interface\<close>, \<open>Text_Field\<close>, \<open>Frame\<close>, \<open>Messages_Session\<close>, \<open>Messages_Content\<close>,
    \<open>Messages_Social\<close>: the wire format (\<^verbatim>\<open>common/protocol\<close>). The locale \<open>codec\<close> is the contract of a
    message (what is written is read back, what is read was written, reads stay in the buffer,
    truncated messages are rejected), interpreted for every message of the protocol; \<open>Frame\<close>
    holds the frame header and the reassembly of the stream.
  \<^item> \<open>Util\<close>, \<open>Config\<close>: hexadecimal, logger, configuration parser and validator.
  \<^item> \<open>Noise\<close>, \<open>Connection\<close>: both ends of the handshake, the transport, the socket with its bounded
    queue, and the state of a client connection. The library's primitives are the record \<open>sodium\<close>,
    a parameter; its laws are the named hypotheses \<open>aead_correct\<close> and \<open>dh_agrees\<close>, and \<open>unforged\<close> (the
    integrity of ciphertexts) where messages are tampered with on the way.
  \<^item> \<open>Rate_Limit\<close>, \<open>Registry\<close>: request limits, which windows of a minute enforce up to a factor of two, and
    the table of connections with its caps; \<open>State_Machine\<close> is the
    locale for invariants of step relations that \<open>Registry\<close> interprets.
  \<^item> \<open>Database\<close>, \<open>Repositories\<close>: the tables and every SQL statement of \<^verbatim>\<open>server/db\<close> as an operation on
    them. Any step of the storage engine may fail: the failures to come are the list \<open>db_faults\<close>.
    Rows that a query orders by a key come in identifier order where the keys are equal.
  \<^item> \<open>Integrity\<close>, \<open>Transactions\<close>, \<open>Listings\<close>: the invariant of the tables as a contract
    (locale \<open>write_statement\<close>) that every statement meets; transactions as refinements of
    all-or-nothing changes; what the listing queries return.
  \<^item> \<open>Handler_Context\<close>, \<open>Handlers\<close>: the request handlers of \<^verbatim>\<open>server/handlers\<close> as actions of a state
    monad over the context (logger, database, connection, clock and randomness), and the router.
  \<^item> \<open>Authority\<close>, \<open>Sessions\<close>, \<open>Request_Properties\<close>: the abstract relations \<open>own_change\<close> and
    \<open>session_move\<close>, the locale \<open>action_contract\<close>, the refinement of both relations by the handlers,
    and the properties that follow: invariants, authentication, protection of other accounts.

  \<^item> \<open>Processor\<close>, \<open>Input_Properties\<close>: what the server does with the bytes of a connection (handshake,
    frames, limits, the input loop), and that it does not depend on how the stream is cut.
  \<^item> \<open>Admin\<close>, \<open>Admin_Properties\<close>: the administration commands of \<^verbatim>\<open>server/admin\<close>; the relation
    \<open>command_reach\<close> gives what each of them may change, as \<^verbatim>\<open>docs/ADMIN.md\<close> documents it.
  \<^item> \<open>Server\<close>, \<open>Server_Properties\<close>: the event loop of \<^verbatim>\<open>server/net/server_runtime.cpp\<close> over lists of
    events; its runs are the steps of \<open>State_Machine\<close>.
  \<^item> \<open>Migrations\<close>: \<^verbatim>\<open>server/db/migration_runner.cpp\<close> over a store whose statements may fail; what a start leaves
    behind is a prefix of the pending migrations, applied in order and each as a whole.
  \<^item> \<open>Server_Start\<close>: \<^verbatim>\<open>server_main.cpp\<close> from the configuration to the exit code: database, migrations, the
    long-term key (\<^verbatim>\<open>server_static_key.cpp\<close>), the file for clients, the listeners. The key survives restarts,
    and a client that is given the file finds the server and its key.
  \<^item> \<open>Descriptors\<close>: the owning handles of \<^verbatim>\<open>unique_descriptor.cpp\<close> as a step relation in which every descriptor
    is closed exactly once, \<^verbatim>\<open>tcp_listener.cpp\<close> on them, and \<^verbatim>\<open>event_loop.cpp\<close>.
  \<^item> \<open>Tools\<close>: \<^verbatim>\<open>tools/adminctl\<close> and \<^verbatim>\<open>tools/keygen\<close>: when exactly what is typed for the administration client
    is what the service executes, and that generated keys are the ones the programs run with.

  The client (\<^verbatim>\<open>src/client\<close>, and the keys of \<^verbatim>\<open>src/common/crypto\<close> that only clients have):

  \<^item> \<open>Client_Crypto\<close>, \<open>Direct_Message\<close>: identities, session keys, the message chain, envelopes and the
    courier of private messages. The further primitives are the record \<open>client_lib\<close>.
  \<^item> \<open>Word_List\<close>, \<open>Recovery_Phrase\<close>: the 2048 words and the twelve-word phrase.
  \<^item> \<open>Keystore\<close>: sealed files on a disk that may fail or write short; master seed and identities.
  \<^item> \<open>Server_List\<close>: invitations and the sealed registry of servers.
  \<^item> \<open>Client_Connection\<close>, \<open>Client_Properties\<close>: socket, SOCKS5, the encrypted connection and the login, over
    the list of the network's answers; what the client receives, whom it talks to, what it signs.

  \<^item> \<open>Cli_Options\<close>: the options of both clients (\<^verbatim>\<open>client/cli/cli_options.cpp\<close>), connect files included, and
    that every setting can be written as arguments and read back.
  \<^item> \<open>Cli_Commands\<close>, \<open>Cli_Process\<close>: the commands of \<^verbatim>\<open>client/cli\<close> as programs of a state and error monad over
    the connection and what is printed, and \<^verbatim>\<open>cli_main.cpp\<close> from the arguments to the exit code over the
    disk, the typed lines and the output. The locale \<open>command_contract\<close> carries a relation between the
    states through the monad.
  \<^item> \<open>Cli_Registry\<close>, \<open>Cli_Properties\<close>: what the commands do to files and to the list of servers; a
    conversation with a server that answers frame by frame, and what \<^verbatim>\<open>dm-send\<close> and \<^verbatim>\<open>dm-fetch\<close> make of it.
  \<^item> \<open>I18n\<close>, \<open>Ui_Actions\<close>, \<open>Ui_Servers\<close>: the graphical client (\<^verbatim>\<open>client/ui\<close>): the translations, the state
    shown for a server with every action on it, the list of servers, the start, and \<open>gui_step\<close>, the relation of
    a frame or of one thing a user can do with what is shown.
  \<^item> \<open>Ui_Properties\<close>: the locale \<open>slot_contract\<close> of the building blocks of actions, and over all runs of
    \<open>gui_step\<close>: what is shown satisfies the limits of the protocol, a server is not contacted before its
    warning is acknowledged; and what a failed login leaves behind.

  Recursions over input are structural or have a termination proof; no fuel is used. The clock, the
  random generator, the kernel's answers to reads and writes and the storage engine's failures are
  arguments, so each theorem holds for every such sequence. In the graphical client the conditions of the
  coming attempts to connect are part of a slot; the texts of failures are values that name their cause.

  Not modelled: drawing, themes, scaling, sound and the welcome animation of the graphical client (so that
  the step relation leaves out that a running animation hides the rest, and the flag that starts it is set
  but not consumed), the lengths of its input fields and the date of a message in its inbox, which nothing
  shows (scaling and animation are floating-point code that no other state depends on); sockets and \<^verbatim>\<open>epoll\<close>
  beyond their results; what a migration script and a backup do inside SQLite; the directories that are made
  for the files; the tests and the tool that feeds random frames to the codec.
\<close>

end
